(* ===== verification/Prelude.thy ===== *)
theory Prelude
  imports
    Main
    "HOL-Library.Word"
    "HOL-Library.Finite_Map"
    "HOL-Library.List_Lexorder"
    "HOL-Library.Char_ord"
begin

text \<open>
  What every component of the development shares: the machine integers of the Rust
  sources at their width, with the saturating and checked operations the code calls; byte
  strings and their little-endian, decimal and hexadecimal encodings; \<open>BTreeMap\<close> and
  \<open>BTreeSet\<close> as finite maps and sets walked in key order; fallible results; and files that
  are replaced atomically.  A Rust \<open>String\<close> is the list of its UTF-8 bytes, a
  \<^typ>\<open>string\<close>: its order is the bytewise order of the language, and \<open>len\<close> counts bytes.
\<close>

named_theorems unat_simps \<open>reading saturating and checked words as natural numbers\<close>
named_theorems bt_simps \<open>ordered maps after an update\<close>

section \<open>Machine integers\<close>

type_synonym u8 = "8 word"
type_synonym u16 = "16 word"
type_synonym u32 = "32 word"
type_synonym u64 = "64 word"
type_synonym usize = "64 word"
type_synonym bytes = "u8 list"

definition sat_add :: "'a::len word \<Rightarrow> 'a word \<Rightarrow> 'a word" where
  "sat_add a b = (if unat a + unat b < 2 ^ LENGTH('a) then a + b else - 1)"

definition sat_sub :: "'a::len word \<Rightarrow> 'a word \<Rightarrow> 'a word" where
  "sat_sub a b = (if b \<le> a then a - b else 0)"

definition sat_mul :: "'a::len word \<Rightarrow> 'a word \<Rightarrow> 'a word" where
  "sat_mul a b = (if unat a * unat b < 2 ^ LENGTH('a) then a * b else - 1)"

definition checked_add :: "'a::len word \<Rightarrow> 'a word \<Rightarrow> 'a word option" where
  "checked_add a b = (if unat a + unat b < 2 ^ LENGTH('a) then Some (a + b) else None)"

definition checked_mul :: "'a::len word \<Rightarrow> 'a word \<Rightarrow> 'a word option" where
  "checked_mul a b = (if unat a * unat b < 2 ^ LENGTH('a) then Some (a * b) else None)"

lemma unat_bound: "unat (w :: 'a::len word) < 2 ^ LENGTH('a)"
  by (fact unsigned_less)

lemma unat_minus_one_word_pow: "unat (- 1 :: 'a::len word) = 2 ^ LENGTH('a) - 1"
  by (simp add: unsigned_minus_1_eq_mask mask_eq_exp_minus_1)

lemma unat_sat_add [unat_simps]:
  "unat (sat_add a b) = min (unat a + unat b) (2 ^ LENGTH('a) - 1)" for a b :: "'a::len word"
proof (cases "unat a + unat b < 2 ^ LENGTH('a)")
  case True
  then show ?thesis by (simp add: sat_add_def unat_word_ariths)
next
  case False
  then show ?thesis by (simp add: sat_add_def unat_minus_one_word_pow)
qed

lemma unat_sat_sub [unat_simps]: "unat (sat_sub a b) = unat a - unat b"
  by (auto simp: sat_sub_def unat_sub word_le_nat_alt)

lemma unat_sat_mul [unat_simps]:
  "unat (sat_mul a b) = min (unat a * unat b) (2 ^ LENGTH('a) - 1)" for a b :: "'a::len word"
proof (cases "unat a * unat b < 2 ^ LENGTH('a)")
  case True
  then show ?thesis by (simp add: sat_mul_def unat_word_ariths)
next
  case False
  then show ?thesis by (simp add: sat_mul_def unat_minus_one_word_pow)
qed

lemma checked_add_Some_iff:
  "checked_add a b = Some c \<longleftrightarrow> unat a + unat b < 2 ^ LENGTH('a) \<and> c = a + b"
  for a b :: "'a::len word"
  by (auto simp: checked_add_def)

lemma unat_checked_add: "checked_add a b = Some c \<Longrightarrow> unat c = unat a + unat b"
  by (auto simp: checked_add_def unat_word_ariths split: if_splits)

lemma sat_add_ge: "a \<le> sat_add a b" for a b :: "'a::len word"
proof -
  have "unat a \<le> 2 ^ LENGTH('a) - 1" using unat_bound [of a] by linarith
  then show ?thesis by (simp add: word_le_nat_alt unat_sat_add)
qed

lemma unat_less_max: "w \<noteq> - 1 \<Longrightarrow> unat w < 2 ^ LENGTH('a) - 1" for w :: "'a::len word"
proof -
  assume "w \<noteq> - 1"
  then have "unat w \<noteq> 2 ^ LENGTH('a) - 1"
    by (metis unat_minus_one_word_pow word_unat_eq_iff)
  then show ?thesis using unat_bound [of w] by linarith
qed

lemma sat_add_exact:
  "m \<noteq> - 1 \<Longrightarrow> sat_add a b \<le> m \<Longrightarrow> unat (sat_add a b) = unat a + unat b" for a b :: "'a::len word"
  using unat_less_max [of m] unfolding word_le_nat_alt unat_sat_add by (auto simp: min_def split: if_splits)

lemma sat_add_one_fresh: "a \<noteq> - 1 \<Longrightarrow> sat_add a 1 = a + 1 \<and> a < sat_add a 1"
  for a :: "'a::len word"
proof -
  assume "a \<noteq> - 1"
  then have sum: "unat a + unat (1 :: 'a word) < 2 ^ LENGTH('a)"
    using unat_less_max [of a] unfolding unsigned_1 by linarith
  then have "sat_add a 1 = a + 1" by (simp add: sat_add_def)
  moreover have "unat (a + 1) = unat a + 1"
    using sum by (simp add: unat_word_ariths)
  ultimately show ?thesis by (simp add: word_less_nat_alt)
qed

lemma unat_succ: "a \<noteq> - 1 \<Longrightarrow> unat (a + 1) = unat a + 1" for a :: "'a::len word"
  using sat_add_one_fresh [of a] unat_less_max [of a] unat_sat_add [of a 1] by (simp add: min_def)

lemma checked_add_one:
  "checked_add a 1 = Some b \<Longrightarrow> b = sat_add a 1 \<and> a < b" for a :: "'a::len word"
  by (auto simp: checked_add_def sat_add_def word_less_nat_alt unat_word_ariths split: if_splits)

text \<open>\<open>T::try_from(n)\<close> for a length, and \<open>usize as u64\<close>: both are 64 bits wide.\<close>

definition try_u32 :: "nat \<Rightarrow> u32 option" where
  "try_u32 n = (if n < 2 ^ 32 then Some (of_nat n) else None)"

lemma try_u32_Some: "try_u32 n = Some w \<Longrightarrow> unat w = n"
  by (auto simp: try_u32_def unat_of_nat split: if_splits)

section \<open>Little-endian bytes\<close>

fun le_bytes :: "nat \<Rightarrow> nat \<Rightarrow> bytes" where
  "le_bytes 0 v = []"
| "le_bytes (Suc n) v = of_nat (v mod 256) # le_bytes n (v div 256)"

fun le_value :: "bytes \<Rightarrow> nat" where
  "le_value [] = 0"
| "le_value (b # bs) = unat b + 256 * le_value bs"

definition u16_to_le :: "u16 \<Rightarrow> bytes" where
  "u16_to_le w = le_bytes 2 (unat w)"

definition u32_to_le :: "u32 \<Rightarrow> bytes" where
  "u32_to_le w = le_bytes 4 (unat w)"

definition u64_to_le :: "u64 \<Rightarrow> bytes" where
  "u64_to_le w = le_bytes 8 (unat w)"

definition u64_from_le :: "bytes \<Rightarrow> u64" where
  "u64_from_le bs = of_nat (le_value bs)"

lemma length_le_bytes [simp]: "length (le_bytes n v) = n"
  by (induction n arbitrary: v) auto

lemma le_value_le_bytes: "le_value (le_bytes n v) = v mod 256 ^ n"
proof (induction n arbitrary: v)
  case 0
  then show ?case by simp
next
  case (Suc n)
  have "unat (of_nat (v mod 256) :: u8) = v mod 256"
    by (simp add: unat_of_nat)
  moreover have "v mod 256 + 256 * (v div 256 mod 256 ^ n) = v mod (256 * 256 ^ n)"
    by (simp add: mod_mult2_eq)
  ultimately show ?case using Suc.IH by simp
qed

lemma le_value_bound: "le_value bs < 256 ^ length bs"
proof (induction bs)
  case (Cons b bs)
  have "unat b < 256" using unat_bound [of b] by simp
  with Cons.IH show ?case by simp
qed simp

lemma le_bytes_le_value: "length bs = n \<Longrightarrow> le_bytes n (le_value bs) = bs"
proof (induction bs arbitrary: n)
  case (Cons b bs)
  have b: "unat b < 256" using unat_bound [of b] by simp
  have "(unat b + 256 * le_value bs) mod 256 = unat b" using b by simp
  moreover have "(unat b + 256 * le_value bs) div 256 = le_value bs" using b by simp
  ultimately show ?case using Cons by auto
qed simp

lemma length_u16_to_le [simp]: "length (u16_to_le w) = 2"
  by (simp add: u16_to_le_def)

lemma length_u32_to_le [simp]: "length (u32_to_le w) = 4"
  by (simp add: u32_to_le_def)

lemma length_u64_to_le [simp]: "length (u64_to_le w) = 8"
  by (simp add: u64_to_le_def)

lemma u32_to_le_four:
  "u32_to_le w = [of_nat (unat w mod 256), of_nat (unat w div 256 mod 256),
                  of_nat (unat w div 256 div 256 mod 256), of_nat (unat w div 256 div 256 div 256 mod 256)]"
proof -
  have four: "(4 :: nat) = Suc (Suc (Suc (Suc 0)))" by simp
  show ?thesis unfolding u32_to_le_def four le_bytes.simps ..
qed

lemma le_value_u32 [simp]: "le_value (u32_to_le w) = unat w"
  using unat_bound [of w] by (simp add: u32_to_le_def le_value_le_bytes)

lemma u64_from_le_to_le [simp]: "u64_from_le (u64_to_le w) = w"
  using unat_bound [of w] by (simp add: u64_from_le_def u64_to_le_def le_value_le_bytes)

lemma u64_to_le_from_le: "length bs = 8 \<Longrightarrow> u64_to_le (u64_from_le bs) = bs"
proof -
  assume len: "length bs = 8"
  then have "le_value bs < 2 ^ 64" using le_value_bound [of bs] by simp
  then have "unat (u64_from_le bs) = le_value bs"
    by (simp add: u64_from_le_def unat_of_nat)
  then show ?thesis using len by (simp add: u64_to_le_def le_bytes_le_value)
qed

lemma u32_to_le_value: "length bs = 4 \<Longrightarrow> u32_to_le (of_nat (le_value bs)) = bs"
proof -
  assume len: "length bs = 4"
  then have "le_value bs < 2 ^ 32" using le_value_bound [of bs] by simp
  then show ?thesis using len by (simp add: u32_to_le_def le_bytes_le_value unat_of_nat)
qed

section \<open>Text\<close>

definition as_bytes :: "string \<Rightarrow> bytes" where
  "as_bytes s = map (\<lambda>c. of_nat (of_char c)) s"

definition string_of_bytes :: "bytes \<Rightarrow> string" where
  "string_of_bytes bs = map (\<lambda>b. char_of (unat b)) bs"

lemma length_as_bytes [simp]: "length (as_bytes s) = length s"
  by (simp add: as_bytes_def)

lemma of_char_less_256: "(of_char c :: nat) < 256"
  by (fact nat_of_char_less_256)

lemma string_of_as_bytes [simp]: "string_of_bytes (as_bytes s) = s"
proof -
  have "char_of (unat (of_nat (of_char c) :: u8)) = c" for c
    by (simp add: unat_of_nat)
  then show ?thesis by (simp add: string_of_bytes_def as_bytes_def map_idI)
qed

text \<open>The validity check of \<open>std::str::from_utf8\<close>.\<close>

definition utf8_cont :: "u8 \<Rightarrow> bool" where
  "utf8_cont b \<longleftrightarrow> 128 \<le> b \<and> b \<le> 191"

fun valid_utf8 :: "bytes \<Rightarrow> bool" where
  "valid_utf8 [] \<longleftrightarrow> True"
| "valid_utf8 (b # bs) \<longleftrightarrow>
     (if b < 128 then valid_utf8 bs
      else if 194 \<le> b \<and> b \<le> 223 then
        (case bs of c # r \<Rightarrow> utf8_cont c \<and> valid_utf8 r | _ \<Rightarrow> False)
      else if 224 \<le> b \<and> b \<le> 239 then
        (case bs of c # d # r \<Rightarrow>
           utf8_cont c \<and> utf8_cont d \<and> (b = 224 \<longrightarrow> 160 \<le> c) \<and> (b = 237 \<longrightarrow> c \<le> 159) \<and> valid_utf8 r
         | _ \<Rightarrow> False)
      else if 240 \<le> b \<and> b \<le> 244 then
        (case bs of c # d # e # r \<Rightarrow>
           utf8_cont c \<and> utf8_cont d \<and> utf8_cont e \<and> (b = 240 \<longrightarrow> 144 \<le> c)
           \<and> (b = 244 \<longrightarrow> c \<le> 143) \<and> valid_utf8 r
         | _ \<Rightarrow> False)
      else False)"

definition from_utf8 :: "bytes \<Rightarrow> string option" where
  "from_utf8 bs = (if valid_utf8 bs then Some (string_of_bytes bs) else None)"

definition ascii :: "string \<Rightarrow> bool" where
  "ascii s \<longleftrightarrow> (\<forall>c \<in> set s. (of_char c :: nat) < 128)"

lemma valid_utf8_ascii: "ascii s \<Longrightarrow> valid_utf8 (as_bytes s)"
proof (induction s)
  case (Cons c s)
  have "unat (of_nat (of_char c) :: u8) = of_char c"
    by (simp add: unat_of_nat)
  then have "(of_nat (of_char c) :: u8) < 128"
    using Cons.prems by (simp add: ascii_def word_less_nat_alt)
  with Cons show ?case by (simp add: as_bytes_def ascii_def)
qed (simp add: as_bytes_def)

lemma from_utf8_ascii [simp]: "ascii s \<Longrightarrow> from_utf8 (as_bytes s) = Some s"
  by (simp add: from_utf8_def valid_utf8_ascii)

text \<open>\<open>to_string\<close> of an unsigned integer and \<open>FromStr\<close> below a bound (the type's \<open>2 ^ bits\<close>).\<close>

fun dec_string :: "nat \<Rightarrow> string" where
  "dec_string n =
     (if n < 10 then [char_of (48 + n)] else dec_string (n div 10) @ [char_of (48 + n mod 10)])"

declare dec_string.simps [simp del]

definition digit_value :: "char \<Rightarrow> nat option" where
  "digit_value c = (let n = of_char c in if 48 \<le> n \<and> n \<le> 57 then Some (n - 48) else None)"

fun parse_digits :: "nat \<Rightarrow> nat \<Rightarrow> string \<Rightarrow> nat option" where
  "parse_digits lim acc [] = Some acc"
| "parse_digits lim acc (c # cs) =
     (case digit_value c of
        None \<Rightarrow> None
      | Some d \<Rightarrow> if acc * 10 + d < lim then parse_digits lim (acc * 10 + d) cs else None)"

definition parse_unsigned :: "nat \<Rightarrow> string \<Rightarrow> nat option" where
  "parse_unsigned lim s =
     (case s of
        [] \<Rightarrow> None
      | c # cs \<Rightarrow>
          if c = CHR ''+'' then (if cs = [] then None else parse_digits lim 0 cs)
          else parse_digits lim 0 s)"

definition bool_string :: "bool \<Rightarrow> string" where
  "bool_string b = (if b then ''true'' else ''false'')"

definition parse_bool :: "string \<Rightarrow> bool option" where
  "parse_bool s = (if s = ''true'' then Some True else if s = ''false'' then Some False else None)"

lemma parse_bool_string [simp]: "parse_bool (bool_string b) = Some b"
  by (simp add: parse_bool_def bool_string_def)

lemma digit_value_digit: "d < 10 \<Longrightarrow> digit_value (char_of (48 + d)) = Some d"
  by (simp add: digit_value_def Let_def)

lemma parse_digits_append:
  "parse_digits lim acc (xs @ ys) =
     (case parse_digits lim acc xs of None \<Rightarrow> None | Some a \<Rightarrow> parse_digits lim a ys)"
  by (induction xs arbitrary: acc) (auto split: option.splits)

lemma parse_digits_dec: "n < lim \<Longrightarrow> parse_digits lim 0 (dec_string n) = Some n"
proof (induction n rule: dec_string.induct)
  case (1 n)
  show ?case
  proof (cases "n < 10")
    case True
    then show ?thesis
      using 1(2) by (simp add: dec_string.simps [of n] digit_value_digit)
  next
    case False
    with 1 have "parse_digits lim 0 (dec_string (n div 10)) = Some (n div 10)" by simp
    moreover have "n div 10 * 10 + n mod 10 = n" by simp
    ultimately show ?thesis
      using False 1(2)
      by (simp add: dec_string.simps [of n] parse_digits_append digit_value_digit)
  qed
qed

lemma dec_string_head: "\<exists>c cs. dec_string n = c # cs \<and> c \<noteq> CHR ''+''"
proof (induction n rule: dec_string.induct)
  case (1 n)
  show ?case
  proof (cases "n < 10")
    case True
    have "char_of (48 + n) \<noteq> CHR ''+''"
    proof
      assume "char_of (48 + n) = CHR ''+''"
      then have "digit_value (CHR ''+'') = Some n"
        using digit_value_digit [OF True] by simp
      then show False by (simp add: digit_value_def)
    qed
    with True show ?thesis by (simp add: dec_string.simps [of n])
  next
    case False
    with 1 show ?thesis by (auto simp: dec_string.simps [of n])
  qed
qed

lemma parse_unsigned_dec: "n < lim \<Longrightarrow> parse_unsigned lim (dec_string n) = Some n"
  using dec_string_head [of n] parse_digits_dec [of n lim]
  by (auto simp: parse_unsigned_def)

text \<open>What is joined by a delimiter that the last part does not contain is split again.\<close>

lemma dec_string_digits: "set (dec_string n) \<subseteq> char_of ` {48..57 :: nat}"
proof (induction n rule: dec_string.induct)
  case (1 n)
  have digit: "char_of (48 + d) \<in> char_of ` {48..57 :: nat}" if "d < 10" for d :: nat using that by (intro imageI) simp
  show ?case
  proof (cases "n < 10")
    case True
    then show ?thesis using digit [of n] by (simp add: dec_string.simps [of n])
  next
    case False
    then show ?thesis using 1 [OF False] digit [of "n mod 10"] by (simp add: dec_string.simps [of n])
  qed
qed

lemma colon_not_digit: "CHR '':'' \<notin> set (dec_string n)"
proof
  assume "CHR '':'' \<in> set (dec_string n)"
  then obtain k :: nat where "CHR '':'' = char_of k" "48 \<le> k" "k \<le> 57" using dec_string_digits [of n] by (fastforce simp: image_iff)
  then have "(of_char CHR '':'' :: nat) = k" by (simp add: of_char_of)
  then show False using \<open>k \<le> 57\<close> by simp
qed

lemma append_delim_eq:
  assumes "xs @ c # ys = xs' @ c # ys'" "c \<notin> set ys" "c \<notin> set ys'"
  shows "xs = xs' \<and> ys = ys'"
proof -
  have last: "takeWhile (\<lambda>x. x \<noteq> c) (rev (us @ c # vs)) = rev vs" if "c \<notin> set vs" for us vs
    using takeWhile_append2 [of "rev vs" "\<lambda>x. x \<noteq> c" "c # rev us"] that by auto
  show ?thesis using last [OF assms(2), of xs] last [OF assms(3), of xs'] assms(1) by simp
qed

lemma dec_string_inj: "dec_string m = dec_string n \<Longrightarrow> m = n"
  by (metis lessI less_Suc_eq_le max.cobounded1 max.cobounded2 option.inject parse_digits_dec)

text \<open>Lower-case hexadecimal, as \<open>to_hex\<close> and \<open>hex_digest\<close> print digests.\<close>

definition hex_digit :: "nat \<Rightarrow> char" where
  "hex_digit n = ''0123456789abcdef'' ! n"

definition hex_byte :: "u8 \<Rightarrow> string" where
  "hex_byte b = [hex_digit (unat b div 16), hex_digit (unat b mod 16)]"

definition hex_string :: "bytes \<Rightarrow> string" where
  "hex_string bs = concat (map hex_byte bs)"

lemma length_hex_string [simp]: "length (hex_string bs) = 2 * length bs"
  by (induction bs) (auto simp: hex_string_def hex_byte_def)

lemma hex_digit_ascii: "n < 16 \<Longrightarrow> (of_char (hex_digit n) :: nat) < 128"
proof -
  assume "n < 16"
  then have "hex_digit n \<in> set ''0123456789abcdef''"
    unfolding hex_digit_def by (intro nth_mem) simp
  then show ?thesis by auto
qed

lemma ascii_hex_string [simp]: "ascii (hex_string bs)"
proof -
  have "unat b div 16 < 16" for b :: u8
    using unat_bound [of b] by simp
  then show ?thesis
    by (auto simp: ascii_def hex_string_def hex_byte_def hex_digit_ascii)
qed

section \<open>Ordered maps\<close>

text \<open>
  A \<open>BTreeMap\<close> is a finite map; \<open>len\<close> is the number of its keys, and iteration visits the
  keys in ascending order.
\<close>

definition bt_len :: "('k, 'v) fmap \<Rightarrow> nat" where
  "bt_len m = fcard (fmdom m)"

definition bt_keys :: "('k::linorder, 'v) fmap \<Rightarrow> 'k list" where
  "bt_keys m = sorted_list_of_fset (fmdom m)"

definition bt_entries :: "('k::linorder, 'v) fmap \<Rightarrow> ('k \<times> 'v) list" where
  "bt_entries m = map (\<lambda>k. (k, the (fmlookup m k))) (bt_keys m)"

definition bt_values :: "('k::linorder, 'v) fmap \<Rightarrow> 'v list" where
  "bt_values m = map (\<lambda>k. the (fmlookup m k)) (bt_keys m)"

definition bt_contains :: "('k, 'v) fmap \<Rightarrow> 'k \<Rightarrow> bool" where
  "bt_contains m k \<longleftrightarrow> fmlookup m k \<noteq> None"

definition unwrap_or :: "'a \<Rightarrow> 'a option \<Rightarrow> 'a" where
  "unwrap_or d x = (case x of None \<Rightarrow> d | Some v \<Rightarrow> v)"

lemma unwrap_or_simps [simp]: "unwrap_or d None = d" "unwrap_or d (Some v) = v"
  by (simp_all add: unwrap_or_def)

lemma bt_contains_iff [bt_simps]: "bt_contains m k \<longleftrightarrow> k |\<in>| fmdom m"
  by (simp add: bt_contains_def fmlookup_dom_iff)

lemma bt_len_empty [simp]: "bt_len fmempty = 0"
  by (simp add: bt_len_def)

lemma bt_len_upd [bt_simps]:
  "bt_len (fmupd k v m) = (if bt_contains m k then bt_len m else Suc (bt_len m))"
  by (auto simp: bt_len_def bt_contains_iff fcard_finsert_if)

lemma bt_len_drop_le: "bt_len (fmdrop k m) \<le> bt_len m"
  by (simp add: bt_len_def fcard.rep_eq card_Diff1_le)

lemma fmdrop_fmupd_same' [simp]: "fmdrop k (fmupd k v m) = fmdrop k m"
  by (rule fmap_ext) simp

lemma fmdrop_absent [simp]: "fmlookup m k = None \<Longrightarrow> fmdrop k m = m"
  by (rule fmap_ext) auto

lemma set_bt_keys [simp]: "set (bt_keys m) = fset (fmdom m)"
  by (simp add: bt_keys_def)

lemma distinct_bt_keys [simp]: "distinct (bt_keys m)"
  by (simp add: bt_keys_def sorted_list_of_fset.rep_eq)

lemma length_bt_keys: "length (bt_keys m) = bt_len m"
  by (metis bt_len_def distinct_bt_keys distinct_card fcard.rep_eq set_bt_keys)

lemma bt_keys_upd [bt_simps]:
  "bt_keys (fmupd k v m) = (if bt_contains m k then bt_keys m else insort k (bt_keys m))"
proof (cases "bt_contains m k")
  case True
  then show ?thesis by (simp add: bt_keys_def bt_contains_iff finsert_absorb)
next
  case False
  then have "k \<notin> fset (fmdom m)" by (simp add: bt_contains_iff)
  then show ?thesis
    using False by (simp add: bt_keys_def sorted_list_of_fset.rep_eq sorted_list_of_set_insert_remove)
qed

lemma bt_values_mem: "v \<in> set (bt_values m) \<longleftrightarrow> (\<exists>k. fmlookup m k = Some v)"
  by (force simp: bt_values_def fmlookup_dom_iff)

lemma bt_entries_mem: "(k, v) \<in> set (bt_entries m) \<longleftrightarrow> fmlookup m k = Some v"
  by (force simp: bt_entries_def fmlookup_dom_iff)

lemma map_fst_bt_entries: "map fst (bt_entries m) = bt_keys m"
  by (simp add: bt_entries_def comp_def)

text \<open>The keys whose entries satisfy a condition, as the sources collect them.\<close>

lemma distinct_filter_keys [simp]: "distinct (map fst (filter p (bt_entries m)))"
  by (metis distinct_bt_keys distinct_map_filter map_fst_bt_entries)

lemma set_filter_keys: "set (map fst (filter p (bt_entries m))) = {k. \<exists>v. fmlookup m k = Some v \<and> p (k, v)}"
  by (force simp: bt_entries_mem)

lemma bt_keys_empty [simp]: "bt_keys fmempty = []"
  by (simp add: bt_keys_def sorted_list_of_fset.rep_eq)

lemma bt_values_empty [simp]: "bt_values fmempty = []"
  by (simp add: bt_values_def)

lemma bt_entries_empty [simp]: "bt_entries fmempty = []"
  by (simp add: bt_entries_def)

section \<open>Results\<close>

text \<open>\<open>Result<T, E>\<close> is the sum with the error on the left; \<open>bind_result\<close> is the \<open>?\<close> operator.\<close>

definition bind_result :: "'e + 'a \<Rightarrow> ('a \<Rightarrow> 'e + 'b) \<Rightarrow> 'e + 'b" where
  "bind_result r f = (case r of Inl e \<Rightarrow> Inl e | Inr x \<Rightarrow> f x)"

definition ok_or :: "'e \<Rightarrow> 'a option \<Rightarrow> 'e + 'a" where
  "ok_or e x = (case x of None \<Rightarrow> Inl e | Some v \<Rightarrow> Inr v)"

lemma bind_result_simps [simp]:
  "bind_result (Inl e) f = Inl e"
  "bind_result (Inr x) f = f x"
  by (simp_all add: bind_result_def)

lemma ok_or_simps [simp]: "ok_or e None = Inl e" "ok_or e (Some v) = Inr v"
  by (simp_all add: ok_or_def)

lemma bind_result_Inr: "bind_result r f = Inr y \<longleftrightarrow> (\<exists>x. r = Inr x \<and> f x = Inr y)"
  by (cases r) auto

lemma ok_or_Inr [simp]: "ok_or e x = Inr v \<longleftrightarrow> x = Some v"
  by (cases x) auto

section \<open>Files replaced atomically\<close>

text \<open>
  Four components persist a whole value the same way: create the parent directory, encode
  the value, create a temporary file, write and sync it, rename it over the target.  The
  target holds the old bytes until the rename and the new ones after it.  What the
  operating system answers to each call is an input of the model.
\<close>

record write_io =
  io_create_dir :: bool
  io_open :: bool
  io_write_sync :: bool
  io_rename :: bool

datatype write_failure = StorageFailure | EncodeFailure

definition atomic_replace ::
  "write_io \<Rightarrow> bytes option \<Rightarrow> bytes option \<Rightarrow> write_failure option \<times> bytes option" where
  "atomic_replace io encoded file =
     (if \<not> io_create_dir io then (Some StorageFailure, file)
      else case encoded of
        None \<Rightarrow> (Some EncodeFailure, file)
      | Some bs \<Rightarrow>
          if io_open io \<and> io_write_sync io \<and> io_rename io then (None, Some bs)
          else (Some StorageFailure, file))"

definition io_all_ok :: write_io where
  "io_all_ok = \<lparr>io_create_dir = True, io_open = True, io_write_sync = True, io_rename = True\<rparr>"

lemma atomic_replace_cases:
  "atomic_replace io encoded file = (r, file') \<Longrightarrow>
     (r = None \<and> encoded \<noteq> None \<and> file' = encoded) \<or> (r \<noteq> None \<and> file' = file)"
  by (auto simp: atomic_replace_def split: if_splits option.splits)

section \<open>Serialisation\<close>

text \<open>
  \<open>serde_json::to_vec\<close> and \<open>from_slice\<close> are library code: a pair of functions that the
  definitions take as an argument.  The one law the sources rely on is that a value that
  was encoded decodes to itself.
\<close>

record 'a serde =
  to_vec :: "'a \<Rightarrow> bytes option"
  from_slice :: "bytes \<Rightarrow> 'a option"

definition serde_ok :: "'a serde \<Rightarrow> bool" where
  "serde_ok sd \<longleftrightarrow> (\<forall>x bs. to_vec sd x = Some bs \<longrightarrow> from_slice sd bs = Some x)"

lemma serde_okD: "serde_ok sd \<Longrightarrow> to_vec sd x = Some bs \<Longrightarrow> from_slice sd bs = Some x"
  by (simp add: serde_ok_def)

text \<open>A serialiser that encodes one value only: it satisfies the law, so witnesses can use it.\<close>

definition serde_single :: "'a \<Rightarrow> bytes \<Rightarrow> 'a serde" where
  "serde_single v b =
     \<lparr>to_vec = (\<lambda>x. if x = v then Some b else None),
      from_slice = (\<lambda>y. if y = b then Some v else None)\<rparr>"

lemma serde_single_ok [simp]: "serde_ok (serde_single v b)"
  by (simp add: serde_ok_def serde_single_def)

section \<open>Sums over maps\<close>

text \<open>The sum of a measure over the values of a map, and how updates change it.\<close>

definition fm_sum :: "('v \<Rightarrow> nat) \<Rightarrow> ('k, 'v) fmap \<Rightarrow> nat" where
  "fm_sum g m = (\<Sum>k\<in>fset (fmdom m). g (the (fmlookup m k)))"

lemma fm_sum_empty [simp]: "fm_sum g fmempty = 0"
  by (simp add: fm_sum_def)

lemma fm_sum_values: "fm_sum g m = sum_list (map g (bt_values m))" for m :: "('k::linorder, 'v) fmap"
  by (simp add: fm_sum_def bt_values_def comp_def sum_list_distinct_conv_sum_set)

lemma fm_sum_mono:
  assumes "\<And>k v. fmlookup m' k = Some v \<Longrightarrow> fmlookup m k = Some v"
  shows "fm_sum g m' \<le> fm_sum g m"
proof -
  have "fset (fmdom m') \<subseteq> fset (fmdom m)" using assms by (auto simp: fmlookup_dom_iff)
  moreover have "fm_sum g m' = (\<Sum>k\<in>fset (fmdom m'). g (the (fmlookup m k)))"
    unfolding fm_sum_def by (rule sum.cong) (use assms in \<open>auto simp: fmlookup_dom_iff\<close>)
  ultimately show ?thesis unfolding fm_sum_def [of g m] by (simp add: sum_mono2)
qed

lemma fm_sum_drop: "fm_sum g (fmdrop k m) \<le> fm_sum g m"
  by (rule fm_sum_mono) (auto split: if_splits)

lemma fm_sum_filter: "fm_sum g (fmfilter p m) \<le> fm_sum g m"
  by (rule fm_sum_mono) (auto split: if_splits)

lemma fm_sum_upd: "fm_sum g (fmupd k v m) = fm_sum g (fmdrop k m) + g v"
proof -
  let ?D = "fset (fmdom m) - {k}"
  have "fset (fmdom (fmupd k v m)) = insert k ?D" by auto
  then have "fm_sum g (fmupd k v m) = g v + (\<Sum>x\<in>?D. g (the (fmlookup (fmupd k v m) x)))"
    by (simp add: fm_sum_def sum.insert_remove)
  also have "(\<Sum>x\<in>?D. g (the (fmlookup (fmupd k v m) x))) = (\<Sum>x\<in>?D. g (the (fmlookup (fmdrop k m) x)))"
    by (rule sum.cong) auto
  finally show ?thesis by (simp add: fm_sum_def)
qed

lemma fm_sum_upd_le: "fm_sum g (fmupd k v m) \<le> fm_sum g m + g v"
  using fm_sum_drop [of g k m] by (simp add: fm_sum_upd)

text \<open>A saturating sum is the sum cut at the largest value.\<close>

lemma unat_sat_fold:
  "unat (foldl (\<lambda>r x. sat_add r (g x)) a xs) = min (unat a + sum_list (map (\<lambda>x. unat (g x)) xs)) (2 ^ LENGTH('a) - 1)"
  for a :: "'a::len word"
proof (induction xs arbitrary: a)
  case Nil
  have "unat a \<le> 2 ^ LENGTH('a) - 1" using unat_bound [of a] by linarith
  then show ?case by (simp add: min_def)
next
  case (Cons x xs)
  have "unat (sat_add a (g x)) = min (unat a + unat (g x)) (2 ^ LENGTH('a) - 1)" by (rule unat_sat_add)
  then show ?case using Cons.IH [of "sat_add a (g x)"] by (auto simp: min_def)
qed

end
