(* ===== verification/Contracts.thy ===== *)
theory Contracts
  imports Prelude
begin

text \<open>
  The descriptors of \<open>mutsuki-distributed-contracts\<close> that the modelled components share:
  structured errors (\<open>lib.rs\<close>) and the durable task, content and replica records of
  \<open>durability.rs\<close>.  Node and task identifiers are newtypes over \<open>String\<close> and are
  \<^typ>\<open>string\<close>s here.  \<open>PortableTask\<close>, \<open>RequirementSet\<close> and \<open>TaskHandle\<close> belong to the
  runtime contracts crate, which this repository does not contain; the registry only stores
  and compares them, so they are the type parameters \<open>'p\<close>, \<open>'r\<close> and \<open>'h\<close>.  \<open>ContentId\<close>
  has the four components its constructor takes and the sources read.
\<close>

type_synonym NodeId = string
type_synonym GlobalTaskId = string

section \<open>Errors\<close>

datatype DistributedErrorKind =
    Disabled | ExperimentalUnavailable | InvalidConfig | CapacityExceeded | HostUnavailable
  | WorkerUnavailable | WorkerRejected | Incompatible | LocalizationFailed | TransportClosed
  | AttemptStale | RetryUnsafe | TaskUnknown | Protocol | Storage | Corrupt
  | DurabilityUnavailable | InvalidTransition | Conflict | QuorumLost | Fenced | GrantExpired
  | NotLeader | ControlLeaseExpired

record DistributedError =
  err_kind :: DistributedErrorKind
  err_message :: string
  err_detail :: "string option"

definition error_new :: "DistributedErrorKind \<Rightarrow> string \<Rightarrow> DistributedError" where
  "error_new k msg = \<lparr>err_kind = k, err_message = msg, err_detail = None\<rparr>"

definition with_detail :: "DistributedError \<Rightarrow> string \<Rightarrow> DistributedError" where
  "with_detail e d = e\<lparr>err_detail := Some d\<rparr>"

text \<open>
  A panic (an index out of range, an overflow check) unwinds through its callers as an error
  does; it is the error value below, which no code of the repository constructs.
\<close>

definition panic_error :: DistributedError where
  "panic_error = error_new Protocol ''panicked''"

type_synonym 'a result = "DistributedError + 'a"

lemma error_new_kind [simp]: "err_kind (error_new k msg) = k"
  by (simp add: error_new_def)

lemma with_detail_kind [simp]: "err_kind (with_detail e d) = err_kind e"
  by (simp add: with_detail_def)

section \<open>Content identities\<close>

record ContentId =
  cid_algorithm :: string
  cid_digest :: string
  cid_size :: u64
  cid_format :: string

section \<open>Durable tasks\<close>

datatype AcceptanceMode = Fast | Durable | Critical (minimum_replicas: u8)

fun minimum_metadata_copies :: "AcceptanceMode \<Rightarrow> nat" where
  "minimum_metadata_copies Fast = 1"
| "minimum_metadata_copies Durable = 2"
| "minimum_metadata_copies (Critical n) = unat n"

datatype GlobalTaskState =
    Submitted | Persisted | Assigned | Running | OutputStaged | Committed | Failed | Cancelled
  | RecoveryRequired

definition is_terminal :: "GlobalTaskState \<Rightarrow> bool" where
  "is_terminal s \<longleftrightarrow> s \<in> {Committed, Failed, Cancelled}"

record ('p, 'r) DurableTaskSpec =
  spec_task_id :: GlobalTaskId
  spec_portable :: 'p
  spec_requirements :: 'r
  spec_required_inputs :: "ContentId list"
  spec_requested :: AcceptanceMode

record 'h DurableAttempt =
  att_attempt :: u32
  att_node :: NodeId
  att_handle :: "'h option"
  att_runner_generation :: u64
  att_active :: bool

record StagedOutput =
  so_attempt :: u32
  so_worker :: NodeId
  so_content :: ContentId
  so_verified_copies :: nat

record ConflictOutput =
  co_attempt :: u32
  co_worker :: NodeId
  co_content :: ContentId
  co_reason :: string

record ('p, 'r, 'h) DurableTaskRecord =
  rec_spec :: "('p, 'r) DurableTaskSpec"
  rec_state :: GlobalTaskState
  rec_acceptance :: AcceptanceMode
  rec_metadata_copies :: nat
  rec_attempts :: "'h DurableAttempt list"
  rec_staged :: "StagedOutput option"
  rec_committed :: "ContentId option"
  rec_conflicts :: "ConflictOutput list"
  rec_failure :: "string option"

definition active_attempt :: "('p, 'r, 'h) DurableTaskRecord \<Rightarrow> 'h DurableAttempt option" where
  "active_attempt r = List.find att_active (rev (rec_attempts r))"

record MetadataCommitProof =
  mcp_replica_id :: string
  mcp_transaction_id :: string
  mcp_log_index :: u64

record AcceptanceReceipt =
  ar_task_id :: GlobalTaskId
  ar_requested :: AcceptanceMode
  ar_actual :: AcceptanceMode
  ar_state :: GlobalTaskState
  ar_metadata_copies :: nat
  ar_input_copies :: nat
  ar_transaction_id :: string
  ar_log_index :: u64
  ar_replica_commits :: "MetadataCommitProof list"

section \<open>Resources and replicas\<close>

datatype ResourcePolicy =
    Ephemeral | Reconstructible | Replicated (policy_replicas: u8) | ExternalDurable

record ChunkDescriptor =
  ch_index :: u32
  ch_digest :: string
  ch_size :: u64

record ContentManifest =
  cm_content_id :: ContentId
  cm_chunk_size :: u64
  cm_chunks :: "ChunkDescriptor list"
  cm_policy :: ResourcePolicy

datatype ReplicaTarget = Node NodeId | External string

datatype ReplicaHealth = Pending | Healthy | Damaged | Missing

record ReplicaRecord =
  rr_target :: ReplicaTarget
  rr_health :: ReplicaHealth
  rr_verified_at :: u64

record ResourceCatalogRecord =
  cat_manifest :: ContentManifest
  cat_replicas :: "ReplicaRecord list"
  cat_reference_count :: u64
  cat_retain_until :: u64
  cat_repair_required :: bool

definition healthy_copies :: "ResourceCatalogRecord \<Rightarrow> nat" where
  "healthy_copies r = length (filter (\<lambda>x. rr_health x = ReplicaHealth.Healthy) (cat_replicas r))"

definition has_healthy_external :: "ResourceCatalogRecord \<Rightarrow> bool" where
  "has_healthy_external r \<longleftrightarrow>
     list_ex (\<lambda>x. (case rr_target x of External _ \<Rightarrow> True | Node _ \<Rightarrow> False)
                  \<and> rr_health x = ReplicaHealth.Healthy) (cat_replicas r)"

fun is_recoverable :: "ResourceCatalogRecord \<Rightarrow> bool" where
  "is_recoverable r =
     (case cm_policy (cat_manifest r) of
        Ephemeral \<Rightarrow> False
      | Reconstructible \<Rightarrow> True
      | Replicated n \<Rightarrow> unat n \<le> healthy_copies r
      | ExternalDurable \<Rightarrow> has_healthy_external r)"

declare is_recoverable.simps [simp del]

lemma healthy_external_copies: "has_healthy_external r \<Longrightarrow> 1 \<le> healthy_copies r"
  by (auto simp: has_healthy_external_def healthy_copies_def list_ex_iff Suc_le_eq
      filter_empty_conv)

end
