(* ===== verification/Wal_Frame.thy ===== *)
theory Wal_Frame
  imports Contracts
begin

text \<open>
  The frames of the registry's write-ahead log (\<open>persistent_registry.rs\<close>): a four byte
  length, a protected part (magic, version, kind, reserved byte, log index, payload length,
  payload) and a SHA-256 checksum of the protected part.  SHA-256 is library code and is the
  parameter \<open>sha\<close>; what the frame layout relies on is that a digest has 32 bytes.
\<close>

section \<open>Errors of the registry\<close>

definition registry_config_error :: DistributedError where
  "registry_config_error = error_new InvalidConfig ''persistent registry configuration is invalid''"

definition registry_capacity_error :: DistributedError where
  "registry_capacity_error = error_new CapacityExceeded ''persistent registry capacity is exhausted''"

definition registry_storage_error :: DistributedError where
  "registry_storage_error = error_new Storage ''persistent registry storage operation failed''"

definition registry_corrupt_error :: DistributedError where
  "registry_corrupt_error = error_new Corrupt ''persistent registry data is corrupt''"

definition registry_corrupt_at :: "nat \<Rightarrow> DistributedError" where
  "registry_corrupt_at offset =
     with_detail registry_corrupt_error (''WAL corruption at byte offset '' @ dec_string offset)"

definition replica_conflict_error :: "u64 \<Rightarrow> DistributedError" where
  "replica_conflict_error log_index =
     with_detail (error_new Conflict ''replica log index belongs to another transaction'')
       (''conflicting replica log index '' @ dec_string (unat log_index))"

definition durability_unavailable :: DistributedError where
  "durability_unavailable = error_new DurabilityUnavailable ''requested durability cannot be proven''"

definition invalid_transition :: DistributedError where
  "invalid_transition = error_new InvalidTransition ''global task state transition is invalid''"

definition task_unknown :: DistributedError where
  "task_unknown = error_new TaskUnknown ''global task is unknown''"

lemmas registry_errors = registry_config_error_def registry_capacity_error_def
  registry_storage_error_def registry_corrupt_error_def registry_corrupt_at_def
  replica_conflict_error_def durability_unavailable_def invalid_transition_def task_unknown_def

lemma registry_corrupt_at_kind [simp]: "err_kind (registry_corrupt_at off) = Corrupt"
  by (simp add: registry_errors)

section \<open>Frames\<close>

datatype FrameKind = Prepare | Commit | Snapshot

fun frame_kind_byte :: "FrameKind \<Rightarrow> u8" where
  "frame_kind_byte Prepare = 1"
| "frame_kind_byte Commit = 2"
| "frame_kind_byte Snapshot = 3"

definition frame_kind_try_from :: "u8 \<Rightarrow> FrameKind option" where
  "frame_kind_try_from v =
     (if v = 1 then Some Prepare else if v = 2 then Some Commit
      else if v = 3 then Some Snapshot else None)"

definition wal_magic :: bytes where
  "wal_magic = as_bytes ''MRW1''"

definition wal_version :: u16 where
  "wal_version = 1"

definition frame_fixed_bytes :: nat where
  "frame_fixed_bytes = 4 + 2 + 1 + 1 + 8 + 4 + 32"

definition protected_part :: "FrameKind \<Rightarrow> u64 \<Rightarrow> u32 \<Rightarrow> bytes \<Rightarrow> bytes" where
  "protected_part kind log_index payload_len payload =
     wal_magic @ u16_to_le wal_version @ [frame_kind_byte kind] @ [0]
     @ u64_to_le log_index @ u32_to_le payload_len @ payload"

definition encode_frame ::
  "(bytes \<Rightarrow> bytes) \<Rightarrow> FrameKind \<Rightarrow> u64 \<Rightarrow> bytes \<Rightarrow> bytes result" where
  "encode_frame sha kind log_index payload =
     bind_result (ok_or registry_capacity_error (try_u32 (length payload))) (\<lambda>payload_len.
     let protected = protected_part kind log_index payload_len payload;
         checksum = sha protected
     in bind_result (ok_or registry_capacity_error (try_u32 (length protected + length checksum)))
          (\<lambda>body_len. Inr (u32_to_le body_len @ protected @ checksum)))"

record DecodedFrame =
  df_kind :: FrameKind
  df_log_index :: u64
  df_payload :: bytes
  df_end :: nat

definition decode_frame_at ::
  "(bytes \<Rightarrow> bytes) \<Rightarrow> bytes \<Rightarrow> nat \<Rightarrow> nat \<Rightarrow> DecodedFrame option result" where
  "decode_frame_at sha bs offset max_payload_bytes =
     (let remaining = drop offset bs in
      if length remaining < 4 then Inr None
      else
        let body_len = le_value (take 4 remaining) in
        if length remaining < 4 + body_len then Inr None
        else if body_len < frame_fixed_bytes - 4 then Inl (registry_corrupt_at offset)
        else
          let body = take body_len (drop 4 remaining);
              protected = take (body_len - 32) body;
              checksum = drop (body_len - 32) body
          in
          if sha protected \<noteq> checksum then Inl (registry_corrupt_at offset)
          else if take 4 protected \<noteq> wal_magic
               \<or> take 2 (drop 4 protected) \<noteq> u16_to_le wal_version
          then Inl (registry_corrupt_at offset)
          else bind_result (ok_or (registry_corrupt_at offset) (frame_kind_try_from (protected ! 6)))
            (\<lambda>kind.
             if protected ! 7 \<noteq> 0 then Inl (registry_corrupt_at offset)
             else if length protected < 20 then Inl panic_error
             else
               let log_index = u64_from_le (take 8 (drop 8 protected));
                   payload_len = le_value (take 4 (drop 16 protected))
               in
               if payload_len > max_payload_bytes \<or> length protected \<noteq> 20 + payload_len
               then Inl (registry_corrupt_at offset)
               else Inr (Some \<lparr>df_kind = kind, df_log_index = log_index,
                               df_payload = drop 20 protected,
                               df_end = offset + 4 + body_len\<rparr>)))"

definition sha_ok :: "(bytes \<Rightarrow> bytes) \<Rightarrow> bool" where
  "sha_ok sha \<longleftrightarrow> (\<forall>x. length (sha x) = 32)"

lemma sha_okD [simp]: "sha_ok sha \<Longrightarrow> length (sha x) = 32"
  by (simp add: sha_ok_def)

lemma length_wal_magic [simp]: "length wal_magic = 4"
  by (simp add: wal_magic_def)

lemma length_protected_part [simp]:
  "length (protected_part kind idx plen payload) = 20 + length payload"
  by (simp add: protected_part_def)

lemma frame_kind_roundtrip [simp]: "frame_kind_try_from (frame_kind_byte k) = Some k"
  by (cases k) (auto simp: frame_kind_try_from_def)

lemma frame_kind_try_from_Some: "frame_kind_try_from b = Some k \<Longrightarrow> frame_kind_byte k = b"
  by (auto simp: frame_kind_try_from_def split: if_splits)

lemma protected_part_fields:
  assumes p_def: "p = protected_part kind idx plen payload"
  shows "take 4 p = wal_magic" and "take 2 (drop 4 p) = u16_to_le wal_version"
    and "p ! 6 = frame_kind_byte kind" and "p ! 7 = 0"
    and "take 8 (drop 8 p) = u64_to_le idx" and "take 4 (drop 16 p) = u32_to_le plen"
    and "drop 20 p = payload"
  by (simp_all add: p_def protected_part_def nth_append)

lemma encode_frame_Inr:
  assumes "encode_frame sha kind idx payload = Inr frame" and "sha_ok sha"
  obtains body plen :: u32 where "unat body = length payload + 52" and "unat plen = length payload"
    and "frame = u32_to_le body @ protected_part kind idx plen payload
           @ sha (protected_part kind idx plen payload)"
    and "length frame = length payload + 56"
proof -
  from assms obtain plen body where "try_u32 (length payload) = Some plen"
    "try_u32 (length payload + 52) = Some body"
    "frame = u32_to_le body @ protected_part kind idx plen payload
           @ sha (protected_part kind idx plen payload)"
    by (auto simp: encode_frame_def bind_result_Inr Let_def algebra_simps)
  with assms(2) show ?thesis by (intro that [of body plen]) (auto dest: try_u32_Some)
qed

lemma encode_frame_ok:
  "length payload + 52 < 2 ^ 32 \<Longrightarrow> sha_ok sha \<Longrightarrow> \<exists>frame. encode_frame sha kind idx payload = Inr frame"
  by (simp add: encode_frame_def try_u32_def Let_def)

lemma decode_frame_torn:
  assumes "encode_frame sha kind idx payload = Inr frame" "sha_ok sha" "n < length frame"
  shows "decode_frame_at sha (pre @ take n frame) (length pre) mx = Inr None"
proof -
  from assms(1,2) obtain body rest where w: "unat body = length payload + 52"
    and fr: "frame = u32_to_le body @ rest" and len: "length frame = length payload + 56"
    by (elim encode_frame_Inr) blast
  show ?thesis
  proof (cases "n < 4")
    case True
    then show ?thesis by (simp add: decode_frame_at_def Let_def)
  next
    case False
    then have "take 4 (take n frame) = u32_to_le body" by (simp add: fr)
    then have "le_value (take 4 (take n frame)) = length payload + 52" using w by simp
    then show ?thesis
      using assms(3) False len by (simp add: decode_frame_at_def Let_def)
  qed
qed

lemma decode_encode_frame:
  assumes enc: "encode_frame sha kind idx payload = Inr frame" and sha: "sha_ok sha"
    and le: "length payload \<le> mx"
  shows "decode_frame_at sha (pre @ frame @ post) (length pre) mx =
           Inr (Some \<lparr>df_kind = kind, df_log_index = idx, df_payload = payload,
                      df_end = length pre + length frame\<rparr>)"
proof -
  from enc sha obtain body plen where w: "unat body = length payload + 52" "unat plen = length payload"
    and fr: "frame = u32_to_le body @ protected_part kind idx plen payload
           @ sha (protected_part kind idx plen payload)"
    by (elim encode_frame_Inr)
  define p where "p = protected_part kind idx plen payload"
  note f = protected_part_fields [OF p_def]
  have lp: "length p = 20 + length payload" by (simp add: p_def)
  have b: "take 4 (frame @ post) = u32_to_le body" "le_value (u32_to_le body) = length payload + 52"
    "drop 4 (frame @ post) = p @ sha p @ post" "length (frame @ post) = 56 + length payload + length post"
    using w sha by (simp_all add: fr p_def)
  have body: "take (length payload + 52) (p @ sha p @ post) = p @ sha p" using lp sha by simp
  have parts: "take (length payload + 52 - 32) (p @ sha p) = p"
    "drop (length payload + 52 - 32) (p @ sha p) = sha p" using lp by simp_all
  have vals: "frame_kind_try_from (p ! 6) = Some kind" "le_value (take 4 (drop 16 p)) = length payload"
    "u64_from_le (take 8 (drop 8 p)) = idx"
    by (simp_all only: f frame_kind_roundtrip le_value_u32 w u64_from_le_to_le)
  have lf: "length frame = length payload + 56" using lp sha by (simp add: fr p_def)
  have "drop (length pre) (pre @ frame @ post) = frame @ post" by simp
  then show ?thesis
    unfolding decode_frame_at_def Let_def frame_fixed_bytes_def
    by (simp only: b body parts vals f lp lf) (use le w in simp)
qed

text \<open>The checks of \<open>decode_frame_at\<close> after the length, on the protected part and the checksum.\<close>

definition check_protected :: "(bytes \<Rightarrow> bytes) \<Rightarrow> bytes \<Rightarrow> bytes \<Rightarrow> nat \<Rightarrow> DecodedFrame \<Rightarrow> bool" where
  "check_protected sha protected checksum mx f \<longleftrightarrow>
     sha protected = checksum \<and> take 4 protected = wal_magic
     \<and> take 2 (drop 4 protected) = u16_to_le wal_version
     \<and> frame_kind_try_from (protected ! 6) = Some (df_kind f) \<and> protected ! 7 = 0
     \<and> df_log_index f = u64_from_le (take 8 (drop 8 protected))
     \<and> le_value (take 4 (drop 16 protected)) \<le> mx
     \<and> length protected = 20 + le_value (take 4 (drop 16 protected))
     \<and> df_payload f = drop 20 protected"

lemma if_result_Inr:
  "(if b then Inl e else x) = Inr y \<longleftrightarrow> \<not> b \<and> x = Inr y"
  "(if b then Inr z else x) = Inr y \<longleftrightarrow> (b \<and> z = y) \<or> (\<not> b \<and> x = Inr y)"
  by auto

lemma decode_frame_Some:
  assumes "decode_frame_at sha bs off mx = Inr (Some f)"
    and "r = drop off bs" and "n = le_value (take 4 r)"
  shows "4 + n \<le> length r \<and> 52 \<le> n \<and> df_end f = off + 4 + n
    \<and> check_protected sha (take (n - 32) (take n (drop 4 r))) (drop (n - 32) (take n (drop 4 r))) mx f"
proof -
  define p where "p = take (n - 32) (take n (drop 4 r))"
  define c where "c = drop (n - 32) (take n (drop 4 r))"
  have p_len: "length p \<le> n - 32" by (simp add: p_def)
  define v where "v = le_value (take 4 (drop 16 p))"
  have "4 + n \<le> length r \<and> 20 \<le> length p \<and> df_end f = off + 4 + n \<and> check_protected sha p c mx f"
    using assms(1) unfolding decode_frame_at_def Let_def frame_fixed_bytes_def
      assms(2) [symmetric] assms(3) [symmetric] p_def [symmetric] c_def [symmetric]
      v_def [symmetric] check_protected_def
      if_result_Inr bind_result_Inr ok_or_Inr
    by auto
  then show ?thesis using p_len by (auto simp: p_def c_def)
qed

lemma protected_split:
  assumes "20 \<le> length p"
  shows "take 4 p @ take 2 (drop 4 p) @ [p ! 6] @ [p ! 7] @ take 8 (drop 8 p)
           @ take 4 (drop 16 p) @ drop 20 p = p"
proof -
  have 1: "take (m + n) p = take m p @ take n (drop m p)" for m n by (rule take_add)
  have "take 20 p = take 4 p @ take 2 (drop 4 p) @ take 1 (drop 6 p) @ take 1 (drop 7 p)
          @ take 8 (drop 8 p) @ take 4 (drop 16 p)"
    using 1 [of 16 4] 1 [of 8 8] 1 [of 7 1] 1 [of 6 1] 1 [of 4 2] by simp
  moreover have "take 1 (drop 6 p) = [p ! 6]" "take 1 (drop 7 p) = [p ! 7]"
    using assms by (simp_all add: take_Suc_conv_app_nth numeral_eq_Suc)
  ultimately show ?thesis by (metis append_assoc append_take_drop_id)
qed

lemma check_protected_part:
  assumes "check_protected sha p c mx f"
  shows "p = protected_part (df_kind f) (df_log_index f) (of_nat (length (df_payload f))) (df_payload f)"
    and "length (df_payload f) \<le> mx" and "length p = 20 + length (df_payload f)"
    and "length (df_payload f) < 2 ^ 32"
proof -
  define v where "v = le_value (take 4 (drop 16 p))"
  note c = assms [unfolded check_protected_def, folded v_def]
  have lp: "length p = 20 + v" and pay: "df_payload f = drop 20 p" using c by blast+
  then have lv: "length (df_payload f) = v" by simp
  have four: "length (take 4 (drop 16 p)) = 4" using lp by simp
  then have v: "v < 2 ^ 32" using le_value_bound [of "take 4 (drop 16 p)"] unfolding v_def by simp
  have l: "u32_to_le (of_nat v) = take 4 (drop 16 p)"
    unfolding v_def by (rule u32_to_le_value [OF four])
  have i: "u64_to_le (df_log_index f) = take 8 (drop 8 p)"
    using c lp u64_to_le_from_le [of "take 8 (drop 8 p)"] by simp
  have k: "frame_kind_byte (df_kind f) = p ! 6" using c frame_kind_try_from_Some by blast
  have "20 \<le> length p" using lp by simp
  from protected_split [OF this]
  show "p = protected_part (df_kind f) (df_log_index f) (of_nat (length (df_payload f))) (df_payload f)"
    unfolding protected_part_def lv l i k pay using c by (elim conjE) (simp add: l)
  show "length (df_payload f) \<le> mx" using c lv by blast
  show "length p = 20 + length (df_payload f)" using lp lv by simp
  show "length (df_payload f) < 2 ^ 32" using v lv by simp
qed

lemma decode_frame_sound:
  assumes dec: "decode_frame_at sha bs off mx = Inr (Some f)" and off: "off \<le> length bs"
  obtains frame where "encode_frame sha (df_kind f) (df_log_index f) (df_payload f) = Inr frame"
    and "bs = take off bs @ frame @ drop (df_end f) bs" and "df_end f = off + length frame"
    and "length (df_payload f) \<le> mx" and "df_end f \<le> length bs"
    and "length frame = length (df_payload f) + 56"
proof -
  define r where "r = drop off bs"
  define n where "n = le_value (take 4 r)"
  define p where "p = take (n - 32) (take n (drop 4 r))"
  define c where "c = drop (n - 32) (take n (drop 4 r))"
  have d: "4 + n \<le> length r" "52 \<le> n" "df_end f = off + 4 + n" "check_protected sha p c mx f"
    using decode_frame_Some [OF dec r_def n_def] by (simp_all add: p_def c_def)
  note pp = check_protected_part [OF d(4)]
  have four: "length (take 4 r) = 4" using d(1) by simp
  have lpay: "length (df_payload f) + 52 = n" using d(1,2) pp(3) by (simp add: p_def)
  have "n < 2 ^ 32" using le_value_bound [of "take 4 r"] four unfolding n_def by simp
  then have body: "try_u32 (length (df_payload f) + 52) = Some (of_nat n)"
    by (simp add: try_u32_def lpay)
  have plen: "try_u32 (length (df_payload f)) = Some (of_nat (length (df_payload f)))"
    using pp(4) by (simp add: try_u32_def)
  have sha: "sha p = c" using d(4) by (simp add: check_protected_def)
  have lc: "length c = 32" using d(1,2) by (simp add: c_def)
  have "encode_frame sha (df_kind f) (df_log_index f) (df_payload f)
      = Inr (u32_to_le (of_nat n) @ p @ c)"
    unfolding encode_frame_def plen ok_or_simps bind_result_simps Let_def pp(1) [symmetric] sha
    using body lc pp(3) by (simp add: algebra_simps)
  moreover have "u32_to_le (of_nat n) = take 4 r"
    unfolding n_def by (rule u32_to_le_value [OF four])
  moreover have "p @ c = take n (drop 4 r)" by (simp only: p_def c_def append_take_drop_id)
  moreover have "take 4 r @ take n (drop 4 r) = take (4 + n) r" by (simp add: take_add)
  ultimately have enc: "encode_frame sha (df_kind f) (df_log_index f) (df_payload f)
      = Inr (take (4 + n) r)" by simp
  have "take off bs @ take (4 + n) r @ drop (df_end f) bs = bs"
    unfolding r_def d(3) by (metis add.assoc append_take_drop_id drop_drop add.commute)
  with enc d lpay off pp(2) show ?thesis
    by (intro that [OF enc]) (auto simp: r_def)
qed

lemma decode_frame_append:
  assumes "decode_frame_at sha bs off mx = Inr (Some f)" and "off \<le> length bs" and "sha_ok sha"
  shows "decode_frame_at sha (bs @ post) off mx = Inr (Some f)"
proof -
  from assms(1,2) obtain frame
    where f: "encode_frame sha (df_kind f) (df_log_index f) (df_payload f) = Inr frame"
      "bs = take off bs @ frame @ drop (df_end f) bs" "df_end f = off + length frame"
      "length (df_payload f) \<le> mx"
    by (rule decode_frame_sound)
  have "bs @ post = take off bs @ frame @ (drop (df_end f) bs @ post)"
    using f(2) by (metis append_assoc)
  then show ?thesis
    using decode_encode_frame [OF f(1) assms(3) f(4), of "take off bs" "drop (df_end f) bs @ post"]
      assms(2) f(3) by (metis DecodedFrame.surjective length_take min.absorb2 old.unit.exhaust)
qed

end
