(* ===== verification/Wal_File.thy ===== *)
theory Wal_File
  imports Wal_Frame
begin

text \<open>
  The log file of \<open>persistent_registry.rs\<close> (\<open>WalFile\<close>) and the loop that reads it.  A file
  has its bytes and the length of the prefix that is known to be on disk; a crash keeps the
  synced prefix and any further prefix of what was written.  What the operating system
  answers to the calls of one operation is an input.  A log is described by the list of its
  entries; the lemmas say what the reading loop does on the image of such a list, on its
  extension, and on an image cut anywhere.
\<close>

section \<open>The file\<close>

record WalFile =
  wf_bytes :: bytes
  wf_synced :: nat

text \<open>
  One \<open>append\<close>: whether the length could be read; \<open>None\<close> when seek, write and sync succeed
  and \<open>Some n\<close> when one of them fails with \<open>n\<close> bytes of the frame in the file; whether the
  truncation that undoes a failed write succeeds (its result is ignored by the code).
\<close>

record append_io =
  aio_len :: bool
  aio_fault :: "nat option"
  aio_rollback :: bool

definition append_all_ok :: append_io where
  "append_all_ok = \<lparr>aio_len = True, aio_fault = None, aio_rollback = True\<rparr>"

definition set_len :: "nat \<Rightarrow> bytes \<Rightarrow> bytes" where
  "set_len n bs = take n bs @ replicate (n - length bs) 0"

definition wal_append :: "append_io \<Rightarrow> bytes \<Rightarrow> bool \<Rightarrow> WalFile \<Rightarrow> unit result \<times> WalFile" where
  "wal_append io frame sync w =
     (if \<not> aio_len io then (Inl registry_storage_error, w)
      else case aio_fault io of
        None \<Rightarrow>
          let bs = wf_bytes w @ frame
          in (Inr (), \<lparr>wf_bytes = bs, wf_synced = (if sync then length bs else wf_synced w)\<rparr>)
      | Some n \<Rightarrow>
          let original = length (wf_bytes w);
              bs = wf_bytes w @ take n frame
          in (Inl registry_storage_error,
              if aio_rollback io then w\<lparr>wf_bytes := set_len original bs\<rparr> else w\<lparr>wf_bytes := bs\<rparr>))"

definition wal_append_pair ::
  "append_io \<Rightarrow> bytes \<Rightarrow> bytes \<Rightarrow> bool \<Rightarrow> WalFile \<Rightarrow> unit result \<times> WalFile" where
  "wal_append_pair io first second sync w = wal_append io (first @ second) sync w"

record truncate_io =
  tio_set_len :: bool
  tio_sync :: bool

definition wal_truncate :: "truncate_io \<Rightarrow> nat \<Rightarrow> WalFile \<Rightarrow> unit result \<times> WalFile" where
  "wal_truncate io n w =
     (if \<not> tio_set_len io then (Inl registry_storage_error, w)
      else
        let bs = set_len n (wf_bytes w)
        in if tio_sync io then (Inr (), \<lparr>wf_bytes = bs, wf_synced = length bs\<rparr>)
           else (Inl registry_storage_error, \<lparr>wf_bytes = bs, wf_synced = min (wf_synced w) n\<rparr>))"

definition wal_len :: "bool \<Rightarrow> WalFile \<Rightarrow> nat result" where
  "wal_len ok w = (if ok then Inr (length (wf_bytes w)) else Inl registry_storage_error)"

text \<open>The contents a crash may leave.\<close>

definition crash_image :: "WalFile \<Rightarrow> bytes \<Rightarrow> bool" where
  "crash_image w bs \<longleftrightarrow> (\<exists>k. wf_synced w \<le> k \<and> k \<le> length (wf_bytes w) \<and> bs = take k (wf_bytes w))"

lemma crash_image_synced: "wf_synced w = length (wf_bytes w) \<Longrightarrow> crash_image w bs \<Longrightarrow> bs = wf_bytes w"
  by (auto simp: crash_image_def)

lemma set_len_original [simp]: "set_len (length bs) (bs @ rest) = bs"
  by (simp add: set_len_def)

lemma set_len_le [simp]: "n \<le> length bs \<Longrightarrow> set_len n bs = take n bs"
  by (simp add: set_len_def)

lemma wal_append_cases:
  assumes "wal_append io frame sync w = (r, w')" and "aio_rollback io"
  obtains (written) "r = Inr ()" and "wf_bytes w' = wf_bytes w @ frame"
      and "wf_synced w' = (if sync then length (wf_bytes w') else wf_synced w)"
  | (refused) "r = Inl registry_storage_error" and "w' = w"
  using assms by (auto simp: wal_append_def Let_def split: if_splits option.splits)

section \<open>The reading loop\<close>

text \<open>
  \<open>replay_wal\<close> and \<open>scan_transaction_ids\<close> have the same loop around different bodies: decode
  the frame at the offset, stop at an incomplete one, process it, go on at its end.
\<close>

function scan_frames ::
  "(bytes \<Rightarrow> bytes) \<Rightarrow> nat \<Rightarrow> bytes \<Rightarrow> (nat \<Rightarrow> DecodedFrame \<Rightarrow> 's \<Rightarrow> 's result) \<Rightarrow> nat \<Rightarrow> 's
     \<Rightarrow> ('s \<times> nat) result" where
  "scan_frames sha mx bs step offset s =
     (if offset < length bs then
        (case decode_frame_at sha bs offset mx of
           Inl e \<Rightarrow> Inl e
         | Inr None \<Rightarrow> Inr (s, offset)
         | Inr (Some f) \<Rightarrow>
             (case step offset f s of
                Inl e \<Rightarrow> Inl e
              | Inr s' \<Rightarrow> scan_frames sha mx bs step (df_end f) s'))
      else Inr (s, offset))"
  by auto
termination
proof (relation "measure (\<lambda>(sha, mx, bs, step, offset, s). length bs - offset)", goal_cases)
  case (2 sha mx bs step offset s ro f s')
  then have "df_end f = offset + 4 + le_value (take 4 (drop offset bs))"
    using decode_frame_Some by auto
  with 2 show ?case by auto
qed simp

declare scan_frames.simps [simp del]

section \<open>Logs as lists of entries\<close>

record wal_entry =
  we_kind :: FrameKind
  we_index :: u64
  we_payload :: bytes

definition frame_of :: "(bytes \<Rightarrow> bytes) \<Rightarrow> wal_entry \<Rightarrow> bytes" where
  "frame_of sha e =
     (case encode_frame sha (we_kind e) (we_index e) (we_payload e) of Inl _ \<Rightarrow> [] | Inr bs \<Rightarrow> bs)"

definition entry_ok :: "nat \<Rightarrow> wal_entry \<Rightarrow> bool" where
  "entry_ok mx e \<longleftrightarrow> length (we_payload e) \<le> mx \<and> length (we_payload e) + 52 < 2 ^ 32"

definition wal_image :: "(bytes \<Rightarrow> bytes) \<Rightarrow> wal_entry list \<Rightarrow> bytes" where
  "wal_image sha es = concat (map (frame_of sha) es)"

definition entry_frame :: "(bytes \<Rightarrow> bytes) \<Rightarrow> nat \<Rightarrow> wal_entry \<Rightarrow> DecodedFrame" where
  "entry_frame sha offset e =
     \<lparr>df_kind = we_kind e, df_log_index = we_index e, df_payload = we_payload e,
      df_end = offset + length (frame_of sha e)\<rparr>"

fun fold_entries ::
  "(bytes \<Rightarrow> bytes) \<Rightarrow> (nat \<Rightarrow> DecodedFrame \<Rightarrow> 's \<Rightarrow> 's result) \<Rightarrow> nat \<Rightarrow> wal_entry list \<Rightarrow> 's
     \<Rightarrow> ('s \<times> nat) result" where
  "fold_entries sha step offset [] s = Inr (s, offset)"
| "fold_entries sha step offset (e # es) s =
     (case step offset (entry_frame sha offset e) s of
        Inl err \<Rightarrow> Inl err
      | Inr s' \<Rightarrow> fold_entries sha step (offset + length (frame_of sha e)) es s')"

lemma wal_image_simps [simp]:
  "wal_image sha [] = []"
  "wal_image sha (e # es) = frame_of sha e @ wal_image sha es"
  "wal_image sha (es @ fs) = wal_image sha es @ wal_image sha fs"
  by (simp_all add: wal_image_def)

lemma frame_of_encode:
  assumes "entry_ok mx e" "sha_ok sha"
  shows "encode_frame sha (we_kind e) (we_index e) (we_payload e) = Inr (frame_of sha e)"
    and "length (frame_of sha e) = length (we_payload e) + 56"
proof -
  obtain bs where bs: "encode_frame sha (we_kind e) (we_index e) (we_payload e) = Inr bs"
    using encode_frame_ok assms unfolding entry_ok_def by blast
  then show "encode_frame sha (we_kind e) (we_index e) (we_payload e) = Inr (frame_of sha e)"
    by (simp add: frame_of_def)
  show "length (frame_of sha e) = length (we_payload e) + 56"
    using bs assms(2) by (auto simp: frame_of_def elim: encode_frame_Inr)
qed

lemma encode_frame_entry:
  assumes "encode_frame sha k i p = Inr bs" and "length p \<le> mx" and "sha_ok sha"
  shows "entry_ok mx \<lparr>we_kind = k, we_index = i, we_payload = p\<rparr>"
    and "frame_of sha \<lparr>we_kind = k, we_index = i, we_payload = p\<rparr> = bs"
proof -
  from assms(1,3) obtain body :: u32 where "unat body = length p + 52" by (elim encode_frame_Inr)
  then have "length p + 52 < 2 ^ 32" using unat_bound [of body] by simp
  then show "entry_ok mx \<lparr>we_kind = k, we_index = i, we_payload = p\<rparr>"
    using assms(2) by (simp add: entry_ok_def)
qed (use assms(1) in \<open>simp add: frame_of_def\<close>)

lemma decode_entry:
  assumes "entry_ok mx e" "sha_ok sha"
  shows "decode_frame_at sha (pre @ frame_of sha e @ post) (length pre) mx
           = Inr (Some (entry_frame sha (length pre) e))"
  using decode_encode_frame [OF frame_of_encode(1) [OF assms] assms(2)] assms(1)
  by (simp add: entry_frame_def entry_ok_def)

lemma scan_frames_image:
  assumes "\<forall>e \<in> set es. entry_ok mx e" and sha: "sha_ok sha"
    and "rest = [] \<or> decode_frame_at sha (pre @ wal_image sha es @ rest) (length (pre @ wal_image sha es)) mx = Inr None"
  shows "scan_frames sha mx (pre @ wal_image sha es @ rest) step (length pre) s
           = fold_entries sha step (length pre) es s"
  using assms(1,3)
proof (induction es arbitrary: pre s)
  case Nil
  then show ?case by (auto simp: scan_frames.simps [of sha mx "pre @ rest"])
next
  case (Cons e es)
  have dec: "decode_frame_at sha (pre @ frame_of sha e @ wal_image sha es @ rest) (length pre) mx
        = Inr (Some (entry_frame sha (length pre) e))"
    using Cons.prems(1) sha by (intro decode_entry) auto
  have len: "0 < length (frame_of sha e)"
    using frame_of_encode(2) [of mx e sha] Cons.prems(1) sha by simp
  have IH: "scan_frames sha mx (pre @ frame_of sha e @ wal_image sha es @ rest) step
          (length pre + length (frame_of sha e)) s'
      = fold_entries sha step (length pre + length (frame_of sha e)) es s'" for s'
    using Cons.IH [of "pre @ frame_of sha e" s'] Cons.prems by simp
  show ?case
    using len IH dec
    by (simp add: scan_frames.simps [of sha mx "pre @ frame_of sha e @ wal_image sha es @ rest" step "length pre"]
        entry_frame_def split: sum.split)
qed

lemma fold_entries_append:
  "fold_entries sha step offset (es @ fs) s =
     (case fold_entries sha step offset es s of Inl e \<Rightarrow> Inl e | Inr (s', off') \<Rightarrow> fold_entries sha step off' fs s')"
  by (induction es arbitrary: offset s) (auto split: sum.split)

lemma fold_entries_offset:
  "fold_entries sha step offset es s = Inr (s', off') \<Longrightarrow> off' = offset + length (wal_image sha es)"
  by (induction es arbitrary: offset s) (fastforce split: sum.splits)+

text \<open>An image cut at any byte is an image of the first entries followed by a torn frame.\<close>

lemma take_image:
  assumes "k \<le> length (wal_image sha es)"
  obtains j m where "take k (wal_image sha es) = wal_image sha (take j es) @ (if j < length es then take m (frame_of sha (es ! j)) else [])"
    and "j \<le> length es" and "j < length es \<Longrightarrow> m < length (frame_of sha (es ! j))"
    and "length (wal_image sha (take j es)) \<le> k"
  using assms
proof (induction es arbitrary: k thesis)
  case Nil
  then show ?case by simp
next
  case (Cons e es)
  show ?case
  proof (cases "k < length (frame_of sha e)")
    case True
    then show ?thesis by (intro Cons.prems(1) [of 0 k]) auto
  next
    case False
    then have "k - length (frame_of sha e) \<le> length (wal_image sha es)" using Cons.prems(2) by simp
    then obtain j m where "take (k - length (frame_of sha e)) (wal_image sha es)
        = wal_image sha (take j es) @ (if j < length es then take m (frame_of sha (es ! j)) else [])"
      "j \<le> length es" "j < length es \<Longrightarrow> m < length (frame_of sha (es ! j))"
      "length (wal_image sha (take j es)) \<le> k - length (frame_of sha e)"
      using Cons.IH by metis
    with False show ?thesis by (intro Cons.prems(1) [of "Suc j" m]) auto
  qed
qed

lemma decode_torn_entry:
  assumes "entry_ok mx e" "sha_ok sha" "m < length (frame_of sha e)"
  shows "decode_frame_at sha (pre @ take m (frame_of sha e)) (length pre) mx' = Inr None"
  using decode_frame_torn [OF frame_of_encode(1) [OF assms(1,2)] assms(2,3)] .

lemma take_image_decode:
  assumes "k \<le> length (wal_image sha es)" and ok: "\<forall>e \<in> set es. entry_ok mx e" and sha: "sha_ok sha"
  obtains j rest where "take k (wal_image sha es) = wal_image sha (take j es) @ rest" and "j \<le> length es"
    and "rest = [] \<or> decode_frame_at sha (wal_image sha (take j es) @ rest) (length (wal_image sha (take j es))) mx = Inr None"
    and "length (wal_image sha (take j es)) \<le> k"
    and "j < length es \<Longrightarrow> k < length (wal_image sha (take (Suc j) es))"
    and "k = length (wal_image sha es) \<Longrightarrow> j = length es \<and> rest = []"
proof -
  from assms(1) obtain j m where jm: "take k (wal_image sha es) = wal_image sha (take j es) @ (if j < length es then take m (frame_of sha (es ! j)) else [])"
    "j \<le> length es" "j < length es \<Longrightarrow> m < length (frame_of sha (es ! j))"
    "length (wal_image sha (take j es)) \<le> k"
    by (rule take_image) blast
  have upper: "k < length (wal_image sha (take (Suc j) es))" if "j < length es"
  proof -
    have "k = length (take k (wal_image sha es))" using assms(1) by simp
    also have "\<dots> < length (wal_image sha (take (Suc j) es))"
      using jm(1,3) that by (simp add: take_Suc_conv_app_nth)
    finally show ?thesis .
  qed
  have full: "j = length es" if k: "k = length (wal_image sha es)"
  proof (rule ccontr)
    assume "j \<noteq> length es"
    then have j: "j < length es" using jm(2) by simp
    have "wal_image sha es = wal_image sha (take j es) @ frame_of sha (es ! j) @ wal_image sha (drop (Suc j) es)"
      using id_take_nth_drop [OF j] by (metis wal_image_simps(2,3))
    then show False using jm(1,3) j k by (auto dest: arg_cong [of _ _ length])
  qed
  show ?thesis
  proof (rule that [OF jm(1,2) _ jm(4)])
    show "(if j < length es then take m (frame_of sha (es ! j)) else []) = [] \<or>
      decode_frame_at sha (wal_image sha (take j es) @ (if j < length es then take m (frame_of sha (es ! j)) else []))
        (length (wal_image sha (take j es))) mx = Inr None"
      using jm(3) ok sha decode_torn_entry [of mx "es ! j" sha m] by auto
  qed (use full upper in auto)
qed

lemma image_take_mono:
  assumes "a \<le> b"
  shows "length (wal_image sha (take a es)) \<le> length (wal_image sha (take b es))"
proof -
  have "take b es = take a es @ take (b - a) (drop a es)" using assms by (metis le_add_diff_inverse take_add)
  then show ?thesis by simp
qed

section \<open>Properties of frames\<close>

text \<open>
  Claim C22.  A frame that was written is read back: wherever it stands in a log, decoding at
  its offset gives its kind, log index and payload and the offset of the next frame.
\<close>

theorem frame_roundtrip:
  assumes "sha_ok sha" and "encode_frame sha kind idx payload = Inr frame" and "length payload \<le> mx"
  shows "decode_frame_at sha (pre @ frame @ post) (length pre) mx =
           Inr (Some \<lparr>df_kind = kind, df_log_index = idx, df_payload = payload,
                      df_end = length pre + length frame\<rparr>)"
  using decode_encode_frame [OF assms(2,1,3)] .

theorem frame_roundtrip_witness:
  "\<exists>frame. encode_frame (\<lambda>_. replicate 32 0) Commit 7 [1, 2, 3] = Inr frame
     \<and> decode_frame_at (\<lambda>_. replicate 32 0) ([] @ frame @ [5]) (length []) 16 =
         Inr (Some \<lparr>df_kind = Commit, df_log_index = 7, df_payload = [1, 2, 3], df_end = length [] + length frame\<rparr>)"
proof -
  have sha: "sha_ok (\<lambda>_. replicate 32 (0 :: u8))" by (simp add: sha_ok_def)
  obtain frame where "encode_frame (\<lambda>_. replicate 32 0) Commit 7 [1, 2, 3] = Inr frame"
    using encode_frame_ok [OF _ sha, of "[1, 2, 3]"] by auto
  with frame_roundtrip [OF sha this, of 16 "[]" "[5]"] show ?thesis by auto
qed

text \<open>
  Claim C23.  Nothing but a frame is read as a frame: when decoding at an offset succeeds, the
  bytes there are exactly the encoding of what was decoded, within the log, and the payload
  is within the bound.
\<close>

theorem decoded_frame_was_written:
  assumes "decode_frame_at sha bs off mx = Inr (Some f)" and "off \<le> length bs"
  shows "\<exists>frame. encode_frame sha (df_kind f) (df_log_index f) (df_payload f) = Inr frame
    \<and> bs = take off bs @ frame @ drop (df_end f) bs \<and> df_end f = off + length frame
    \<and> length (df_payload f) \<le> mx"
  using decode_frame_sound [OF assms] by metis

theorem decoded_frame_was_written_witness:
  "\<exists>frame f. encode_frame (\<lambda>_. replicate 32 0) Commit 7 [1] = Inr frame
     \<and> decode_frame_at (\<lambda>_. replicate 32 0) frame 0 16 = Inr (Some f)
     \<and> (\<exists>g. encode_frame (\<lambda>_. replicate 32 0) (df_kind f) (df_log_index f) (df_payload f) = Inr g
          \<and> frame = take 0 frame @ g @ drop (df_end f) frame)"
proof -
  have sha: "sha_ok (\<lambda>_. replicate 32 (0 :: u8))" by (simp add: sha_ok_def)
  obtain frame where fr: "encode_frame (\<lambda>_. replicate 32 0) Commit 7 [1] = Inr frame"
    using encode_frame_ok [OF _ sha, of "[1]"] by auto
  then obtain f where f: "decode_frame_at (\<lambda>_. replicate 32 0) frame 0 16 = Inr (Some f)"
    using decode_encode_frame [OF fr sha, of 16 "[]" "[]"] by auto
  from decoded_frame_was_written [OF f] fr f show ?thesis by auto
qed

text \<open>
  A frame that was cut short by a crash is recognised as incomplete, and not as
  corruption: the log before it is kept.
\<close>

theorem torn_frame_is_incomplete:
  assumes "sha_ok sha" and "encode_frame sha kind idx payload = Inr frame" and "n < length frame"
  shows "decode_frame_at sha (pre @ take n frame) (length pre) mx = Inr None"
  using decode_frame_torn [OF assms(2,1,3)] .

theorem torn_frame_is_incomplete_witness:
  "\<exists>frame. encode_frame (\<lambda>_. replicate 32 0) Commit 7 [1] = Inr frame
     \<and> decode_frame_at (\<lambda>_. replicate 32 0) ([] @ take 10 frame) (length []) 16 = Inr None"
proof -
  have sha: "sha_ok (\<lambda>_. replicate 32 (0 :: u8))" by (simp add: sha_ok_def)
  obtain frame where fr: "encode_frame (\<lambda>_. replicate 32 0) Commit 7 [1] = Inr frame"
    using encode_frame_ok [OF _ sha, of "[1]"] by auto
  then have "10 < length frame" using sha by (auto elim: encode_frame_Inr)
  from torn_frame_is_incomplete [OF sha fr this, of "[]" 16] fr show ?thesis by auto
qed

text \<open>
  The length check of \<open>decode_frame_at\<close> admits bodies that are four bytes too
  short for the header, so a log with a well-formed checksum over sixteen to nineteen bytes
  makes recovery panic instead of reporting corruption.
\<close>

theorem short_frame_panics:
  assumes "sha_ok sha" and "length extra < 4"
  shows "let protected = wal_magic @ u16_to_le wal_version @ [1, 0] @ u64_to_le idx @ extra in
    decode_frame_at sha (u32_to_le (of_nat (48 + length extra)) @ protected @ sha protected) 0 mx = Inl panic_error"
proof -
  define p where "p = wal_magic @ u16_to_le wal_version @ [1, 0] @ u64_to_le idx @ extra"
  define n where "n = 48 + length extra"
  define b where "b = (of_nat n :: u32)"
  have lp: "length p = n - 32" by (simp add: p_def n_def)
  have "n < 2 ^ 32" using assms(2) by (simp add: n_def)
  then have v: "le_value (u32_to_le b) = n" by (simp add: b_def unat_of_nat)
  have parts: "take n (p @ sha p) = p @ sha p" "take (n - 32) (p @ sha p) = p" "drop (n - 32) (p @ sha p) = sha p"
    using lp assms(1) by (simp_all add: n_def)
  have f: "take 4 p = wal_magic" "take 2 (drop 4 p) = u16_to_le wal_version" "p ! 6 = 1" "p ! 7 = 0"
    by (simp_all add: p_def nth_append)
  have "length p < 20" using lp assms(2) by (simp add: n_def)
  then have "decode_frame_at sha (u32_to_le b @ p @ sha p) 0 mx = Inl panic_error"
    using v parts f lp assms(1)
    by (simp add: decode_frame_at_def Let_def frame_fixed_bytes_def frame_kind_try_from_def n_def)
  then show ?thesis by (simp add: Let_def p_def b_def n_def)
qed

theorem short_frame_panics_witness:
  "let protected = wal_magic @ u16_to_le wal_version @ [1, 0] @ u64_to_le 5 @ [] in
    decode_frame_at (\<lambda>_. replicate 32 0)
      (u32_to_le (of_nat (48 + length ([] :: bytes))) @ protected @ (\<lambda>_. replicate 32 0) protected) 0 16 = Inl panic_error"
proof -
  have sha: "sha_ok (\<lambda>_. replicate 32 (0 :: u8))" by (simp add: sha_ok_def)
  from short_frame_panics [OF sha, of "[]" 5 16] show ?thesis by simp
qed

end
