(* ===== verification/Registry_Mutation.thy ===== *)
theory Registry_Mutation
  imports Wal_Frame "HOL-Library.Sublist"
begin

text \<open>
  The mutations of the persistent registry (\<open>persistent_registry.rs\<close>) and the transition
  function \<open>prepare_mutation\<close> that both the live registry and the log replay apply: the task
  life cycle as it is coded, the life cycle as a relation on states, and the record
  invariant that every accepted mutation keeps.
\<close>

section \<open>Mutations\<close>

text \<open>
  The variants \<open>Running\<close> and \<open>ConflictOutput\<close> of the source are \<open>MarkRunning\<close> and
  \<open>QuarantineOutput\<close>, since a state and a record of the contracts have their names.
\<close>

datatype ('p, 'r, 'h) RegistryMutation =
    Submit "('p, 'r, 'h) DurableTaskRecord"
  | Assign GlobalTaskId "'h DurableAttempt"
  | MarkRunning GlobalTaskId u32
  | StageOutput GlobalTaskId StagedOutput
  | QuarantineOutput GlobalTaskId ConflictOutput
  | CommitOutput GlobalTaskId ContentId
  | SetFailure GlobalTaskId GlobalTaskState string
  | Cancel GlobalTaskId

fun mutation_task_id :: "('p, 'r, 'h) RegistryMutation \<Rightarrow> GlobalTaskId" where
  "mutation_task_id (Submit record) = spec_task_id (rec_spec record)"
| "mutation_task_id (Assign t _) = t"
| "mutation_task_id (MarkRunning t _) = t"
| "mutation_task_id (StageOutput t _) = t"
| "mutation_task_id (QuarantineOutput t _) = t"
| "mutation_task_id (CommitOutput t _) = t"
| "mutation_task_id (SetFailure t _ _) = t"
| "mutation_task_id (Cancel t) = t"

type_synonym ('p, 'r, 'h) task_records = "(GlobalTaskId, ('p, 'r, 'h) DurableTaskRecord) fmap"

definition deactivate_attempts ::
  "('p, 'r, 'h) DurableTaskRecord \<Rightarrow> ('p, 'r, 'h) DurableTaskRecord" where
  "deactivate_attempts r = r\<lparr>rec_attempts := map (\<lambda>a. a\<lparr>att_active := False\<rparr>) (rec_attempts r)\<rparr>"

fun apply_existing ::
  "('p, 'r, 'h) RegistryMutation \<Rightarrow> ('p, 'r, 'h) DurableTaskRecord
     \<Rightarrow> ('p, 'r, 'h) DurableTaskRecord result" where
  "apply_existing (Assign _ attempt) r =
     (if is_terminal (rec_state r) \<or> rec_state r = OutputStaged \<or> att_attempt attempt = 0
         \<or> att_runner_generation attempt = 0
         \<or> list_ex (\<lambda>current. att_attempt current \<ge> att_attempt attempt) (rec_attempts r)
      then Inl invalid_transition
      else
        let r = deactivate_attempts r
        in Inr (r\<lparr>rec_attempts := rec_attempts r @ [attempt], rec_state := Assigned\<rparr>))"
| "apply_existing (MarkRunning _ attempt) r =
     (if rec_state r \<noteq> Assigned \<or> map_option att_attempt (active_attempt r) \<noteq> Some attempt
      then Inl invalid_transition
      else Inr (r\<lparr>rec_state := Running\<rparr>))"
| "apply_existing (StageOutput _ output) r =
     (case active_attempt r of
        None \<Rightarrow> Inl invalid_transition
      | Some active \<Rightarrow>
          if rec_state r \<notin> {Assigned, Running} \<or> att_attempt active \<noteq> so_attempt output
             \<or> att_node active \<noteq> so_worker output
          then Inl invalid_transition
          else Inr (r\<lparr>rec_staged := Some output, rec_state := OutputStaged\<rparr>))"
| "apply_existing (QuarantineOutput _ output) r = Inr (r\<lparr>rec_conflicts := rec_conflicts r @ [output]\<rparr>)"
| "apply_existing (CommitOutput _ cid) r =
     (if rec_state r \<noteq> OutputStaged
         \<or> (case rec_staged r of None \<Rightarrow> True | Some staged \<Rightarrow> so_content staged \<noteq> cid)
      then Inl invalid_transition
      else Inr (deactivate_attempts (r\<lparr>rec_committed := Some cid, rec_state := Committed\<rparr>)))"
| "apply_existing (SetFailure _ state reason) r =
     (if is_terminal (rec_state r) \<or> state \<notin> {Failed, RecoveryRequired}
      then Inl invalid_transition
      else Inr (deactivate_attempts (r\<lparr>rec_state := state, rec_failure := Some reason\<rparr>)))"
| "apply_existing (Cancel _) r =
     (if is_terminal (rec_state r) then Inl invalid_transition
      else Inr (deactivate_attempts (r\<lparr>rec_state := Cancelled\<rparr>)))"
| "apply_existing (Submit _) r = Inl panic_error"

definition prepare_existing_mutation ::
  "('p, 'r, 'h) task_records \<Rightarrow> ('p, 'r, 'h) RegistryMutation \<Rightarrow> ('p, 'r, 'h) DurableTaskRecord result"
where
  "prepare_existing_mutation records mutation =
     bind_result (ok_or task_unknown (fmlookup records (mutation_task_id mutation)))
       (apply_existing mutation)"

fun initial_state :: "AcceptanceMode \<Rightarrow> GlobalTaskState" where
  "initial_state Fast = Submitted"
| "initial_state Durable = Persisted"
| "initial_state (Critical _) = Persisted"

definition task_exists_error :: DistributedError where
  "task_exists_error = error_new Conflict ''global task id already exists''"

fun prepare_mutation ::
  "('p, 'r, 'h) task_records \<Rightarrow> ('p, 'r, 'h) RegistryMutation \<Rightarrow> nat
     \<Rightarrow> ('p, 'r, 'h) DurableTaskRecord result" where
  "prepare_mutation records (Submit r) max_tasks =
     (if bt_len records \<ge> max_tasks \<or> bt_contains records (spec_task_id (rec_spec r))
         \<or> rec_state r \<noteq> initial_state (rec_acceptance r) \<or> rec_attempts r \<noteq> []
         \<or> rec_staged r \<noteq> None \<or> rec_committed r \<noteq> None
      then Inl (if bt_contains records (spec_task_id (rec_spec r)) then task_exists_error
                else if bt_len records \<ge> max_tasks then registry_capacity_error
                else invalid_transition)
      else Inr r)"
| "prepare_mutation records mutation max_tasks = prepare_existing_mutation records mutation"

section \<open>The life cycle\<close>

text \<open>The transitions a task may make, as a relation on states.\<close>

inductive lifecycle :: "GlobalTaskState \<Rightarrow> GlobalTaskState \<Rightarrow> bool" where
  stutter: "lifecycle s s"
| assign: "s \<in> {Submitted, Persisted, Assigned, Running, RecoveryRequired} \<Longrightarrow> lifecycle s Assigned"
| run: "lifecycle Assigned Running"
| stage: "s \<in> {Assigned, Running} \<Longrightarrow> lifecycle s OutputStaged"
| commit: "lifecycle OutputStaged Committed"
| fail: "\<not> is_terminal s \<Longrightarrow> lifecycle s Failed"
| recover: "\<not> is_terminal s \<Longrightarrow> lifecycle s RecoveryRequired"
| cancel: "\<not> is_terminal s \<Longrightarrow> lifecycle s Cancelled"

inductive_cases lifecycle_committedE: "lifecycle s Committed"
inductive_cases lifecycle_stagedE: "lifecycle s OutputStaged"

lemma lifecycle_terminal: "lifecycle s s' \<Longrightarrow> is_terminal s \<Longrightarrow> s' = s"
  by (cases rule: lifecycle.cases) (auto simp: is_terminal_def)

lemma lifecycle_terminal_forever: "lifecycle\<^sup>*\<^sup>* s s' \<Longrightarrow> is_terminal s \<Longrightarrow> s' = s"
  by (induction rule: rtranclp_induct) (auto dest: lifecycle_terminal)

lemma lifecycle_committed_from: "lifecycle s Committed \<Longrightarrow> s \<noteq> Committed \<Longrightarrow> s = OutputStaged"
  by (erule lifecycle_committedE) auto

lemma lifecycle_staged_from:
  "lifecycle s OutputStaged \<Longrightarrow> s \<noteq> OutputStaged \<Longrightarrow> s = Assigned \<or> s = Running"
  by (erule lifecycle_stagedE) auto

section \<open>The record invariant\<close>

definition live_state :: "GlobalTaskState \<Rightarrow> bool" where
  "live_state s \<longleftrightarrow> s \<in> {Assigned, Running, OutputStaged}"

definition attempts_ok :: "GlobalTaskState \<Rightarrow> 'h DurableAttempt list \<Rightarrow> bool" where
  "attempts_ok s as \<longleftrightarrow>
     sorted_wrt (\<lambda>a b. att_attempt a < att_attempt b) as
     \<and> (\<forall>a \<in> set as. att_attempt a \<noteq> 0 \<and> att_runner_generation a \<noteq> 0)
     \<and> (if live_state s then as \<noteq> [] \<and> att_active (last as) \<and> (\<forall>a \<in> set (butlast as). \<not> att_active a)
        else \<forall>a \<in> set as. \<not> att_active a)"

definition outputs_ok :: "('p, 'r, 'h) DurableTaskRecord \<Rightarrow> bool" where
  "outputs_ok r \<longleftrightarrow>
     (rec_state r = OutputStaged \<longrightarrow>
        (\<exists>out. rec_staged r = Some out \<and> so_attempt out = att_attempt (last (rec_attempts r))
               \<and> so_worker out = att_node (last (rec_attempts r))))
     \<and> (rec_state r = Committed \<longrightarrow>
        (\<exists>out. rec_staged r = Some out \<and> rec_committed r = Some (so_content out)))
     \<and> (rec_state r \<noteq> Committed \<longrightarrow> rec_committed r = None)"

definition task_ok :: "('p, 'r, 'h) DurableTaskRecord \<Rightarrow> bool" where
  "task_ok r \<longleftrightarrow> attempts_ok (rec_state r) (rec_attempts r) \<and> outputs_ok r"

text \<open>What the public operations put into a mutation: a new attempt is active.\<close>

fun mutation_wf :: "('p, 'r, 'h) RegistryMutation \<Rightarrow> bool" where
  "mutation_wf (Assign _ a) \<longleftrightarrow> att_active a"
| "mutation_wf (SetFailure _ s _) \<longleftrightarrow> s \<in> {Failed, RecoveryRequired}"
| "mutation_wf _ \<longleftrightarrow> True"

lemma find_Some_rev_last: "xs \<noteq> [] \<Longrightarrow> P (last xs) \<Longrightarrow> List.find P (rev xs) = Some (last xs)"
  by (cases xs rule: rev_cases) auto

lemma active_attempt_live:
  "attempts_ok (rec_state r) (rec_attempts r) \<Longrightarrow> live_state (rec_state r) \<Longrightarrow>
     active_attempt r = Some (last (rec_attempts r))"
  by (simp add: attempts_ok_def active_attempt_def find_Some_rev_last)

lemma active_attempt_not_live:
  "attempts_ok (rec_state r) (rec_attempts r) \<Longrightarrow> \<not> live_state (rec_state r) \<Longrightarrow> active_attempt r = None"
  by (auto simp: attempts_ok_def active_attempt_def find_None_iff)

lemma attempts_ok_deactivated:
  "attempts_ok s as \<Longrightarrow> \<not> live_state s' \<Longrightarrow> attempts_ok s' (map (\<lambda>a. a\<lparr>att_active := False\<rparr>) as)"
  by (auto simp: attempts_ok_def sorted_wrt_map)

lemma attempts_ok_assign:
  assumes "attempts_ok s as" "att_active a" "att_attempt a \<noteq> 0" "att_runner_generation a \<noteq> 0"
    "\<forall>b \<in> set as. att_attempt b < att_attempt a"
  shows "attempts_ok Assigned (map (\<lambda>a. a\<lparr>att_active := False\<rparr>) as @ [a])"
  using assms by (auto simp: attempts_ok_def sorted_wrt_map sorted_wrt_append live_state_def)

lemma attempts_ok_live: "attempts_ok s as \<Longrightarrow> live_state s \<Longrightarrow> live_state s' \<Longrightarrow> attempts_ok s' as"
  by (auto simp: attempts_ok_def)

lemma deactivate_simps [simp]:
  "rec_state (deactivate_attempts r) = rec_state r"
  "rec_staged (deactivate_attempts r) = rec_staged r"
  "rec_committed (deactivate_attempts r) = rec_committed r"
  "rec_spec (deactivate_attempts r) = rec_spec r"
  "rec_acceptance (deactivate_attempts r) = rec_acceptance r"
  "rec_attempts (deactivate_attempts r) = map (\<lambda>a. a\<lparr>att_active := False\<rparr>) (rec_attempts r)"
  by (simp_all add: deactivate_attempts_def)

lemma terminal_not_live: "is_terminal s \<Longrightarrow> \<not> live_state s"
  by (auto simp: is_terminal_def live_state_def)

lemma apply_existing_lifecycle:
  "apply_existing m r = Inr r' \<Longrightarrow> lifecycle (rec_state r) (rec_state r')"
  by (cases m; cases "rec_state r")
    (auto simp: is_terminal_def lifecycle.simps split: if_splits option.splits)

lemma apply_existing_keeps:
  assumes "apply_existing m r = Inr r'"
  shows "rec_spec r' = rec_spec r" and "rec_acceptance r' = rec_acceptance r"
    and "prefix (map att_attempt (rec_attempts r)) (map att_attempt (rec_attempts r'))"
  using assms by (cases m; auto split: if_splits option.splits simp: comp_def)+

lemma apply_existing_task_ok:
  assumes "apply_existing m r = Inr r'" and ok: "task_ok r" and "mutation_wf m"
  shows "task_ok r'"
  using assms
proof (cases m)
  case (Assign t a)
  have "outputs_ok r'" using assms(1) Assign ok
    by (auto simp: task_ok_def outputs_ok_def is_terminal_def split: if_splits)
  moreover have "attempts_ok (rec_state r') (rec_attempts r')"
    using assms Assign attempts_ok_assign [of "rec_state r" "rec_attempts r" a]
    by (auto simp: task_ok_def list_ex_iff not_le split: if_splits)
  ultimately show ?thesis by (simp add: task_ok_def)
next
  case (StageOutput t out)
  with assms have live: "live_state (rec_state r)" by (auto simp: live_state_def split: option.splits if_splits)
  then have "active_attempt r = Some (last (rec_attempts r))"
    using ok by (simp add: task_ok_def active_attempt_live)
  with assms StageOutput live show ?thesis
    by (auto simp: task_ok_def outputs_ok_def split: if_splits
        intro: attempts_ok_live simp: live_state_def)
qed (auto simp: task_ok_def outputs_ok_def live_state_def is_terminal_def
      split: if_splits option.splits intro: attempts_ok_live intro!: attempts_ok_deactivated)

end
