(* ===== verification/Metadata_Replica.thy ===== *)
theory Metadata_Replica
  imports Wal_File Registry_Mutation
begin

text \<open>
  Metadata replicas (\<open>persistent_registry.rs\<close>): the transaction a registry sends to its
  replicas, the interface \<open>MetadataReplica\<close> as a locale, and the implementation
  \<open>FileMetadataReplica\<close> over a log file, with the scan that rebuilds it when it is opened.
  SHA-256 and the three JSON codecs are library code and are the fields of \<open>registry_codec\<close>.
\<close>

section \<open>Data\<close>

record ('p, 'r, 'h) PreparedPayload =
  pp_transaction_id :: string
  pp_log_index :: u64
  pp_previous_transaction_id :: string
  pp_task_id :: GlobalTaskId
  pp_previous_version :: u64
  pp_new_version :: u64
  pp_mutation :: "('p, 'r, 'h) RegistryMutation"

record ('p, 'r, 'h) RegistrySnapshot =
  rs_format_version :: u16
  rs_last_included :: u64
  rs_last_transaction_id :: string
  rs_records :: "('p, 'r, 'h) task_records"
  rs_versions :: "(GlobalTaskId, u64) fmap"

record ('p, 'r, 'h) registry_codec =
  cx_sha :: "bytes \<Rightarrow> bytes"
  cx_mutation :: "('p, 'r, 'h) RegistryMutation serde"
  cx_prepared :: "('p, 'r, 'h) PreparedPayload serde"
  cx_snapshot :: "('p, 'r, 'h) RegistrySnapshot serde"

record MetadataTransaction =
  mt_transaction_id :: string
  mt_log_index :: u64
  mt_previous_version :: u64
  mt_prepare_payload :: bytes
  mt_prepare_frame :: bytes
  mt_commit_frame :: bytes

record ReplicaCommitAck =
  ack_replica_id :: string
  ack_transaction_id :: string
  ack_log_index :: u64

definition transaction_id :: "(bytes \<Rightarrow> bytes) \<Rightarrow> string \<Rightarrow> u64 \<Rightarrow> u64 \<Rightarrow> bytes \<Rightarrow> string" where
  "transaction_id sha previous_transaction_id log_index previous_version mutation_bytes =
     hex_string (sha (as_bytes previous_transaction_id @ u64_to_le log_index
                      @ u64_to_le previous_version @ mutation_bytes))"

definition transaction_id_for_prepared ::
  "('p, 'r, 'h) registry_codec \<Rightarrow> ('p, 'r, 'h) PreparedPayload \<Rightarrow> string result" where
  "transaction_id_for_prepared cx prepared =
     bind_result (ok_or registry_corrupt_error (to_vec (cx_mutation cx) (pp_mutation prepared)))
       (\<lambda>mutation_bytes. Inr (transaction_id (cx_sha cx) (pp_previous_transaction_id prepared)
          (pp_log_index prepared) (pp_previous_version prepared) mutation_bytes))"

definition committed_frames_from_prepare_payload ::
  "('p, 'r, 'h) registry_codec \<Rightarrow> bytes \<Rightarrow> (u64 \<times> string \<times> bytes \<times> bytes) result" where
  "committed_frames_from_prepare_payload cx prepare_payload =
     bind_result (ok_or registry_corrupt_error (from_slice (cx_prepared cx) prepare_payload)) (\<lambda>prepared.
     bind_result (transaction_id_for_prepared cx prepared) (\<lambda>expected.
     if expected \<noteq> pp_transaction_id prepared then Inl registry_corrupt_error
     else
       bind_result (encode_frame (cx_sha cx) Prepare (pp_log_index prepared) prepare_payload) (\<lambda>prepare.
       bind_result (encode_frame (cx_sha cx) Commit (pp_log_index prepared)
                      (as_bytes (pp_transaction_id prepared))) (\<lambda>commit.
       Inr (pp_log_index prepared, pp_transaction_id prepared, prepare, commit)))))"

section \<open>Scanning a replica log\<close>

definition starts_with_json :: "bytes \<Rightarrow> bool" where
  "starts_with_json bs \<longleftrightarrow> take 2 bs = as_bytes [CHR ''{'', CHR 0x22]"

record scan_state =
  sc_committed :: "(u64, string) fmap"
  sc_pending :: "(u64, string \<times> nat) fmap"

definition scan_frame ::
  "('p, 'r, 'h) registry_codec \<Rightarrow> nat \<Rightarrow> DecodedFrame \<Rightarrow> scan_state \<Rightarrow> scan_state result" where
  "scan_frame cx offset frame s =
     (case df_kind frame of
        Prepare \<Rightarrow>
          bind_result (ok_or (registry_corrupt_at offset) (from_slice (cx_prepared cx) (df_payload frame)))
            (\<lambda>prepared.
             if pp_log_index prepared \<noteq> df_log_index frame then Inl (registry_corrupt_at offset)
             else if bt_contains (sc_pending s) (df_log_index frame) then Inr s
             else Inr (s\<lparr>sc_pending := fmupd (df_log_index frame) (pp_transaction_id prepared, offset)
                                         (sc_pending s)\<rparr>))
      | Commit \<Rightarrow>
          bind_result (ok_or (registry_corrupt_at offset) (from_utf8 (df_payload frame))) (\<lambda>tx.
          if fmlookup (sc_committed s) (df_log_index frame) = Some tx then Inr s
          else case fmlookup (sc_pending s) (df_log_index frame) of
            None \<Rightarrow> Inl (registry_corrupt_at offset)
          | Some (prepared_id, _) \<Rightarrow>
              if prepared_id \<noteq> tx then Inl (registry_corrupt_at offset)
              else Inr \<lparr>sc_committed = fmupd (df_log_index frame) tx (sc_committed s),
                        sc_pending = fmdrop (df_log_index frame) (sc_pending s)\<rparr>)
      | Snapshot \<Rightarrow> Inl (registry_corrupt_at offset))"

definition scan_truncate_offset :: "scan_state \<Rightarrow> nat \<Rightarrow> nat" where
  "scan_truncate_offset s offset =
     (case map snd (bt_values (sc_pending s)) of
        [] \<Rightarrow> offset
      | x # xs \<Rightarrow> fold min xs x)"

definition scan_transaction_ids ::
  "('p, 'r, 'h) registry_codec \<Rightarrow> bytes \<Rightarrow> nat \<Rightarrow> ((u64, string) fmap \<times> nat option) result" where
  "scan_transaction_ids cx bs max_record_bytes =
     (if starts_with_json bs then Inl (registry_corrupt_at 0)
      else
        bind_result (scan_frames (cx_sha cx) max_record_bytes bs (scan_frame cx) 0
                       \<lparr>sc_committed = fmempty, sc_pending = fmempty\<rparr>)
          (\<lambda>(s, offset).
             let truncate_offset = scan_truncate_offset s offset
             in Inr (sc_committed s, if truncate_offset < length bs then Some truncate_offset else None)))"

section \<open>The file replica\<close>

record FileMetadataReplica =
  fr_id :: string
  fr_wal :: WalFile
  fr_committed :: "(u64, string) fmap"

definition default_max_registry_record_bytes :: nat where
  "default_max_registry_record_bytes = 64 * 1024"

text \<open>The answers of the file system while a log is opened; the file is \<open>None\<close> when it does not exist.\<close>

record open_io =
  oio_parent :: bool
  oio_read :: bool
  oio_open :: bool
  oio_truncate :: truncate_io

definition open_all_ok :: open_io where
  "open_all_ok = \<lparr>oio_parent = True, oio_read = True, oio_open = True,
                  oio_truncate = \<lparr>tio_set_len = True, tio_sync = True\<rparr>\<rparr>"

definition read_existing :: "open_io \<Rightarrow> bytes option \<Rightarrow> bytes result" where
  "read_existing io file =
     (case file of None \<Rightarrow> Inr [] | Some bs \<Rightarrow> if oio_read io then Inr bs else Inl registry_storage_error)"

text \<open>\<open>WalFile::open\<close> followed by the truncation of the tail that recovery refused.\<close>

definition wal_open :: "open_io \<Rightarrow> bytes \<Rightarrow> nat option \<Rightarrow> WalFile result" where
  "wal_open io bs truncate_at =
     (if \<not> oio_open io then Inl registry_storage_error
      else
        let w = \<lparr>wf_bytes = bs, wf_synced = length bs\<rparr> in
        case truncate_at of
          None \<Rightarrow> Inr w
        | Some n \<Rightarrow>
            (case wal_truncate (oio_truncate io) n w of
               (Inl e, _) \<Rightarrow> Inl e
             | (Inr _, w') \<Rightarrow> Inr w'))"

definition file_replica_open ::
  "('p, 'r, 'h) registry_codec \<Rightarrow> open_io \<Rightarrow> string \<Rightarrow> bytes option \<Rightarrow> FileMetadataReplica result" where
  "file_replica_open cx io path file =
     (if \<not> oio_parent io then Inl registry_storage_error
      else
        bind_result (read_existing io file) (\<lambda>bs.
        bind_result (scan_transaction_ids cx bs default_max_registry_record_bytes) (\<lambda>(committed, truncate_at).
        bind_result (wal_open io bs truncate_at) (\<lambda>wal.
        Inr \<lparr>fr_id = ''file:'' @ path, fr_wal = wal, fr_committed = committed\<rparr>))))"

definition file_replica_commit ::
  "append_io \<Rightarrow> MetadataTransaction \<Rightarrow> bool \<Rightarrow> FileMetadataReplica
     \<Rightarrow> ReplicaCommitAck result \<times> FileMetadataReplica" where
  "file_replica_commit io tx sync r =
     (case fmlookup (fr_committed r) (mt_log_index tx) of
        Some existing \<Rightarrow>
          if existing = mt_transaction_id tx
          then (Inr \<lparr>ack_replica_id = fr_id r, ack_transaction_id = existing,
                     ack_log_index = mt_log_index tx\<rparr>, r)
          else (Inl (replica_conflict_error (mt_log_index tx)), r)
      | None \<Rightarrow>
          (case wal_append_pair io (mt_prepare_frame tx) (mt_commit_frame tx) sync (fr_wal r) of
             (Inl e, w) \<Rightarrow> (Inl e, r\<lparr>fr_wal := w\<rparr>)
           | (Inr _, w) \<Rightarrow>
               (Inr \<lparr>ack_replica_id = fr_id r, ack_transaction_id = mt_transaction_id tx,
                      ack_log_index = mt_log_index tx\<rparr>,
                r\<lparr>fr_wal := w,
                   fr_committed := fmupd (mt_log_index tx) (mt_transaction_id tx) (fr_committed r)\<rparr>)))"

section \<open>The interface\<close>

text \<open>
  What a registry relies on when it counts an acknowledgement as a copy: the acknowledgement
  names the replica and the transaction, the replica then holds the transaction at its log
  index, and it never gives an index up.
\<close>

locale metadata_replica =
  fixes replica_id :: "'x \<Rightarrow> string"
    and commit :: "'env \<Rightarrow> MetadataTransaction \<Rightarrow> bool \<Rightarrow> 'x \<Rightarrow> ReplicaCommitAck result \<times> 'x"
    and holds :: "'x \<Rightarrow> u64 \<Rightarrow> string \<Rightarrow> bool"
  assumes commit_ack: "commit env tx sync x = (Inr ack, x') \<Longrightarrow>
      ack = \<lparr>ack_replica_id = replica_id x, ack_transaction_id = mt_transaction_id tx,
             ack_log_index = mt_log_index tx\<rparr>
      \<and> holds x' (mt_log_index tx) (mt_transaction_id tx)"
    and commit_id: "replica_id (snd (commit env tx sync x)) = replica_id x"
    and commit_mono: "holds x i t \<Longrightarrow> holds (snd (commit env tx sync x)) i t"

text \<open>A replica that also refuses a second transaction at an index it holds.\<close>

locale exclusive_replica = metadata_replica +
  assumes holds_unique: "holds x i t \<Longrightarrow> holds x i t' \<Longrightarrow> t = t'"
begin

lemma commit_conflict:
  assumes "holds x (mt_log_index tx) t" and "t \<noteq> mt_transaction_id tx"
  shows "\<exists>e. fst (commit env tx sync x) = Inl e"
proof (cases "commit env tx sync x")
  case (Pair r x')
  show ?thesis
  proof (cases r)
    case (Inr ack)
    then have "holds x' (mt_log_index tx) (mt_transaction_id tx)" using Pair commit_ack by blast
    moreover have "holds x' (mt_log_index tx) t" using Pair commit_mono [OF assms(1)] by (metis snd_conv)
    ultimately show ?thesis using holds_unique assms(2) by blast
  qed (simp add: Pair)
qed

end

definition file_holds :: "FileMetadataReplica \<Rightarrow> u64 \<Rightarrow> string \<Rightarrow> bool" where
  "file_holds r i t \<longleftrightarrow> fmlookup (fr_committed r) i = Some t"

interpretation file_replica: exclusive_replica fr_id file_replica_commit file_holds
proof
  fix env tx sync x ack x'
  assume "file_replica_commit env tx sync x = (Inr ack, x')"
  then show "ack = \<lparr>ack_replica_id = fr_id x, ack_transaction_id = mt_transaction_id tx,
             ack_log_index = mt_log_index tx\<rparr> \<and> file_holds x' (mt_log_index tx) (mt_transaction_id tx)"
    by (auto simp: file_replica_commit_def file_holds_def split: option.splits if_splits prod.splits sum.splits)
next
  fix env tx sync x
  show "fr_id (snd (file_replica_commit env tx sync x)) = fr_id x"
    by (auto simp: file_replica_commit_def split: option.splits prod.splits sum.splits)
next
  fix x i t env tx sync
  assume "file_holds x i t"
  then show "file_holds (snd (file_replica_commit env tx sync x)) i t"
    by (auto simp: file_replica_commit_def file_holds_def split: option.splits prod.splits sum.splits)
qed (simp add: file_holds_def)

section \<open>Reopening a file replica\<close>

definition transaction_wf ::
  "('p, 'r, 'h) registry_codec \<Rightarrow> nat \<Rightarrow> MetadataTransaction \<Rightarrow> bool" where
  "transaction_wf cx mx tx \<longleftrightarrow>
     (\<exists>prepared. from_slice (cx_prepared cx) (mt_prepare_payload tx) = Some prepared
        \<and> pp_log_index prepared = mt_log_index tx \<and> pp_transaction_id prepared = mt_transaction_id tx)
     \<and> encode_frame (cx_sha cx) Prepare (mt_log_index tx) (mt_prepare_payload tx) = Inr (mt_prepare_frame tx)
     \<and> encode_frame (cx_sha cx) Commit (mt_log_index tx) (as_bytes (mt_transaction_id tx))
         = Inr (mt_commit_frame tx)
     \<and> ascii (mt_transaction_id tx)
     \<and> length (mt_prepare_payload tx) \<le> mx \<and> length (mt_transaction_id tx) \<le> mx"

definition prepare_entry :: "MetadataTransaction \<Rightarrow> wal_entry" where
  "prepare_entry tx =
     \<lparr>we_kind = Prepare, we_index = mt_log_index tx, we_payload = mt_prepare_payload tx\<rparr>"

definition commit_entry :: "MetadataTransaction \<Rightarrow> wal_entry" where
  "commit_entry tx =
     \<lparr>we_kind = Commit, we_index = mt_log_index tx, we_payload = as_bytes (mt_transaction_id tx)\<rparr>"

fun tx_entries :: "MetadataTransaction list \<Rightarrow> wal_entry list" where
  "tx_entries [] = []"
| "tx_entries (tx # txs) = prepare_entry tx # commit_entry tx # tx_entries txs"

fun tx_map :: "MetadataTransaction list \<Rightarrow> (u64, string) fmap \<Rightarrow> (u64, string) fmap" where
  "tx_map [] m = m"
| "tx_map (tx # txs) m = tx_map txs (fmupd (mt_log_index tx) (mt_transaction_id tx) m)"

lemma transaction_wf_frames:
  assumes "transaction_wf cx mx tx" and "sha_ok (cx_sha cx)"
  shows "entry_ok mx (prepare_entry tx)" and "entry_ok mx (commit_entry tx)"
    and "frame_of (cx_sha cx) (prepare_entry tx) = mt_prepare_frame tx"
    and "frame_of (cx_sha cx) (commit_entry tx) = mt_commit_frame tx"
  using assms encode_frame_entry [of "cx_sha cx" _ "mt_log_index tx" _ _ mx]
  by (simp_all add: transaction_wf_def prepare_entry_def commit_entry_def)

lemma tx_entries_append [simp]: "tx_entries (xs @ ys) = tx_entries xs @ tx_entries ys"
  by (induction xs) auto

lemma tx_map_append [simp]: "tx_map (xs @ ys) m = tx_map ys (tx_map xs m)"
  by (induction xs arbitrary: m) auto

lemma tx_entries_ok:
  "\<forall>tx \<in> set txs. transaction_wf cx mx tx \<Longrightarrow> sha_ok (cx_sha cx) \<Longrightarrow> \<forall>e \<in> set (tx_entries txs). entry_ok mx e"
  by (induction txs) (auto dest: transaction_wf_frames)

lemma tx_map_lookup_other: "i \<notin> mt_log_index ` set txs \<Longrightarrow> fmlookup (tx_map txs m) i = fmlookup m i"
  by (induction txs arbitrary: m) auto

lemma fmlookup_tx_map_dom: "i |\<in>| fmdom (tx_map txs m) \<longleftrightarrow> i |\<in>| fmdom m \<or> i \<in> mt_log_index ` set txs"
  by (induction txs arbitrary: m) auto

lemma tx_map_mono:
  assumes d: "distinct (map mt_log_index (xs @ ys))" and l: "fmlookup (tx_map xs fmempty) i = Some v"
  shows "fmlookup (tx_map (xs @ ys) fmempty) i = Some v"
proof -
  from l have "i \<in> mt_log_index ` set xs" using fmlookup_tx_map_dom [of i xs fmempty] by (auto intro: fmdomI)
  with d have "i \<notin> mt_log_index ` set ys" by auto
  with l show ?thesis by (simp add: tx_map_lookup_other)
qed

lemma take_tx_entries:
  "take j (tx_entries txs) =
     tx_entries (take (j div 2) txs)
     @ (if odd j \<and> j div 2 < length txs then [prepare_entry (txs ! (j div 2))] else [])"
proof (induction txs arbitrary: j)
  case (Cons tx txs)
  show ?case
  proof (cases j)
    case (Suc i)
    then show ?thesis using Cons.IH [of "i - 1"] by (cases i) auto
  qed simp
qed simp

lemma scan_prepare_entry:
  assumes "transaction_wf cx mx tx"
  shows "scan_frame cx off (entry_frame sha off (prepare_entry tx)) \<lparr>sc_committed = c, sc_pending = fmempty\<rparr>
    = Inr \<lparr>sc_committed = c, sc_pending = fmupd (mt_log_index tx) (mt_transaction_id tx, off) fmempty\<rparr>"
  using assms
  by (auto simp: transaction_wf_def scan_frame_def entry_frame_def prepare_entry_def bt_contains_def)

lemma scan_commit_entry:
  assumes "transaction_wf cx mx tx" and "fmlookup c (mt_log_index tx) = None"
  shows "scan_frame cx off (entry_frame sha off (commit_entry tx))
      \<lparr>sc_committed = c, sc_pending = fmupd (mt_log_index tx) (mt_transaction_id tx, off') fmempty\<rparr>
    = Inr \<lparr>sc_committed = fmupd (mt_log_index tx) (mt_transaction_id tx) c, sc_pending = fmempty\<rparr>"
  using assms
  by (auto simp: transaction_wf_def scan_frame_def entry_frame_def commit_entry_def)

lemma scan_tx_entries:
  assumes "\<forall>tx \<in> set txs. transaction_wf cx mx tx" and "distinct (map mt_log_index txs)"
    and "\<forall>tx \<in> set txs. fmlookup c (mt_log_index tx) = None"
  shows "fold_entries sha (scan_frame cx) off (tx_entries txs) \<lparr>sc_committed = c, sc_pending = fmempty\<rparr>
    = Inr (\<lparr>sc_committed = tx_map txs c, sc_pending = fmempty\<rparr>, off + length (wal_image sha (tx_entries txs)))"
  using assms
proof (induction txs arbitrary: c off)
  case (Cons tx txs)
  have wf: "transaction_wf cx mx tx" using Cons.prems(1) by simp
  have "\<forall>t \<in> set txs. fmlookup (fmupd (mt_log_index tx) (mt_transaction_id tx) c) (mt_log_index t) = None"
    using Cons.prems(2,3) by auto
  then show ?case
    using Cons by (simp add: scan_prepare_entry [OF wf] scan_commit_entry [OF wf])
qed simp

text \<open>
  The invariant of a replica: its log is the image of the transactions it holds, and \<open>D\<close>
  is what the first \<open>n\<close> of them, which are known to be on disk, hold.
\<close>

definition file_replica_log ::
  "('p, 'r, 'h) registry_codec \<Rightarrow> MetadataTransaction list \<Rightarrow> nat \<Rightarrow> FileMetadataReplica \<Rightarrow> bool" where
  "file_replica_log cx txs n r \<longleftrightarrow>
     (\<forall>tx \<in> set txs. transaction_wf cx default_max_registry_record_bytes tx)
     \<and> distinct (map mt_log_index txs)
     \<and> wf_bytes (fr_wal r) = wal_image (cx_sha cx) (tx_entries txs)
     \<and> wf_synced (fr_wal r) = length (wal_image (cx_sha cx) (tx_entries (take n txs)))
     \<and> n \<le> length txs
     \<and> fr_committed r = tx_map txs fmempty"

definition file_replica_ok ::
  "('p, 'r, 'h) registry_codec \<Rightarrow> (u64, string) fmap \<Rightarrow> FileMetadataReplica \<Rightarrow> bool" where
  "file_replica_ok cx D r \<longleftrightarrow> (\<exists>txs n. file_replica_log cx txs n r \<and> D = tx_map (take n txs) fmempty)"

lemma file_replica_log_extend:
  assumes "file_replica_log cx txs n r" and "sha_ok (cx_sha cx)"
    and wf: "transaction_wf cx default_max_registry_record_bytes tx"
    and "fmlookup (fr_committed r) (mt_log_index tx) = None"
    and "wf_bytes w = wf_bytes (fr_wal r) @ mt_prepare_frame tx @ mt_commit_frame tx"
    and "wf_synced w = (if sync then length (wf_bytes w) else wf_synced (fr_wal r))"
  shows "file_replica_log cx (txs @ [tx]) (if sync then Suc (length txs) else n)
      (r\<lparr>fr_wal := w, fr_committed := fmupd (mt_log_index tx) (mt_transaction_id tx) (fr_committed r)\<rparr>)"
proof -
  have "mt_log_index tx \<notin> mt_log_index ` set txs"
    using fmlookup_tx_map_dom [of "mt_log_index tx" txs fmempty] assms(1,4)
    by (auto simp: fmlookup_dom_iff file_replica_log_def)
  then show ?thesis
    using assms transaction_wf_frames [OF wf assms(2)] by (auto simp: file_replica_log_def)
qed

lemma file_replica_commit_ok:
  assumes "file_replica_ok cx D r" and sha: "sha_ok (cx_sha cx)"
    and wf: "transaction_wf cx default_max_registry_record_bytes tx"
    and ci: "file_replica_commit io tx sync r = (res, r')" and "aio_rollback io"
  shows "\<exists>D'. file_replica_ok cx D' r' \<and> (\<forall>i t. fmlookup D i = Some t \<longrightarrow> fmlookup D' i = Some t)
    \<and> (r' \<noteq> r \<and> sync \<longrightarrow> D' = fr_committed r')"
proof -
  obtain ra w where ap: "wal_append_pair io (mt_prepare_frame tx) (mt_commit_frame tx) sync (fr_wal r) = (ra, w)"
    by fastforce
  from assms(1) obtain txs n where log: "file_replica_log cx txs n r" and D: "D = tx_map (take n txs) fmempty"
    by (auto simp: file_replica_ok_def)
  let ?r = "r\<lparr>fr_wal := w, fr_committed := fmupd (mt_log_index tx) (mt_transaction_id tx) (fr_committed r)\<rparr>"
  consider "r' = r" | "fmlookup (fr_committed r) (mt_log_index tx) = None" "r' = ?r"
      "wf_bytes w = wf_bytes (fr_wal r) @ mt_prepare_frame tx @ mt_commit_frame tx"
      "wf_synced w = (if sync then length (wf_bytes w) else wf_synced (fr_wal r))"
    using ci ap
    by (rule_tac wal_append_cases [OF ap [unfolded wal_append_pair_def] assms(5)])
       (auto simp: file_replica_commit_def split: option.splits if_splits)
  then show ?thesis
  proof cases
    case 1
    then show ?thesis using assms(1) by blast
  next
    case 2
    note new = file_replica_log_extend [OF log sha wf 2(1,3,4), folded 2(2)]
    let ?n = "if sync then Suc (length txs) else n"
    have "n \<le> length txs" using log by (simp add: file_replica_log_def)
    then have "\<exists>rest. take ?n (txs @ [tx]) = take n txs @ rest"
      by (cases sync) (auto intro: exI [of _ "drop n txs @ [tx]"])
    then obtain rest where "take ?n (txs @ [tx]) = take n txs @ rest" ..
    moreover have "distinct (map mt_log_index (take ?n (txs @ [tx])))"
      using new by (metis distinct_take file_replica_log_def take_map)
    ultimately have "fmlookup (tx_map (take ?n (txs @ [tx])) fmempty) i = Some t" if "fmlookup D i = Some t" for i t
      using that D tx_map_mono by metis
    moreover have "sync \<Longrightarrow> tx_map (take ?n (txs @ [tx])) fmempty = fr_committed r'"
      using new by (auto simp: file_replica_log_def)
    moreover have "file_replica_ok cx (tx_map (take ?n (txs @ [tx])) fmempty) r'"
      unfolding file_replica_ok_def using new by blast
    ultimately show ?thesis by (intro exI [of _ "tx_map (take ?n (txs @ [tx])) fmempty"]) simp
  qed
qed

text \<open>
  Opening the log a crash left: every complete transaction is found, the rest is cut off,
  and nothing that was on disk is lost.
\<close>

definition scan_done :: "MetadataTransaction list \<Rightarrow> (u64, string \<times> nat) fmap \<Rightarrow> scan_state" where
  "scan_done txs pending = \<lparr>sc_committed = tx_map txs fmempty, sc_pending = pending\<rparr>"

lemma tx_entries_take: "n \<le> length txs \<Longrightarrow> tx_entries (take n txs) = take (2 * n) (tx_entries txs)"
  by (simp add: take_tx_entries)

lemma length_tx_entries [simp]: "length (tx_entries txs) = 2 * length txs"
  by (induction txs) auto

lemma fold_cut_entries:
  assumes wf: "\<forall>tx \<in> set txs. transaction_wf cx mx tx" and d: "distinct (map mt_log_index txs)"
    and es: "es = take j (tx_entries txs)" and j: "j \<le> length (tx_entries txs)" and m: "m = j div 2"
  obtains pending where
    "fold_entries sha (scan_frame cx) 0 es (scan_done [] fmempty)
       = Inr (scan_done (take m txs) pending, length (wal_image sha es))"
    and "scan_truncate_offset (scan_done (take m txs) pending) (length (wal_image sha es))
       = length (wal_image sha (tx_entries (take m txs)))"
proof -
  have wf': "\<forall>tx \<in> set (take m txs). transaction_wf cx mx tx" using wf by (auto dest: in_set_takeD)
  have d': "distinct (map mt_log_index (take m txs))" using d by (metis distinct_take take_map)
  have base: "fold_entries sha (scan_frame cx) 0 (tx_entries (take m txs)) (scan_done [] fmempty)
      = Inr (scan_done (take m txs) fmempty, length (wal_image sha (tx_entries (take m txs))))"
    using scan_tx_entries [OF wf' d', of fmempty sha 0] by (simp add: scan_done_def)
  show ?thesis
  proof (cases "odd j \<and> m < length txs")
    case True
    then have es': "es = tx_entries (take m txs) @ [prepare_entry (txs ! m)]"
      using take_tx_entries [of j txs] by (simp add: es m)
    have "transaction_wf cx mx (txs ! m)" using wf True by simp
    from scan_prepare_entry [OF this] base show ?thesis
      by (intro that [of "fmupd (mt_log_index (txs ! m))
            (mt_transaction_id (txs ! m), length (wal_image sha (tx_entries (take m txs)))) fmempty"])
         (simp_all add: es' fold_entries_append scan_done_def scan_truncate_offset_def bt_values_def
            bt_keys_def sorted_list_of_fset.rep_eq entry_frame_def)
  next
    case False
    then have "es = tx_entries (take m txs)" using take_tx_entries [of j txs] by (simp add: es m)
    with base show ?thesis
      by (intro that [of fmempty]) (simp_all add: scan_truncate_offset_def scan_done_def)
  qed
qed

lemma scan_cut_log:
  assumes wf: "\<forall>tx \<in> set txs. transaction_wf cx mx tx" and d: "distinct (map mt_log_index txs)"
    and sha: "sha_ok (cx_sha cx)" and img: "img = wal_image (cx_sha cx) (tx_entries txs)"
    and k: "k \<le> length img" and json: "\<not> starts_with_json (take k img)"
  obtains m trunc where "m \<le> length txs"
    and "scan_transaction_ids cx (take k img) mx = Inr (tx_map (take m txs) fmempty, trunc)"
    and "take (unwrap_or k trunc) img = wal_image (cx_sha cx) (tx_entries (take m txs))"
    and "unwrap_or k trunc \<le> k"
    and "\<forall>n \<le> length txs. length (wal_image (cx_sha cx) (tx_entries (take n txs))) \<le> k \<longrightarrow> n \<le> m"
proof -
  let ?sha = "cx_sha cx"
  have ok: "\<forall>e \<in> set (tx_entries txs). entry_ok mx e" using tx_entries_ok [OF wf sha] .
  from k ok sha obtain j rest where j: "take k img = wal_image ?sha (take j (tx_entries txs)) @ rest"
    "j \<le> length (tx_entries txs)"
    "rest = [] \<or> decode_frame_at ?sha (wal_image ?sha (take j (tx_entries txs)) @ rest)
       (length (wal_image ?sha (take j (tx_entries txs)))) mx = Inr None"
    "j < length (tx_entries txs) \<Longrightarrow> k < length (wal_image ?sha (take (Suc j) (tx_entries txs)))"
    unfolding img by (rule take_image_decode) blast
  define es where "es = take j (tx_entries txs)"
  define m where "m = j div 2"
  have m_le: "m \<le> length txs" using j(2) by (simp add: m_def)
  have es_ok: "\<forall>e \<in> set es. entry_ok mx e" using ok by (auto simp: es_def dest: in_set_takeD)
  obtain pending where f: "fold_entries ?sha (scan_frame cx) 0 es (scan_done [] fmempty)
       = Inr (scan_done (take m txs) pending, length (wal_image ?sha es))"
    "scan_truncate_offset (scan_done (take m txs) pending) (length (wal_image ?sha es))
       = length (wal_image ?sha (tx_entries (take m txs)))"
    using fold_cut_entries [OF wf d es_def j(2) m_def] by blast
  have scan: "scan_frames ?sha mx (take k img) (scan_frame cx) 0 (scan_done [] fmempty)
      = Inr (scan_done (take m txs) pending, length (wal_image ?sha es))"
    using scan_frames_image [OF es_ok sha, where rest = rest and pre = "[]" and step = "scan_frame cx"
        and s = "scan_done [] fmempty"] j(1,3) f(1) by (simp add: es_def)
  let ?l = "length (wal_image ?sha (tx_entries (take m txs)))"
  have "tx_entries (take m txs) = take (2 * m) (tx_entries txs)" using m_le by (rule tx_entries_take)
  then have img_l: "take ?l img = wal_image ?sha (tx_entries (take m txs))"
    unfolding img by (metis append_eq_conv_conj append_take_drop_id wal_image_simps(3))
  have "?l \<le> length (wal_image ?sha es)"
    using image_take_mono [of "2 * m" j ?sha "tx_entries txs"] tx_entries_take [OF m_le]
    by (simp add: es_def m_def)
  also have "\<dots> \<le> length (take k img)" using j(1) by (simp add: es_def)
  finally have l: "?l \<le> k" using k by simp
  have "n \<le> m" if n: "n \<le> length txs" "length (wal_image ?sha (tx_entries (take n txs))) \<le> k" for n
  proof (rule ccontr)
    assume "\<not> n \<le> m"
    then have "Suc j \<le> 2 * n" by (simp add: m_def)
    moreover from this n(1) have "j < length (tx_entries txs)" by simp
    ultimately have "k < length (wal_image ?sha (take (2 * n) (tx_entries txs)))"
      using j(4) image_take_mono [of "Suc j" "2 * n" ?sha "tx_entries txs"] by linarith
    then show False using n tx_entries_take [OF n(1)] by simp
  qed
  with m_le img_l l k json scan f(2) show ?thesis
    by (intro that [of m "if ?l < k then Some ?l else None"])
       (auto simp: scan_transaction_ids_def scan_done_def Let_def)
qed

lemma file_replica_reopen:
  assumes "file_replica_ok cx D r" and sha: "sha_ok (cx_sha cx)"
    and "crash_image (fr_wal r) bs" and json: "\<not> starts_with_json bs"
  shows "\<exists>r'. file_replica_open cx open_all_ok path (Some bs) = Inr r'
    \<and> file_replica_ok cx (fr_committed r') r'
    \<and> (\<forall>i t. fmlookup D i = Some t \<longrightarrow> file_holds r' i t)
    \<and> (\<forall>i t. file_holds r' i t \<longrightarrow> file_holds r i t)"
proof -
  from assms(1) obtain txs n where log: "file_replica_log cx txs n r" and D: "D = tx_map (take n txs) fmempty"
    by (auto simp: file_replica_ok_def)
  define img where "img = wal_image (cx_sha cx) (tx_entries txs)"
  note l = log [unfolded file_replica_log_def, folded img_def]
  from assms(3) l obtain k where k: "wf_synced (fr_wal r) \<le> k" "k \<le> length img" "bs = take k img"
    by (auto simp: crash_image_def)
  from l have wf: "\<forall>tx \<in> set txs. transaction_wf cx default_max_registry_record_bytes tx"
    and d: "distinct (map mt_log_index txs)" by auto
  from scan_cut_log [OF wf d sha img_def k(2) json [unfolded k(3)]]
  obtain m trunc where m: "m \<le> length txs"
    "scan_transaction_ids cx bs default_max_registry_record_bytes = Inr (tx_map (take m txs) fmempty, trunc)"
    "take (unwrap_or k trunc) img = wal_image (cx_sha cx) (tx_entries (take m txs))"
    "unwrap_or k trunc \<le> k"
    "\<forall>n \<le> length txs. length (wal_image (cx_sha cx) (tx_entries (take n txs))) \<le> k \<longrightarrow> n \<le> m"
    unfolding k(3) by blast
  let ?w = "\<lparr>wf_bytes = wal_image (cx_sha cx) (tx_entries (take m txs)),
             wf_synced = length (wal_image (cx_sha cx) (tx_entries (take m txs)))\<rparr>"
  let ?r = "\<lparr>fr_id = ''file:'' @ path, fr_wal = ?w, fr_committed = tx_map (take m txs) fmempty\<rparr>"
  have "wal_open open_all_ok bs trunc = Inr ?w"
    using m(3,4) k by (cases trunc) (auto simp: wal_open_def open_all_ok_def wal_truncate_def Let_def min_def)
  then have op: "file_replica_open cx open_all_ok path (Some bs) = Inr ?r"
    using m(2) by (simp add: file_replica_open_def read_existing_def open_all_ok_def)
  have dm: "distinct (map mt_log_index (take m txs @ drop m txs))" using d by simp
  have "distinct (map mt_log_index (take m txs))" using d by (metis distinct_take take_map)
  then have "file_replica_log cx (take m txs) m ?r"
    using wf m(1) by (auto simp: file_replica_log_def dest: in_set_takeD)
  moreover have "take m (take m txs) = take m txs" by simp
  ultimately have ok: "file_replica_ok cx (fr_committed ?r) ?r"
    unfolding file_replica_ok_def by fastforce
  have "n \<le> m" using m(5) l k(1) by auto
  then obtain rest where "take m txs = take n txs @ rest" by (metis le_add_diff_inverse take_add)
  moreover have "distinct (map mt_log_index (take m txs))" using d by (metis distinct_take take_map)
  ultimately have kept: "\<forall>i t. fmlookup D i = Some t \<longrightarrow> file_holds ?r i t"
    using tx_map_mono [of "take n txs" rest] by (simp add: D file_holds_def)
  have "\<forall>i t. file_holds ?r i t \<longrightarrow> file_holds r i t"
    using tx_map_mono [OF dm] l by (simp add: file_holds_def)
  with op ok kept show ?thesis by blast
qed

end
