(* ===== verification/Durable_Cell.thy ===== *)
theory Durable_Cell
  imports Contracts
begin

text \<open>
  Several components keep a value in memory and rewrite a file with the whole value at the
  end of every operation.  The locale states that contract: an acknowledged operation leaves
  the file holding the encoding of the memory, a refused one leaves the file alone.  Its
  lemmas say what a restart finds after any sequence of operations, whichever of them failed.
\<close>

fun run_steps :: "('op \<Rightarrow> 's \<Rightarrow> unit result \<times> 's) \<Rightarrow> 'op list \<Rightarrow> 's \<Rightarrow> 's" where
  "run_steps step [] s = s"
| "run_steps step (x # xs) s = run_steps step xs (snd (step x s))"

fun acknowledged ::
  "('op \<Rightarrow> 's \<Rightarrow> unit result \<times> 's) \<Rightarrow> ('s \<Rightarrow> 'm) \<Rightarrow> 'op list \<Rightarrow> 's \<Rightarrow> 'm option \<Rightarrow> 'm option" where
  "acknowledged step mem [] s acc = acc"
| "acknowledged step mem (x # xs) s acc =
     (case step x s of
        (Inr _, s') \<Rightarrow> acknowledged step mem xs s' (Some (mem s'))
      | (Inl _, s') \<Rightarrow> acknowledged step mem xs s' acc)"

locale durable_cell =
  fixes step :: "'op \<Rightarrow> 's \<Rightarrow> unit result \<times> 's"
    and mem :: "'s \<Rightarrow> 'm"
    and disk :: "'s \<Rightarrow> bytes option"
    and sd :: "'m serde"
  assumes step_ok: "step x s = (Inr u, s') \<Longrightarrow> disk s' = to_vec sd (mem s') \<and> disk s' \<noteq> None"
    and step_err: "step x s = (Inl e, s') \<Longrightarrow> disk s' = disk s"
begin

lemma run_disk_some:
  "serde_ok sd \<Longrightarrow>
   (\<forall>v. acc = Some v \<longrightarrow> (\<exists>bs. disk s = Some bs \<and> from_slice sd bs = Some v)) \<Longrightarrow>
   acknowledged step mem xs s acc = Some m \<Longrightarrow>
   \<exists>bs. disk (run_steps step xs s) = Some bs \<and> from_slice sd bs = Some m"
proof (induction xs arbitrary: s acc)
  case (Cons x xs)
  obtain r s' where st: "step x s = (r, s')" by (cases "step x s")
  show ?case
  proof (cases r)
    case (Inl e)
    then have "disk s' = disk s" using step_err [of x s e s'] st by simp
    with Cons.prems st Inl Cons.IH [of acc s'] show ?thesis by simp
  next
    case (Inr u)
    then obtain bs where bs: "disk s' = Some bs" "to_vec sd (mem s') = Some bs"
      using step_ok [of x s u s'] st by (cases "disk s'") auto
    then have "from_slice sd bs = Some (mem s')"
      using Cons.prems(1) by (auto dest: serde_okD)
    with Cons.prems bs st Inr Cons.IH [of "Some (mem s')" s'] show ?thesis by simp
  qed
qed simp

lemma acknowledged_Some: "acknowledged step mem xs s (Some v) \<noteq> None"
  by (induction xs arbitrary: s v) (auto split: sum.splits prod.splits)

lemma run_disk_none:
  "acknowledged step mem xs s None = None \<Longrightarrow> disk (run_steps step xs s) = disk s"
proof (induction xs arbitrary: s)
  case (Cons x xs)
  obtain r s' where st: "step x s = (r, s')" by (cases "step x s")
  show ?case
  proof (cases r)
    case (Inl e)
    with Cons.prems st step_err [of x s e s'] Cons.IH [of s'] show ?thesis by simp
  next
    case (Inr u)
    with Cons.prems st acknowledged_Some [of xs s' "mem s'"] show ?thesis by simp
  qed
qed simp

lemma restart_finds_acknowledged:
  "serde_ok sd \<Longrightarrow> acknowledged step mem xs s None = Some m \<Longrightarrow>
     \<exists>bs. disk (run_steps step xs s) = Some bs \<and> from_slice sd bs = Some m"
  by (rule run_disk_some [where acc = None]) auto

lemma acknowledged_reached:
  "(\<And>x s. ok s \<Longrightarrow> ok (snd (step x s))) \<Longrightarrow> ok s \<Longrightarrow>
   (\<forall>v. acc = Some v \<longrightarrow> (\<exists>s. ok s \<and> v = mem s)) \<Longrightarrow>
   acknowledged step mem xs s acc = Some m \<Longrightarrow> \<exists>s. ok s \<and> m = mem s"
proof (induction xs arbitrary: s acc)
  case (Cons x xs)
  obtain r s' where st: "step x s = (r, s')" by (cases "step x s")
  then have "ok s'" using Cons.prems(1,2) by (metis snd_conv)
  then show ?case
    using Cons.prems Cons.IH [of s' acc] Cons.IH [of s' "Some (mem s')"] st by (cases r) auto
qed simp

lemma run_steps_inv:
  "(\<And>x s. ok s \<Longrightarrow> ok (snd (step x s))) \<Longrightarrow> ok s \<Longrightarrow> ok (run_steps step xs s)"
  by (induction xs arbitrary: s) auto

end

end
