(* ===== verification/Resource_Catalog.thy ===== *)
theory Resource_Catalog
  imports Durable_Cell
begin

text \<open>
  The replica catalogue of \<open>resource_catalog.rs\<close>: content manifests by digest with their
  replicas, reference counts and retention; which inputs are recoverable, whether an output
  may be committed, the bounded repair plan and garbage collection.  The file at the
  catalogue's path is part of the state, so that the lemmas can relate what memory and
  disk hold after every operation, including one whose write failed.  The content store that
  garbage collection calls is a parameter here and is given by its own theory.
\<close>

section \<open>Errors\<close>

definition catalog_storage_error :: DistributedError where
  "catalog_storage_error = error_new Storage ''persistent registry storage operation failed''"

definition catalog_corrupt_error :: DistributedError where
  "catalog_corrupt_error = error_new Corrupt ''persistent registry data is corrupt''"

definition catalog_config_error :: DistributedError where
  "catalog_config_error = error_new InvalidConfig ''persistent registry limits are invalid''"

definition catalog_capacity_error :: DistributedError where
  "catalog_capacity_error = error_new CapacityExceeded ''persistent registry capacity exceeded''"

definition catalog_durability_unavailable :: DistributedError where
  "catalog_durability_unavailable =
     error_new DurabilityUnavailable ''requested durability cannot be proven''"

lemmas catalog_errors = catalog_storage_error_def catalog_corrupt_error_def
  catalog_config_error_def catalog_capacity_error_def catalog_durability_unavailable_def

section \<open>State\<close>

type_synonym catalog_records = "(string, ResourceCatalogRecord) fmap"

record ResourceCatalog =
  rc_file :: "bytes option"
  rc_records :: catalog_records
  rc_max_records :: nat
  rc_max_repair_jobs :: nat

record RepairJob =
  rj_content_id :: ContentId
  rj_missing_copies :: nat
  rj_estimated_bytes :: u64

fun needs_repair :: "ResourceCatalogRecord \<Rightarrow> bool" where
  "needs_repair r =
     (case cm_policy (cat_manifest r) of
        Ephemeral \<Rightarrow> False
      | Reconstructible \<Rightarrow> False
      | Replicated n \<Rightarrow> healthy_copies r < unat n
      | ExternalDurable \<Rightarrow> \<not> has_healthy_external r)"

fun required_replica_count :: "ResourceCatalogRecord \<Rightarrow> nat" where
  "required_replica_count r =
     (case cm_policy (cat_manifest r) of
        Ephemeral \<Rightarrow> 0
      | Reconstructible \<Rightarrow> 0
      | Replicated n \<Rightarrow> unat n
      | ExternalDurable \<Rightarrow> 1)"

fun missing_replica_count :: "ResourceCatalogRecord \<Rightarrow> nat" where
  "missing_replica_count r =
     (case cm_policy (cat_manifest r) of
        ExternalDurable \<Rightarrow> (if has_healthy_external r then 0 else 1)
      | _ \<Rightarrow> required_replica_count r - healthy_copies r)"

declare needs_repair.simps [simp del] required_replica_count.simps [simp del]
  missing_replica_count.simps [simp del]

section \<open>Operations\<close>

definition catalog_open ::
  "catalog_records serde \<Rightarrow> bool \<Rightarrow> bytes option \<Rightarrow> nat \<Rightarrow> nat \<Rightarrow> ResourceCatalog result" where
  "catalog_open sd read_ok file max_records max_jobs =
     (if max_records = 0 \<or> max_jobs = 0 then Inl catalog_config_error
      else bind_result
        (case file of
           None \<Rightarrow> Inr fmempty
         | Some bs \<Rightarrow>
             if read_ok then ok_or catalog_corrupt_error (from_slice sd bs)
             else Inl catalog_storage_error)
        (\<lambda>records.
           if bt_len records > max_records then Inl catalog_capacity_error
           else Inr \<lparr>rc_file = file, rc_records = records, rc_max_records = max_records,
                     rc_max_repair_jobs = max_jobs\<rparr>))"

definition catalog_persist ::
  "catalog_records serde \<Rightarrow> write_io \<Rightarrow> ResourceCatalog \<Rightarrow> unit result \<times> ResourceCatalog" where
  "catalog_persist sd io cat =
     (case atomic_replace io (to_vec sd (rc_records cat)) (rc_file cat) of
        (None, f) \<Rightarrow> (Inr (), cat\<lparr>rc_file := f\<rparr>)
      | (Some StorageFailure, f) \<Rightarrow> (Inl catalog_storage_error, cat\<lparr>rc_file := f\<rparr>)
      | (Some EncodeFailure, f) \<Rightarrow> (Inl catalog_corrupt_error, cat\<lparr>rc_file := f\<rparr>))"

definition catalog_register ::
  "catalog_records serde \<Rightarrow> write_io \<Rightarrow> ResourceCatalog \<Rightarrow> ContentManifest \<Rightarrow> ReplicaRecord list
     \<Rightarrow> u64 \<Rightarrow> u64 \<Rightarrow> unit result \<times> ResourceCatalog" where
  "catalog_register sd io cat manifest replicas reference_count retain_until =
     (let digest = cid_digest (cm_content_id manifest) in
      if \<not> bt_contains (rc_records cat) digest \<and> bt_len (rc_records cat) \<ge> rc_max_records cat
      then (Inl catalog_capacity_error, cat)
      else
        let r = \<lparr>cat_manifest = manifest, cat_replicas = replicas,
                 cat_reference_count = reference_count, cat_retain_until = retain_until,
                 cat_repair_required = False\<rparr>;
            r = r\<lparr>cat_repair_required := needs_repair r\<rparr>
        in catalog_persist sd io (cat\<lparr>rc_records := fmupd digest r (rc_records cat)\<rparr>))"

fun upsert_replica :: "ReplicaTarget \<Rightarrow> ReplicaHealth \<Rightarrow> u64 \<Rightarrow> ReplicaRecord list \<Rightarrow> ReplicaRecord list" where
  "upsert_replica target health epoch [] =
     [\<lparr>rr_target = target, rr_health = health, rr_verified_at = epoch\<rparr>]"
| "upsert_replica target health epoch (x # xs) =
     (if rr_target x = target then x\<lparr>rr_health := health, rr_verified_at := epoch\<rparr> # xs
      else x # upsert_replica target health epoch xs)"

definition catalog_record_replica ::
  "catalog_records serde \<Rightarrow> write_io \<Rightarrow> ResourceCatalog \<Rightarrow> ContentId \<Rightarrow> ReplicaTarget
     \<Rightarrow> ReplicaHealth \<Rightarrow> u64 \<Rightarrow> unit result \<times> ResourceCatalog" where
  "catalog_record_replica sd io cat cid target health epoch =
     (case fmlookup (rc_records cat) (cid_digest cid) of
        None \<Rightarrow> (Inl catalog_durability_unavailable, cat)
      | Some r \<Rightarrow>
          let r = r\<lparr>cat_replicas := upsert_replica target health epoch (cat_replicas r)\<rparr>;
              r = r\<lparr>cat_repair_required := needs_repair r\<rparr>
          in catalog_persist sd io
               (cat\<lparr>rc_records := fmupd (cid_digest cid) r (rc_records cat)\<rparr>))"

definition catalog_add_reference ::
  "catalog_records serde \<Rightarrow> write_io \<Rightarrow> ResourceCatalog \<Rightarrow> ContentId \<Rightarrow> unit result \<times> ResourceCatalog"
where
  "catalog_add_reference sd io cat cid =
     (case fmlookup (rc_records cat) (cid_digest cid) of
        None \<Rightarrow> (Inl catalog_durability_unavailable, cat)
      | Some r \<Rightarrow>
          (case checked_add (cat_reference_count r) 1 of
             None \<Rightarrow> (Inl catalog_capacity_error, cat)
           | Some n \<Rightarrow> catalog_persist sd io
               (cat\<lparr>rc_records :=
                     fmupd (cid_digest cid) (r\<lparr>cat_reference_count := n\<rparr>) (rc_records cat)\<rparr>)))"

definition catalog_release_reference ::
  "catalog_records serde \<Rightarrow> write_io \<Rightarrow> ResourceCatalog \<Rightarrow> ContentId \<Rightarrow> u64
     \<Rightarrow> unit result \<times> ResourceCatalog" where
  "catalog_release_reference sd io cat cid retain_until =
     (case fmlookup (rc_records cat) (cid_digest cid) of
        None \<Rightarrow> (Inl catalog_durability_unavailable, cat)
      | Some r \<Rightarrow> catalog_persist sd io
          (cat\<lparr>rc_records := fmupd (cid_digest cid)
                 (r\<lparr>cat_reference_count := sat_sub (cat_reference_count r) 1,
                    cat_retain_until := max (cat_retain_until r) retain_until\<rparr>)
                 (rc_records cat)\<rparr>))"

definition catalog_get :: "ResourceCatalog \<Rightarrow> ContentId \<Rightarrow> ResourceCatalogRecord option" where
  "catalog_get cat cid = fmlookup (rc_records cat) (cid_digest cid)"

definition inputs_recoverable :: "ResourceCatalog \<Rightarrow> ContentId list \<Rightarrow> bool" where
  "inputs_recoverable cat inputs \<longleftrightarrow>
     list_all (\<lambda>cid. case catalog_get cat cid of None \<Rightarrow> False | Some r \<Rightarrow> is_recoverable r) inputs"

definition usize_max :: nat where
  "usize_max = 2 ^ 64 - 1"

fun minimum_copies_from :: "ResourceCatalog \<Rightarrow> nat \<Rightarrow> ContentId list \<Rightarrow> nat result" where
  "minimum_copies_from cat acc [] = Inr acc"
| "minimum_copies_from cat acc (cid # cids) =
     (case catalog_get cat cid of
        None \<Rightarrow> Inl catalog_durability_unavailable
      | Some r \<Rightarrow> minimum_copies_from cat (min acc (healthy_copies r)) cids)"

definition minimum_healthy_copies :: "ResourceCatalog \<Rightarrow> ContentId list \<Rightarrow> nat result" where
  "minimum_healthy_copies cat inputs =
     (if inputs = [] then Inr 0 else minimum_copies_from cat usize_max inputs)"

definition is_commit_ready :: "ResourceCatalog \<Rightarrow> ContentId \<Rightarrow> AcceptanceMode \<Rightarrow> bool" where
  "is_commit_ready cat cid mode =
     (case catalog_get cat cid of
        None \<Rightarrow> False
      | Some r \<Rightarrow>
          (case mode of
             Fast \<Rightarrow> 1 \<le> healthy_copies r
           | Durable \<Rightarrow> is_recoverable r \<and> 1 \<le> healthy_copies r
           | Critical n \<Rightarrow> is_recoverable r \<and> unat n \<le> healthy_copies r))"

fun plan_from :: "nat \<Rightarrow> u64 \<Rightarrow> u64 \<Rightarrow> ResourceCatalogRecord list \<Rightarrow> RepairJob list" where
  "plan_from jobs used max_bytes [] = []"
| "plan_from 0 used max_bytes (r # rs) = []"
| "plan_from (Suc jobs) used max_bytes (r # rs) =
     (if \<not> cat_repair_required r then plan_from (Suc jobs) used max_bytes rs
      else
        let missing = missing_replica_count r;
            cid = cm_content_id (cat_manifest r);
            estimated = sat_mul (cid_size cid) (of_nat missing)
        in if missing = 0 \<or> sat_add used estimated > max_bytes \<or> estimated = 0
           then plan_from (Suc jobs) used max_bytes rs
           else \<lparr>rj_content_id = cid, rj_missing_copies = missing, rj_estimated_bytes = estimated\<rparr>
                # plan_from jobs (sat_add used estimated) max_bytes rs)"

definition plan_repairs :: "ResourceCatalog \<Rightarrow> u64 \<Rightarrow> RepairJob list" where
  "plan_repairs cat max_bytes =
     plan_from (rc_max_repair_jobs cat) 0 max_bytes (bt_values (rc_records cat))"

definition collectable :: "u64 \<Rightarrow> ResourceCatalogRecord \<Rightarrow> bool" where
  "collectable now_epoch r \<longleftrightarrow> cat_reference_count r = 0 \<and> cat_retain_until r \<le> now_epoch"

definition gc_candidates :: "ResourceCatalog \<Rightarrow> u64 \<Rightarrow> nat \<Rightarrow> ContentId list" where
  "gc_candidates cat now_epoch max_items =
     map (\<lambda>r. cm_content_id (cat_manifest r))
       (take max_items (filter (collectable now_epoch) (bt_values (rc_records cat))))"

fun gc_loop ::
  "('s \<Rightarrow> ContentId \<Rightarrow> unit result \<times> 's) \<Rightarrow> ContentId list \<Rightarrow> 's \<Rightarrow> catalog_records
     \<Rightarrow> unit result \<times> 's \<times> catalog_records" where
  "gc_loop remove_content [] store records = (Inr (), store, records)"
| "gc_loop remove_content (cid # cids) store records =
     (case remove_content store cid of
        (Inl e, store') \<Rightarrow> (Inl e, store', records)
      | (Inr _, store') \<Rightarrow> gc_loop remove_content cids store' (fmdrop (cid_digest cid) records))"

definition collect_garbage ::
  "catalog_records serde \<Rightarrow> write_io \<Rightarrow> ('s \<Rightarrow> ContentId \<Rightarrow> unit result \<times> 's) \<Rightarrow> ResourceCatalog
     \<Rightarrow> 's \<Rightarrow> u64 \<Rightarrow> nat \<Rightarrow> ContentId list result \<times> 's \<times> ResourceCatalog" where
  "collect_garbage sd io remove_content cat store now_epoch max_items =
     (let candidates = gc_candidates cat now_epoch max_items in
      case gc_loop remove_content candidates store (rc_records cat) of
        (Inl e, store', records) \<Rightarrow> (Inl e, store', cat\<lparr>rc_records := records\<rparr>)
      | (Inr _, store', records) \<Rightarrow>
          let cat' = cat\<lparr>rc_records := records\<rparr> in
          if candidates = [] then (Inr candidates, store', cat')
          else case catalog_persist sd io cat' of
            (Inl e, cat'') \<Rightarrow> (Inl e, store', cat'')
          | (Inr _, cat'') \<Rightarrow> (Inr candidates, store', cat''))"

section \<open>Repair and recoverability\<close>

lemmas policy_defs = needs_repair.simps missing_replica_count.simps required_replica_count.simps
  is_recoverable.simps

lemma needs_repair_iff_missing: "needs_repair r \<longleftrightarrow> 0 < missing_replica_count r"
  by (auto simp: policy_defs split: ResourcePolicy.splits)

lemma needs_repair_not_recoverable:
  "cm_policy (cat_manifest r) \<notin> {Ephemeral, Reconstructible} \<Longrightarrow>
     needs_repair r \<longleftrightarrow> \<not> is_recoverable r"
  by (auto simp: policy_defs split: ResourcePolicy.splits)

lemma missing_replica_count_le: "missing_replica_count r \<le> 255"
proof -
  have "unat (n :: u8) \<le> 255" for n
    using unat_bound [of n] by simp
  then show ?thesis
    by (auto simp: policy_defs split: ResourcePolicy.splits intro: le_trans [OF diff_le_self])
qed

lemma needs_repair_cong:
  "cat_manifest r = cat_manifest s \<Longrightarrow> cat_replicas r = cat_replicas s \<Longrightarrow> needs_repair r = needs_repair s"
  by (auto simp: needs_repair.simps healthy_copies_def has_healthy_external_def
      split: ResourcePolicy.splits)

lemma needs_repair_flag:
  "cat_repair_required (r\<lparr>cat_repair_required := needs_repair r\<rparr>)
     = needs_repair (r\<lparr>cat_repair_required := needs_repair r\<rparr>)"
  using needs_repair_cong [of "r\<lparr>cat_repair_required := needs_repair r\<rparr>" r] by simp

lemma needs_repair_update [simp]:
  "needs_repair (r\<lparr>cat_reference_count := n\<rparr>) = needs_repair r"
  "needs_repair (r\<lparr>cat_retain_until := e\<rparr>) = needs_repair r"
  by (rule needs_repair_cong; simp)+

section \<open>The catalogue invariant\<close>

definition catalog_entry_ok :: "string \<Rightarrow> ResourceCatalogRecord \<Rightarrow> bool" where
  "catalog_entry_ok k r \<longleftrightarrow>
     cid_digest (cm_content_id (cat_manifest r)) = k \<and> cat_repair_required r = needs_repair r"

definition catalog_ok :: "ResourceCatalog \<Rightarrow> bool" where
  "catalog_ok cat \<longleftrightarrow>
     fmpred catalog_entry_ok (rc_records cat) \<and> bt_len (rc_records cat) \<le> rc_max_records cat"

lemma catalog_persist_frame:
  assumes "catalog_persist sd io cat = (r, cat')"
  shows "rc_records cat' = rc_records cat"
    and "rc_max_records cat' = rc_max_records cat"
    and "rc_max_repair_jobs cat' = rc_max_repair_jobs cat"
  using assms by (auto simp: catalog_persist_def split: prod.splits option.splits write_failure.splits)

lemma catalog_persist_file:
  assumes "catalog_persist sd io cat = (r, cat')"
  shows "r = Inr u \<Longrightarrow> rc_file cat' = to_vec sd (rc_records cat') \<and> rc_file cat' \<noteq> None"
    and "r = Inl e \<Longrightarrow> rc_file cat' = rc_file cat"
  using assms catalog_persist_frame(1) [OF assms]
  by (auto simp: catalog_persist_def split: prod.splits option.splits write_failure.splits
      dest: atomic_replace_cases)

lemma catalog_ok_persist [simp]: "catalog_ok (snd (catalog_persist sd io cat)) = catalog_ok cat"
  using catalog_persist_frame [of sd io cat] by (auto simp: catalog_ok_def prod_eq_iff)

lemma catalog_ok_upd:
  "catalog_ok cat \<Longrightarrow> catalog_entry_ok k r \<Longrightarrow>
   bt_contains (rc_records cat) k \<or> bt_len (rc_records cat) < rc_max_records cat \<Longrightarrow>
   catalog_ok (cat\<lparr>rc_records := fmupd k r (rc_records cat)\<rparr>)"
  by (auto simp: catalog_ok_def bt_len_upd)

lemma catalog_ok_entry: "catalog_ok cat \<Longrightarrow> fmlookup (rc_records cat) k = Some r \<Longrightarrow> catalog_entry_ok k r"
  by (auto simp: catalog_ok_def dest: fmpredD)

text \<open>One value per public mutation, with the answers of the file system for its write.\<close>

datatype catalog_op =
    RegisterOp write_io ContentManifest "ReplicaRecord list" u64 u64
  | RecordReplicaOp write_io ContentId ReplicaTarget ReplicaHealth u64
  | AddReferenceOp write_io ContentId
  | ReleaseReferenceOp write_io ContentId u64

fun catalog_step ::
  "catalog_records serde \<Rightarrow> catalog_op \<Rightarrow> ResourceCatalog \<Rightarrow> unit result \<times> ResourceCatalog" where
  "catalog_step sd (RegisterOp io m reps rc ru) cat = catalog_register sd io cat m reps rc ru"
| "catalog_step sd (RecordReplicaOp io cid t h e) cat = catalog_record_replica sd io cat cid t h e"
| "catalog_step sd (AddReferenceOp io cid) cat = catalog_add_reference sd io cat cid"
| "catalog_step sd (ReleaseReferenceOp io cid e) cat = catalog_release_reference sd io cat cid e"

lemmas catalog_op_defs = catalog_register_def catalog_record_replica_def
  catalog_add_reference_def catalog_release_reference_def

lemma catalog_entry_ok_flagged:
  "cid_digest (cm_content_id (cat_manifest r)) = k \<Longrightarrow>
     catalog_entry_ok k (r\<lparr>cat_repair_required := needs_repair r\<rparr>)"
  using needs_repair_flag [of r] by (simp add: catalog_entry_ok_def)

lemma catalog_step_ok:
  assumes ok: "catalog_ok cat"
  shows "catalog_ok (snd (catalog_step sd x cat))"
proof (cases x)
  case (RegisterOp io m reps rc ru)
  let ?r = "\<lparr>cat_manifest = m, cat_replicas = reps, cat_reference_count = rc,
             cat_retain_until = ru, cat_repair_required = False\<rparr>"
  have "catalog_entry_ok (cid_digest (cm_content_id m)) (?r\<lparr>cat_repair_required := needs_repair ?r\<rparr>)"
    by (rule catalog_entry_ok_flagged) simp
  then show ?thesis
    using RegisterOp ok catalog_ok_upd [OF ok] by (auto simp: catalog_register_def Let_def not_le)
next
  case (RecordReplicaOp io cid t h e)
  show ?thesis
  proof (cases "fmlookup (rc_records cat) (cid_digest cid)")
    case None
    with RecordReplicaOp ok show ?thesis by (simp add: catalog_record_replica_def)
  next
    case (Some r)
    let ?r = "r\<lparr>cat_replicas := upsert_replica t h e (cat_replicas r)\<rparr>"
    have "catalog_entry_ok (cid_digest cid) (?r\<lparr>cat_repair_required := needs_repair ?r\<rparr>)"
      using catalog_ok_entry [OF ok Some] by (intro catalog_entry_ok_flagged) (simp add: catalog_entry_ok_def)
    then show ?thesis
      using RecordReplicaOp Some catalog_ok_upd [OF ok]
      by (simp add: catalog_record_replica_def Let_def bt_contains_def)
  qed
next
  case (AddReferenceOp io cid)
  with ok show ?thesis
    by (auto simp: catalog_op_defs catalog_entry_ok_def bt_contains_def
        split: option.splits dest: catalog_ok_entry intro!: catalog_ok_upd)
next
  case (ReleaseReferenceOp io cid e)
  with ok show ?thesis
    by (auto simp: catalog_op_defs catalog_entry_ok_def bt_contains_def
        split: option.splits dest: catalog_ok_entry intro!: catalog_ok_upd)
qed

lemma catalog_step_persists:
  assumes "catalog_step sd x cat = (r, cat')"
  obtains (refused) e where "r = Inl e" "cat' = cat"
  | (written) io recs where "catalog_persist sd io (cat\<lparr>rc_records := recs\<rparr>) = (r, cat')"
  using assms by (cases x) (auto simp: catalog_op_defs Let_def split: if_splits option.splits)

interpretation catalog_cell: durable_cell "catalog_step sd" rc_records rc_file sd for sd
proof
  fix x s u s'
  assume "catalog_step sd x s = (Inr u, s')"
  then show "rc_file s' = to_vec sd (rc_records s') \<and> rc_file s' \<noteq> None"
    by (cases rule: catalog_step_persists) (auto dest: catalog_persist_file(1))
next
  fix x s e s'
  assume "catalog_step sd x s = (Inl e, s')"
  then show "rc_file s' = rc_file s"
    by (cases rule: catalog_step_persists) (auto dest: catalog_persist_file(2))
qed

section \<open>Bounded repair plans\<close>

lemma plan_from_length: "length (plan_from jobs used max_bytes rs) \<le> jobs"
  by (induction jobs used max_bytes rs rule: plan_from.induct) (auto simp: Let_def)

lemma plan_from_sound:
  "j \<in> set (plan_from jobs used max_bytes rs) \<Longrightarrow>
     \<exists>r \<in> set rs. cat_repair_required r \<and> rj_content_id j = cm_content_id (cat_manifest r)
       \<and> rj_missing_copies j = missing_replica_count r \<and> 0 < rj_missing_copies j"
  by (induction jobs used max_bytes rs rule: plan_from.induct) (auto simp: Let_def split: if_splits)

lemma plan_from_bytes:
  "max_bytes \<noteq> - 1 \<Longrightarrow> used \<le> max_bytes \<Longrightarrow>
     unat used + sum_list (map (unat \<circ> rj_estimated_bytes) (plan_from jobs used max_bytes rs))
       \<le> unat max_bytes"
proof (induction rs arbitrary: jobs used)
  case (Cons r rs)
  show ?case
  proof (cases jobs)
    case (Suc j)
    let ?e = "sat_mul (cid_size (cm_content_id (cat_manifest r))) (of_nat (missing_replica_count r)) :: u64"
    show ?thesis
    proof (cases "cat_repair_required r \<and> missing_replica_count r \<noteq> 0 \<and> sat_add used ?e \<le> max_bytes \<and> ?e \<noteq> 0")
      case True
      then have "unat (sat_add used ?e) = unat used + unat ?e"
        using Cons.prems(1) sat_add_exact by blast
      with True Cons.prems Cons.IH [of "sat_add used ?e" j] Suc show ?thesis
        by (auto simp: Let_def)
    next
      case False
      with Cons Suc show ?thesis by (auto simp: Let_def not_le)
    qed
  qed (use Cons.prems in \<open>simp add: word_le_nat_alt\<close>)
qed (simp add: word_le_nat_alt)

section \<open>Garbage collection\<close>

lemma gc_loop_records:
  assumes "gc_loop remove cids store records = (r, store', records')"
  shows "\<exists>n \<le> length cids.
           (\<forall>k. fmlookup records' k =
                (if k \<in> cid_digest ` set (take n cids) then None else fmlookup records k))
           \<and> (r = Inr () \<longrightarrow> n = length cids)"
  using assms
proof (induction cids arbitrary: store records)
  case (Cons cid cids)
  obtain r1 store1 where rm: "remove store cid = (r1, store1)" by (cases "remove store cid")
  show ?case
  proof (cases r1)
    case (Inl e)
    with Cons.prems rm show ?thesis by (intro exI [of _ 0]) auto
  next
    case (Inr u)
    with Cons.prems rm
    have "gc_loop remove cids store1 (fmdrop (cid_digest cid) records) = (r, store', records')" by simp
    then obtain n where "n \<le> length cids"
      "\<forall>k. fmlookup records' k = (if k \<in> cid_digest ` set (take n cids) then None
             else fmlookup (fmdrop (cid_digest cid) records) k)"
      "r = Inr () \<longrightarrow> n = length cids"
      using Cons.IH by blast
    then show ?thesis by (intro exI [of _ "Suc n"]) auto
  qed
qed simp

lemma gc_candidates_collectable:
  assumes "catalog_ok cat" and "cid \<in> set (gc_candidates cat now n)"
  shows "\<exists>r. fmlookup (rc_records cat) (cid_digest cid) = Some r \<and> collectable now r
             \<and> cm_content_id (cat_manifest r) = cid"
proof -
  from assms(2) obtain r where "r \<in> set (bt_values (rc_records cat))" "collectable now r"
    "cm_content_id (cat_manifest r) = cid"
    using set_take_subset by (fastforce simp: gc_candidates_def)
  then show ?thesis
    using assms(1) by (auto simp: bt_values_mem catalog_entry_ok_def dest: catalog_ok_entry)
qed

lemma length_gc_candidates: "length (gc_candidates cat now n) \<le> n"
  by (simp add: gc_candidates_def)

lemma collect_garbage_records:
  assumes "collect_garbage sd io remove cat store now n = (r, store', cat')"
  shows "\<exists>m \<le> length (gc_candidates cat now n).
           (\<forall>k. fmlookup (rc_records cat') k =
              (if k \<in> cid_digest ` set (take m (gc_candidates cat now n)) then None
               else fmlookup (rc_records cat) k))
           \<and> (\<forall>cids. r = Inr cids \<longrightarrow> cids = gc_candidates cat now n \<and> m = length cids)"
proof -
  let ?c = "gc_candidates cat now n"
  obtain r1 store1 recs where gl: "gc_loop remove ?c store (rc_records cat) = (r1, store1, recs)"
    by (metis prod_cases3)
  have fields: "rc_records cat' = recs" "\<And>cids. r = Inr cids \<Longrightarrow> cids = ?c \<and> r1 = Inr ()"
    using assms gl
    by (auto simp: collect_garbage_def Let_def split: sum.splits if_splits prod.splits
        dest: catalog_persist_frame(1))
  then show ?thesis using gc_loop_records [OF gl] by metis
qed

lemma catalog_step_limits:
  "rc_max_records (snd (catalog_step sd x cat)) = rc_max_records cat
   \<and> rc_max_repair_jobs (snd (catalog_step sd x cat)) = rc_max_repair_jobs cat"
proof -
  obtain r cat' where st: "catalog_step sd x cat = (r, cat')" by (cases "catalog_step sd x cat")
  then have "rc_max_records cat' = rc_max_records cat \<and> rc_max_repair_jobs cat' = rc_max_repair_jobs cat"
    by (cases rule: catalog_step_persists) (auto dest: catalog_persist_frame(2,3))
  with st show ?thesis by simp
qed

lemma fmfilter_subset_len:
  "(\<And>k. fmlookup m' k = None \<or> fmlookup m' k = fmlookup m k) \<Longrightarrow> bt_len m' \<le> bt_len m"
  unfolding bt_len_def by (rule fcard_mono) (metis fmdom_notD fmdom_notI fsubsetI)

lemma collect_garbage_ok:
  assumes ok: "catalog_ok cat" and gc: "collect_garbage sd io remove cat store now n = (r, store', cat')"
  shows "catalog_ok cat'"
proof -
  have sub: "fmlookup (rc_records cat') k = None \<or> fmlookup (rc_records cat') k = fmlookup (rc_records cat) k" for k
    using collect_garbage_records [OF gc] by (metis (no_types, lifting))
  have "rc_max_records cat' = rc_max_records cat"
    using gc by (auto simp: collect_garbage_def Let_def split: sum.splits prod.splits if_splits
        dest: catalog_persist_frame(2))
  moreover have "fmpred catalog_entry_ok (rc_records cat')"
    using sub catalog_ok_entry [OF ok] by (metis fmpredI option.distinct(1))
  ultimately show ?thesis
    using fmfilter_subset_len [OF sub] ok by (simp add: catalog_ok_def)
qed

lemma plan_from_distinct:
  "distinct (map (\<lambda>r. cid_digest (cm_content_id (cat_manifest r))) rs) \<Longrightarrow>
     distinct (map (cid_digest \<circ> rj_content_id) (plan_from jobs used max_bytes rs))"
proof (induction jobs used max_bytes rs rule: plan_from.induct)
  case (3 jobs used max_bytes r rs)
  have "cid_digest (cm_content_id (cat_manifest r)) \<notin>
      (cid_digest \<circ> rj_content_id) ` set (plan_from jobs u max_bytes rs)" for u
    using 3(4) by (auto dest!: plan_from_sound)
  with 3 show ?case by (simp add: Let_def)
qed simp_all

lemma catalog_ok_distinct:
  assumes "catalog_ok cat"
  shows "distinct (map (\<lambda>r. cid_digest (cm_content_id (cat_manifest r))) (bt_values (rc_records cat)))"
proof -
  have "map (\<lambda>r. cid_digest (cm_content_id (cat_manifest r))) (bt_values (rc_records cat)) = bt_keys (rc_records cat)"
    using catalog_ok_entry [OF assms]
    by (auto simp: bt_values_def fmlookup_dom_iff catalog_entry_ok_def intro!: map_idI)
  then show ?thesis by simp
qed

section \<open>Properties\<close>

text \<open>
  After any sequence of catalogue operations, some of which may have failed to
  write, opening the file again gives exactly the records of the last operation that was
  acknowledged.
\<close>

theorem catalog_restart:
  assumes "serde_ok sd" and ok: "catalog_ok cat"
    and "0 < rc_max_records cat" and "0 < rc_max_repair_jobs cat"
    and ack: "acknowledged (catalog_step sd) rc_records ops cat None = Some records"
  shows "\<exists>cat'. catalog_open sd True (rc_file (run_steps (catalog_step sd) ops cat)) (rc_max_records cat)
             (rc_max_repair_jobs cat) = Inr cat' \<and> rc_records cat' = records"
proof -
  obtain bs where bs: "rc_file (run_steps (catalog_step sd) ops cat) = Some bs" "from_slice sd bs = Some records"
    using catalog_cell.restart_finds_acknowledged [OF assms(1) ack] by blast
  have "\<exists>s. (catalog_ok s \<and> rc_max_records s = rc_max_records cat) \<and> records = rc_records s"
    using ack ok catalog_step_ok catalog_step_limits
    by (intro catalog_cell.acknowledged_reached [where s = cat and acc = None]) auto
  then have "bt_len records \<le> rc_max_records cat" by (auto simp: catalog_ok_def)
  with bs assms(3,4) show ?thesis by (simp add: catalog_open_def)
qed

definition demo_catalog_manifest :: ContentManifest where
  "demo_catalog_manifest =
     \<lparr>cm_content_id = \<lparr>cid_algorithm = ''sha256'', cid_digest = ''d'', cid_size = 10, cid_format = ''raw''\<rparr>,
      cm_chunk_size = 10, cm_chunks = [], cm_policy = Replicated 2\<rparr>"

definition demo_catalog_record :: ResourceCatalogRecord where
  "demo_catalog_record =
     \<lparr>cat_manifest = demo_catalog_manifest, cat_replicas = [], cat_reference_count = 0,
      cat_retain_until = 0, cat_repair_required = True\<rparr>"

definition demo_catalog_empty :: ResourceCatalog where
  "demo_catalog_empty = \<lparr>rc_file = None, rc_records = fmempty, rc_max_records = 4, rc_max_repair_jobs = 2\<rparr>"

definition demo_catalog_full :: ResourceCatalog where
  "demo_catalog_full = demo_catalog_empty\<lparr>rc_records := fmupd ''d'' demo_catalog_record fmempty\<rparr>"

definition demo_catalog_codec :: "catalog_records serde" where
  "demo_catalog_codec = serde_single (fmupd ''d'' demo_catalog_record fmempty) [1]"

lemmas demo_catalog_defs = demo_catalog_manifest_def demo_catalog_record_def demo_catalog_empty_def
  demo_catalog_full_def demo_catalog_codec_def

lemma demo_catalog_ok: "catalog_ok demo_catalog_empty" "catalog_ok demo_catalog_full"
  by (auto simp: demo_catalog_defs catalog_ok_def catalog_entry_ok_def bt_len_upd bt_contains_def
      needs_repair.simps healthy_copies_def fmpred_iff)

lemma demo_register:
  "catalog_step demo_catalog_codec (RegisterOp io_all_ok demo_catalog_manifest [] 0 0) demo_catalog_empty
     = (Inr (), demo_catalog_full\<lparr>rc_file := Some [1]\<rparr>)"
  by (simp add: demo_catalog_defs catalog_register_def Let_def bt_contains_def needs_repair.simps
      healthy_copies_def catalog_persist_def atomic_replace_def io_all_ok_def serde_single_def)

theorem catalog_restart_witness:
  "\<exists>cat'. catalog_open demo_catalog_codec True
        (rc_file (run_steps (catalog_step demo_catalog_codec)
           [RegisterOp io_all_ok demo_catalog_manifest [] 0 0] demo_catalog_empty)) 4 2 = Inr cat'
     \<and> rc_records cat' = fmupd ''d'' demo_catalog_record fmempty"
proof -
  have ack: "acknowledged (catalog_step demo_catalog_codec) rc_records
      [RegisterOp io_all_ok demo_catalog_manifest [] 0 0] demo_catalog_empty None
      = Some (fmupd ''d'' demo_catalog_record fmempty)"
    by (simp only: acknowledged.simps demo_register) (simp add: demo_catalog_full_def)
  have lim: "rc_max_records demo_catalog_empty = 4" "rc_max_repair_jobs demo_catalog_empty = 2"
    by (simp_all add: demo_catalog_empty_def)
  have sd: "serde_ok demo_catalog_codec" by (simp add: demo_catalog_codec_def)
  show ?thesis using catalog_restart [OF sd demo_catalog_ok(1) _ _ ack] unfolding lim by simp
qed

text \<open>
  Whatever operations run, in whatever order and with whatever failures, every
  record stays under the digest of its content, its repair flag says whether copies are
  missing, and the number of records stays within the configured limit; garbage collection
  keeps this too.
\<close>

theorem catalog_invariant:
  assumes "catalog_ok cat"
  shows "catalog_ok (run_steps (catalog_step sd) ops cat)
    \<and> catalog_ok (snd (snd (collect_garbage sd io remove (run_steps (catalog_step sd) ops cat) store now n)))"
proof -
  have ok: "catalog_ok (run_steps (catalog_step sd) ops cat)"
    using catalog_step_ok assms by (rule catalog_cell.run_steps_inv)
  then show ?thesis using collect_garbage_ok by (metis prod.collapse)
qed

theorem catalog_invariant_witness:
  "catalog_ok (run_steps (catalog_step demo_catalog_codec)
     [RegisterOp io_all_ok demo_catalog_manifest [] 0 0,
      AddReferenceOp io_all_ok (cm_content_id demo_catalog_manifest)] demo_catalog_empty)"
  by (rule conjunct1 [OF catalog_invariant [OF demo_catalog_ok(1)]])

text \<open>
  A repair plan is bounded and sound: it has at most the configured number of
  jobs, the estimated bytes of the jobs together stay within the given budget (for every
  budget but the largest 64-bit value, where the saturating sum cannot exceed it), no content
  is planned twice, and every job is for a registered content that is not recoverable, with
  exactly the number of copies that are missing.
\<close>

theorem plan_repairs_bounded:
  assumes ok: "catalog_ok cat" and "max_bytes \<noteq> - 1"
  shows "length (plan_repairs cat max_bytes) \<le> rc_max_repair_jobs cat
    \<and> sum_list (map (unat \<circ> rj_estimated_bytes) (plan_repairs cat max_bytes)) \<le> unat max_bytes
    \<and> distinct (map (cid_digest \<circ> rj_content_id) (plan_repairs cat max_bytes))
    \<and> (\<forall>j \<in> set (plan_repairs cat max_bytes).
         \<exists>r. catalog_get cat (rj_content_id j) = Some r \<and> \<not> is_recoverable r
             \<and> rj_missing_copies j = missing_replica_count r \<and> 0 < rj_missing_copies j)"
proof (intro conjI ballI)
  show "length (plan_repairs cat max_bytes) \<le> rc_max_repair_jobs cat"
    by (simp add: plan_repairs_def plan_from_length)
  show "sum_list (map (unat \<circ> rj_estimated_bytes) (plan_repairs cat max_bytes)) \<le> unat max_bytes"
    using plan_from_bytes [OF assms(2), of 0] by (simp add: plan_repairs_def)
  show "distinct (map (cid_digest \<circ> rj_content_id) (plan_repairs cat max_bytes))"
    unfolding plan_repairs_def by (rule plan_from_distinct [OF catalog_ok_distinct [OF ok]])
  fix j assume "j \<in> set (plan_repairs cat max_bytes)"
  then obtain r where r: "r \<in> set (bt_values (rc_records cat))" "cat_repair_required r"
    "rj_content_id j = cm_content_id (cat_manifest r)"
    "rj_missing_copies j = missing_replica_count r" "0 < rj_missing_copies j"
    unfolding plan_repairs_def by (blast dest: plan_from_sound)
  then obtain k where k: "fmlookup (rc_records cat) k = Some r" by (auto simp: bt_values_mem)
  with catalog_ok_entry [OF ok k] r show "\<exists>r. catalog_get cat (rj_content_id j) = Some r \<and> \<not> is_recoverable r
      \<and> rj_missing_copies j = missing_replica_count r \<and> 0 < rj_missing_copies j"
    by (auto simp: catalog_get_def catalog_entry_ok_def policy_defs split: ResourcePolicy.splits)
qed

theorem plan_repairs_bounded_witness:
  "length (plan_repairs demo_catalog_full 100) \<le> 2
   \<and> sum_list (map (unat \<circ> rj_estimated_bytes) (plan_repairs demo_catalog_full 100)) \<le> 100"
proof -
  have b: "(100 :: u64) \<noteq> - 1" by simp
  have "rc_max_repair_jobs demo_catalog_full = 2" by (simp add: demo_catalog_defs)
  then show ?thesis using plan_repairs_bounded [OF demo_catalog_ok(2) b] by auto
qed

text \<open>
  Garbage collection never drops content that is in use: a record with a
  reference, or one whose retention has not ended, is in the catalogue afterwards exactly as
  before, whether the collection succeeds or stops at an error of the store or of the write.
  When it succeeds, it drops exactly the contents it reports, at most the requested number.
\<close>

theorem collect_garbage_safe:
  assumes ok: "catalog_ok cat"
    and gc: "collect_garbage sd io remove cat store now n = (res, store', cat')"
  shows "(\<forall>k r. fmlookup (rc_records cat) k = Some r \<longrightarrow> \<not> collectable now r \<longrightarrow> fmlookup (rc_records cat') k = Some r)
    \<and> (\<forall>cids. res = Inr cids \<longrightarrow> length cids \<le> n
         \<and> fset (fmdom (rc_records cat')) = fset (fmdom (rc_records cat)) - cid_digest ` set cids)"
proof -
  obtain m where m: "\<And>k. fmlookup (rc_records cat') k =
      (if k \<in> cid_digest ` set (take m (gc_candidates cat now n)) then None else fmlookup (rc_records cat) k)"
    and full: "\<And>cids. res = Inr cids \<Longrightarrow> cids = gc_candidates cat now n \<and> m = length cids"
    using collect_garbage_records [OF gc] by blast
  have "fmlookup (rc_records cat') k = Some r"
    if "fmlookup (rc_records cat) k = Some r" "\<not> collectable now r" for k r
  proof -
    have "k \<notin> cid_digest ` set (take m (gc_candidates cat now n))"
      using that gc_candidates_collectable [OF ok] by (fastforce dest: in_set_takeD)
    with that m show ?thesis by simp
  qed
  moreover have "length cids \<le> n \<and> fset (fmdom (rc_records cat')) = fset (fmdom (rc_records cat)) - cid_digest ` set cids"
    if "res = Inr cids" for cids
    using full [OF that] m length_gc_candidates [of cat now n]
    by (auto simp: fmlookup_dom_iff split: if_splits)
  ultimately show ?thesis by blast
qed

theorem collect_garbage_safe_witness:
  "\<exists>cids store' cat'. collect_garbage (serde_single fmempty []) io_all_ok (\<lambda>s _. (Inr (), s)) demo_catalog_full () 5 1
      = (Inr cids, store', cat') \<and> fset (fmdom (rc_records cat')) = {}"
proof -
  have keys: "bt_keys (fmupd ''d'' demo_catalog_record fmempty) = [''d'']"
    by (simp add: bt_keys_def sorted_list_of_fset.rep_eq)
  have gc: "gc_candidates demo_catalog_full 5 1 = [cm_content_id demo_catalog_manifest]"
    by (simp add: gc_candidates_def bt_values_def keys demo_catalog_full_def demo_catalog_empty_def)
      (simp add: collectable_def demo_catalog_record_def)
  have "collect_garbage (serde_single fmempty []) io_all_ok (\<lambda>s _. (Inr (), s)) demo_catalog_full () 5 1
      = (Inr [cm_content_id demo_catalog_manifest], (), demo_catalog_empty\<lparr>rc_file := Some []\<rparr>)"
    unfolding collect_garbage_def gc Let_def
    by (simp add: demo_catalog_defs catalog_persist_def atomic_replace_def io_all_ok_def serde_single_def)
  with collect_garbage_safe [OF demo_catalog_ok(2) this] show ?thesis
    by (simp add: demo_catalog_empty_def)
qed

text \<open>
  An operation changes memory before it writes: when the write of an added
  reference fails, the caller is told so and the file is unchanged, but the reference is
  counted in memory, and the next write that succeeds makes it durable.
\<close>

theorem failed_write_stays_in_memory:
  assumes "fmlookup (rc_records cat) (cid_digest cid) = Some r" and "cat_reference_count r \<noteq> - 1"
    and "\<not> io_rename io" and "io_create_dir io" and "to_vec sd (fmupd (cid_digest cid)
           (r\<lparr>cat_reference_count := cat_reference_count r + 1\<rparr>) (rc_records cat)) = Some bs"
  shows "\<exists>cat'. catalog_add_reference sd io cat cid = (Inl catalog_storage_error, cat')
    \<and> rc_file cat' = rc_file cat
    \<and> fmlookup (rc_records cat') (cid_digest cid) = Some (r\<lparr>cat_reference_count := cat_reference_count r + 1\<rparr>)
    \<and> rc_file (snd (catalog_persist sd io_all_ok cat')) = Some bs"
proof -
  have "checked_add (cat_reference_count r) 1 = Some (cat_reference_count r + 1)"
    using unat_less_max [OF assms(2)] by (simp add: checked_add_def)
  with assms show ?thesis
    by (simp add: catalog_add_reference_def catalog_persist_def atomic_replace_def io_all_ok_def)
qed

theorem failed_write_stays_in_memory_witness:
  "\<exists>cat'. catalog_add_reference
       (serde_single (fmupd ''d'' (demo_catalog_record\<lparr>cat_reference_count := 1\<rparr>) fmempty) [7])
       (io_all_ok\<lparr>io_rename := False\<rparr>) demo_catalog_full (cm_content_id demo_catalog_manifest)
     = (Inl catalog_storage_error, cat') \<and> rc_file cat' = None"
  using failed_write_stays_in_memory [of demo_catalog_full "cm_content_id demo_catalog_manifest"
      demo_catalog_record "io_all_ok\<lparr>io_rename := False\<rparr>"
      "serde_single (fmupd ''d'' (demo_catalog_record\<lparr>cat_reference_count := 1\<rparr>) fmempty) [7]" "[7]"]
  by (auto simp: demo_catalog_defs io_all_ok_def serde_single_def fmupd_idem)

end
