(* ===== verification/Persistent_Registry.thy ===== *)
theory Persistent_Registry
  imports Metadata_Replica Resource_Catalog
begin

text \<open>
  The persistent registry of \<open>persistent_registry.rs\<close>: two-phase transactions over a local
  log and metadata replicas, snapshots and compaction, and recovery by replay.  The state
  behind the mutex, the snapshot file and the replicas are one record; every operation
  returns its result and the new state.  The replicas are given by the two operations of
  \<open>MetadataReplica\<close>; the answers of the file system and of the replicas' environments
  during one operation are the record \<open>registry_io\<close>.
\<close>

section \<open>Data\<close>

record RegistryOptions =
  ro_max_tasks :: nat
  ro_max_record_bytes :: nat
  ro_compact_after_records :: u64
  ro_compact_after_bytes :: u64

definition options_for_max_tasks :: "nat \<Rightarrow> RegistryOptions" where
  "options_for_max_tasks n =
     \<lparr>ro_max_tasks = n, ro_max_record_bytes = default_max_registry_record_bytes,
      ro_compact_after_records = 16384, ro_compact_after_bytes = 64 * 1024 * 1024\<rparr>"

definition options_validate :: "RegistryOptions \<Rightarrow> RegistryOptions result" where
  "options_validate opts =
     (if ro_max_tasks opts = 0 \<or> ro_max_record_bytes opts = 0 \<or> ro_compact_after_records opts = 0
         \<or> ro_compact_after_bytes opts = 0
      then Inl registry_config_error else Inr opts)"

datatype ReplicaCommitOutcome =
    CommittedBy MetadataCommitProof
  | FailedWith DistributedErrorKind

record ReplicaCommitAttempt =
  rca_replica_id :: string
  rca_log_index :: u64
  rca_outcome :: ReplicaCommitOutcome

record RegistryCommitReport =
  rcr_transaction_id :: string
  rcr_log_index :: u64
  rcr_previous_version :: u64
  rcr_local_committed :: bool
  rcr_required_replica_acks :: nat
  rcr_replica_attempts :: "ReplicaCommitAttempt list"
  rcr_maintenance_error :: "DistributedErrorKind option"

record RegistryStats =
  rst_last_log_index :: u64
  rst_wal_transactions :: u64
  rst_wal_bytes :: nat
  rst_recovered_tail_bytes :: u64

record CommitProof =
  cp_transaction_id :: string
  cp_log_index :: u64
  cp_replica_commits :: "MetadataCommitProof list"

record ('p, 'r, 'h) PendingTransaction =
  pt_metadata :: MetadataTransaction
  pt_prepared :: "('p, 'r, 'h) PreparedPayload"
  pt_resulting_record :: "('p, 'r, 'h) DurableTaskRecord"
  pt_proofs :: "(string, MetadataCommitProof) fmap"
  pt_attempts :: "(string, ReplicaCommitOutcome) fmap"

record ('p, 'r, 'h, 'x) PersistentRegistry =
  reg_snapshot_file :: "bytes option"
  reg_wal :: WalFile
  reg_records :: "('p, 'r, 'h) task_records"
  reg_versions :: "(GlobalTaskId, u64) fmap"
  reg_last_log_index :: u64
  reg_last_transaction_id :: string
  reg_wal_transactions :: u64
  reg_recovered_tail_bytes :: u64
  reg_pending :: "('p, 'r, 'h) PendingTransaction option"
  reg_last_report :: "RegistryCommitReport option"
  reg_replicas :: "'x list"
  reg_options :: RegistryOptions

section \<open>Snapshots\<close>

record snapshot_io =
  sio_parent :: bool
  sio_open :: bool
  sio_write_sync :: bool
  sio_rename :: bool
  sio_sync_parent :: bool

definition persist_snapshot ::
  "('p, 'r, 'h) registry_codec \<Rightarrow> snapshot_io \<Rightarrow> ('p, 'r, 'h) RegistrySnapshot \<Rightarrow> nat \<Rightarrow> bytes option
     \<Rightarrow> unit result \<times> bytes option" where
  "persist_snapshot cx io snapshot max_record_bytes file =
     (case to_vec (cx_snapshot cx) snapshot of
        None \<Rightarrow> (Inl registry_corrupt_error, file)
      | Some payload \<Rightarrow>
          let limit = max_record_bytes * max (bt_len (rs_records snapshot)) 1 in
          if limit \<ge> 2 ^ 64 then (Inl registry_capacity_error, file)
          else if length payload > limit then (Inl registry_capacity_error, file)
          else (case encode_frame (cx_sha cx) Snapshot (rs_last_included snapshot) payload of
            Inl e \<Rightarrow> (Inl e, file)
          | Inr frame \<Rightarrow>
              if \<not> sio_parent io \<or> \<not> sio_open io \<or> \<not> sio_write_sync io \<or> \<not> sio_rename io
              then (Inl registry_storage_error, file)
              else if \<not> sio_sync_parent io then (Inl registry_storage_error, Some frame)
              else (Inr (), Some frame)))"

definition load_snapshot ::
  "('p, 'r, 'h) registry_codec \<Rightarrow> bool \<Rightarrow> bytes option \<Rightarrow> nat \<Rightarrow> ('p, 'r, 'h) RegistrySnapshot option result"
where
  "load_snapshot cx read_ok file max_record_bytes =
     (case file of
        None \<Rightarrow> Inr None
      | Some bs \<Rightarrow>
          if \<not> read_ok then Inl registry_storage_error
          else
            bind_result (decode_frame_at (cx_sha cx) bs 0 (max (length bs) max_record_bytes)) (\<lambda>decoded.
            bind_result (ok_or (registry_corrupt_at 0) decoded) (\<lambda>frame.
            if df_kind frame \<noteq> Snapshot \<or> df_end frame \<noteq> length bs then Inl (registry_corrupt_at 0)
            else
              bind_result (ok_or (registry_corrupt_at 0) (from_slice (cx_snapshot cx) (df_payload frame)))
                (\<lambda>snapshot.
                 if rs_last_included snapshot \<noteq> df_log_index frame then Inl (registry_corrupt_at 0)
                 else Inr (Some snapshot)))))"

section \<open>Replay\<close>

record ('p, 'r, 'h) replay_state =
  rp_records :: "('p, 'r, 'h) task_records"
  rp_versions :: "(GlobalTaskId, u64) fmap"
  rp_last_log_index :: u64
  rp_last_transaction_id :: string
  rp_pending :: "(u64, ('p, 'r, 'h) PreparedPayload \<times> nat) fmap"
  rp_wal_transactions :: u64

definition version_of :: "(GlobalTaskId, u64) fmap \<Rightarrow> GlobalTaskId \<Rightarrow> u64" where
  "version_of versions t = unwrap_or 0 (fmlookup versions t)"

text \<open>The checks that tie a prepared transaction to the log before it.\<close>

definition prepared_follows ::
  "('p, 'r, 'h) PreparedPayload \<Rightarrow> string \<Rightarrow> u64 \<Rightarrow> (GlobalTaskId, u64) fmap \<Rightarrow> bool" where
  "prepared_follows prepared last_transaction_id last_log_index versions \<longleftrightarrow>
     pp_previous_transaction_id prepared = last_transaction_id
     \<and> pp_log_index prepared = sat_add last_log_index 1
     \<and> pp_previous_version prepared = version_of versions (pp_task_id prepared)
     \<and> pp_new_version prepared = sat_add (pp_previous_version prepared) 1"

definition replay_commit ::
  "('p, 'r, 'h) registry_codec \<Rightarrow> nat \<Rightarrow> nat \<Rightarrow> ('p, 'r, 'h) PreparedPayload \<Rightarrow> string
     \<Rightarrow> ('p, 'r, 'h) replay_state \<Rightarrow> ('p, 'r, 'h) replay_state result" where
  "replay_commit cx max_tasks offset prepared tx s =
     (if pp_transaction_id prepared \<noteq> tx
         \<or> \<not> prepared_follows prepared (rp_last_transaction_id s) (rp_last_log_index s) (rp_versions s)
      then Inl (registry_corrupt_at offset)
      else
        bind_result (transaction_id_for_prepared cx prepared) (\<lambda>expected_tx.
        if expected_tx \<noteq> pp_transaction_id prepared then Inl (registry_corrupt_at offset)
        else (case prepare_mutation (rp_records s) (pp_mutation prepared) max_tasks of
            Inl _ \<Rightarrow> Inl (registry_corrupt_at offset)
          | Inr resulting \<Rightarrow>
              Inr (s\<lparr>rp_records := fmupd (pp_task_id prepared) resulting (rp_records s),
                     rp_versions := fmupd (pp_task_id prepared) (pp_new_version prepared) (rp_versions s),
                     rp_last_log_index := pp_log_index prepared,
                     rp_last_transaction_id := pp_transaction_id prepared,
                     rp_wal_transactions := sat_add (rp_wal_transactions s) 1\<rparr>))))"

definition replay_frame ::
  "('p, 'r, 'h) registry_codec \<Rightarrow> nat \<Rightarrow> u64 \<Rightarrow> nat \<Rightarrow> DecodedFrame
     \<Rightarrow> ('p, 'r, 'h) replay_state \<Rightarrow> ('p, 'r, 'h) replay_state result" where
  "replay_frame cx max_tasks last_included offset frame s =
     (if df_kind frame = Snapshot then Inl (registry_corrupt_at offset)
      else if df_log_index frame \<le> last_included then Inr s
      else case df_kind frame of
        Prepare \<Rightarrow>
          bind_result (ok_or (registry_corrupt_at offset) (from_slice (cx_prepared cx) (df_payload frame)))
            (\<lambda>prepared.
             if pp_log_index prepared \<noteq> df_log_index frame then Inl (registry_corrupt_at offset)
             else (case fmlookup (rp_pending s) (df_log_index frame) of
                 Some (existing, _) \<Rightarrow>
                   if pp_transaction_id existing \<noteq> pp_transaction_id prepared
                   then Inl (registry_corrupt_at offset) else Inr s
               | None \<Rightarrow>
                   Inr (s\<lparr>rp_pending := fmupd (df_log_index frame) (prepared, offset) (rp_pending s)\<rparr>)))
      | Commit \<Rightarrow>
          bind_result (ok_or (registry_corrupt_at offset) (from_utf8 (df_payload frame))) (\<lambda>tx.
          case fmlookup (rp_pending s) (df_log_index frame) of
            None \<Rightarrow> Inl (registry_corrupt_at offset)
          | Some (prepared, _) \<Rightarrow>
              replay_commit cx max_tasks offset prepared tx
                (s\<lparr>rp_pending := fmdrop (df_log_index frame) (rp_pending s)\<rparr>))
      | Snapshot \<Rightarrow> Inl panic_error)"

definition validate_prepared_tail ::
  "('p, 'r, 'h) registry_codec \<Rightarrow> ('p, 'r, 'h) PreparedPayload \<Rightarrow> ('p, 'r, 'h) replay_state \<Rightarrow> nat \<Rightarrow> nat
     \<Rightarrow> unit result" where
  "validate_prepared_tail cx prepared s max_tasks offset =
     (if \<not> prepared_follows prepared (rp_last_transaction_id s) (rp_last_log_index s) (rp_versions s)
      then Inl (registry_corrupt_at offset)
      else
        bind_result (transaction_id_for_prepared cx prepared) (\<lambda>expected.
        if expected \<noteq> pp_transaction_id prepared
           \<or> isl (prepare_mutation (rp_records s) (pp_mutation prepared) max_tasks)
        then Inl (registry_corrupt_at offset) else Inr ()))"

definition recover_pending_transaction ::
  "('p, 'r, 'h) registry_codec \<Rightarrow> ('p, 'r, 'h) replay_state \<Rightarrow> nat \<Rightarrow> nat
     \<Rightarrow> ('p, 'r, 'h) PendingTransaction option result" where
  "recover_pending_transaction cx s max_tasks end_offset =
     (case bt_values (rp_pending s) of
        [] \<Rightarrow> Inr None
      | [(prepared, prepared_offset)] \<Rightarrow>
          bind_result (validate_prepared_tail cx prepared s max_tasks prepared_offset) (\<lambda>_.
          bind_result (ok_or (registry_corrupt_at prepared_offset) (to_vec (cx_prepared cx) prepared)) (\<lambda>payload.
          bind_result (encode_frame (cx_sha cx) Prepare (pp_log_index prepared) payload) (\<lambda>prepare_frame.
          bind_result (encode_frame (cx_sha cx) Commit (pp_log_index prepared)
                         (as_bytes (pp_transaction_id prepared))) (\<lambda>commit_frame.
          case prepare_mutation (rp_records s) (pp_mutation prepared) max_tasks of
            Inl _ \<Rightarrow> Inl (registry_corrupt_at prepared_offset)
          | Inr resulting \<Rightarrow>
              Inr (Some \<lparr>pt_metadata =
                           \<lparr>mt_transaction_id = pp_transaction_id prepared,
                            mt_log_index = pp_log_index prepared,
                            mt_previous_version = pp_previous_version prepared,
                            mt_prepare_payload = payload, mt_prepare_frame = prepare_frame,
                            mt_commit_frame = commit_frame\<rparr>,
                         pt_prepared = prepared, pt_resulting_record = resulting,
                         pt_proofs = fmempty, pt_attempts = fmempty\<rparr>)))))
      | _ \<Rightarrow> Inl (registry_corrupt_at end_offset))"

record ('p, 'r, 'h) RecoveredRegistry =
  rg_replayed :: "('p, 'r, 'h) replay_state"
  rg_pending :: "('p, 'r, 'h) PendingTransaction option"
  rg_truncate_at :: "nat option"
  rg_recovered_tail_bytes :: u64

definition wal_snapshot_default :: "('p, 'r, 'h) RegistrySnapshot" where
  "wal_snapshot_default =
     \<lparr>rs_format_version = wal_version, rs_last_included = 0, rs_last_transaction_id = [],
      rs_records = fmempty, rs_versions = fmempty\<rparr>"

definition replay_start :: "('p, 'r, 'h) RegistrySnapshot \<Rightarrow> ('p, 'r, 'h) replay_state" where
  "replay_start snapshot =
     \<lparr>rp_records = rs_records snapshot, rp_versions = rs_versions snapshot,
      rp_last_log_index = rs_last_included snapshot,
      rp_last_transaction_id = rs_last_transaction_id snapshot, rp_pending = fmempty,
      rp_wal_transactions = 0\<rparr>"

definition legacy_wal_error :: DistributedError where
  "legacy_wal_error = with_detail (registry_corrupt_at 0)
     ''legacy newline JSON WAL is not a recoverable production framing format''"

definition replay_wal ::
  "('p, 'r, 'h) registry_codec \<Rightarrow> bytes \<Rightarrow> ('p, 'r, 'h) RegistrySnapshot option \<Rightarrow> RegistryOptions
     \<Rightarrow> ('p, 'r, 'h) RecoveredRegistry result" where
  "replay_wal cx bs snapshot options =
     (if starts_with_json bs then Inl legacy_wal_error
      else
        let snapshot = unwrap_or wal_snapshot_default snapshot in
        if rs_format_version snapshot \<noteq> wal_version \<or> bt_len (rs_records snapshot) > ro_max_tasks options
        then Inl (registry_corrupt_at 0)
        else
          bind_result (scan_frames (cx_sha cx) (ro_max_record_bytes options) bs
                         (replay_frame cx (ro_max_tasks options) (rs_last_included snapshot)) 0
                         (replay_start snapshot)) (\<lambda>(s, offset).
          bind_result (recover_pending_transaction cx s (ro_max_tasks options) offset) (\<lambda>pending.
          Inr \<lparr>rg_replayed = s, rg_pending = pending,
               rg_truncate_at = (if offset < length bs then Some offset else None),
               rg_recovered_tail_bytes = of_nat (length bs - offset)\<rparr>)))"

section \<open>Opening\<close>

fun replica_ids_ok :: "string list \<Rightarrow> string list \<Rightarrow> bool" where
  "replica_ids_ok seen [] \<longleftrightarrow> True"
| "replica_ids_ok seen (i # is) \<longleftrightarrow> i \<noteq> [] \<and> i \<notin> set seen \<and> replica_ids_ok (i # seen) is"

definition validate_replica_ids :: "string list \<Rightarrow> unit result" where
  "validate_replica_ids ids = (if replica_ids_ok [] ids then Inr () else Inl registry_config_error)"

definition open_with_options ::
  "('p, 'r, 'h) registry_codec \<Rightarrow> ('x \<Rightarrow> string) \<Rightarrow> open_io \<Rightarrow> bool \<Rightarrow> bytes option \<Rightarrow> bytes option
     \<Rightarrow> 'x list \<Rightarrow> RegistryOptions \<Rightarrow> ('p, 'r, 'h, 'x) PersistentRegistry result" where
  "open_with_options cx replica_id io snapshot_read snapshot_file wal_file replicas options =
     bind_result (options_validate options) (\<lambda>options.
     if \<not> oio_parent io then Inl registry_storage_error
     else
       bind_result (validate_replica_ids (map replica_id replicas)) (\<lambda>_.
       bind_result (load_snapshot cx snapshot_read snapshot_file (ro_max_record_bytes options)) (\<lambda>snapshot.
       bind_result (read_existing io wal_file) (\<lambda>bs.
       bind_result (replay_wal cx bs snapshot options) (\<lambda>recovered.
       bind_result (wal_open io bs (rg_truncate_at recovered)) (\<lambda>wal.
       Inr \<lparr>reg_snapshot_file = snapshot_file, reg_wal = wal,
            reg_records = rp_records (rg_replayed recovered),
            reg_versions = rp_versions (rg_replayed recovered),
            reg_last_log_index = rp_last_log_index (rg_replayed recovered),
            reg_last_transaction_id = rp_last_transaction_id (rg_replayed recovered),
            reg_wal_transactions = rp_wal_transactions (rg_replayed recovered),
            reg_recovered_tail_bytes = rg_recovered_tail_bytes recovered,
            reg_pending = rg_pending recovered, reg_last_report = None,
            reg_replicas = replicas, reg_options = options\<rparr>))))))"

section \<open>Transactions\<close>

record 'env registry_io =
  rio_prepare :: append_io
  rio_commit :: append_io
  rio_len :: bool
  rio_snapshot :: snapshot_io
  rio_truncate :: truncate_io
  rio_replica :: "nat \<Rightarrow> 'env"

definition report_for ::
  "('p, 'r, 'h) PendingTransaction \<Rightarrow> nat \<Rightarrow> bool \<Rightarrow> DistributedErrorKind option \<Rightarrow> RegistryCommitReport" where
  "report_for pending required_replica_acks local_committed maintenance_error =
     \<lparr>rcr_transaction_id = mt_transaction_id (pt_metadata pending),
      rcr_log_index = mt_log_index (pt_metadata pending),
      rcr_previous_version = mt_previous_version (pt_metadata pending),
      rcr_local_committed = local_committed,
      rcr_required_replica_acks = required_replica_acks,
      rcr_replica_attempts =
        map (\<lambda>(replica_id, outcome). \<lparr>rca_replica_id = replica_id,
               rca_log_index = mt_log_index (pt_metadata pending), rca_outcome = outcome\<rparr>)
          (bt_entries (pt_attempts pending)),
      rcr_maintenance_error = maintenance_error\<rparr>"

definition record_limit_error :: DistributedError where
  "record_limit_error = error_new CapacityExceeded ''registry control record exceeds the bounded limit''"

definition transaction_limit_error :: DistributedError where
  "transaction_limit_error = error_new CapacityExceeded ''registry transaction exceeds the bounded limit''"

definition other_prepared_error :: DistributedError where
  "other_prepared_error = error_new Conflict ''another registry transaction is still prepared''"

definition new_prepared ::
  "('p, 'r, 'h) registry_codec \<Rightarrow> string \<Rightarrow> u64 \<Rightarrow> ('p, 'r, 'h) RegistryMutation \<Rightarrow> bytes \<Rightarrow> u64
     \<Rightarrow> ('p, 'r, 'h) PreparedPayload result" where
  "new_prepared cx last_transaction_id last_log_index mutation mutation_bytes previous_version =
     bind_result (ok_or registry_capacity_error (checked_add last_log_index 1)) (\<lambda>log_index.
     bind_result (ok_or registry_capacity_error (checked_add previous_version 1)) (\<lambda>new_version.
     Inr \<lparr>pp_transaction_id =
             transaction_id (cx_sha cx) last_transaction_id log_index previous_version mutation_bytes,
           pp_log_index = log_index, pp_previous_transaction_id = last_transaction_id,
           pp_task_id = mutation_task_id mutation, pp_previous_version = previous_version,
           pp_new_version = new_version, pp_mutation = mutation\<rparr>))"

definition new_pending ::
  "('p, 'r, 'h) registry_codec \<Rightarrow> nat \<Rightarrow> ('p, 'r, 'h) PreparedPayload \<Rightarrow> ('p, 'r, 'h) DurableTaskRecord
     \<Rightarrow> ('p, 'r, 'h) PendingTransaction result" where
  "new_pending cx max_record_bytes prepared resulting_record =
     bind_result (ok_or registry_corrupt_error (to_vec (cx_prepared cx) prepared)) (\<lambda>prepare_payload.
     if length prepare_payload > max_record_bytes then Inl transaction_limit_error
     else
       bind_result (encode_frame (cx_sha cx) Prepare (pp_log_index prepared) prepare_payload) (\<lambda>prepare_frame.
       bind_result (encode_frame (cx_sha cx) Commit (pp_log_index prepared)
                      (as_bytes (pp_transaction_id prepared))) (\<lambda>commit_frame.
       Inr \<lparr>pt_metadata =
              \<lparr>mt_transaction_id = pp_transaction_id prepared, mt_log_index = pp_log_index prepared,
               mt_previous_version = pp_previous_version prepared,
               mt_prepare_payload = prepare_payload, mt_prepare_frame = prepare_frame,
               mt_commit_frame = commit_frame\<rparr>,
            pt_prepared = prepared, pt_resulting_record = resulting_record,
            pt_proofs = fmempty, pt_attempts = fmempty\<rparr>)))"

definition prepare_pending_transaction ::
  "('p, 'r, 'h) registry_codec \<Rightarrow> append_io \<Rightarrow> ('p, 'r, 'h, 'x) PersistentRegistry
     \<Rightarrow> ('p, 'r, 'h) RegistryMutation \<Rightarrow> bytes \<Rightarrow> ('p, 'r, 'h) DurableTaskRecord \<Rightarrow> u64 \<Rightarrow> bool
     \<Rightarrow> ('p, 'r, 'h) PendingTransaction result \<times> ('p, 'r, 'h, 'x) PersistentRegistry" where
  "prepare_pending_transaction cx io reg mutation mutation_bytes resulting_record previous_version sync =
     (case reg_pending reg of
        Some existing \<Rightarrow>
          if pp_mutation (pt_prepared existing) \<noteq> mutation
             \<or> pp_previous_version (pt_prepared existing) \<noteq> previous_version
          then (Inl other_prepared_error, reg)
          else (Inr existing, reg\<lparr>reg_pending := None\<rparr>)
      | None \<Rightarrow>
          (case bind_result (new_prepared cx (reg_last_transaction_id reg) (reg_last_log_index reg)
                               mutation mutation_bytes previous_version)
                  (\<lambda>prepared. new_pending cx (ro_max_record_bytes (reg_options reg)) prepared resulting_record) of
             Inl e \<Rightarrow> (Inl e, reg)
           | Inr pending \<Rightarrow>
               (case wal_append io (mt_prepare_frame (pt_metadata pending)) sync (reg_wal reg) of
                  (Inl e, w) \<Rightarrow> (Inl e, reg\<lparr>reg_wal := w\<rparr>)
                | (Inr _, w) \<Rightarrow> (Inr pending, reg\<lparr>reg_wal := w\<rparr>))))"

fun replicate_transaction ::
  "('x \<Rightarrow> string) \<Rightarrow> ('env \<Rightarrow> MetadataTransaction \<Rightarrow> bool \<Rightarrow> 'x \<Rightarrow> ReplicaCommitAck result \<times> 'x)
     \<Rightarrow> (nat \<Rightarrow> 'env) \<Rightarrow> nat \<Rightarrow> 'x list \<Rightarrow> ('p, 'r, 'h) PendingTransaction \<Rightarrow> nat \<Rightarrow> bool
     \<Rightarrow> ('p, 'r, 'h) PendingTransaction \<times> 'x list" where
  "replicate_transaction replica_id commit env n [] pending required sync = (pending, [])"
| "replicate_transaction replica_id commit env n (x # xs) pending required sync =
     (if bt_len (pt_proofs pending) \<ge> required then (pending, x # xs)
      else if bt_contains (pt_proofs pending) (replica_id x) then
        (let (pending', xs') = replicate_transaction replica_id commit env (Suc n) xs pending required sync
         in (pending', x # xs'))
      else
        let (res, x') = commit (env n) (pt_metadata pending) sync x;
            pending1 =
              (case res of
                 Inr ack \<Rightarrow>
                   if ack_replica_id ack = replica_id x
                      \<and> ack_transaction_id ack = mt_transaction_id (pt_metadata pending)
                      \<and> ack_log_index ack = mt_log_index (pt_metadata pending)
                   then
                     let proof = \<lparr>mcp_replica_id = ack_replica_id ack,
                                  mcp_transaction_id = ack_transaction_id ack,
                                  mcp_log_index = ack_log_index ack\<rparr>
                     in pending\<lparr>pt_attempts := fmupd (replica_id x) (CommittedBy proof) (pt_attempts pending),
                                pt_proofs := fmupd (replica_id x) proof (pt_proofs pending)\<rparr>
                   else pending\<lparr>pt_attempts := fmupd (replica_id x) (FailedWith Corrupt) (pt_attempts pending)\<rparr>
               | Inl e \<Rightarrow>
                   pending\<lparr>pt_attempts := fmupd (replica_id x) (FailedWith (err_kind e)) (pt_attempts pending)\<rparr>);
            (pending', xs') = replicate_transaction replica_id commit env (Suc n) xs pending1 required sync
        in (pending', x' # xs'))"

definition compaction_due :: "bool \<Rightarrow> ('p, 'r, 'h, 'x) PersistentRegistry \<Rightarrow> bool result" where
  "compaction_due len_ok reg =
     (if reg_wal_transactions reg \<ge> ro_compact_after_records (reg_options reg) then Inr True
      else bind_result (wal_len len_ok (reg_wal reg))
        (\<lambda>n. Inr (n \<ge> unat (ro_compact_after_bytes (reg_options reg)))))"

definition current_snapshot :: "('p, 'r, 'h, 'x) PersistentRegistry \<Rightarrow> ('p, 'r, 'h) RegistrySnapshot" where
  "current_snapshot reg =
     \<lparr>rs_format_version = wal_version, rs_last_included = reg_last_log_index reg,
      rs_last_transaction_id = reg_last_transaction_id reg, rs_records = reg_records reg,
      rs_versions = reg_versions reg\<rparr>"

definition compact_locked ::
  "('p, 'r, 'h) registry_codec \<Rightarrow> snapshot_io \<Rightarrow> truncate_io \<Rightarrow> ('p, 'r, 'h, 'x) PersistentRegistry
     \<Rightarrow> unit result \<times> ('p, 'r, 'h, 'x) PersistentRegistry" where
  "compact_locked cx sio tio reg =
     (case persist_snapshot cx sio (current_snapshot reg) (ro_max_record_bytes (reg_options reg))
             (reg_snapshot_file reg) of
        (Inl e, file) \<Rightarrow> (Inl e, reg\<lparr>reg_snapshot_file := file\<rparr>)
      | (Inr _, file) \<Rightarrow>
          (case wal_truncate tio 0 (reg_wal reg) of
             (Inl e, w) \<Rightarrow> (Inl e, reg\<lparr>reg_snapshot_file := file, reg_wal := w\<rparr>)
           | (Inr _, w) \<Rightarrow>
               (Inr (), reg\<lparr>reg_snapshot_file := file, reg_wal := w, reg_wal_transactions := 0\<rparr>)))"

definition still_prepared_error :: DistributedError where
  "still_prepared_error = error_new Conflict ''registry transaction is still prepared''"

definition compact ::
  "('p, 'r, 'h) registry_codec \<Rightarrow> snapshot_io \<Rightarrow> truncate_io \<Rightarrow> ('p, 'r, 'h, 'x) PersistentRegistry
     \<Rightarrow> unit result \<times> ('p, 'r, 'h, 'x) PersistentRegistry" where
  "compact cx sio tio reg =
     (if reg_pending reg \<noteq> None then (Inl still_prepared_error, reg) else compact_locked cx sio tio reg)"

text \<open>The in-memory effect of a committed transaction.\<close>

definition apply_committed ::
  "('p, 'r, 'h) PendingTransaction \<Rightarrow> ('p, 'r, 'h, 'x) PersistentRegistry \<Rightarrow> ('p, 'r, 'h, 'x) PersistentRegistry"
where
  "apply_committed pending reg =
     reg\<lparr>reg_records := fmupd (pp_task_id (pt_prepared pending)) (pt_resulting_record pending) (reg_records reg),
         reg_versions := fmupd (pp_task_id (pt_prepared pending)) (pp_new_version (pt_prepared pending))
                           (reg_versions reg),
         reg_last_log_index := mt_log_index (pt_metadata pending),
         reg_last_transaction_id := mt_transaction_id (pt_metadata pending),
         reg_wal_transactions := sat_add (reg_wal_transactions reg) 1\<rparr>"

text \<open>What \<open>transact_locked\<close> does once the commit frame is in the log.\<close>

definition finish_transaction ::
  "('p, 'r, 'h) registry_codec \<Rightarrow> 'env registry_io \<Rightarrow> nat \<Rightarrow> ('p, 'r, 'h) PendingTransaction
     \<Rightarrow> ('p, 'r, 'h, 'x) PersistentRegistry \<Rightarrow> CommitProof result \<times> ('p, 'r, 'h, 'x) PersistentRegistry" where
  "finish_transaction cx io required_replica_acks pending reg =
     (let reg = apply_committed pending reg in
      case compaction_due (rio_len io) reg of
        Inl e \<Rightarrow> (Inl e, reg)
      | Inr due \<Rightarrow>
          let (maintenance_error, reg) =
                (if due then
                   (case compact_locked cx (rio_snapshot io) (rio_truncate io) reg of
                      (Inl e, reg) \<Rightarrow> (Some (err_kind e), reg)
                    | (Inr _, reg) \<Rightarrow> (None, reg))
                 else (None, reg));
              report = report_for pending required_replica_acks True maintenance_error
          in (Inr \<lparr>cp_transaction_id = mt_transaction_id (pt_metadata pending),
                   cp_log_index = mt_log_index (pt_metadata pending),
                   cp_replica_commits = bt_values (pt_proofs pending)\<rparr>,
              reg\<lparr>reg_last_report := Some report, reg_pending := None\<rparr>))"

definition commit_pending ::
  "('p, 'r, 'h) registry_codec \<Rightarrow> ('x \<Rightarrow> string)
     \<Rightarrow> ('env \<Rightarrow> MetadataTransaction \<Rightarrow> bool \<Rightarrow> 'x \<Rightarrow> ReplicaCommitAck result \<times> 'x) \<Rightarrow> 'env registry_io
     \<Rightarrow> ('p, 'r, 'h) PendingTransaction \<Rightarrow> nat \<Rightarrow> bool \<Rightarrow> ('p, 'r, 'h, 'x) PersistentRegistry
     \<Rightarrow> CommitProof result \<times> ('p, 'r, 'h, 'x) PersistentRegistry" where
  "commit_pending cx replica_id commit io pending required_copies sync reg =
     (let required_replica_acks = required_copies - 1;
          (pending, replicas) = replicate_transaction replica_id commit (rio_replica io) 0
                                  (reg_replicas reg) pending required_replica_acks sync;
          reg = reg\<lparr>reg_replicas := replicas\<rparr>;
          unfinished = reg\<lparr>reg_last_report := Some (report_for pending required_replica_acks False None),
                           reg_pending := Some pending\<rparr>
      in if bt_len (pt_proofs pending) < required_replica_acks
         then (Inl durability_unavailable, unfinished)
         else (case wal_append (rio_commit io) (mt_commit_frame (pt_metadata pending)) sync (reg_wal reg) of
             (Inl e, w) \<Rightarrow> (Inl e, unfinished\<lparr>reg_wal := w\<rparr>)
           | (Inr _, w) \<Rightarrow> finish_transaction cx io required_replica_acks pending (reg\<lparr>reg_wal := w\<rparr>)))"

definition transact_locked ::
  "('p, 'r, 'h) registry_codec \<Rightarrow> ('x \<Rightarrow> string)
     \<Rightarrow> ('env \<Rightarrow> MetadataTransaction \<Rightarrow> bool \<Rightarrow> 'x \<Rightarrow> ReplicaCommitAck result \<times> 'x) \<Rightarrow> 'env registry_io
     \<Rightarrow> ('p, 'r, 'h, 'x) PersistentRegistry \<Rightarrow> ('p, 'r, 'h) RegistryMutation \<Rightarrow> nat \<Rightarrow> bool
     \<Rightarrow> CommitProof result \<times> ('p, 'r, 'h, 'x) PersistentRegistry" where
  "transact_locked cx replica_id commit io reg mutation required_copies sync =
     (let previous_version = version_of (reg_versions reg) (mutation_task_id mutation) in
      case prepare_mutation (reg_records reg) mutation (ro_max_tasks (reg_options reg)) of
        Inl e \<Rightarrow> (Inl e, reg)
      | Inr resulting_record \<Rightarrow>
          (case to_vec (cx_mutation cx) mutation of
             None \<Rightarrow> (Inl registry_corrupt_error, reg)
           | Some mutation_bytes \<Rightarrow>
               if length mutation_bytes > ro_max_record_bytes (reg_options reg)
               then (Inl record_limit_error, reg)
               else (case prepare_pending_transaction cx (rio_prepare io) reg mutation mutation_bytes
                            resulting_record previous_version sync of
                   (Inl e, reg) \<Rightarrow> (Inl e, reg)
                 | (Inr pending, reg) \<Rightarrow>
                     commit_pending cx replica_id commit io pending required_copies sync reg)))"

definition required_copies_of :: "('p, 'r, 'h) DurableTaskRecord \<Rightarrow> nat" where
  "required_copies_of r = minimum_metadata_copies (rec_acceptance r)"

definition transact_for_existing ::
  "('p, 'r, 'h) registry_codec \<Rightarrow> ('x \<Rightarrow> string)
     \<Rightarrow> ('env \<Rightarrow> MetadataTransaction \<Rightarrow> bool \<Rightarrow> 'x \<Rightarrow> ReplicaCommitAck result \<times> 'x) \<Rightarrow> 'env registry_io
     \<Rightarrow> ('p, 'r, 'h, 'x) PersistentRegistry \<Rightarrow> ('p, 'r, 'h) RegistryMutation
     \<Rightarrow> CommitProof result \<times> ('p, 'r, 'h, 'x) PersistentRegistry" where
  "transact_for_existing cx replica_id commit io reg mutation =
     (case fmlookup (reg_records reg) (mutation_task_id mutation) of
        None \<Rightarrow> (Inl task_unknown, reg)
      | Some r \<Rightarrow> transact_locked cx replica_id commit io reg mutation (required_copies_of r)
                    (rec_acceptance r \<noteq> Fast))"

text \<open>\<open>.map(|_| ...)\<close> on the result of a transaction.\<close>

definition map_proof :: "(CommitProof \<Rightarrow> 'a) \<Rightarrow> CommitProof result \<times> 's \<Rightarrow> 'a result \<times> 's" where
  "map_proof f rs = (case rs of (Inl e, s) \<Rightarrow> (Inl e, s) | (Inr p, s) \<Rightarrow> (Inr (f p), s))"

section \<open>Public operations\<close>

definition submitted_record ::
  "('p, 'r) DurableTaskSpec \<Rightarrow> ('p, 'r, 'h) DurableTaskRecord" where
  "submitted_record spec =
     \<lparr>rec_spec = spec, rec_state = initial_state (spec_requested spec), rec_acceptance = spec_requested spec,
      rec_metadata_copies = minimum_metadata_copies (spec_requested spec), rec_attempts = [],
      rec_staged = None, rec_committed = None, rec_conflicts = [], rec_failure = None\<rparr>"

fun inputs_admissible :: "AcceptanceMode \<Rightarrow> ContentId list \<Rightarrow> nat \<Rightarrow> ResourceCatalog \<Rightarrow> bool" where
  "inputs_admissible Fast inputs input_copies resources \<longleftrightarrow> True"
| "inputs_admissible Durable inputs input_copies resources \<longleftrightarrow> inputs_recoverable resources inputs"
| "inputs_admissible (Critical n) inputs input_copies resources \<longleftrightarrow>
     inputs_recoverable resources inputs \<and> (inputs = [] \<or> \<not> input_copies < unat n)"

definition submit ::
  "('p, 'r, 'h) registry_codec \<Rightarrow> ('x \<Rightarrow> string)
     \<Rightarrow> ('env \<Rightarrow> MetadataTransaction \<Rightarrow> bool \<Rightarrow> 'x \<Rightarrow> ReplicaCommitAck result \<times> 'x) \<Rightarrow> 'env registry_io
     \<Rightarrow> ('p, 'r, 'h, 'x) PersistentRegistry \<Rightarrow> ('p, 'r) DurableTaskSpec \<Rightarrow> ResourceCatalog
     \<Rightarrow> AcceptanceReceipt result \<times> ('p, 'r, 'h, 'x) PersistentRegistry" where
  "submit cx replica_id commit io reg spec resources =
     (let requested = spec_requested spec;
          required_copies = minimum_metadata_copies requested
      in
      if required_copies = 0 \<or> requested = Critical 0 \<or> requested = Critical 1
         \<or> required_copies > length (reg_replicas reg) + 1
      then (Inl durability_unavailable, reg)
      else (case minimum_healthy_copies resources (spec_required_inputs spec) of
          Inl e \<Rightarrow> (Inl e, reg)
        | Inr input_copies \<Rightarrow>
            if \<not> inputs_admissible requested (spec_required_inputs spec) input_copies resources
            then (Inl durability_unavailable, reg)
            else
              map_proof (\<lambda>proof.
                \<lparr>ar_task_id = spec_task_id spec, ar_requested = requested, ar_actual = requested,
                 ar_state = initial_state requested,
                 ar_metadata_copies = length (cp_replica_commits proof) + 1,
                 ar_input_copies = input_copies, ar_transaction_id = cp_transaction_id proof,
                 ar_log_index = cp_log_index proof, ar_replica_commits = cp_replica_commits proof\<rparr>)
                (transact_locked cx replica_id commit io reg (Submit (submitted_record spec))
                   required_copies (requested \<noteq> Fast))))"

definition assign ::
  "('p, 'r, 'h) registry_codec \<Rightarrow> ('x \<Rightarrow> string)
     \<Rightarrow> ('env \<Rightarrow> MetadataTransaction \<Rightarrow> bool \<Rightarrow> 'x \<Rightarrow> ReplicaCommitAck result \<times> 'x) \<Rightarrow> 'env registry_io
     \<Rightarrow> ('p, 'r, 'h, 'x) PersistentRegistry \<Rightarrow> GlobalTaskId \<Rightarrow> u32 \<Rightarrow> NodeId \<Rightarrow> 'h option \<Rightarrow> u64
     \<Rightarrow> unit result \<times> ('p, 'r, 'h, 'x) PersistentRegistry" where
  "assign cx replica_id commit io reg task attempt node handle generation =
     (if attempt = 0 \<or> generation = 0 then (Inl registry_config_error, reg)
      else map_proof (\<lambda>_. ()) (transact_for_existing cx replica_id commit io reg
             (Assign task \<lparr>att_attempt = attempt, att_node = node, att_handle = handle,
                           att_runner_generation = generation, att_active = True\<rparr>)))"

definition mark_running ::
  "('p, 'r, 'h) registry_codec \<Rightarrow> ('x \<Rightarrow> string)
     \<Rightarrow> ('env \<Rightarrow> MetadataTransaction \<Rightarrow> bool \<Rightarrow> 'x \<Rightarrow> ReplicaCommitAck result \<times> 'x) \<Rightarrow> 'env registry_io
     \<Rightarrow> ('p, 'r, 'h, 'x) PersistentRegistry \<Rightarrow> GlobalTaskId \<Rightarrow> u32
     \<Rightarrow> unit result \<times> ('p, 'r, 'h, 'x) PersistentRegistry" where
  "mark_running cx replica_id commit io reg task attempt =
     map_proof (\<lambda>_. ()) (transact_for_existing cx replica_id commit io reg (MarkRunning task attempt))"

definition attempt_stale_error :: DistributedError where
  "attempt_stale_error = error_new AttemptStale ''stale attempt output was quarantined''"

definition stale_reason :: string where
  "stale_reason = ''output belongs to a stale attempt''"

definition stage_output ::
  "('p, 'r, 'h) registry_codec \<Rightarrow> ('x \<Rightarrow> string)
     \<Rightarrow> ('env \<Rightarrow> MetadataTransaction \<Rightarrow> bool \<Rightarrow> 'x \<Rightarrow> ReplicaCommitAck result \<times> 'x) \<Rightarrow> 'env registry_io
     \<Rightarrow> ('p, 'r, 'h, 'x) PersistentRegistry \<Rightarrow> GlobalTaskId \<Rightarrow> u32 \<Rightarrow> NodeId \<Rightarrow> ContentId \<Rightarrow> ResourceCatalog
     \<Rightarrow> unit result \<times> ('p, 'r, 'h, 'x) PersistentRegistry" where
  "stage_output cx replica_id commit io reg task attempt worker cid resources =
     (case fmlookup (reg_records reg) task of
        None \<Rightarrow> (Inl task_unknown, reg)
      | Some r \<Rightarrow>
          (case active_attempt r of
             None \<Rightarrow> (Inl invalid_transition, reg)
           | Some active \<Rightarrow>
               if att_attempt active \<noteq> attempt \<or> att_node active \<noteq> worker then
                 (case transact_locked cx replica_id commit io reg
                         (QuarantineOutput task \<lparr>co_attempt = attempt, co_worker = worker,
                            co_content = cid, co_reason = stale_reason\<rparr>)
                         (required_copies_of r) (rec_acceptance r \<noteq> Fast) of
                    (Inl e, reg) \<Rightarrow> (Inl e, reg)
                  | (Inr _, reg) \<Rightarrow> (Inl attempt_stale_error, reg))
               else if rec_state r \<notin> {Assigned, Running} then (Inl invalid_transition, reg)
               else (case catalog_get resources cid of
                   None \<Rightarrow> (Inl durability_unavailable, reg)
                 | Some c \<Rightarrow>
                     if \<not> is_commit_ready resources cid (rec_acceptance r)
                     then (Inl durability_unavailable, reg)
                     else map_proof (\<lambda>_. ()) (transact_locked cx replica_id commit io reg
                            (StageOutput task \<lparr>so_attempt = attempt, so_worker = worker,
                               so_content = cid, so_verified_copies = healthy_copies c\<rparr>)
                            (required_copies_of r) (rec_acceptance r \<noteq> Fast)))))"

definition commit_output ::
  "('p, 'r, 'h) registry_codec \<Rightarrow> ('x \<Rightarrow> string)
     \<Rightarrow> ('env \<Rightarrow> MetadataTransaction \<Rightarrow> bool \<Rightarrow> 'x \<Rightarrow> ReplicaCommitAck result \<times> 'x) \<Rightarrow> 'env registry_io
     \<Rightarrow> ('p, 'r, 'h, 'x) PersistentRegistry \<Rightarrow> GlobalTaskId \<Rightarrow> ResourceCatalog
     \<Rightarrow> ContentId result \<times> ('p, 'r, 'h, 'x) PersistentRegistry" where
  "commit_output cx replica_id commit io reg task resources =
     (case fmlookup (reg_records reg) task of
        None \<Rightarrow> (Inl task_unknown, reg)
      | Some r \<Rightarrow>
          (case rec_staged r of
             None \<Rightarrow> (Inl invalid_transition, reg)
           | Some staged \<Rightarrow>
               if rec_state r \<noteq> OutputStaged
                  \<or> \<not> is_commit_ready resources (so_content staged) (rec_acceptance r)
               then (Inl durability_unavailable, reg)
               else map_proof (\<lambda>_. so_content staged) (transact_locked cx replica_id commit io reg
                      (CommitOutput task (so_content staged))
                      (required_copies_of r) (rec_acceptance r \<noteq> Fast))))"

definition fail_task ::
  "('p, 'r, 'h) registry_codec \<Rightarrow> ('x \<Rightarrow> string)
     \<Rightarrow> ('env \<Rightarrow> MetadataTransaction \<Rightarrow> bool \<Rightarrow> 'x \<Rightarrow> ReplicaCommitAck result \<times> 'x) \<Rightarrow> 'env registry_io
     \<Rightarrow> ('p, 'r, 'h, 'x) PersistentRegistry \<Rightarrow> GlobalTaskId \<Rightarrow> string \<Rightarrow> bool
     \<Rightarrow> unit result \<times> ('p, 'r, 'h, 'x) PersistentRegistry" where
  "fail_task cx replica_id commit io reg task reason recovery_required =
     map_proof (\<lambda>_. ()) (transact_for_existing cx replica_id commit io reg
       (SetFailure task (if recovery_required then RecoveryRequired else Failed) reason))"

definition cancel_task ::
  "('p, 'r, 'h) registry_codec \<Rightarrow> ('x \<Rightarrow> string)
     \<Rightarrow> ('env \<Rightarrow> MetadataTransaction \<Rightarrow> bool \<Rightarrow> 'x \<Rightarrow> ReplicaCommitAck result \<times> 'x) \<Rightarrow> 'env registry_io
     \<Rightarrow> ('p, 'r, 'h, 'x) PersistentRegistry \<Rightarrow> GlobalTaskId
     \<Rightarrow> unit result \<times> ('p, 'r, 'h, 'x) PersistentRegistry" where
  "cancel_task cx replica_id commit io reg task =
     map_proof (\<lambda>_. ()) (transact_for_existing cx replica_id commit io reg (Cancel task))"

definition query ::
  "('p, 'r, 'h, 'x) PersistentRegistry \<Rightarrow> GlobalTaskId \<Rightarrow> ('p, 'r, 'h) DurableTaskRecord option" where
  "query reg task = fmlookup (reg_records reg) task"

definition stats :: "bool \<Rightarrow> ('p, 'r, 'h, 'x) PersistentRegistry \<Rightarrow> RegistryStats result" where
  "stats len_ok reg =
     bind_result (wal_len len_ok (reg_wal reg)) (\<lambda>wal_bytes.
       Inr \<lparr>rst_last_log_index = reg_last_log_index reg, rst_wal_transactions = reg_wal_transactions reg,
            rst_wal_bytes = wal_bytes, rst_recovered_tail_bytes = reg_recovered_tail_bytes reg\<rparr>)"

end
