(* ===== verification/Registry_Recovery.thy ===== *)
theory Registry_Recovery
  imports Persistent_Registry
begin

text \<open>
  Recovery of the persistent registry.  The logs a registry can write are described by an
  inductive relation between the entries and the state they replay to; rule induction shows
  that replay computes that state and that every prefix of a log is a log, so a log cut by a
  crash recovers.  The invariant \<open>registry_ok\<close> ties memory, log and snapshot file together;
  every operation keeps it whichever of its file accesses fail, and opening the files of
  such a registry gives back the memory.
\<close>

section \<open>The documented behaviour of the codecs\<close>

text \<open>
  Digests have 32 bytes, what was encoded decodes to itself, and the JSON text of a prepared
  transaction contains its transaction id, so it is not shorter.
\<close>

definition codec_ok :: "('p, 'r, 'h) registry_codec \<Rightarrow> bool" where
  "codec_ok cx \<longleftrightarrow>
     sha_ok (cx_sha cx) \<and> serde_ok (cx_mutation cx) \<and> serde_ok (cx_prepared cx) \<and> serde_ok (cx_snapshot cx)
     \<and> (\<forall>prepared bs. to_vec (cx_prepared cx) prepared = Some bs \<longrightarrow>
          length (pp_transaction_id prepared) \<le> length bs)"

lemma codec_okD [simp]: "codec_ok cx \<Longrightarrow> sha_ok (cx_sha cx)"
  by (simp add: codec_ok_def)

section \<open>Logs\<close>

definition prepared_valid ::
  "('p, 'r, 'h) registry_codec \<Rightarrow> RegistryOptions \<Rightarrow> ('p, 'r, 'h) replay_state
     \<Rightarrow> ('p, 'r, 'h) PendingTransaction \<Rightarrow> bool" where
  "prepared_valid cx opts s pt \<longleftrightarrow>
     prepared_follows (pt_prepared pt) (rp_last_transaction_id s) (rp_last_log_index s) (rp_versions s)
     \<and> rp_last_log_index s < pp_log_index (pt_prepared pt)
     \<and> pp_task_id (pt_prepared pt) = mutation_task_id (pp_mutation (pt_prepared pt))
     \<and> transaction_id_for_prepared cx (pt_prepared pt) = Inr (pp_transaction_id (pt_prepared pt))
     \<and> prepare_mutation (rp_records s) (pp_mutation (pt_prepared pt)) (ro_max_tasks opts)
         = Inr (pt_resulting_record pt)
     \<and> new_pending cx (ro_max_record_bytes opts) (pt_prepared pt) (pt_resulting_record pt)
         = Inr (pt\<lparr>pt_proofs := fmempty, pt_attempts := fmempty\<rparr>)
     \<and> transaction_wf cx (ro_max_record_bytes opts) (pt_metadata pt)"

definition committed_state ::
  "('p, 'r, 'h) PendingTransaction \<Rightarrow> ('p, 'r, 'h) replay_state \<Rightarrow> ('p, 'r, 'h) replay_state" where
  "committed_state pt s =
     s\<lparr>rp_records := fmupd (pp_task_id (pt_prepared pt)) (pt_resulting_record pt) (rp_records s),
       rp_versions := fmupd (pp_task_id (pt_prepared pt)) (pp_new_version (pt_prepared pt)) (rp_versions s),
       rp_last_log_index := pp_log_index (pt_prepared pt),
       rp_last_transaction_id := pp_transaction_id (pt_prepared pt),
       rp_pending := fmempty,
       rp_wal_transactions := sat_add (rp_wal_transactions s) 1\<rparr>"

definition prepared_map ::
  "('p, 'r, 'h) PendingTransaction \<Rightarrow> nat \<Rightarrow> (u64, ('p, 'r, 'h) PreparedPayload \<times> nat) fmap" where
  "prepared_map pt off = fmupd (pp_log_index (pt_prepared pt)) (pt_prepared pt, off) fmempty"

inductive wal_log ::
  "('p, 'r, 'h) registry_codec \<Rightarrow> RegistryOptions \<Rightarrow> ('p, 'r, 'h) RegistrySnapshot \<Rightarrow> wal_entry list
     \<Rightarrow> ('p, 'r, 'h) replay_state \<Rightarrow> bool"
  for cx opts snap where
  start: "wal_log cx opts snap [] (replay_start snap)"
| skip: "wal_log cx opts snap es s \<Longrightarrow> s = replay_start snap \<Longrightarrow> we_index e \<le> rs_last_included snap \<Longrightarrow>
    we_kind e \<noteq> Snapshot \<Longrightarrow> entry_ok (ro_max_record_bytes opts) e \<Longrightarrow> wal_log cx opts snap (es @ [e]) s"
| prepare: "wal_log cx opts snap es s \<Longrightarrow> rp_pending s = fmempty \<Longrightarrow> prepared_valid cx opts s pt \<Longrightarrow>
    wal_log cx opts snap (es @ [prepare_entry (pt_metadata pt)])
      (s\<lparr>rp_pending := prepared_map pt (length (wal_image (cx_sha cx) es))\<rparr>)"
| commit: "wal_log cx opts snap es s \<Longrightarrow> rp_pending s = prepared_map pt off \<Longrightarrow> prepared_valid cx opts s pt \<Longrightarrow>
    wal_log cx opts snap (es @ [commit_entry (pt_metadata pt)]) (committed_state pt s)"

lemma new_pending_fields:
  assumes "new_pending cx mx prepared r = Inr q"
  shows "pt_prepared q = prepared" and "pt_resulting_record q = r"
    and "pt_proofs q = fmempty" and "pt_attempts q = fmempty"
    and "mt_log_index (pt_metadata q) = pp_log_index prepared"
    and "mt_transaction_id (pt_metadata q) = pp_transaction_id prepared"
    and "mt_previous_version (pt_metadata q) = pp_previous_version prepared"
    and "to_vec (cx_prepared cx) prepared = Some (mt_prepare_payload (pt_metadata q))"
    and "length (mt_prepare_payload (pt_metadata q)) \<le> mx"
    and "encode_frame (cx_sha cx) Prepare (pp_log_index prepared) (mt_prepare_payload (pt_metadata q))
           = Inr (mt_prepare_frame (pt_metadata q))"
    and "encode_frame (cx_sha cx) Commit (pp_log_index prepared) (as_bytes (pp_transaction_id prepared))
           = Inr (mt_commit_frame (pt_metadata q))"
  using assms by (auto simp: new_pending_def bind_result_Inr if_result_Inr)

lemma prepared_valid_metadata:
  assumes "prepared_valid cx opts s pt"
  shows "mt_log_index (pt_metadata pt) = pp_log_index (pt_prepared pt)"
    and "mt_transaction_id (pt_metadata pt) = pp_transaction_id (pt_prepared pt)"
    and "mt_previous_version (pt_metadata pt) = pp_previous_version (pt_prepared pt)"
    and "to_vec (cx_prepared cx) (pt_prepared pt) = Some (mt_prepare_payload (pt_metadata pt))"
proof -
  have "new_pending cx (ro_max_record_bytes opts) (pt_prepared pt) (pt_resulting_record pt)
         = Inr (pt\<lparr>pt_proofs := fmempty, pt_attempts := fmempty\<rparr>)"
    using assms by (simp add: prepared_valid_def)
  from new_pending_fields(5-8) [OF this] show
    "mt_log_index (pt_metadata pt) = pp_log_index (pt_prepared pt)"
    "mt_transaction_id (pt_metadata pt) = pp_transaction_id (pt_prepared pt)"
    "mt_previous_version (pt_metadata pt) = pp_previous_version (pt_prepared pt)"
    "to_vec (cx_prepared cx) (pt_prepared pt) = Some (mt_prepare_payload (pt_metadata pt))"
    by simp_all
qed

lemma prepared_valid_slice:
  assumes "prepared_valid cx opts s pt" and "codec_ok cx"
  shows "from_slice (cx_prepared cx) (mt_prepare_payload (pt_metadata pt)) = Some (pt_prepared pt)"
  using prepared_valid_metadata(4) [OF assms(1)] assms(2) by (auto simp: codec_ok_def dest: serde_okD)

lemma prepared_valid_frames:
  assumes "prepared_valid cx opts s pt" and "codec_ok cx"
  shows "frame_of (cx_sha cx) (prepare_entry (pt_metadata pt)) = mt_prepare_frame (pt_metadata pt)"
    and "frame_of (cx_sha cx) (commit_entry (pt_metadata pt)) = mt_commit_frame (pt_metadata pt)"
proof -
  have wf: "transaction_wf cx (ro_max_record_bytes opts) (pt_metadata pt)"
    using assms(1) by (simp add: prepared_valid_def)
  show "frame_of (cx_sha cx) (prepare_entry (pt_metadata pt)) = mt_prepare_frame (pt_metadata pt)"
    "frame_of (cx_sha cx) (commit_entry (pt_metadata pt)) = mt_commit_frame (pt_metadata pt)"
    using transaction_wf_frames(3,4) [OF wf codec_okD [OF assms(2)]] .
qed

lemma wal_log_index_ge: "wal_log cx opts snap es s \<Longrightarrow> rs_last_included snap \<le> rp_last_log_index s"
  by (induction rule: wal_log.induct)
     (auto simp: replay_start_def committed_state_def prepared_valid_def)

lemma wal_log_entries_ok:
  "wal_log cx opts snap es s \<Longrightarrow> codec_ok cx \<Longrightarrow> \<forall>e \<in> set es. entry_ok (ro_max_record_bytes opts) e"
  by (induction rule: wal_log.induct)
     (auto simp: prepared_valid_def dest: transaction_wf_frames)

text \<open>Every prefix of a log is a log.\<close>

lemma wal_log_prefix:
  assumes "wal_log cx opts snap es s"
  shows "\<exists>s'. wal_log cx opts snap (take j es) s' \<and> (j \<ge> length es \<longrightarrow> s' = s)"
  using assms
proof (induction arbitrary: j rule: wal_log.induct)
  case start
  then show ?case by (auto intro: wal_log.start)
next
  case (skip es s e)
  show ?case
  proof (cases "j \<le> length es")
    case False
    then show ?thesis using wal_log.skip [OF skip.hyps] by auto
  qed (use skip.IH [of j] in auto)
next
  case (prepare es s pt)
  show ?case
  proof (cases "j \<le> length es")
    case False
    then show ?thesis using wal_log.prepare [OF prepare.hyps] by auto
  qed (use prepare.IH [of j] in auto)
next
  case (commit es s pt off)
  show ?case
  proof (cases "j \<le> length es")
    case False
    then show ?thesis using wal_log.commit [OF commit.hyps] by auto
  qed (use commit.IH [of j] in auto)
qed

lemma replay_prepare_entry:
  assumes "prepared_valid cx opts s pt" "codec_ok cx" "rp_pending s = fmempty"
    "last_included \<le> rp_last_log_index s"
  shows "replay_frame cx mt last_included off (entry_frame sha off (prepare_entry (pt_metadata pt))) s
    = Inr (s\<lparr>rp_pending := prepared_map pt off\<rparr>)"
proof -
  have "\<not> pp_log_index (pt_prepared pt) \<le> last_included"
    using assms(1,4) by (auto simp: prepared_valid_def)
  then show ?thesis
    using prepared_valid_metadata [OF assms(1)] prepared_valid_slice [OF assms(1,2)] assms(3)
    by (simp add: replay_frame_def entry_frame_def prepare_entry_def prepared_map_def)
qed

lemma replay_commit_entry:
  assumes "prepared_valid cx opts s pt" "rp_pending s = prepared_map pt off'"
    "last_included \<le> rp_last_log_index s"
  shows "replay_frame cx (ro_max_tasks opts) last_included off (entry_frame sha off (commit_entry (pt_metadata pt))) s
    = Inr (committed_state pt s)"
proof -
  have "\<not> pp_log_index (pt_prepared pt) \<le> last_included"
    using assms(1,3) by (auto simp: prepared_valid_def)
  moreover have "from_utf8 (as_bytes (mt_transaction_id (pt_metadata pt))) = Some (mt_transaction_id (pt_metadata pt))"
    using assms(1) by (simp add: prepared_valid_def transaction_wf_def)
  ultimately show ?thesis
    using prepared_valid_metadata [OF assms(1)] assms(1,2)
    by (simp add: replay_frame_def entry_frame_def commit_entry_def prepared_map_def replay_commit_def
        prepared_valid_def committed_state_def)
qed

lemma wal_log_replay:
  assumes "wal_log cx opts snap es s" and "codec_ok cx"
  shows "fold_entries (cx_sha cx) (replay_frame cx (ro_max_tasks opts) (rs_last_included snap)) 0 es
      (replay_start snap) = Inr (s, length (wal_image (cx_sha cx) es))"
  using assms
proof (induction rule: wal_log.induct)
  case (skip es s e)
  then show ?case by (simp add: fold_entries_append replay_frame_def entry_frame_def)
next
  case (prepare es s pt)
  then show ?case
    using wal_log_index_ge [OF prepare.hyps(1)]
    by (simp add: fold_entries_append replay_prepare_entry)
next
  case (commit es s pt off)
  then show ?case
    using wal_log_index_ge [OF commit.hyps(1)]
    by (simp add: fold_entries_append replay_commit_entry)
qed simp

lemma wal_log_unique:
  "wal_log cx opts snap es s \<Longrightarrow> wal_log cx opts snap es s' \<Longrightarrow> codec_ok cx \<Longrightarrow> s = s'"
  by (drule (1) wal_log_replay, drule (1) wal_log_replay) simp

lemma wal_log_entry_index:
  "wal_log cx opts snap es s \<Longrightarrow>
     \<forall>e \<in> set es. we_kind e \<noteq> Snapshot
       \<and> (we_index e \<le> rp_last_log_index s \<or> we_index e |\<in>| fmdom (rp_pending s))"
proof (induction rule: wal_log.induct)
  case (prepare es s pt)
  then show ?case
    using prepared_valid_metadata(1) [OF prepare.hyps(3)]
    by (auto simp: prepare_entry_def prepared_map_def)
next
  case (commit es s pt off)
  then show ?case
    using prepared_valid_metadata(1) [OF commit.hyps(3)]
    by (force simp: commit_entry_def prepared_map_def committed_state_def prepared_valid_def)
qed (auto simp: replay_start_def)

lemma prepare_mutation_len:
  assumes "prepare_mutation records m mt = Inr r" and "bt_len records \<le> mt"
  shows "bt_len (fmupd (mutation_task_id m) r records) \<le> mt"
proof (cases m)
  case (Submit x)
  then show ?thesis using assms by (auto simp: bt_len_upd not_le split: if_splits)
qed (use assms in \<open>auto simp: bt_len_upd bt_contains_def prepare_existing_mutation_def bind_result_Inr\<close>)

lemma wal_log_len:
  "wal_log cx opts snap es s \<Longrightarrow> bt_len (rs_records snap) \<le> ro_max_tasks opts \<Longrightarrow>
     bt_len (rp_records s) \<le> ro_max_tasks opts"
  by (induction rule: wal_log.induct)
     (auto simp: replay_start_def committed_state_def prepared_valid_def intro: prepare_mutation_len)

section \<open>Recovering the prepared transaction\<close>

definition forget_acks :: "('p, 'r, 'h) PendingTransaction \<Rightarrow> ('p, 'r, 'h) PendingTransaction" where
  "forget_acks pt = pt\<lparr>pt_proofs := fmempty, pt_attempts := fmempty\<rparr>"

lemma prepared_valid_pending [simp]:
  "prepared_valid cx opts (s\<lparr>rp_pending := m\<rparr>) pt = prepared_valid cx opts s pt"
  by (simp add: prepared_valid_def)

lemma prepared_valid_forget [simp]:
  "prepared_valid cx opts s (forget_acks pt) = prepared_valid cx opts s pt"
  "prepared_map (forget_acks pt) off = prepared_map pt off"
  "pt_metadata (forget_acks pt) = pt_metadata pt"
  "forget_acks (forget_acks pt) = forget_acks pt"
  by (simp_all add: prepared_valid_def forget_acks_def prepared_map_def)

lemma wal_log_pending:
  assumes "wal_log cx opts snap es s"
  obtains (idle) "rp_pending s = fmempty"
  | (prepared) pt off where "rp_pending s = prepared_map pt off" "prepared_valid cx opts s pt"
  using assms by (cases rule: wal_log.cases) (auto simp: replay_start_def committed_state_def)

lemma bt_values_single [simp]: "bt_values (fmupd k v fmempty) = [v]"
  by (simp add: bt_values_def bt_keys_def sorted_list_of_fset.rep_eq)

lemma recover_pending_none [simp]:
  "rp_pending s = fmempty \<Longrightarrow> recover_pending_transaction cx s mt off = Inr None"
  by (simp add: recover_pending_transaction_def)

lemma recover_pending_some:
  assumes "prepared_valid cx opts s pt" "rp_pending s = prepared_map pt off"
  shows "recover_pending_transaction cx s (ro_max_tasks opts) end_off = Inr (Some (forget_acks pt))"
proof -
  note v = assms(1) [unfolded prepared_valid_def]
  from v have "new_pending cx (ro_max_record_bytes opts) (pt_prepared pt) (pt_resulting_record pt)
      = Inr (forget_acks pt)" by (simp add: forget_acks_def)
  then have "bind_result (ok_or e (to_vec (cx_prepared cx) (pt_prepared pt))) (\<lambda>payload.
      bind_result (encode_frame (cx_sha cx) Prepare (pp_log_index (pt_prepared pt)) payload) (\<lambda>prepare_frame.
      bind_result (encode_frame (cx_sha cx) Commit (pp_log_index (pt_prepared pt))
                     (as_bytes (pp_transaction_id (pt_prepared pt)))) (\<lambda>commit_frame.
       Inr (Some \<lparr>pt_metadata =
              \<lparr>mt_transaction_id = pp_transaction_id (pt_prepared pt), mt_log_index = pp_log_index (pt_prepared pt),
               mt_previous_version = pp_previous_version (pt_prepared pt),
               mt_prepare_payload = payload, mt_prepare_frame = prepare_frame,
               mt_commit_frame = commit_frame\<rparr>,
            pt_prepared = pt_prepared pt, pt_resulting_record = pt_resulting_record pt,
            pt_proofs = fmempty, pt_attempts = fmempty\<rparr>)))) = Inr (Some (forget_acks pt))" for e
    by (auto simp: new_pending_def bind_result_Inr if_result_Inr)
  then show ?thesis
    using v assms(2)
    by (simp add: recover_pending_transaction_def prepared_map_def validate_prepared_tail_def)
qed

section \<open>The registry invariant\<close>

definition snapshot_file_ok ::
  "('p, 'r, 'h) registry_codec \<Rightarrow> RegistryOptions \<Rightarrow> ('p, 'r, 'h) RegistrySnapshot \<Rightarrow> bytes option \<Rightarrow> bool"
where
  "snapshot_file_ok cx opts snap file \<longleftrightarrow>
     (case file of
        None \<Rightarrow> snap = wal_snapshot_default
      | Some bs \<Rightarrow> \<exists>payload. to_vec (cx_snapshot cx) snap = Some payload
          \<and> encode_frame (cx_sha cx) Snapshot (rs_last_included snap) payload = Inr bs)
     \<and> rs_format_version snap = wal_version \<and> bt_len (rs_records snap) \<le> ro_max_tasks opts"

definition memory_matches ::
  "('p, 'r, 'h) registry_codec \<Rightarrow> ('p, 'r, 'h) replay_state \<Rightarrow> ('p, 'r, 'h, 'x) PersistentRegistry \<Rightarrow> bool"
where
  "memory_matches cx s reg \<longleftrightarrow>
     rp_records s = reg_records reg \<and> rp_versions s = reg_versions reg
     \<and> rp_last_log_index s = reg_last_log_index reg
     \<and> rp_last_transaction_id s = reg_last_transaction_id reg
     \<and> (case reg_pending reg of
          None \<Rightarrow> rp_pending s = fmempty
        | Some pt \<Rightarrow> (\<exists>off. rp_pending s = prepared_map pt off) \<and> prepared_valid cx (reg_options reg) s pt)"

text \<open>What a registry has to give back after a restart.\<close>

type_synonym ('p, 'r, 'h) durable_view =
  "('p, 'r, 'h) task_records \<times> (GlobalTaskId, u64) fmap \<times> u64 \<times> string"

definition replay_view :: "('p, 'r, 'h) replay_state \<Rightarrow> ('p, 'r, 'h) durable_view" where
  "replay_view s = (rp_records s, rp_versions s, rp_last_log_index s, rp_last_transaction_id s)"

definition durable_view :: "('p, 'r, 'h, 'x) PersistentRegistry \<Rightarrow> ('p, 'r, 'h) durable_view" where
  "durable_view reg = (reg_records reg, reg_versions reg, reg_last_log_index reg, reg_last_transaction_id reg)"

lemma memory_matches_view: "memory_matches cx s reg \<Longrightarrow> replay_view s = durable_view reg"
  by (simp add: memory_matches_def replay_view_def durable_view_def)

definition registry_log ::
  "('p, 'r, 'h) registry_codec \<Rightarrow> ('p, 'r, 'h) RegistrySnapshot \<Rightarrow> wal_entry list
     \<Rightarrow> ('p, 'r, 'h) replay_state \<Rightarrow> nat \<Rightarrow> ('p, 'r, 'h) durable_view set
     \<Rightarrow> ('p, 'r, 'h, 'x) PersistentRegistry \<Rightarrow> bool" where
  "registry_log cx snap es s n V reg \<longleftrightarrow>
     \<not> isl (options_validate (reg_options reg))
     \<and> snapshot_file_ok cx (reg_options reg) snap (reg_snapshot_file reg)
     \<and> wal_log cx (reg_options reg) snap es s \<and> memory_matches cx s reg
     \<and> wf_bytes (reg_wal reg) = wal_image (cx_sha cx) es
     \<and> n \<le> length es \<and> wf_synced (reg_wal reg) = length (wal_image (cx_sha cx) (take n es))
     \<and> (\<forall>j s'. n \<le> j \<longrightarrow> wal_log cx (reg_options reg) snap (take j es) s' \<longrightarrow> replay_view s' \<in> V)"

text \<open>\<open>V\<close> holds the views that a crash may bring back: those of the log cut after its synced part.\<close>

definition registry_ok ::
  "('p, 'r, 'h) registry_codec \<Rightarrow> ('p, 'r, 'h) durable_view set \<Rightarrow> ('p, 'r, 'h, 'x) PersistentRegistry \<Rightarrow> bool"
where
  "registry_ok cx V reg \<longleftrightarrow> (\<exists>snap es s n. registry_log cx snap es s n V reg)"

lemma registry_ok_crash_image: "registry_ok cx V reg \<Longrightarrow> crash_image (reg_wal reg) (wf_bytes (reg_wal reg))"
  unfolding registry_ok_def registry_log_def crash_image_def
  by (metis image_take_mono order_refl take_all_iff)

section \<open>Opening the files of a registry\<close>

lemma load_snapshot_ok:
  assumes "snapshot_file_ok cx opts snap file" and "codec_ok cx"
  shows "\<exists>sn. load_snapshot cx True file mx = Inr sn \<and> unwrap_or wal_snapshot_default sn = snap"
proof (cases "file")
  case None
  with assms show ?thesis by (simp add: load_snapshot_def snapshot_file_ok_def)
next
  case (Some bs)
  with assms(1) obtain payload where p: "to_vec (cx_snapshot cx) snap = Some payload"
    "encode_frame (cx_sha cx) Snapshot (rs_last_included snap) payload = Inr bs"
    by (auto simp: snapshot_file_ok_def)
  have len: "length bs = length payload + 56"
    using p(2) assms(2) by (auto elim: encode_frame_Inr)
  then have "length payload \<le> max (length bs) mx" by simp
  from decode_encode_frame [OF p(2) _ this, of "[]" "[]"] assms(2)
  have "decode_frame_at (cx_sha cx) bs 0 (max (length bs) mx) = Inr (Some \<lparr>df_kind = Snapshot,
      df_log_index = rs_last_included snap, df_payload = payload, df_end = length bs\<rparr>)" by simp
  moreover have "from_slice (cx_snapshot cx) payload = Some snap"
    using p(1) assms(2) by (auto simp: codec_ok_def dest: serde_okD)
  ultimately show ?thesis using Some by (simp add: load_snapshot_def)
qed

lemma replay_cut_log:
  assumes log: "wal_log cx opts snap es s" and cx: "codec_ok cx" and snap: "snapshot_file_ok cx opts snap file"
    and sn: "unwrap_or wal_snapshot_default sn = snap"
    and k: "k \<le> length (wal_image (cx_sha cx) es)"
    and json: "\<not> starts_with_json (take k (wal_image (cx_sha cx) es))"
  obtains j s' pend trunc tail where "wal_log cx opts snap (take j es) s'" and "j \<le> length es"
    and "\<forall>n \<le> length es. length (wal_image (cx_sha cx) (take n es)) \<le> k \<longrightarrow> n \<le> j"
    and "k = length (wal_image (cx_sha cx) es) \<Longrightarrow> j = length es"
    and "recover_pending_transaction cx s' (ro_max_tasks opts) 0 = Inr pend"
    and "replay_wal cx (take k (wal_image (cx_sha cx) es)) sn opts = Inr \<lparr>rg_replayed = s', rg_pending = pend,
           rg_truncate_at = trunc, rg_recovered_tail_bytes = tail\<rparr>"
    and "take (unwrap_or k trunc) (take k (wal_image (cx_sha cx) es)) = wal_image (cx_sha cx) (take j es)"
    and "unwrap_or k trunc \<le> k"
proof -
  let ?sha = "cx_sha cx"
  let ?img = "wal_image ?sha es"
  have ok: "\<forall>e \<in> set es. entry_ok (ro_max_record_bytes opts) e" using wal_log_entries_ok [OF log cx] .
  from k ok obtain j rest where j: "take k ?img = wal_image ?sha (take j es) @ rest" "j \<le> length es"
    "rest = [] \<or> decode_frame_at ?sha (wal_image ?sha (take j es) @ rest)
       (length (wal_image ?sha (take j es))) (ro_max_record_bytes opts) = Inr None"
    "length (wal_image ?sha (take j es)) \<le> k"
    "j < length es \<Longrightarrow> k < length (wal_image ?sha (take (Suc j) es))"
    "k = length ?img \<Longrightarrow> j = length es \<and> rest = []"
    using codec_okD [OF cx] by (rule take_image_decode) blast
  obtain s' where s': "wal_log cx opts snap (take j es) s'" using wal_log_prefix [OF log] by blast
  have ok': "\<forall>e \<in> set (take j es). entry_ok (ro_max_record_bytes opts) e" using ok by (auto dest: in_set_takeD)
  have scan: "scan_frames ?sha (ro_max_record_bytes opts) (take k ?img)
      (replay_frame cx (ro_max_tasks opts) (rs_last_included snap)) 0 (replay_start snap)
      = Inr (s', length (wal_image ?sha (take j es)))"
    using scan_frames_image [OF ok', where rest = rest and pre = "[]" and sha = ?sha
        and step = "replay_frame cx (ro_max_tasks opts) (rs_last_included snap)" and s = "replay_start snap"]
      wal_log_replay [OF s' cx] j(1,3) cx by simp
  obtain pend where pend: "recover_pending_transaction cx s' (ro_max_tasks opts) off = Inr pend" for off
    using s' by (cases rule: wal_log_pending) (auto simp: recover_pending_some)
  let ?l = "length (wal_image ?sha (take j es))"
  have "replay_wal cx (take k ?img) sn opts = Inr \<lparr>rg_replayed = s', rg_pending = pend,
      rg_truncate_at = (if ?l < k then Some ?l else None), rg_recovered_tail_bytes = of_nat (k - ?l)\<rparr>"
    using json snap sn scan pend k by (simp add: replay_wal_def snapshot_file_ok_def)
  moreover have "n \<le> j" if "n \<le> length es" "length (wal_image ?sha (take n es)) \<le> k" for n
  proof (rule ccontr)
    assume "\<not> n \<le> j"
    with that j(5) image_take_mono [of "Suc j" n ?sha es] show False by simp
  qed
  moreover have "take (unwrap_or k (if ?l < k then Some ?l else None)) (take k ?img) = wal_image ?sha (take j es)"
    using j(1,4) k by auto
  ultimately show ?thesis using s' j(2,4,6) pend by (intro that [of j s' pend]) auto
qed

definition same_durable_state ::
  "('p, 'r, 'h, 'x) PersistentRegistry \<Rightarrow> ('p, 'r, 'h, 'x) PersistentRegistry \<Rightarrow> bool" where
  "same_durable_state reg reg' \<longleftrightarrow>
     reg_records reg' = reg_records reg \<and> reg_versions reg' = reg_versions reg
     \<and> reg_last_log_index reg' = reg_last_log_index reg
     \<and> reg_last_transaction_id reg' = reg_last_transaction_id reg"

lemma same_durable_state_view: "same_durable_state reg reg' \<longleftrightarrow> durable_view reg' = durable_view reg"
  by (auto simp: same_durable_state_def durable_view_def)

lemma memory_matches_recovered:
  assumes "wal_log cx opts snap es s" and "recover_pending_transaction cx s (ro_max_tasks opts) 0 = Inr pend"
    and "reg_records reg = rp_records s" and "reg_versions reg = rp_versions s"
    and "reg_last_log_index reg = rp_last_log_index s"
    and "reg_last_transaction_id reg = rp_last_transaction_id s"
    and "reg_pending reg = pend" and "reg_options reg = opts"
  shows "memory_matches cx s reg"
  using assms(1)
proof (cases rule: wal_log_pending)
  case (prepared pt off)
  from recover_pending_some [OF prepared(2,1)] assms(2) have "pend = Some (forget_acks pt)" by simp
  with assms prepared show ?thesis by (auto simp: memory_matches_def intro!: exI [of _ off])
qed (use assms in \<open>auto simp: memory_matches_def\<close>)

lemma memory_matches_pending:
  assumes "memory_matches cx s reg" and "recover_pending_transaction cx s (ro_max_tasks (reg_options reg)) 0 = Inr pend"
  shows "pend = map_option forget_acks (reg_pending reg)"
  using assms recover_pending_some [of cx "reg_options reg" s]
  by (cases "reg_pending reg") (auto simp: memory_matches_def)

lemma registry_reopen:
  assumes ok: "registry_ok cx V reg" and cx: "codec_ok cx" and "crash_image (reg_wal reg) bs"
    and json: "\<not> starts_with_json bs" and ids: "replica_ids_ok [] (map replica_id reps)"
  shows "\<exists>reg'. open_with_options cx replica_id open_all_ok True (reg_snapshot_file reg) (Some bs) reps (reg_options reg)
        = Inr reg'
    \<and> registry_ok cx {durable_view reg'} reg' \<and> durable_view reg' \<in> V
    \<and> (bs = wf_bytes (reg_wal reg) \<longrightarrow> reg_pending reg' = map_option forget_acks (reg_pending reg)
         \<and> same_durable_state reg reg')
    \<and> reg_replicas reg' = reps \<and> reg_options reg' = reg_options reg"
proof -
  let ?sha = "cx_sha cx" and ?opts = "reg_options reg"
  from ok obtain snap es s n where log: "registry_log cx snap es s n V reg" by (auto simp: registry_ok_def)
  note l = log [unfolded registry_log_def]
  then have wl: "wal_log cx ?opts snap es s" and snap: "snapshot_file_ok cx ?opts snap (reg_snapshot_file reg)"
    and img: "wf_bytes (reg_wal reg) = wal_image ?sha es" and m: "memory_matches cx s reg"
    and n: "n \<le> length es" "wf_synced (reg_wal reg) = length (wal_image ?sha (take n es))" by auto
  from assms(3) img obtain k where k: "wf_synced (reg_wal reg) \<le> k" "k \<le> length (wal_image ?sha es)"
    "bs = take k (wal_image ?sha es)" by (auto simp: crash_image_def)
  obtain lsnap where ls: "load_snapshot cx True (reg_snapshot_file reg) (ro_max_record_bytes ?opts) = Inr lsnap"
    "unwrap_or wal_snapshot_default lsnap = snap" using load_snapshot_ok [OF snap cx] by blast
  from replay_cut_log [OF wl cx snap ls(2) k(2) json [unfolded k(3)]]
  obtain j s' pend trunc tail where j: "wal_log cx ?opts snap (take j es) s'" "j \<le> length es"
    "\<forall>n \<le> length es. length (wal_image ?sha (take n es)) \<le> k \<longrightarrow> n \<le> j"
    "k = length (wal_image ?sha es) \<Longrightarrow> j = length es"
    "recover_pending_transaction cx s' (ro_max_tasks ?opts) 0 = Inr pend"
    "replay_wal cx bs lsnap ?opts = Inr \<lparr>rg_replayed = s', rg_pending = pend,
           rg_truncate_at = trunc, rg_recovered_tail_bytes = tail\<rparr>"
    "take (unwrap_or k trunc) bs = wal_image ?sha (take j es)" "unwrap_or k trunc \<le> k"
    unfolding k(3) by blast
  let ?w = "\<lparr>wf_bytes = wal_image ?sha (take j es), wf_synced = length (wal_image ?sha (take j es))\<rparr>"
  have w: "wal_open open_all_ok bs trunc = Inr ?w"
    using j(7,8) k by (cases trunc) (auto simp: wal_open_def open_all_ok_def wal_truncate_def Let_def min_def)
  define reg' where "reg' = \<lparr>reg_snapshot_file = reg_snapshot_file reg, reg_wal = ?w,
      reg_records = rp_records s', reg_versions = rp_versions s', reg_last_log_index = rp_last_log_index s',
      reg_last_transaction_id = rp_last_transaction_id s', reg_wal_transactions = rp_wal_transactions s',
      reg_recovered_tail_bytes = tail, reg_pending = pend, reg_last_report = None,
      reg_replicas = reps, reg_options = ?opts\<rparr>"
  have "options_validate ?opts = Inr ?opts" using l by (auto simp: options_validate_def split: if_splits)
  then have op: "open_with_options cx replica_id open_all_ok True (reg_snapshot_file reg) (Some bs) reps ?opts = Inr reg'"
    using ids ls(1) j(6) w
    by (simp add: open_with_options_def validate_replica_ids_def read_existing_def open_all_ok_def reg'_def)
  have "memory_matches cx s' reg'" by (rule memory_matches_recovered [OF j(1,5)]) (simp_all add: reg'_def)
  moreover have view: "replay_view s' = durable_view reg'" by (simp add: replay_view_def durable_view_def reg'_def)
  moreover have "\<forall>i s''. j \<le> i \<longrightarrow> wal_log cx ?opts snap (take i (take j es)) s'' \<longrightarrow> replay_view s'' \<in> {durable_view reg'}"
    using wal_log_unique [OF j(1) _ cx] view by (auto simp: take_all [of "take j es"])
  ultimately have "registry_log cx snap (take j es) s' j {durable_view reg'} reg'"
    unfolding registry_log_def using l snap j(1,2) by (simp add: reg'_def)
  then have ok': "registry_ok cx {durable_view reg'} reg'" by (auto simp: registry_ok_def)
  have "n \<le> j" using j(3) n k(1) by auto
  then have inV: "durable_view reg' \<in> V" using l j(1) view by metis
  have "s' = s \<and> pend = map_option forget_acks (reg_pending reg)" if "bs = wf_bytes (reg_wal reg)"
  proof -
    have "length (take k (wal_image ?sha es)) = length (wal_image ?sha es)" using that img k(3) by simp
    then have "j = length es" using j(4) k(2) by simp
    then have "s' = s" using wal_log_unique [OF wl _ cx] j(1) by simp
    with j(5) show ?thesis using memory_matches_pending [OF m] by simp
  qed
  with op ok' inV m show ?thesis
    by (intro exI [of _ reg'])
       (auto simp: reg'_def same_durable_state_def memory_matches_def)
qed

end
