(* ===== verification/Registry_Operations.thy ===== *)
theory Registry_Operations
  imports Registry_Recovery
begin

text \<open>
  Every operation of the persistent registry keeps the invariant of \<open>Registry_Recovery\<close>:
  preparing, replicating, committing, compacting, and the public operations built from
  them, whichever of their file accesses and replicas fail.
\<close>

section \<open>Changes the invariant does not see\<close>

lemma registry_log_cong:
  assumes "reg_options reg' = reg_options reg" "reg_snapshot_file reg' = reg_snapshot_file reg"
    "reg_wal reg' = reg_wal reg" "reg_records reg' = reg_records reg" "reg_versions reg' = reg_versions reg"
    "reg_last_log_index reg' = reg_last_log_index reg"
    "reg_last_transaction_id reg' = reg_last_transaction_id reg"
    "map_option forget_acks (reg_pending reg') = map_option forget_acks (reg_pending reg)"
  shows "registry_log cx snap es s n V reg' = registry_log cx snap es s n V reg"
proof -
  have "memory_matches cx s reg' = memory_matches cx s reg"
  proof (cases "reg_pending reg")
    case None
    with assms show ?thesis by (simp add: memory_matches_def)
  next
    case (Some pt)
    with assms(8) obtain pt' where "reg_pending reg' = Some pt'" "forget_acks pt' = forget_acks pt" by auto
    moreover from this have "prepared_valid cx opts s pt' = prepared_valid cx opts s pt"
      "prepared_map pt' off = prepared_map pt off" for opts off
      by (metis prepared_valid_forget(1), metis prepared_valid_forget(2))
    ultimately show ?thesis using assms Some by (simp add: memory_matches_def)
  qed
  then show ?thesis using assms by (simp add: registry_log_def)
qed

lemma registry_ok_cong:
  assumes "reg_options reg' = reg_options reg" "reg_snapshot_file reg' = reg_snapshot_file reg"
    "reg_wal reg' = reg_wal reg" "reg_records reg' = reg_records reg" "reg_versions reg' = reg_versions reg"
    "reg_last_log_index reg' = reg_last_log_index reg"
    "reg_last_transaction_id reg' = reg_last_transaction_id reg"
    "map_option forget_acks (reg_pending reg') = map_option forget_acks (reg_pending reg)"
  shows "registry_ok cx V reg' = registry_ok cx V reg"
  by (simp add: registry_ok_def registry_log_cong [OF assms])

lemma registry_ok_weaken: "registry_ok cx V reg \<Longrightarrow> V \<subseteq> V' \<Longrightarrow> registry_ok cx V' reg"
  unfolding registry_ok_def registry_log_def by (meson subsetD)

text \<open>
  The views a crash may bring back after an operation that left \<open>reg\<close>: only the current one
  when the log was written through, one more than before when it was not.
\<close>

definition views_after ::
  "bool \<Rightarrow> ('p, 'r, 'h, 'x) PersistentRegistry \<Rightarrow> ('p, 'r, 'h) durable_view set \<Rightarrow> ('p, 'r, 'h) durable_view set" where
  "views_after sync reg V = (if sync then {durable_view reg} else insert (durable_view reg) V)"

lemma views_after_subset: "views_after sync reg V \<subseteq> insert (durable_view reg) V"
  by (simp add: views_after_def subset_iff)

lemma views_after_cong: "durable_view a = durable_view b \<Longrightarrow> views_after sync a V = views_after sync b V"
  by (simp add: views_after_def)

lemma registry_log_view:
  assumes "registry_log cx snap es s n V reg"
  shows "durable_view reg \<in> V"
proof -
  have "wal_log cx (reg_options reg) snap (take (length es) es) s" "n \<le> length es" "memory_matches cx s reg"
    using assms by (simp_all add: registry_log_def)
  then show ?thesis using assms memory_matches_view unfolding registry_log_def by metis
qed

lemma registry_ok_view: "registry_ok cx V reg \<Longrightarrow> durable_view reg \<in> V"
  using registry_log_view by (auto simp: registry_ok_def)

lemma registry_ok_append:
  assumes "registry_log cx snap es s n V reg" and "codec_ok cx"
    and wl: "wal_log cx (reg_options reg) snap (es @ [e]) s'" and m: "memory_matches cx s' reg'"
    and "wf_bytes (reg_wal reg') = wf_bytes (reg_wal reg) @ frame_of (cx_sha cx) e"
    and "wf_synced (reg_wal reg') = (if sync then length (wf_bytes (reg_wal reg')) else wf_synced (reg_wal reg))"
    and "reg_options reg' = reg_options reg" "reg_snapshot_file reg' = reg_snapshot_file reg"
  shows "registry_ok cx (views_after sync reg' V) reg'"
proof -
  let ?n = "if sync then Suc (length es) else n"
  have "replay_view u \<in> views_after sync reg' V" if "?n \<le> j" "wal_log cx (reg_options reg) snap (take j (es @ [e])) u" for j u
  proof (cases "j \<le> length es")
    case True
    with that assms(1) show ?thesis by (auto simp: registry_log_def views_after_def split: if_splits)
  next
    case False
    then have "u = s'" using that(2) wal_log_unique [OF wl _ assms(2)] by simp
    then show ?thesis using memory_matches_view [OF m] by (simp add: views_after_def)
  qed
  then have "registry_log cx snap (es @ [e]) s' ?n (views_after sync reg' V) reg'"
    using assms unfolding registry_log_def by auto
  then show ?thesis unfolding registry_ok_def by blast
qed

section \<open>Prepare\<close>

lemma prepared_valid_new:
  assumes cx: "codec_ok cx"
    and pm: "prepare_mutation (rp_records s) mutation (ro_max_tasks opts) = Inr r"
    and mb: "to_vec (cx_mutation cx) mutation = Some mutation_bytes"
    and np: "new_prepared cx (rp_last_transaction_id s) (rp_last_log_index s) mutation mutation_bytes
               (version_of (rp_versions s) (mutation_task_id mutation)) = Inr prepared"
    and nt: "new_pending cx (ro_max_record_bytes opts) prepared r = Inr pt"
  shows "prepared_valid cx opts s pt"
proof -
  note f = new_pending_fields [OF nt]
  from np have p: "pp_log_index prepared = sat_add (rp_last_log_index s) 1"
    "rp_last_log_index s < pp_log_index prepared"
    "pp_new_version prepared = sat_add (pp_previous_version prepared) 1"
    "pp_previous_version prepared = version_of (rp_versions s) (pp_task_id prepared)"
    "pp_previous_transaction_id prepared = rp_last_transaction_id s" "pp_mutation prepared = mutation"
    "pp_task_id prepared = mutation_task_id mutation"
    "pp_transaction_id prepared = transaction_id (cx_sha cx) (rp_last_transaction_id s)
       (pp_log_index prepared) (pp_previous_version prepared) mutation_bytes"
    by (auto simp: new_prepared_def bind_result_Inr dest: checked_add_one)
  have "prepared_follows prepared (rp_last_transaction_id s) (rp_last_log_index s) (rp_versions s)"
    using p by (simp add: prepared_follows_def)
  moreover have "transaction_id_for_prepared cx prepared = Inr (pp_transaction_id prepared)"
    using p mb by (simp add: transaction_id_for_prepared_def)
  moreover have "from_slice (cx_prepared cx) (mt_prepare_payload (pt_metadata pt)) = Some prepared"
    "length (pp_transaction_id prepared) \<le> length (mt_prepare_payload (pt_metadata pt))"
    using f(8) cx by (auto simp: codec_ok_def dest: serde_okD)
  moreover have "ascii (pp_transaction_id prepared)" using p(8) by (simp add: transaction_id_def)
  ultimately show ?thesis
    using p(2,6,7) f pm nt by (auto simp: prepared_valid_def transaction_wf_def)
qed

text \<open>
  After \<open>prepare_pending_transaction\<close> the log holds the prepared transaction that it
  returned; when it refuses, nothing changed.
\<close>

lemma prepare_pending_ok:
  assumes ok: "registry_ok cx V reg" and cx: "codec_ok cx" and rb: "aio_rollback io"
    and pm: "prepare_mutation (reg_records reg) mutation (ro_max_tasks (reg_options reg)) = Inr r"
    and mb: "to_vec (cx_mutation cx) mutation = Some mutation_bytes"
    and pp: "prepare_pending_transaction cx io reg mutation mutation_bytes r
               (version_of (reg_versions reg) (mutation_task_id mutation)) sync = (res, reg')"
  shows "case res of
      Inl e \<Rightarrow> reg' = reg
    | Inr pt \<Rightarrow> registry_ok cx V (reg'\<lparr>reg_pending := Some pt\<rparr>) \<and> reg_pending reg' = None
        \<and> pp_mutation (pt_prepared pt) = mutation"
proof (cases "reg_pending reg")
  case (Some existing)
  with pp consider e where "res = Inl e" "reg' = reg"
    | "res = Inr existing" "reg' = reg\<lparr>reg_pending := None\<rparr>" "pp_mutation (pt_prepared existing) = mutation"
    by (auto simp: prepare_pending_transaction_def split: if_splits)
  moreover have "reg\<lparr>reg_pending := Some existing\<rparr> = reg" using Some by simp
  ultimately show ?thesis using ok by cases auto
next
  case None
  from ok obtain snap es s n where log: "registry_log cx snap es s n V reg" by (auto simp: registry_ok_def)
  then have wl: "wal_log cx (reg_options reg) snap es s" and m: "memory_matches cx s reg"
    by (auto simp: registry_log_def)
  show ?thesis
  proof (cases res)
    case (Inl e)
    then have "reg' = reg"
      using pp None rb
      by (auto simp: prepare_pending_transaction_def wal_append_def Let_def split: sum.splits prod.splits if_splits option.splits)
    then show ?thesis using Inl by simp
  next
    case (Inr pt)
    from pp None Inr obtain prepared w where np: "new_prepared cx (reg_last_transaction_id reg)
        (reg_last_log_index reg) mutation mutation_bytes
        (version_of (reg_versions reg) (mutation_task_id mutation)) = Inr prepared"
      "new_pending cx (ro_max_record_bytes (reg_options reg)) prepared r = Inr pt"
      "wal_append io (mt_prepare_frame (pt_metadata pt)) sync (reg_wal reg) = (Inr (), w)"
      "reg' = reg\<lparr>reg_wal := w\<rparr>"
      by (auto simp: prepare_pending_transaction_def bind_result_Inr split: sum.splits prod.splits)
    have v: "prepared_valid cx (reg_options reg) s pt"
      using prepared_valid_new [OF cx, where s = s] m np(1,2) pm mb by (simp add: memory_matches_def)
    have pend: "rp_pending s = fmempty" using m None by (simp add: memory_matches_def)
    have fr: "frame_of (cx_sha cx) (prepare_entry (pt_metadata pt)) = mt_prepare_frame (pt_metadata pt)"
      using prepared_valid_frames(1) [OF v cx] .
    have w: "wf_bytes w = wf_bytes (reg_wal reg) @ mt_prepare_frame (pt_metadata pt)"
      "wf_synced w = (if sync then length (wf_bytes w) else wf_synced (reg_wal reg))"
      using np(3) rb by (auto elim: wal_append_cases)
    let ?reg = "reg'\<lparr>reg_pending := Some pt\<rparr>"
    let ?s = "s\<lparr>rp_pending := prepared_map pt (length (wal_image (cx_sha cx) es))\<rparr>"
    have "memory_matches cx ?s ?reg" using m v np(4) by (auto simp: memory_matches_def)
    from registry_ok_append [OF log cx wal_log.prepare [OF wl pend v] this, of sync]
    have "registry_ok cx (views_after sync ?reg V) ?reg"
      using w fr np(4) by simp
    moreover have "durable_view ?reg \<in> V" using registry_log_view [OF log] np(4) by (simp add: durable_view_def)
    ultimately have "registry_ok cx V ?reg"
      using views_after_subset [of sync ?reg V] by (auto intro: registry_ok_weaken)
    moreover have "pp_mutation prepared = mutation"
      using np(1) by (auto simp: new_prepared_def bind_result_Inr)
    ultimately show ?thesis using Inr None np(4) new_pending_fields(1) [OF np(2)] by simp
  qed
qed

section \<open>Replicate, commit, compact\<close>

lemma replicate_forget_acks:
  "replicate_transaction rid cmt env n xs pt required sync = (pt', xs') \<Longrightarrow> forget_acks pt' = forget_acks pt"
proof (induction xs arbitrary: n pt pt' xs')
  case (Cons x xs)
  then show ?case
    by (auto simp: Let_def forget_acks_def split: if_splits prod.splits sum.splits; fastforce)
qed simp

lemma apply_committed_ok:
  assumes ok: "registry_ok cx V reg" and cx: "codec_ok cx" and pend: "reg_pending reg = Some pt"
    and rb: "aio_rollback io"
    and ap: "wal_append io (mt_commit_frame (pt_metadata pt)) sync (reg_wal reg) = (Inr u, w)"
  shows "registry_ok cx (views_after sync (apply_committed pt reg) V)
           (apply_committed pt (reg\<lparr>reg_wal := w, reg_pending := None\<rparr>))"
proof -
  from ok obtain snap es s n where log: "registry_log cx snap es s n V reg" by (auto simp: registry_ok_def)
  then have wl: "wal_log cx (reg_options reg) snap es s" and m: "memory_matches cx s reg"
    by (auto simp: registry_log_def)
  from m pend obtain off where off: "rp_pending s = prepared_map pt off"
    and v: "prepared_valid cx (reg_options reg) s pt" by (auto simp: memory_matches_def)
  note md = prepared_valid_metadata [OF v]
  let ?reg = "apply_committed pt (reg\<lparr>reg_wal := w, reg_pending := None\<rparr>)"
  have fr: "frame_of (cx_sha cx) (commit_entry (pt_metadata pt)) = mt_commit_frame (pt_metadata pt)"
    using prepared_valid_frames(2) [OF v cx] .
  have w: "wf_bytes w = wf_bytes (reg_wal reg) @ mt_commit_frame (pt_metadata pt)"
    "wf_synced w = (if sync then length (wf_bytes w) else wf_synced (reg_wal reg))"
    using ap rb by (auto elim: wal_append_cases)
  have "memory_matches cx (committed_state pt s) ?reg"
    using m md by (simp add: memory_matches_def committed_state_def apply_committed_def)
  from registry_ok_append [OF log cx wal_log.commit [OF wl off v] this, of sync]
  have "registry_ok cx (views_after sync ?reg V) ?reg"
    using w fr by (simp add: apply_committed_def)
  moreover have "durable_view ?reg = durable_view (apply_committed pt reg)"
    by (simp add: apply_committed_def durable_view_def)
  ultimately show ?thesis by (metis views_after_cong)
qed

lemma wal_log_all_included:
  assumes "\<forall>e \<in> set es. we_kind e \<noteq> Snapshot \<and> we_index e \<le> rs_last_included snap
      \<and> entry_ok (ro_max_record_bytes opts) e"
  shows "wal_log cx opts snap es (replay_start snap)"
  using assms by (induction es rule: rev_induct) (auto intro: wal_log.intros)

text \<open>
  Once the snapshot is in place every entry of the old log is skipped, so the invariant holds
  with the old log as well as with the empty one.
\<close>

lemma compact_installed_ok:
  assumes ok: "registry_ok cx V reg" and cx: "codec_ok cx" and pend: "reg_pending reg = None"
    and ps: "persist_snapshot cx sio (current_snapshot reg) (ro_max_record_bytes (reg_options reg))
               (reg_snapshot_file reg) = (res, file)" and changed: "\<not> isl res \<or> file \<noteq> reg_snapshot_file reg"
    and w: "w = reg_wal reg \<or> w = \<lparr>wf_bytes = [], wf_synced = 0\<rparr>"
  shows "registry_ok cx {durable_view reg} (reg\<lparr>reg_snapshot_file := file, reg_wal := w\<rparr>)"
proof -
  let ?snap = "current_snapshot reg"
  from ok obtain snap es s n where log: "registry_log cx snap es s n V reg" by (auto simp: registry_ok_def)
  then have wl: "wal_log cx (reg_options reg) snap es s" and m: "memory_matches cx s reg"
    and sf: "snapshot_file_ok cx (reg_options reg) snap (reg_snapshot_file reg)"
    by (auto simp: registry_log_def)
  have len: "bt_len (reg_records reg) \<le> ro_max_tasks (reg_options reg)"
    using wal_log_len [OF wl] sf m by (simp add: snapshot_file_ok_def memory_matches_def)
  have snapf: "snapshot_file_ok cx (reg_options reg) ?snap file"
    using ps changed len
    by (auto simp: persist_snapshot_def snapshot_file_ok_def current_snapshot_def Let_def
        split: option.splits if_splits sum.splits)
  have inc: "\<forall>e \<in> set es. we_kind e \<noteq> Snapshot \<and> we_index e \<le> rs_last_included ?snap
      \<and> entry_ok (ro_max_record_bytes (reg_options reg)) e"
    using wal_log_entry_index [OF wl] wal_log_entries_ok [OF wl cx] m pend
    by (auto simp: current_snapshot_def memory_matches_def)
  have match: "memory_matches cx (replay_start ?snap) (reg\<lparr>reg_snapshot_file := file, reg_wal := w\<rparr>)"
    using pend by (simp add: memory_matches_def replay_start_def current_snapshot_def)
  have included: "wal_log cx (reg_options reg) ?snap (take i es') (replay_start ?snap)"
    if "es' = es \<or> es' = []" for i es'
    using inc that by (intro wal_log_all_included) (auto dest: in_set_takeD)
  have view: "u = replay_start ?snap" if "wal_log cx (reg_options reg) ?snap (take i es') u" "es' = es \<or> es' = []" for i es' u
    using wal_log_unique [OF that(1) included [OF that(2)] cx] .
  have "replay_view (replay_start ?snap) = durable_view reg"
    by (simp add: replay_view_def replay_start_def current_snapshot_def durable_view_def)
  then have cut: "replay_view u \<in> {durable_view reg}"
    if "wal_log cx (reg_options reg) ?snap (take i es') u" "es' = es \<or> es' = []" for i es' u
    using view [OF that] by simp
  have l: "\<not> isl (options_validate (reg_options reg))" "wf_bytes (reg_wal reg) = wal_image (cx_sha cx) es"
    "n \<le> length es" "wf_synced (reg_wal reg) = length (wal_image (cx_sha cx) (take n es))"
    using log by (simp_all add: registry_log_def)
  show ?thesis
  proof (cases "w = reg_wal reg")
    case True
    then have "registry_log cx ?snap es (replay_start ?snap) n {durable_view reg} (reg\<lparr>reg_snapshot_file := file, reg_wal := w\<rparr>)"
      unfolding registry_log_def using l snapf match included [of es "length es"] cut by simp
    then show ?thesis unfolding registry_ok_def by blast
  next
    case False
    then have "registry_log cx ?snap [] (replay_start ?snap) 0 {durable_view reg} (reg\<lparr>reg_snapshot_file := file, reg_wal := w\<rparr>)"
      unfolding registry_log_def using l(1) w snapf match included [of "[]" 0] cut [where es' = "[]"] by simp
    then show ?thesis unfolding registry_ok_def by blast
  qed
qed

lemma compact_locked_frame:
  assumes "compact_locked cx sio tio reg = (res, reg')"
  shows "same_durable_state reg reg'" and "reg_pending reg' = reg_pending reg"
    and "reg_options reg' = reg_options reg" and "reg_replicas reg' = reg_replicas reg"
  using assms by (auto simp: compact_locked_def same_durable_state_def split: sum.splits prod.splits)

lemma compact_locked_ok:
  assumes ok: "registry_ok cx V reg" and cx: "codec_ok cx" and pend: "reg_pending reg = None"
    and cl: "compact_locked cx sio tio reg = (res, reg')"
  shows "registry_ok cx V reg'"
proof -
  obtain r "file" where ps: "persist_snapshot cx sio (current_snapshot reg)
      (ro_max_record_bytes (reg_options reg)) (reg_snapshot_file reg) = (r, file)" by fastforce
  obtain rt w where tr: "wal_truncate tio 0 (reg_wal reg) = (rt, w)" by fastforce
  have w: "w = reg_wal reg \<or> w = \<lparr>wf_bytes = [], wf_synced = 0\<rparr>"
    using tr by (auto simp: wal_truncate_def Let_def set_len_def split: if_splits)
  have le: "{durable_view reg} \<subseteq> V" using registry_ok_view [OF ok] by simp
  have installed: "registry_ok cx V (reg\<lparr>reg_snapshot_file := file, reg_wal := w'\<rparr>)"
    if "\<not> isl r \<or> file \<noteq> reg_snapshot_file reg" "w' = reg_wal reg \<or> w' = \<lparr>wf_bytes = [], wf_synced = 0\<rparr>" for w'
    using compact_installed_ok [OF ok cx pend ps that] le by (rule registry_ok_weaken)
  have run: "(case r of Inl e \<Rightarrow> (Inl e, reg\<lparr>reg_snapshot_file := file\<rparr>)
      | Inr _ \<Rightarrow> (case rt of Inl e \<Rightarrow> (Inl e, reg\<lparr>reg_snapshot_file := file, reg_wal := w\<rparr>)
          | Inr _ \<Rightarrow> (Inr (), reg\<lparr>reg_snapshot_file := file, reg_wal := w, reg_wal_transactions := 0\<rparr>))) = (res, reg')"
    using cl by (simp only: compact_locked_def ps tr prod.case)
  have "isl r \<and> reg' = reg\<lparr>reg_snapshot_file := file\<rparr>
      \<or> \<not> isl r \<and> (reg' = reg\<lparr>reg_snapshot_file := file, reg_wal := w\<rparr>
                 \<or> reg' = reg\<lparr>reg_snapshot_file := file, reg_wal := w, reg_wal_transactions := 0\<rparr>)"
    using run by (cases r; cases rt) auto
  then consider "isl r" "reg' = reg\<lparr>reg_snapshot_file := file\<rparr>"
    | "\<not> isl r" "reg' = reg\<lparr>reg_snapshot_file := file, reg_wal := w\<rparr>"
    | "\<not> isl r" "reg' = reg\<lparr>reg_snapshot_file := file, reg_wal := w, reg_wal_transactions := 0\<rparr>" by blast
  then show "registry_ok cx V reg'"
  proof cases
    case 1
    then show ?thesis
      using ok installed [of "reg_wal reg"] by (cases "file = reg_snapshot_file reg") simp_all
  next
    case 2
    then show ?thesis using installed [of w] w by simp
  next
    case 3
    have "registry_ok cx V reg' = registry_ok cx V (reg\<lparr>reg_snapshot_file := file, reg_wal := w\<rparr>)"
      by (rule registry_ok_cong) (simp_all add: 3)
    with installed [of w] w 3(1) show ?thesis by blast
  qed
qed

section \<open>Transactions\<close>

lemma finish_transaction_cases:
  assumes "finish_transaction cx io acks pt reg = (res, reg')"
  obtains reg2 rep where
    "reg2 = apply_committed pt reg
     \<or> reg2 = snd (compact_locked cx (rio_snapshot io) (rio_truncate io) (apply_committed pt reg))"
    "reg' = reg2 \<or> reg' = reg2\<lparr>reg_last_report := rep, reg_pending := None\<rparr>"
    "\<And>proof. res = Inr proof \<Longrightarrow> proof = \<lparr>cp_transaction_id = mt_transaction_id (pt_metadata pt),
       cp_log_index = mt_log_index (pt_metadata pt), cp_replica_commits = bt_values (pt_proofs pt)\<rparr>"
  using assms
  by (fastforce simp: finish_transaction_def Let_def split: sum.splits prod.splits if_splits)

lemma finish_transaction_frame:
  assumes "finish_transaction cx io acks pt reg = (res, reg')" and "reg_pending reg = None"
  shows "same_durable_state (apply_committed pt reg) reg'" and "reg_pending reg' = None"
    and "reg_options reg' = reg_options reg" and "reg_replicas reg' = reg_replicas reg"
proof -
  let ?reg = "apply_committed pt reg"
  have a: "reg_pending ?reg = None" "reg_options ?reg = reg_options reg" "reg_replicas ?reg = reg_replicas reg"
    using assms(2) by (simp_all add: apply_committed_def)
  obtain rc regc where cl: "compact_locked cx (rio_snapshot io) (rio_truncate io) ?reg = (rc, regc)" by fastforce
  note c = compact_locked_frame [OF cl]
  show "same_durable_state ?reg reg'" "reg_pending reg' = None" "reg_options reg' = reg_options reg"
    "reg_replicas reg' = reg_replicas reg"
    using a c cl by (rule_tac finish_transaction_cases [OF assms(1)]; auto simp: same_durable_state_def)+
qed

lemma finish_transaction_ok:
  assumes ok: "registry_ok cx V (apply_committed pt reg)" and cx: "codec_ok cx" and pend: "reg_pending reg = None"
    and ft: "finish_transaction cx io acks pt reg = (res, reg')"
  shows "registry_ok cx V reg'"
proof -
  let ?reg = "apply_committed pt reg"
  have p: "reg_pending ?reg = None" using pend by (simp add: apply_committed_def)
  obtain rc regc where cl: "compact_locked cx (rio_snapshot io) (rio_truncate io) ?reg = (rc, regc)" by fastforce
  note c = compact_locked_ok [OF ok cx p cl] compact_locked_frame(2) [OF cl]
  from ft obtain reg2 rep where "registry_ok cx V reg2" "reg_pending reg2 = None"
    and r': "reg' = reg2 \<or> reg' = reg2\<lparr>reg_last_report := rep, reg_pending := None\<rparr>"
    using c p ok cl by (rule_tac finish_transaction_cases [OF ft]) auto
  then have "registry_ok cx V reg' = registry_ok cx V reg2" by (intro registry_ok_cong) auto
  with \<open>registry_ok cx V reg2\<close> show ?thesis by simp
qed

lemma forget_acks_prepared:
  "pt_prepared (forget_acks pt) = pt_prepared pt" "pt_resulting_record (forget_acks pt) = pt_resulting_record pt"
  by (simp_all add: forget_acks_def)

lemma commit_pending_ok:
  assumes ok: "registry_ok cx V (reg\<lparr>reg_pending := Some pt\<rparr>)" and pend: "reg_pending reg = None"
    and cx: "codec_ok cx" and rb: "aio_rollback (rio_commit io)"
    and cp: "commit_pending cx rid cmt io pt required sync reg = (res, reg')"
  shows "registry_ok cx (views_after (\<not> isl res \<and> sync) reg' V) reg' \<and>
      same_durable_state (if reg_pending reg' = None then apply_committed pt reg else reg) reg' \<and>
      (isl res \<or> reg_pending reg' = None) \<and>
      (\<forall>pt'. reg_pending reg' = Some pt' \<longrightarrow> forget_acks pt' = forget_acks pt)"
proof -
  obtain pt1 reps where rt: "replicate_transaction rid cmt (rio_replica io) 0 (reg_replicas reg) pt
      (required - 1) sync = (pt1, reps)" by fastforce
  note fa = replicate_forget_acks [OF rt]
  then have same: "pt_metadata pt1 = pt_metadata pt" "pt_prepared pt1 = pt_prepared pt"
    "pt_resulting_record pt1 = pt_resulting_record pt"
    by (metis prepared_valid_forget(3), (metis forget_acks_prepared)+)
  let ?reg = "reg\<lparr>reg_replicas := reps\<rparr>"
  have ok1: "registry_ok cx V (?reg\<lparr>reg_pending := Some pt1\<rparr>)"
    using ok registry_ok_cong [of "?reg\<lparr>reg_pending := Some pt1\<rparr>" "reg\<lparr>reg_pending := Some pt\<rparr>" cx V] fa by simp
  have un: "registry_ok cx V (?reg\<lparr>reg_last_report := rep, reg_pending := Some pt1\<rparr>)" for rep
    using ok1 registry_ok_cong [of "?reg\<lparr>reg_last_report := rep, reg_pending := Some pt1\<rparr>"
        "?reg\<lparr>reg_pending := Some pt1\<rparr>" cx V] by simp
  obtain ra w where ap: "wal_append (rio_commit io) (mt_commit_frame (pt_metadata pt1)) sync (reg_wal reg) = (ra, w)"
    by fastforce
  consider (short) e rep where "res = Inl e" "reg' = ?reg\<lparr>reg_last_report := rep, reg_pending := Some pt1\<rparr>"
    | (finished) "ra = Inr ()" "finish_transaction cx io (required - 1) pt1 (?reg\<lparr>reg_wal := w\<rparr>) = (res, reg')"
    using cp rt ap rb
    by (auto simp: commit_pending_def Let_def wal_append_def split: if_splits sum.splits option.splits)
  then show ?thesis
  proof cases
    case short
    then show ?thesis
      using un fa registry_ok_view [OF ok]
      by (simp add: same_durable_state_def durable_view_def views_after_def insert_absorb)
  next
    case finished
    let ?c = "?reg\<lparr>reg_wal := w\<rparr>"
    have eq: "?reg\<lparr>reg_pending := Some pt1, reg_wal := w, reg_pending := None\<rparr> = ?c" using pend by simp
    have "registry_ok cx (views_after sync (apply_committed pt1 (?reg\<lparr>reg_pending := Some pt1\<rparr>)) V) (apply_committed pt1 ?c)"
      using apply_committed_ok [OF ok1 cx _ rb, of pt1 sync "()" w] ap finished(1) eq by simp
    note f = finish_transaction_ok [OF this(1) cx _ finished(2)] and fr = finish_transaction_frame [OF finished(2)]
    have sd: "same_durable_state (apply_committed pt reg) reg'"
      using fr(1) pend same by (simp add: same_durable_state_def apply_committed_def)
    then have "durable_view (apply_committed pt1 (?reg\<lparr>reg_pending := Some pt1\<rparr>)) = durable_view reg'"
      using same by (simp add: same_durable_state_view durable_view_def apply_committed_def)
    from views_after_cong [OF this] f pend have "registry_ok cx (views_after sync reg' V) reg'" by simp
    then have "registry_ok cx (views_after (\<not> isl res \<and> sync) reg' V) reg'"
      by (rule registry_ok_weaken) (auto simp: views_after_def)
    with sd fr(2) pend show ?thesis
      by simp
  qed
qed

lemma registry_ok_pending:
  assumes "registry_ok cx V reg" and "reg_pending reg = Some pt"
  shows "prepare_mutation (reg_records reg) (pp_mutation (pt_prepared pt)) (ro_max_tasks (reg_options reg))
           = Inr (pt_resulting_record pt)"
    and "pp_task_id (pt_prepared pt) = mutation_task_id (pp_mutation (pt_prepared pt))"
    and "pp_new_version (pt_prepared pt) = sat_add (version_of (reg_versions reg) (pp_task_id (pt_prepared pt))) 1"
    and "mt_log_index (pt_metadata pt) = sat_add (reg_last_log_index reg) 1"
    and "reg_last_log_index reg < mt_log_index (pt_metadata pt)"
    and "transaction_wf cx (ro_max_record_bytes (reg_options reg)) (pt_metadata pt)"
proof -
  from assms obtain s where s: "rp_records s = reg_records reg" "rp_versions s = reg_versions reg"
      "rp_last_log_index s = reg_last_log_index reg" and v: "prepared_valid cx (reg_options reg) s pt"
    by (auto simp: registry_ok_def registry_log_def memory_matches_def)
  from v s prepared_valid_metadata(1) [OF v] show
    "prepare_mutation (reg_records reg) (pp_mutation (pt_prepared pt)) (ro_max_tasks (reg_options reg))
           = Inr (pt_resulting_record pt)"
    "pp_task_id (pt_prepared pt) = mutation_task_id (pp_mutation (pt_prepared pt))"
    "pp_new_version (pt_prepared pt) = sat_add (version_of (reg_versions reg) (pp_task_id (pt_prepared pt))) 1"
    "mt_log_index (pt_metadata pt) = sat_add (reg_last_log_index reg) 1"
    "reg_last_log_index reg < mt_log_index (pt_metadata pt)"
    "transaction_wf cx (ro_max_record_bytes (reg_options reg)) (pt_metadata pt)"
    by (auto simp: prepared_valid_def prepared_follows_def)
qed

lemma prepare_pending_frame:
  assumes "prepare_pending_transaction cx io reg mutation mb r v sync = (res, reg')"
  shows "same_durable_state reg reg'" and "reg_options reg' = reg_options reg"
    and "reg_replicas reg' = reg_replicas reg"
  using assms
  by (auto simp: prepare_pending_transaction_def same_durable_state_def split: option.splits if_splits sum.splits prod.splits)

text \<open>The durable effect of one committed mutation.\<close>

definition mutation_committed ::
  "('p, 'r, 'h) RegistryMutation \<Rightarrow> ('p, 'r, 'h, 'x) PersistentRegistry \<Rightarrow> ('p, 'r, 'h, 'x) PersistentRegistry \<Rightarrow> bool"
where
  "mutation_committed m reg reg' \<longleftrightarrow>
     (\<exists>r. prepare_mutation (reg_records reg) m (ro_max_tasks (reg_options reg)) = Inr r
        \<and> reg_records reg' = fmupd (mutation_task_id m) r (reg_records reg))
     \<and> reg_versions reg' = fmupd (mutation_task_id m)
          (sat_add (version_of (reg_versions reg) (mutation_task_id m)) 1) (reg_versions reg)
     \<and> reg_last_log_index reg' = sat_add (reg_last_log_index reg) 1
     \<and> reg_last_log_index reg < reg_last_log_index reg'
     \<and> reg_pending reg' = None"

definition rio_ok :: "'env registry_io \<Rightarrow> bool" where
  "rio_ok io \<longleftrightarrow> aio_rollback (rio_prepare io) \<and> aio_rollback (rio_commit io)"

lemma transact_locked_split:
  assumes "transact_locked cx rid cmt io reg m required sync = (res, reg')"
  obtains (refused) e where "res = Inl e" "reg' = reg"
  | (prepare) r mb rp reg1 where
      "prepare_mutation (reg_records reg) m (ro_max_tasks (reg_options reg)) = Inr r"
      "to_vec (cx_mutation cx) m = Some mb"
      "prepare_pending_transaction cx (rio_prepare io) reg m mb r
         (version_of (reg_versions reg) (mutation_task_id m)) sync = (rp, reg1)"
      "case rp of Inl e \<Rightarrow> res = Inl e \<and> reg' = reg1
       | Inr pt \<Rightarrow> commit_pending cx rid cmt io pt required sync reg1 = (res, reg')"
  using assms
  by (auto simp: transact_locked_def Let_def split: sum.splits option.splits if_splits prod.splits)

lemma transact_locked_ok:
  assumes ok: "registry_ok cx V reg" and cx: "codec_ok cx" and io: "rio_ok io"
    and tl: "transact_locked cx rid cmt io reg m required sync = (res, reg')"
  shows "registry_ok cx (views_after (\<not> isl res \<and> sync) reg' V) reg' \<and>
      (isl res \<and> same_durable_state reg reg' \<or> mutation_committed m reg reg')"
  using tl
proof (cases rule: transact_locked_split)
  case (refused e)
  then show ?thesis using ok registry_ok_view [OF ok] by (simp add: same_durable_state_def views_after_def insert_absorb)
next
  case (prepare r mb rp reg1)
  have rb: "aio_rollback (rio_prepare io)" "aio_rollback (rio_commit io)" using io by (simp_all add: rio_ok_def)
  note pp = prepare_pending_ok [OF ok cx rb(1) prepare(1,2,3)] and fr = prepare_pending_frame [OF prepare(3)]
  show ?thesis
  proof (cases rp)
    case (Inl e)
    then show ?thesis using pp prepare(4) ok registry_ok_view [OF ok]
      by (simp add: same_durable_state_def views_after_def insert_absorb)
  next
    case (Inr pt)
    with pp have ok1: "registry_ok cx V (reg1\<lparr>reg_pending := Some pt\<rparr>)" "reg_pending reg1 = None"
      and mut: "pp_mutation (pt_prepared pt) = m" by simp_all
    have cp: "commit_pending cx rid cmt io pt required sync reg1 = (res, reg')" using prepare(4) Inr by simp
    note c = commit_pending_ok [OF ok1 cx rb(2) cp]
    have eq: "reg_records reg1 = reg_records reg" "reg_versions reg1 = reg_versions reg"
      "reg_last_log_index reg1 = reg_last_log_index reg" "reg_options reg1 = reg_options reg"
      using fr by (simp_all add: same_durable_state_def)
    have rp: "prepare_mutation (reg_records reg) m (ro_max_tasks (reg_options reg)) = Inr (pt_resulting_record pt)"
      "pp_task_id (pt_prepared pt) = mutation_task_id m"
      "pp_new_version (pt_prepared pt) = sat_add (version_of (reg_versions reg) (mutation_task_id m)) 1"
      "mt_log_index (pt_metadata pt) = sat_add (reg_last_log_index reg) 1"
      "reg_last_log_index reg < mt_log_index (pt_metadata pt)"
      using registry_ok_pending [OF ok1(1), of pt] by (simp_all add: eq mut)
    have "mutation_committed m reg reg'" if "reg_pending reg' = None"
    proof -
      have "same_durable_state (apply_committed pt reg1) reg'" using c that by simp
      then have "reg_records reg' = fmupd (mutation_task_id m) (pt_resulting_record pt) (reg_records reg)"
        "reg_versions reg' = fmupd (mutation_task_id m) (pp_new_version (pt_prepared pt)) (reg_versions reg)"
        "reg_last_log_index reg' = mt_log_index (pt_metadata pt)"
        by (simp_all add: same_durable_state_def apply_committed_def eq rp(2))
      then show ?thesis using rp that unfolding mutation_committed_def by metis
    qed
    moreover have "same_durable_state reg reg'" if "reg_pending reg' \<noteq> None"
    proof -
      have "same_durable_state reg1 reg'" using c that by simp
      then show ?thesis using fr(1) by (simp add: same_durable_state_def)
    qed
    ultimately show ?thesis using c by (cases "reg_pending reg' = None") auto
  qed
qed


end
