(* ===== verification/Registry_Replication.thy ===== *)
theory Registry_Replication
  imports Registry_Operations
begin

text \<open>
  What an acknowledged transaction means on the replicas: the client lemmas of the interface
  \<open>metadata_replica\<close>, proved once for any replica and used on the file replica.
\<close>

definition proof_of :: "string \<Rightarrow> MetadataTransaction \<Rightarrow> MetadataCommitProof" where
  "proof_of k tx = \<lparr>mcp_replica_id = k, mcp_transaction_id = mt_transaction_id tx, mcp_log_index = mt_log_index tx\<rparr>"

definition proofs_held ::
  "('x \<Rightarrow> string) \<Rightarrow> ('x \<Rightarrow> u64 \<Rightarrow> string \<Rightarrow> bool) \<Rightarrow> ('p, 'r, 'h) PendingTransaction \<Rightarrow> 'x list \<Rightarrow> bool" where
  "proofs_held rid holds pt xs \<longleftrightarrow>
     (\<forall>k p. fmlookup (pt_proofs pt) k = Some p \<longrightarrow>
        p = proof_of k (pt_metadata pt)
        \<and> (\<exists>x \<in> set xs. rid x = k \<and> holds x (mt_log_index (pt_metadata pt)) (mt_transaction_id (pt_metadata pt))))"

definition pending_held ::
  "('x \<Rightarrow> string) \<Rightarrow> ('x \<Rightarrow> u64 \<Rightarrow> string \<Rightarrow> bool) \<Rightarrow> ('p, 'r, 'h, 'x) PersistentRegistry \<Rightarrow> bool" where
  "pending_held rid holds reg \<longleftrightarrow>
     (\<forall>pt. reg_pending reg = Some pt \<longrightarrow> proofs_held rid holds pt (reg_replicas reg))"

definition replicas_kept ::
  "('x \<Rightarrow> string) \<Rightarrow> ('x \<Rightarrow> u64 \<Rightarrow> string \<Rightarrow> bool) \<Rightarrow> 'x list \<Rightarrow> 'x list \<Rightarrow> bool" where
  "replicas_kept rid holds = list_all2 (\<lambda>x y. rid y = rid x \<and> (\<forall>i t. holds x i t \<longrightarrow> holds y i t))"

lemma replicas_kept_refl [simp]: "replicas_kept rid holds xs xs"
  by (simp add: replicas_kept_def list_all2_refl)

lemma replicas_kept_held:
  assumes "replicas_kept rid holds xs ys" and "x \<in> set xs" and "holds x i t"
  shows "\<exists>y \<in> set ys. rid y = rid x \<and> holds y i t"
  using assms unfolding replicas_kept_def by (induction rule: list_all2_induct) auto

lemma replicas_kept_ids: "replicas_kept rid holds xs ys \<Longrightarrow> map rid ys = map rid xs"
  unfolding replicas_kept_def by (induction rule: list_all2_induct) auto

lemma proofs_held_kept:
  "proofs_held rid holds pt xs \<Longrightarrow> replicas_kept rid holds xs ys \<Longrightarrow> proofs_held rid holds pt ys"
  unfolding proofs_held_def using replicas_kept_held by metis

text \<open>
  What a successful transaction promises: enough copies, counted by distinct replicas of the
  registry that hold the transaction at its log index, and the local copy.
\<close>

definition copies_held ::
  "('x \<Rightarrow> string) \<Rightarrow> ('x \<Rightarrow> u64 \<Rightarrow> string \<Rightarrow> bool) \<Rightarrow> nat \<Rightarrow> u64 \<Rightarrow> string \<Rightarrow> MetadataCommitProof list \<Rightarrow> 'x list \<Rightarrow> bool"
where
  "copies_held rid holds required i t commits xs \<longleftrightarrow>
     required \<le> length commits + 1 \<and> distinct (map mcp_replica_id commits)
     \<and> (\<forall>p \<in> set commits. mcp_log_index p = i \<and> mcp_transaction_id p = t
          \<and> (\<exists>x \<in> set xs. rid x = mcp_replica_id p \<and> holds x i t))"

lemma proofs_held_copies:
  assumes "proofs_held rid holds pt xs" and "required - 1 \<le> bt_len (pt_proofs pt)"
  shows "copies_held rid holds required (mt_log_index (pt_metadata pt)) (mt_transaction_id (pt_metadata pt))
           (bt_values (pt_proofs pt)) xs"
proof -
  have d: "mcp_replica_id p = k \<and> mcp_log_index p = mt_log_index (pt_metadata pt)
      \<and> mcp_transaction_id p = mt_transaction_id (pt_metadata pt)
      \<and> (\<exists>x \<in> set xs. rid x = k \<and> holds x (mt_log_index (pt_metadata pt)) (mt_transaction_id (pt_metadata pt)))"
    if "fmlookup (pt_proofs pt) k = Some p" for k p
  proof -
    have "p = proof_of k (pt_metadata pt)"
      and "\<exists>x \<in> set xs. rid x = k \<and> holds x (mt_log_index (pt_metadata pt)) (mt_transaction_id (pt_metadata pt))"
      using assms(1) that unfolding proofs_held_def by blast+
    then show ?thesis by (simp add: proof_of_def)
  qed
  then have ids: "map mcp_replica_id (bt_values (pt_proofs pt)) = bt_keys (pt_proofs pt)"
    by (auto simp: bt_values_def fmlookup_dom_iff intro!: map_idI)
  have "length (bt_values (pt_proofs pt)) = bt_len (pt_proofs pt)"
    by (simp add: bt_values_def length_bt_keys)
  then show ?thesis using assms(2) ids d by (auto simp: copies_held_def bt_values_mem)
qed

context metadata_replica
begin

lemma replicate_kept:
  assumes "replicate_transaction replica_id commit env n xs pt required sync = (pt', xs')"
  shows "replicas_kept replica_id holds xs xs'"
  using assms
proof (induction xs arbitrary: n pt pt' xs')
  case (Cons x xs)
  obtain res x1 where cm: "commit (env n) (pt_metadata pt) sync x = (res, x1)" by fastforce
  have x1: "replica_id x1 = replica_id x" "\<And>i t. holds x i t \<Longrightarrow> holds x1 i t"
    using commit_id [of "env n" "pt_metadata pt" sync x] commit_mono [of x _ _ "env n" "pt_metadata pt" sync] cm by auto
  from Cons.prems cm consider "xs' = x # xs"
    | pt1 m ys where "replicate_transaction replica_id commit env m xs pt1 required sync = (pt', ys)"
        "xs' = x # ys \<or> xs' = x1 # ys"
    by (auto simp: Let_def split: if_splits prod.splits)
  then show ?case
  proof cases
    case 2
    from Cons.IH [OF 2(1)] 2(2) x1 show ?thesis by (auto simp: replicas_kept_def)
  qed simp
qed (simp add: replicas_kept_def)

lemma replicate_proofs:
  assumes "replicate_transaction replica_id commit env n xs pt required sync = (pt', xs')"
    and "fmlookup (pt_proofs pt') k = Some p"
  shows "fmlookup (pt_proofs pt) k = Some p
    \<or> p = proof_of k (pt_metadata pt)
      \<and> (\<exists>x \<in> set xs'. replica_id x = k \<and> holds x (mt_log_index (pt_metadata pt)) (mt_transaction_id (pt_metadata pt)))"
  using assms
proof (induction xs arbitrary: n pt pt' xs')
  case (Cons x xs)
  obtain res x1 where cm: "commit (env n) (pt_metadata pt) sync x = (res, x1)" by fastforce
  show ?case
  proof (cases "bt_len (pt_proofs pt) \<ge> required \<or> bt_contains (pt_proofs pt) (replica_id x)")
    case True
    with Cons show ?thesis by (fastforce simp: Let_def split: if_splits prod.splits)
  next
    case False
    define pt1 where "pt1 = (case res of
        Inr ack \<Rightarrow> pt\<lparr>pt_attempts := fmupd (replica_id x) (CommittedBy (proof_of (replica_id x) (pt_metadata pt))) (pt_attempts pt),
                     pt_proofs := fmupd (replica_id x) (proof_of (replica_id x) (pt_metadata pt)) (pt_proofs pt)\<rparr>
      | Inl e \<Rightarrow> pt\<lparr>pt_attempts := fmupd (replica_id x) (FailedWith (err_kind e)) (pt_attempts pt)\<rparr>)"
    have ack: "res = Inr ack \<Longrightarrow> ack = \<lparr>ack_replica_id = replica_id x, ack_transaction_id = mt_transaction_id (pt_metadata pt),
        ack_log_index = mt_log_index (pt_metadata pt)\<rparr> \<and> holds x1 (mt_log_index (pt_metadata pt)) (mt_transaction_id (pt_metadata pt))" for ack
      using cm commit_ack by blast
    have id1: "replica_id x1 = replica_id x" using commit_id [of "env n" "pt_metadata pt" sync x] cm by simp
    from Cons.prems(1) False cm ack obtain ys where
      ys: "replicate_transaction replica_id commit env (Suc n) xs pt1 required sync = (pt', ys)" "xs' = x1 # ys"
      by (cases res) (auto simp: Let_def pt1_def proof_of_def split: prod.splits)
    have "pt_metadata pt1 = pt_metadata pt" by (auto simp: pt1_def split: sum.splits)
    with Cons.IH [OF ys(1) Cons.prems(2)] ys(2) id1 ack show ?thesis
      by (cases res) (auto simp: pt1_def split: if_splits)
  qed
qed auto

lemma replicate_held:
  assumes rt: "replicate_transaction replica_id commit env n xs pt required sync = (pt', xs')"
    and "proofs_held replica_id holds pt xs"
  shows "proofs_held replica_id holds pt' xs'"
proof -
  have "pt_metadata pt' = pt_metadata pt"
    using replicate_forget_acks [OF rt] by (metis prepared_valid_forget(3))
  then show ?thesis
    using replicate_proofs [OF rt] proofs_held_kept [OF assms(2) replicate_kept [OF rt]]
    unfolding proofs_held_def by metis
qed

lemma commit_pending_copies:
  assumes held: "proofs_held replica_id holds pt (reg_replicas reg)" and pend: "reg_pending reg = None"
    and cp: "commit_pending cx replica_id commit io pt required sync reg = (res, reg')"
  shows "pending_held replica_id holds reg'
    \<and> replicas_kept replica_id holds (reg_replicas reg) (reg_replicas reg')
    \<and> (\<forall>pr. res = Inr pr \<longrightarrow>
         copies_held replica_id holds required (cp_log_index pr) (cp_transaction_id pr)
           (cp_replica_commits pr) (reg_replicas reg')
         \<and> reg_last_log_index reg' = cp_log_index pr \<and> reg_last_transaction_id reg' = cp_transaction_id pr)"
proof -
  obtain pt1 reps where rt: "replicate_transaction replica_id commit (rio_replica io) 0 (reg_replicas reg) pt
      (required - 1) sync = (pt1, reps)" by fastforce
  note h = replicate_held [OF rt held] and k = replicate_kept [OF rt]
  consider (short) e where "res = Inl e" "reg_pending reg' = Some pt1" "reg_replicas reg' = reps"
    | (finished) w where "required - 1 \<le> bt_len (pt_proofs pt1)"
        "finish_transaction cx io (required - 1) pt1 (reg\<lparr>reg_replicas := reps, reg_wal := w\<rparr>) = (res, reg')"
    using cp rt by (auto simp: commit_pending_def Let_def not_less split: if_splits sum.splits prod.splits)
  then show ?thesis
  proof cases
    case short
    then show ?thesis using h k by (simp add: pending_held_def)
  next
    case (finished w)
    note fr = finish_transaction_frame [OF finished(2)]
    have "pr = \<lparr>cp_transaction_id = mt_transaction_id (pt_metadata pt1),
       cp_log_index = mt_log_index (pt_metadata pt1), cp_replica_commits = bt_values (pt_proofs pt1)\<rparr>"
      if "res = Inr pr" for pr
      using that by (rule_tac finish_transaction_cases [OF finished(2)]) auto
    then show ?thesis
      using fr pend k proofs_held_copies [OF h finished(1)]
      by (cases res) (simp_all add: pending_held_def same_durable_state_def apply_committed_def)
  qed
qed

lemma transact_copies:
  assumes held: "pending_held replica_id holds reg"
    and tl: "transact_locked cx replica_id commit io reg m required sync = (res, reg')"
  shows "pending_held replica_id holds reg'
    \<and> replicas_kept replica_id holds (reg_replicas reg) (reg_replicas reg')
    \<and> (\<forall>pr. res = Inr pr \<longrightarrow>
         copies_held replica_id holds required (cp_log_index pr) (cp_transaction_id pr)
           (cp_replica_commits pr) (reg_replicas reg')
         \<and> reg_last_log_index reg' = cp_log_index pr \<and> reg_last_transaction_id reg' = cp_transaction_id pr)"
  using tl
proof (cases rule: transact_locked_split)
  case (refused e)
  then show ?thesis using held by simp
next
  case (prepare r mb rp reg1)
  note fr = prepare_pending_frame [OF prepare(3)]
  show ?thesis
  proof (cases rp)
    case (Inl e)
    then have "reg_pending reg1 = reg_pending reg"
      using prepare(3) by (auto simp: prepare_pending_transaction_def split: option.splits if_splits sum.splits prod.splits)
    then show ?thesis using Inl prepare(4) held fr(3) by (simp add: pending_held_def)
  next
    case (Inr pt)
    have "reg_pending reg1 = None \<and> (reg_pending reg = Some pt \<or> pt_proofs pt = fmempty)"
      using prepare(3) Inr new_pending_fields(3)
      by (auto simp: prepare_pending_transaction_def bind_result_Inr split: option.splits if_splits sum.splits prod.splits)
    then have "proofs_held replica_id holds pt (reg_replicas reg1)" "reg_pending reg1 = None"
      using held fr(3) by (auto simp: pending_held_def proofs_held_def)
    from commit_pending_copies [OF this] prepare(4) Inr fr(3) show ?thesis by auto
  qed
qed

end

end
