(* ===== verification/Registry_History.thy ===== *)
theory Registry_History
  imports Registry_Replication
begin

text \<open>
  Histories of the persistent registry: one value per public operation, with the answers of
  its environment, and what holds after any sequence of them, however many of them fail.
\<close>

section \<open>Operations as data\<close>

datatype ('p, 'r, 'h) registry_op =
    SubmitOp "('p, 'r) DurableTaskSpec" ResourceCatalog
  | AssignOp GlobalTaskId u32 NodeId "'h option" u64
  | RunningOp GlobalTaskId u32
  | StageOp GlobalTaskId u32 NodeId ContentId ResourceCatalog
  | CommitOp GlobalTaskId ResourceCatalog
  | FailOp GlobalTaskId string bool
  | CancelOp GlobalTaskId
  | CompactOp

definition as_unit :: "'a result \<times> 's \<Rightarrow> unit result \<times> 's" where
  "as_unit rs = (case rs of (Inl e, s) \<Rightarrow> (Inl e, s) | (Inr _, s) \<Rightarrow> (Inr (), s))"

fun registry_step ::
  "('p, 'r, 'h) registry_codec \<Rightarrow> ('x \<Rightarrow> string)
     \<Rightarrow> ('env \<Rightarrow> MetadataTransaction \<Rightarrow> bool \<Rightarrow> 'x \<Rightarrow> ReplicaCommitAck result \<times> 'x)
     \<Rightarrow> 'env registry_io \<Rightarrow> ('p, 'r, 'h) registry_op \<Rightarrow> ('p, 'r, 'h, 'x) PersistentRegistry
     \<Rightarrow> unit result \<times> ('p, 'r, 'h, 'x) PersistentRegistry" where
  "registry_step cx rid cmt io (SubmitOp spec resources) reg = as_unit (submit cx rid cmt io reg spec resources)"
| "registry_step cx rid cmt io (AssignOp t a n h g) reg = assign cx rid cmt io reg t a n h g"
| "registry_step cx rid cmt io (RunningOp t a) reg = mark_running cx rid cmt io reg t a"
| "registry_step cx rid cmt io (StageOp t a n c resources) reg = stage_output cx rid cmt io reg t a n c resources"
| "registry_step cx rid cmt io (CommitOp t resources) reg = as_unit (commit_output cx rid cmt io reg t resources)"
| "registry_step cx rid cmt io (FailOp t reason rr) reg = fail_task cx rid cmt io reg t reason rr"
| "registry_step cx rid cmt io (CancelOp t) reg = cancel_task cx rid cmt io reg t"
| "registry_step cx rid cmt io CompactOp reg = compact cx (rio_snapshot io) (rio_truncate io) reg"

text \<open>Whether an operation writes its log records through to the disk.\<close>

definition task_sync :: "('p, 'r, 'h, 'x) PersistentRegistry \<Rightarrow> GlobalTaskId \<Rightarrow> bool" where
  "task_sync reg t = (case query reg t of None \<Rightarrow> False | Some r \<Rightarrow> rec_acceptance r \<noteq> Fast)"

fun op_sync :: "('p, 'r, 'h, 'x) PersistentRegistry \<Rightarrow> ('p, 'r, 'h) registry_op \<Rightarrow> bool" where
  "op_sync reg (SubmitOp spec _) = (spec_requested spec \<noteq> Fast)"
| "op_sync reg (AssignOp t _ _ _ _) = task_sync reg t"
| "op_sync reg (RunningOp t _) = task_sync reg t"
| "op_sync reg (StageOp t _ _ _ _) = task_sync reg t"
| "op_sync reg (CommitOp t _) = task_sync reg t"
| "op_sync reg (FailOp t _ _) = task_sync reg t"
| "op_sync reg (CancelOp t) = task_sync reg t"
| "op_sync reg CompactOp = False"

text \<open>
  A run, with the views that a crash after it may bring back: an operation that was
  acknowledged after a synchronous write leaves the current view only.
\<close>

fun run_registry ::
  "('p, 'r, 'h) registry_codec \<Rightarrow> ('x \<Rightarrow> string)
     \<Rightarrow> ('env \<Rightarrow> MetadataTransaction \<Rightarrow> bool \<Rightarrow> 'x \<Rightarrow> ReplicaCommitAck result \<times> 'x)
     \<Rightarrow> ('env registry_io \<times> ('p, 'r, 'h) registry_op) list \<Rightarrow> ('p, 'r, 'h, 'x) PersistentRegistry \<times> ('p, 'r, 'h) durable_view set
     \<Rightarrow> ('p, 'r, 'h, 'x) PersistentRegistry \<times> ('p, 'r, 'h) durable_view set" where
  "run_registry cx rid cmt [] (reg, V) = (reg, V)"
| "run_registry cx rid cmt ((io, op) # ops) (reg, V) =
     (case registry_step cx rid cmt io op reg of
        (res, reg') \<Rightarrow>
          run_registry cx rid cmt ops
            (reg', views_after (\<not> isl res \<and> op_sync reg op) reg' V))"

lemma map_proof_cases:
  assumes "map_proof f rs = (res, reg')"
  obtains rt where "rs = (rt, reg')" and "isl res = isl rt"
  using assms by (cases rs) (auto simp: map_proof_def split: sum.splits)

lemma as_unit_cases:
  assumes "as_unit rs = (res, reg')"
  obtains rt where "rs = (rt, reg')" and "isl res = isl rt"
  using assms by (cases rs) (auto simp: as_unit_def split: sum.splits)

text \<open>How an operation ends: refused without effect, or with a transaction, or with a compaction.\<close>

definition step_outcome ::
  "('p, 'r, 'h) registry_codec \<Rightarrow> ('x \<Rightarrow> string)
     \<Rightarrow> ('env \<Rightarrow> MetadataTransaction \<Rightarrow> bool \<Rightarrow> 'x \<Rightarrow> ReplicaCommitAck result \<times> 'x)
     \<Rightarrow> 'env registry_io \<Rightarrow> bool \<Rightarrow> ('p, 'r, 'h, 'x) PersistentRegistry \<Rightarrow> unit result
     \<Rightarrow> ('p, 'r, 'h, 'x) PersistentRegistry \<Rightarrow> bool" where
  "step_outcome cx rid cmt io sync reg res reg' \<longleftrightarrow>
     isl res \<and> reg' = reg
     \<or> (\<exists>m required rt. transact_locked cx rid cmt io reg m required sync = (rt, reg') \<and> mutation_wf m
          \<and> (isl rt \<longrightarrow> isl res))
     \<or> \<not> sync \<and> compact cx (rio_snapshot io) (rio_truncate io) reg = (res, reg')"

lemma map_sum_unit [simp]: "map_sum id (\<lambda>_. ()) res = (res :: 'e + unit)"
  by (cases res) auto

lemma transact_outcome:
  assumes "map_proof f (transact_locked cx rid cmt io reg m required sync) = (res, reg')" and "mutation_wf m"
  shows "step_outcome cx rid cmt io sync reg (map_sum id (\<lambda>_. ()) res) reg'"
proof -
  from assms(1) obtain rt where "transact_locked cx rid cmt io reg m required sync = (rt, reg')" "isl res = isl rt"
    by (rule map_proof_cases)
  with assms(2) show ?thesis by (cases res) (auto simp: step_outcome_def)
qed

lemma existing_outcome:
  assumes "map_proof (\<lambda>_. ()) (transact_for_existing cx rid cmt io reg m) = (res, reg')" and "mutation_wf m"
  shows "step_outcome cx rid cmt io (task_sync reg (mutation_task_id m)) reg res reg'"
proof (cases "fmlookup (reg_records reg) (mutation_task_id m)")
  case None
  with assms show ?thesis by (auto simp: map_proof_def transact_for_existing_def step_outcome_def)
next
  case (Some r)
  with assms(1) have "map_proof (\<lambda>_. ()) (transact_locked cx rid cmt io reg m (required_copies_of r)
      (task_sync reg (mutation_task_id m))) = (res, reg')"
    by (simp add: transact_for_existing_def task_sync_def query_def)
  from transact_outcome [OF this assms(2)] show ?thesis by simp
qed

lemma submit_outcome:
  assumes "submit cx rid cmt io reg spec resources = (rs, reg')"
  shows "step_outcome cx rid cmt io (spec_requested spec \<noteq> Fast) reg (map_sum id (\<lambda>_. ()) rs) reg'"
proof (cases "isl rs \<and> reg' = reg")
  case True
  then show ?thesis by (auto simp: step_outcome_def isl_def)
next
  case False
  with assms show ?thesis
    by (auto simp: submit_def Let_def split: if_splits sum.splits intro!: transact_outcome)
qed

lemma commit_output_outcome:
  assumes "commit_output cx rid cmt io reg t resources = (rs, reg')"
  shows "step_outcome cx rid cmt io (task_sync reg t) reg (map_sum id (\<lambda>_. ()) rs) reg'"
proof (cases "isl rs \<and> reg' = reg")
  case True
  then show ?thesis by (auto simp: step_outcome_def isl_def)
next
  case False
  with assms show ?thesis
    by (auto simp: commit_output_def task_sync_def query_def split: if_splits option.splits intro: transact_outcome)
qed

lemma stage_output_outcome:
  assumes "stage_output cx rid cmt io reg t a n c resources = (res, reg')"
  shows "step_outcome cx rid cmt io (task_sync reg t) reg res reg'"
proof (cases "isl res \<and> reg' = reg")
  case False
  then consider r co required rt where "fmlookup (reg_records reg) t = Some r" "isl res"
      "transact_locked cx rid cmt io reg (QuarantineOutput t co) required (rec_acceptance r \<noteq> Fast) = (rt, reg')"
    | r so required where "fmlookup (reg_records reg) t = Some r"
      "map_proof (\<lambda>_. ()) (transact_locked cx rid cmt io reg (StageOutput t so) required (rec_acceptance r \<noteq> Fast))
         = (res, reg')"
    using assms by (fastforce simp: stage_output_def split: if_splits option.splits sum.splits prod.splits)
  then show ?thesis
  proof cases
    case 1
    then show ?thesis by (force simp: step_outcome_def task_sync_def query_def)
  next
    case 2
    from transact_outcome [OF 2(2)] 2(1) show ?thesis
      by (simp add: task_sync_def query_def)
  qed
qed (simp add: step_outcome_def)

lemma registry_step_outcome:
  assumes "registry_step cx rid cmt io op reg = (res, reg')"
  shows "step_outcome cx rid cmt io (op_sync reg op) reg res reg'"
proof (cases op)
  case (SubmitOp spec resources)
  with assms obtain rs where "submit cx rid cmt io reg spec resources = (rs, reg')" "res = map_sum id (\<lambda>_. ()) rs"
    by (auto simp: as_unit_def split: prod.splits sum.splits)
  with submit_outcome SubmitOp show ?thesis by fastforce
next
  case (CommitOp t resources)
  with assms obtain rs where "commit_output cx rid cmt io reg t resources = (rs, reg')" "res = map_sum id (\<lambda>_. ()) rs"
    by (auto simp: as_unit_def split: prod.splits sum.splits)
  with commit_output_outcome CommitOp show ?thesis by fastforce
next
  case (AssignOp t a n h g)
  with assms show ?thesis
    using existing_outcome [of cx rid cmt io reg "Assign t \<lparr>att_attempt = a, att_node = n, att_handle = h,
       att_runner_generation = g, att_active = True\<rparr>" res reg']
    by (auto simp: assign_def step_outcome_def split: if_splits)
next
  case (RunningOp t a)
  with assms existing_outcome [of cx rid cmt io reg "MarkRunning t a" res reg'] show ?thesis
    by (simp add: mark_running_def)
next
  case (FailOp t reason rr)
  with assms existing_outcome [of cx rid cmt io reg "SetFailure t (if rr then RecoveryRequired else Failed) reason" res reg']
  show ?thesis by (simp add: fail_task_def)
next
  case (CancelOp t)
  with assms existing_outcome [of cx rid cmt io reg "Cancel t" res reg'] show ?thesis
    by (simp add: cancel_task_def)
next
  case (StageOp t a n c resources)
  with assms show ?thesis by (simp add: stage_output_outcome)
qed (use assms in \<open>simp add: step_outcome_def\<close>)

section \<open>One step\<close>

lemma transact_locked_options:
  assumes "transact_locked cx rid cmt io reg m required sync = (res, reg')" and "rio_ok io"
    and "registry_ok cx V reg" and "codec_ok cx"
  shows "reg_options reg' = reg_options reg"
  using assms(1)
proof (cases rule: transact_locked_split)
  case (prepare r mb rp reg1)
  note fr = prepare_pending_frame [OF prepare(3)]
  show ?thesis
  proof (cases rp)
    case (Inr pt)
    have "reg_pending reg1 = None"
      using prepare(3) Inr
      by (auto simp: prepare_pending_transaction_def split: option.splits if_splits sum.splits prod.splits)
    with prepare(4) Inr have "reg_options reg' = reg_options reg1"
      by (auto simp: commit_pending_def Let_def split: if_splits sum.splits prod.splits
          dest!: finish_transaction_frame(3))
    with fr show ?thesis by simp
  qed (use prepare(4) fr in simp)
qed simp

lemma compact_frame:
  assumes "compact cx sio tio reg = (res, reg')"
  shows "reg_pending reg' = reg_pending reg" and "reg_replicas reg' = reg_replicas reg"
  using assms compact_locked_frame(2,4) [of cx sio tio reg res reg'] by (auto simp: compact_def split: if_splits)

lemma compact_ok:
  assumes "registry_ok cx V reg" and "codec_ok cx" and "compact cx sio tio reg = (res, reg')"
  shows "registry_ok cx V reg' \<and> same_durable_state reg reg' \<and> reg_options reg' = reg_options reg"
proof (cases "reg_pending reg")
  case None
  then have cl: "compact_locked cx sio tio reg = (res, reg')" using assms(3) by (simp add: compact_def)
  from compact_locked_ok [OF assms(1,2) None cl] compact_locked_frame [OF cl] show ?thesis by simp
qed (use assms in \<open>simp add: compact_def same_durable_state_def\<close>)

lemma registry_step_ok:
  assumes ok: "registry_ok cx V reg" and cx: "codec_ok cx" and io: "rio_ok io"
    and st: "registry_step cx rid cmt io op reg = (res, reg')"
  shows "registry_ok cx (views_after (\<not> isl res \<and> op_sync reg op) reg' V) reg'
    \<and> reg_options reg' = reg_options reg
    \<and> (same_durable_state reg reg' \<or> (\<exists>m. mutation_wf m \<and> mutation_committed m reg reg'))"
  using registry_step_outcome [OF st] unfolding step_outcome_def
proof (elim disjE exE conjE)
  assume "isl res" "reg' = reg"
  then show ?thesis using ok registry_ok_view [OF ok]
    by (simp add: same_durable_state_def views_after_def insert_absorb)
next
  fix m required rt
  assume tl: "transact_locked cx rid cmt io reg m required (op_sync reg op) = (rt, reg')"
    and "mutation_wf m" "isl rt \<longrightarrow> isl res"
  note t = transact_locked_ok [OF ok cx io tl]
  have "views_after (\<not> isl rt \<and> op_sync reg op) reg' V \<subseteq> views_after (\<not> isl res \<and> op_sync reg op) reg' V"
    using \<open>isl rt \<longrightarrow> isl res\<close> by (auto simp: views_after_def)
  with t have "registry_ok cx (views_after (\<not> isl res \<and> op_sync reg op) reg' V) reg'"
    by (blast intro: registry_ok_weaken)
  then show ?thesis using t transact_locked_options [OF tl io ok cx] \<open>mutation_wf m\<close> by blast
next
  assume "\<not> op_sync reg op" and c: "compact cx (rio_snapshot io) (rio_truncate io) reg = (res, reg')"
  then show ?thesis
    using compact_ok [OF ok cx c] registry_ok_view [OF ok]
    by (simp add: same_durable_state_view views_after_def insert_absorb)
qed

section \<open>Runs\<close>

lemma run_registry_ok:
  assumes "registry_ok cx V reg" and "codec_ok cx" and "\<forall>(io, op) \<in> set ops. rio_ok io"
    and "run_registry cx rid cmt ops (reg, V) = (reg', V')"
  shows "registry_ok cx V' reg' \<and> reg_options reg' = reg_options reg"
  using assms(1,3,4)
proof (induction ops arbitrary: reg V)
  case (Cons iop ops)
  obtain io op where iop: "iop = (io, op)" by fastforce
  obtain res reg1 where st: "registry_step cx rid cmt io op reg = (res, reg1)" by fastforce
  have io: "rio_ok io" using Cons.prems(2) iop by auto
  note s1 = registry_step_ok [OF Cons.prems(1) assms(2) io st]
  then show ?case using Cons.IH [of "views_after (\<not> isl res \<and> op_sync reg op) reg1 V" reg1]
      Cons.prems st iop by auto
qed simp

lemma open_fresh_ok:
  assumes "open_with_options cx rid io rd None None reps opts = Inr reg"
  shows "registry_ok cx {durable_view reg} reg" and "reg_records reg = fmempty" and "reg_options reg = opts"
    and "reg_pending reg = None" and "reg_replicas reg = reps"
proof -
  have scan: "scan_frames sha mx [] step 0 s = Inr (s, 0)" for sha mx step and s :: "'z"
    by (simp add: scan_frames.simps)
  have json: "\<not> starts_with_json []" by (simp add: starts_with_json_def as_bytes_def)
  have reg: "reg = \<lparr>reg_snapshot_file = None, reg_wal = \<lparr>wf_bytes = [], wf_synced = 0\<rparr>, reg_records = fmempty,
      reg_versions = fmempty, reg_last_log_index = 0, reg_last_transaction_id = [],
      reg_wal_transactions = 0, reg_recovered_tail_bytes = 0, reg_pending = None, reg_last_report = None,
      reg_replicas = reps, reg_options = opts\<rparr>" and opts: "\<not> isl (options_validate opts)"
    using assms json
    by (auto simp: open_with_options_def bind_result_Inr options_validate_def load_snapshot_def read_existing_def
        replay_wal_def Let_def wal_snapshot_default_def scan replay_start_def wal_open_def if_result_Inr
        split: if_splits)
  show "reg_records reg = fmempty" "reg_options reg = opts" "reg_pending reg = None" "reg_replicas reg = reps"
    by (simp_all add: reg)
  have "registry_log cx wal_snapshot_default [] (replay_start wal_snapshot_default) 0 {durable_view reg} reg"
    using opts wal_log.start [of cx opts wal_snapshot_default]
    by (auto simp: registry_log_def reg snapshot_file_ok_def memory_matches_def replay_start_def wal_snapshot_default_def
        replay_view_def durable_view_def elim: wal_log.cases)
  then show "registry_ok cx {durable_view reg} reg" by (auto simp: registry_ok_def)
qed

section \<open>Tasks\<close>

definition records_ok :: "('p, 'r, 'h, 'x) PersistentRegistry \<Rightarrow> bool" where
  "records_ok reg \<longleftrightarrow> (\<forall>t r. query reg t = Some r \<longrightarrow> task_ok r \<and> spec_task_id (rec_spec r) = t)"

definition record_le :: "('p, 'r, 'h) DurableTaskRecord \<Rightarrow> ('p, 'r, 'h) DurableTaskRecord \<Rightarrow> bool" where
  "record_le r r' \<longleftrightarrow> lifecycle\<^sup>*\<^sup>* (rec_state r) (rec_state r') \<and> rec_spec r' = rec_spec r
     \<and> rec_acceptance r' = rec_acceptance r
     \<and> prefix (map att_attempt (rec_attempts r)) (map att_attempt (rec_attempts r'))
     \<and> (\<forall>c. rec_committed r = Some c \<longrightarrow> rec_committed r' = Some c)"

lemma record_le_refl [simp]: "record_le r r"
  by (simp add: record_le_def)

lemma record_le_trans: "record_le a b \<Longrightarrow> record_le b c \<Longrightarrow> record_le a c"
  unfolding record_le_def by (auto intro: rtranclp_trans prefix_order.trans)

lemma apply_existing_committed:
  assumes "apply_existing m r = Inr r'" and "task_ok r" and "rec_committed r = Some c"
  shows "rec_committed r' = Some c"
proof -
  have "rec_state r = Committed" using assms(2,3) by (auto simp: task_ok_def outputs_ok_def)
  then show ?thesis using assms by (cases m) (auto simp: is_terminal_def split: if_splits option.splits)
qed

lemma apply_existing_record_le:
  assumes "apply_existing m r = Inr r'" and "task_ok r"
  shows "record_le r r'"
  using apply_existing_keeps [OF assms(1)] apply_existing_lifecycle [OF assms(1)]
    apply_existing_committed [OF assms] by (auto simp: record_le_def)

lemma submitted_task_ok:
  assumes "prepare_mutation records (Submit r) mt = Inr r'"
  shows "task_ok r'"
proof -
  have "initial_state a \<in> {Submitted, Persisted}" for a by (cases a) auto
  then have "\<not> live_state (initial_state a)" "initial_state a \<noteq> Committed" for a
    by (cases a; simp add: live_state_def)+
  then show ?thesis
    using assms by (auto simp: task_ok_def attempts_ok_def outputs_ok_def live_state_def split: if_splits)
qed

lemma prepare_mutation_cases:
  assumes "prepare_mutation records m mt = Inr r'"
  obtains (new) "m = Submit r'" "fmlookup records (mutation_task_id m) = None"
  | (existing) r where "fmlookup records (mutation_task_id m) = Some r" "apply_existing m r = Inr r'"
  using assms
  by (cases m) (auto simp: prepare_existing_mutation_def bind_result_Inr bt_contains_def split: if_splits)

lemma mutation_committed_records:
  assumes mc: "mutation_committed m reg reg'" and wf: "mutation_wf m" and ok: "records_ok reg"
  shows "records_ok reg' \<and> (\<forall>t r. query reg t = Some r \<longrightarrow> (\<exists>r'. query reg' t = Some r' \<and> record_le r r'))"
proof -
  from mc obtain r' where pm: "prepare_mutation (reg_records reg) m (ro_max_tasks (reg_options reg)) = Inr r'"
    and upd: "reg_records reg' = fmupd (mutation_task_id m) r' (reg_records reg)"
    by (auto simp: mutation_committed_def)
  from pm show ?thesis
  proof (cases rule: prepare_mutation_cases)
    case new
    then have "task_ok r'" "mutation_task_id m = spec_task_id (rec_spec r')" using pm submitted_task_ok by auto
    with new ok upd show ?thesis by (auto simp: records_ok_def query_def)
  next
    case (existing r)
    then have "task_ok r" "spec_task_id (rec_spec r) = mutation_task_id m"
      using ok by (auto simp: records_ok_def query_def)
    then have "task_ok r'" "record_le r r'" "spec_task_id (rec_spec r') = mutation_task_id m"
      using existing(2) apply_existing_task_ok wf apply_existing_record_le apply_existing_keeps(1) by metis+
    with existing ok upd show ?thesis by (auto simp: records_ok_def query_def)
  qed
qed

lemma run_registry_records:
  assumes "registry_ok cx V reg" and "codec_ok cx" and "\<forall>(io, op) \<in> set ops. rio_ok io"
    and "records_ok reg" and "run_registry cx rid cmt ops (reg, V) = (reg', V')"
  shows "records_ok reg' \<and> (\<forall>t r. query reg t = Some r \<longrightarrow> (\<exists>r'. query reg' t = Some r' \<and> record_le r r'))"
  using assms(1,3,4,5)
proof (induction ops arbitrary: reg V)
  case (Cons iop ops)
  obtain io op where iop: "iop = (io, op)" by fastforce
  obtain res reg1 where st: "registry_step cx rid cmt io op reg = (res, reg1)" by fastforce
  have io: "rio_ok io" using Cons.prems(2) iop by auto
  note s1 = registry_step_ok [OF Cons.prems(1) assms(2) io st]
  have r1: "records_ok reg1 \<and> (\<forall>t r. query reg t = Some r \<longrightarrow> (\<exists>r'. query reg1 t = Some r' \<and> record_le r r'))"
  proof (cases "same_durable_state reg reg1")
    case True
    then show ?thesis using Cons.prems(3) by (auto simp: same_durable_state_def records_ok_def query_def)
  next
    case False
    with s1 obtain m where "mutation_wf m" "mutation_committed m reg reg1" by blast
    from mutation_committed_records [OF this(2,1) Cons.prems(3)] show ?thesis .
  qed
  have "records_ok reg' \<and> (\<forall>t r. query reg1 t = Some r \<longrightarrow> (\<exists>r'. query reg' t = Some r' \<and> record_le r r'))"
    using Cons.IH [of "views_after (\<not> isl res \<and> op_sync reg op) reg1 V" reg1]
      s1 r1 Cons.prems(2,4) st iop by auto
  then show ?case using r1 record_le_trans by blast
qed auto

section \<open>Copies along a run\<close>

context metadata_replica
begin

lemma step_pending_held:
  assumes "pending_held replica_id holds reg" and st: "registry_step cx replica_id commit io op reg = (res, reg')"
  shows "pending_held replica_id holds reg' \<and> replicas_kept replica_id holds (reg_replicas reg) (reg_replicas reg')"
  using registry_step_outcome [OF st] unfolding step_outcome_def
proof (elim disjE exE conjE)
  fix m required rt
  assume "transact_locked cx replica_id commit io reg m required (op_sync reg op) = (rt, reg')"
  from transact_copies [OF assms(1) this] show ?thesis by simp
next
  assume "compact cx (rio_snapshot io) (rio_truncate io) reg = (res, reg')"
  then show ?thesis using assms(1) by (simp add: pending_held_def compact_frame)
qed (use assms(1) in simp)

lemma run_pending_held:
  "pending_held replica_id holds reg \<Longrightarrow> run_registry cx replica_id commit ops (reg, V) = (reg', V') \<Longrightarrow>
     pending_held replica_id holds reg'"
proof (induction ops arbitrary: reg V)
  case (Cons iop ops)
  obtain io op where iop: "iop = (io, op)" by fastforce
  obtain res reg1 where st: "registry_step cx replica_id commit io op reg = (res, reg1)" by fastforce
  with step_pending_held [OF Cons.prems(1) st] Cons iop show ?case by auto
qed simp

end

end
