(* ===== verification/Registry_Properties.thy ===== *)
theory Registry_Properties
  imports Registry_History
begin

text \<open>
  The properties of the persistent registry, its replicas and its log, each with a concrete
  instance.  The instances use a small codec in which one submission can be encoded, and a
  file replica that starts empty.
\<close>

section \<open>A concrete registry\<close>

definition demo_spec :: "(nat, nat) DurableTaskSpec" where
  "demo_spec = \<lparr>spec_task_id = ''t'', spec_portable = 0, spec_requirements = 0,
                spec_required_inputs = [], spec_requested = Durable\<rparr>"

definition demo_mutation :: "(nat, nat, nat) RegistryMutation" where
  "demo_mutation = Submit (submitted_record demo_spec)"

definition demo_prepared :: "(nat, nat, nat) PreparedPayload" where
  "demo_prepared = \<lparr>pp_transaction_id = hex_string (replicate 32 0), pp_log_index = 1,
     pp_previous_transaction_id = [], pp_task_id = ''t'', pp_previous_version = 0, pp_new_version = 1,
     pp_mutation = demo_mutation\<rparr>"

definition demo_codec :: "(nat, nat, nat) registry_codec" where
  "demo_codec = \<lparr>cx_sha = (\<lambda>_. replicate 32 0), cx_mutation = serde_single demo_mutation [1],
     cx_prepared = serde_single demo_prepared (replicate 64 7),
     cx_snapshot = serde_single wal_snapshot_default [9]\<rparr>"

definition demo_replica :: FileMetadataReplica where
  "demo_replica = \<lparr>fr_id = ''file:r'', fr_wal = \<lparr>wf_bytes = [], wf_synced = 0\<rparr>, fr_committed = fmempty\<rparr>"

definition demo_options :: RegistryOptions where
  "demo_options = options_for_max_tasks 4"

definition demo_registry :: "(nat, nat, nat, FileMetadataReplica) PersistentRegistry" where
  "demo_registry = \<lparr>reg_snapshot_file = None, reg_wal = \<lparr>wf_bytes = [], wf_synced = 0\<rparr>, reg_records = fmempty,
      reg_versions = fmempty, reg_last_log_index = 0, reg_last_transaction_id = [],
      reg_wal_transactions = 0, reg_recovered_tail_bytes = 0, reg_pending = None, reg_last_report = None,
      reg_replicas = [demo_replica], reg_options = demo_options\<rparr>"

definition demo_catalog :: ResourceCatalog where
  "demo_catalog = \<lparr>rc_file = None, rc_records = fmempty, rc_max_records = 1, rc_max_repair_jobs = 1\<rparr>"

definition demo_io :: "append_io registry_io" where
  "demo_io = \<lparr>rio_prepare = append_all_ok, rio_commit = append_all_ok, rio_len = True,
     rio_snapshot = \<lparr>sio_parent = True, sio_open = True, sio_write_sync = True, sio_rename = True, sio_sync_parent = True\<rparr>,
     rio_truncate = \<lparr>tio_set_len = True, tio_sync = True\<rparr>, rio_replica = (\<lambda>_. append_all_ok)\<rparr>"

lemma demo_codec_ok: "codec_ok demo_codec"
  by (simp add: codec_ok_def demo_codec_def sha_ok_def)
     (simp add: serde_single_def demo_prepared_def)

lemma demo_rio_ok: "rio_ok demo_io"
  by (simp add: rio_ok_def demo_io_def append_all_ok_def)

lemma demo_open:
  "open_with_options demo_codec fr_id open_all_ok True None None [demo_replica] demo_options = Inr demo_registry"
  by (simp add: open_with_options_def options_validate_def demo_options_def options_for_max_tasks_def
      default_max_registry_record_bytes_def open_all_ok_def validate_replica_ids_def load_snapshot_def
      read_existing_def replay_wal_def starts_with_json_def as_bytes_def Let_def wal_snapshot_default_def
      scan_frames.simps replay_start_def wal_open_def demo_registry_def demo_replica_def)


text \<open>A transaction that two copies acknowledge, for any mutation the codec can encode.\<close>

lemma demo_new_pending:
  assumes "cx_sha cx = (\<lambda>_. replicate 32 0)" and "to_vec (cx_prepared cx) p = Some (replicate 64 7)"
    and "pp_transaction_id p = hex_string (replicate 32 0)"
  obtains f g where "new_pending cx 65536 p r = Inr
     \<lparr>pt_metadata = \<lparr>mt_transaction_id = hex_string (replicate 32 0), mt_log_index = pp_log_index p,
        mt_previous_version = pp_previous_version p,
        mt_prepare_payload = replicate 64 7, mt_prepare_frame = f, mt_commit_frame = g\<rparr>,
      pt_prepared = p, pt_resulting_record = r, pt_proofs = fmempty, pt_attempts = fmempty\<rparr>"
    and "length f = 120" "length g = 120"
proof -
  have sha: "sha_ok (cx_sha cx)" by (simp add: sha_ok_def assms(1))
  obtain f where f: "encode_frame (cx_sha cx) Prepare (pp_log_index p) (replicate 64 7) = Inr f"
    using encode_frame_ok [OF _ sha, of "replicate 64 7"] by auto
  obtain g where g: "encode_frame (cx_sha cx) Commit (pp_log_index p) (as_bytes (hex_string (replicate 32 0))) = Inr g"
    using encode_frame_ok [OF _ sha, of "as_bytes (hex_string (replicate 32 0))"] by auto
  have "length f = 120" "length g = 120" using f g sha by (auto elim!: encode_frame_Inr)
  then show ?thesis using f g assms(2,3) by (intro that [of f g]) (auto simp: new_pending_def)
qed

text \<open>The replica may be any that acknowledges the transaction.\<close>

lemma demo_commit_on:
  assumes "cx_sha cx = (\<lambda>_. replicate 32 0)" and "to_vec (cx_prepared cx) p = Some (replicate 64 7)"
    and "pp_transaction_id p = hex_string (replicate 32 0)" and mb: "to_vec (cx_mutation cx) m = Some [1]"
    and pm: "prepare_mutation (reg_records reg) m 4 = Inr r"
    and np: "new_prepared cx (reg_last_transaction_id reg) (reg_last_log_index reg) m [1]
               (version_of (reg_versions reg) (mutation_task_id m)) = Inr p"
    and reg: "reg_pending reg = None" "reg_wal reg = \<lparr>wf_bytes = [], wf_synced = 0\<rparr>"
      "reg_replicas reg = [x]" "reg_options reg = demo_options" "reg_wal_transactions reg = 0"
    and io: "rio_prepare io = append_all_ok" "rio_commit io = append_all_ok" "rio_len io"
    and cmt: "\<And>tx. mt_prepare_payload tx = replicate 64 7 \<Longrightarrow> \<exists>x'. cmt (rio_replica io 0) tx True x =
        (Inr \<lparr>ack_replica_id = rid x, ack_transaction_id = mt_transaction_id tx, ack_log_index = mt_log_index tx\<rparr>, x')"
  shows "\<exists>pr reg'. transact_locked cx rid cmt io reg m 2 True = (Inr pr, reg')"
proof -
  have small: "\<not> (16384 :: u64) \<le> 1" by (simp add: word_le_nat_alt)
  from assms(1-3) obtain f g where nt: "new_pending cx 65536 p r = Inr
     \<lparr>pt_metadata = \<lparr>mt_transaction_id = hex_string (replicate 32 0), mt_log_index = pp_log_index p,
        mt_previous_version = pp_previous_version p,
        mt_prepare_payload = replicate 64 7, mt_prepare_frame = f, mt_commit_frame = g\<rparr>,
      pt_prepared = p, pt_resulting_record = r, pt_proofs = fmempty, pt_attempts = fmempty\<rparr>"
    and len: "length f = 120" "length g = 120"
    by (rule demo_new_pending)
  let ?tx = "\<lparr>mt_transaction_id = hex_string (replicate 32 0), mt_log_index = pp_log_index p,
        mt_previous_version = pp_previous_version p,
        mt_prepare_payload = replicate 64 7, mt_prepare_frame = f, mt_commit_frame = g\<rparr>"
  obtain x' where "cmt (rio_replica io 0) ?tx True x =
        (Inr \<lparr>ack_replica_id = rid x, ack_transaction_id = hex_string (replicate 32 0), ack_log_index = pp_log_index p\<rparr>, x')"
    using cmt [of ?tx] by auto
  then show ?thesis
    using pm mb nt len np small reg io
    by (simp add: transact_locked_def prepare_pending_transaction_def
        demo_options_def options_for_max_tasks_def default_max_registry_record_bytes_def wal_append_def
        append_all_ok_def commit_pending_def Let_def
        bt_len_upd bt_contains_def finish_transaction_def compaction_due_def
        apply_committed_def sat_add_def wal_len_def)
qed

lemma demo_commit:
  assumes "cx_sha cx = (\<lambda>_. replicate 32 0)" and "to_vec (cx_prepared cx) p = Some (replicate 64 7)"
    and "pp_transaction_id p = hex_string (replicate 32 0)" and "to_vec (cx_mutation cx) m = Some [1]"
    and "prepare_mutation (reg_records reg) m 4 = Inr r"
    and "new_prepared cx (reg_last_transaction_id reg) (reg_last_log_index reg) m [1]
               (version_of (reg_versions reg) (mutation_task_id m)) = Inr p"
    and "reg_pending reg = None" "reg_wal reg = \<lparr>wf_bytes = [], wf_synced = 0\<rparr>"
      "reg_replicas reg = [demo_replica]" "reg_options reg = demo_options" "reg_wal_transactions reg = 0"
  shows "\<exists>pr reg'. transact_locked cx fr_id file_replica_commit demo_io reg m 2 True = (Inr pr, reg')"
  by (rule demo_commit_on [OF assms])
     (simp_all add: demo_io_def demo_replica_def file_replica_commit_def wal_append_pair_def wal_append_def append_all_ok_def Let_def)

lemma demo_transact:
  "\<exists>pr reg'. transact_locked demo_codec fr_id file_replica_commit demo_io demo_registry demo_mutation 2 True = (Inr pr, reg')"
  by (rule demo_commit [of _ demo_prepared _ _ "submitted_record demo_spec"])
     (simp_all add: demo_codec_def serde_single_def demo_prepared_def demo_mutation_def demo_registry_def
        bt_contains_def submitted_record_def demo_spec_def new_prepared_def checked_add_def transaction_id_def
        version_of_def)

lemma demo_submit:
  "\<exists>receipt. fst (submit demo_codec fr_id file_replica_commit demo_io demo_registry demo_spec demo_catalog) = Inr receipt"
proof -
  have "submit demo_codec fr_id file_replica_commit demo_io demo_registry demo_spec demo_catalog
    = map_proof (\<lambda>proof. \<lparr>ar_task_id = ''t'', ar_requested = Durable, ar_actual = Durable, ar_state = Persisted,
        ar_metadata_copies = length (cp_replica_commits proof) + 1, ar_input_copies = 0,
        ar_transaction_id = cp_transaction_id proof, ar_log_index = cp_log_index proof,
        ar_replica_commits = cp_replica_commits proof\<rparr>)
      (transact_locked demo_codec fr_id file_replica_commit demo_io demo_registry demo_mutation 2 True)"
    by (simp add: submit_def demo_spec_def demo_registry_def minimum_healthy_copies_def inputs_recoverable_def
        demo_mutation_def)
  with demo_transact show ?thesis by (auto simp: map_proof_def)
qed

lemma demo_run:
  "\<exists>V. run_registry demo_codec fr_id file_replica_commit [(demo_io, SubmitOp demo_spec demo_catalog)] (demo_registry, {durable_view demo_registry})
     = (snd (submit demo_codec fr_id file_replica_commit demo_io demo_registry demo_spec demo_catalog), V)"
  by (simp add: as_unit_def split: prod.splits sum.splits)

section \<open>Recovery\<close>

text \<open>
  Claim C1.  Let any sequence of operations run on a registry that was opened without files,
  whatever the outcomes of its reads, writes, syncs, compactions and replica calls, as long
  as the truncation after a failed append works.  Then whatever prefix of the log a crash
  leaves behind the synced part, opening the snapshot file and that log succeeds and gives
  back a view of the registry (records, versions, last log index and transaction) that the
  run passed through, and no earlier one than the last view acknowledged after a synchronous
  write; when nothing is lost it gives back the current view and the prepared transaction.
  The one exception is a log that starts with the two bytes of a JSON object.
\<close>

theorem registry_crash_recovery:
  assumes "codec_ok cx"
    and "open_with_options cx rid oio rd None None reps opts = Inr reg0"
    and "\<forall>(io, op) \<in> set ops. rio_ok io"
    and "run_registry cx rid cmt ops (reg0, {durable_view reg0}) = (reg, V)"
    and "crash_image (reg_wal reg) bs"
    and "replica_ids_ok [] (map rid reps')"
  shows "case open_with_options cx rid open_all_ok True (reg_snapshot_file reg) (Some bs) reps' opts of
      Inl e \<Rightarrow> starts_with_json bs
    | Inr reg' \<Rightarrow> durable_view reg' \<in> V
        \<and> (bs = wf_bytes (reg_wal reg) \<longrightarrow>
             durable_view reg' = durable_view reg \<and> reg_pending reg' = map_option forget_acks (reg_pending reg))"
proof (cases "starts_with_json bs")
  case True
  from True have "replay_wal cx bs sn opts' = Inl legacy_wal_error" for sn opts' by (simp add: replay_wal_def)
  then have "isl (open_with_options cx rid open_all_ok True (reg_snapshot_file reg) (Some bs) reps' opts)"
    by (auto simp: open_with_options_def read_existing_def open_all_ok_def bind_result_def split: sum.splits)
  then show ?thesis using True by (auto simp: isl_def)
next
  case False
  note fresh = open_fresh_ok [OF assms(2)]
  have run: "registry_ok cx V reg" "reg_options reg = opts"
    using run_registry_ok [OF fresh(1) assms(1,3,4)] fresh(3) by simp_all
  from registry_reopen [OF run(1) assms(1,5) False assms(6)] run(2) show ?thesis
    by (auto simp: same_durable_state_view)
qed

theorem registry_crash_recovery_witness:
  "\<exists>reg V. run_registry demo_codec fr_id file_replica_commit [(demo_io, SubmitOp demo_spec demo_catalog)]
       (demo_registry, {durable_view demo_registry}) = (reg, V)
     \<and> (case open_with_options demo_codec fr_id open_all_ok True (reg_snapshot_file reg) (Some (wf_bytes (reg_wal reg)))
             [demo_replica] demo_options of
          Inl e \<Rightarrow> starts_with_json (wf_bytes (reg_wal reg))
        | Inr reg' \<Rightarrow> durable_view reg' \<in> V
            \<and> (wf_bytes (reg_wal reg) = wf_bytes (reg_wal reg) \<longrightarrow>
                 durable_view reg' = durable_view reg \<and> reg_pending reg' = map_option forget_acks (reg_pending reg)))"
proof -
  obtain reg V where run: "run_registry demo_codec fr_id file_replica_commit [(demo_io, SubmitOp demo_spec demo_catalog)]
       (demo_registry, {durable_view demo_registry}) = (reg, V)" by fastforce
  have "registry_ok demo_codec V reg"
    using run_registry_ok [OF open_fresh_ok(1) [OF demo_open] demo_codec_ok _ run] demo_rio_ok by simp
  note img = registry_ok_crash_image [OF this]
  have "replica_ids_ok [] (map fr_id [demo_replica])" by (simp add: demo_replica_def)
  with registry_crash_recovery [OF demo_codec_ok demo_open _ run img] demo_rio_ok run show ?thesis by auto
qed

section \<open>Tasks\<close>

text \<open>
  Claim C4.  Along every run from an empty registry, every stored task record keeps its
  invariant: attempt numbers are positive and strictly increase, the last attempt is the
  one active attempt exactly while the task is assigned, running or has staged output, a
  staged output belongs to that attempt and its node, and a committed output is the staged
  one and is present exactly in the state \<open>Committed\<close>.
\<close>

theorem registry_task_invariant:
  assumes "codec_ok cx" and "open_with_options cx rid oio rd None None reps opts = Inr reg0"
    and "\<forall>(io, op) \<in> set ops. rio_ok io"
    and "run_registry cx rid cmt ops (reg0, {durable_view reg0}) = (reg, V)"
    and "query reg t = Some r"
  shows "task_ok r \<and> spec_task_id (rec_spec r) = t"
proof -
  note fresh = open_fresh_ok [OF assms(2)]
  have "records_ok reg0" using fresh(2) by (simp add: records_ok_def query_def)
  from run_registry_records [OF fresh(1) assms(1,3) this assms(4)] assms(5) show ?thesis
    by (auto simp: records_ok_def)
qed

lemma demo_run_query:
  "\<exists>reg V r. run_registry demo_codec fr_id file_replica_commit [(demo_io, SubmitOp demo_spec demo_catalog)]
       (demo_registry, {durable_view demo_registry}) = (reg, V) \<and> query reg ''t'' = Some r"
proof -
  obtain pr reg where tl: "transact_locked demo_codec fr_id file_replica_commit demo_io demo_registry demo_mutation 2 True = (Inr pr, reg)"
    using demo_transact by blast
  have "mutation_committed demo_mutation demo_registry reg"
    using transact_locked_ok [OF open_fresh_ok(1) [OF demo_open] demo_codec_ok demo_rio_ok tl] by simp
  then have "\<exists>r. query reg ''t'' = Some r"
    by (auto simp: mutation_committed_def query_def demo_mutation_def submitted_record_def demo_spec_def)
  moreover have "snd (submit demo_codec fr_id file_replica_commit demo_io demo_registry demo_spec demo_catalog) = reg"
    using tl by (simp add: submit_def demo_spec_def demo_registry_def minimum_healthy_copies_def inputs_recoverable_def
        demo_mutation_def map_proof_def)
  ultimately show ?thesis using demo_run by metis
qed

theorem registry_task_invariant_witness:
  "\<exists>reg V r. run_registry demo_codec fr_id file_replica_commit [(demo_io, SubmitOp demo_spec demo_catalog)]
       (demo_registry, {durable_view demo_registry}) = (reg, V) \<and> query reg ''t'' = Some r
     \<and> task_ok r \<and> spec_task_id (rec_spec r) = ''t''"
proof -
  obtain reg V r where r: "run_registry demo_codec fr_id file_replica_commit [(demo_io, SubmitOp demo_spec demo_catalog)]
       (demo_registry, {durable_view demo_registry}) = (reg, V)" "query reg ''t'' = Some r"
    using demo_run_query by blast
  from registry_task_invariant [OF demo_codec_ok demo_open _ r] demo_rio_ok r show ?thesis by auto
qed

text \<open>
  Claim C3.  No task is ever lost, and tasks only move forward: between any two points of a
  run a task keeps its specification and its acceptance mode, its state follows the life
  cycle, its attempts are only extended, and a committed output stays committed, so a
  second output can never replace it.
\<close>

theorem registry_tasks_progress:
  assumes "codec_ok cx" and "open_with_options cx rid oio rd None None reps opts = Inr reg0"
    and "\<forall>(io, op) \<in> set (ops @ later). rio_ok io"
    and "run_registry cx rid cmt ops (reg0, {durable_view reg0}) = (reg, V)"
    and "run_registry cx rid cmt later (reg, V) = (reg', V')"
    and "query reg t = Some r"
  shows "\<exists>r'. query reg' t = Some r' \<and> lifecycle\<^sup>*\<^sup>* (rec_state r) (rec_state r') \<and> rec_spec r' = rec_spec r
     \<and> rec_acceptance r' = rec_acceptance r
     \<and> prefix (map att_attempt (rec_attempts r)) (map att_attempt (rec_attempts r'))
     \<and> (\<forall>c. rec_committed r = Some c \<longrightarrow> rec_committed r' = Some c)"
proof -
  note fresh = open_fresh_ok [OF assms(2)]
  have ios: "\<forall>(io, op) \<in> set ops. rio_ok io" "\<forall>(io, op) \<in> set later. rio_ok io" using assms(3) by auto
  have "records_ok reg0" using fresh(2) by (simp add: records_ok_def query_def)
  then have "records_ok reg" using run_registry_records [OF fresh(1) assms(1) ios(1) _ assms(4)] by simp
  moreover have "registry_ok cx V reg" using run_registry_ok [OF fresh(1) assms(1) ios(1) assms(4)] by simp
  ultimately show ?thesis
    using run_registry_records [OF _ assms(1) ios(2) _ assms(5)] assms(6) by (auto simp: record_le_def)
qed

theorem registry_tasks_progress_witness:
  "\<exists>reg V reg' V' r r'. run_registry demo_codec fr_id file_replica_commit [(demo_io, SubmitOp demo_spec demo_catalog)]
       (demo_registry, {durable_view demo_registry}) = (reg, V)
     \<and> run_registry demo_codec fr_id file_replica_commit [(demo_io, CancelOp ''t'')] (reg, V) = (reg', V')
     \<and> query reg ''t'' = Some r \<and> query reg' ''t'' = Some r' \<and> rec_spec r' = rec_spec r"
proof -
  obtain reg V r where r: "run_registry demo_codec fr_id file_replica_commit [(demo_io, SubmitOp demo_spec demo_catalog)]
       (demo_registry, {durable_view demo_registry}) = (reg, V)" "query reg ''t'' = Some r"
    using demo_run_query by blast
  obtain reg' V' where r': "run_registry demo_codec fr_id file_replica_commit [(demo_io, CancelOp ''t'')] (reg, V) = (reg', V')"
    by fastforce
  from registry_tasks_progress [OF demo_codec_ok demo_open _ r(1) r' r(2)] demo_rio_ok r r' show ?thesis by auto
qed

text \<open>
  The transition function refines the documented life cycle: an accepted mutation
  of a task that exists moves its state along an edge of the life cycle, and a task comes
  into being only in the state that its acceptance mode asks for, with nothing attempted,
  staged or committed, and within the configured number of tasks.
\<close>

theorem prepare_mutation_lifecycle:
  assumes "prepare_mutation records m max_tasks = Inr r'"
  shows "case fmlookup records (mutation_task_id m) of
      Some r \<Rightarrow> lifecycle (rec_state r) (rec_state r') \<and> (is_terminal (rec_state r) \<longrightarrow> rec_state r' = rec_state r)
    | None \<Rightarrow> rec_state r' = initial_state (rec_acceptance r') \<and> rec_attempts r' = [] \<and> rec_staged r' = None
        \<and> rec_committed r' = None \<and> bt_len records < max_tasks"
  using assms
proof (cases rule: prepare_mutation_cases)
  case new
  with assms show ?thesis by (auto split: if_splits)
next
  case (existing r)
  then show ?thesis using apply_existing_lifecycle lifecycle_terminal by fastforce
qed

theorem prepare_mutation_lifecycle_witness:
  "prepare_mutation fmempty demo_mutation 4 = Inr (submitted_record demo_spec)
   \<and> rec_state (submitted_record demo_spec :: (nat, nat, nat) DurableTaskRecord) = Persisted"
proof -
  have pm: "prepare_mutation fmempty demo_mutation 4 = Inr (submitted_record demo_spec)"
    by (simp add: demo_mutation_def bt_contains_def submitted_record_def demo_spec_def)
  from prepare_mutation_lifecycle [OF pm] pm show ?thesis by (simp add: submitted_record_def demo_spec_def)
qed

section \<open>Copies\<close>

text \<open>
  Claim C5.  A submission that is acknowledged has the copies its receipt claims: after any
  run over file replicas, the receipt counts the local log and distinct replicas of the
  registry, at least as many as the acceptance mode asks for, each of which holds exactly
  this transaction at exactly this log index; and the task is in the registry.
\<close>

theorem submit_copies:
  assumes "codec_ok cx" and "open_with_options cx fr_id oio rd None None reps opts = Inr reg0"
    and "\<forall>(io, op) \<in> set ops. rio_ok io" and "rio_ok io"
    and "run_registry cx fr_id file_replica_commit ops (reg0, {durable_view reg0}) = (reg, V)"
    and "submit cx fr_id file_replica_commit io reg spec resources = (Inr receipt, reg')"
  shows "ar_metadata_copies receipt = length (ar_replica_commits receipt) + 1
    \<and> minimum_metadata_copies (spec_requested spec) \<le> ar_metadata_copies receipt
    \<and> copies_held fr_id file_holds (minimum_metadata_copies (spec_requested spec)) (ar_log_index receipt)
         (ar_transaction_id receipt) (ar_replica_commits receipt) (reg_replicas reg')
    \<and> reg_last_log_index reg' = ar_log_index receipt
    \<and> query reg' (spec_task_id spec) = Some (submitted_record spec)"
proof -
  note fresh = open_fresh_ok [OF assms(2)]
  have ok: "registry_ok cx V reg" using run_registry_ok [OF fresh(1) assms(1,3,5)] by simp
  have "pending_held fr_id file_holds reg0" using fresh(4) by (simp add: pending_held_def)
  then have held: "pending_held fr_id file_holds reg" using assms(5) by (rule file_replica.run_pending_held)
  from assms(6) obtain pr where tl: "transact_locked cx fr_id file_replica_commit io reg
      (Submit (submitted_record spec)) (minimum_metadata_copies (spec_requested spec)) (spec_requested spec \<noteq> Fast) = (Inr pr, reg')"
    and rc: "ar_metadata_copies receipt = length (cp_replica_commits pr) + 1" "ar_replica_commits receipt = cp_replica_commits pr"
      "ar_log_index receipt = cp_log_index pr" "ar_transaction_id receipt = cp_transaction_id pr"
    by (auto simp: submit_def Let_def map_proof_def split: if_splits sum.splits prod.splits)
  have "copies_held fr_id file_holds (minimum_metadata_copies (spec_requested spec)) (cp_log_index pr)
      (cp_transaction_id pr) (cp_replica_commits pr) (reg_replicas reg')" "reg_last_log_index reg' = cp_log_index pr"
    using file_replica.transact_copies [OF held tl] by auto
  moreover have "mutation_committed (Submit (submitted_record spec)) reg reg'"
    using transact_locked_ok [OF ok assms(1,4) tl] by simp
  then have "query reg' (spec_task_id spec) = Some (submitted_record spec)"
    by (auto simp: mutation_committed_def query_def submitted_record_def split: if_splits)
  ultimately show ?thesis using rc by (simp add: copies_held_def)
qed

theorem submit_copies_witness:
  "\<exists>receipt reg'. submit demo_codec fr_id file_replica_commit demo_io demo_registry demo_spec demo_catalog = (Inr receipt, reg')
     \<and> 2 \<le> ar_metadata_copies receipt"
proof -
  obtain receipt reg' where s: "submit demo_codec fr_id file_replica_commit demo_io demo_registry demo_spec demo_catalog
      = (Inr receipt, reg')" using demo_submit by (metis prod.collapse)
  have run: "run_registry demo_codec fr_id file_replica_commit [] (demo_registry, {durable_view demo_registry})
      = (demo_registry, {durable_view demo_registry})" by simp
  from submit_copies [OF demo_codec_ok demo_open _ demo_rio_ok run s] s show ?thesis
    by (auto simp: demo_spec_def)
qed

section \<open>Outputs\<close>

text \<open>
  An output that does not come from the active attempt and its node is never
  staged: the operation reports an error, and the only change it can make to the records is
  that the output is appended to the task's quarantined outputs.
\<close>

theorem stale_output_quarantined:
  assumes "codec_ok cx" and "registry_ok cx V reg" and "rio_ok io"
    and "query reg t = Some r" and "active_attempt r = Some act"
    and "att_attempt act \<noteq> a \<or> att_node act \<noteq> w"
    and "stage_output cx rid cmt io reg t a w c resources = (res, reg')"
  shows "isl res \<and> (reg_records reg' = reg_records reg \<or>
    reg_records reg' = fmupd t (r\<lparr>rec_conflicts := rec_conflicts r
      @ [\<lparr>co_attempt = a, co_worker = w, co_content = c, co_reason = stale_reason\<rparr>]\<rparr>) (reg_records reg))"
proof -
  let ?m = "QuarantineOutput t \<lparr>co_attempt = a, co_worker = w, co_content = c, co_reason = stale_reason\<rparr>"
  obtain rt where tl: "transact_locked cx rid cmt io reg ?m (required_copies_of r) (rec_acceptance r \<noteq> Fast) = (rt, reg')"
    and "isl res"
    using assms(4-7) by (auto simp: stage_output_def query_def split: prod.splits sum.splits)
  moreover have "mutation_committed ?m reg reg' \<Longrightarrow> reg_records reg' = fmupd t (r\<lparr>rec_conflicts := rec_conflicts r
      @ [\<lparr>co_attempt = a, co_worker = w, co_content = c, co_reason = stale_reason\<rparr>]\<rparr>) (reg_records reg)"
    using assms(4) by (auto simp: mutation_committed_def query_def prepare_existing_mutation_def bind_result_Inr)
  ultimately show ?thesis
    using transact_locked_ok [OF assms(2,1,3) tl] by (auto simp: same_durable_state_def)
qed

definition demo_attempt :: "nat DurableAttempt" where
  "demo_attempt = \<lparr>att_attempt = 2, att_node = ''n'', att_handle = None, att_runner_generation = 1, att_active = True\<rparr>"

definition demo_content :: ContentId where
  "demo_content = \<lparr>cid_algorithm = ''sha256'', cid_digest = ''d'', cid_size = 1, cid_format = ''raw''\<rparr>"

definition demo_assigned_record :: "(nat, nat, nat) DurableTaskRecord" where
  "demo_assigned_record = (submitted_record demo_spec)\<lparr>rec_state := Assigned, rec_attempts := [demo_attempt]\<rparr>"

definition demo_output :: StagedOutput where
  "demo_output = \<lparr>so_attempt = 2, so_worker = ''n'', so_content = demo_content, so_verified_copies = 1\<rparr>"

text \<open>A registry that holds one record, read from a snapshot, and a codec for one mutation of it.\<close>

definition demo_snapshot :: "(nat, nat, nat) DurableTaskRecord \<Rightarrow> (nat, nat, nat) RegistrySnapshot" where
  "demo_snapshot r = \<lparr>rs_format_version = wal_version, rs_last_included = 2,
     rs_last_transaction_id = ''x'', rs_records = fmupd ''t'' r fmempty, rs_versions = fmupd ''t'' 2 fmempty\<rparr>"

definition demo_prepared_at :: "(nat, nat, nat) RegistryMutation \<Rightarrow> (nat, nat, nat) PreparedPayload" where
  "demo_prepared_at m = \<lparr>pp_transaction_id = hex_string (replicate 32 0), pp_log_index = 3,
     pp_previous_transaction_id = ''x'', pp_task_id = mutation_task_id m, pp_previous_version = 2, pp_new_version = 3,
     pp_mutation = m\<rparr>"

definition demo_codec_at :: "(nat, nat, nat) DurableTaskRecord \<Rightarrow> (nat, nat, nat) RegistryMutation
    \<Rightarrow> (nat, nat, nat) registry_codec" where
  "demo_codec_at r m = \<lparr>cx_sha = (\<lambda>_. replicate 32 0), cx_mutation = serde_single m [1],
     cx_prepared = serde_single (demo_prepared_at m) (replicate 64 7),
     cx_snapshot = serde_single (demo_snapshot r) [9]\<rparr>"

definition demo_at :: "(nat, nat, nat) DurableTaskRecord \<Rightarrow> (nat, nat, nat, FileMetadataReplica) PersistentRegistry" where
  "demo_at r = demo_registry\<lparr>
     reg_snapshot_file := Some (frame_of (\<lambda>_. replicate 32 0) \<lparr>we_kind = Snapshot, we_index = 2, we_payload = [9]\<rparr>),
     reg_records := rs_records (demo_snapshot r), reg_versions := rs_versions (demo_snapshot r),
     reg_last_log_index := 2, reg_last_transaction_id := ''x''\<rparr>"

definition demo_ready_catalog :: ResourceCatalog where
  "demo_ready_catalog = demo_catalog\<lparr>rc_records := fmupd ''d''
     \<lparr>cat_manifest = \<lparr>cm_content_id = demo_content, cm_chunk_size = 1, cm_chunks = [], cm_policy = Reconstructible\<rparr>,
      cat_replicas = [\<lparr>rr_target = Node ''n'', rr_health = Healthy, rr_verified_at = 0\<rparr>],
      cat_reference_count = 0, cat_retain_until = 0, cat_repair_required = False\<rparr> fmempty\<rparr>"

lemma demo_codec_at_ok: "codec_ok (demo_codec_at r m)"
  by (simp add: codec_ok_def demo_codec_at_def sha_ok_def)
     (simp add: serde_single_def demo_prepared_at_def)

lemma demo_at_ok: "registry_ok (demo_codec_at r m) {durable_view (demo_at r)} (demo_at r)"
proof -
  have sha: "sha_ok (\<lambda>_. replicate 32 (0 :: u8))" by (simp add: sha_ok_def)
  have "entry_ok 1 \<lparr>we_kind = Snapshot, we_index = 2, we_payload = [9]\<rparr>" by (simp add: entry_ok_def)
  from frame_of_encode(1) [OF this sha] have "snapshot_file_ok (demo_codec_at r m) (reg_options (demo_at r))
      (demo_snapshot r) (reg_snapshot_file (demo_at r))"
    by (simp add: snapshot_file_ok_def demo_at_def demo_codec_at_def serde_single_def
        demo_snapshot_def demo_registry_def demo_options_def options_for_max_tasks_def bt_len_upd bt_contains_def)
  then have "registry_log (demo_codec_at r m) (demo_snapshot r) [] (replay_start (demo_snapshot r)) 0
      {durable_view (demo_at r)} (demo_at r)"
    using wal_log.start [of "demo_codec_at r m" demo_options "demo_snapshot r"]
    by (auto simp: registry_log_def demo_at_def demo_registry_def memory_matches_def replay_start_def
        demo_snapshot_def demo_options_def options_for_max_tasks_def options_validate_def
        default_max_registry_record_bytes_def replay_view_def durable_view_def elim: wal_log.cases)
  then show ?thesis unfolding registry_ok_def by blast
qed

lemma demo_at_query: "query (demo_at r) ''t'' = Some r"
  by (simp add: query_def demo_at_def demo_snapshot_def)

lemma demo_at_records_ok: "task_ok r \<Longrightarrow> spec_task_id (rec_spec r) = ''t'' \<Longrightarrow> records_ok (demo_at r)"
  by (auto simp: records_ok_def query_def demo_at_def demo_snapshot_def split: if_splits)

lemma demo_at_transact:
  assumes "apply_existing m r = Inr r'" and "mutation_task_id m = ''t''"
  shows "\<exists>pr reg'. transact_locked (demo_codec_at r m) fr_id file_replica_commit demo_io (demo_at r) m 2 True = (Inr pr, reg')"
proof -
  have "prepare_mutation (reg_records (demo_at r)) m 4 = Inr r'"
    using assms by (cases m) (auto simp: demo_at_def demo_snapshot_def prepare_existing_mutation_def)
  then show ?thesis
    using assms(2)
    by (intro demo_commit [of _ "demo_prepared_at m" _ _ r'])
       (simp_all add: demo_codec_at_def serde_single_def demo_prepared_at_def demo_at_def demo_registry_def
          demo_snapshot_def new_prepared_def checked_add_def transaction_id_def version_of_def)
qed

lemma demo_ready: "is_commit_ready demo_ready_catalog demo_content Durable"
  by (simp add: is_commit_ready_def catalog_get_def demo_ready_catalog_def demo_content_def healthy_copies_def
      is_recoverable.simps)

lemma demo_assigned_active: "active_attempt demo_assigned_record = Some demo_attempt"
  by (simp add: active_attempt_def demo_assigned_record_def demo_attempt_def)

theorem stale_output_quarantined_witness:
  "isl (fst (stage_output (demo_codec_at demo_assigned_record (Cancel ''t'')) fr_id file_replica_commit demo_io
     (demo_at demo_assigned_record) ''t'' 1 ''n'' demo_content demo_catalog))"
proof -
  obtain res reg' where s: "stage_output (demo_codec_at demo_assigned_record (Cancel ''t'')) fr_id file_replica_commit
      demo_io (demo_at demo_assigned_record) ''t'' 1 ''n'' demo_content demo_catalog = (res, reg')" by fastforce
  have "att_attempt demo_attempt \<noteq> 1 \<or> att_node demo_attempt \<noteq> ''n''" by (simp add: demo_attempt_def)
  from stale_output_quarantined [OF demo_codec_at_ok demo_at_ok demo_rio_ok demo_at_query
      demo_assigned_active this s] s show ?thesis by simp
qed

text \<open>
  An output is staged only for the newest attempt, from the node that runs it,
  while the task is assigned or running, and only when the catalogue has enough healthy
  copies of the content for the task's acceptance mode; the task is then in the state
  \<open>OutputStaged\<close> with this output.
\<close>

theorem staged_output_fenced:
  assumes "codec_ok cx" and "registry_ok cx V reg" and "rio_ok io" and "records_ok reg"
    and "stage_output cx rid cmt io reg t a w c resources = (Inr u, reg')"
  shows "\<exists>r copies. query reg t = Some r \<and> rec_state r \<in> {Assigned, Running}
    \<and> rec_attempts r \<noteq> [] \<and> att_attempt (last (rec_attempts r)) = a \<and> att_node (last (rec_attempts r)) = w
    \<and> (\<forall>b \<in> set (rec_attempts r). att_attempt b \<le> a)
    \<and> is_commit_ready resources c (rec_acceptance r)
    \<and> query reg' t = Some (r\<lparr>rec_staged := Some \<lparr>so_attempt = a, so_worker = w, so_content = c,
          so_verified_copies = copies\<rparr>, rec_state := OutputStaged\<rparr>)"
proof -
  from assms(5) obtain r act rec pr where r: "query reg t = Some r" "active_attempt r = Some act"
      "att_attempt act = a" "att_node act = w" "rec_state r \<in> {Assigned, Running}"
      "is_commit_ready resources c (rec_acceptance r)"
    and tl: "transact_locked cx rid cmt io reg (StageOutput t \<lparr>so_attempt = a, so_worker = w, so_content = c,
        so_verified_copies = healthy_copies rec\<rparr>) (required_copies_of r) (rec_acceptance r \<noteq> Fast) = (Inr pr, reg')"
    by (auto simp: stage_output_def query_def map_proof_def split: option.splits if_splits sum.splits prod.splits)
  have att: "attempts_ok (rec_state r) (rec_attempts r)" using assms(4) r(1) by (auto simp: records_ok_def task_ok_def)
  moreover have live: "live_state (rec_state r)" using r(5) by (auto simp: live_state_def)
  ultimately have last: "act = last (rec_attempts r)" "rec_attempts r \<noteq> []"
    using active_attempt_live [of r] r(2) by (auto simp: attempts_ok_def)
  have "att_attempt b \<le> att_attempt (last (rec_attempts r))" if "b \<in> set (rec_attempts r)" for b
    using att that last(2) by (cases "rec_attempts r" rule: rev_cases) (auto simp: attempts_ok_def sorted_wrt_append)
  moreover have "mutation_committed (StageOutput t \<lparr>so_attempt = a, so_worker = w, so_content = c,
        so_verified_copies = healthy_copies rec\<rparr>) reg reg'"
    using transact_locked_ok [OF assms(2,1,3) tl] by simp
  then have "query reg' t = Some (r\<lparr>rec_staged := Some \<lparr>so_attempt = a, so_worker = w, so_content = c,
        so_verified_copies = healthy_copies rec\<rparr>, rec_state := OutputStaged\<rparr>)"
    using r by (auto simp: mutation_committed_def query_def prepare_existing_mutation_def bind_result_Inr)
  ultimately show ?thesis using r last by blast
qed

lemma demo_assigned_task_ok:
  "task_ok demo_assigned_record" "spec_task_id (rec_spec demo_assigned_record) = ''t''"
  by (simp_all add: demo_assigned_record_def submitted_record_def demo_spec_def task_ok_def attempts_ok_def
      outputs_ok_def live_state_def demo_attempt_def)

lemma demo_stage:
  "\<exists>reg'. stage_output (demo_codec_at demo_assigned_record (StageOutput ''t'' demo_output)) fr_id file_replica_commit
     demo_io (demo_at demo_assigned_record) ''t'' 2 ''n'' demo_content demo_ready_catalog = (Inr (), reg')"
proof -
  let ?r = "demo_assigned_record\<lparr>rec_staged := Some demo_output, rec_state := OutputStaged\<rparr>"
  let ?tl = "transact_locked (demo_codec_at demo_assigned_record (StageOutput ''t'' demo_output)) fr_id
      file_replica_commit demo_io (demo_at demo_assigned_record) (StageOutput ''t'' demo_output) 2 True"
  have "apply_existing (StageOutput ''t'' demo_output) demo_assigned_record = Inr ?r"
    using demo_assigned_active by (simp add: demo_assigned_record_def demo_attempt_def demo_output_def)
  from demo_at_transact [OF this] obtain pr reg' where "?tl = (Inr pr, reg')" by auto
  moreover have "stage_output (demo_codec_at demo_assigned_record (StageOutput ''t'' demo_output)) fr_id file_replica_commit
     demo_io (demo_at demo_assigned_record) ''t'' 2 ''n'' demo_content demo_ready_catalog = map_proof (\<lambda>_. ()) ?tl"
    using demo_at_query [of demo_assigned_record] demo_assigned_active demo_ready
    by (simp add: stage_output_def query_def demo_attempt_def demo_assigned_record_def catalog_get_def demo_content_def
        demo_ready_catalog_def submitted_record_def demo_spec_def healthy_copies_def required_copies_of_def demo_output_def)
  ultimately show ?thesis by (auto simp: map_proof_def)
qed

theorem staged_output_fenced_witness:
  "\<exists>reg'. stage_output (demo_codec_at demo_assigned_record (StageOutput ''t'' demo_output)) fr_id file_replica_commit
     demo_io (demo_at demo_assigned_record) ''t'' 2 ''n'' demo_content demo_ready_catalog = (Inr (), reg')
   \<and> (\<exists>r. query reg' ''t'' = Some r \<and> rec_state r = OutputStaged)"
proof -
  obtain reg' where s: "stage_output (demo_codec_at demo_assigned_record (StageOutput ''t'' demo_output)) fr_id
     file_replica_commit demo_io (demo_at demo_assigned_record) ''t'' 2 ''n'' demo_content demo_ready_catalog = (Inr (), reg')"
    using demo_stage by blast
  from staged_output_fenced [OF demo_codec_at_ok demo_at_ok demo_rio_ok demo_at_records_ok [OF demo_assigned_task_ok] s] s
  show ?thesis by auto
qed

text \<open>
  A task is committed only from the state \<open>OutputStaged\<close>, with the content that
  was staged, and only while the catalogue has enough healthy copies of it for the task's
  acceptance mode; afterwards no attempt of the task is active.
\<close>

theorem commit_output_final:
  assumes "codec_ok cx" and "registry_ok cx V reg" and "rio_ok io"
    and "commit_output cx rid cmt io reg t resources = (Inr c, reg')"
  shows "\<exists>r out. query reg t = Some r \<and> rec_state r = OutputStaged \<and> rec_staged r = Some out \<and> so_content out = c
    \<and> is_commit_ready resources c (rec_acceptance r)
    \<and> query reg' t = Some (deactivate_attempts (r\<lparr>rec_committed := Some c, rec_state := Committed\<rparr>))"
proof -
  from assms(4) obtain r out pr where r: "query reg t = Some r" "rec_staged r = Some out" "so_content out = c"
      "rec_state r = OutputStaged" "is_commit_ready resources c (rec_acceptance r)"
    and tl: "transact_locked cx rid cmt io reg (CommitOutput t c) (required_copies_of r) (rec_acceptance r \<noteq> Fast)
      = (Inr pr, reg')"
    by (auto simp: commit_output_def query_def map_proof_def split: option.splits if_splits sum.splits prod.splits)
  have "mutation_committed (CommitOutput t c) reg reg'"
    using transact_locked_ok [OF assms(2,1,3) tl] by simp
  then have "query reg' t = Some (deactivate_attempts (r\<lparr>rec_committed := Some c, rec_state := Committed\<rparr>))"
    using r by (auto simp: mutation_committed_def query_def prepare_existing_mutation_def bind_result_Inr)
  with r show ?thesis by blast
qed

definition demo_staged_record :: "(nat, nat, nat) DurableTaskRecord" where
  "demo_staged_record = demo_assigned_record\<lparr>rec_staged := Some demo_output, rec_state := OutputStaged\<rparr>"

theorem commit_output_final_witness:
  "\<exists>reg'. commit_output (demo_codec_at demo_staged_record (CommitOutput ''t'' demo_content)) fr_id file_replica_commit
     demo_io (demo_at demo_staged_record) ''t'' demo_ready_catalog = (Inr demo_content, reg')
   \<and> (\<exists>r. query reg' ''t'' = Some r \<and> rec_state r = Committed)"
proof -
  let ?tl = "transact_locked (demo_codec_at demo_staged_record (CommitOutput ''t'' demo_content)) fr_id
      file_replica_commit demo_io (demo_at demo_staged_record) (CommitOutput ''t'' demo_content) 2 True"
  have "\<exists>r'. apply_existing (CommitOutput ''t'' demo_content) demo_staged_record = Inr r'"
    by (simp add: demo_staged_record_def demo_output_def)
  with demo_at_transact obtain pr reg' where tl: "?tl = (Inr pr, reg')" by fastforce
  have "commit_output (demo_codec_at demo_staged_record (CommitOutput ''t'' demo_content)) fr_id file_replica_commit
     demo_io (demo_at demo_staged_record) ''t'' demo_ready_catalog = map_proof (\<lambda>_. demo_content) ?tl"
    using demo_at_query [of demo_staged_record] demo_ready
    by (simp add: commit_output_def query_def demo_staged_record_def demo_assigned_record_def
        submitted_record_def demo_spec_def required_copies_of_def demo_output_def)
  with tl have s: "commit_output (demo_codec_at demo_staged_record (CommitOutput ''t'' demo_content)) fr_id
     file_replica_commit demo_io (demo_at demo_staged_record) ''t'' demo_ready_catalog = (Inr demo_content, reg')"
    by (simp add: map_proof_def)
  from commit_output_final [OF demo_codec_at_ok demo_at_ok demo_rio_ok s] s show ?thesis by auto
qed

section \<open>Prepared transactions\<close>

text \<open>
  While a transaction is prepared and not yet committed, every other mutation and
  every compaction is refused and changes nothing.
\<close>

theorem prepared_transaction_blocks:
  assumes "reg_pending reg = Some pt" and "pp_mutation (pt_prepared pt) \<noteq> m"
  shows "isl (fst (transact_locked cx rid cmt io reg m required sync))
    \<and> snd (transact_locked cx rid cmt io reg m required sync) = reg
    \<and> compact cx sio tio reg = (Inl still_prepared_error, reg)"
  using assms
  by (auto simp: transact_locked_def Let_def prepare_pending_transaction_def compact_def split: sum.splits option.splits)

definition demo_pending :: "(nat, nat, nat) PendingTransaction" where
  "demo_pending = \<lparr>pt_metadata = \<lparr>mt_transaction_id = ''y'', mt_log_index = 3, mt_previous_version = 2,
       mt_prepare_payload = [], mt_prepare_frame = [1], mt_commit_frame = [2]\<rparr>,
     pt_prepared = demo_prepared_at (Cancel ''t''), pt_resulting_record = demo_assigned_record,
     pt_proofs = fmempty, pt_attempts = fmempty\<rparr>"

theorem prepared_transaction_blocks_witness:
  "snd (transact_locked (demo_codec_at demo_assigned_record (Cancel ''t'')) fr_id file_replica_commit demo_io
      ((demo_at demo_assigned_record)\<lparr>reg_pending := Some demo_pending\<rparr>) (MarkRunning ''t'' 2) 2 True)
    = (demo_at demo_assigned_record)\<lparr>reg_pending := Some demo_pending\<rparr>"
proof -
  let ?reg = "(demo_at demo_assigned_record)\<lparr>reg_pending := Some demo_pending\<rparr>"
  have p: "reg_pending ?reg = Some demo_pending" by simp
  have m: "pp_mutation (pt_prepared demo_pending) \<noteq> MarkRunning ''t'' 2"
    by (simp add: demo_pending_def demo_prepared_at_def)
  show ?thesis using prepared_transaction_blocks [OF p m] by blast
qed

text \<open>
  Repeating the mutation of a prepared transaction finishes that transaction: it
  keeps its transaction id and its log index, the prepare record is not written a second
  time, and the only bytes the log gains are those of the commit record (unless the log is
  compacted away afterwards).
\<close>

theorem retry_finishes_prepared:
  assumes "reg_pending reg = Some pt" and "rio_ok io"
    and "transact_locked cx rid cmt io reg (pp_mutation (pt_prepared pt)) required sync = (Inr pr, reg')"
  shows "cp_transaction_id pr = mt_transaction_id (pt_metadata pt) \<and> cp_log_index pr = mt_log_index (pt_metadata pt)
    \<and> reg_pending reg' = None
    \<and> (wf_bytes (reg_wal reg') = wf_bytes (reg_wal reg) @ mt_commit_frame (pt_metadata pt)
        \<or> wf_bytes (reg_wal reg') = [])"
proof -
  from assms(1,3) have cp: "commit_pending cx rid cmt io pt required sync (reg\<lparr>reg_pending := None\<rparr>) = (Inr pr, reg')"
    by (auto simp: transact_locked_def Let_def prepare_pending_transaction_def split: sum.splits option.splits if_splits)
  obtain pt1 reps where rt: "replicate_transaction rid cmt (rio_replica io) 0 (reg_replicas reg) pt
      (required - 1) sync = (pt1, reps)" by fastforce
  have md: "pt_metadata pt1 = pt_metadata pt" using replicate_forget_acks [OF rt] by (metis prepared_valid_forget(3))
  from cp rt obtain u w where w: "wal_append (rio_commit io) (mt_commit_frame (pt_metadata pt)) sync (reg_wal reg) = (Inr u, w)"
    and ft: "finish_transaction cx io (required - 1) pt1 (reg\<lparr>reg_pending := None, reg_replicas := reps, reg_wal := w\<rparr>) = (Inr pr, reg')"
    by (auto simp: commit_pending_def Let_def md split: if_splits sum.splits prod.splits)
  have wb: "wf_bytes w = wf_bytes (reg_wal reg) @ mt_commit_frame (pt_metadata pt)"
    using w assms(2) by (auto simp: rio_ok_def elim: wal_append_cases)
  obtain rc regc where cl: "compact_locked cx (rio_snapshot io) (rio_truncate io)
      (apply_committed pt1 (reg\<lparr>reg_pending := None, reg_replicas := reps, reg_wal := w\<rparr>)) = (rc, regc)" by fastforce
  have "wf_bytes (reg_wal regc) = wf_bytes w \<or> wf_bytes (reg_wal regc) = []"
    using cl by (auto simp: compact_locked_def apply_committed_def wal_truncate_def Let_def set_len_def
        split: sum.splits prod.splits if_splits)
  then have "wf_bytes (reg_wal reg') = wf_bytes w \<or> wf_bytes (reg_wal reg') = []"
    using cl by (rule_tac finish_transaction_cases [OF ft]) (auto simp: apply_committed_def)
  moreover have "pr = \<lparr>cp_transaction_id = mt_transaction_id (pt_metadata pt), cp_log_index = mt_log_index (pt_metadata pt),
      cp_replica_commits = bt_values (pt_proofs pt1)\<rparr>"
    using md by (rule_tac finish_transaction_cases [OF ft]) auto
  ultimately show ?thesis using wb finish_transaction_frame(2) [OF ft] by simp
qed

theorem retry_finishes_prepared_witness:
  "\<exists>pr reg'. transact_locked (demo_codec_at demo_assigned_record (Cancel ''t'')) fr_id file_replica_commit demo_io
      ((demo_at demo_assigned_record)\<lparr>reg_pending := Some demo_pending\<rparr>) (Cancel ''t'') 2 True = (Inr pr, reg')
    \<and> cp_transaction_id pr = ''y''"
proof -
  let ?reg = "(demo_at demo_assigned_record)\<lparr>reg_pending := Some demo_pending\<rparr>"
  have small: "\<not> (16384 :: u64) \<le> 1" by (simp add: word_le_nat_alt)
  have "\<exists>pr reg'. transact_locked (demo_codec_at demo_assigned_record (Cancel ''t'')) fr_id file_replica_commit demo_io
      ?reg (pp_mutation (pt_prepared demo_pending)) 2 True = (Inr pr, reg')"
    using small
    by (simp add: transact_locked_def Let_def prepare_pending_transaction_def demo_at_def demo_snapshot_def
        demo_registry_def demo_pending_def demo_prepared_at_def prepare_existing_mutation_def demo_assigned_record_def
        demo_codec_at_def serde_single_def version_of_def commit_pending_def demo_replica_def file_replica_commit_def
        wal_append_pair_def wal_append_def demo_io_def append_all_ok_def bt_contains_def bt_len_upd finish_transaction_def
        apply_committed_def compaction_due_def sat_add_def wal_len_def demo_options_def options_for_max_tasks_def
        default_max_registry_record_bytes_def is_terminal_def submitted_record_def)
  then obtain pr reg' where tl: "transact_locked (demo_codec_at demo_assigned_record (Cancel ''t'')) fr_id
      file_replica_commit demo_io ?reg (pp_mutation (pt_prepared demo_pending)) 2 True = (Inr pr, reg')" by blast
  have p: "reg_pending ?reg = Some demo_pending" "pp_mutation (pt_prepared demo_pending) = Cancel ''t''"
    "mt_transaction_id (pt_metadata demo_pending) = ''y''"
    by (simp_all add: demo_pending_def demo_prepared_at_def)
  from retry_finishes_prepared [OF p(1) demo_rio_ok tl] tl p show ?thesis by auto
qed

text \<open>
  A file replica keeps what it acknowledged: when it acknowledges a transaction
  that is to be synced, then whatever bytes a crash leaves of its log, opening that log
  again succeeds and the replica holds the transaction at its index, together with
  everything that was durable before; it holds nothing it did not hold before the crash.
\<close>

theorem file_replica_crash:
  assumes "file_replica_ok cx D r" and sha: "sha_ok (cx_sha cx)"
    and "transaction_wf cx default_max_registry_record_bytes tx" and "aio_rollback io"
    and ci: "file_replica_commit io tx True r = (Inr ack, r')"
    and fresh: "fmlookup (fr_committed r) (mt_log_index tx) = None"
    and "crash_image (fr_wal r') bs" and "\<not> starts_with_json bs"
  shows "\<exists>r''. file_replica_open cx open_all_ok path (Some bs) = Inr r''
    \<and> file_holds r'' (mt_log_index tx) (mt_transaction_id tx)
    \<and> (\<forall>i t. fmlookup D i = Some t \<longrightarrow> file_holds r'' i t)
    \<and> (\<forall>i t. file_holds r'' i t \<longrightarrow> file_holds r' i t)"
proof -
  obtain D' where D': "file_replica_ok cx D' r'" "\<forall>i t. fmlookup D i = Some t \<longrightarrow> fmlookup D' i = Some t"
    "r' \<noteq> r \<longrightarrow> D' = fr_committed r'"
    using file_replica_commit_ok [OF assms(1) sha assms(3) ci assms(4)] by auto
  have held: "file_holds r' (mt_log_index tx) (mt_transaction_id tx)"
    using file_replica.commit_ack [OF ci] by simp
  with fresh have "r' \<noteq> r" by (auto simp: file_holds_def)
  with D'(3) held have "fmlookup D' (mt_log_index tx) = Some (mt_transaction_id tx)"
    by (simp add: file_holds_def)
  with file_replica_reopen [OF D'(1) sha assms(7,8)] D'(2) show ?thesis by blast
qed

definition demo_transaction :: MetadataTransaction where
  "demo_transaction =
     \<lparr>mt_transaction_id = hex_string (replicate 32 0), mt_log_index = 1, mt_previous_version = 0,
      mt_prepare_payload = replicate 64 7,
      mt_prepare_frame = frame_of (\<lambda>_. replicate 32 0) \<lparr>we_kind = Prepare, we_index = 1, we_payload = replicate 64 7\<rparr>,
      mt_commit_frame = frame_of (\<lambda>_. replicate 32 0)
        \<lparr>we_kind = Commit, we_index = 1, we_payload = as_bytes (hex_string (replicate 32 0))\<rparr>\<rparr>"

lemma demo_transaction_wf: "transaction_wf demo_codec default_max_registry_record_bytes demo_transaction"
  by (simp add: transaction_wf_def demo_transaction_def demo_codec_def serde_single_def demo_prepared_def
      frame_of_def encode_frame_def try_u32_def protected_part_def Let_def wal_magic_def
      default_max_registry_record_bytes_def)

theorem file_replica_crash_witness:
  "\<exists>r''. file_replica_open demo_codec open_all_ok ''r''
        (Some (mt_prepare_frame demo_transaction @ mt_commit_frame demo_transaction)) = Inr r''
     \<and> file_holds r'' 1 (hex_string (replicate 32 0))"
proof -
  let ?w = "\<lparr>wf_bytes = mt_prepare_frame demo_transaction @ mt_commit_frame demo_transaction,
             wf_synced = length (mt_prepare_frame demo_transaction @ mt_commit_frame demo_transaction)\<rparr>"
  have ok: "file_replica_ok demo_codec fmempty demo_replica"
    unfolding file_replica_ok_def file_replica_log_def
    by (intro exI [of _ "[]"] exI [of _ 0]) (simp add: demo_replica_def)
  have sha: "sha_ok (cx_sha demo_codec)" by (simp add: demo_codec_def sha_ok_def)
  have rb: "aio_rollback append_all_ok" by (simp add: append_all_ok_def)
  have fresh: "fmlookup (fr_committed demo_replica) (mt_log_index demo_transaction) = None"
    by (simp add: demo_replica_def)
  have ci: "file_replica_commit append_all_ok demo_transaction True demo_replica =
      (Inr \<lparr>ack_replica_id = fr_id demo_replica, ack_transaction_id = mt_transaction_id demo_transaction,
            ack_log_index = mt_log_index demo_transaction\<rparr>,
       demo_replica\<lparr>fr_wal := ?w, fr_committed := fmupd (mt_log_index demo_transaction)
          (mt_transaction_id demo_transaction) fmempty\<rparr>)"
    by (simp add: file_replica_commit_def demo_replica_def wal_append_pair_def wal_append_def append_all_ok_def Let_def)
  have cr: "crash_image (fr_wal (demo_replica\<lparr>fr_wal := ?w, fr_committed := fmupd (mt_log_index demo_transaction)
          (mt_transaction_id demo_transaction) fmempty\<rparr>))
      (mt_prepare_frame demo_transaction @ mt_commit_frame demo_transaction)"
    unfolding crash_image_def
    by (rule exI [of _ "length (mt_prepare_frame demo_transaction @ mt_commit_frame demo_transaction)"]) simp
  have js: "\<not> starts_with_json (mt_prepare_frame demo_transaction @ mt_commit_frame demo_transaction)"
    by (simp add: starts_with_json_def demo_transaction_def frame_of_def encode_frame_def try_u32_def
        protected_part_def Let_def wal_magic_def u32_to_le_four as_bytes_def)
  show ?thesis
    using file_replica_crash [OF ok sha demo_transaction_wf rb ci fresh cr js, where path = "''r''"]
    by (auto simp: demo_transaction_def)
qed

text \<open>
  The test for the retired log format looks at the first two bytes only, which
  in the present format are the low bytes of a frame length.  A log whose first frame has a
  payload of exactly 8775 bytes begins with them, and no registry opens it again, whatever
  follows and whatever the snapshot.
\<close>

theorem legacy_prefix_collision:
  assumes "encode_frame (cx_sha cx) kind log_index payload = Inr frame" and "length payload = 8775"
    and "sha_ok (cx_sha cx)"
  shows "replay_wal cx (frame @ rest) snapshot options = Inl legacy_wal_error"
proof -
  have "length (cx_sha cx x) = 32" for x using assms(3) by (simp add: sha_ok_def)
  then have "\<exists>body. frame = u32_to_le (of_nat 8827) @ body"
    using assms(1,2) by (auto simp: encode_frame_def try_u32_def protected_part_def Let_def wal_magic_def)
  moreover have "u32_to_le (of_nat 8827) = [0x7B, 0x22, 0, 0]"
    by (simp add: u32_to_le_four unat_of_nat)
  ultimately have "starts_with_json (frame @ rest)" by (auto simp: starts_with_json_def as_bytes_def)
  then show ?thesis by (simp add: replay_wal_def)
qed

theorem legacy_prefix_collision_witness:
  "\<exists>frame. encode_frame (cx_sha demo_codec) Prepare 1 (replicate 8775 0) = Inr frame
     \<and> replay_wal demo_codec frame None demo_options = Inl legacy_wal_error"
proof -
  have sha: "sha_ok (cx_sha demo_codec)" by (simp add: demo_codec_def sha_ok_def)
  have "\<exists>frame. encode_frame (cx_sha demo_codec) Prepare 1 (replicate 8775 0) = Inr frame"
    by (simp add: encode_frame_def try_u32_def protected_part_def Let_def wal_magic_def demo_codec_def)
  then obtain frame where f: "encode_frame (cx_sha demo_codec) Prepare 1 (replicate 8775 0) = Inr frame" ..
  have "length (replicate 8775 (0 :: u8)) = 8775" by simp
  then show ?thesis using legacy_prefix_collision [OF f _ sha, of "[]"] f by auto
qed

end
