(* ===== verification/Ha_Contracts.thy ===== *)
theory Ha_Contracts
  imports Contracts
begin

text \<open>
  The descriptors of the control plane, from \<open>ha.rs\<close> of the contracts crate: kinds and roles
  of control nodes, what an operation asks for, control records and their committed form,
  execution grants and control leases with their windows of validity, results that were
  executed before they could be committed, and the pulses of the members.
\<close>

datatype ControlNodeKind = Full | Witness

datatype ControlRole = Leader | Follower | Witness

datatype MemberHealth =
    Healthy | Overloaded | Draining | Suspect | Isolated | Dead | Incompatible

datatype ClusterAvailability =
    Healthy | Impaired | Degraded | QuorumLost | Isolated | SafeStop

datatype ControlOperation =
    Query | LocalWork | ContinueGranted | DurableWrite | MembershipChange | GenerationSwitch
  | IrreversibleEffect

datatype ControlRecordKind =
    Membership | GlobalTask | Assignment | PluginGeneration | ResourceMetadata | ManagementConfig
  | ExecutionGrant | ResultCommit | Reconciliation

record ControlRecord =
  ctl_record_id :: string
  ctl_kind :: ControlRecordKind
  ctl_metadata :: "(string, string) fmap"

record CommittedControlRecord =
  ccr_index :: u64
  ccr_term :: u64
  ccr_epoch :: u64
  ccr_record :: ControlRecord

record ExecutionGrant =
  eg_task_id :: GlobalTaskId
  eg_attempt :: u32
  eg_worker :: NodeId
  eg_term :: u64
  eg_epoch :: u64
  eg_issued_tick :: u64
  eg_valid_until :: u64
  eg_irreversible :: bool

record ControlLease =
  cl_leader :: NodeId
  cl_term :: u64
  cl_issued_tick :: u64
  cl_valid_until :: u64

definition lease_is_valid_at :: "ControlLease \<Rightarrow> u64 \<Rightarrow> bool" where
  "lease_is_valid_at l tick \<longleftrightarrow> tick \<ge> cl_issued_tick l \<and> tick \<le> cl_valid_until l"

definition grant_is_valid_at :: "ExecutionGrant \<Rightarrow> u64 \<Rightarrow> bool" where
  "grant_is_valid_at g tick \<longleftrightarrow> tick \<ge> eg_issued_tick g \<and> tick \<le> eg_valid_until g"

record ExecutedUncommittedResult =
  eur_task_id :: GlobalTaskId
  eur_attempt :: u32
  eur_worker :: NodeId
  eur_grant_term :: u64
  eur_grant_epoch :: u64
  eur_output_digest :: string

datatype ReconciliationDecision = Accept | Reexecute | Compensate | Reject | ManualReview

text \<open>\<open>format!("{decision:?}")\<close>.\<close>

fun decision_debug :: "ReconciliationDecision \<Rightarrow> string" where
  "decision_debug Accept = ''Accept''"
| "decision_debug Reexecute = ''Reexecute''"
| "decision_debug Compensate = ''Compensate''"
| "decision_debug Reject = ''Reject''"
| "decision_debug ManualReview = ''ManualReview''"

record MemberPulseSummary =
  mp_node_id :: NodeId
  mp_capability_version :: u64
  mp_resource_version :: u64
  mp_pressure_bucket :: u8
  mp_health :: MemberHealth

end
