(* ===== verification/Ha_Control.thy ===== *)
theory Ha_Control
  imports Ha_Contracts
begin

text \<open>
  The control plane of \<open>ha_control.rs\<close>: \<open>ReferenceCftModel\<close>, a set of control nodes that each
  keep a term, a vote and a log of committed records in a file of their own, elect a leader,
  and append a record when a majority stored it; the leader's lease, execution grants with
  their epochs, the operations a node is allowed, and results that were executed while the
  quorum was lost.  The file of a node is part of its state.  What the file system answers to
  the writes of a node is an input: a function from node identifiers.
\<close>

section \<open>Errors\<close>

definition control_storage_error :: DistributedError where
  "control_storage_error = error_new Storage ''control plane storage operation failed''"

definition control_corrupt_error :: DistributedError where
  "control_corrupt_error = error_new Corrupt ''control plane state is corrupt''"

definition control_config_error :: DistributedError where
  "control_config_error = error_new InvalidConfig ''control plane configuration is invalid''"

definition control_unavailable :: DistributedError where
  "control_unavailable = error_new WorkerUnavailable ''control node is unavailable''"

definition quorum_lost :: DistributedError where
  "quorum_lost = error_new DistributedErrorKind.QuorumLost ''control plane quorum is unavailable''"

definition node_unknown :: DistributedError where
  "node_unknown = error_new WorkerUnavailable ''control node is unknown''"

definition not_leader :: DistributedError where
  "not_leader = error_new NotLeader ''control write must be submitted to the current Leader''"

definition fenced :: DistributedError where
  "fenced = error_new Fenced ''term, epoch, or attempt has been fenced''"

definition grant_expired :: DistributedError where
  "grant_expired = error_new GrantExpired ''execution grant is absent or expired''"

definition control_lease_expired :: DistributedError where
  "control_lease_expired =
     error_new ControlLeaseExpired ''control lease is absent, expired, or belongs to another term''"

definition consensus_limit_error :: DistributedError where
  "consensus_limit_error =
     error_new CapacityExceeded ''control record exceeds the bounded consensus limit''"

definition result_unknown_error :: DistributedError where
  "result_unknown_error = error_new TaskUnknown ''executed-uncommitted result is unknown''"

lemmas control_errors = control_storage_error_def control_corrupt_error_def control_config_error_def
  control_unavailable_def quorum_lost_def node_unknown_def not_leader_def fenced_def grant_expired_def
  control_lease_expired_def consensus_limit_error_def result_unknown_error_def

section \<open>Control nodes\<close>

definition max_consensus_record_bytes :: nat where
  "max_consensus_record_bytes = 64 * 1024"

definition max_uncommitted_results :: nat where
  "max_uncommitted_results = 4096"

record ControlNodeSnapshot =
  sn_node_id :: NodeId
  sn_kind :: ControlNodeKind
  sn_role :: ControlRole
  sn_current_term :: u64
  sn_voted_for :: "NodeId option"
  sn_log :: "CommittedControlRecord list"

record ControlNode =
  cn_snapshot :: ControlNodeSnapshot
  cn_file :: "bytes option"
  cn_alive :: bool

type_synonym control_nodes = "(NodeId, ControlNode) fmap"

record control_codec =
  cc_snapshot :: "ControlNodeSnapshot serde"
  cc_record :: "ControlRecord \<Rightarrow> bytes option"

fun resting_role :: "ControlNodeKind \<Rightarrow> ControlRole" where
  "resting_role Full = Follower"
| "resting_role ControlNodeKind.Witness = ControlRole.Witness"

definition node_persist ::
  "control_codec \<Rightarrow> write_io \<Rightarrow> ControlNode \<Rightarrow> unit result \<times> ControlNode" where
  "node_persist cc io node =
     (case atomic_replace io (to_vec (cc_snapshot cc) (cn_snapshot node)) (cn_file node) of
        (None, f) \<Rightarrow> (Inr (), node\<lparr>cn_file := f\<rparr>)
      | (Some StorageFailure, f) \<Rightarrow> (Inl control_storage_error, node\<lparr>cn_file := f\<rparr>)
      | (Some EncodeFailure, f) \<Rightarrow> (Inl control_corrupt_error, node\<lparr>cn_file := f\<rparr>))"

definition last_index :: "ControlNode \<Rightarrow> u64" where
  "last_index node =
     (if sn_log (cn_snapshot node) = [] then 0 else ccr_index (last (sn_log (cn_snapshot node))))"

text \<open>A specification of a node with the file found at its storage path, and whether it can be read.\<close>

record ControlNodeSpec =
  spc_node_id :: NodeId
  spc_kind :: ControlNodeKind
  spc_file :: "bytes option"
  spc_readable :: bool

definition fresh_snapshot :: "ControlNodeSpec \<Rightarrow> ControlNodeSnapshot" where
  "fresh_snapshot spec =
     \<lparr>sn_node_id = spc_node_id spec, sn_kind = spc_kind spec, sn_role = resting_role (spc_kind spec),
      sn_current_term = 0, sn_voted_for = None, sn_log = []\<rparr>"

definition node_open :: "control_codec \<Rightarrow> write_io \<Rightarrow> ControlNodeSpec \<Rightarrow> ControlNode result" where
  "node_open cc io spec =
     bind_result
       (case spc_file spec of
          None \<Rightarrow> Inr (fresh_snapshot spec)
        | Some bs \<Rightarrow>
            if \<not> spc_readable spec then Inl control_storage_error
            else bind_result (ok_or control_corrupt_error (from_slice (cc_snapshot cc) bs)) (\<lambda>sn.
              if sn_node_id sn \<noteq> spc_node_id spec \<or> sn_kind sn \<noteq> spc_kind spec
              then Inl control_corrupt_error else Inr sn))
       (\<lambda>sn.
          case node_persist cc io \<lparr>cn_snapshot = sn, cn_file = spc_file spec, cn_alive = True\<rparr> of
            (Inl e, _) \<Rightarrow> Inl e
          | (Inr _, node) \<Rightarrow> Inr node)"

section \<open>Rebuilding the grants\<close>

text \<open>\<open>max_by_key\<close>: the last of the elements with the largest key.\<close>

fun max_by_key :: "('a \<Rightarrow> 'b::linorder) \<Rightarrow> 'a list \<Rightarrow> 'a option" where
  "max_by_key f [] = None"
| "max_by_key f (x # xs) =
     (case max_by_key f xs of None \<Rightarrow> Some x | Some y \<Rightarrow> Some (if f x \<le> f y then y else x))"

definition metadata_number :: "nat \<Rightarrow> (string, string) fmap \<Rightarrow> string \<Rightarrow> nat result" where
  "metadata_number lim m key =
     ok_or control_corrupt_error (Option.bind (fmlookup m key) (parse_unsigned lim))"

definition metadata_bool :: "(string, string) fmap \<Rightarrow> string \<Rightarrow> bool result" where
  "metadata_bool m key = ok_or control_corrupt_error (Option.bind (fmlookup m key) parse_bool)"

definition grant_of_entry :: "CommittedControlRecord \<Rightarrow> ExecutionGrant result" where
  "grant_of_entry e =
     (let m = ctl_metadata (ccr_record e) in
      bind_result (ok_or control_corrupt_error (fmlookup m ''global_task_id'')) (\<lambda>task.
      bind_result (metadata_number (2 ^ 32) m ''attempt'') (\<lambda>attempt.
      bind_result (ok_or control_corrupt_error (fmlookup m ''worker_node'')) (\<lambda>worker.
      bind_result (metadata_number (2 ^ 64) m ''issued_tick'') (\<lambda>issued.
      bind_result (metadata_number (2 ^ 64) m ''valid_until_tick'') (\<lambda>until_tick.
      bind_result (metadata_bool m ''irreversible_effects'') (\<lambda>irreversible.
      Inr \<lparr>eg_task_id = task, eg_attempt = of_nat attempt, eg_worker = worker, eg_term = ccr_term e,
           eg_epoch = ccr_epoch e, eg_issued_tick = of_nat issued, eg_valid_until = of_nat until_tick,
           eg_irreversible = irreversible\<rparr>)))))))"

fun grants_of_log ::
  "CommittedControlRecord list \<Rightarrow> (GlobalTaskId, ExecutionGrant) fmap
     \<Rightarrow> (GlobalTaskId, ExecutionGrant) fmap result" where
  "grants_of_log [] grants = Inr grants"
| "grants_of_log (e # es) grants =
     (if ctl_kind (ccr_record e) \<noteq> ExecutionGrant then grants_of_log es grants
      else bind_result (grant_of_entry e) (\<lambda>g. grants_of_log es (fmupd (eg_task_id g) g grants)))"

definition rebuild_grants :: "control_nodes \<Rightarrow> (GlobalTaskId, ExecutionGrant) fmap result" where
  "rebuild_grants nodes =
     (case max_by_key last_index (bt_values nodes) of
        None \<Rightarrow> Inr fmempty
      | Some source \<Rightarrow> grants_of_log (sn_log (cn_snapshot source)) fmempty)"

section \<open>The cluster\<close>

record ReferenceCftModel =
  cft_nodes :: control_nodes
  cft_links :: "(NodeId \<times> NodeId, bool) fmap"
  cft_leader :: "NodeId option"
  cft_lease :: "ControlLease option"
  cft_epoch :: u64
  cft_grants :: "(GlobalTaskId, ExecutionGrant) fmap"
  cft_uncommitted :: "ExecutedUncommittedResult list"

text \<open>
  Opening returns the nodes as they are when it ends, also when it fails: their files may have
  been rewritten by then.
\<close>

fun open_nodes ::
  "control_codec \<Rightarrow> (NodeId \<Rightarrow> write_io) \<Rightarrow> ControlNodeSpec list \<Rightarrow> control_nodes
     \<Rightarrow> unit result \<times> control_nodes" where
  "open_nodes cc io [] nodes = (Inr (), nodes)"
| "open_nodes cc io (spec # specs) nodes =
     (if bt_contains nodes (spc_node_id spec) then (Inl control_config_error, nodes)
      else case node_open cc (io (spc_node_id spec)) spec of
        Inl e \<Rightarrow> (Inl e, nodes)
      | Inr node \<Rightarrow> open_nodes cc io specs (fmupd (spc_node_id spec) node nodes))"

fun rest_nodes ::
  "control_codec \<Rightarrow> (NodeId \<Rightarrow> write_io) \<Rightarrow> NodeId list \<Rightarrow> control_nodes \<Rightarrow> unit result \<times> control_nodes" where
  "rest_nodes cc io [] nodes = (Inr (), nodes)"
| "rest_nodes cc io (i # is) nodes =
     (case fmlookup nodes i of
        None \<Rightarrow> rest_nodes cc io is nodes
      | Some node \<Rightarrow>
          let sn = cn_snapshot node;
              node = node\<lparr>cn_snapshot := sn\<lparr>sn_role := resting_role (sn_kind sn)\<rparr>\<rparr>
          in case node_persist cc (io i) node of
               (Inl e, node) \<Rightarrow> (Inl e, fmupd i node nodes)
             | (Inr _, node) \<Rightarrow> rest_nodes cc io is (fmupd i node nodes))"

definition kind_count :: "ControlNodeKind \<Rightarrow> control_nodes \<Rightarrow> nat" where
  "kind_count k nodes = length (filter (\<lambda>n. sn_kind (cn_snapshot n) = k) (bt_values nodes))"

definition max_epoch :: "control_nodes \<Rightarrow> u64" where
  "max_epoch nodes =
     fold max (map ccr_epoch (concat (map (\<lambda>n. sn_log (cn_snapshot n)) (bt_values nodes)))) 0"

definition cft_open ::
  "control_codec \<Rightarrow> (NodeId \<Rightarrow> write_io) \<Rightarrow> (NodeId \<Rightarrow> write_io) \<Rightarrow> ControlNodeSpec list
     \<Rightarrow> ReferenceCftModel result \<times> control_nodes" where
  "cft_open cc io1 io2 specs =
     (case open_nodes cc io1 specs fmempty of
        (Inl e, nodes) \<Rightarrow> (Inl e, nodes)
      | (Inr _, nodes) \<Rightarrow>
          if \<not> (3 \<le> kind_count Full nodes
                \<or> (2 \<le> kind_count Full nodes \<and> 1 \<le> kind_count ControlNodeKind.Witness nodes))
          then (Inl control_config_error, nodes)
          else case rest_nodes cc io2 (bt_keys nodes) nodes of
            (Inl e, nodes) \<Rightarrow> (Inl e, nodes)
          | (Inr _, nodes) \<Rightarrow>
              (bind_result (rebuild_grants nodes) (\<lambda>grants.
                 Inr \<lparr>cft_nodes = nodes, cft_links = fmempty, cft_leader = None, cft_lease = None,
                      cft_epoch = max_epoch nodes, cft_grants = grants, cft_uncommitted = []\<rparr>), nodes))"

definition link_key :: "NodeId \<Rightarrow> NodeId \<Rightarrow> NodeId \<times> NodeId" where
  "link_key left right = (if left \<le> right then (left, right) else (right, left))"

definition connected :: "ReferenceCftModel \<Rightarrow> NodeId \<Rightarrow> NodeId \<Rightarrow> bool" where
  "connected c left right \<longleftrightarrow>
     left = right \<or> unwrap_or True (fmlookup (cft_links c) (link_key left right))"

definition voter_count :: "ReferenceCftModel \<Rightarrow> nat" where
  "voter_count c = bt_len (cft_nodes c)"

definition quorum_size :: "ReferenceCftModel \<Rightarrow> nat" where
  "quorum_size c = voter_count c div 2 + 1"

definition reachable_voters :: "ReferenceCftModel \<Rightarrow> NodeId \<Rightarrow> nat" where
  "reachable_voters c observer =
     length (filter (\<lambda>(i, node). cn_alive node \<and> connected c observer i) (bt_entries (cft_nodes c)))"

definition node_is_alive :: "ReferenceCftModel \<Rightarrow> NodeId \<Rightarrow> bool" where
  "node_is_alive c i = (case fmlookup (cft_nodes c) i of None \<Rightarrow> False | Some node \<Rightarrow> cn_alive node)"

definition has_leader_quorum :: "ReferenceCftModel \<Rightarrow> NodeId \<Rightarrow> bool" where
  "has_leader_quorum c observer =
     (case cft_leader c of
        None \<Rightarrow> False
      | Some leader \<Rightarrow>
          leader = observer \<and> node_is_alive c leader \<and> reachable_voters c leader \<ge> quorum_size c)"

definition cft_current_term :: "ReferenceCftModel \<Rightarrow> u64" where
  "cft_current_term c =
     (case cft_leader c of
        None \<Rightarrow> 0
      | Some leader \<Rightarrow>
          (case fmlookup (cft_nodes c) leader of
             None \<Rightarrow> 0
           | Some node \<Rightarrow> sn_current_term (cn_snapshot node)))"

section \<open>Elections and membership\<close>

definition election_voters :: "ReferenceCftModel \<Rightarrow> NodeId \<Rightarrow> u64 \<Rightarrow> NodeId list" where
  "election_voters c candidate candidate_last_index =
     map fst (filter (\<lambda>(i, node). cn_alive node \<and> connected c candidate i
                       \<and> last_index node \<le> candidate_last_index) (bt_entries (cft_nodes c)))"

definition next_term :: "control_nodes \<Rightarrow> u64" where
  "next_term nodes =
     sat_add (fold max (map (\<lambda>n. sn_current_term (cn_snapshot n)) (bt_values nodes)) 0) 1"

definition vote_for :: "NodeId \<Rightarrow> u64 \<Rightarrow> ControlNode \<Rightarrow> ControlNode" where
  "vote_for candidate term node =
     (let sn = cn_snapshot node in
      node\<lparr>cn_snapshot := sn\<lparr>sn_current_term := term, sn_voted_for := Some candidate,
             sn_role := (if sn_kind sn = Full \<and> sn_node_id sn = candidate then Leader
                         else resting_role (sn_kind sn))\<rparr>\<rparr>)"

fun collect_votes ::
  "control_codec \<Rightarrow> (NodeId \<Rightarrow> write_io) \<Rightarrow> NodeId list \<Rightarrow> NodeId \<Rightarrow> u64 \<Rightarrow> NodeId list \<Rightarrow> control_nodes
     \<Rightarrow> unit result \<times> control_nodes" where
  "collect_votes cc io voters candidate term [] nodes = (Inr (), nodes)"
| "collect_votes cc io voters candidate term (i # is) nodes =
     (case fmlookup nodes i of
        None \<Rightarrow> collect_votes cc io voters candidate term is nodes
      | Some node \<Rightarrow>
          if cn_alive node \<and> sn_node_id (cn_snapshot node) \<in> set voters then
            (case node_persist cc (io i) (vote_for candidate term node) of
               (Inl e, node) \<Rightarrow> (Inl e, fmupd i node nodes)
             | (Inr _, node) \<Rightarrow> collect_votes cc io voters candidate term is (fmupd i node nodes))
          else collect_votes cc io voters candidate term is nodes)"

definition elect ::
  "control_codec \<Rightarrow> (NodeId \<Rightarrow> write_io) \<Rightarrow> NodeId \<Rightarrow> ReferenceCftModel \<Rightarrow> u64 result \<times> ReferenceCftModel" where
  "elect cc io candidate c =
     (case fmlookup (cft_nodes c) candidate of
        None \<Rightarrow> (Inl node_unknown, c)
      | Some node \<Rightarrow>
          if \<not> cn_alive node \<or> sn_kind (cn_snapshot node) \<noteq> Full then (Inl control_unavailable, c)
          else
            let term = next_term (cft_nodes c);
                voters = election_voters c candidate (last_index node)
            in if length voters < quorum_size c then (Inl quorum_lost, c\<lparr>cft_leader := None\<rparr>)
               else case collect_votes cc io voters candidate term (bt_keys (cft_nodes c)) (cft_nodes c) of
                 (Inl e, nodes) \<Rightarrow> (Inl e, c\<lparr>cft_nodes := nodes\<rparr>)
               | (Inr _, nodes) \<Rightarrow>
                   (Inr term, c\<lparr>cft_nodes := nodes, cft_leader := Some candidate, cft_lease := None\<rparr>))"

definition set_alive :: "NodeId \<Rightarrow> bool \<Rightarrow> ReferenceCftModel \<Rightarrow> unit result \<times> ReferenceCftModel" where
  "set_alive i alive c =
     (case fmlookup (cft_nodes c) i of
        None \<Rightarrow> (Inl node_unknown, c)
      | Some node \<Rightarrow>
          let c = c\<lparr>cft_nodes := fmupd i (node\<lparr>cn_alive := alive\<rparr>) (cft_nodes c)\<rparr>
          in (Inr (), if \<not> alive \<and> cft_leader c = Some i
                      then c\<lparr>cft_leader := None, cft_lease := None\<rparr> else c))"

fun set_links :: "NodeId \<Rightarrow> bool \<Rightarrow> NodeId list \<Rightarrow> (NodeId \<times> NodeId, bool) fmap \<Rightarrow> (NodeId \<times> NodeId, bool) fmap" where
  "set_links i up [] links = links"
| "set_links i up (other # others) links =
     set_links i up others (if other \<noteq> i then fmupd (link_key i other) up links else links)"

definition isolate :: "NodeId \<Rightarrow> bool \<Rightarrow> ReferenceCftModel \<Rightarrow> unit result \<times> ReferenceCftModel" where
  "isolate i isolated c =
     (if \<not> bt_contains (cft_nodes c) i then (Inl node_unknown, c)
      else
        let c = c\<lparr>cft_links := set_links i (\<not> isolated) (bt_keys (cft_nodes c)) (cft_links c)\<rparr>
        in (Inr (), if isolated \<and> cft_leader c = Some i
                    then c\<lparr>cft_leader := None, cft_lease := None\<rparr> else c))"

definition recover ::
  "control_codec \<Rightarrow> write_io \<Rightarrow> NodeId \<Rightarrow> ReferenceCftModel \<Rightarrow> unit result \<times> ReferenceCftModel" where
  "recover cc io i c =
     (case set_alive i True c of
        (Inl e, c) \<Rightarrow> (Inl e, c)
      | (Inr _, c) \<Rightarrow>
          (case cft_leader c of
             None \<Rightarrow> (Inr (), c)
           | Some leader \<Rightarrow>
               if \<not> connected c i leader then (Inr (), c)
               else case fmlookup (cft_nodes c) leader of
                 None \<Rightarrow> (Inl node_unknown, c)
               | Some ln \<Rightarrow>
                   (case fmlookup (cft_nodes c) i of
                      None \<Rightarrow> (Inl node_unknown, c)
                    | Some node \<Rightarrow>
                        let sn = cn_snapshot node;
                            sn = sn\<lparr>sn_log := sn_log (cn_snapshot ln),
                                    sn_current_term := sn_current_term (cn_snapshot ln),
                                    sn_voted_for := Some leader,
                                    sn_role := resting_role (sn_kind sn)\<rparr>;
                            (r, node) = node_persist cc io (node\<lparr>cn_snapshot := sn\<rparr>)
                        in (r, c\<lparr>cft_nodes := fmupd i node (cft_nodes c)\<rparr>))))"

section \<open>Queries and authorization\<close>

definition node_role :: "ReferenceCftModel \<Rightarrow> NodeId \<Rightarrow> ControlRole result" where
  "node_role c i =
     ok_or node_unknown (map_option (\<lambda>node. sn_role (cn_snapshot node)) (fmlookup (cft_nodes c) i))"

definition committed_records :: "ReferenceCftModel \<Rightarrow> NodeId \<Rightarrow> CommittedControlRecord list result" where
  "committed_records c i =
     ok_or node_unknown (map_option (\<lambda>node. sn_log (cn_snapshot node)) (fmlookup (cft_nodes c) i))"

definition has_valid_grant_for :: "ReferenceCftModel \<Rightarrow> NodeId \<Rightarrow> u64 \<Rightarrow> bool" where
  "has_valid_grant_for c i tick \<longleftrightarrow>
     list_ex (\<lambda>g. eg_worker g = i \<and> grant_is_valid_at g tick) (bt_values (cft_grants c))"

definition availability :: "ReferenceCftModel \<Rightarrow> NodeId \<Rightarrow> u64 \<Rightarrow> ClusterAvailability" where
  "availability c observer tick =
     (if \<not> node_is_alive c observer then SafeStop
      else
        let reachable = reachable_voters c observer in
        if reachable < quorum_size c then
          (if cft_leader c = Some observer then ClusterAvailability.QuorumLost
           else if has_valid_grant_for c observer tick then ClusterAvailability.Isolated else SafeStop)
        else case cft_leader c of
          None \<Rightarrow> Degraded
        | Some leader \<Rightarrow>
            if \<not> connected c observer leader then ClusterAvailability.Isolated
            else if reachable = voter_count c then ClusterAvailability.Healthy
            else if reachable = quorum_size c then Degraded
            else Impaired)"

definition validate_grant :: "ReferenceCftModel \<Rightarrow> NodeId \<Rightarrow> ExecutionGrant \<Rightarrow> u64 \<Rightarrow> unit result" where
  "validate_grant c observer grant tick =
     (if eg_worker grant \<noteq> observer \<or> \<not> grant_is_valid_at grant tick then Inl grant_expired
      else if fmlookup (cft_grants c) (eg_task_id grant) \<noteq> Some grant then Inl fenced
      else Inr ())"

definition validate_result :: "ReferenceCftModel \<Rightarrow> ExecutionGrant \<Rightarrow> u64 \<Rightarrow> unit result" where
  "validate_result c grant tick =
     (if \<not> grant_is_valid_at grant tick then Inl grant_expired
      else if fmlookup (cft_grants c) (eg_task_id grant) \<noteq> Some grant then Inl fenced
      else Inr ())"

fun needs_quorum :: "ControlOperation \<Rightarrow> bool" where
  "needs_quorum Query = False"
| "needs_quorum LocalWork = False"
| "needs_quorum ContinueGranted = False"
| "needs_quorum DurableWrite = True"
| "needs_quorum MembershipChange = True"
| "needs_quorum GenerationSwitch = True"
| "needs_quorum IrreversibleEffect = True"

definition authorize ::
  "ReferenceCftModel \<Rightarrow> NodeId \<Rightarrow> ControlOperation \<Rightarrow> ExecutionGrant option \<Rightarrow> u64 \<Rightarrow> unit result" where
  "authorize c observer op grant tick =
     (if op = Query \<or> op = LocalWork then Inr ()
      else if op = ContinueGranted then
        bind_result (ok_or grant_expired grant) (\<lambda>g. validate_grant c observer g tick)
      else if \<not> has_leader_quorum c observer then Inl quorum_lost
      else if (case cft_lease c of
                 None \<Rightarrow> False
               | Some lease \<Rightarrow> cl_leader lease = observer \<and> cl_term lease = cft_current_term c
                               \<and> lease_is_valid_at lease tick)
      then Inr ()
      else Inl control_lease_expired)"

definition renew_control_lease ::
  "NodeId \<Rightarrow> u64 \<Rightarrow> u64 \<Rightarrow> ReferenceCftModel \<Rightarrow> ControlLease result \<times> ReferenceCftModel" where
  "renew_control_lease leader issued_tick valid_for_ticks c =
     (if valid_for_ticks = 0 \<or> \<not> has_leader_quorum c leader then (Inl quorum_lost, c)
      else
        let lease = \<lparr>cl_leader = leader, cl_term = cft_current_term c, cl_issued_tick = issued_tick,
                     cl_valid_until = sat_add issued_tick valid_for_ticks\<rparr>
        in (Inr lease, c\<lparr>cft_lease := Some lease\<rparr>))"

section \<open>Committing records\<close>

definition with_log :: "(CommittedControlRecord list \<Rightarrow> CommittedControlRecord list) \<Rightarrow> ControlNode \<Rightarrow> ControlNode" where
  "with_log f node = node\<lparr>cn_snapshot := (cn_snapshot node)\<lparr>sn_log := f (sn_log (cn_snapshot node))\<rparr>\<rparr>"

text \<open>The answers of the file system during a proposal: for the append and for its withdrawal.\<close>

record propose_io =
  pio_append :: "NodeId \<Rightarrow> write_io"
  pio_withdraw :: "NodeId \<Rightarrow> write_io"

fun append_to_targets ::
  "control_codec \<Rightarrow> (NodeId \<Rightarrow> write_io) \<Rightarrow> CommittedControlRecord \<Rightarrow> NodeId list \<Rightarrow> control_nodes
     \<Rightarrow> NodeId list result \<times> control_nodes" where
  "append_to_targets cc io entry [] nodes = (Inr [], nodes)"
| "append_to_targets cc io entry (i # is) nodes =
     (case fmlookup nodes i of
        None \<Rightarrow> (Inl node_unknown, nodes)
      | Some node \<Rightarrow>
          (case node_persist cc (io i) (with_log (\<lambda>log. log @ [entry]) node) of
             (Inr _, node) \<Rightarrow>
               (case append_to_targets cc io entry is (fmupd i node nodes) of
                  (Inl e, nodes) \<Rightarrow> (Inl e, nodes)
                | (Inr persisted, nodes) \<Rightarrow> (Inr (i # persisted), nodes))
           | (Inl _, node) \<Rightarrow> append_to_targets cc io entry is (fmupd i (with_log butlast node) nodes)))"

fun withdraw_from ::
  "control_codec \<Rightarrow> (NodeId \<Rightarrow> write_io) \<Rightarrow> NodeId list \<Rightarrow> control_nodes \<Rightarrow> control_nodes" where
  "withdraw_from cc io [] nodes = nodes"
| "withdraw_from cc io (i # is) nodes =
     (case fmlookup nodes i of
        None \<Rightarrow> withdraw_from cc io is nodes
      | Some node \<Rightarrow>
          withdraw_from cc io is (fmupd i (snd (node_persist cc (io i) (with_log butlast node))) nodes))"

definition propose_targets :: "ReferenceCftModel \<Rightarrow> NodeId \<Rightarrow> NodeId list" where
  "propose_targets c leader =
     map fst (filter (\<lambda>(i, node). cn_alive node \<and> connected c leader i) (bt_entries (cft_nodes c)))"

definition propose ::
  "control_codec \<Rightarrow> propose_io \<Rightarrow> NodeId \<Rightarrow> ControlRecord \<Rightarrow> ReferenceCftModel
     \<Rightarrow> CommittedControlRecord result \<times> ReferenceCftModel" where
  "propose cc io leader rec c =
     (if cft_leader c \<noteq> Some leader then (Inl not_leader, c)
      else if \<not> has_leader_quorum c leader then (Inl quorum_lost, c)
      else case cc_record cc rec of
        None \<Rightarrow> (Inl control_corrupt_error, c)
      | Some encoded \<Rightarrow>
          if length encoded > max_consensus_record_bytes then (Inl consensus_limit_error, c)
          else case fmlookup (cft_nodes c) leader of
            None \<Rightarrow> (Inl node_unknown, c)
          | Some ln \<Rightarrow>
              let epoch = sat_add (cft_epoch c) 1;
                  committed = \<lparr>ccr_index = sat_add (last_index ln) 1, ccr_term = cft_current_term c,
                               ccr_epoch = epoch, ccr_record = rec\<rparr>
              in case append_to_targets cc (pio_append io) committed (propose_targets c leader) (cft_nodes c) of
                   (Inl e, nodes) \<Rightarrow> (Inl e, c\<lparr>cft_nodes := nodes\<rparr>)
                 | (Inr persisted, nodes) \<Rightarrow>
                     if length persisted < quorum_size c
                     then (Inl quorum_lost, c\<lparr>cft_nodes := withdraw_from cc (pio_withdraw io) persisted nodes\<rparr>)
                     else (Inr committed, c\<lparr>cft_nodes := nodes, cft_epoch := epoch\<rparr>))"

definition propose_from ::
  "control_codec \<Rightarrow> propose_io \<Rightarrow> NodeId \<Rightarrow> ControlRecord \<Rightarrow> u64 \<Rightarrow> ReferenceCftModel
     \<Rightarrow> CommittedControlRecord result \<times> ReferenceCftModel" where
  "propose_from cc io ingress rec tick c =
     (case cft_leader c of
        None \<Rightarrow> (Inl not_leader, c)
      | Some leader \<Rightarrow>
          if \<not> connected c ingress leader \<or> \<not> node_is_alive c ingress then (Inl not_leader, c)
          else case authorize c leader DurableWrite None tick of
            Inl e \<Rightarrow> (Inl e, c)
          | Inr _ \<Rightarrow> propose cc io leader rec c)"

section \<open>Grants and results\<close>

definition grant_record :: "ExecutionGrant \<Rightarrow> ControlRecord" where
  "grant_record g =
     \<lparr>ctl_record_id = ''grant:'' @ eg_task_id g @ '':'' @ dec_string (unat (eg_epoch g)),
      ctl_kind = ExecutionGrant,
      ctl_metadata =
        fmupd ''irreversible_effects'' (bool_string (eg_irreversible g))
        (fmupd ''valid_until_tick'' (dec_string (unat (eg_valid_until g)))
        (fmupd ''issued_tick'' (dec_string (unat (eg_issued_tick g)))
        (fmupd ''worker_node'' (eg_worker g)
        (fmupd ''attempt'' (dec_string (unat (eg_attempt g)))
        (fmupd ''global_task_id'' (eg_task_id g) fmempty)))))\<rparr>"

definition issue_grant ::
  "control_codec \<Rightarrow> propose_io \<Rightarrow> NodeId \<Rightarrow> GlobalTaskId \<Rightarrow> u32 \<Rightarrow> NodeId \<Rightarrow> u64 \<Rightarrow> u64 \<Rightarrow> bool
     \<Rightarrow> ReferenceCftModel \<Rightarrow> ExecutionGrant result \<times> ReferenceCftModel" where
  "issue_grant cc io leader task attempt worker issued_tick valid_for_ticks irreversible c =
     (if attempt = 0 \<or> valid_for_ticks = 0 then (Inl control_config_error, c)
      else case authorize c leader (if irreversible then IrreversibleEffect else DurableWrite) None issued_tick of
        Inl e \<Rightarrow> (Inl e, c)
      | Inr _ \<Rightarrow>
          let grant = \<lparr>eg_task_id = task, eg_attempt = attempt, eg_worker = worker,
                       eg_term = cft_current_term c, eg_epoch = sat_add (cft_epoch c) 1,
                       eg_issued_tick = issued_tick, eg_valid_until = sat_add issued_tick valid_for_ticks,
                       eg_irreversible = irreversible\<rparr>
          in case propose cc io leader (grant_record grant) c of
               (Inl e, c) \<Rightarrow> (Inl e, c)
             | (Inr _, c) \<Rightarrow> (Inr grant, c\<lparr>cft_grants := fmupd task grant (cft_grants c)\<rparr>))"

definition record_uncommitted_result ::
  "NodeId \<Rightarrow> ExecutedUncommittedResult \<Rightarrow> u64 \<Rightarrow> ReferenceCftModel \<Rightarrow> unit result \<times> ReferenceCftModel" where
  "record_uncommitted_result observer result tick c =
     (if has_leader_quorum c observer \<or> length (cft_uncommitted c) \<ge> max_uncommitted_results
      then (Inl control_config_error, c)
      else case fmlookup (cft_grants c) (eur_task_id result) of
        None \<Rightarrow> (Inl fenced, c)
      | Some grant \<Rightarrow>
          if eg_attempt grant \<noteq> eur_attempt result \<or> eg_worker grant \<noteq> eur_worker result
             \<or> eg_term grant \<noteq> eur_grant_term result \<or> eg_epoch grant \<noteq> eur_grant_epoch result
          then (Inl fenced, c)
          else case validate_grant c observer grant tick of
            Inl e \<Rightarrow> (Inl e, c)
          | Inr _ \<Rightarrow> (Inr (), c\<lparr>cft_uncommitted := cft_uncommitted c @ [result]\<rparr>))"

fun position :: "('a \<Rightarrow> bool) \<Rightarrow> 'a list \<Rightarrow> nat option" where
  "position p [] = None"
| "position p (x # xs) = (if p x then Some 0 else map_option Suc (position p xs))"

definition remove_at :: "nat \<Rightarrow> 'a list \<Rightarrow> 'a list" where
  "remove_at n xs = take n xs @ drop (Suc n) xs"

text \<open>
  \<open>self.current_epoch + 1\<close> in the record identifier wraps in a release build; a debug build
  would panic at the largest epoch.
\<close>

definition reconcile_record :: "GlobalTaskId \<Rightarrow> ReconciliationDecision \<Rightarrow> u64 \<Rightarrow> ControlRecord" where
  "reconcile_record task decision epoch =
     \<lparr>ctl_record_id = ''reconcile:'' @ task @ '':'' @ dec_string (unat (epoch + 1)),
      ctl_kind = Reconciliation,
      ctl_metadata = fmupd ''decision'' (decision_debug decision)
                       (fmupd ''global_task_id'' task fmempty)\<rparr>"

definition reconcile ::
  "control_codec \<Rightarrow> propose_io \<Rightarrow> NodeId \<Rightarrow> GlobalTaskId \<Rightarrow> ReconciliationDecision \<Rightarrow> u64
     \<Rightarrow> ReferenceCftModel \<Rightarrow> ExecutedUncommittedResult result \<times> ReferenceCftModel" where
  "reconcile cc io leader task decision tick c =
     (case authorize c leader DurableWrite None tick of
        Inl e \<Rightarrow> (Inl e, c)
      | Inr _ \<Rightarrow>
          (case position (\<lambda>r. eur_task_id r = task) (cft_uncommitted c) of
             None \<Rightarrow> (Inl result_unknown_error, c)
           | Some n \<Rightarrow>
               let result = cft_uncommitted c ! n in
               case propose cc io leader (reconcile_record task decision (cft_epoch c)) c of
                 (Inl e, c) \<Rightarrow> (Inl e, c)
               | (Inr _, c) \<Rightarrow> (Inr result, c\<lparr>cft_uncommitted := remove_at n (cft_uncommitted c)\<rparr>)))"

end
