(* ===== verification/Ha_Consensus.thy ===== *)
theory Ha_Consensus
  imports Ha_Control Durable_Cell
begin

text \<open>
  Agreement of the control logs.  The logs of the nodes are read off the state as a map from
  node identifiers to lists; on that map the invariant says that no index and no epoch names
  two records, that each log ascends, and that a quorum, with the leader among it, is at the
  tip.  Two quorums always share a node (the locale \<open>quorums\<close>), which is why a candidate that
  is not behind a quorum of voters is at the tip.  Every operation keeps the invariant,
  whatever writes fail, as long as the write of the leader's own node succeeds while it
  commits; without that condition the invariant does not hold, see \<open>Ha_Properties\<close>.
\<close>

section \<open>Quorums\<close>

locale quorums =
  fixes voters :: "'n set" and size :: nat
  assumes finite_voters: "finite voters" and majority: "card voters < 2 * size"
begin

lemma quorums_intersect:
  assumes "A \<subseteq> voters" "B \<subseteq> voters" "size \<le> card A" "size \<le> card B"
  shows "A \<inter> B \<noteq> {}"
proof
  assume "A \<inter> B = {}"
  then have "card (A \<union> B) = card A + card B"
    using assms finite_voters by (intro card_Un_disjoint) (auto intro: finite_subset)
  moreover have "card (A \<union> B) \<le> card voters"
    using assms finite_voters by (intro card_mono) auto
  ultimately show False using assms(3,4) majority by linarith
qed

lemma quorum_not_empty: "size \<le> card A \<Longrightarrow> A \<noteq> {}"
  using majority by (cases "size = 0") auto

end

interpretation cft_quorum: quorums "fset (fmdom (cft_nodes c))" "quorum_size c" for c
  by unfold_locales (auto simp: quorum_size_def voter_count_def bt_len_def fcard.rep_eq)

section \<open>The logs of a cluster\<close>

type_synonym control_log = "CommittedControlRecord list"

definition node_log :: "control_nodes \<Rightarrow> NodeId \<Rightarrow> control_log option" where
  "node_log nodes i = map_option (\<lambda>n. sn_log (cn_snapshot n)) (fmlookup nodes i)"

definition log_last :: "control_log \<Rightarrow> u64" where
  "log_last l = (if l = [] then 0 else ccr_index (last l))"

text \<open>What of a node the log operations leave alone.\<close>

definition node_core :: "ControlNode \<Rightarrow> ControlNodeSnapshot \<times> bool" where
  "node_core n = ((cn_snapshot n)\<lparr>sn_log := []\<rparr>, cn_alive n)"

definition cores :: "control_nodes \<Rightarrow> NodeId \<Rightarrow> (ControlNodeSnapshot \<times> bool) option" where
  "cores nodes i = map_option node_core (fmlookup nodes i)"

lemma last_index_log: "last_index n = log_last (sn_log (cn_snapshot n))"
  by (simp add: last_index_def log_last_def)

lemma node_log_Some: "node_log nodes i = Some l \<longleftrightarrow> (\<exists>n. fmlookup nodes i = Some n \<and> sn_log (cn_snapshot n) = l)"
  by (auto simp: node_log_def)

lemma node_persist_frame [simp]:
  "cn_snapshot (snd (node_persist cc io n)) = cn_snapshot n" "cn_alive (snd (node_persist cc io n)) = cn_alive n"
  by (auto simp: node_persist_def split: prod.splits option.splits write_failure.splits)

lemma node_persist_cases:
  assumes "node_persist cc io n = (r, n')"
  obtains (stored) bs where "r = Inr ()" "n' = n\<lparr>cn_file := Some bs\<rparr>" "to_vec (cc_snapshot cc) (cn_snapshot n) = Some bs"
  | (failed) e where "r = Inl e" "n' = n"
  using assms by (cases "atomic_replace io (to_vec (cc_snapshot cc) (cn_snapshot n)) (cn_file n)")
    (auto simp: node_persist_def split: option.splits write_failure.splits dest: atomic_replace_cases)

lemma with_log_simps [simp]:
  "sn_log (cn_snapshot (with_log f n)) = f (sn_log (cn_snapshot n))"
  "node_core (with_log f n) = node_core n" "cn_alive (with_log f n) = cn_alive n"
  "node_core (n\<lparr>cn_file := x\<rparr>) = node_core n"
  "with_log f (with_log g n) = with_log (f \<circ> g) n"
  by (simp_all add: with_log_def node_core_def)

lemma with_log_id [simp]: "with_log (butlast \<circ> (\<lambda>l. l @ [e])) n = n"
  by (simp add: with_log_def)

lemma node_log_upd: "node_log (fmupd i n nodes) = (node_log nodes)(i := Some (sn_log (cn_snapshot n)))"
  by (auto simp: node_log_def)

lemma cores_upd: "cores (fmupd i n nodes) = (cores nodes)(i := Some (node_core n))"
  by (auto simp: cores_def)

definition total_codec :: "control_codec \<Rightarrow> bool" where
  "total_codec cc \<longleftrightarrow> (\<forall>sn. to_vec (cc_snapshot cc) sn \<noteq> None)"

text \<open>The node's file holds the node's snapshot.\<close>

definition node_stored :: "control_codec \<Rightarrow> control_nodes \<Rightarrow> NodeId \<Rightarrow> bool" where
  "node_stored cc nodes i \<longleftrightarrow>
     (\<exists>n. fmlookup nodes i = Some n \<and> cn_file n \<noteq> None \<and> cn_file n = to_vec (cc_snapshot cc) (cn_snapshot n))"

text \<open>The node has appended an entry and its file was rewritten with it; nothing else of it changed.\<close>

definition node_appended :: "control_codec \<Rightarrow> CommittedControlRecord \<Rightarrow> control_nodes \<Rightarrow> control_nodes \<Rightarrow> NodeId \<Rightarrow> bool" where
  "node_appended cc e nodes nodes' i \<longleftrightarrow>
     (\<exists>n bs. fmlookup nodes i = Some n \<and> to_vec (cc_snapshot cc) (cn_snapshot (with_log (\<lambda>l. l @ [e]) n)) = Some bs
       \<and> fmlookup nodes' i = Some ((with_log (\<lambda>l. l @ [e]) n)\<lparr>cn_file := Some bs\<rparr>))"

text \<open>
  The effect of appending an entry: it is at the end of the logs, and in the files, of the nodes
  that stored it, and every other node is as it was.
\<close>

definition appended ::
  "control_codec \<Rightarrow> (NodeId \<Rightarrow> write_io) \<Rightarrow> CommittedControlRecord \<Rightarrow> NodeId list \<Rightarrow> control_nodes
     \<Rightarrow> NodeId list \<Rightarrow> control_nodes \<Rightarrow> bool" where
  "appended cc io e targets nodes persisted nodes' \<longleftrightarrow>
     set persisted \<subseteq> set targets \<and> distinct persisted
     \<and> node_log nodes' = (\<lambda>i. if i \<in> set persisted then map_option (\<lambda>l. l @ [e]) (node_log nodes i) else node_log nodes i)
     \<and> cores nodes' = cores nodes
     \<and> (\<forall>i \<in> set persisted. node_stored cc nodes' i)
     \<and> (\<forall>i \<in> set persisted. node_appended cc e nodes nodes' i)
     \<and> (\<forall>i. i \<notin> set persisted \<longrightarrow> fmlookup nodes' i = fmlookup nodes i)
     \<and> (total_codec cc \<longrightarrow> (\<forall>i \<in> set targets. io i = io_all_ok \<longrightarrow> i \<in> set persisted))"

lemma append_to_targets_spec:
  assumes "distinct is" and "set is \<subseteq> fset (fmdom nodes)"
  shows "\<exists>persisted nodes'. append_to_targets cc io e is nodes = (Inr persisted, nodes')
    \<and> appended cc io e is nodes persisted nodes'"
  using assms
proof (induction "is" arbitrary: nodes)
  case (Cons i "is")
  then obtain n where n: "fmlookup nodes i = Some n" by (auto simp: fmlookup_dom_iff)
  obtain r n' where np: "node_persist cc (io i) (with_log (\<lambda>log. log @ [e]) n) = (r, n')" by fastforce
  have c: "cores nodes i = Some (node_core n)" "node_log nodes i = Some (sn_log (cn_snapshot n))"
    using n by (simp_all add: cores_def node_log_def)
  show ?case
  proof (cases rule: node_persist_cases [OF np])
    case (1 bs)
    have pre: "distinct is" "set is \<subseteq> fset (fmdom (fmupd i n' nodes))" using Cons.prems by auto
    from Cons.IH [OF pre] obtain ps nodes' where
      ih: "append_to_targets cc io e is (fmupd i n' nodes) = (Inr ps, nodes')"
      "appended cc io e is (fmupd i n' nodes) ps nodes'" by blast
    have i: "i \<notin> set ps" "i \<notin> set is" "fmlookup nodes' i = Some n'"
      using Cons.prems ih(2) by (auto simp: appended_def)
    then have "node_stored cc nodes' i" using 1 by (simp add: node_stored_def)
    moreover have "node_appended cc e nodes nodes' i" using n i(3) 1(2,3) by (simp add: node_appended_def)
    moreover have "node_appended cc e nodes nodes' j" if "j \<in> set ps" for j
    proof -
      have "node_appended cc e (fmupd i n' nodes) nodes' j" "j \<noteq> i" using ih(2) that i(1) by (auto simp: appended_def)
      then show ?thesis by (simp add: node_appended_def)
    qed
    moreover have "node_log nodes' = (\<lambda>j. if j \<in> set (i # ps)
        then map_option (\<lambda>l. l @ [e]) (node_log nodes j) else node_log nodes j)"
      using ih(2) i 1 c by (auto simp: appended_def node_log_upd fun_eq_iff)
    moreover have "cores nodes' = cores nodes" using ih(2) 1 c by (simp add: appended_def cores_upd fun_upd_idem)
    moreover have "append_to_targets cc io e (i # is) nodes = (Inr (i # ps), nodes')"
      using n np 1 ih(1) by simp
    ultimately show ?thesis using ih(2) i by (auto simp: appended_def)
  next
    case (2 err)
    have n': "with_log butlast n' = n" using 2 by simp
    have idem: "fmupd i n nodes = nodes" using n by (intro fmap_ext) auto
    from Cons.IH [of nodes] Cons.prems obtain ps nodes' where
      ih: "append_to_targets cc io e is nodes = (Inr ps, nodes')" "appended cc io e is nodes ps nodes'" by auto
    have "\<not> (io i = io_all_ok \<and> total_codec cc)"
      using np 2 by (auto simp: node_persist_def atomic_replace_def io_all_ok_def total_codec_def split: option.splits)
    moreover have "append_to_targets cc io e (i # is) nodes = (Inr ps, nodes')"
      using n np 2 ih(1) idem n' by simp
    ultimately show ?thesis using ih(2) by (auto simp: appended_def)
  qed
qed (simp add: appended_def)

text \<open>The withdrawal takes the last entry of each node's log and writes the node's snapshot again.\<close>

lemma withdraw_from_lookup:
  assumes "distinct is"
  shows "fmlookup (withdraw_from cc io is nodes) i =
    (if i \<in> set is then map_option (\<lambda>n. snd (node_persist cc (io i) (with_log butlast n))) (fmlookup nodes i)
     else fmlookup nodes i)"
  using assms by (induction "is" arbitrary: nodes) (auto split: option.split)

text \<open>
  What a failed proposal leaves of a node: the node as it was, or, where the entry was stored, the
  old log with the file written once more for the withdrawal.
\<close>

definition node_withdrawn ::
  "control_codec \<Rightarrow> (NodeId \<Rightarrow> write_io) \<Rightarrow> CommittedControlRecord \<Rightarrow> control_nodes \<Rightarrow> control_nodes \<Rightarrow> NodeId \<Rightarrow> bool" where
  "node_withdrawn cc io e nodes nodes' i \<longleftrightarrow>
     fmlookup nodes' i = fmlookup nodes i
     \<or> (\<exists>n bs. fmlookup nodes i = Some n \<and> to_vec (cc_snapshot cc) (cn_snapshot (with_log (\<lambda>l. l @ [e]) n)) = Some bs
         \<and> fmlookup nodes' i = Some (snd (node_persist cc (io i) (n\<lparr>cn_file := Some bs\<rparr>))))"

lemma withdraw_appended:
  assumes "appended cc io e targets nodes ps nodes1"
  shows "node_withdrawn cc io' e nodes (withdraw_from cc io' ps nodes1) i"
proof (cases "i \<in> set ps")
  case True
  then have "node_appended cc e nodes nodes1 i" using assms by (simp add: appended_def)
  then obtain n bs where n: "fmlookup nodes i = Some n"
    "to_vec (cc_snapshot cc) (cn_snapshot (with_log (\<lambda>l. l @ [e]) n)) = Some bs"
    "fmlookup nodes1 i = Some ((with_log (\<lambda>l. l @ [e]) n)\<lparr>cn_file := Some bs\<rparr>)"
    unfolding node_appended_def by blast
  have undo: "with_log butlast ((with_log (\<lambda>l. l @ [e]) n)\<lparr>cn_file := Some bs\<rparr>) = n\<lparr>cn_file := Some bs\<rparr>"
    by (simp add: with_log_def)
  show ?thesis
    using n undo True assms by (auto simp: node_withdrawn_def withdraw_from_lookup appended_def)
next
  case False
  then have "fmlookup (withdraw_from cc io' ps nodes1) i = fmlookup nodes i"
    using assms by (simp add: withdraw_from_lookup appended_def)
  then show ?thesis by (simp add: node_withdrawn_def)
qed

lemma withdraw_from_spec:
  assumes "distinct is"
  shows "node_log (withdraw_from cc io is nodes) =
      (\<lambda>i. if i \<in> set is then map_option butlast (node_log nodes i) else node_log nodes i)
    \<and> cores (withdraw_from cc io is nodes) = cores nodes"
  using assms
proof (induction "is" arbitrary: nodes)
  case (Cons i "is")
  show ?case
  proof (cases "fmlookup nodes i")
    case None
    with Cons show ?thesis by (auto simp: fun_eq_iff node_log_def)
  next
    case (Some n)
    let ?n = "snd (node_persist cc (io i) (with_log butlast n))"
    have "cores nodes i = Some (node_core n)" "node_log nodes i = Some (sn_log (cn_snapshot n))"
      using Some by (simp_all add: cores_def node_log_def)
    moreover have "node_core ?n = node_core n" by (simp add: node_core_def with_log_def)
    ultimately show ?thesis
      using Cons Some by (auto simp: node_log_upd cores_upd fun_eq_iff)
  qed
qed simp

lemma propose_targets_set:
  "set (propose_targets c l) = {i. \<exists>n. fmlookup (cft_nodes c) i = Some n \<and> cn_alive n \<and> connected c l i}"
  unfolding propose_targets_def set_filter_keys by simp

lemma propose_targets_ok:
  "distinct (propose_targets c l)" "set (propose_targets c l) \<subseteq> fset (fmdom (cft_nodes c))"
  unfolding propose_targets_set by (auto simp: propose_targets_def fmlookup_dom_iff)

text \<open>The entry a leader would append for a record.\<close>

definition proposed_entry :: "ReferenceCftModel \<Rightarrow> NodeId \<Rightarrow> ControlRecord \<Rightarrow> CommittedControlRecord \<Rightarrow> bool" where
  "proposed_entry c l rec e \<longleftrightarrow>
     (\<exists>ln. fmlookup (cft_nodes c) l = Some ln \<and>
       e = \<lparr>ccr_index = sat_add (last_index ln) 1, ccr_term = cft_current_term c,
            ccr_epoch = sat_add (cft_epoch c) 1, ccr_record = rec\<rparr>)"

text \<open>A proposal either commits on a quorum, or it leaves logs, roles and epoch as they were.\<close>

lemma propose_cases:
  assumes "propose cc io l rec c = (res, c')"
  obtains (committed) ln ps nodes' e where "cft_leader c = Some l" "has_leader_quorum c l"
      "fmlookup (cft_nodes c) l = Some ln" "res = Inr e"
      "e = \<lparr>ccr_index = sat_add (last_index ln) 1, ccr_term = cft_current_term c,
            ccr_epoch = sat_add (cft_epoch c) 1, ccr_record = rec\<rparr>"
      "appended cc (pio_append io) e (propose_targets c l) (cft_nodes c) ps nodes'"
      "quorum_size c \<le> length ps" "c' = c\<lparr>cft_nodes := nodes', cft_epoch := sat_add (cft_epoch c) 1\<rparr>"
  | (refused) err nodes' where "res = Inl err" "c' = c\<lparr>cft_nodes := nodes'\<rparr>"
      "node_log nodes' = node_log (cft_nodes c)" "cores nodes' = cores (cft_nodes c)"
      "\<forall>i. fmlookup nodes' i = fmlookup (cft_nodes c) i
        \<or> (\<exists>e. proposed_entry c l rec e \<and> node_withdrawn cc (pio_withdraw io) e (cft_nodes c) nodes' i)"
proof (cases "cft_leader c = Some l \<and> has_leader_quorum c l \<and> (\<exists>bs. cc_record cc rec = Some bs
    \<and> length bs \<le> max_consensus_record_bytes) \<and> fmlookup (cft_nodes c) l \<noteq> None")
  case False
  then have "\<exists>err. res = Inl err \<and> c' = c"
    using assms by (auto simp: propose_def not_le split: if_splits option.splits)
  then show ?thesis using refused [where nodes' = "cft_nodes c"] by auto
next
  case True
  then obtain ln where ln: "fmlookup (cft_nodes c) l = Some ln" by auto
  define e where "e = \<lparr>ccr_index = sat_add (last_index ln) 1, ccr_term = cft_current_term c,
            ccr_epoch = sat_add (cft_epoch c) 1, ccr_record = rec\<rparr>"
  obtain ps nodes1 where ap: "append_to_targets cc (pio_append io) e (propose_targets c l) (cft_nodes c) = (Inr ps, nodes1)"
    and sp: "appended cc (pio_append io) e (propose_targets c l) (cft_nodes c) ps nodes1"
    using append_to_targets_spec [OF propose_targets_ok] by blast
  show ?thesis
  proof (cases "length ps < quorum_size c")
    case True
    let ?n = "withdraw_from cc (pio_withdraw io) ps nodes1"
    have "node_log ?n = node_log (cft_nodes c)" "cores ?n = cores (cft_nodes c)"
      using sp withdraw_from_spec [of ps cc "pio_withdraw io" nodes1]
      by (auto simp: appended_def fun_eq_iff option.map_comp comp_def option.map_ident)
    moreover have "res = Inl quorum_lost" "c' = c\<lparr>cft_nodes := ?n\<rparr>"
      using assms \<open>cft_leader c = Some l \<and> _\<close> True ln ap by (auto simp: propose_def Let_def e_def)
    moreover have "proposed_entry c l rec e" using ln e_def by (simp add: proposed_entry_def)
    ultimately show ?thesis using refused withdraw_appended [OF sp] by blast
  next
    case False
    have "res = Inr e" "c' = c\<lparr>cft_nodes := nodes1, cft_epoch := sat_add (cft_epoch c) 1\<rparr>"
      using assms \<open>cft_leader c = Some l \<and> _\<close> False ln ap by (auto simp: propose_def Let_def e_def)
    then show ?thesis using committed [OF _ _ ln _ e_def sp] True False by simp
  qed
qed

section \<open>The invariant on logs\<close>

definition records :: "(NodeId \<Rightarrow> control_log option) \<Rightarrow> CommittedControlRecord set" where
  "records L = {r. \<exists>i l. L i = Some l \<and> r \<in> set l}"

text \<open>Every log ends at \<open>M\<close> or before, and a quorum, with the leader, ends there.\<close>

definition at_tip :: "(NodeId \<Rightarrow> control_log option) \<Rightarrow> nat \<Rightarrow> NodeId option \<Rightarrow> u64 \<Rightarrow> bool" where
  "at_tip L q leader M \<longleftrightarrow>
     (\<forall>i l. L i = Some l \<longrightarrow> log_last l \<le> M)
     \<and> q \<le> card {i. \<exists>l. L i = Some l \<and> log_last l = M}
     \<and> (\<forall>i. leader = Some i \<longrightarrow> (\<exists>l. L i = Some l \<and> log_last l = M))"

definition ascending :: "control_log \<Rightarrow> bool" where
  "ascending l \<longleftrightarrow> sorted_wrt (<) (map ccr_index l) \<and> (\<forall>r \<in> set l. 0 < ccr_index r)"

definition logs_ok :: "(NodeId \<Rightarrow> control_log option) \<Rightarrow> nat \<Rightarrow> NodeId option \<Rightarrow> u64 \<Rightarrow> bool" where
  "logs_ok L q leader E \<longleftrightarrow>
     inj_on ccr_index (records L) \<and> inj_on ccr_epoch (records L)
     \<and> (\<forall>r \<in> records L. ccr_epoch r \<le> E)
     \<and> (\<forall>i l. L i = Some l \<longrightarrow> ascending l)
     \<and> (\<exists>M \<le> E. at_tip L q leader M)"

lemma ascending_last: "ascending l \<Longrightarrow> r \<in> set l \<Longrightarrow> ccr_index r \<le> log_last l"
  by (cases l rule: rev_cases)
    (auto simp: ascending_def log_last_def sorted_wrt_append intro: order.strict_implies_order)

lemma ascending_snoc: "ascending l \<Longrightarrow> log_last l < ccr_index e \<Longrightarrow> ascending (l @ [e])"
  using ascending_last [of l]
  by (auto simp: ascending_def sorted_wrt_append word_gt_0 intro: order.strict_trans1)

lemma records_bound: "logs_ok L q leader E \<Longrightarrow> at_tip L q' leader' M \<Longrightarrow> r \<in> records L \<Longrightarrow> ccr_index r \<le> M"
  by (fastforce simp: logs_ok_def records_def at_tip_def intro: order.trans [OF ascending_last])

lemma logs_ok_leader_None: "logs_ok L q leader E \<Longrightarrow> logs_ok L q None E"
  by (fastforce simp: logs_ok_def at_tip_def)

text \<open>Appending at the leader's next index, on a quorum that includes the leader.\<close>

lemma inj_on_insert_above:
  "inj_on f A \<Longrightarrow> (\<And>a. a \<in> A \<Longrightarrow> f a < f x) \<Longrightarrow> inj_on f (insert x A)" for f :: "'a \<Rightarrow> 'b::order"
  by (auto simp: inj_on_insert) (metis order.strict_iff_not)

lemma records_append:
  assumes "p \<in> P" "L p = Some l0"
  shows "records (\<lambda>i. if i \<in> P then map_option (\<lambda>l. l @ [e]) (L i) else L i) = insert e (records L)"
    (is "records ?L = _")
proof (intro equalityI subsetI)
  fix r assume "r \<in> records ?L"
  then obtain i l where "?L i = Some l" "r \<in> set l" unfolding records_def by blast
  then show "r \<in> insert e (records L)" by (cases "i \<in> P") (auto simp: records_def)
next
  fix r assume r: "r \<in> insert e (records L)"
  show "r \<in> records ?L"
  proof (cases "r = e")
    case True
    then have "?L p = Some (l0 @ [e]) \<and> r \<in> set (l0 @ [e])" using assms by simp
    then show ?thesis unfolding records_def by blast
  next
    case False
    with r obtain i l where "L i = Some l" "r \<in> set l" by (auto simp: records_def)
    then have "?L i = Some (if i \<in> P then l @ [e] else l) \<and> r \<in> set (if i \<in> P then l @ [e] else l)" by simp
    then show ?thesis unfolding records_def by blast
  qed
qed

lemma logs_ok_append:
  assumes ok: "logs_ok L q (Some ld) E" and "E \<noteq> - 1" and ld: "L ld = Some l0"
    and e: "ccr_index e = sat_add (log_last l0) 1" "ccr_epoch e = sat_add E 1"
    and P: "P \<subseteq> dom L" "q \<le> card P" "ld \<in> P" "finite (dom L)"
  shows "logs_ok (\<lambda>i. if i \<in> P then map_option (\<lambda>l. l @ [e]) (L i) else L i) q (Some ld) (sat_add E 1)"
proof -
  let ?L = "\<lambda>i. if i \<in> P then map_option (\<lambda>l. l @ [e]) (L i) else L i"
  obtain M where M: "M \<le> E" "at_tip L q (Some ld) M" using ok by (auto simp: logs_ok_def)
  then have lM: "log_last l0 = M" using ld by (auto simp: at_tip_def)
  have E: "sat_add E 1 = E + 1" "E < sat_add E 1" using sat_add_one_fresh [OF assms(2)] by auto
  have "M \<noteq> - 1" using M(1) assms(2) by (metis order.antisym word_n1_ge)
  then have idx: "ccr_index e = M + 1" "M < ccr_index e"
    using sat_add_one_fresh [of M] e(1) lM by auto
  have recs: "records ?L = insert e (records L)" using P(3) ld by (rule records_append [where L = L])
  have below: "ccr_index r < ccr_index e" "ccr_epoch r < ccr_epoch e" if "r \<in> records L" for r
    using records_bound [OF ok M(2) that] idx(2) ok that E(2) e(2)
    by (auto simp: logs_ok_def intro: order.strict_trans1)
  have "M + 1 \<le> E + 1"
  proof -
    have "unat (M + 1) = unat M + 1" "unat (E + 1) = unat E + 1"
      using \<open>M \<noteq> - 1\<close> assms(2) by (simp_all add: unat_succ)
    then show ?thesis using M(1) by (simp add: word_le_nat_alt)
  qed
  moreover have "at_tip ?L q (Some ld) (M + 1)"
  proof -
    have last: "log_last (l @ [e]) = M + 1" for l using idx by (simp add: log_last_def)
    have "P \<subseteq> {i. \<exists>l. ?L i = Some l \<and> log_last l = M + 1}" using P(1) last by auto
    moreover have "finite {i. \<exists>l. ?L i = Some l \<and> log_last l = M + 1}"
      by (rule finite_subset [OF _ P(4)]) (auto split: if_splits)
    ultimately have "q \<le> card {i. \<exists>l. ?L i = Some l \<and> log_last l = M + 1}"
      using P(2) card_mono le_trans by blast
    moreover have "log_last l \<le> M + 1" if "L i = Some l" for i l
      using that M(2) idx by (force simp: at_tip_def)
    ultimately show ?thesis using ld P(3) last by (auto simp: at_tip_def split: if_splits)
  qed
  moreover have "ascending (l @ [e])" if "L i = Some l" for i l
    using that ok M(2) idx(2) by (intro ascending_snoc) (auto simp: logs_ok_def at_tip_def intro: order.strict_trans1)
  moreover have "\<forall>r \<in> records ?L. ccr_epoch r \<le> sat_add E 1"
    using below(2) e(2) unfolding recs by (auto intro: order.strict_implies_order)
  moreover have "inj_on ccr_index (records ?L)"
    unfolding recs by (rule inj_on_insert_above) (use ok below in \<open>auto simp: logs_ok_def\<close>)
  moreover have "inj_on ccr_epoch (records ?L)"
    unfolding recs by (rule inj_on_insert_above) (use ok below in \<open>auto simp: logs_ok_def\<close>)
  ultimately show ?thesis using ok E(1) by (auto simp: logs_ok_def split: if_splits)
qed

section \<open>The invariant of the cluster\<close>

definition member_ids :: "control_nodes \<Rightarrow> NodeId \<Rightarrow> NodeId option" where
  "member_ids nodes i = map_option (\<lambda>n. sn_node_id (cn_snapshot n)) (fmlookup nodes i)"

definition grants_ok :: "(GlobalTaskId, ExecutionGrant) fmap \<Rightarrow> u64 \<Rightarrow> bool" where
  "grants_ok grants E \<longleftrightarrow> fmpred (\<lambda>t g. eg_task_id g = t \<and> eg_epoch g \<le> E) grants"

definition cft_ok :: "ReferenceCftModel \<Rightarrow> bool" where
  "cft_ok c \<longleftrightarrow>
     logs_ok (node_log (cft_nodes c)) (quorum_size c) (cft_leader c) (cft_epoch c)
     \<and> (\<forall>i j. member_ids (cft_nodes c) i = Some j \<longrightarrow> j = i)
     \<and> grants_ok (cft_grants c) (cft_epoch c)
     \<and> length (cft_uncommitted c) \<le> max_uncommitted_results"

lemma dom_node_log: "dom (node_log nodes) = fset (fmdom nodes)"
  by (auto simp: node_log_def fmlookup_dom_iff)

lemma fmdom_member_ids: "member_ids nodes' = member_ids nodes \<Longrightarrow> fmdom nodes' = fmdom nodes"
proof -
  assume "member_ids nodes' = member_ids nodes"
  then have "fmlookup nodes' i = None \<longleftrightarrow> fmlookup nodes i = None" for i
    unfolding member_ids_def fun_eq_iff by (metis option.map_disc_iff)
  then show ?thesis by (simp add: fset_eq_iff fmlookup_dom_iff) (metis not_None_eq)
qed

lemma member_ids_cores: "cores nodes' = cores nodes \<Longrightarrow> member_ids nodes' = member_ids nodes"
proof -
  have "member_ids nodes i = map_option (\<lambda>(sn, _). sn_node_id sn) (cores nodes i)" for nodes i
    by (simp add: member_ids_def cores_def node_core_def option.map_comp comp_def)
  then show "cores nodes' = cores nodes \<Longrightarrow> member_ids nodes' = member_ids nodes" by (simp add: fun_eq_iff)
qed

lemma quorum_size_members [simp]:
  "member_ids nodes' = member_ids (cft_nodes c) \<Longrightarrow> quorum_size (c\<lparr>cft_nodes := nodes'\<rparr>) = quorum_size c"
  by (drule fmdom_member_ids) (simp add: quorum_size_def voter_count_def bt_len_def)

lemma quorum_size_frame [simp]:
  "quorum_size (c\<lparr>cft_leader := a\<rparr>) = quorum_size c" "quorum_size (c\<lparr>cft_lease := b\<rparr>) = quorum_size c"
  "quorum_size (c\<lparr>cft_links := d\<rparr>) = quorum_size c" "quorum_size (c\<lparr>cft_grants := g\<rparr>) = quorum_size c"
  "quorum_size (c\<lparr>cft_uncommitted := u\<rparr>) = quorum_size c" "quorum_size (c\<lparr>cft_epoch := x\<rparr>) = quorum_size c"
  by (simp_all add: quorum_size_def voter_count_def)

lemma cft_ok_nodes:
  "cft_ok c \<Longrightarrow> node_log nodes' = node_log (cft_nodes c) \<Longrightarrow> member_ids nodes' = member_ids (cft_nodes c)
   \<Longrightarrow> cft_ok (c\<lparr>cft_nodes := nodes'\<rparr>)"
  by (simp add: cft_ok_def)

lemma cft_ok_frame:
  "cft_ok c \<Longrightarrow> cft_ok (c\<lparr>cft_leader := None\<rparr>)" "cft_ok c \<Longrightarrow> cft_ok (c\<lparr>cft_lease := b\<rparr>)"
  "cft_ok c \<Longrightarrow> cft_ok (c\<lparr>cft_links := d\<rparr>)"
  by (auto simp: cft_ok_def intro: logs_ok_leader_None)

lemma grants_ok_mono: "grants_ok g E \<Longrightarrow> E \<le> E' \<Longrightarrow> grants_ok g E'"
  unfolding grants_ok_def fmpred_iff by (meson order.trans)

lemma propose_ok:
  assumes ok: "cft_ok c" and E: "cft_epoch c \<noteq> - 1" and pr: "propose cc io l rec c = (res, c')"
    and "total_codec cc" and "cft_leader c = Some l \<Longrightarrow> pio_append io l = io_all_ok"
  shows "cft_ok c'"
proof (cases rule: propose_cases [OF pr])
  case (1 ln ps nodes' e)
  have ln: "node_log (cft_nodes c) l = Some (sn_log (cn_snapshot ln))" using 1(3) by (simp add: node_log_def)
  have "l \<in> set (propose_targets c l)"
    using 1(1,2,3) by (auto simp: propose_targets_set has_leader_quorum_def node_is_alive_def connected_def)
  then have lp: "l \<in> set ps" using 1(1,6) assms(4,5) by (simp add: appended_def)
  have sub: "set ps \<subseteq> dom (node_log (cft_nodes c))" "quorum_size c \<le> card (set ps)"
    using 1(6,7) propose_targets_ok(2) [of c l] by (auto simp: appended_def dom_node_log distinct_card)
  have nl: "node_log nodes' = (\<lambda>i. if i \<in> set ps then map_option (\<lambda>l. l @ [e]) (node_log (cft_nodes c) i)
      else node_log (cft_nodes c) i)" using 1(6) by (simp add: appended_def)
  have "logs_ok (node_log nodes') (quorum_size c) (Some l) (sat_add (cft_epoch c) 1)"
    unfolding nl using ok 1(1,5) lp sub ln E
    by (intro logs_ok_append) (auto simp: cft_ok_def last_index_log dom_node_log)
  moreover have "member_ids nodes' = member_ids (cft_nodes c)"
    using 1(6) by (intro member_ids_cores) (simp add: appended_def)
  moreover have "grants_ok (cft_grants c) (sat_add (cft_epoch c) 1)"
    using ok sat_add_ge [of "cft_epoch c" 1] grants_ok_mono by (auto simp: cft_ok_def)
  ultimately show ?thesis using ok 1(1,8) by (simp add: cft_ok_def)
next
  case (2 err nodes')
  then show ?thesis using cft_ok_nodes [OF ok] member_ids_cores by metis
qed

lemma propose_epoch:
  "propose cc io l rec c = (res, c') \<Longrightarrow> cft_grants c' = cft_grants c \<and> cft_uncommitted c' = cft_uncommitted c
     \<and> cft_leader c' = cft_leader c \<and> cft_lease c' = cft_lease c \<and> cft_links c' = cft_links c
     \<and> cft_epoch c' = (if isl res then cft_epoch c else sat_add (cft_epoch c) 1)"
  by (cases rule: propose_cases [of cc io l "rec" c res c']) auto

section \<open>Elections\<close>

lemma collect_votes_frame:
  assumes "collect_votes cc io voters cand term is nodes = (r, nodes')"
  shows "node_log nodes' = node_log nodes \<and> member_ids nodes' = member_ids nodes"
  using assms
proof (induction "is" arbitrary: nodes)
  case (Cons i "is")
  show ?case
  proof (cases "\<exists>n. fmlookup nodes i = Some n \<and> cn_alive n \<and> sn_node_id (cn_snapshot n) \<in> set voters")
    case False
    with Cons show ?thesis by (auto split: option.splits)
  next
    case True
    then obtain n where n: "fmlookup nodes i = Some n" "cn_alive n" "sn_node_id (cn_snapshot n) \<in> set voters" by blast
    obtain r1 n' where np: "node_persist cc (io i) (vote_for cand term n) = (r1, n')" by fastforce
    have sn: "cn_snapshot n' = cn_snapshot (vote_for cand term n)"
      using node_persist_frame(1) [of cc "io i" "vote_for cand term n"] np by simp
    have same: "node_log (fmupd i n' nodes) = node_log nodes" "member_ids (fmupd i n' nodes) = member_ids nodes"
      using n(1) sn by (auto simp: node_log_def member_ids_def fun_eq_iff vote_for_def Let_def)
    show ?thesis
      using Cons.prems Cons.IH [of "fmupd i n' nodes"] n np same by (cases r1) auto
  qed
qed simp

lemma election_voters_set:
  "set (election_voters c cand m) =
     {i. \<exists>n. fmlookup (cft_nodes c) i = Some n \<and> cn_alive n \<and> connected c cand i \<and> last_index n \<le> m}"
  unfolding election_voters_def set_filter_keys by simp

text \<open>A candidate that is not behind a quorum of voters is at the tip, because a quorum is there.\<close>

lemma elected_at_tip:
  assumes ok: "logs_ok (node_log (cft_nodes c)) (quorum_size c) leader E"
    and n: "fmlookup (cft_nodes c) cand = Some n"
    and q: "quorum_size c \<le> length (election_voters c cand (last_index n))"
  shows "logs_ok (node_log (cft_nodes c)) (quorum_size c) (Some cand) E"
proof -
  let ?L = "node_log (cft_nodes c)"
  obtain M where M: "M \<le> E" "at_tip ?L (quorum_size c) leader M" using ok by (auto simp: logs_ok_def)
  let ?T = "{i. \<exists>l. ?L i = Some l \<and> log_last l = M}" and ?V = "set (election_voters c cand (last_index n))"
  have "card ?V = length (election_voters c cand (last_index n))"
    by (rule distinct_card) (simp add: election_voters_def)
  moreover have "?V \<subseteq> fset (fmdom (cft_nodes c))" "?T \<subseteq> fset (fmdom (cft_nodes c))"
    by (auto simp: election_voters_set fmlookup_dom_iff node_log_def)
  ultimately have "?T \<inter> ?V \<noteq> {}"
    using M(2) q by (intro cft_quorum.quorums_intersect) (auto simp: at_tip_def)
  then obtain i where "i \<in> ?T" "i \<in> ?V" by blast
  then obtain m where "last_index m = M" "last_index m \<le> last_index n"
    by (auto simp: election_voters_set node_log_def last_index_log)
  moreover have "last_index n \<le> M"
    using M(2) n by (auto simp: at_tip_def node_log_def last_index_log)
  ultimately have "last_index n = M" by simp
  then have "at_tip ?L (quorum_size c) (Some cand) M"
    using M(2) n by (auto simp: at_tip_def node_log_def last_index_log)
  with ok M(1) show ?thesis by (auto simp: logs_ok_def)
qed

lemma elect_ok:
  assumes ok: "cft_ok c" and el: "elect cc io cand c = (res, c')"
  shows "cft_ok c'"
proof (cases "\<exists>n. fmlookup (cft_nodes c) cand = Some n \<and> cn_alive n \<and> sn_kind (cn_snapshot n) = Full
    \<and> quorum_size c \<le> length (election_voters c cand (last_index n))")
  case False
  then have "c' = c \<or> c' = c\<lparr>cft_leader := None\<rparr>"
    using el by (auto simp: elect_def Let_def not_le split: option.splits if_splits)
  then show ?thesis using ok cft_ok_frame by auto
next
  case True
  then obtain n where n: "fmlookup (cft_nodes c) cand = Some n" "cn_alive n" "sn_kind (cn_snapshot n) = Full"
    "quorum_size c \<le> length (election_voters c cand (last_index n))" by blast
  obtain r nodes' where cv: "collect_votes cc io (election_voters c cand (last_index n)) cand
      (next_term (cft_nodes c)) (bt_keys (cft_nodes c)) (cft_nodes c) = (r, nodes')" by fastforce
  note fr = collect_votes_frame [OF cv]
  have "c' = c\<lparr>cft_nodes := nodes'\<rparr> \<or> c' = c\<lparr>cft_nodes := nodes', cft_leader := Some cand, cft_lease := None\<rparr>"
    using el n cv by (cases r) (auto simp: elect_def Let_def)
  moreover have "logs_ok (node_log nodes') (quorum_size c) (Some cand) (cft_epoch c)"
    using elected_at_tip [OF _ n(1,4), of "cft_leader c" "cft_epoch c"] ok fr by (simp add: cft_ok_def)
  ultimately show ?thesis using ok fr by (auto simp: cft_ok_def)
qed

section \<open>Membership and recovery\<close>

lemma set_alive_frame:
  assumes "set_alive i b c = (res, c')"
  obtains (unknown) "res = Inl node_unknown" "c' = c" "fmlookup (cft_nodes c) i = None"
  | (set) n where "res = Inr ()" "fmlookup (cft_nodes c) i = Some n"
      "cft_nodes c' = fmupd i (n\<lparr>cn_alive := b\<rparr>) (cft_nodes c)"
      "c' = c\<lparr>cft_nodes := cft_nodes c'\<rparr> \<or> c' = c\<lparr>cft_nodes := cft_nodes c', cft_leader := None, cft_lease := None\<rparr>"
      "b \<Longrightarrow> cft_leader c' = cft_leader c"
  using assms by (auto simp: set_alive_def Let_def split: option.splits if_splits)

lemma alive_upd_logs:
  assumes "fmlookup nodes i = Some n"
  shows "node_log (fmupd i (n\<lparr>cn_alive := b\<rparr>) nodes) = node_log nodes"
    and "member_ids (fmupd i (n\<lparr>cn_alive := b\<rparr>) nodes) = member_ids nodes"
  using assms by (auto simp: node_log_def member_ids_def fun_eq_iff)

lemma set_alive_ok: "cft_ok c \<Longrightarrow> set_alive i b c = (res, c') \<Longrightarrow> cft_ok c'"
  by (erule set_alive_frame) (auto simp: alive_upd_logs intro!: cft_ok_nodes cft_ok_frame)

lemma isolate_ok: "cft_ok c \<Longrightarrow> isolate i b c = (res, c') \<Longrightarrow> cft_ok c'"
  by (auto simp: isolate_def Let_def split: if_splits intro!: cft_ok_frame)

lemma logs_ok_copy:
  assumes ok: "logs_ok L q (Some ld) E" and ld: "L ld = Some l" and fin: "finite (dom L)" and i: "i \<in> dom L"
  shows "logs_ok (L(i := Some l)) q (Some ld) E"
proof -
  let ?L = "L(i := Some l)"
  obtain M where M: "M \<le> E" "at_tip L q (Some ld) M" using ok by (auto simp: logs_ok_def)
  have lM: "log_last l = M" using M(2) ld by (simp add: at_tip_def)
  have sub: "records ?L \<subseteq> records L" using ld by (auto simp: records_def split: if_splits)
  have "{j. \<exists>k. L j = Some k \<and> log_last k = M} \<subseteq> {j. \<exists>k. ?L j = Some k \<and> log_last k = M}" using lM by auto
  moreover have "finite {j. \<exists>k. ?L j = Some k \<and> log_last k = M}"
    by (rule finite_subset [OF _ fin]) (use i in \<open>auto split: if_splits\<close>)
  ultimately have "card {j. \<exists>k. L j = Some k \<and> log_last k = M} \<le> card {j. \<exists>k. ?L j = Some k \<and> log_last k = M}"
    by (rule card_mono [rotated])
  then have "at_tip ?L q (Some ld) M" using M(2) lM by (auto simp: at_tip_def)
  then show ?thesis
    using ok M(1) ld sub inj_on_subset [OF _ sub] unfolding logs_ok_def by (auto split: if_splits)
qed

lemma recover_ok:
  assumes ok: "cft_ok c" and rc: "recover cc io i c = (res, c')"
  shows "cft_ok c'"
proof -
  obtain r1 c1 where sa: "set_alive i True c = (r1, c1)" by fastforce
  note ok1 = set_alive_ok [OF ok sa]
  show ?thesis
  proof (cases "r1 = Inr () \<and> (\<exists>ld. cft_leader c1 = Some ld \<and> connected c1 i ld \<and> fmlookup (cft_nodes c1) ld \<noteq> None)
      \<and> fmlookup (cft_nodes c1) i \<noteq> None")
    case False
    then have "c' = c1" using rc sa by (auto simp: recover_def split: sum.splits option.splits if_splits)
    with ok1 show ?thesis by simp
  next
    case True
    then obtain ld ln n where l: "cft_leader c1 = Some ld" "connected c1 i ld" "fmlookup (cft_nodes c1) ld = Some ln"
      "fmlookup (cft_nodes c1) i = Some n" by auto
    define sn where "sn = (cn_snapshot n)\<lparr>sn_log := sn_log (cn_snapshot ln), sn_current_term := sn_current_term (cn_snapshot ln),
        sn_voted_for := Some ld, sn_role := resting_role (sn_kind (cn_snapshot n))\<rparr>"
    obtain r2 n' where np: "node_persist cc io (n\<lparr>cn_snapshot := sn\<rparr>) = (r2, n')" by fastforce
    have "cn_snapshot n' = sn" using node_persist_frame(1) [of cc io "n\<lparr>cn_snapshot := sn\<rparr>"] np by simp
    then have nl: "node_log (fmupd i n' (cft_nodes c1)) = (node_log (cft_nodes c1))(i := Some (sn_log (cn_snapshot ln)))"
      and mi: "member_ids (fmupd i n' (cft_nodes c1)) = member_ids (cft_nodes c1)"
      using l(4) by (auto simp: node_log_upd member_ids_def sn_def fun_eq_iff)
    have "c' = c1\<lparr>cft_nodes := fmupd i n' (cft_nodes c1)\<rparr>"
      using rc sa True l np by (auto simp: recover_def Let_def sn_def)
    moreover have "logs_ok (node_log (fmupd i n' (cft_nodes c1))) (quorum_size c1) (cft_leader c1) (cft_epoch c1)"
      unfolding nl l(1) using ok1 l by (intro logs_ok_copy) (auto simp: cft_ok_def node_log_def dom_node_log fmlookup_dom_iff)
    ultimately show ?thesis using ok1 mi by (simp add: cft_ok_def)
  qed
qed

section \<open>Grants and results\<close>

lemma issue_grant_cases:
  assumes "issue_grant cc io l t a w tick d irr c = (res, c')"
  obtains (refused) e where "res = Inl e" "c' = c"
  | (lost) e g where "propose cc io l (grant_record g) c = (Inl e, c')" "res = Inl e"
  | (issued) g e c1 where "propose cc io l (grant_record g) c = (Inr e, c1)" "res = Inr g"
      "c' = c1\<lparr>cft_grants := fmupd t g (cft_grants c)\<rparr>" "eg_task_id g = t" "eg_attempt g = a" "eg_worker g = w"
      "eg_epoch g = sat_add (cft_epoch c) 1" "eg_term g = cft_current_term c" "a \<noteq> 0" "d \<noteq> 0"
      "eg_issued_tick g = tick" "eg_valid_until g = sat_add tick d" "eg_irreversible g = irr"
      "authorize c l (if irr then IrreversibleEffect else DurableWrite) None tick = Inr ()"
proof -
  define g where "g = \<lparr>eg_task_id = t, eg_attempt = a, eg_worker = w, eg_term = cft_current_term c,
      eg_epoch = sat_add (cft_epoch c) 1, eg_issued_tick = tick, eg_valid_until = sat_add tick d, eg_irreversible = irr\<rparr>"
  obtain r1 c1 where pr: "propose cc io l (grant_record g) c = (r1, c1)" by fastforce
  show ?thesis
  proof (cases "a \<noteq> 0 \<and> d \<noteq> 0 \<and> authorize c l (if irr then IrreversibleEffect else DurableWrite) None tick = Inr ()")
    case False
    then show ?thesis using assms refused by (auto simp: issue_grant_def split: sum.splits if_splits)
  next
    case True
    note res = assms [unfolded issue_grant_def Let_def, folded g_def]
    show ?thesis
    proof (cases r1)
      case (Inl e)
      then show ?thesis using True res pr lost by auto
    next
      case (Inr e)
      have "cft_grants c1 = cft_grants c" using propose_epoch [OF pr] by simp
      then have "res = Inr g" "c' = c1\<lparr>cft_grants := fmupd t g (cft_grants c)\<rparr>" using True res pr Inr by auto
      then show ?thesis using issued [OF pr [unfolded Inr]] True by (simp add: g_def)
    qed
  qed
qed

lemma issue_grant_ok:
  assumes ok: "cft_ok c" and E: "cft_epoch c \<noteq> - 1" and ig: "issue_grant cc io l t a w tick d irr c = (res, c')"
    and tot: "total_codec cc" and st: "cft_leader c = Some l \<Longrightarrow> pio_append io l = io_all_ok"
  shows "cft_ok c'"
proof (cases rule: issue_grant_cases [OF ig])
  case (3 g e c1)
  have "cft_ok c1" using propose_ok [OF ok E 3(1) tot st] .
  moreover have "grants_ok (fmupd t g (cft_grants c1)) (cft_epoch c1)"
    using \<open>cft_ok c1\<close> propose_epoch [OF 3(1)] 3(4,7) by (auto simp: cft_ok_def grants_ok_def fmpred_iff)
  ultimately show ?thesis using 3(3) propose_epoch [OF 3(1)] by (simp add: cft_ok_def)
qed (use ok propose_ok [OF ok E _ tot st] in auto)

lemma record_uncommitted_ok:
  "cft_ok c \<Longrightarrow> record_uncommitted_result obs r tick c = (res, c') \<Longrightarrow> cft_ok c'"
  by (auto simp: record_uncommitted_result_def cft_ok_def Let_def split: if_splits option.splits sum.splits)

lemma position_Some: "position p xs = Some n \<Longrightarrow> n < length xs \<and> p (xs ! n) \<and> (\<forall>k < n. \<not> p (xs ! k))"
proof (induction xs arbitrary: n)
  case (Cons x xs)
  then show ?case by (auto split: if_splits simp: nth_Cons split: nat.splits)
qed simp

lemma reconcile_cases:
  assumes "reconcile cc io l t d tick c = (res, c')"
  obtains (refused) e where "res = Inl e" "c' = c"
  | (lost) e where "propose cc io l (reconcile_record t d (cft_epoch c)) c = (Inl e, c')" "res = Inl e"
  | (settled) n e c1 where "position (\<lambda>r. eur_task_id r = t) (cft_uncommitted c) = Some n"
      "propose cc io l (reconcile_record t d (cft_epoch c)) c = (Inr e, c1)" "res = Inr (cft_uncommitted c ! n)"
      "c' = c1\<lparr>cft_uncommitted := remove_at n (cft_uncommitted c)\<rparr>"
proof (cases "authorize c l DurableWrite None tick")
  case (Inl e)
  then show ?thesis using assms refused by (auto simp: reconcile_def)
next
  case au: (Inr u)
  show ?thesis
  proof (cases "position (\<lambda>r. eur_task_id r = t) (cft_uncommitted c)")
    case None
    then show ?thesis using assms refused au by (auto simp: reconcile_def)
  next
    case (Some n)
    obtain r1 c1 where pr: "propose cc io l (reconcile_record t d (cft_epoch c)) c = (r1, c1)" by fastforce
    then have "cft_uncommitted c1 = cft_uncommitted c" using propose_epoch [OF pr] by simp
    then show ?thesis using assms pr au Some lost settled by (cases r1) (auto simp: reconcile_def Let_def)
  qed
qed

lemma reconcile_ok:
  assumes ok: "cft_ok c" and E: "cft_epoch c \<noteq> - 1" and rc: "reconcile cc io l t d tick c = (res, c')"
    and tot: "total_codec cc" and st: "cft_leader c = Some l \<Longrightarrow> pio_append io l = io_all_ok"
  shows "cft_ok c'"
proof (cases rule: reconcile_cases [OF rc])
  case (3 n e c1)
  have "cft_ok c1" using propose_ok [OF ok E 3(2) tot st] .
  then show ?thesis using 3(4) ok by (auto simp: cft_ok_def remove_at_def)
qed (use ok propose_ok [OF ok E _ tot st] in auto)

section \<open>Runs\<close>

text \<open>One value per operation that changes the cluster, with the answers of the file systems.\<close>

datatype control_op =
    ElectOp "NodeId \<Rightarrow> write_io" NodeId
  | SetAliveOp NodeId bool
  | IsolateOp NodeId bool
  | RecoverOp write_io NodeId
  | RenewLeaseOp NodeId u64 u64
  | ProposeOp propose_io NodeId ControlRecord
  | ProposeFromOp propose_io NodeId ControlRecord u64
  | IssueGrantOp propose_io NodeId GlobalTaskId u32 NodeId u64 u64 bool
  | RecordResultOp NodeId ExecutedUncommittedResult u64
  | ReconcileOp propose_io NodeId GlobalTaskId ReconciliationDecision u64

fun control_step :: "control_codec \<Rightarrow> control_op \<Rightarrow> ReferenceCftModel \<Rightarrow> ReferenceCftModel" where
  "control_step cc (ElectOp io i) c = snd (elect cc io i c)"
| "control_step cc (SetAliveOp i b) c = snd (set_alive i b c)"
| "control_step cc (IsolateOp i b) c = snd (isolate i b c)"
| "control_step cc (RecoverOp io i) c = snd (recover cc io i c)"
| "control_step cc (RenewLeaseOp l t d) c = snd (renew_control_lease l t d c)"
| "control_step cc (ProposeOp io l r) c = snd (propose cc io l r c)"
| "control_step cc (ProposeFromOp io i r t) c = snd (propose_from cc io i r t c)"
| "control_step cc (IssueGrantOp io l t a w tk d irr) c = snd (issue_grant cc io l t a w tk d irr c)"
| "control_step cc (RecordResultOp i r t) c = snd (record_uncommitted_result i r t c)"
| "control_step cc (ReconcileOp io l t d tk) c = snd (reconcile cc io l t d tk c)"

fun run_control :: "control_codec \<Rightarrow> control_op list \<Rightarrow> ReferenceCftModel \<Rightarrow> ReferenceCftModel" where
  "run_control cc [] c = c"
| "run_control cc (x # xs) c = run_control cc xs (control_step cc x c)"

fun op_propose_io :: "control_op \<Rightarrow> propose_io option" where
  "op_propose_io (ProposeOp io l r) = Some io"
| "op_propose_io (ProposeFromOp io i r t) = Some io"
| "op_propose_io (IssueGrantOp io l t a w tk d irr) = Some io"
| "op_propose_io (ReconcileOp io l t d tk) = Some io"
| "op_propose_io _ = None"

text \<open>The write of the leader's own node succeeds.\<close>

definition leader_stores :: "control_op \<Rightarrow> ReferenceCftModel \<Rightarrow> bool" where
  "leader_stores x c \<longleftrightarrow>
     (\<forall>io l. op_propose_io x = Some io \<longrightarrow> cft_leader c = Some l \<longrightarrow> pio_append io l = io_all_ok)"

fun leader_stores_run :: "control_codec \<Rightarrow> control_op list \<Rightarrow> ReferenceCftModel \<Rightarrow> bool" where
  "leader_stores_run cc [] c = True"
| "leader_stores_run cc (x # xs) c = (leader_stores x c \<and> leader_stores_run cc xs (control_step cc x c))"

lemma propose_from_cases:
  assumes "propose_from cc io i rec tick c = (res, c')"
  obtains (refused) e where "res = Inl e" "c' = c"
  | (proposed) l where "cft_leader c = Some l" "propose cc io l rec c = (res, c')" "connected c i l" "node_is_alive c i"
  using assms by (auto simp: propose_from_def split: option.splits if_splits sum.splits)

lemma control_step_ok:
  assumes ok: "cft_ok c" and E: "cft_epoch c \<noteq> - 1" and tot: "total_codec cc" and st: "leader_stores x c"
  shows "cft_ok (control_step cc x c)"
proof (cases x)
  case (ElectOp io i)
  then show ?thesis using elect_ok [OF ok] by (metis control_step.simps(1) prod.collapse)
next
  case (SetAliveOp i b)
  then show ?thesis using set_alive_ok [OF ok] by (metis control_step.simps(2) prod.collapse)
next
  case (IsolateOp i b)
  then show ?thesis using isolate_ok [OF ok] by (metis control_step.simps(3) prod.collapse)
next
  case (RecoverOp io i)
  then show ?thesis using recover_ok [OF ok] by (metis control_step.simps(4) prod.collapse)
next
  case (RenewLeaseOp l t d)
  then show ?thesis using ok cft_ok_frame(2) [OF ok] by (auto simp: renew_control_lease_def Let_def)
next
  case (ProposeOp io l r)
  then show ?thesis
    using propose_ok [OF ok E _ tot, of io l r] st by (cases "propose cc io l r c") (auto simp: leader_stores_def)
next
  case (ProposeFromOp io i r t)
  obtain res c' where pf: "propose_from cc io i r t c = (res, c')" by fastforce
  show ?thesis
  proof (cases rule: propose_from_cases [OF pf])
    case (2 l)
    then show ?thesis
      using propose_ok [OF ok E 2(2) tot] st ProposeFromOp pf by (auto simp: leader_stores_def)
  qed (use ok ProposeFromOp pf in auto)
next
  case (IssueGrantOp io l t a w tk d irr)
  then show ?thesis
    using issue_grant_ok [OF ok E _ tot, of io l t a w tk d irr] st
    by (cases "issue_grant cc io l t a w tk d irr c") (auto simp: leader_stores_def)
next
  case (RecordResultOp i r t)
  then show ?thesis using record_uncommitted_ok [OF ok] by (metis control_step.simps(9) prod.collapse)
next
  case (ReconcileOp io l t d tk)
  then show ?thesis
    using reconcile_ok [OF ok E _ tot, of io l t d tk] st
    by (cases "reconcile cc io l t d tk c") (auto simp: leader_stores_def)
qed

lemma propose_epoch_mono: "cft_epoch c \<le> cft_epoch (snd (propose cc io l r c))"
  using propose_epoch [of cc io l r c] sat_add_ge [of "cft_epoch c" 1] by (cases "propose cc io l r c") auto

lemma elect_epoch: "cft_epoch (snd (elect cc io i c)) = cft_epoch c"
  by (auto simp: elect_def Let_def split: option.splits prod.splits sum.splits)

lemma set_alive_epoch: "cft_epoch (snd (set_alive i b c)) = cft_epoch c"
  by (auto simp: set_alive_def Let_def split: option.splits)

lemma recover_epoch: "cft_epoch (snd (recover cc io i c)) = cft_epoch c"
  using set_alive_epoch [of i True c]
  by (cases "set_alive i True c") (auto simp: recover_def Let_def split: option.splits prod.splits sum.splits)

lemma control_step_epoch: "cft_epoch c \<le> cft_epoch (control_step cc x c)"
proof (cases x)
  case (ProposeFromOp io i r t)
  obtain res c' where pf: "propose_from cc io i r t c = (res, c')" by fastforce
  show ?thesis
    using ProposeFromOp pf propose_epoch_mono by (cases rule: propose_from_cases [OF pf]) (auto, metis snd_conv)
next
  case (IssueGrantOp io l t a w tk d irr)
  obtain res c' where ig: "issue_grant cc io l t a w tk d irr c = (res, c')" by fastforce
  show ?thesis
    using IssueGrantOp ig propose_epoch_mono
    by (cases rule: issue_grant_cases [OF ig]) (auto, (metis snd_conv)+)
next
  case (ReconcileOp io l t d tk)
  obtain res c' where rc: "reconcile cc io l t d tk c = (res, c')" by fastforce
  show ?thesis
    using ReconcileOp rc propose_epoch_mono
    by (cases rule: reconcile_cases [OF rc]) (auto, (metis snd_conv)+)
qed (auto simp: elect_epoch set_alive_epoch recover_epoch propose_epoch_mono isolate_def renew_control_lease_def
    record_uncommitted_result_def Let_def split: option.splits sum.splits)

lemma run_control_epoch: "cft_epoch c \<le> cft_epoch (run_control cc xs c)"
  by (induction xs arbitrary: c) (auto intro: order.trans [OF control_step_epoch])

lemma run_control_ok:
  assumes "cft_ok c" "total_codec cc" "leader_stores_run cc xs c" "cft_epoch (run_control cc xs c) \<noteq> - 1"
  shows "cft_ok (run_control cc xs c)"
  using assms
proof (induction xs arbitrary: c)
  case (Cons x xs)
  have "cft_epoch c \<noteq> - 1"
    using run_control_epoch [of c cc "x # xs"] Cons.prems(4) by (metis order.antisym word_n1_ge)
  then show ?case using Cons control_step_ok by simp
qed simp

end
