(* ===== verification/Ha_Properties.thy ===== *)
theory Ha_Properties
  imports Ha_Consensus
begin

text \<open>
  The properties of the control plane: agreement of the logs over any run, what an
  acknowledged proposal has stored, who may act and when, the fencing of execution grants,
  elections, and how the grants are found again in a log.
\<close>

section \<open>A fresh cluster\<close>

definition fresh_node :: "NodeId \<Rightarrow> ControlNode \<Rightarrow> bool" where
  "fresh_node i n \<longleftrightarrow> sn_node_id (cn_snapshot n) = i \<and> sn_log (cn_snapshot n) = []"

lemma open_nodes_fresh:
  assumes "open_nodes cc io specs nodes = (r, nodes')" and "\<forall>s \<in> set specs. spc_file s = None"
    and "fmpred fresh_node nodes"
  shows "fmpred fresh_node nodes'"
  using assms
proof (induction specs arbitrary: nodes)
  case (Cons s specs)
  have "fresh_node (spc_node_id s) n" if "node_open cc (io (spc_node_id s)) s = Inr n" for n
  proof -
    let ?n = "\<lparr>cn_snapshot = fresh_snapshot s, cn_file = None, cn_alive = True\<rparr>"
    have "node_persist cc (io (spc_node_id s)) ?n = (Inr (), n)"
      using that Cons.prems(2) by (auto simp: node_open_def split: prod.splits sum.splits)
    then have "cn_snapshot n = fresh_snapshot s"
      using node_persist_frame(1) [of cc "io (spc_node_id s)" ?n] by simp
    then show ?thesis by (simp add: fresh_node_def fresh_snapshot_def)
  qed
  with Cons show ?case
    by (auto split: if_splits sum.splits)
qed simp

lemma rest_nodes_fresh:
  assumes "rest_nodes cc io is nodes = (r, nodes')" and "fmpred fresh_node nodes"
  shows "fmpred fresh_node nodes'"
  using assms
proof (induction "is" arbitrary: nodes)
  case (Cons i "is")
  show ?case
  proof (cases "fmlookup nodes i")
    case (Some n)
    let ?n = "n\<lparr>cn_snapshot := (cn_snapshot n)\<lparr>sn_role := resting_role (sn_kind (cn_snapshot n))\<rparr>\<rparr>"
    obtain r1 n' where np: "node_persist cc (io i) ?n = (r1, n')" by fastforce
    have "cn_snapshot n' = cn_snapshot ?n" using node_persist_frame(1) [of cc "io i" ?n] np by simp
    moreover have "fresh_node i n" using Cons.prems(2) Some by (auto dest: fmpredD)
    ultimately have "fresh_node i n'" by (simp add: fresh_node_def)
    then have "fmpred fresh_node (fmupd i n' nodes)" using Cons.prems(2) by auto
    then show ?thesis using Cons Some np by (cases r1) (auto simp: Let_def)
  qed (use Cons in auto)
qed simp

lemma fresh_logs:
  assumes "fmpred fresh_node nodes"
  shows "node_log nodes i = Some l \<Longrightarrow> l = []" and "member_ids nodes i = Some j \<Longrightarrow> j = i"
    and "max_epoch nodes = 0" and "rebuild_grants nodes = Inr fmempty"
proof -
  have f: "fmlookup nodes i = Some n \<Longrightarrow> sn_node_id (cn_snapshot n) = i \<and> sn_log (cn_snapshot n) = []" for i n
    using assms by (auto dest: fmpredD simp: fresh_node_def)
  show "node_log nodes i = Some l \<Longrightarrow> l = []" "member_ids nodes i = Some j \<Longrightarrow> j = i"
    using f by (auto simp: node_log_def member_ids_def)
  have v: "n \<in> set (bt_values nodes) \<Longrightarrow> sn_log (cn_snapshot n) = []" for n using f by (auto simp: bt_values_mem)
  then have "concat (map (\<lambda>n. sn_log (cn_snapshot n)) (bt_values nodes)) = []" by simp
  then show "max_epoch nodes = 0" unfolding max_epoch_def by (simp only: list.map fold.simps id_apply)
  have "max_by_key f xs = Some x \<Longrightarrow> x \<in> set xs" for f :: "ControlNode \<Rightarrow> u64" and xs x
    by (induction xs arbitrary: x) (auto split: option.splits if_splits)
  then show "rebuild_grants nodes = Inr fmempty"
    using v by (auto simp: rebuild_grants_def split: option.splits)
qed

lemma cft_open_fresh:
  assumes op: "cft_open cc io1 io2 specs = (Inr c, files)" and "\<forall>s \<in> set specs. spc_file s = None"
  shows "cft_ok c \<and> cft_leader c = None"
proof -
  obtain n1 where n1: "open_nodes cc io1 specs fmempty = (Inr (), n1)"
    using op by (cases "open_nodes cc io1 specs fmempty") (auto simp: cft_open_def split: sum.splits)
  obtain n2 where n2: "rest_nodes cc io2 (bt_keys n1) n1 = (Inr (), n2)"
    using op n1 by (cases "rest_nodes cc io2 (bt_keys n1) n1") (auto simp: cft_open_def split: sum.splits if_splits)
  have fr: "fmpred fresh_node n2"
    using rest_nodes_fresh [OF n2 open_nodes_fresh [OF n1 assms(2)]] by simp
  have c: "c = \<lparr>cft_nodes = n2, cft_links = fmempty, cft_leader = None, cft_lease = None, cft_epoch = 0,
      cft_grants = fmempty, cft_uncommitted = []\<rparr>"
    using op n1 n2 fresh_logs(3,4) [OF fr] by (auto simp: cft_open_def split: if_splits)
  have "kind_count k n1 = 0" if "bt_len n1 = 0" for k
    using that length_bt_keys [of n1] by (simp add: kind_count_def bt_values_def)
  then have "bt_len n1 \<noteq> 0" using op n1 by (fastforce simp: cft_open_def split: if_splits)
  moreover have "bt_len n1 = bt_len n2"
  proof -
    have "fmdom nodes' = fmdom nodes" if "rest_nodes cc io2 is nodes = (r, nodes')" for "is" nodes r nodes'
      using that by (induction "is" arbitrary: nodes)
        (auto simp: Let_def finsert_absorb fmlookup_dom_iff split: option.splits prod.splits sum.splits)
    then show ?thesis using n2 by (auto simp: bt_len_def)
  qed
  ultimately have q: "quorum_size c \<le> bt_len n2" by (simp add: c quorum_size_def voter_count_def)
  have last: "log_last l = 0" if "node_log n2 i = Some l" for i l
    using fresh_logs(1) [OF fr that] by (simp add: log_last_def)
  have "{i. \<exists>l. node_log n2 i = Some l \<and> log_last l = 0} = dom (node_log n2)" using last by auto
  then have "at_tip (node_log n2) (quorum_size c) None 0"
    using last q by (auto simp: at_tip_def dom_node_log bt_len_def fcard.rep_eq)
  moreover have "records (node_log n2) = {}" using fresh_logs(1) [OF fr] by (fastforce simp: records_def)
  moreover have "ascending l" if "node_log n2 i = Some l" for i l
    using fresh_logs(1) [OF fr that] by (simp add: ascending_def)
  ultimately show ?thesis
    using fresh_logs(2) [OF fr] by (auto simp: cft_ok_def c logs_ok_def grants_ok_def)
qed

section \<open>A concrete cluster\<close>

definition demo_cc :: control_codec where
  "demo_cc = \<lparr>cc_snapshot = \<lparr>to_vec = (\<lambda>_. Some []), from_slice = (\<lambda>_. None)\<rparr>, cc_record = (\<lambda>_. Some [])\<rparr>"

definition demo_spec_of :: "NodeId \<Rightarrow> ControlNodeSpec" where
  "demo_spec_of i = \<lparr>spc_node_id = i, spc_kind = Full, spc_file = None, spc_readable = True\<rparr>"

definition demo_node :: "NodeId \<Rightarrow> ControlNode" where
  "demo_node i = \<lparr>cn_snapshot = fresh_snapshot (demo_spec_of i), cn_file = Some [], cn_alive = True\<rparr>"

definition demo_cluster :: ReferenceCftModel where
  "demo_cluster = \<lparr>cft_nodes = fmupd ''c'' (demo_node ''c'') (fmupd ''b'' (demo_node ''b'') (fmupd ''a'' (demo_node ''a'') fmempty)),
     cft_links = fmempty, cft_leader = None, cft_lease = None, cft_epoch = 0, cft_grants = fmempty, cft_uncommitted = []\<rparr>"

definition all_ok :: "NodeId \<Rightarrow> write_io" where
  "all_ok = (\<lambda>_. io_all_ok)"

lemma all_ok_apply [simp]: "all_ok i = io_all_ok"
  by (simp add: all_ok_def)

lemma total_demo [simp]: "total_codec demo_cc"
  by (simp add: total_codec_def demo_cc_def)

lemma persist_demo [simp]: "node_persist demo_cc io_all_ok n = (Inr (), n\<lparr>cn_file := Some []\<rparr>)"
  by (simp add: node_persist_def atomic_replace_def io_all_ok_def demo_cc_def)

lemma demo_keys:
  "bt_keys (fmupd ''c'' x (fmupd ''b'' y (fmupd ''a'' z fmempty))) = [''a'', ''b'', ''c'']"
  by (simp add: bt_keys_upd bt_contains_def less_char_def less_eq_char_def)

lemma demo_open_cluster:
  "cft_open demo_cc all_ok all_ok [demo_spec_of ''a'', demo_spec_of ''b'', demo_spec_of ''c''] = (Inr demo_cluster, cft_nodes demo_cluster)"
proof -
  let ?n = "fmupd ''c'' (demo_node ''c'') (fmupd ''b'' (demo_node ''b'') (fmupd ''a'' (demo_node ''a'') fmempty))"
  have no: "node_open demo_cc io_all_ok (demo_spec_of i) = Inr (demo_node i)" for i
    by (simp add: node_open_def demo_spec_of_def demo_node_def)
  have "open_nodes demo_cc all_ok [demo_spec_of ''a'', demo_spec_of ''b'', demo_spec_of ''c''] fmempty = (Inr (), ?n)"
    using no [of "''a''"] no [of "''b''"] no [of "''c''"] by (simp add: demo_spec_of_def bt_contains_def)
  moreover have rn: "(demo_node i)\<lparr>cn_snapshot := (cn_snapshot (demo_node i))\<lparr>sn_role := resting_role (sn_kind (cn_snapshot (demo_node i)))\<rparr>, cn_file := Some []\<rparr> = demo_node i" for i
    by (simp add: demo_node_def fresh_snapshot_def demo_spec_of_def)
  have "rest_nodes demo_cc all_ok (bt_keys ?n) ?n = (Inr (), ?n)"
    unfolding demo_keys by (simp add: Let_def rn) (rule fmap_ext, simp)
  moreover have "kind_count Full ?n = 3"
    unfolding kind_count_def bt_values_def demo_keys by (simp add: demo_node_def fresh_snapshot_def demo_spec_of_def)
  moreover have "fmpred fresh_node ?n"
    by (auto simp: fmpred_iff fresh_node_def demo_node_def fresh_snapshot_def demo_spec_of_def)
  ultimately show ?thesis
    using fresh_logs(3,4) [of ?n] by (simp add: cft_open_def demo_cluster_def)
qed

definition demo_voted :: "NodeId \<Rightarrow> ControlNode" where
  "demo_voted i = (vote_for ''a'' 1 (demo_node i))\<lparr>cn_file := Some []\<rparr>"

definition demo_led :: ReferenceCftModel where
  "demo_led = demo_cluster\<lparr>cft_nodes := fmupd ''c'' (demo_voted ''c'') (fmupd ''b'' (demo_voted ''b'') (fmupd ''a'' (demo_voted ''a'') fmempty)),
     cft_leader := Some ''a''\<rparr>"

lemma demo_node_simps [simp]:
  "sn_log (cn_snapshot (demo_node i)) = []" "sn_log (cn_snapshot (demo_voted i)) = []"
  "cn_alive (demo_node i)" "cn_alive (demo_voted i)"
  "sn_current_term (cn_snapshot (demo_node i)) = 0" "sn_current_term (cn_snapshot (demo_voted i)) = 1"
  "sn_node_id (cn_snapshot (demo_node i)) = i" "sn_node_id (cn_snapshot (demo_voted i)) = i"
  "sn_kind (cn_snapshot (demo_node i)) = Full" "sn_kind (cn_snapshot (demo_voted i)) = Full"
  by (simp_all add: demo_node_def fresh_snapshot_def demo_spec_of_def demo_voted_def vote_for_def)

lemma demo_last_index [simp]: "last_index (demo_node i) = 0" "last_index (demo_voted i) = 0"
  by (simp_all add: last_index_def)

lemma demo_lookup [simp]:
  "fmlookup (cft_nodes demo_cluster) i = (if i \<in> {''a'', ''b'', ''c''} then Some (demo_node i) else None)"
  "fmlookup (cft_nodes demo_led) i = (if i \<in> {''a'', ''b'', ''c''} then Some (demo_voted i) else None)"
  by (auto simp: demo_cluster_def demo_led_def)

lemma demo_bt_keys [simp]:
  "bt_keys (cft_nodes demo_cluster) = [''a'', ''b'', ''c'']" "bt_keys (cft_nodes demo_led) = [''a'', ''b'', ''c'']"
  by (simp_all add: demo_cluster_def demo_led_def demo_keys)

lemma demo_sizes [simp]: "quorum_size demo_cluster = 2" "quorum_size demo_led = 2"
  unfolding quorum_size_def voter_count_def length_bt_keys [symmetric] by simp_all

lemma demo_connected [simp]: "connected demo_cluster i j" "connected demo_led i j"
  by (simp_all add: connected_def demo_cluster_def demo_led_def)

lemma demo_elect: "elect demo_cc all_ok ''a'' demo_cluster = (Inr 1, demo_led)"
proof -
  have v: "election_voters demo_cluster ''a'' 0 = [''a'', ''b'', ''c'']"
    by (simp add: election_voters_def bt_entries_def)
  have t: "next_term (cft_nodes demo_cluster) = 1"
    by (simp add: next_term_def bt_values_def sat_add_def)
  have dv: "(vote_for ''a'' 1 (demo_node i))\<lparr>cn_file := Some []\<rparr> = demo_voted i" for i
    by (simp add: demo_voted_def)
  have "collect_votes demo_cc all_ok [''a'', ''b'', ''c''] ''a'' 1 [''a'', ''b'', ''c''] (cft_nodes demo_cluster)
      = (Inr (), fmupd ''c'' (demo_voted ''c'') (fmupd ''b'' (demo_voted ''b'') (fmupd ''a'' (demo_voted ''a'') fmempty)))"
    by (simp add: dv) (rule fmap_ext, simp)
  then show ?thesis by (simp add: elect_def v t Let_def) (simp add: demo_led_def demo_cluster_def)
qed

definition demo_pio :: propose_io where
  "demo_pio = \<lparr>pio_append = all_ok, pio_withdraw = all_ok\<rparr>"

definition demo_record :: "string \<Rightarrow> ControlRecord" where
  "demo_record i = \<lparr>ctl_record_id = i, ctl_kind = Membership, ctl_metadata = fmempty\<rparr>"

definition demo_entry :: "u64 \<Rightarrow> ControlRecord \<Rightarrow> CommittedControlRecord" where
  "demo_entry n r = \<lparr>ccr_index = n, ccr_term = 1, ccr_epoch = n, ccr_record = r\<rparr>"

lemma demo_led_fields [simp]: "cft_leader demo_led = Some ''a''" "cft_epoch demo_led = 0" "cft_lease demo_led = None"
  "cft_grants demo_led = fmempty" "cft_uncommitted demo_led = []" "cft_links demo_led = fmempty"
  by (simp_all add: demo_led_def demo_cluster_def)

lemma demo_quorum [simp]: "has_leader_quorum demo_led ''a''" "cft_current_term demo_led = 1"
  "propose_targets demo_led ''a'' = [''a'', ''b'', ''c'']"
  by (simp_all add: has_leader_quorum_def node_is_alive_def reachable_voters_def cft_current_term_def bt_entries_def
      propose_targets_def)

definition demo_logged :: "NodeId \<Rightarrow> control_log \<Rightarrow> ControlNode" where
  "demo_logged i l = with_log (\<lambda>_. l) (demo_voted i)"

lemma demo_logged_simps [simp]:
  "with_log (\<lambda>l. l @ x) (demo_logged i l) = demo_logged i (l @ x)" "(demo_logged i l)\<lparr>cn_file := Some []\<rparr> = demo_logged i l"
  "cn_alive (demo_logged i l)" "sn_log (cn_snapshot (demo_logged i l)) = l" "with_log (\<lambda>l. l @ x) (demo_voted i) = demo_logged i x"
  "with_log butlast (demo_logged i l) = demo_logged i (butlast l)" "demo_logged i [] = demo_voted i"
  by (simp_all add: demo_logged_def with_log_def demo_voted_def vote_for_def demo_node_def fresh_snapshot_def)

lemma demo_propose:
  "propose demo_cc demo_pio ''a'' r demo_led = (Inr (demo_entry 1 r),
     demo_led\<lparr>cft_nodes := fmupd ''c'' (demo_logged ''c'' [demo_entry 1 r]) (fmupd ''b'' (demo_logged ''b'' [demo_entry 1 r])
        (fmupd ''a'' (demo_logged ''a'' [demo_entry 1 r]) fmempty)), cft_epoch := 1\<rparr>)"
proof -
  have one: "sat_add 0 1 = (1 :: u64)" by (simp add: sat_add_def)
  have "append_to_targets demo_cc all_ok e [''a'', ''b'', ''c''] (cft_nodes demo_led)
      = (Inr [''a'', ''b'', ''c''], fmupd ''c'' (demo_logged ''c'' [e]) (fmupd ''b'' (demo_logged ''b'' [e])
        (fmupd ''a'' (demo_logged ''a'' [e]) fmempty)))" for e
    by simp (rule fmap_ext, simp)
  moreover have "cc_record demo_cc r = Some []" by (simp add: demo_cc_def)
  ultimately show ?thesis
    by (simp add: propose_def demo_pio_def Let_def one demo_entry_def)
qed

section \<open>Agreement\<close>

text \<open>
  Claim C2.  From a cluster that is opened for the first time, after any sequence of
  operations in any order, with any writes failing except those of the leader's own node
  while it commits, an index names one record: two nodes whose logs have a record at the same
  index have the same record there, and every log is in ascending order of index.
\<close>

theorem control_log_agreement:
  assumes "cft_open cc io1 io2 specs = (Inr c, files)" and "\<forall>s \<in> set specs. spc_file s = None"
    and "total_codec cc" and "leader_stores_run cc ops c" and "cft_epoch (run_control cc ops c) \<noteq> - 1"
    and i: "committed_records (run_control cc ops c) i = Inr li" and j: "committed_records (run_control cc ops c) j = Inr lj"
  shows "(\<forall>r \<in> set li. \<forall>s \<in> set lj. ccr_index r = ccr_index s \<longrightarrow> r = s) \<and> sorted_wrt (<) (map ccr_index li)"
proof -
  let ?c = "run_control cc ops c"
  have ok: "cft_ok ?c" using run_control_ok cft_open_fresh [OF assms(1,2)] assms(3-5) by blast
  have "node_log (cft_nodes ?c) i = Some li" "node_log (cft_nodes ?c) j = Some lj"
    using i j by (auto simp: committed_records_def node_log_def)
  moreover from this have "set li \<subseteq> records (node_log (cft_nodes ?c))" "set lj \<subseteq> records (node_log (cft_nodes ?c))"
    by (auto simp: records_def)
  ultimately show ?thesis
    using ok by (auto simp: cft_ok_def logs_ok_def ascending_def dest: inj_onD)
qed

theorem control_log_agreement_witness:
  "committed_records (run_control demo_cc [ElectOp all_ok ''a'', ProposeOp demo_pio ''a'' (demo_record ''x'')] demo_cluster) ''b''
     = Inr [demo_entry 1 (demo_record ''x'')]
   \<and> sorted_wrt (<) (map ccr_index [demo_entry 1 (demo_record ''x'')])"
proof -
  let ?ops = "[ElectOp all_ok ''a'', ProposeOp demo_pio ''a'' (demo_record ''x'')]"
  have run: "committed_records (run_control demo_cc ?ops demo_cluster) ''b'' = Inr [demo_entry 1 (demo_record ''x'')]"
    by (simp add: demo_elect demo_propose committed_records_def)
  have st: "leader_stores_run demo_cc ?ops demo_cluster"
    by (simp add: demo_elect leader_stores_def demo_pio_def)
  have ep: "cft_epoch (run_control demo_cc ?ops demo_cluster) \<noteq> - 1"
    by (simp add: demo_elect demo_propose)
  have fr: "\<forall>s \<in> set [demo_spec_of ''a'', demo_spec_of ''b'', demo_spec_of ''c'']. spc_file s = None"
    by (simp add: demo_spec_of_def)
  show ?thesis using control_log_agreement [OF demo_open_cluster fr total_demo st ep run run] run by blast
qed

text \<open>
  The condition on the leader's own write is needed.  When a majority stores a
  record but the leader's own node does not, the proposal is reported as committed and the
  leader goes on: the next record it commits gets the same index, so the followers that
  stored both have two different committed records at one index.
\<close>

theorem leader_write_failure_reuses_index:
  assumes p1: "propose cc io l rec c = (Inr e, c1)" and p2: "propose cc io' l rec' c1 = (Inr e', c2)"
    and failed: "committed_records c1 l = committed_records c l" and ep: "cft_epoch c1 \<noteq> - 1"
  shows "ccr_index e' = ccr_index e \<and> ccr_epoch e' \<noteq> ccr_epoch e"
proof -
  obtain ln where ln: "fmlookup (cft_nodes c) l = Some ln" "ccr_index e = sat_add (last_index ln) 1"
    "ccr_epoch e = cft_epoch c1"
    using p1 by (cases rule: propose_cases) auto
  obtain ln' where ln': "fmlookup (cft_nodes c1) l = Some ln'" "ccr_index e' = sat_add (last_index ln') 1"
    "ccr_epoch e' = sat_add (cft_epoch c1) 1"
    using p2 by (cases rule: propose_cases) auto
  have "last_index ln' = last_index ln"
    using failed ln(1) ln'(1) by (simp add: committed_records_def last_index_log)
  with ln ln' sat_add_one_fresh [OF ep] show ?thesis by simp
qed

definition demo_pio_fail :: propose_io where
  "demo_pio_fail = \<lparr>pio_append = all_ok(''a'' := io_all_ok\<lparr>io_rename := False\<rparr>), pio_withdraw = all_ok\<rparr>"

lemma persist_demo_fail [simp]: "node_persist demo_cc (io_all_ok\<lparr>io_rename := False\<rparr>) n = (Inl control_storage_error, n)"
  by (cases n) (simp add: node_persist_def atomic_replace_def io_all_ok_def demo_cc_def)

definition demo_forked :: "control_log \<Rightarrow> u64 \<Rightarrow> ReferenceCftModel" where
  "demo_forked l E = demo_led\<lparr>cft_nodes := fmupd ''c'' (demo_logged ''c'' l) (fmupd ''b'' (demo_logged ''b'' l)
        (fmupd ''a'' (demo_voted ''a'') fmempty)), cft_epoch := E\<rparr>"

lemma demo_forked_simps [simp]:
  "fmlookup (cft_nodes (demo_forked l E)) i =
     (if i = ''a'' then Some (demo_voted i) else if i \<in> {''b'', ''c''} then Some (demo_logged i l) else None)"
  "bt_keys (cft_nodes (demo_forked l E)) = [''a'', ''b'', ''c'']" "cft_leader (demo_forked l E) = Some ''a''"
  "cft_epoch (demo_forked l E) = E" "connected (demo_forked l E) i j"
  by (simp_all add: demo_forked_def demo_keys connected_def)

lemma demo_forked_quorum [simp]:
  "quorum_size (demo_forked l E) = 2" "has_leader_quorum (demo_forked l E) ''a''" "cft_current_term (demo_forked l E) = 1"
  "propose_targets (demo_forked l E) ''a'' = [''a'', ''b'', ''c'']"
proof -
  show q: "quorum_size (demo_forked l E) = 2"
    unfolding quorum_size_def voter_count_def length_bt_keys [symmetric] by simp
  show "has_leader_quorum (demo_forked l E) ''a''" "cft_current_term (demo_forked l E) = 1"
    "propose_targets (demo_forked l E) ''a'' = [''a'', ''b'', ''c'']"
    using q by (simp_all add: has_leader_quorum_def node_is_alive_def reachable_voters_def cft_current_term_def
        bt_entries_def propose_targets_def)
qed

lemma demo_fork_step:
  "propose demo_cc demo_pio_fail ''a'' r (demo_forked l E)
     = (Inr \<lparr>ccr_index = 1, ccr_term = 1, ccr_epoch = sat_add E 1, ccr_record = r\<rparr>,
        demo_forked (l @ [\<lparr>ccr_index = 1, ccr_term = 1, ccr_epoch = sat_add E 1, ccr_record = r\<rparr>]) (sat_add E 1))"
proof -
  have one: "sat_add 0 1 = (1 :: u64)" by (simp add: sat_add_def)
  have "append_to_targets demo_cc (pio_append demo_pio_fail) e [''a'', ''b'', ''c''] (cft_nodes (demo_forked l E))
      = (Inr [''b'', ''c''], cft_nodes (demo_forked (l @ [e]) E))" for e
    by (simp add: demo_pio_fail_def) (rule fmap_ext, simp)
  moreover have "cc_record demo_cc r = Some []" by (simp add: demo_cc_def)
  ultimately show ?thesis by (simp add: propose_def Let_def one) (simp add: demo_forked_def)
qed

theorem leader_write_failure_reuses_index_witness:
  "\<exists>e e' c1 c2. propose demo_cc demo_pio_fail ''a'' (demo_record ''x'') (demo_forked [] 0) = (Inr e, c1)
     \<and> propose demo_cc demo_pio_fail ''a'' (demo_record ''y'') c1 = (Inr e', c2)
     \<and> ccr_index e' = ccr_index e \<and> ccr_epoch e' \<noteq> ccr_epoch e \<and> committed_records c2 ''b'' = Inr [e, e']"
proof -
  note p1 = demo_fork_step [of "demo_record ''x''" "[]" 0]
  note p2 = demo_fork_step [of "demo_record ''y''"]
  have one: "sat_add 0 1 = (1 :: u64)" by (simp add: sat_add_def)
  have f: "committed_records (demo_forked l E) ''a'' = committed_records (demo_forked l' E') ''a''" for l E l' E'
    by (simp add: committed_records_def)
  have ep: "cft_epoch (demo_forked l (sat_add 0 1)) \<noteq> - 1" for l by (simp add: one)
  show ?thesis
    using leader_write_failure_reuses_index [OF p1 p2 f ep] p1 p2 by (auto simp: committed_records_def)
qed

section \<open>Durability of a committed record\<close>

text \<open>The log that a restart reads from a node's file.\<close>

definition disk_log :: "control_codec \<Rightarrow> control_nodes \<Rightarrow> NodeId \<Rightarrow> control_log option" where
  "disk_log cc nodes i =
     Option.bind (fmlookup nodes i) (\<lambda>n. Option.bind (cn_file n) (\<lambda>bs. map_option sn_log (from_slice (cc_snapshot cc) bs)))"

lemma node_open_disk_log:
  assumes "node_open cc io spec = Inr n'" and "fmlookup nodes i = Some n" and "cn_file n = spc_file spec" and "spc_file spec = Some bs"
  shows "disk_log cc nodes i = Some (sn_log (cn_snapshot n'))"
proof -
  obtain sn r where sn: "from_slice (cc_snapshot cc) bs = Some sn"
    "node_persist cc io \<lparr>cn_snapshot = sn, cn_file = Some bs, cn_alive = True\<rparr> = (r, n')"
    using assms(1,4) by (auto simp: node_open_def bind_result_Inr ok_or_def split: if_splits option.splits sum.splits prod.splits)
  then have "cn_snapshot n' = sn"
    using node_persist_frame(1) [of cc io "\<lparr>cn_snapshot = sn, cn_file = Some bs, cn_alive = True\<rparr>"] by simp
  with sn(1) assms(2-) show ?thesis by (simp add: disk_log_def)
qed

text \<open>The write of a node's snapshot for the withdrawal of an entry fails.\<close>

definition withdrawal_fails :: "control_codec \<Rightarrow> propose_io \<Rightarrow> control_nodes \<Rightarrow> NodeId \<Rightarrow> bool" where
  "withdrawal_fails cc io nodes i \<longleftrightarrow>
     (\<exists>n err. fmlookup nodes i = Some n \<and> fst (node_persist cc (pio_withdraw io i) n) = Inl err)"

lemma appended_disk_log:
  assumes "serde_ok (cc_snapshot cc)" and "node_appended cc e nodes nodes' i"
  shows "\<exists>l. node_log nodes i = Some l \<and> disk_log cc nodes' i = Some (l @ [e])"
  using assms serde_okD [OF assms(1)] unfolding node_appended_def by (auto simp: node_log_def disk_log_def)

lemma withdrawn_disk_log:
  assumes sd: "serde_ok (cc_snapshot cc)" and "node_withdrawn cc (pio_withdraw io) e nodes nodes' i"
    and "fmlookup nodes' i \<noteq> fmlookup nodes i"
  obtains l where "node_log nodes i = Some l" "disk_log cc nodes' i = Some l"
  | l where "node_log nodes i = Some l" "disk_log cc nodes' i = Some (l @ [e])" "withdrawal_fails cc io nodes' i"
proof -
  obtain n bs where n: "fmlookup nodes i = Some n"
    "to_vec (cc_snapshot cc) (cn_snapshot (with_log (\<lambda>l. l @ [e]) n)) = Some bs"
    "fmlookup nodes' i = Some (snd (node_persist cc (pio_withdraw io i) (n\<lparr>cn_file := Some bs\<rparr>)))"
    using assms(2,3) unfolding node_withdrawn_def by blast
  obtain r n' where np: "node_persist cc (pio_withdraw io i) (n\<lparr>cn_file := Some bs\<rparr>) = (r, n')" by fastforce
  have log: "node_log nodes i = Some (sn_log (cn_snapshot n))" using n(1) by (simp add: node_log_def)
  show ?thesis
  proof (cases rule: node_persist_cases [OF np])
    case (1 bs')
    have "from_slice (cc_snapshot cc) bs' = Some (cn_snapshot n)" using serde_okD [OF sd] 1(3) by simp
    then have "disk_log cc nodes' i = Some (sn_log (cn_snapshot n))" using n(3) np 1(2) by (simp add: disk_log_def)
    with log that(1) show ?thesis by blast
  next
    case (2 err)
    have "from_slice (cc_snapshot cc) bs = Some (cn_snapshot (with_log (\<lambda>l. l @ [e]) n))" by (rule serde_okD [OF sd n(2)])
    then have "disk_log cc nodes' i = Some (sn_log (cn_snapshot n) @ [e])" using n(3) np 2(2) by (simp add: disk_log_def)
    moreover have "withdrawal_fails cc io nodes' i" using n(3) np 2 by (simp add: withdrawal_fails_def)
    ultimately show ?thesis using log that(2) by blast
  qed
qed

text \<open>
  Claim C6.  A proposal that is reported as committed is on the disks of a majority: on at
  least a quorum of nodes the log that a restart reads is the node's log followed by the record,
  and from every other file it reads what it read before.
  One that is reported as failed has left the log of every node as it was, in memory and on
  disk: a restart reads from a node's file what it read before the proposal, or the log that the
  node has in memory, and it reads the refused record at the end of that log only where the file
  could not be written for the withdrawal.
\<close>

theorem propose_stored_on_quorum:
  assumes sd: "serde_ok (cc_snapshot cc)" and pr: "propose cc io l rec c = (res, c')"
  shows "case res of
      Inr e \<Rightarrow> proposed_entry c l rec e
        \<and> (\<exists>S. quorum_size c \<le> card S
             \<and> (\<forall>i \<in> S. \<exists>log. committed_records c i = Inr log \<and> disk_log cc (cft_nodes c') i = Some (log @ [e]))
             \<and> (\<forall>i. i \<notin> S \<longrightarrow> disk_log cc (cft_nodes c') i = disk_log cc (cft_nodes c) i))
    | Inl err \<Rightarrow> \<forall>i. committed_records c' i = committed_records c i
        \<and> (disk_log cc (cft_nodes c') i = disk_log cc (cft_nodes c) i
          \<or> (\<exists>log. committed_records c i = Inr log \<and>
               (disk_log cc (cft_nodes c') i = Some log
                \<or> withdrawal_fails cc io (cft_nodes c') i
                  \<and> (\<exists>e. proposed_entry c l rec e \<and> disk_log cc (cft_nodes c') i = Some (log @ [e])))))"
proof (cases rule: propose_cases [OF pr])
  case (1 ln ps nodes' e)
  have "\<exists>log. committed_records c i = Inr log \<and> disk_log cc nodes' i = Some (log @ [e])" if "i \<in> set ps" for i
  proof -
    have "node_appended cc e (cft_nodes c) nodes' i" using 1(6) that by (simp add: appended_def)
    from appended_disk_log [OF sd this] show ?thesis by (auto simp: committed_records_def node_log_def)
  qed
  moreover have "disk_log cc nodes' i = disk_log cc (cft_nodes c) i" if "i \<notin> set ps" for i
    using 1(6) that by (simp add: appended_def disk_log_def)
  moreover have "quorum_size c \<le> card (set ps)" using 1(6,7) by (simp add: appended_def distinct_card)
  moreover have "proposed_entry c l rec e" using 1(3,5) by (simp add: proposed_entry_def)
  ultimately show ?thesis using 1(4,8) by (auto intro!: exI [of _ "set ps"])
next
  case (2 err nodes')
  have mem: "committed_records c' i = committed_records c i" for i
    using 2(2) fun_cong [OF 2(3), of i] by (simp add: committed_records_def node_log_def)
  have "disk_log cc nodes' i = disk_log cc (cft_nodes c) i
      \<or> (\<exists>log. committed_records c i = Inr log \<and>
           (disk_log cc nodes' i = Some log \<or> withdrawal_fails cc io nodes' i
              \<and> (\<exists>e. proposed_entry c l rec e \<and> disk_log cc nodes' i = Some (log @ [e]))))" for i
  proof (cases "fmlookup nodes' i = fmlookup (cft_nodes c) i")
    case False
    then obtain e where e: "proposed_entry c l rec e" "node_withdrawn cc (pio_withdraw io) e (cft_nodes c) nodes' i"
      using 2(5) by blast
    have log: "committed_records c i = Inr log" if "node_log (cft_nodes c) i = Some log" for log
      using that by (auto simp: committed_records_def node_log_def)
    show ?thesis by (rule withdrawn_disk_log [OF sd e(2) False]) (use log e(1) in blast)+
  qed (simp add: disk_log_def)
  with mem 2(1,2) show ?thesis by simp
qed

definition demo_cc3 :: "CommittedControlRecord \<Rightarrow> control_codec" where
  "demo_cc3 e = \<lparr>cc_snapshot =
     \<lparr>to_vec = (\<lambda>sn. if sn = cn_snapshot (demo_logged (sn_node_id sn) [e]) then Some (as_bytes (sn_node_id sn)) else None),
      from_slice = (\<lambda>bs. Some (cn_snapshot (demo_logged (string_of_bytes bs) [e])))\<rparr>, cc_record = (\<lambda>_. Some [])\<rparr>"

lemma demo_cc3_serde: "serde_ok (cc_snapshot (demo_cc3 e))"
  by (auto simp: serde_ok_def demo_cc3_def split: if_splits)

lemma demo_cc3_persist:
  "node_persist (demo_cc3 e) io_all_ok (demo_logged i [e]) = (Inr (), (demo_logged i [e])\<lparr>cn_file := Some (as_bytes i)\<rparr>)"
  by (simp add: node_persist_def atomic_replace_def io_all_ok_def demo_cc3_def)
     (simp add: demo_logged_def with_log_def)

theorem propose_stored_on_quorum_witness:
  "serde_ok (cc_snapshot (demo_cc3 (demo_entry 1 (demo_record ''x''))))
   \<and> (\<exists>c'. propose (demo_cc3 (demo_entry 1 (demo_record ''x''))) demo_pio ''a'' (demo_record ''x'') demo_led
         = (Inr (demo_entry 1 (demo_record ''x'')), c')
       \<and> 2 \<le> card {i. disk_log (demo_cc3 (demo_entry 1 (demo_record ''x''))) (cft_nodes c') i
                        = Some [demo_entry 1 (demo_record ''x'')]})"
proof -
  let ?e = "demo_entry 1 (demo_record ''x'')"
  have one: "sat_add 0 1 = (1 :: u64)" by (simp add: sat_add_def)
  have ap: "\<exists>nodes. append_to_targets (demo_cc3 ?e) all_ok ?e [''a'', ''b'', ''c''] (cft_nodes demo_led)
      = (Inr [''a'', ''b'', ''c''], nodes)" by (simp add: demo_cc3_persist)
  have "cc_record (demo_cc3 ?e) (demo_record ''x'') = Some []" by (simp add: demo_cc3_def)
  then have "\<exists>c'. propose (demo_cc3 ?e) demo_pio ''a'' (demo_record ''x'') demo_led = (Inr ?e, c')"
    using ap by (auto simp: propose_def demo_pio_def Let_def one demo_entry_def)
  then obtain c' where pr: "propose (demo_cc3 ?e) demo_pio ''a'' (demo_record ''x'') demo_led = (Inr ?e, c')" ..
  let ?D = "{i. disk_log (demo_cc3 ?e) (cft_nodes c') i = Some [?e]}"
  obtain S where S: "quorum_size demo_led \<le> card S"
    "\<And>i. i \<in> S \<Longrightarrow> \<exists>log. committed_records demo_led i = Inr log \<and> disk_log (demo_cc3 ?e) (cft_nodes c') i = Some (log @ [?e])"
    using propose_stored_on_quorum [OF demo_cc3_serde pr] by auto
  have "committed_records demo_led i = Inr log \<Longrightarrow> log = []" for i log
    by (auto simp: committed_records_def ok_or_def split: option.splits if_splits)
  with S(2) have "S \<subseteq> ?D" by fastforce
  moreover have "finite ?D"
    by (rule finite_subset [of _ "fset (fmdom (cft_nodes c'))"]) (auto simp: disk_log_def fmlookup_dom_iff bind_eq_Some_conv)
  ultimately have "card S \<le> card ?D" by (rule card_mono [rotated])
  with S(1) pr demo_cc3_serde show ?thesis by auto
qed

text \<open>
  The refused record can stay on a disk: the leader stores it, the others fail, and the
  leader's write of the withdrawal fails too.  The proposal is reported as failed and the leader's
  log is empty, and a restart reads the record from its file.
\<close>

lemma withdrawn_record_stays:
  "\<exists>io c'. propose (demo_cc3 (demo_entry 1 (demo_record ''x''))) io ''a'' (demo_record ''x'') demo_led = (Inl quorum_lost, c')
     \<and> committed_records c' ''a'' = Inr []
     \<and> disk_log (demo_cc3 (demo_entry 1 (demo_record ''x''))) (cft_nodes c') ''a'' = Some [demo_entry 1 (demo_record ''x'')]"
proof -
  let ?e = "demo_entry 1 (demo_record ''x'')"
  let ?no = "io_all_ok\<lparr>io_rename := False\<rparr>"
  let ?ap = "\<lambda>i. if i = ''a'' then io_all_ok else ?no"
  let ?io = "\<lparr>pio_append = ?ap, pio_withdraw = (\<lambda>_. ?no)\<rparr>"
  let ?a = "(demo_logged ''a'' [?e])\<lparr>cn_file := Some (as_bytes ''a'')\<rparr>"
  have one: "sat_add 0 1 = (1 :: u64)" by (simp add: sat_add_def)
  have no: "\<exists>err. node_persist cc ?no n = (Inl err, n)" for cc n
    by (cases n) (simp add: node_persist_def atomic_replace_def io_all_ok_def split: option.splits)
  have skip: "append_to_targets cc ?ap e (i # is) nodes = append_to_targets cc ?ap e is nodes"
    if "i \<noteq> ''a''" "fmlookup nodes i = Some n" for cc e i "is" nodes n
  proof -
    obtain err where "node_persist cc ?no (with_log (\<lambda>l. l @ [e]) n) = (Inl err, with_log (\<lambda>l. l @ [e]) n)" using no by blast
    moreover have "fmupd i n nodes = nodes" using that by (intro fmap_ext) auto
    ultimately show ?thesis using that by simp
  qed
  have rest: "append_to_targets (demo_cc3 ?e) ?ap ?e [''b'', ''c''] (fmupd ''a'' ?a (cft_nodes demo_led))
      = (Inr [], fmupd ''a'' ?a (cft_nodes demo_led))"
    by (simp add: skip del: append_to_targets.simps(2))
  have ap: "append_to_targets (demo_cc3 ?e) (pio_append ?io) ?e [''a'', ''b'', ''c''] (cft_nodes demo_led)
      = (Inr [''a''], fmupd ''a'' ?a (cft_nodes demo_led))"
    using rest by (simp add: demo_cc3_persist append_to_targets.simps(2) [of _ _ _ "''a''"] del: append_to_targets.simps(2))
  have wd: "withdraw_from (demo_cc3 ?e) (pio_withdraw ?io) [''a''] (fmupd ''a'' ?a (cft_nodes demo_led))
      = fmupd ''a'' (with_log butlast ?a) (fmupd ''a'' ?a (cft_nodes demo_led))"
    using no [of "demo_cc3 ?e" "with_log butlast ?a"] by auto
  have "cc_record (demo_cc3 ?e) (demo_record ''x'') = Some []" by (simp add: demo_cc3_def)
  then have pr: "propose (demo_cc3 ?e) ?io ''a'' (demo_record ''x'') demo_led
      = (Inl quorum_lost, demo_led\<lparr>cft_nodes := fmupd ''a'' (with_log butlast ?a) (fmupd ''a'' ?a (cft_nodes demo_led))\<rparr>)"
    using ap wd by (simp add: propose_def Let_def one demo_entry_def)
  show ?thesis
    by (intro exI conjI, rule pr) (simp_all add: committed_records_def disk_log_def demo_cc3_def ok_or_def with_log_def)
qed

section \<open>Who may act\<close>

text \<open>
  An operation that needs the quorum is allowed to one node at most: the leader,
  while it is alive, reaches a majority of the voters, and holds a lease of its own term that
  is valid at the given tick.
\<close>

theorem authorize_exclusive:
  assumes "needs_quorum op" and "authorize c i op g t = Inr ()"
    and "needs_quorum op'" and "authorize c j op' g' t' = Inr ()"
  shows "i = j \<and> cft_leader c = Some i \<and> node_is_alive c i \<and> quorum_size c \<le> reachable_voters c i
    \<and> (\<exists>lease. cft_lease c = Some lease \<and> cl_leader lease = i \<and> cl_term lease = cft_current_term c
             \<and> lease_is_valid_at lease t \<and> lease_is_valid_at lease t')"
  using assms
  by (cases op; cases op') (auto simp: authorize_def has_leader_quorum_def split: if_splits option.splits)

definition demo_lease :: ControlLease where
  "demo_lease = \<lparr>cl_leader = ''a'', cl_term = 1, cl_issued_tick = 0, cl_valid_until = 100\<rparr>"

definition demo_leased :: ReferenceCftModel where
  "demo_leased = demo_led\<lparr>cft_lease := Some demo_lease\<rparr>"

lemma demo_leased_simps [simp]:
  "cft_nodes demo_leased = cft_nodes demo_led" "cft_leader demo_leased = Some ''a''" "connected demo_leased i j"
  "quorum_size demo_leased = 2" "cft_epoch demo_leased = 0" "cft_grants demo_leased = fmempty" "cft_lease demo_leased = Some demo_lease"
  by (simp_all add: demo_leased_def connected_def)

lemma demo_leased_quorum [simp]: "has_leader_quorum demo_leased ''a''" "cft_current_term demo_leased = 1"
  "propose_targets demo_leased ''a'' = [''a'', ''b'', ''c'']"
  by (simp_all add: has_leader_quorum_def node_is_alive_def reachable_voters_def cft_current_term_def bt_entries_def
      propose_targets_def)

lemma demo_authorized: "authorize demo_leased ''a'' DurableWrite None 5 = Inr ()"
  by (simp add: authorize_def demo_lease_def lease_is_valid_at_def word_le_nat_alt)

theorem authorize_exclusive_witness:
  "authorize demo_leased ''a'' DurableWrite None 5 = Inr () \<and> authorize demo_leased ''b'' DurableWrite None 5 \<noteq> Inr ()"
proof -
  have "authorize demo_leased ''b'' DurableWrite None 5 = Inr () \<Longrightarrow> ''a'' = ''b''"
    using authorize_exclusive [OF _ demo_authorized, of DurableWrite "''b''"] by auto
  then show ?thesis using demo_authorized by auto
qed

section \<open>Elections\<close>

lemma collect_votes_snapshots:
  assumes "collect_votes cc io voters cand term is nodes = (Inr (), nodes')" and "distinct is"
  shows "map_option cn_snapshot (fmlookup nodes' i) =
    map_option (\<lambda>n. if i \<in> set is \<and> cn_alive n \<and> sn_node_id (cn_snapshot n) \<in> set voters
                    then cn_snapshot (vote_for cand term n) else cn_snapshot n) (fmlookup nodes i)"
  using assms
proof (induction "is" arbitrary: nodes)
  case (Cons j "is")
  show ?case
  proof (cases "\<exists>n. fmlookup nodes j = Some n \<and> cn_alive n \<and> sn_node_id (cn_snapshot n) \<in> set voters")
    case False
    then have "collect_votes cc io voters cand term is nodes = (Inr (), nodes')"
      using Cons.prems(1) by (auto split: option.splits)
    with Cons False show ?thesis by (cases "i = j"; cases "fmlookup nodes i") auto
  next
    case True
    then obtain n where n: "fmlookup nodes j = Some n" "cn_alive n" "sn_node_id (cn_snapshot n) \<in> set voters" by blast
    obtain r1 n' where np: "node_persist cc (io j) (vote_for cand term n) = (r1, n')" by fastforce
    have sn: "cn_snapshot n' = cn_snapshot (vote_for cand term n)"
      using node_persist_frame(1) [of cc "io j" "vote_for cand term n"] np by simp
    have "collect_votes cc io voters cand term is (fmupd j n' nodes) = (Inr (), nodes')"
      using Cons.prems(1) n np by (cases r1) auto
    with Cons.IH [OF this] Cons.prems(2) n sn show ?thesis by (cases "i = j") auto
  qed
qed simp

lemma fold_max_ge: "x \<in> set xs \<Longrightarrow> x \<le> fold max xs a" "a \<le> fold max xs a" for x :: "'a::linorder"
proof (induction xs arbitrary: a)
  case (Cons y ys)
  {
    case 1
    then show ?case using Cons.IH [of "max y a"] by (auto intro: order.trans [OF max.cobounded1])
  next
    case 2
    then show ?case using Cons.IH(2) [of "max y a"] by (auto intro: order.trans [OF max.cobounded2])
  }
qed simp_all

lemma fold_max_mem: "fold max xs a \<in> insert a (set xs)" for a :: "'a::linorder"
  by (induction xs arbitrary: a) (auto, (metis insert_iff max_def)+)

lemma next_term_above:
  assumes "\<forall>i n. fmlookup nodes i = Some n \<longrightarrow> sn_current_term (cn_snapshot n) \<noteq> - 1"
    and "fmlookup nodes i = Some n"
  shows "sn_current_term (cn_snapshot n) < next_term nodes"
proof -
  let ?ts = "map (\<lambda>n. sn_current_term (cn_snapshot n)) (bt_values nodes)"
  have "fold max ?ts 0 \<in> insert 0 (set ?ts)" by (rule fold_max_mem)
  then have "fold max ?ts 0 \<noteq> - 1" using assms(1) by (auto simp: bt_values_mem)
  then have "fold max ?ts 0 < next_term nodes" unfolding next_term_def using sat_add_one_fresh by blast
  moreover have "sn_current_term (cn_snapshot n) \<le> fold max ?ts 0"
    using assms(2) by (intro fold_max_ge) (force simp: bt_values_mem)
  ultimately show ?thesis by (rule order.strict_trans1 [rotated])
qed

lemma elect_cases:
  assumes "elect cc io cand c = (Inr term, c')"
  obtains n nodes' where "fmlookup (cft_nodes c) cand = Some n" "cn_alive n" "sn_kind (cn_snapshot n) = Full"
    "term = next_term (cft_nodes c)" "quorum_size c \<le> length (election_voters c cand (last_index n))"
    "collect_votes cc io (election_voters c cand (last_index n)) cand term (bt_keys (cft_nodes c)) (cft_nodes c) = (Inr (), nodes')"
    "c' = c\<lparr>cft_nodes := nodes', cft_leader := Some cand, cft_lease := None\<rparr>"
  using assms by (auto simp: elect_def Let_def split: option.splits if_splits prod.splits sum.splits)

lemma elect_votes:
  assumes ids: "\<forall>i j. member_ids (cft_nodes c) i = Some j \<longrightarrow> j = i"
    and n: "fmlookup (cft_nodes c) cand = Some n"
    and cv: "collect_votes cc io (election_voters c cand (last_index n)) cand term (bt_keys (cft_nodes c)) (cft_nodes c) = (Inr (), nodes')"
    and i: "i \<in> set (election_voters c cand (last_index n))"
  shows "\<exists>m m'. fmlookup (cft_nodes c) i = Some m \<and> fmlookup nodes' i = Some m' \<and> cn_snapshot m' = cn_snapshot (vote_for cand term m)"
proof -
  obtain m where m: "fmlookup (cft_nodes c) i = Some m" "cn_alive m" using i by (auto simp: election_voters_set)
  then have "sn_node_id (cn_snapshot m) = i" using ids by (auto simp: member_ids_def)
  then show ?thesis
    using collect_votes_snapshots [OF cv distinct_bt_keys, of i] m i
    by (cases "fmlookup nodes' i") (auto simp: fmlookup_dom_iff)
qed

text \<open>
  Claim C7.  A successful election opens a new term: it is above the term of every node, a
  majority of the nodes have voted for the candidate in it, the candidate is the leader and
  has the leader role, no node's log reaches further than the candidate's, and no operation
  that needs the quorum is allowed to anybody until the new leader takes a lease, which no
  other node can.
\<close>

theorem election_opens_term:
  assumes ok: "cft_ok c" and el: "elect cc io cand c = (Inr term, c')"
    and small: "\<forall>i n. fmlookup (cft_nodes c) i = Some n \<longrightarrow> sn_current_term (cn_snapshot n) \<noteq> - 1"
  shows "(\<forall>i n. fmlookup (cft_nodes c) i = Some n \<longrightarrow> sn_current_term (cn_snapshot n) < term)
    \<and> quorum_size c \<le> card {i. \<exists>n. fmlookup (cft_nodes c') i = Some n \<and> sn_current_term (cn_snapshot n) = term
                                \<and> sn_voted_for (cn_snapshot n) = Some cand}
    \<and> cft_leader c' = Some cand \<and> node_role c' cand = Inr Leader \<and> cft_current_term c' = term
    \<and> (\<forall>i n m. fmlookup (cft_nodes c') i = Some n \<longrightarrow> fmlookup (cft_nodes c') cand = Some m \<longrightarrow> last_index n \<le> last_index m)
    \<and> (\<forall>i op g t. needs_quorum op \<longrightarrow> authorize c' i op g t \<noteq> Inr ())
    \<and> (\<forall>i t d lease. fst (renew_control_lease i t d c') = Inr lease \<longrightarrow> i = cand)"
proof -
  obtain n nodes' where n: "fmlookup (cft_nodes c) cand = Some n" "cn_alive n" "sn_kind (cn_snapshot n) = Full"
    "term = next_term (cft_nodes c)" "quorum_size c \<le> length (election_voters c cand (last_index n))"
    and cv: "collect_votes cc io (election_voters c cand (last_index n)) cand term (bt_keys (cft_nodes c)) (cft_nodes c) = (Inr (), nodes')"
    and c': "c' = c\<lparr>cft_nodes := nodes', cft_leader := Some cand, cft_lease := None\<rparr>"
    using el by (rule elect_cases)
  let ?V = "election_voters c cand (last_index n)"
  let ?S = "{i. \<exists>n. fmlookup nodes' i = Some n \<and> sn_current_term (cn_snapshot n) = term \<and> sn_voted_for (cn_snapshot n) = Some cand}"
  have ids: "\<forall>i j. member_ids (cft_nodes c) i = Some j \<longrightarrow> j = i" using ok by (simp add: cft_ok_def)
  note votes = elect_votes [OF ids n(1) cv]
  have "set ?V \<subseteq> ?S" using votes by (fastforce simp: vote_for_def Let_def)
  moreover have "finite ?S" by (rule finite_subset [of _ "fset (fmdom nodes')"]) (auto simp: fmlookup_dom_iff)
  ultimately have "card (set ?V) \<le> card ?S" by (rule card_mono [rotated])
  moreover have "card (set ?V) = length ?V" by (rule distinct_card) (simp add: election_voters_def)
  ultimately have maj: "quorum_size c \<le> card ?S" using n(5) by simp
  have "cand \<in> set ?V" using n by (auto simp: election_voters_set connected_def)
  then obtain m' where m': "fmlookup nodes' cand = Some m'" "cn_snapshot m' = cn_snapshot (vote_for cand term n)"
    using votes [of cand] n(1) by auto
  have "sn_node_id (cn_snapshot n) = cand" using ids n(1) by (auto simp: member_ids_def)
  then have role: "node_role c' cand = Inr Leader" "cft_current_term c' = term"
    using m' n(3) c' by (auto simp: node_role_def cft_current_term_def vote_for_def Let_def)
  have "logs_ok (node_log nodes') (quorum_size c) (Some cand) (cft_epoch c)"
    using elect_ok [OF ok el] collect_votes_frame [OF cv] c' by (simp add: cft_ok_def)
  then have tip: "last_index a \<le> last_index b" if "fmlookup nodes' i = Some a" "fmlookup nodes' cand = Some b" for i a b
    using that unfolding logs_ok_def at_tip_def node_log_Some last_index_log by (metis option.inject)
  have "authorize c' i op g t \<noteq> Inr ()" if "needs_quorum op" for i op g t
    using that c' by (cases op) (auto simp: authorize_def)
  moreover have "i = cand" if "fst (renew_control_lease i t d c') = Inr lease" for i t d lease
    using that c' by (auto simp: renew_control_lease_def has_leader_quorum_def Let_def split: if_splits)
  ultimately show ?thesis using next_term_above [OF small] n(4) maj role tip c' by simp
qed

theorem election_opens_term_witness:
  "cft_leader demo_led = Some ''a'' \<and> node_role demo_led ''a'' = Inr Leader
   \<and> authorize demo_led ''a'' DurableWrite None 0 \<noteq> Inr ()"
proof -
  have "cft_ok demo_cluster"
    using cft_open_fresh [OF demo_open_cluster] by (simp add: demo_spec_of_def)
  moreover have "\<forall>i n. fmlookup (cft_nodes demo_cluster) i = Some n \<longrightarrow> sn_current_term (cn_snapshot n) \<noteq> - 1"
    by (auto split: if_splits)
  moreover have "needs_quorum DurableWrite" by simp
  ultimately show ?thesis using election_opens_term [OF _ demo_elect] by blast
qed

text \<open>
  An election whose writes fail half way does not leave the old leader in charge
  of its own term.  In a cluster led by \<open>a\<close>, let \<open>b\<close> stand and let the write of \<open>b\<close>'s own vote
  fail: the election reports the storage error and \<open>a\<close> is still the leader, but \<open>a\<close> has voted
  for \<open>b\<close>, has the follower role, and acts in the term that was opened for \<open>b\<close>.
\<close>

theorem failed_election_moves_leader:
  "\<exists>c'. elect demo_cc (all_ok(''b'' := io_all_ok\<lparr>io_rename := False\<rparr>)) ''b'' demo_led = (Inl control_storage_error, c')
     \<and> cft_leader c' = Some ''a'' \<and> has_leader_quorum c' ''a'' \<and> cft_current_term c' = 2
     \<and> node_role c' ''a'' = Inr Follower
     \<and> map_option (\<lambda>n. sn_voted_for (cn_snapshot n)) (fmlookup (cft_nodes c') ''a'') = Some (Some ''b'')"
proof -
  have v: "election_voters demo_led ''b'' 0 = [''a'', ''b'', ''c'']"
    by (simp add: election_voters_def bt_entries_def)
  have t: "next_term (cft_nodes demo_led) = 2"
    by (simp add: next_term_def bt_values_def sat_add_def)
  define nodes where "nodes = fmupd ''b'' (vote_for ''b'' 2 (demo_voted ''b''))
      (fmupd ''a'' ((vote_for ''b'' 2 (demo_voted ''a''))\<lparr>cn_file := Some []\<rparr>) (cft_nodes demo_led))"
  have "elect demo_cc (all_ok(''b'' := io_all_ok\<lparr>io_rename := False\<rparr>)) ''b'' demo_led
      = (Inl control_storage_error, demo_led\<lparr>cft_nodes := nodes\<rparr>)"
    by (simp add: elect_def v t Let_def nodes_def)
  moreover have keys: "bt_keys nodes = [''a'', ''b'', ''c'']"
    by (simp add: nodes_def bt_keys_upd bt_contains_def)
  moreover have al: "cn_alive (vote_for x y n) = cn_alive n" for x y n by (simp add: vote_for_def Let_def)
  have "has_leader_quorum (demo_led\<lparr>cft_nodes := nodes\<rparr>) ''a''"
    unfolding has_leader_quorum_def node_is_alive_def reachable_voters_def quorum_size_def voter_count_def
      length_bt_keys [symmetric] bt_entries_def
    by (simp add: keys connected_def) (simp add: nodes_def al)
  moreover have "cft_current_term (demo_led\<lparr>cft_nodes := nodes\<rparr>) = 2"
    by (simp add: cft_current_term_def nodes_def vote_for_def Let_def)
  moreover have "node_role (demo_led\<lparr>cft_nodes := nodes\<rparr>) ''a'' = Inr Follower"
    by (simp add: node_role_def nodes_def vote_for_def Let_def)
  moreover have "map_option (\<lambda>n. sn_voted_for (cn_snapshot n)) (fmlookup nodes ''a'') = Some (Some ''b'')"
    by (simp add: nodes_def vote_for_def Let_def)
  ultimately show ?thesis by simp
qed

section \<open>Execution grants\<close>

text \<open>
  Claim C8.  A new grant fences the earlier ones for its task.  When a grant is issued, its
  epoch is above that of every grant in force; its result is accepted exactly while its window
  lasts; and every other grant for the task is refused from then on, for a result as well as
  for going on with the work.
\<close>

theorem issued_grant_fences:
  assumes ok: "cft_ok c" and E: "cft_epoch c \<noteq> - 1"
    and ig: "issue_grant cc io l task attempt worker tick d irr c = (Inr g, c')"
  shows "(\<forall>t g'. fmlookup (cft_grants c) t = Some g' \<longrightarrow> eg_epoch g' < eg_epoch g)
    \<and> (\<forall>t. validate_result c' g t = (if tick \<le> t \<and> t \<le> sat_add tick d then Inr () else Inl grant_expired))
    \<and> (\<forall>g' t i. eg_task_id g' = task \<longrightarrow> g' \<noteq> g \<longrightarrow>
          isl (validate_result c' g' t) \<and> isl (authorize c' i ContinueGranted (Some g') t))"
proof (cases rule: issue_grant_cases [OF ig])
  case (3 h e c1)
  have "eg_epoch g' < eg_epoch h" if "fmlookup (cft_grants c) t = Some g'" for t g'
  proof -
    have "eg_epoch g' \<le> cft_epoch c" using that ok by (auto simp: cft_ok_def grants_ok_def fmpred_iff)
    then show ?thesis using 3(7) sat_add_one_fresh [OF E] by (metis order.strict_trans1)
  qed
  then show ?thesis
    using 3 by (auto simp: validate_result_def grant_is_valid_at_def authorize_def validate_grant_def)
qed auto

lemma demo_issue:
  "\<exists>c'. issue_grant demo_cc demo_pio ''a'' ''t'' 1 ''b'' 5 10 False demo_leased
     = (Inr \<lparr>eg_task_id = ''t'', eg_attempt = 1, eg_worker = ''b'', eg_term = 1, eg_epoch = 1, eg_issued_tick = 5,
             eg_valid_until = 15, eg_irreversible = False\<rparr>, c')"
proof -
  have one: "sat_add 0 1 = (1 :: u64)" "sat_add 5 10 = (15 :: u64)" by (simp_all add: sat_add_def)
  have "cc_record demo_cc r = Some []" for r by (simp add: demo_cc_def)
  then show ?thesis by (simp add: issue_grant_def demo_authorized Let_def one propose_def demo_pio_def)
qed

theorem issued_grant_fences_witness:
  "\<exists>g c'. issue_grant demo_cc demo_pio ''a'' ''t'' 1 ''b'' 5 10 False demo_leased = (Inr g, c')
     \<and> validate_result c' g 7 = Inr () \<and> isl (validate_result c' (g\<lparr>eg_epoch := 0\<rparr>) 7)"
proof -
  have ok: "cft_ok demo_leased"
    using elect_ok [OF _ demo_elect] cft_open_fresh [OF demo_open_cluster] cft_ok_frame(2)
    by (auto simp: demo_leased_def demo_spec_of_def)
  have E: "cft_epoch demo_leased \<noteq> - 1" by simp
  obtain c' where ig: "issue_grant demo_cc demo_pio ''a'' ''t'' 1 ''b'' 5 10 False demo_leased
     = (Inr \<lparr>eg_task_id = ''t'', eg_attempt = 1, eg_worker = ''b'', eg_term = 1, eg_epoch = 1, eg_issued_tick = 5,
             eg_valid_until = 15, eg_irreversible = False\<rparr>, c')" using demo_issue by blast
  have "(5 :: u64) \<le> 7" "(7 :: u64) \<le> sat_add 5 10" by (simp_all add: sat_add_def word_le_nat_alt)
  with issued_grant_fences [OF ok E ig] ig show ?thesis by auto
qed

lemma metadata_number_dec: "fmlookup m k = Some (dec_string n) \<Longrightarrow> n < lim \<Longrightarrow> metadata_number lim m k = Inr n"
  by (simp add: metadata_number_def parse_unsigned_dec)

lemma grant_of_grant_record:
  "grant_of_entry \<lparr>ccr_index = n, ccr_term = eg_term g, ccr_epoch = eg_epoch g, ccr_record = grant_record g\<rparr> = Inr g"
proof -
  let ?m = "ctl_metadata (grant_record g)"
  have "metadata_number (2 ^ 32) ?m ''attempt'' = Inr (unat (eg_attempt g))"
    "metadata_number (2 ^ 64) ?m ''issued_tick'' = Inr (unat (eg_issued_tick g))"
    "metadata_number (2 ^ 64) ?m ''valid_until_tick'' = Inr (unat (eg_valid_until g))"
    using unat_bound [of "eg_attempt g"] unat_bound [of "eg_issued_tick g"] unat_bound [of "eg_valid_until g"]
    by (auto intro!: metadata_number_dec simp: grant_record_def)
  moreover have "metadata_bool ?m ''irreversible_effects'' = Inr (eg_irreversible g)"
    by (simp add: metadata_bool_def grant_record_def)
  moreover have "fmlookup ?m ''global_task_id'' = Some (eg_task_id g)" "fmlookup ?m ''worker_node'' = Some (eg_worker g)"
    by (simp_all add: grant_record_def)
  ultimately show ?thesis by (simp add: grant_of_entry_def Let_def)
qed

lemma grants_of_log_append:
  "grants_of_log (l @ l') gs = bind_result (grants_of_log l gs) (grants_of_log l')"
  by (induction l gs rule: grants_of_log.induct) (auto simp: bind_result_def split: sum.splits)

text \<open>
  The grants in force can be rebuilt from the leader's log.  Whenever reading the
  leader's log gives the grants in force, it does so again after another grant was issued,
  given that the leader's own node stored the record: the text in the record's metadata is
  read back as the grant that was issued.
\<close>

theorem grants_rebuilt_from_log:
  assumes ig: "issue_grant cc io l task attempt worker tick d irr c = (Inr g, c')"
    and stored: "total_codec cc" "pio_append io l = io_all_ok"
    and log: "committed_records c l = Inr log" "grants_of_log log fmempty = Inr (cft_grants c)"
  shows "\<exists>log'. committed_records c' l = Inr log' \<and> grants_of_log log' fmempty = Inr (cft_grants c')"
proof (cases rule: issue_grant_cases [OF ig])
  case (3 h e c1)
  show ?thesis
  proof (cases rule: propose_cases [OF 3(1)])
    case p: (1 ln ps nodes' e')
    have "l \<in> set (propose_targets c l)"
      using p(1,2,3) by (auto simp: propose_targets_set has_leader_quorum_def node_is_alive_def connected_def)
    then have "l \<in> set ps" using p(6) stored by (simp add: appended_def)
    then have "node_log nodes' l = Some (log @ [e'])"
      using p(3,6) log(1) by (auto simp: appended_def node_log_def committed_records_def)
    then have cr: "committed_records c' l = Inr (log @ [e'])"
      using 3(3) p(8) by (auto simp: committed_records_def node_log_def)
    have "e' = \<lparr>ccr_index = ccr_index e', ccr_term = eg_term h, ccr_epoch = eg_epoch h, ccr_record = grant_record h\<rparr>"
      using p(5) 3(7,8) by simp
    then have "grant_of_entry e' = Inr h" using grant_of_grant_record [of _ h] by metis
    moreover have "ctl_kind (ccr_record e') = ExecutionGrant" using p(5) by (simp add: grant_record_def)
    ultimately have "grants_of_log (log @ [e']) fmempty = Inr (fmupd task h (cft_grants c))"
      using log(2) 3(4) by (simp add: grants_of_log_append)
    then show ?thesis using cr 3(3) by simp
  qed simp
qed auto

theorem grants_rebuilt_from_log_witness:
  "\<exists>g c' log'. issue_grant demo_cc demo_pio ''a'' ''t'' 1 ''b'' 5 10 False demo_leased = (Inr g, c')
     \<and> committed_records c' ''a'' = Inr log' \<and> grants_of_log log' fmempty = Inr (cft_grants c')"
proof -
  obtain g c' where ig: "issue_grant demo_cc demo_pio ''a'' ''t'' 1 ''b'' 5 10 False demo_leased = (Inr g, c')"
    using demo_issue by blast
  have io: "pio_append demo_pio ''a'' = io_all_ok" by (simp add: demo_pio_def)
  have log: "committed_records demo_leased ''a'' = Inr []" "grants_of_log [] fmempty = Inr (cft_grants demo_leased)"
    by (simp_all add: committed_records_def)
  show ?thesis using grants_rebuilt_from_log [OF ig total_demo io log] ig by blast
qed

section \<open>A committed record can be lost\<close>

text \<open>A family of cluster states with the nodes \<open>a\<close>, \<open>b\<close> and \<open>c\<close>, to follow a run through.\<close>

definition cluster3 ::
  "ControlNode \<Rightarrow> ControlNode \<Rightarrow> ControlNode \<Rightarrow> (NodeId \<times> NodeId, bool) fmap \<Rightarrow> NodeId option \<Rightarrow> u64 \<Rightarrow> ReferenceCftModel" where
  "cluster3 na nb nc links ld E = demo_led\<lparr>cft_nodes := fmupd ''c'' nc (fmupd ''b'' nb (fmupd ''a'' na fmempty)),
     cft_links := links, cft_leader := ld, cft_epoch := E\<rparr>"

lemma cluster3_simps [simp]:
  "fmlookup (cft_nodes (cluster3 na nb nc links ld E)) i =
     (if i = ''a'' then Some na else if i = ''b'' then Some nb else if i = ''c'' then Some nc else None)"
  "bt_keys (cft_nodes (cluster3 na nb nc links ld E)) = [''a'', ''b'', ''c'']"
  "cft_leader (cluster3 na nb nc links ld E) = ld" "cft_epoch (cluster3 na nb nc links ld E) = E"
  "cft_links (cluster3 na nb nc links ld E) = links"
  "(cluster3 na nb nc links ld E)\<lparr>cft_leader := ld'\<rparr> = cluster3 na nb nc links ld' E"
  "(cluster3 na nb nc links ld E)\<lparr>cft_links := links'\<rparr> = cluster3 na nb nc links' ld E"
  "(cluster3 na nb nc links ld E)\<lparr>cft_epoch := E'\<rparr> = cluster3 na nb nc links ld E'"
  "(cluster3 na nb nc links ld E)\<lparr>cft_lease := None\<rparr> = cluster3 na nb nc links ld E"
  by (auto simp: cluster3_def demo_keys)

lemma cluster3_upd [simp]:
  "fmupd ''a'' x (cft_nodes (cluster3 na nb nc links ld E)) = cft_nodes (cluster3 x nb nc links ld E)"
  "fmupd ''b'' x (cft_nodes (cluster3 na nb nc links ld E)) = cft_nodes (cluster3 na x nc links ld E)"
  "fmupd ''c'' x (cft_nodes (cluster3 na nb nc links ld E)) = cft_nodes (cluster3 na nb x links ld E)"
  "(cluster3 na nb nc links ld E)\<lparr>cft_nodes := cft_nodes (cluster3 na' nb' nc' links' ld' E')\<rparr> = cluster3 na' nb' nc' links ld E"
  by (rule fmap_ext, simp)+ (simp add: cluster3_def)

lemma cluster3_quorum [simp]: "quorum_size (cluster3 na nb nc links ld E) = 2"
  unfolding quorum_size_def voter_count_def length_bt_keys [symmetric] by simp

lemma cluster3_start: "demo_led = cluster3 (demo_voted ''a'') (demo_voted ''b'') (demo_voted ''c'') fmempty (Some ''a'') 0"
  by (simp add: cluster3_def demo_led_def demo_cluster_def)

definition cut_links :: "bool \<Rightarrow> (NodeId \<times> NodeId, bool) fmap" where
  "cut_links up = fmupd (''b'', ''c'') up (fmupd (''a'', ''c'') up fmempty)"

lemma links_keys: "link_key ''c'' ''a'' = (''a'', ''c'')" "link_key ''c'' ''b'' = (''b'', ''c'')"
  "link_key ''a'' ''c'' = (''a'', ''c'')" "link_key ''b'' ''c'' = (''b'', ''c'')"
  "link_key ''a'' ''b'' = (''a'', ''b'')" "link_key ''b'' ''a'' = (''a'', ''b'')"
  by (simp_all add: link_key_def less_eq_char_def)

lemma cut_links_upd:
  "fmupd (''b'', ''c'') up (fmupd (''a'', ''c'') up (cut_links x)) = cut_links up"
  "fmupd (''b'', ''c'') up (fmupd (''a'', ''c'') up fmempty) = cut_links up"
  by (rule fmap_ext, simp add: cut_links_def)+

lemma isolate_c:
  "isolate ''c'' True (cluster3 na nb nc fmempty (Some ''a'') E) = (Inr (), cluster3 na nb nc (cut_links False) (Some ''a'') E)"
  "isolate ''c'' False (cluster3 na nb nc (cut_links x) (Some ''a'') E) = (Inr (), cluster3 na nb nc (cut_links True) (Some ''a'') E)"
  by (simp_all add: isolate_def bt_contains_def links_keys cut_links_upd)

lemma cut_connected [simp]:
  "connected (cluster3 na nb nc (cut_links up) ld E) ''a'' i = (i \<noteq> ''c'' \<or> up)"
  "connected (cluster3 na nb nc (cut_links True) ld E) j i"
  by (auto simp: connected_def links_keys cut_links_def link_key_def unwrap_or_def split: option.splits if_splits)

lemma propose_cut:
  assumes "last_index (demo_logged ''a'' la) = n"
  shows "propose demo_cc demo_pio ''a'' r (cluster3 (demo_logged ''a'' la) (demo_logged ''b'' lb) (demo_logged ''c'' lc) (cut_links up) (Some ''a'') E)
    = (let e = \<lparr>ccr_index = sat_add n 1, ccr_term = 1, ccr_epoch = sat_add E 1, ccr_record = r\<rparr> in
       (Inr e, cluster3 (demo_logged ''a'' (la @ [e])) (demo_logged ''b'' (lb @ [e]))
          (demo_logged ''c'' (if up then lc @ [e] else lc)) (cut_links up) (Some ''a'') (sat_add E 1)))"
proof -
  let ?c = "cluster3 (demo_logged ''a'' la) (demo_logged ''b'' lb) (demo_logged ''c'' lc) (cut_links up) (Some ''a'') E"
  have t: "sn_current_term (cn_snapshot (demo_logged i l)) = 1" for i l by (simp add: demo_logged_def with_log_def)
  have pt: "propose_targets (cluster3 (demo_logged ''a'' la) (demo_logged ''b'' lb) (demo_logged ''c'' lc) (cut_links u)
      (Some ''a'') E) ''a'' = (if u then [''a'', ''b'', ''c''] else [''a'', ''b''])" for u
    by (simp add: propose_targets_def bt_entries_def)
  have "has_leader_quorum ?c ''a''" "cft_current_term ?c = 1"
    by (simp_all add: has_leader_quorum_def node_is_alive_def reachable_voters_def bt_entries_def cft_current_term_def t)
  moreover have "cc_record demo_cc r = Some []" by (simp add: demo_cc_def)
  ultimately show ?thesis
    using assms by (cases up) (simp_all add: propose_def demo_pio_def Let_def pt)
qed

lemma demo_logged_fields [simp]:
  "sn_kind (cn_snapshot (demo_logged i l)) = Full" "sn_node_id (cn_snapshot (demo_logged i l)) = i"
  "last_index (demo_logged i l) = log_last l" "ccr_index (demo_entry n r) = n"
  by (simp_all add: demo_logged_def with_log_def last_index_log demo_entry_def)

lemma demo_log_last [simp]: "log_last [demo_entry n r] = n" "log_last [e, demo_entry n r] = n" "log_last [] = 0"
  by (simp_all add: log_last_def)

text \<open>With \<open>a\<close> down, \<open>c\<close> is elected by \<open>b\<close> and itself when its last index is not below that of \<open>b\<close>.\<close>

lemma elect_c:
  assumes "log_last lb \<le> log_last lc" and "\<not> cn_alive na"
  shows "\<exists>nb nc. snd (elect demo_cc all_ok ''c'' (cluster3 na (demo_logged ''b'' lb) (demo_logged ''c'' lc) (cut_links True) None E))
      = cluster3 na nb nc (cut_links True) (Some ''c'') E \<and> sn_log (cn_snapshot nc) = lc"
proof -
  let ?c = "cluster3 na (demo_logged ''b'' lb) (demo_logged ''c'' lc) (cut_links True) None E"
  have "election_voters ?c ''c'' (log_last lc) = [''b'', ''c'']"
    using assms by (simp add: election_voters_def bt_entries_def)
  moreover have "sn_log (cn_snapshot (vote_for x t n)) = sn_log (cn_snapshot n)" for x t n
    by (simp add: vote_for_def Let_def)
  ultimately show ?thesis
    using assms(2) by (simp add: elect_def Let_def) (rule exI, rule exI, rule conjI [OF refl], simp)
qed

lemma recover_from_c:
  "\<exists>n. snd (recover demo_cc io_all_ok ''b'' (cluster3 na nb nc (cut_links True) (Some ''c'') E))
      = cluster3 na n nc (cut_links True) (Some ''c'') E \<and> sn_log (cn_snapshot n) = sn_log (cn_snapshot nc)"
  "\<exists>n. snd (recover demo_cc io_all_ok ''a'' (cluster3 na nb nc (cut_links True) (Some ''c'') E))
      = cluster3 n nb nc (cut_links True) (Some ''c'') E \<and> sn_log (cn_snapshot n) = sn_log (cn_snapshot nc)"
  by (simp add: recover_def set_alive_def Let_def, rule exI, rule conjI [OF refl], simp)+

text \<open>
  Claim C38.  A record that was reported as committed can be lost.  While \<open>c\<close> is cut off, the
  leader \<open>a\<close> commits a first record on \<open>a\<close> and \<open>b\<close>; \<open>c\<close> is reconnected and \<open>a\<close> commits a second
  record, which \<open>c\<close> appends to its log although it lacks the first; \<open>a\<close> fails.  Now \<open>c\<close> wins the
  election, because only the last index is compared, and recovering \<open>b\<close> and \<open>a\<close> replaces their
  logs by that of \<open>c\<close>: no log has the first record any more.
\<close>

theorem committed_record_lost:
  "fst (propose demo_cc demo_pio ''a'' (demo_record ''x'') (run_control demo_cc [IsolateOp ''c'' True] demo_led))
     = Inr (demo_entry 1 (demo_record ''x''))
   \<and> (let c = run_control demo_cc
              [IsolateOp ''c'' True, ProposeOp demo_pio ''a'' (demo_record ''x''), IsolateOp ''c'' False,
               ProposeOp demo_pio ''a'' (demo_record ''y''), SetAliveOp ''a'' False, ElectOp all_ok ''c'',
               RecoverOp io_all_ok ''b'', RecoverOp io_all_ok ''a''] demo_led
      in cft_leader c = Some ''c''
         \<and> committed_records c ''a'' = Inr [demo_entry 2 (demo_record ''y'')]
         \<and> committed_records c ''b'' = Inr [demo_entry 2 (demo_record ''y'')]
         \<and> committed_records c ''c'' = Inr [demo_entry 2 (demo_record ''y'')])"
proof -
  let ?x = "demo_entry 1 (demo_record ''x'')" and ?y = "demo_entry 2 (demo_record ''y'')"
  let ?n = "\<lambda>i. demo_logged i []" and ?up = "cut_links True"
  have sat: "sat_add 0 1 = (1 :: u64)" "sat_add 1 1 = (2 :: u64)" by (simp_all add: sat_add_def)
  have c1: "control_step demo_cc (IsolateOp ''c'' True) demo_led
      = cluster3 (?n ''a'') (?n ''b'') (?n ''c'') (cut_links False) (Some ''a'') 0"
    by (simp add: cluster3_start isolate_c(1))
  have p1: "propose demo_cc demo_pio ''a'' (demo_record ''x'') (cluster3 (?n ''a'') (?n ''b'') (?n ''c'') (cut_links False) (Some ''a'') 0)
      = (Inr ?x, cluster3 (demo_logged ''a'' [?x]) (demo_logged ''b'' [?x]) (?n ''c'') (cut_links False) (Some ''a'') 1)"
    by (subst propose_cut [OF demo_logged_fields(3)]) (simp add: sat demo_entry_def Let_def)
  have p2: "propose demo_cc demo_pio ''a'' (demo_record ''y'')
        (cluster3 (demo_logged ''a'' [?x]) (demo_logged ''b'' [?x]) (?n ''c'') ?up (Some ''a'') 1)
      = (Inr ?y, cluster3 (demo_logged ''a'' [?x, ?y]) (demo_logged ''b'' [?x, ?y]) (demo_logged ''c'' [?y]) ?up (Some ''a'') 2)"
    by (subst propose_cut [OF demo_logged_fields(3)]) (simp add: sat demo_entry_def log_last_def Let_def)
  let ?dead = "(demo_logged ''a'' [?x, ?y])\<lparr>cn_alive := False\<rparr>"
  have d: "set_alive ''a'' False (cluster3 (demo_logged ''a'' [?x, ?y]) (demo_logged ''b'' [?x, ?y]) (demo_logged ''c'' [?y]) ?up (Some ''a'') 2)
      = (Inr (), cluster3 ?dead (demo_logged ''b'' [?x, ?y]) (demo_logged ''c'' [?y]) ?up None 2)"
    by (simp add: set_alive_def Let_def)
  obtain vb vc where e: "snd (elect demo_cc all_ok ''c'' (cluster3 ?dead (demo_logged ''b'' [?x, ?y]) (demo_logged ''c'' [?y]) ?up None 2))
      = cluster3 ?dead vb vc ?up (Some ''c'') 2" "sn_log (cn_snapshot vc) = [?y]"
    using elect_c [of "[?x, ?y]" "[?y]" ?dead 2] by auto
  obtain nb where nb: "snd (recover demo_cc io_all_ok ''b'' (cluster3 ?dead vb vc ?up (Some ''c'') 2))
      = cluster3 ?dead nb vc ?up (Some ''c'') 2" "sn_log (cn_snapshot nb) = [?y]" using recover_from_c(1) e(2) by metis
  obtain na where na: "snd (recover demo_cc io_all_ok ''a'' (cluster3 ?dead nb vc ?up (Some ''c'') 2))
      = cluster3 na nb vc ?up (Some ''c'') 2" "sn_log (cn_snapshot na) = [?y]" using recover_from_c(2) e(2) by metis
  have "run_control demo_cc [IsolateOp ''c'' True, ProposeOp demo_pio ''a'' (demo_record ''x''), IsolateOp ''c'' False,
               ProposeOp demo_pio ''a'' (demo_record ''y''), SetAliveOp ''a'' False, ElectOp all_ok ''c'',
               RecoverOp io_all_ok ''b'', RecoverOp io_all_ok ''a''] demo_led = cluster3 na nb vc ?up (Some ''c'') 2"
    unfolding run_control.simps c1
    unfolding control_step.simps p1 isolate_c(2) snd_conv p2 d e(1) nb(1) na(1) ..
  then show ?thesis using p1 c1 na(2) nb(2) e(2) by (simp only: Let_def) (simp add: committed_records_def)
qed

end
