(* ===== verification/Cft_Replica.thy ===== *)
theory Cft_Replica
  imports Registry_Properties Ha_Properties
begin

text \<open>
  \<open>CftRegistryReplica\<close> of \<open>ha_control.rs\<close>: the bridge that stores a registry transaction as a
  control record of the cluster, and that writes a registry log back from the control log of
  a node.  It provides the interface \<open>metadata_replica\<close>, so everything proved of a registry
  over any replica holds of a registry over the control plane.  The control plane, which the
  code shares under a mutex held for the whole call, is part of the replica's state: a registry
  with several of these replicas over one control plane is not modelled.
\<close>

record CftRegistryReplica =
  cr_control :: ReferenceCftModel
  cr_ingress :: NodeId
  cr_replica_id :: string
  cr_next_tick :: u64

definition cft_replica_new :: "ReferenceCftModel \<Rightarrow> NodeId \<Rightarrow> u64 \<Rightarrow> CftRegistryReplica" where
  "cft_replica_new control ingress first_tick =
     \<lparr>cr_control = control, cr_ingress = ingress, cr_replica_id = ''cft:'' @ ingress, cr_next_tick = first_tick\<rparr>"

definition cft_conflict_error :: DistributedError where
  "cft_conflict_error = error_new Conflict ''CFT replica log index belongs to another transaction''"

definition registry_record :: "MetadataTransaction \<Rightarrow> string \<Rightarrow> ControlRecord" where
  "registry_record tx prepare =
     \<lparr>ctl_record_id = ''registry:'' @ mt_transaction_id tx, ctl_kind = GlobalTask,
      ctl_metadata = fmupd ''registry_log_index'' (dec_string (unat (mt_log_index tx)))
                       (fmupd ''registry_transaction_id'' (mt_transaction_id tx)
                         (fmupd ''registry_prepare'' prepare fmempty))\<rparr>"

definition entry_at_index :: "u64 \<Rightarrow> CommittedControlRecord \<Rightarrow> bool" where
  "entry_at_index i e \<longleftrightarrow>
     fmlookup (ctl_metadata (ccr_record e)) ''registry_log_index'' = Some (dec_string (unat i))"

definition entry_of_transaction :: "string \<Rightarrow> CommittedControlRecord \<Rightarrow> bool" where
  "entry_of_transaction t e \<longleftrightarrow>
     fmlookup (ctl_metadata (ccr_record e)) ''registry_transaction_id'' = Some t"

definition cft_replica_commit ::
  "control_codec \<Rightarrow> propose_io \<Rightarrow> MetadataTransaction \<Rightarrow> bool \<Rightarrow> CftRegistryReplica
     \<Rightarrow> ReplicaCommitAck result \<times> CftRegistryReplica" where
  "cft_replica_commit cc io tx sync r =
     (let ack = \<lparr>ack_replica_id = cr_replica_id r, ack_transaction_id = mt_transaction_id tx,
                 ack_log_index = mt_log_index tx\<rparr> in
      case from_utf8 (mt_prepare_payload tx) of
        None \<Rightarrow> (Inl control_corrupt_error, r)
      | Some prepare \<Rightarrow>
          let tick = cr_next_tick r; r = r\<lparr>cr_next_tick := tick + 1\<rparr> in
          case committed_records (cr_control r) (cr_ingress r) of
            Inl e \<Rightarrow> (Inl e, r)
          | Inr log \<Rightarrow>
              (case List.find (entry_at_index (mt_log_index tx)) log of
                 Some e \<Rightarrow> (if entry_of_transaction (mt_transaction_id tx) e then Inr ack else Inl cft_conflict_error, r)
               | None \<Rightarrow>
                   (case propose_from cc io (cr_ingress r) (registry_record tx prepare) tick (cr_control r) of
                      (Inl e, c) \<Rightarrow> (Inl e, r\<lparr>cr_control := c\<rparr>)
                    | (Inr _, c) \<Rightarrow> (Inr ack, r\<lparr>cr_control := c\<rparr>))))"

text \<open>
  The answers of the file system while a log is written back: the write of the frames of one
  control record may fail after some bytes.
\<close>

record restore_io =
  rsi_parent :: bool
  rsi_open :: bool
  rsi_torn :: "nat \<Rightarrow> nat option"
  rsi_sync :: bool

fun restore_frames ::
  "('p, 'r, 'h) registry_codec \<Rightarrow> (nat \<Rightarrow> nat option) \<Rightarrow> nat \<Rightarrow> CommittedControlRecord list \<Rightarrow> bytes
     \<Rightarrow> unit result \<times> bytes" where
  "restore_frames cx torn n [] file = (Inr (), file)"
| "restore_frames cx torn n (e # es) file =
     (case fmlookup (ctl_metadata (ccr_record e)) ''registry_prepare'' of
        None \<Rightarrow> restore_frames cx torn (Suc n) es file
      | Some prepare_payload \<Rightarrow>
          (case committed_frames_from_prepare_payload cx (as_bytes prepare_payload) of
             Inl err \<Rightarrow> (Inl err, file)
           | Inr (_, _, prepare, commit) \<Rightarrow>
               (case torn n of
                  Some k \<Rightarrow> (Inl control_storage_error, file @ take k (prepare @ commit))
                | None \<Rightarrow> restore_frames cx torn (Suc n) es (file @ prepare @ commit))))"

definition restore_registry_wal ::
  "('p, 'r, 'h) registry_codec \<Rightarrow> restore_io \<Rightarrow> ReferenceCftModel \<Rightarrow> NodeId \<Rightarrow> bytes option
     \<Rightarrow> unit result \<times> bytes option" where
  "restore_registry_wal cx io control node destination =
     (if \<not> rsi_parent io \<or> \<not> rsi_open io then (Inl control_storage_error, destination)
      else case committed_records control node of
        Inl e \<Rightarrow> (Inl e, Some [])
      | Inr log \<Rightarrow>
          (case restore_frames cx (rsi_torn io) 0 log [] of
             (Inl e, file) \<Rightarrow> (Inl e, Some file)
           | (Inr _, file) \<Rightarrow> (if rsi_sync io then Inr () else Inl control_storage_error, Some file)))"

section \<open>The interface\<close>

text \<open>A transaction is held when some node of the cluster has its record.\<close>

definition cft_holds :: "CftRegistryReplica \<Rightarrow> u64 \<Rightarrow> string \<Rightarrow> bool" where
  "cft_holds r i t \<longleftrightarrow>
     (\<exists>e \<in> records (node_log (cft_nodes (cr_control r))). entry_at_index i e \<and> entry_of_transaction t e)"

lemma propose_records:
  assumes "propose cc io l rec c = (res, c')"
  shows "records (node_log (cft_nodes c)) \<subseteq> records (node_log (cft_nodes c'))"
    and "res = Inr e \<Longrightarrow> e \<in> records (node_log (cft_nodes c')) \<and> ccr_record e = rec"
proof -
  have "records (node_log (cft_nodes c)) \<subseteq> records (node_log (cft_nodes c'))
    \<and> (\<forall>e. res = Inr e \<longrightarrow> e \<in> records (node_log (cft_nodes c')) \<and> ccr_record e = rec)"
  proof (cases rule: propose_cases [OF assms])
    case (1 ln ps nodes' e)
    have "ps \<noteq> []" using 1(7) by (auto simp: quorum_size_def)
    then obtain p where p: "p \<in> set ps" by (cases ps) auto
    then have "p \<in> dom (node_log (cft_nodes c))"
      using 1(6) propose_targets_ok(2) [of c l] by (auto simp: appended_def dom_node_log)
    then obtain l0 where "node_log (cft_nodes c) p = Some l0" by blast
    with p 1(6) have "records (node_log nodes') = insert e (records (node_log (cft_nodes c)))"
      using records_append [of p "set ps" "node_log (cft_nodes c)"] by (simp add: appended_def)
    with 1 show ?thesis by auto
  qed auto
  then show "records (node_log (cft_nodes c)) \<subseteq> records (node_log (cft_nodes c'))"
    "res = Inr e \<Longrightarrow> e \<in> records (node_log (cft_nodes c')) \<and> ccr_record e = rec" by auto
qed

lemma cft_commit_cases:
  assumes "cft_replica_commit cc io tx sync r = (res, r')"
  obtains (local) "cr_control r' = cr_control r" "\<And>ack. res = Inr ack \<Longrightarrow> \<exists>log e. committed_records (cr_control r) (cr_ingress r) = Inr log
        \<and> e \<in> set log \<and> entry_at_index (mt_log_index tx) e \<and> entry_of_transaction (mt_transaction_id tx) e"
  | (proposed) prepare rp where "from_utf8 (mt_prepare_payload tx) = Some prepare"
      "propose_from cc io (cr_ingress r) (registry_record tx prepare) (cr_next_tick r) (cr_control r) = (rp, cr_control r')"
      "isl res = isl rp"
proof (cases "from_utf8 (mt_prepare_payload tx)")
  case None
  then show ?thesis using assms local by (auto simp: cft_replica_commit_def)
next
  case (Some prepare)
  show ?thesis
  proof (cases "committed_records (cr_control r) (cr_ingress r)")
    case (Inl e)
    then show ?thesis using assms Some local by (auto simp: cft_replica_commit_def Let_def)
  next
    case (Inr log)
    show ?thesis
    proof (cases "List.find (entry_at_index (mt_log_index tx)) log")
      case None
      obtain rp c where pf: "propose_from cc io (cr_ingress r) (registry_record tx prepare) (cr_next_tick r) (cr_control r) = (rp, c)"
        by fastforce
      then show ?thesis
        using assms \<open>from_utf8 _ = _\<close> Inr None proposed [of prepare rp]
        by (cases rp) (auto simp: cft_replica_commit_def Let_def)
    next
      case (Some e)
      then have "e \<in> set log" "entry_at_index (mt_log_index tx) e"
        by (auto simp: find_Some_iff)
      moreover have "cr_control r' = cr_control r" "res = Inr ack \<Longrightarrow> entry_of_transaction (mt_transaction_id tx) e" for ack
        using assms \<open>from_utf8 _ = _\<close> Inr Some by (auto simp: cft_replica_commit_def Let_def split: if_splits)
      ultimately show ?thesis using local Inr by blast
    qed
  qed
qed

lemma registry_record_entry:
  "ccr_record e = registry_record tx p \<Longrightarrow>
     entry_at_index (mt_log_index tx) e \<and> entry_of_transaction (mt_transaction_id tx) e"
  by (simp add: registry_record_def entry_at_index_def entry_of_transaction_def)

lemma cft_commit_control:
  assumes "cft_replica_commit cc io tx sync r = (res, r')"
  shows "records (node_log (cft_nodes (cr_control r))) \<subseteq> records (node_log (cft_nodes (cr_control r')))"
    and "res = Inr ack \<Longrightarrow> cft_holds r' (mt_log_index tx) (mt_transaction_id tx)"
proof -
  have "records (node_log (cft_nodes (cr_control r))) \<subseteq> records (node_log (cft_nodes (cr_control r')))
    \<and> (\<forall>ack. res = Inr ack \<longrightarrow> cft_holds r' (mt_log_index tx) (mt_transaction_id tx))"
  proof (cases rule: cft_commit_cases [OF assms])
    case 1
    then show ?thesis by (fastforce simp: cft_holds_def records_def node_log_def committed_records_def)
  next
    case (2 prepare rp)
    show ?thesis
    proof (cases rule: propose_from_cases [OF 2(2)])
      case (1 e)
      then show ?thesis using 2(3) by auto
    next
      case p: (2 l)
      have "cft_holds r' (mt_log_index tx) (mt_transaction_id tx)" if acked: "res = Inr ack" for ack
      proof -
        obtain e where "rp = Inr e" using acked 2(3) by (cases rp) auto
        then show ?thesis
          using propose_records(2) [OF p(2)]
          unfolding cft_holds_def using registry_record_entry by blast
      qed
      then show ?thesis using propose_records(1) [OF p(2)] by blast
    qed
  qed
  then show "records (node_log (cft_nodes (cr_control r))) \<subseteq> records (node_log (cft_nodes (cr_control r')))"
    "res = Inr ack \<Longrightarrow> cft_holds r' (mt_log_index tx) (mt_transaction_id tx)" by auto
qed

lemma cft_commit_fields:
  assumes "cft_replica_commit cc io tx sync r = (res, r')"
  shows "cr_replica_id r' = cr_replica_id r" "cr_ingress r' = cr_ingress r"
    "res = Inr ack \<Longrightarrow> ack = \<lparr>ack_replica_id = cr_replica_id r, ack_transaction_id = mt_transaction_id tx,
                 ack_log_index = mt_log_index tx\<rparr>"
  using assms by (auto simp: cft_replica_commit_def Let_def split: option.splits sum.splits prod.splits if_splits)

interpretation cft_replica: metadata_replica cr_replica_id "cft_replica_commit cc" cft_holds for cc
proof
  fix env tx sync x ack x'
  assume "cft_replica_commit cc env tx sync x = (Inr ack, x')"
  then show "ack = \<lparr>ack_replica_id = cr_replica_id x, ack_transaction_id = mt_transaction_id tx,
             ack_log_index = mt_log_index tx\<rparr> \<and> cft_holds x' (mt_log_index tx) (mt_transaction_id tx)"
    using cft_commit_fields(3) cft_commit_control(2) by blast
next
  fix env tx sync x
  show "cr_replica_id (snd (cft_replica_commit cc env tx sync x)) = cr_replica_id x"
    using cft_commit_fields(1) by (metis prod.collapse)
next
  fix x i t env tx sync
  assume "cft_holds x i t"
  then show "cft_holds (snd (cft_replica_commit cc env tx sync x)) i t"
    using cft_commit_control(1) [of cc env tx sync x] unfolding cft_holds_def by (metis prod.collapse subsetD)
qed

section \<open>Writing a registry log back\<close>

lemma as_string_of_bytes [simp]: "as_bytes (string_of_bytes bs) = bs"
proof -
  have "of_nat (of_char (char_of (unat b))) = b" for b :: u8
    using unat_bound [of b] by simp
  then show ?thesis by (simp add: as_bytes_def string_of_bytes_def map_idI)
qed

lemma from_utf8_bytes: "from_utf8 bs = Some s \<Longrightarrow> as_bytes s = bs"
  by (auto simp: from_utf8_def split: if_splits)

text \<open>The control log of a node holds the records of exactly these transactions, in this order, among others.\<close>

fun carries :: "CommittedControlRecord list \<Rightarrow> MetadataTransaction list \<Rightarrow> bool" where
  "carries [] txs \<longleftrightarrow> txs = []"
| "carries (e # es) txs \<longleftrightarrow>
     (fmlookup (ctl_metadata (ccr_record e)) ''registry_prepare'' = None \<and> carries es txs)
     \<or> (\<exists>tx rest prepare. txs = tx # rest \<and> from_utf8 (mt_prepare_payload tx) = Some prepare
           \<and> ccr_record e = registry_record tx prepare \<and> carries es rest)"

definition identified :: "('p, 'r, 'h) registry_codec \<Rightarrow> MetadataTransaction \<Rightarrow> bool" where
  "identified cx tx \<longleftrightarrow>
     (\<exists>p. from_slice (cx_prepared cx) (mt_prepare_payload tx) = Some p
        \<and> transaction_id_for_prepared cx p = Inr (pp_transaction_id p))"

lemma frames_of_transaction:
  assumes "transaction_wf cx mx tx" and "identified cx tx"
  shows "committed_frames_from_prepare_payload cx (mt_prepare_payload tx)
    = Inr (mt_log_index tx, mt_transaction_id tx, mt_prepare_frame tx, mt_commit_frame tx)"
  using assms by (auto simp: committed_frames_from_prepare_payload_def transaction_wf_def identified_def)

lemma restore_frames_carried:
  assumes "carries log txs" and "\<forall>tx \<in> set txs. transaction_wf cx mx tx \<and> identified cx tx"
  shows "restore_frames cx (\<lambda>_. None) n log file
    = (Inr (), file @ concat (map (\<lambda>tx. mt_prepare_frame tx @ mt_commit_frame tx) txs))"
  using assms
proof (induction log arbitrary: n txs "file")
  case (Cons e es)
  from Cons.prems(1) consider
    (other) "fmlookup (ctl_metadata (ccr_record e)) ''registry_prepare'' = None" "carries es txs"
  | (tx) tx rest prepare where "txs = tx # rest" "from_utf8 (mt_prepare_payload tx) = Some prepare"
      "ccr_record e = registry_record tx prepare" "carries es rest" by auto
  then show ?case
  proof cases
    case other
    then show ?thesis using Cons by simp
  next
    case tx
    have "committed_frames_from_prepare_payload cx (as_bytes prepare)
        = Inr (mt_log_index tx, mt_transaction_id tx, mt_prepare_frame tx, mt_commit_frame tx)"
      using from_utf8_bytes [OF tx(2)] frames_of_transaction Cons.prems(2) tx(1) by auto
    moreover have "fmlookup (ctl_metadata (ccr_record e)) ''registry_prepare'' = Some prepare"
      using tx(3) by (simp add: registry_record_def)
    ultimately show ?thesis using Cons tx by simp
  qed
qed simp

section \<open>Properties\<close>

text \<open>
  A registry whose replicas store their transactions in the control plane keeps
  its promise on copies: when a transaction is acknowledged, the receipt names at least the
  required number of distinct replicas (counting the local log), each of them has the record
  of this transaction at this index in a log of its cluster, and everything its cluster held
  before is still there.
\<close>

theorem transact_copies_cft:
  assumes "pending_held cr_replica_id cft_holds reg"
    and "transact_locked cx cr_replica_id (cft_replica_commit cc) io reg m required sync = (Inr pr, reg')"
  shows "copies_held cr_replica_id cft_holds required (cp_log_index pr) (cp_transaction_id pr) (cp_replica_commits pr) (reg_replicas reg')
    \<and> replicas_kept cr_replica_id cft_holds (reg_replicas reg) (reg_replicas reg')"
  using cft_replica.transact_copies [OF assms] by blast

definition demo_cft :: CftRegistryReplica where
  "demo_cft = cft_replica_new demo_leased ''b'' 1"

definition demo_cft_io :: "propose_io registry_io" where
  "demo_cft_io = \<lparr>rio_prepare = append_all_ok, rio_commit = append_all_ok, rio_len = True,
     rio_snapshot = rio_snapshot demo_io, rio_truncate = rio_truncate demo_io, rio_replica = (\<lambda>_. demo_pio)\<rparr>"

lemma demo_utf8: "valid_utf8 (replicate n 7)"
  by (induction n) auto

lemma demo_cft_commit:
  assumes "mt_prepare_payload tx = replicate 64 7"
  shows "\<exists>r'. cft_replica_commit demo_cc demo_pio tx True demo_cft =
    (Inr \<lparr>ack_replica_id = cr_replica_id demo_cft, ack_transaction_id = mt_transaction_id tx,
          ack_log_index = mt_log_index tx\<rparr>, r')"
proof -
  have "from_utf8 (replicate 64 7) = Some (string_of_bytes (replicate 64 7))"
    using demo_utf8 by (simp only: from_utf8_def if_True)
  moreover have "authorize demo_leased ''a'' DurableWrite None 1 = Inr ()"
    by (simp add: authorize_def demo_lease_def lease_is_valid_at_def word_le_nat_alt)
  moreover have "cc_record demo_cc x = Some []" for x by (simp add: demo_cc_def)
  ultimately show ?thesis
    using assms
    by (simp add: cft_replica_commit_def Let_def demo_cft_def cft_replica_new_def committed_records_def
        propose_from_def node_is_alive_def propose_def demo_pio_def)
qed

definition demo_cft_registry :: "(nat, nat, nat, CftRegistryReplica) PersistentRegistry" where
  "demo_cft_registry = \<lparr>reg_snapshot_file = None, reg_wal = \<lparr>wf_bytes = [], wf_synced = 0\<rparr>, reg_records = fmempty,
        reg_versions = fmempty, reg_last_log_index = 0, reg_last_transaction_id = [], reg_wal_transactions = 0,
        reg_recovered_tail_bytes = 0, reg_pending = None, reg_last_report = None,
        reg_replicas = [demo_cft], reg_options = demo_options\<rparr>"

theorem transact_copies_cft_witness:
  "\<exists>pr reg'. transact_locked demo_codec cr_replica_id (cft_replica_commit demo_cc) demo_cft_io
       demo_cft_registry demo_mutation 2 True = (Inr pr, reg')
     \<and> copies_held cr_replica_id cft_holds 2 (cp_log_index pr) (cp_transaction_id pr) (cp_replica_commits pr) (reg_replicas reg')"
proof -
  have "\<exists>pr reg'. transact_locked demo_codec cr_replica_id (cft_replica_commit demo_cc) demo_cft_io demo_cft_registry demo_mutation 2 True = (Inr pr, reg')"
    using demo_cft_commit
    by (rule_tac demo_commit_on [where p = demo_prepared and r = "submitted_record demo_spec" and x = demo_cft])
       (simp_all add: demo_codec_def serde_single_def demo_prepared_def demo_mutation_def demo_cft_registry_def
        bt_contains_def submitted_record_def demo_spec_def new_prepared_def checked_add_def transaction_id_def
        version_of_def demo_cft_io_def)
  then obtain pr reg' where tl: "transact_locked demo_codec cr_replica_id (cft_replica_commit demo_cc) demo_cft_io demo_cft_registry demo_mutation 2 True = (Inr pr, reg')"
    by blast
  have "pending_held cr_replica_id cft_holds demo_cft_registry" by (simp add: pending_held_def demo_cft_registry_def)
  from transact_copies_cft [OF this tl] tl show ?thesis by blast
qed

text \<open>
  A log written back from a node's control log is the registry's log: when the
  control log of the node carries the records of some transactions, whatever else it holds,
  the file that is written has the prepare and commit frames of these transactions in their
  order and nothing else.
\<close>

theorem restored_log_complete:
  assumes "committed_records control node = Inr log" and "carries log txs"
    and "\<forall>tx \<in> set txs. transaction_wf cx mx tx \<and> identified cx tx" and "sha_ok (cx_sha cx)"
    and "rsi_parent io" "rsi_open io" "rsi_sync io" "rsi_torn io = (\<lambda>_. None)"
  shows "restore_registry_wal cx io control node destination = (Inr (), Some (wal_image (cx_sha cx) (tx_entries txs)))"
proof -
  have "wal_image (cx_sha cx) (tx_entries txs) = concat (map (\<lambda>tx. mt_prepare_frame tx @ mt_commit_frame tx) txs)"
    using assms(3)
  proof (induction txs)
    case (Cons tx txs)
    then have "transaction_wf cx mx tx" by simp
    with Cons show ?case using transaction_wf_frames [OF _ assms(4)] by (auto simp: wal_image_def)
  qed (simp add: wal_image_def)
  with restore_frames_carried [OF assms(2,3)] assms(1,5-) show ?thesis
    by (simp add: restore_registry_wal_def)
qed

definition demo_cft_log :: control_log where
  "demo_cft_log = [demo_entry 1 (demo_record ''x''),
     demo_entry 2 (registry_record demo_transaction (string_of_bytes (replicate 64 7)))]"

theorem restored_log_complete_witness:
  "restore_registry_wal demo_codec \<lparr>rsi_parent = True, rsi_open = True, rsi_torn = (\<lambda>_. None), rsi_sync = True\<rparr>
     (cluster3 (demo_logged ''a'' demo_cft_log) (demo_voted ''b'') (demo_voted ''c'') fmempty None 2) ''a'' None
   = (Inr (), Some (wal_image (cx_sha demo_codec) (tx_entries [demo_transaction])))"
proof -
  let ?c = "cluster3 (demo_logged ''a'' demo_cft_log) (demo_voted ''b'') (demo_voted ''c'') fmempty None 2"
  have log: "committed_records ?c ''a'' = Inr demo_cft_log" by (simp add: committed_records_def)
  have "from_utf8 (mt_prepare_payload demo_transaction) = Some (string_of_bytes (replicate 64 7))"
    using demo_utf8 by (simp only: from_utf8_def demo_transaction_def MetadataTransaction.simps if_True)
  then have ca: "carries demo_cft_log [demo_transaction]"
    by (simp add: demo_cft_log_def demo_entry_def demo_record_def)
  have idf: "identified demo_codec demo_transaction"
    by (simp add: identified_def demo_codec_def serde_single_def demo_transaction_def demo_prepared_def
        transaction_id_for_prepared_def transaction_id_def)
  have sha: "sha_ok (cx_sha demo_codec)" by (simp add: demo_codec_def sha_ok_def)
  show ?thesis
    using restored_log_complete [OF log ca, of demo_codec default_max_registry_record_bytes] idf demo_transaction_wf sha by simp
qed

lemma propose_no_conflict:
  assumes "propose cc io l rec c = (Inl e, c')"
  shows "err_kind e \<noteq> Conflict"
proof -
  have "append_to_targets cc io' e (propose_targets c l) (cft_nodes c) \<noteq> (Inl x, n)" for io' e x n
    using append_to_targets_spec [OF propose_targets_ok, of cc io' e c l] by auto
  with assms show ?thesis
    by (auto simp: propose_def Let_def control_errors split: if_splits option.splits prod.splits sum.splits)
qed

lemma propose_from_no_conflict: "propose_from cc io i rec t c = (Inl e, c') \<Longrightarrow> err_kind e \<noteq> Conflict"
  by (auto simp: propose_from_def authorize_def control_errors split: option.splits if_splits sum.splits
      dest: propose_no_conflict)

text \<open>
  The check for an index that belongs to another transaction only reads the log of
  the replica's own node.  When the cluster commits a transaction but that node failed to
  store it, a different transaction at the same index is not refused as a conflict: it is
  proposed as well, and once it is acknowledged the cluster holds two transactions at one
  index of the registry's log.
\<close>

theorem cft_conflict_undetected:
  assumes c1: "cft_replica_commit cc io tx s r = (Inr ack, r1)"
    and log: "committed_records (cr_control r) (cr_ingress r) = Inr log" "List.find (entry_at_index (mt_log_index tx)) log = None"
    and missed: "committed_records (cr_control r1) (cr_ingress r1) = committed_records (cr_control r) (cr_ingress r)"
    and i: "mt_log_index tx' = mt_log_index tx" and c2: "cft_replica_commit cc io' tx' s' r1 = (res, r2)"
  shows "(\<forall>e. res = Inl e \<longrightarrow> err_kind e \<noteq> Conflict)
    \<and> (\<forall>ack'. res = Inr ack' \<longrightarrow> cft_holds r2 (mt_log_index tx) (mt_transaction_id tx)
                              \<and> cft_holds r2 (mt_log_index tx) (mt_transaction_id tx'))"
proof -
  have "err_kind e \<noteq> Conflict" if "res = Inl e" for e
    using c2 that log missed i
    by (auto simp: cft_replica_commit_def Let_def control_corrupt_error_def split: option.splits sum.splits prod.splits
        dest: propose_from_no_conflict)
  moreover have "cft_holds r2 (mt_log_index tx) (mt_transaction_id tx)"
    using cft_replica.commit_mono [of r1 "mt_log_index tx" "mt_transaction_id tx" cc io' tx' s']
      cft_replica.commit_ack [OF c1] c2 by simp
  moreover have "cft_holds r2 (mt_log_index tx) (mt_transaction_id tx')" if "res = Inr ack'" for ack'
    using cft_commit_control(2) [OF c2 that] i by simp
  ultimately show ?thesis by blast
qed

text \<open>The lease plays no part in a proposal once it is authorized.\<close>

lemma lease_frame [simp]:
  "connected (c\<lparr>cft_lease := x\<rparr>) = connected c" "quorum_size (c\<lparr>cft_lease := x\<rparr>) = quorum_size c"
  "node_is_alive (c\<lparr>cft_lease := x\<rparr>) = node_is_alive c" "cft_current_term (c\<lparr>cft_lease := x\<rparr>) = cft_current_term c"
  "committed_records (c\<lparr>cft_lease := x\<rparr>) = committed_records c"
  by (auto simp: connected_def node_is_alive_def cft_current_term_def committed_records_def fun_eq_iff split: option.splits)

lemma lease_frame_quorum [simp]:
  "has_leader_quorum (c\<lparr>cft_lease := x\<rparr>) = has_leader_quorum c" "propose_targets (c\<lparr>cft_lease := x\<rparr>) = propose_targets c"
  by (simp_all add: has_leader_quorum_def reachable_voters_def propose_targets_def fun_eq_iff split: option.splits)

lemma propose_leased:
  "propose cc io l rec c = (Inr e, c') \<Longrightarrow> propose cc io l rec (c\<lparr>cft_lease := x\<rparr>) = (Inr e, c'\<lparr>cft_lease := x\<rparr>)"
  by (auto simp: propose_def Let_def split: if_splits option.splits prod.splits sum.splits)

definition demo_fork_replica :: "control_log \<Rightarrow> u64 \<Rightarrow> u64 \<Rightarrow> CftRegistryReplica" where
  "demo_fork_replica l E t = cft_replica_new ((demo_forked l E)\<lparr>cft_lease := Some demo_lease\<rparr>) ''a'' t"

lemma demo_fork_commit:
  assumes p: "from_utf8 (mt_prepare_payload tx) = Some p" and t: "t \<le> 100"
  shows "\<exists>e. cft_replica_commit demo_cc demo_pio_fail tx s (demo_fork_replica l E t) =
    (Inr \<lparr>ack_replica_id = ''cft:a'', ack_transaction_id = mt_transaction_id tx, ack_log_index = mt_log_index tx\<rparr>,
     demo_fork_replica (l @ [e]) (sat_add E 1) (t + 1))"
proof -
  have "authorize ((demo_forked l E)\<lparr>cft_lease := Some demo_lease\<rparr>) ''a'' DurableWrite None t = Inr ()"
    using t by (simp add: authorize_def demo_lease_def lease_is_valid_at_def)
  moreover have "node_is_alive (demo_forked l E) ''a''" by (simp add: node_is_alive_def)
  ultimately have "propose_from demo_cc demo_pio_fail ''a'' r t ((demo_forked l E)\<lparr>cft_lease := Some demo_lease\<rparr>)
      = (Inr \<lparr>ccr_index = 1, ccr_term = 1, ccr_epoch = sat_add E 1, ccr_record = r\<rparr>,
         (demo_forked (l @ [\<lparr>ccr_index = 1, ccr_term = 1, ccr_epoch = sat_add E 1, ccr_record = r\<rparr>]) (sat_add E 1))\<lparr>cft_lease := Some demo_lease\<rparr>)" for r
    using propose_leased [OF demo_fork_step] by (simp add: propose_from_def)
  then show ?thesis
    using p by (auto simp: cft_replica_commit_def Let_def demo_fork_replica_def cft_replica_new_def committed_records_def)
qed

theorem cft_conflict_undetected_witness:
  "\<exists>r1 r2 ack ack'. cft_replica_commit demo_cc demo_pio_fail demo_transaction True (demo_fork_replica [] 0 1) = (Inr ack, r1)
     \<and> cft_replica_commit demo_cc demo_pio_fail (demo_transaction\<lparr>mt_transaction_id := ''other''\<rparr>) True r1 = (Inr ack', r2)
     \<and> cft_holds r2 1 (mt_transaction_id demo_transaction) \<and> cft_holds r2 1 ''other''"
proof -
  let ?other = "demo_transaction\<lparr>mt_transaction_id := ''other''\<rparr>"
  have u: "from_utf8 (mt_prepare_payload demo_transaction) = Some (string_of_bytes (replicate 64 7))"
    using demo_utf8 by (simp only: from_utf8_def demo_transaction_def MetadataTransaction.simps if_True)
  obtain e where c1: "cft_replica_commit demo_cc demo_pio_fail demo_transaction True (demo_fork_replica [] 0 1) =
    (Inr \<lparr>ack_replica_id = ''cft:a'', ack_transaction_id = mt_transaction_id demo_transaction,
          ack_log_index = mt_log_index demo_transaction\<rparr>, demo_fork_replica ([] @ [e]) (sat_add 0 1) (1 + 1))"
    using demo_fork_commit [OF u, of 1 True "[]" 0] by (auto simp: word_le_nat_alt)
  obtain e' where c2: "cft_replica_commit demo_cc demo_pio_fail ?other True (demo_fork_replica ([] @ [e]) (sat_add 0 1) (1 + 1)) =
    (Inr \<lparr>ack_replica_id = ''cft:a'', ack_transaction_id = mt_transaction_id ?other,
          ack_log_index = mt_log_index ?other\<rparr>, demo_fork_replica (([] @ [e]) @ [e']) (sat_add (sat_add 0 1) 1) (1 + 1 + 1))"
    using demo_fork_commit [of ?other _ "1 + 1" True "[] @ [e]" "sat_add 0 1"] u by (auto simp: word_le_nat_alt)
  have log: "committed_records (cr_control (demo_fork_replica l E t)) (cr_ingress (demo_fork_replica l E t)) = Inr []" for l E t
    by (simp add: demo_fork_replica_def cft_replica_new_def committed_records_def)
  have f: "List.find (entry_at_index (mt_log_index demo_transaction)) [] = None" by simp
  have i: "mt_log_index ?other = mt_log_index demo_transaction" by simp
  have m: "committed_records (cr_control (demo_fork_replica ([] @ [e]) (sat_add 0 1) (1 + 1))) (cr_ingress (demo_fork_replica ([] @ [e]) (sat_add 0 1) (1 + 1)))
      = committed_records (cr_control (demo_fork_replica [] 0 1)) (cr_ingress (demo_fork_replica [] 0 1))"
    using log by metis
  have one: "mt_log_index demo_transaction = 1" "mt_transaction_id ?other = ''other''" by (simp_all add: demo_transaction_def)
  show ?thesis using cft_conflict_undetected [OF c1 log f m i c2] c1 c2 unfolding one by blast
qed

end
