(* ===== verification/Float_Ops.thy ===== *)
theory Float_Ops
  imports Prelude
begin

text \<open>
  \<open>f64\<close> is a type parameter with its operations: the models that compute with it take a record
  of the operations they use.  \<open>f_lit n k\<close> is the literal \<open>n / 10 ^ k\<close>.  What holds for any
  rounding is shown for any operations; where an order is needed, \<open>ieee_order\<close> states the one
  of IEEE 754 comparisons: NaN, the value that is not below itself, compares with nothing, and
  the other values are totally preordered.
\<close>

record 'f f64_ops =
  f_add :: "'f \<Rightarrow> 'f \<Rightarrow> 'f"
  f_sub :: "'f \<Rightarrow> 'f \<Rightarrow> 'f"
  f_mul :: "'f \<Rightarrow> 'f \<Rightarrow> 'f"
  f_lt :: "'f \<Rightarrow> 'f \<Rightarrow> bool"
  f_le :: "'f \<Rightarrow> 'f \<Rightarrow> bool"
  f_finite :: "'f \<Rightarrow> bool"
  f_zero :: 'f
  f_hundred :: 'f

record 'f f64_arith = "'f f64_ops" +
  f_div :: "'f \<Rightarrow> 'f \<Rightarrow> 'f"
  f_neg :: "'f \<Rightarrow> 'f"
  f_max :: "'f \<Rightarrow> 'f \<Rightarrow> 'f"
  f_min :: "'f \<Rightarrow> 'f \<Rightarrow> 'f"
  f_mul_add :: "'f \<Rightarrow> 'f \<Rightarrow> 'f \<Rightarrow> 'f"
  f_lit :: "nat \<Rightarrow> nat \<Rightarrow> 'f"

definition f_nan :: "('f, 'z) f64_ops_scheme \<Rightarrow> 'f \<Rightarrow> bool" where
  "f_nan f x \<longleftrightarrow> \<not> f_le f x x"

definition ieee_order :: "('f, 'z) f64_ops_scheme \<Rightarrow> bool" where
  "ieee_order f \<longleftrightarrow>
     (\<forall>x y. f_le f x y \<longrightarrow> \<not> f_nan f x \<and> \<not> f_nan f y)
     \<and> (\<forall>x y. \<not> f_nan f x \<and> \<not> f_nan f y \<longrightarrow> f_le f x y \<or> f_le f y x)
     \<and> (\<forall>x y z. f_le f x y \<and> f_le f y z \<longrightarrow> f_le f x z)
     \<and> (\<forall>x y. f_lt f x y \<longleftrightarrow> f_le f x y \<and> \<not> f_le f y x)"

text \<open>Integers with exact operations, for concrete evaluations.\<close>

definition int_arith :: "int f64_arith" where
  "int_arith = \<lparr>f_add = (+), f_sub = (-), f_mul = (*), f_lt = (<), f_le = (\<le>), f_finite = (\<lambda>_. True), f_zero = 0,
     f_hundred = 100, f_div = (div), f_neg = uminus, f_max = max, f_min = min, f_mul_add = (\<lambda>a b c. a * b + c),
     f_lit = (\<lambda>n k. int n div 10 ^ k)\<rparr>"

lemma int_arith_order [simp]: "ieee_order int_arith"
  by (auto simp: ieee_order_def f_nan_def int_arith_def)

end
