(* ===== verification/Failure_Detector.thy ===== *)
theory Failure_Detector
  imports Ha_Control Float_Ops
begin

text \<open>
  The member detector and the leadership preference of \<open>ha_control.rs\<close>.  The detector keeps
  one observation per member, bounded in number, and moves a silent member to suspect and then
  to dead; a pulse with other versions asks for a full snapshot.  The preference recommends a
  transfer of leadership only after a better candidate stayed better for a dwell time.  Its
  scores are \<open>f64\<close>; the theory takes the type and the operations on it as an argument, so that
  what is shown does not depend on how they round.
\<close>

section \<open>The detector\<close>

datatype PulseDisposition = Accepted | FullSnapshotRequired

record MemberObservation =
  mo_summary :: MemberPulseSummary
  mo_last_tick :: u64

record FailureDetector =
  fd_members :: "(NodeId, MemberObservation) fmap"
  fd_max_members :: nat
  fd_suspect_after :: u64
  fd_dead_after :: u64
  fd_active_interval :: u64
  fd_stable_interval :: u64

definition detector_new :: "nat \<Rightarrow> u64 \<Rightarrow> u64 \<Rightarrow> u64 \<Rightarrow> u64 \<Rightarrow> FailureDetector result" where
  "detector_new max_members suspect_after dead_after active_interval stable_interval =
     (if max_members = 0 \<or> suspect_after = 0 \<or> dead_after \<le> suspect_after \<or> active_interval = 0
         \<or> stable_interval < active_interval
      then Inl control_config_error
      else Inr \<lparr>fd_members = fmempty, fd_max_members = max_members, fd_suspect_after = suspect_after,
                fd_dead_after = dead_after, fd_active_interval = active_interval,
                fd_stable_interval = stable_interval\<rparr>)"

definition detector_capacity_error :: DistributedError where
  "detector_capacity_error = error_new CapacityExceeded ''member detector capacity exceeded''"

definition register_full ::
  "MemberPulseSummary \<Rightarrow> u64 \<Rightarrow> FailureDetector \<Rightarrow> unit result \<times> FailureDetector" where
  "register_full summary tick fd =
     (if mp_capability_version summary = 0 \<or> mp_resource_version summary = 0
      then (Inl control_config_error, fd)
      else if \<not> bt_contains (fd_members fd) (mp_node_id summary) \<and> bt_len (fd_members fd) \<ge> fd_max_members fd
      then (Inl detector_capacity_error, fd)
      else (Inr (), fd\<lparr>fd_members := fmupd (mp_node_id summary)
                             \<lparr>mo_summary = summary, mo_last_tick = tick\<rparr> (fd_members fd)\<rparr>))"

definition pulse ::
  "MemberPulseSummary \<Rightarrow> u64 \<Rightarrow> FailureDetector \<Rightarrow> PulseDisposition result \<times> FailureDetector" where
  "pulse p tick fd =
     (case fmlookup (fd_members fd) (mp_node_id p) of
        None \<Rightarrow> (Inl node_unknown, fd)
      | Some m \<Rightarrow>
          let s = mo_summary m in
          if mp_capability_version s \<noteq> mp_capability_version p \<or> mp_resource_version s \<noteq> mp_resource_version p
          then (Inr FullSnapshotRequired,
                fd\<lparr>fd_members := fmupd (mp_node_id p) (m\<lparr>mo_summary := s\<lparr>mp_health := Incompatible\<rparr>\<rparr>) (fd_members fd)\<rparr>)
          else (Inr Accepted,
                fd\<lparr>fd_members := fmupd (mp_node_id p)
                     \<lparr>mo_summary = s\<lparr>mp_pressure_bucket := mp_pressure_bucket p, mp_health := mp_health p\<rparr>,
                      mo_last_tick = tick\<rparr> (fd_members fd)\<rparr>))"

definition advance_member :: "FailureDetector \<Rightarrow> u64 \<Rightarrow> MemberObservation \<Rightarrow> MemberObservation" where
  "advance_member fd tick m =
     (let silence = sat_sub tick (mo_last_tick m) in
      if silence \<ge> fd_dead_after fd then m\<lparr>mo_summary := (mo_summary m)\<lparr>mp_health := Dead\<rparr>\<rparr>
      else if silence \<ge> fd_suspect_after fd then m\<lparr>mo_summary := (mo_summary m)\<lparr>mp_health := Suspect\<rparr>\<rparr>
      else m)"

definition advance :: "u64 \<Rightarrow> FailureDetector \<Rightarrow> FailureDetector" where
  "advance tick fd = fd\<lparr>fd_members := fmmap (advance_member fd tick) (fd_members fd)\<rparr>"

definition health :: "FailureDetector \<Rightarrow> NodeId \<Rightarrow> MemberHealth option" where
  "health fd i = map_option (\<lambda>m. mp_health (mo_summary m)) (fmlookup (fd_members fd) i)"

definition next_pulse_after :: "FailureDetector \<Rightarrow> NodeId \<Rightarrow> u64 option" where
  "next_pulse_after fd i =
     map_option (\<lambda>m. let h = mp_health (mo_summary m) in
        if (h = MemberHealth.Healthy \<and> mp_pressure_bucket (mo_summary m) = 0) \<or> h = Overloaded \<or> h = Draining
        then fd_stable_interval fd else fd_active_interval fd) (fmlookup (fd_members fd) i)"

section \<open>The leadership preference\<close>

record 'f LeaderMetrics =
  lm_p95_network_ms :: 'f
  lm_storage_healthy :: bool
  lm_sleep_risk :: 'f
  lm_control_capacity :: 'f
  lm_trusted :: bool

definition score :: "'f f64_ops \<Rightarrow> 'f LeaderMetrics \<Rightarrow> 'f option" where
  "score f m =
     (if \<not> lm_storage_healthy m \<or> \<not> lm_trusted m then None
      else Some (f_sub f (f_sub f (lm_control_capacity m) (lm_p95_network_ms m))
                         (f_mul f (lm_sleep_risk m) (f_hundred f))))"

record 'f LeadershipPreference =
  lp_margin :: 'f
  lp_dwell_ticks :: u64
  lp_preferred :: "(NodeId \<times> u64) option"

definition preference_new :: "'f f64_ops \<Rightarrow> 'f \<Rightarrow> u64 \<Rightarrow> 'f LeadershipPreference result" where
  "preference_new f margin dwell =
     (if \<not> f_finite f margin \<or> f_le f margin (f_zero f) \<or> dwell = 0 then Inl control_config_error
      else Inr \<lparr>lp_margin = margin, lp_dwell_ticks = dwell, lp_preferred = None\<rparr>)"

definition should_transfer ::
  "'f f64_ops \<Rightarrow> NodeId \<times> 'f LeaderMetrics \<Rightarrow> NodeId \<times> 'f LeaderMetrics \<Rightarrow> u64 \<Rightarrow> 'f LeadershipPreference
     \<Rightarrow> bool \<times> 'f LeadershipPreference" where
  "should_transfer f current candidate tick lp =
     (case score f (snd current) of
        None \<Rightarrow> (score f (snd candidate) \<noteq> None, lp)
      | Some current_score \<Rightarrow>
          (case score f (snd candidate) of
             None \<Rightarrow> (False, lp\<lparr>lp_preferred := None\<rparr>)
           | Some candidate_score \<Rightarrow>
               if f_lt f candidate_score (f_add f current_score (lp_margin lp))
               then (False, lp\<lparr>lp_preferred := None\<rparr>)
               else (case lp_preferred lp of
                   Some (node, since) \<Rightarrow>
                     if node = fst candidate then (sat_sub tick since \<ge> lp_dwell_ticks lp, lp)
                     else (False, lp\<lparr>lp_preferred := Some (fst candidate, tick)\<rparr>)
                 | None \<Rightarrow> (False, lp\<lparr>lp_preferred := Some (fst candidate, tick)\<rparr>))))"

section \<open>Lemmas\<close>

definition detector_ok :: "FailureDetector \<Rightarrow> bool" where
  "detector_ok fd \<longleftrightarrow>
     bt_len (fd_members fd) \<le> fd_max_members fd
     \<and> 0 < fd_suspect_after fd \<and> fd_suspect_after fd < fd_dead_after fd
     \<and> fmpred (\<lambda>i m. mp_node_id (mo_summary m) = i \<and> mp_capability_version (mo_summary m) \<noteq> 0
                 \<and> mp_resource_version (mo_summary m) \<noteq> 0) (fd_members fd)"

datatype detector_op = RegisterFullOp MemberPulseSummary u64 | PulseOp MemberPulseSummary u64 | AdvanceOp u64

fun detector_step :: "detector_op \<Rightarrow> FailureDetector \<Rightarrow> FailureDetector" where
  "detector_step (RegisterFullOp s t) fd = snd (register_full s t fd)"
| "detector_step (PulseOp p t) fd = snd (pulse p t fd)"
| "detector_step (AdvanceOp t) fd = advance t fd"

lemma advance_member_frame [simp]:
  "mp_node_id (mo_summary (advance_member fd t m)) = mp_node_id (mo_summary m)"
  "mp_capability_version (mo_summary (advance_member fd t m)) = mp_capability_version (mo_summary m)"
  "mp_resource_version (mo_summary (advance_member fd t m)) = mp_resource_version (mo_summary m)"
  "mo_last_tick (advance_member fd t m) = mo_last_tick m"
  by (simp_all add: advance_member_def Let_def)

lemma detector_step_ok: "detector_ok fd \<Longrightarrow> detector_ok (detector_step x fd)"
proof (cases x)
  case (RegisterFullOp s t)
  assume "detector_ok fd"
  then show ?thesis
    using RegisterFullOp by (auto simp: detector_ok_def register_full_def bt_len_upd fmpred_iff)
next
  case (PulseOp p t)
  assume "detector_ok fd"
  then show ?thesis
    using PulseOp
    by (auto simp: detector_ok_def pulse_def Let_def bt_len_upd bt_contains_def fmpred_iff split: option.splits)
next
  case (AdvanceOp t)
  assume "detector_ok fd"
  then show ?thesis
    using AdvanceOp by (auto simp: detector_ok_def advance_def bt_len_def fmpred_iff)
qed

lemma detector_run_ok: "detector_ok fd \<Longrightarrow> detector_ok (fold detector_step ops fd)"
  by (induction ops arbitrary: fd) (auto simp: detector_step_ok)

section \<open>Properties\<close>

text \<open>
  A detector that was created with accepted limits never holds more members than
  its limit, whatever is registered, pulsed and advanced; every observation is filed under its
  member's identifier with nonzero versions.  After an advance to a tick, a member that has
  been silent for the dead threshold is dead and one silent for the suspect threshold but not
  that long is suspect, while the health of all others is what they last reported.
\<close>

theorem detector_bounded:
  assumes new: "detector_new n s d a st = Inr fd0" and fd: "fd = fold detector_step ops fd0"
  shows "bt_len (fd_members fd) \<le> n
    \<and> (\<forall>i m. fmlookup (fd_members fd) i = Some m \<longrightarrow> mp_node_id (mo_summary m) = i
         \<and> health (advance t fd) i =
             (if d \<le> sat_sub t (mo_last_tick m) then Some Dead
              else if s \<le> sat_sub t (mo_last_tick m) then Some Suspect
              else health fd i))"
proof -
  have "detector_ok fd0" using new by (auto simp: detector_new_def detector_ok_def word_gt_0 not_le split: if_splits)
  then have ok: "detector_ok fd" unfolding fd by (rule detector_run_ok)
  have "fd_max_members (detector_step x f) = fd_max_members f \<and> fd_dead_after (detector_step x f) = fd_dead_after f
      \<and> fd_suspect_after (detector_step x f) = fd_suspect_after f" for x f
    by (cases x) (auto simp: register_full_def pulse_def advance_def Let_def split: option.splits)
  then have "fd_max_members fd = fd_max_members fd0 \<and> fd_dead_after fd = fd_dead_after fd0
      \<and> fd_suspect_after fd = fd_suspect_after fd0"
    unfolding fd by (induction ops arbitrary: fd0) auto
  then have lim: "fd_max_members fd = n" "fd_dead_after fd = d" "fd_suspect_after fd = s"
    using new by (auto simp: detector_new_def split: if_splits)
  show ?thesis
    using ok lim by (auto simp: detector_ok_def fmpred_iff health_def advance_def advance_member_def Let_def)
qed

definition demo_pulse :: MemberPulseSummary where
  "demo_pulse = \<lparr>mp_node_id = ''n'', mp_capability_version = 1, mp_resource_version = 1, mp_pressure_bucket = 0,
     mp_health = MemberHealth.Healthy\<rparr>"

theorem detector_bounded_witness:
  "\<exists>fd0. detector_new 2 5 10 1 2 = Inr fd0
     \<and> health (advance 20 (fold detector_step [RegisterFullOp demo_pulse 3] fd0)) ''n'' = Some Dead"
proof -
  obtain fd0 where fd0: "detector_new 2 5 10 1 2 = Inr fd0"
    by (simp add: detector_new_def word_le_nat_alt word_less_nat_alt)
  have "fmlookup (fd_members (fold detector_step [RegisterFullOp demo_pulse 3] fd0)) ''n''
      = Some \<lparr>mo_summary = demo_pulse, mo_last_tick = 3\<rparr>"
    using fd0 by (auto simp: detector_new_def register_full_def demo_pulse_def bt_contains_def split: if_splits)
  moreover have "(10 :: u64) \<le> sat_sub 20 3" by (simp add: sat_sub_def word_le_nat_alt)
  ultimately show ?thesis
    using detector_bounded [OF fd0 refl, of "[RegisterFullOp demo_pulse 3]" 20] fd0 by auto
qed

text \<open>
  While the current leader has a score, a transfer to a candidate is recommended
  only when this candidate was already preferred, for at least the dwell time: the preference
  was recorded at a tick that lies at least the dwell time back, and the candidate's score is
  not below the leader's by the margin.  A recommendation never changes the preference.
\<close>

theorem transfer_needs_dwell:
  assumes "should_transfer f current candidate tick lp = (True, lp')" and "score f (snd current) = Some sc"
  shows "lp' = lp \<and> (\<exists>since s. lp_preferred lp = Some (fst candidate, since) \<and> lp_dwell_ticks lp \<le> sat_sub tick since
    \<and> score f (snd candidate) = Some s \<and> \<not> f_lt f s (f_add f sc (lp_margin lp)))"
  using assms by (auto simp: should_transfer_def split: option.splits if_splits)

definition demo_ops :: "int f64_ops" where
  "demo_ops = \<lparr>f_add = (+), f_sub = (-), f_mul = (*), f_lt = (<), f_le = (\<le>), f_finite = (\<lambda>_. True), f_zero = 0, f_hundred = 100\<rparr>"

definition demo_metrics :: "int \<Rightarrow> int LeaderMetrics" where
  "demo_metrics c = \<lparr>lm_p95_network_ms = 0, lm_storage_healthy = True, lm_sleep_risk = 0, lm_control_capacity = c, lm_trusted = True\<rparr>"

theorem transfer_needs_dwell_witness:
  "should_transfer demo_ops (''a'', demo_metrics 1) (''b'', demo_metrics 50) 9
     \<lparr>lp_margin = 10, lp_dwell_ticks = 5, lp_preferred = Some (''b'', 2)\<rparr>
   = (True, \<lparr>lp_margin = 10, lp_dwell_ticks = 5, lp_preferred = Some (''b'', 2)\<rparr>)
   \<and> (5 :: u64) \<le> sat_sub 9 2"
proof -
  let ?lp = "\<lparr>lp_margin = 10, lp_dwell_ticks = 5, lp_preferred = Some (''b'', 2)\<rparr> :: int LeadershipPreference"
  have st: "should_transfer demo_ops (''a'', demo_metrics 1) (''b'', demo_metrics 50) 9 ?lp = (True, ?lp)"
    by (simp add: should_transfer_def score_def demo_ops_def demo_metrics_def sat_sub_def word_le_nat_alt)
  have sc: "score demo_ops (snd (''a'', demo_metrics 1)) = Some 1"
    by (simp add: score_def demo_ops_def demo_metrics_def)
  from transfer_needs_dwell [OF st sc] st show ?thesis by auto
qed

end
