(* ===== verification/Content_Store.thy ===== *)
theory Content_Store
  imports Contracts
begin

text \<open>
  The content store of \<open>content_store.rs\<close>: contents cut into chunks that are files named by
  their digest, manifests of committed contents, manifests of uploads in progress, and the
  bounded queue of chunks to transfer.  The three directories of the store are maps from file
  names to bytes, temporary files included.  SHA-256 and the encoding of manifests are
  parameters, and so are the answers of the file system to every call of an operation.
\<close>

section \<open>Errors\<close>

definition store_storage_error :: DistributedError where
  "store_storage_error = error_new Storage ''content storage operation failed''"

definition corrupt_content :: DistributedError where
  "corrupt_content = error_new Corrupt ''content hash or manifest validation failed''"

definition invalid_manifest :: DistributedError where
  "invalid_manifest = error_new Protocol ''content manifest is invalid''"

definition store_capacity_error :: DistributedError where
  "store_capacity_error = error_new CapacityExceeded ''content manifest exceeds bounded limits''"

definition upload_incomplete_error :: DistributedError where
  "upload_incomplete_error = error_new DurabilityUnavailable ''content upload is incomplete''"

section \<open>Data transfer queue\<close>

datatype DataLane = ResourceLane | ResultLane

record DataTransferBudget =
  dtb_max_concurrent :: nat
  dtb_max_queued_bytes :: u64
  dtb_max_chunk_bytes :: nat

record TransferChunk =
  tc_lane :: DataLane
  tc_source :: NodeId
  tc_target :: NodeId
  tc_content_id :: ContentId
  tc_index :: u32
  tc_bytes :: bytes

record DataTransferQueue =
  dtq_budget :: DataTransferBudget
  dtq_queued :: "TransferChunk list"
  dtq_queued_bytes :: u64
  dtq_in_flight :: nat

definition transfer_budget_error :: DistributedError where
  "transfer_budget_error = error_new InvalidConfig ''data transfer budget must be positive and bounded''"

definition no_transfer_error :: DistributedError where
  "no_transfer_error = error_new InvalidTransition ''no data transfer is in flight''"

definition queue_new :: "DataTransferBudget \<Rightarrow> DataTransferQueue result" where
  "queue_new budget =
     (if dtb_max_concurrent budget = 0 \<or> dtb_max_queued_bytes budget = 0 \<or> dtb_max_chunk_bytes budget = 0
      then Inl transfer_budget_error
      else Inr \<lparr>dtq_budget = budget, dtq_queued = [], dtq_queued_bytes = 0, dtq_in_flight = 0\<rparr>)"

definition enqueue :: "TransferChunk \<Rightarrow> DataTransferQueue \<Rightarrow> unit result \<times> DataTransferQueue" where
  "enqueue chunk q =
     (case checked_add (dtq_queued_bytes q) (of_nat (length (tc_bytes chunk))) of
        None \<Rightarrow> (Inl store_capacity_error, q)
      | Some next_bytes \<Rightarrow>
          if length (tc_bytes chunk) > dtb_max_chunk_bytes (dtq_budget q)
             \<or> next_bytes > dtb_max_queued_bytes (dtq_budget q)
          then (Inl store_capacity_error, q)
          else (Inr (), q\<lparr>dtq_queued := dtq_queued q @ [chunk], dtq_queued_bytes := next_bytes\<rparr>))"

definition start_next :: "DataTransferQueue \<Rightarrow> TransferChunk option \<times> DataTransferQueue" where
  "start_next q =
     (if dtq_in_flight q \<ge> dtb_max_concurrent (dtq_budget q) then (None, q)
      else case dtq_queued q of
        [] \<Rightarrow> (None, q)
      | chunk # rest \<Rightarrow>
          (Some chunk,
           q\<lparr>dtq_queued := rest,
             dtq_queued_bytes := sat_sub (dtq_queued_bytes q) (of_nat (length (tc_bytes chunk))),
             dtq_in_flight := dtq_in_flight q + 1\<rparr>))"

definition complete_one :: "DataTransferQueue \<Rightarrow> unit result \<times> DataTransferQueue" where
  "complete_one q =
     (if dtq_in_flight q = 0 then (Inl no_transfer_error, q)
      else (Inr (), q\<lparr>dtq_in_flight := dtq_in_flight q - 1\<rparr>))"

section \<open>State of the store\<close>

type_synonym directory = "(string, bytes) fmap"

record ContentStore =
  cs_chunk_size :: nat
  cs_max_chunks :: nat
  cs_chunks :: directory
  cs_manifests :: directory
  cs_uploads :: directory

record UploadStats =
  us_uploaded_chunks :: nat
  us_reused_chunks :: nat
  us_bytes_uploaded :: u64

definition default_max_chunks :: nat where
  "default_max_chunks = 1048576"

text \<open>File names: \<open>chunk_path\<close> is the digest itself, the others have the extension \<open>json\<close>.\<close>

definition json_name :: "string \<Rightarrow> string" where
  "json_name digest = digest @ ''.json''"

text \<open>\<open>Path::with_extension("tmp")\<close>: the extension starts at the last dot, unless that is the first byte.\<close>

definition file_stem :: "string \<Rightarrow> string" where
  "file_stem name =
     (let r = dropWhile (\<lambda>c. c \<noteq> CHR ''.'') (rev name)
      in if length r \<le> 1 then name else rev (tl r))"

definition tmp_name :: "string \<Rightarrow> string" where
  "tmp_name name = file_stem name @ ''.tmp''"

text \<open>
  The answers of the file system to one operation: which files can be read, how the write of
  a temporary file ends (\<open>fw_torn = Some k\<close> after \<open>k\<close> bytes), which files can be removed and
  which directories can be listed.  An operation writes a path at most once.
\<close>

record file_write =
  fw_open :: bool
  fw_torn :: "nat option"
  fw_sync :: bool
  fw_rename :: bool

datatype store_dir = ChunkDir | ManifestDir | UploadDir

record store_io =
  si_read :: "store_dir \<Rightarrow> string \<Rightarrow> bool"
  si_write :: "store_dir \<Rightarrow> string \<Rightarrow> file_write"
  si_remove :: "store_dir \<Rightarrow> string \<Rightarrow> bool"
  si_list :: "store_dir \<Rightarrow> bool"
  si_entry :: "store_dir \<Rightarrow> string \<Rightarrow> bool"

definition atomic_bytes_write ::
  "file_write \<Rightarrow> string \<Rightarrow> bytes \<Rightarrow> bool \<Rightarrow> directory \<Rightarrow> unit result \<times> directory" where
  "atomic_bytes_write fw name bs sync d =
     (if \<not> fw_open fw then (Inl store_storage_error, d)
      else case fw_torn fw of
        Some k \<Rightarrow> (Inl store_storage_error, fmupd (tmp_name name) (take k bs) d)
      | None \<Rightarrow>
          if (sync \<and> \<not> fw_sync fw) \<or> \<not> fw_rename fw
          then (Inl store_storage_error, fmupd (tmp_name name) bs d)
          else (Inr (), fmupd name bs (fmdrop (tmp_name name) d)))"

definition atomic_json_write ::
  "ContentManifest serde \<Rightarrow> file_write \<Rightarrow> string \<Rightarrow> ContentManifest \<Rightarrow> bool \<Rightarrow> directory
     \<Rightarrow> unit result \<times> directory" where
  "atomic_json_write sd fw name manifest sync d =
     (case to_vec sd manifest of
        None \<Rightarrow> (Inl corrupt_content, d)
      | Some bs \<Rightarrow> atomic_bytes_write fw name bs sync d)"

definition read_file :: "bool \<Rightarrow> string \<Rightarrow> directory \<Rightarrow> bytes result" where
  "read_file readable name d =
     (case fmlookup d name of
        Some bs \<Rightarrow> if readable then Inr bs else Inl store_storage_error
      | None \<Rightarrow> Inl store_storage_error)"

definition read_json :: "ContentManifest serde \<Rightarrow> bool \<Rightarrow> string \<Rightarrow> directory \<Rightarrow> ContentManifest result" where
  "read_json sd readable name d =
     bind_result (read_file readable name d) (\<lambda>bs. ok_or corrupt_content (from_slice sd bs))"

definition sha256_hex :: "(bytes \<Rightarrow> bytes) \<Rightarrow> bytes \<Rightarrow> string" where
  "sha256_hex sha bs = hex_string (sha bs)"

definition matches :: "(bytes \<Rightarrow> bytes) \<Rightarrow> ChunkDescriptor \<Rightarrow> bytes \<Rightarrow> bool" where
  "matches sha chunk bs \<longleftrightarrow> of_nat (length bs) = ch_size chunk \<and> sha256_hex sha bs = ch_digest chunk"

definition verify_file :: "(bytes \<Rightarrow> bytes) \<Rightarrow> bool \<Rightarrow> ChunkDescriptor \<Rightarrow> directory \<Rightarrow> unit result" where
  "verify_file sha readable chunk d =
     bind_result (read_file readable (ch_digest chunk) d)
       (\<lambda>bs. if matches sha chunk bs then Inr () else Inl corrupt_content)"

definition is_hexdigit :: "char \<Rightarrow> bool" where
  "is_hexdigit c \<longleftrightarrow> (let n = (of_char c :: nat) in
     (48 \<le> n \<and> n \<le> 57) \<or> (65 \<le> n \<and> n \<le> 70) \<or> (97 \<le> n \<and> n \<le> 102))"

definition validate_digest :: "string \<Rightarrow> unit result" where
  "validate_digest digest =
     (if length digest \<noteq> 64 \<or> \<not> list_all is_hexdigit digest then Inl invalid_manifest else Inr ())"

section \<open>Manifests\<close>

definition store_open :: "nat \<Rightarrow> (store_dir \<Rightarrow> bool) \<Rightarrow> directory \<Rightarrow> directory \<Rightarrow> directory \<Rightarrow> ContentStore result" where
  "store_open chunk_size create chunks manifests uploads =
     (if chunk_size = 0 then Inl invalid_manifest
      else if \<not> create ChunkDir \<or> \<not> create ManifestDir \<or> \<not> create UploadDir then Inl store_storage_error
      else Inr \<lparr>cs_chunk_size = chunk_size, cs_max_chunks = default_max_chunks,
                cs_chunks = chunks, cs_manifests = manifests, cs_uploads = uploads\<rparr>)"

text \<open>\<open>slice::chunks\<close>; a chunk size of zero panics and is refused by \<open>store_open\<close>.\<close>

function chunks_of :: "nat \<Rightarrow> 'a list \<Rightarrow> 'a list list" where
  "chunks_of n xs = (if n = 0 \<or> xs = [] then [] else take n xs # chunks_of n (drop n xs))"
  by auto

termination by (relation "measure (length \<circ> snd)") auto

declare chunks_of.simps [simp del]

definition index_u32 :: "nat \<Rightarrow> u32" where
  "index_u32 i = unwrap_or (- 1) (try_u32 i)"

definition describe_chunk :: "(bytes \<Rightarrow> bytes) \<Rightarrow> nat \<times> bytes \<Rightarrow> ChunkDescriptor" where
  "describe_chunk sha = (\<lambda>(i, chunk). \<lparr>ch_index = index_u32 i, ch_digest = sha256_hex sha chunk,
                                        ch_size = of_nat (length chunk)\<rparr>)"

definition build_manifest ::
  "(bytes \<Rightarrow> bytes) \<Rightarrow> ContentStore \<Rightarrow> bytes \<Rightarrow> string \<Rightarrow> ResourcePolicy \<Rightarrow> ContentManifest result" where
  "build_manifest sha s bs format policy =
     (let chunks = map (describe_chunk sha) (enumerate 0 (chunks_of (cs_chunk_size s) bs))
      in if length chunks > cs_max_chunks s \<or> list_ex (\<lambda>c. ch_index c = - 1) chunks
         then Inl store_capacity_error
         else Inr \<lparr>cm_content_id = \<lparr>cid_algorithm = ''sha256'', cid_digest = sha256_hex sha bs,
                                     cid_size = of_nat (length bs), cid_format = format\<rparr>,
                   cm_chunk_size = of_nat (cs_chunk_size s), cm_chunks = chunks, cm_policy = policy\<rparr>)"

fun validate_chunks :: "u64 \<Rightarrow> nat \<Rightarrow> u64 \<Rightarrow> ChunkDescriptor list \<Rightarrow> u64 result" where
  "validate_chunks chunk_size i tot [] = Inr tot"
| "validate_chunks chunk_size i tot (c # cs) =
     bind_result (validate_digest (ch_digest c)) (\<lambda>_.
       if unat (ch_index c) \<noteq> i \<or> ch_size c = 0 \<or> ch_size c > chunk_size then Inl invalid_manifest
       else bind_result (ok_or store_capacity_error (checked_add tot (ch_size c)))
              (\<lambda>tot. validate_chunks chunk_size (i + 1) tot cs))"

definition validate_manifest :: "ContentStore \<Rightarrow> ContentManifest \<Rightarrow> unit result" where
  "validate_manifest s m =
     bind_result (validate_digest (cid_digest (cm_content_id m))) (\<lambda>_.
       if cid_algorithm (cm_content_id m) \<noteq> ''sha256'' \<or> cm_chunk_size m \<noteq> of_nat (cs_chunk_size s)
          \<or> length (cm_chunks m) > cs_max_chunks s
       then Inl invalid_manifest
       else bind_result (validate_chunks (cm_chunk_size m) 0 0 (cm_chunks m)) (\<lambda>tot.
         if tot \<noteq> cid_size (cm_content_id m) \<or> (cid_size (cm_content_id m) = 0 \<and> cm_chunks m \<noteq> [])
         then Inl invalid_manifest else Inr ()))"

fun missing_from :: "(bytes \<Rightarrow> bytes) \<Rightarrow> store_io \<Rightarrow> directory \<Rightarrow> ChunkDescriptor list \<Rightarrow> u32 list result" where
  "missing_from sha io d [] = Inr []"
| "missing_from sha io d (c # cs) =
     (if bt_contains d (ch_digest c)
      then bind_result (verify_file sha (si_read io ChunkDir (ch_digest c)) c d)
             (\<lambda>_. missing_from sha io d cs)
      else bind_result (missing_from sha io d cs) (\<lambda>ms. Inr (ch_index c # ms)))"

definition missing_chunks :: "(bytes \<Rightarrow> bytes) \<Rightarrow> store_io \<Rightarrow> ContentStore \<Rightarrow> ContentManifest \<Rightarrow> u32 list result" where
  "missing_chunks sha io s m = missing_from sha io (cs_chunks s) (cm_chunks m)"

definition has_content :: "ContentStore \<Rightarrow> ContentId \<Rightarrow> bool" where
  "has_content s cid = bt_contains (cs_manifests s) (json_name (cid_digest cid))"

definition pending_manifest :: "ContentManifest serde \<Rightarrow> store_io \<Rightarrow> ContentStore \<Rightarrow> string \<Rightarrow> ContentManifest result" where
  "pending_manifest sd io s digest =
     read_json sd (si_read io UploadDir (json_name digest)) (json_name digest) (cs_uploads s)"

definition committed_manifest :: "ContentManifest serde \<Rightarrow> store_io \<Rightarrow> ContentStore \<Rightarrow> string \<Rightarrow> ContentManifest result" where
  "committed_manifest sd io s digest =
     read_json sd (si_read io ManifestDir (json_name digest)) (json_name digest) (cs_manifests s)"

definition store_manifest :: "ContentManifest serde \<Rightarrow> store_io \<Rightarrow> ContentStore \<Rightarrow> ContentId \<Rightarrow> ContentManifest result" where
  "store_manifest sd io s cid =
     bind_result (committed_manifest sd io s (cid_digest cid))
       (\<lambda>m. if cm_content_id m \<noteq> cid then Inl corrupt_content else Inr m)"

section \<open>Uploads\<close>

definition begin_upload ::
  "ContentManifest serde \<Rightarrow> (bytes \<Rightarrow> bytes) \<Rightarrow> store_io \<Rightarrow> ContentManifest \<Rightarrow> ContentStore
     \<Rightarrow> u32 list result \<times> ContentStore" where
  "begin_upload sd sha io m s =
     (case validate_manifest s m of
        Inl e \<Rightarrow> (Inl e, s)
      | Inr _ \<Rightarrow>
          if has_content s (cm_content_id m) then
            (case missing_chunks sha io s m of
               Inl e \<Rightarrow> (Inl e, s)
             | Inr ms \<Rightarrow> (if ms = [] then Inr [] else Inl corrupt_content, s))
          else
            let name = json_name (cid_digest (cm_content_id m)) in
            (case atomic_json_write sd (si_write io UploadDir name) name m False (cs_uploads s) of
               (Inl e, d) \<Rightarrow> (Inl e, s\<lparr>cs_uploads := d\<rparr>)
             | (Inr _, d) \<Rightarrow> let s = s\<lparr>cs_uploads := d\<rparr> in (missing_chunks sha io s m, s)))"

text \<open>\<open>Iterator::sum\<close> of \<open>u64\<close>: an overflow panics in a debug build and wraps in a release build.\<close>

definition missing_upload_bytes ::
  "(bytes \<Rightarrow> bytes) \<Rightarrow> store_io \<Rightarrow> ContentStore \<Rightarrow> ContentManifest \<Rightarrow> u64 result" where
  "missing_upload_bytes sha io s m =
     bind_result (validate_manifest s m) (\<lambda>_.
       bind_result (missing_chunks sha io s m) (\<lambda>ms.
         Inr (sum_list (map ch_size (filter (\<lambda>c. ch_index c \<in> set ms) (cm_chunks m))))))"

definition find_descriptor :: "ContentManifest \<Rightarrow> u32 \<Rightarrow> ChunkDescriptor option" where
  "find_descriptor m i =
     (if unat i < length (cm_chunks m) \<and> ch_index (cm_chunks m ! unat i) = i
      then Some (cm_chunks m ! unat i) else None)"

definition write_chunk ::
  "ContentManifest serde \<Rightarrow> (bytes \<Rightarrow> bytes) \<Rightarrow> store_io \<Rightarrow> string \<Rightarrow> u32 \<Rightarrow> bytes \<Rightarrow> ContentStore
     \<Rightarrow> bool result \<times> ContentStore" where
  "write_chunk sd sha io digest i bs s =
     (case bind_result (validate_digest digest) (\<lambda>_. bind_result (pending_manifest sd io s digest)
             (\<lambda>m. ok_or invalid_manifest (find_descriptor m i))) of
        Inl e \<Rightarrow> (Inl e, s)
      | Inr c \<Rightarrow>
          if ch_size c \<noteq> of_nat (length bs) \<or> ch_digest c \<noteq> sha256_hex sha bs then (Inl corrupt_content, s)
          else if bt_contains (cs_chunks s) (ch_digest c) then
            (bind_result (verify_file sha (si_read io ChunkDir (ch_digest c)) c (cs_chunks s)) (\<lambda>_. Inr False), s)
          else
            (case atomic_bytes_write (si_write io ChunkDir (ch_digest c)) (ch_digest c) bs False (cs_chunks s) of
               (Inl e, d) \<Rightarrow> (Inl e, s\<lparr>cs_chunks := d\<rparr>)
             | (Inr _, d) \<Rightarrow> (Inr True, s\<lparr>cs_chunks := d\<rparr>)))"

text \<open>The bytes of the chunks in order, as the loops of \<open>complete_upload\<close> and \<open>read_content\<close> read them.\<close>

fun concat_chunks :: "store_io \<Rightarrow> directory \<Rightarrow> ChunkDescriptor list \<Rightarrow> bytes result" where
  "concat_chunks io d [] = Inr []"
| "concat_chunks io d (c # cs) =
     bind_result (read_file (si_read io ChunkDir (ch_digest c)) (ch_digest c) d)
       (\<lambda>bs. bind_result (concat_chunks io d cs) (\<lambda>rest. Inr (bs @ rest)))"

fun total_bytes :: "store_io \<Rightarrow> directory \<Rightarrow> u64 \<Rightarrow> ChunkDescriptor list \<Rightarrow> u64" where
  "total_bytes io d tot [] = tot"
| "total_bytes io d tot (c # cs) =
     total_bytes io d (sat_add tot (of_nat (length (unwrap_or [] (fmlookup d (ch_digest c)))))) cs"

definition remove_upload :: "store_io \<Rightarrow> string \<Rightarrow> directory \<Rightarrow> unit result \<times> directory" where
  "remove_upload io name d =
     (case fmlookup d name of
        None \<Rightarrow> (Inr (), d)
      | Some _ \<Rightarrow> if si_remove io UploadDir name then (Inr (), fmdrop name d) else (Inl store_storage_error, d))"

definition complete_upload ::
  "ContentManifest serde \<Rightarrow> (bytes \<Rightarrow> bytes) \<Rightarrow> store_io \<Rightarrow> string \<Rightarrow> ContentStore
     \<Rightarrow> ContentManifest result \<times> ContentStore" where
  "complete_upload sd sha io digest s =
     (case bind_result (validate_digest digest) (\<lambda>_. pending_manifest sd io s digest) of
        Inl e \<Rightarrow> (Inl e, s)
      | Inr m \<Rightarrow>
          (case missing_chunks sha io s m of
             Inl e \<Rightarrow> (Inl e, s)
           | Inr ms \<Rightarrow>
               if ms \<noteq> [] then (Inl upload_incomplete_error, s)
               else case concat_chunks io (cs_chunks s) (cm_chunks m) of
                 Inl e \<Rightarrow> (Inl e, s)
               | Inr bs \<Rightarrow>
                   if total_bytes io (cs_chunks s) 0 (cm_chunks m) \<noteq> cid_size (cm_content_id m)
                      \<or> sha256_hex sha bs \<noteq> cid_digest (cm_content_id m)
                   then (Inl corrupt_content, s)
                   else
                     (case atomic_json_write sd (si_write io ManifestDir (json_name digest)) (json_name digest)
                             m True (cs_manifests s) of
                        (Inl e, d) \<Rightarrow> (Inl e, s\<lparr>cs_manifests := d\<rparr>)
                      | (Inr _, d) \<Rightarrow>
                          (case remove_upload io (json_name digest) (cs_uploads s) of
                             (Inl e, u) \<Rightarrow> (Inl e, s\<lparr>cs_manifests := d, cs_uploads := u\<rparr>)
                           | (Inr _, u) \<Rightarrow> (Inr m, s\<lparr>cs_manifests := d, cs_uploads := u\<rparr>)))))"

fun put_chunks ::
  "ContentManifest serde \<Rightarrow> (bytes \<Rightarrow> bytes) \<Rightarrow> store_io \<Rightarrow> string \<Rightarrow> u32 list \<Rightarrow> (nat \<times> bytes) list
     \<Rightarrow> UploadStats \<Rightarrow> ContentStore \<Rightarrow> UploadStats result \<times> ContentStore" where
  "put_chunks sd sha io digest missing [] stats s = (Inr stats, s)"
| "put_chunks sd sha io digest missing ((i, chunk) # rest) stats s =
     (case try_u32 i of
        None \<Rightarrow> (Inl store_capacity_error, s)
      | Some index \<Rightarrow>
          if index \<notin> set missing
          then put_chunks sd sha io digest missing rest (stats\<lparr>us_reused_chunks := us_reused_chunks stats + 1\<rparr>) s
          else
            (case write_chunk sd sha io digest index chunk s of
               (Inl e, s) \<Rightarrow> (Inl e, s)
             | (Inr True, s) \<Rightarrow>
                 put_chunks sd sha io digest missing rest
                   (stats\<lparr>us_uploaded_chunks := us_uploaded_chunks stats + 1,
                          us_bytes_uploaded := sat_add (us_bytes_uploaded stats) (of_nat (length chunk))\<rparr>) s
             | (Inr False, s) \<Rightarrow>
                 put_chunks sd sha io digest missing rest
                   (stats\<lparr>us_reused_chunks := us_reused_chunks stats + 1\<rparr>) s))"

definition put_bytes ::
  "ContentManifest serde \<Rightarrow> (bytes \<Rightarrow> bytes) \<Rightarrow> store_io \<Rightarrow> bytes \<Rightarrow> string \<Rightarrow> ResourcePolicy \<Rightarrow> ContentStore
     \<Rightarrow> (ContentManifest \<times> UploadStats) result \<times> ContentStore" where
  "put_bytes sd sha io bs format policy s =
     (case build_manifest sha s bs format policy of
        Inl e \<Rightarrow> (Inl e, s)
      | Inr m \<Rightarrow>
          if has_content s (cm_content_id m)
          then (Inr (m, \<lparr>us_uploaded_chunks = 0, us_reused_chunks = length (cm_chunks m), us_bytes_uploaded = 0\<rparr>), s)
          else
            (case begin_upload sd sha io m s of
               (Inl e, s) \<Rightarrow> (Inl e, s)
             | (Inr missing, s) \<Rightarrow>
                 (case put_chunks sd sha io (cid_digest (cm_content_id m)) missing
                         (enumerate 0 (chunks_of (cs_chunk_size s) bs))
                         \<lparr>us_uploaded_chunks = 0, us_reused_chunks = 0, us_bytes_uploaded = 0\<rparr> s of
                    (Inl e, s) \<Rightarrow> (Inl e, s)
                  | (Inr stats, s) \<Rightarrow>
                      (case complete_upload sd sha io (cid_digest (cm_content_id m)) s of
                         (Inl e, s) \<Rightarrow> (Inl e, s)
                       | (Inr _, s) \<Rightarrow> (Inr (m, stats), s)))))"

section \<open>Reading and removing\<close>

fun read_chunks :: "(bytes \<Rightarrow> bytes) \<Rightarrow> store_io \<Rightarrow> directory \<Rightarrow> ChunkDescriptor list \<Rightarrow> bytes result" where
  "read_chunks sha io d [] = Inr []"
| "read_chunks sha io d (c # cs) =
     bind_result (verify_file sha (si_read io ChunkDir (ch_digest c)) c d) (\<lambda>_.
       bind_result (read_file (si_read io ChunkDir (ch_digest c)) (ch_digest c) d) (\<lambda>bs.
         bind_result (read_chunks sha io d cs) (\<lambda>rest. Inr (bs @ rest))))"

definition read_content ::
  "ContentManifest serde \<Rightarrow> (bytes \<Rightarrow> bytes) \<Rightarrow> store_io \<Rightarrow> ContentStore \<Rightarrow> ContentId \<Rightarrow> bytes result" where
  "read_content sd sha io s cid =
     bind_result (committed_manifest sd io s (cid_digest cid)) (\<lambda>m.
       if cm_content_id m \<noteq> cid then Inl corrupt_content
       else bind_result (read_chunks sha io (cs_chunks s) (cm_chunks m)) (\<lambda>bs.
         if sha256_hex sha bs \<noteq> cid_digest cid then Inl corrupt_content else Inr bs))"

text \<open>A directory is listed in an order the file system chooses; here it is that of the names.\<close>

fun referenced_from :: "ContentManifest serde \<Rightarrow> store_io \<Rightarrow> directory \<Rightarrow> string list \<Rightarrow> string set result" where
  "referenced_from sd io d [] = Inr {}"
| "referenced_from sd io d (name # names) =
     (if \<not> si_entry io ManifestDir name then Inl store_storage_error
      else bind_result (read_json sd (si_read io ManifestDir name) name d) (\<lambda>m.
        bind_result (referenced_from sd io d names) (\<lambda>r. Inr (ch_digest ` set (cm_chunks m) \<union> r))))"

definition referenced_chunks :: "ContentManifest serde \<Rightarrow> store_io \<Rightarrow> ContentStore \<Rightarrow> string set result" where
  "referenced_chunks sd io s =
     (if \<not> si_list io ManifestDir then Inl store_storage_error
      else referenced_from sd io (cs_manifests s) (bt_keys (cs_manifests s)))"

fun sweep_chunks :: "store_io \<Rightarrow> string set \<Rightarrow> string list \<Rightarrow> directory \<Rightarrow> unit result \<times> directory" where
  "sweep_chunks io referenced [] d = (Inr (), d)"
| "sweep_chunks io referenced (name # names) d =
     (if \<not> si_entry io ChunkDir name then (Inl store_storage_error, d)
      else if name \<in> referenced then sweep_chunks io referenced names d
      else if si_remove io ChunkDir name then sweep_chunks io referenced names (fmdrop name d)
      else (Inl store_storage_error, d))"

definition remove_content ::
  "ContentManifest serde \<Rightarrow> store_io \<Rightarrow> ContentId \<Rightarrow> ContentStore \<Rightarrow> unit result \<times> ContentStore" where
  "remove_content sd io cid s =
     (let name = json_name (cid_digest cid) in
      if \<not> bt_contains (cs_manifests s) name then (Inr (), s)
      else if \<not> si_remove io ManifestDir name then (Inl store_storage_error, s)
      else
        let s = s\<lparr>cs_manifests := fmdrop name (cs_manifests s)\<rparr> in
        case referenced_chunks sd io s of
          Inl e \<Rightarrow> (Inl e, s)
        | Inr referenced \<Rightarrow>
            if \<not> si_list io ChunkDir then (Inl store_storage_error, s)
            else case sweep_chunks io referenced (bt_keys (cs_chunks s)) (cs_chunks s) of
              (r, d) \<Rightarrow> (r, s\<lparr>cs_chunks := d\<rparr>))"

section \<open>File names\<close>

lemma tmp_not_json: "tmp_name a \<noteq> json_name b"
proof
  assume "tmp_name a = json_name b"
  then have "last (tmp_name a) = last (json_name b)" by simp
  then show False by (simp add: tmp_name_def json_name_def)
qed

lemma json_name_eq [simp]: "json_name a = json_name b \<longleftrightarrow> a = b"
  by (simp add: json_name_def)

lemma validate_digest_ok: "validate_digest dg = Inr u \<longleftrightarrow> length dg = 64 \<and> list_all is_hexdigit dg"
  by (simp add: validate_digest_def)

lemma tmp_not_digest: "validate_digest dg = Inr u \<Longrightarrow> tmp_name a \<noteq> dg"
proof
  assume "validate_digest dg = Inr u" "tmp_name a = dg"
  then have "CHR ''.'' \<in> set dg" "list_all is_hexdigit dg" by (auto simp: tmp_name_def validate_digest_ok)
  then have "is_hexdigit (CHR ''.'')" by (simp add: list_all_iff)
  then show False by (simp add: is_hexdigit_def)
qed

lemma hex_digit_is_hexdigit: "n < 16 \<Longrightarrow> is_hexdigit (hex_digit n)"
proof -
  assume "n < 16"
  then have "hex_digit n \<in> set ''0123456789abcdef''"
    unfolding hex_digit_def by (intro nth_mem) simp
  then show ?thesis by (auto simp: is_hexdigit_def)
qed

lemma validate_sha256_hex: "length (sha bs) = 32 \<Longrightarrow> validate_digest (sha256_hex sha bs) = Inr ()"
proof -
  assume "length (sha bs) = 32"
  moreover have "unat b div 16 < 16" for b :: u8 using unat_bound [of b] by simp
  then have "list_all is_hexdigit (hex_string x)" for x
    by (auto simp: list_all_iff hex_string_def hex_byte_def hex_digit_is_hexdigit)
  ultimately show ?thesis by (simp add: validate_digest_ok sha256_hex_def)
qed

section \<open>Directories\<close>

lemma atomic_write_lookup:
  assumes "atomic_bytes_write fw name bs sync d = (r, d')" and "k \<noteq> tmp_name name"
  shows "fmlookup d' k = (if k = name \<and> r = Inr () then Some bs else fmlookup d k)"
  using assms by (auto simp: atomic_bytes_write_def split: if_splits option.splits)

lemma atomic_json_lookup:
  assumes "atomic_json_write sd fw (json_name dg) m sync d = (r, d')"
  shows "fmlookup d' (json_name x) = (if x = dg \<and> r = Inr () then to_vec sd m else fmlookup d (json_name x))
    \<and> (r = Inr () \<longrightarrow> to_vec sd m \<noteq> None)"
proof (cases "to_vec sd m")
  case None
  then show ?thesis using assms by (auto simp: atomic_json_write_def)
next
  case (Some bs)
  then have "atomic_bytes_write fw (json_name dg) bs sync d = (r, d')" using assms by (simp add: atomic_json_write_def)
  from atomic_write_lookup [OF this tmp_not_json [symmetric]] Some show ?thesis by auto
qed

lemma read_file_Inr: "read_file ok name d = Inr bs \<longleftrightarrow> ok \<and> fmlookup d name = Some bs"
  by (auto simp: read_file_def split: option.splits)

lemma read_json_Inr: "read_json sd ok name d = Inr m \<longleftrightarrow> (ok \<and> (\<exists>bs. fmlookup d name = Some bs \<and> from_slice sd bs = Some m))"
  by (auto simp: read_json_def bind_result_Inr read_file_Inr)

lemma verify_file_Inr:
  "verify_file sha ok c d = Inr u \<longleftrightarrow> ok \<and> (\<exists>bs. fmlookup d (ch_digest c) = Some bs \<and> matches sha c bs)"
  by (auto simp: verify_file_def bind_result_Inr read_file_Inr)

section \<open>Complete contents\<close>

definition content_bytes :: "directory \<Rightarrow> ContentManifest \<Rightarrow> bytes" where
  "content_bytes d m = concat (map (\<lambda>c. unwrap_or [] (fmlookup d (ch_digest c))) (cm_chunks m))"

definition chunk_present :: "(bytes \<Rightarrow> bytes) \<Rightarrow> directory \<Rightarrow> ChunkDescriptor \<Rightarrow> bool" where
  "chunk_present sha d c \<longleftrightarrow> (\<exists>bs. fmlookup d (ch_digest c) = Some bs \<and> matches sha c bs)"

definition content_complete :: "(bytes \<Rightarrow> bytes) \<Rightarrow> directory \<Rightarrow> ContentManifest \<Rightarrow> bool" where
  "content_complete sha d m \<longleftrightarrow> (\<forall>c \<in> set (cm_chunks m). chunk_present sha d c)
     \<and> sha256_hex sha (content_bytes d m) = cid_digest (cm_content_id m)"

definition same_chunks :: "directory \<Rightarrow> directory \<Rightarrow> ContentManifest \<Rightarrow> bool" where
  "same_chunks d d' m \<longleftrightarrow> (\<forall>c \<in> set (cm_chunks m). fmlookup d' (ch_digest c) = fmlookup d (ch_digest c))"

lemma same_chunks_bytes: "same_chunks d d' m \<Longrightarrow> content_bytes d' m = content_bytes d m"
  by (simp add: same_chunks_def content_bytes_def cong: map_cong)

lemma same_chunks_complete: "same_chunks d d' m \<Longrightarrow> content_complete sha d' m = content_complete sha d m"
  using same_chunks_bytes [of d d' m] by (simp add: content_complete_def chunk_present_def same_chunks_def)

lemma missing_from_Inr:
  "missing_from sha io d cs = Inr ms \<Longrightarrow>
     ms = map ch_index (filter (\<lambda>c. \<not> bt_contains d (ch_digest c)) cs)
     \<and> (\<forall>c \<in> set cs. bt_contains d (ch_digest c) \<longrightarrow> chunk_present sha d c)"
  by (induction cs arbitrary: ms)
     (auto simp: bind_result_Inr verify_file_Inr chunk_present_def split: if_splits)

lemma missing_from_ok:
  assumes "\<forall>n. si_read io ChunkDir n" and "\<forall>c \<in> set cs. bt_contains d (ch_digest c) \<longrightarrow> chunk_present sha d c"
  shows "missing_from sha io d cs = Inr (map ch_index (filter (\<lambda>c. \<not> bt_contains d (ch_digest c)) cs))"
  using assms(2)
proof (induction cs)
  case (Cons c cs)
  show ?case
  proof (cases "bt_contains d (ch_digest c)")
    case True
    then have "verify_file sha (si_read io ChunkDir (ch_digest c)) c d = Inr ()"
      using Cons.prems assms(1) by (auto simp: verify_file_Inr chunk_present_def)
    with True Cons show ?thesis by simp
  qed (use Cons in simp)
qed simp

lemma concat_chunks_Inr:
  "concat_chunks io d cs = Inr bs \<Longrightarrow> bs = concat (map (\<lambda>c. unwrap_or [] (fmlookup d (ch_digest c))) cs)"
  by (induction cs arbitrary: bs) (auto simp: bind_result_Inr read_file_Inr)

lemma concat_chunks_ok:
  assumes "\<forall>n. si_read io ChunkDir n"
  shows "\<forall>c \<in> set cs. chunk_present sha d c \<Longrightarrow>
     concat_chunks io d cs = Inr (concat (map (\<lambda>c. unwrap_or [] (fmlookup d (ch_digest c))) cs))"
proof (induction cs)
  case (Cons c cs)
  then obtain bs where "fmlookup d (ch_digest c) = Some bs" by (auto simp: chunk_present_def)
  with Cons assms show ?case by (simp add: read_file_def)
qed simp

lemma read_chunks_ok:
  assumes "\<forall>n. si_read io ChunkDir n"
  shows "\<forall>c \<in> set cs. chunk_present sha d c \<Longrightarrow>
     read_chunks sha io d cs = Inr (concat (map (\<lambda>c. unwrap_or [] (fmlookup d (ch_digest c))) cs))"
proof (induction cs)
  case (Cons c cs)
  then obtain bs where "fmlookup d (ch_digest c) = Some bs" "matches sha c bs" by (auto simp: chunk_present_def)
  with Cons assms show ?case by (simp add: read_file_def verify_file_def)
qed simp

lemma read_content_complete:
  assumes "\<forall>dir n. si_read io dir n" and "fmlookup (cs_manifests s) (json_name dg) = Some bs"
    and "from_slice sd bs = Some m" and "content_complete sha (cs_chunks s) m"
    and "cid_digest (cm_content_id m) = dg"
  shows "read_content sd sha io s (cm_content_id m) = Inr (content_bytes (cs_chunks s) m)"
proof -
  have "committed_manifest sd io s dg = Inr m"
    using assms(1-3) by (auto simp: committed_manifest_def read_json_Inr)
  moreover have "read_chunks sha io (cs_chunks s) (cm_chunks m) = Inr (content_bytes (cs_chunks s) m)"
    using read_chunks_ok [of io "cm_chunks m" sha "cs_chunks s"] assms(1,4)
    by (auto simp: content_complete_def content_bytes_def)
  ultimately show ?thesis using assms(4,5) by (simp add: read_content_def content_complete_def)
qed

section \<open>The invariant of the store\<close>

definition manifest_ok :: "ContentStore \<Rightarrow> string \<Rightarrow> ContentManifest \<Rightarrow> bool" where
  "manifest_ok s dg m \<longleftrightarrow> validate_manifest s m = Inr () \<and> cid_digest (cm_content_id m) = dg"

definition pending :: "ContentManifest serde \<Rightarrow> ContentStore \<Rightarrow> string \<Rightarrow> ContentManifest option" where
  "pending sd s dg = Option.bind (fmlookup (cs_uploads s) (json_name dg)) (from_slice sd)"

definition committed :: "ContentManifest serde \<Rightarrow> ContentStore \<Rightarrow> string \<Rightarrow> ContentManifest option" where
  "committed sd s dg = Option.bind (fmlookup (cs_manifests s) (json_name dg)) (from_slice sd)"

definition store_ok :: "ContentManifest serde \<Rightarrow> (bytes \<Rightarrow> bytes) \<Rightarrow> ContentStore \<Rightarrow> bool" where
  "store_ok sd sha s \<longleftrightarrow>
     (\<forall>dg. bt_contains (cs_uploads s) (json_name dg) \<longrightarrow> (\<exists>m. pending sd s dg = Some m \<and> manifest_ok s dg m))
     \<and> (\<forall>dg. bt_contains (cs_manifests s) (json_name dg) \<longrightarrow>
          (\<exists>m. committed sd s dg = Some m \<and> manifest_ok s dg m \<and> content_complete sha (cs_chunks s) m))
     \<and> (\<forall>dg m m'. pending sd s dg = Some m \<longrightarrow> committed sd s dg = Some m' \<longrightarrow> m = m')
     \<and> (\<forall>dg bs. validate_digest dg = Inr () \<longrightarrow> fmlookup (cs_chunks s) dg = Some bs \<longrightarrow> sha256_hex sha bs = dg)"

lemma validate_manifest_update [simp]:
  "validate_manifest (s\<lparr>cs_uploads := u\<rparr>) m = validate_manifest s m"
  "validate_manifest (s\<lparr>cs_chunks := d\<rparr>) m = validate_manifest s m"
  "validate_manifest (s\<lparr>cs_manifests := f\<rparr>) m = validate_manifest s m"
  by (simp_all add: validate_manifest_def)

lemma manifest_ok_update [simp]:
  "manifest_ok (s\<lparr>cs_uploads := u\<rparr>) dg m = manifest_ok s dg m"
  "manifest_ok (s\<lparr>cs_chunks := d\<rparr>) dg m = manifest_ok s dg m"
  "manifest_ok (s\<lparr>cs_manifests := f\<rparr>) dg m = manifest_ok s dg m"
  by (simp_all add: manifest_ok_def)

lemma pending_update [simp]:
  "pending sd (s\<lparr>cs_chunks := d\<rparr>) dg = pending sd s dg"
  "pending sd (s\<lparr>cs_manifests := f\<rparr>) dg = pending sd s dg"
  by (simp_all add: pending_def)

lemma committed_update [simp]:
  "committed sd (s\<lparr>cs_chunks := d\<rparr>) dg = committed sd s dg"
  "committed sd (s\<lparr>cs_uploads := u\<rparr>) dg = committed sd s dg"
  by (simp_all add: committed_def)

lemma store_okD:
  assumes "store_ok sd sha s"
  shows "bt_contains (cs_uploads s) (json_name dg) \<Longrightarrow> \<exists>m. pending sd s dg = Some m \<and> manifest_ok s dg m"
    and "bt_contains (cs_manifests s) (json_name dg) \<Longrightarrow>
          \<exists>m. committed sd s dg = Some m \<and> manifest_ok s dg m \<and> content_complete sha (cs_chunks s) m"
    and "pending sd s dg = Some m \<Longrightarrow> committed sd s dg = Some m' \<Longrightarrow> m = m'"
    and "validate_digest dg = Inr () \<Longrightarrow> fmlookup (cs_chunks s) dg = Some bs \<Longrightarrow> sha256_hex sha bs = dg"
  using assms unfolding store_ok_def by blast+

lemma store_ok_committed:
  assumes "store_ok sd sha s" and "committed sd s dg = Some m"
  shows "manifest_ok s dg m" and "content_complete sha (cs_chunks s) m" and "bt_contains (cs_manifests s) (json_name dg)"
proof -
  show c: "bt_contains (cs_manifests s) (json_name dg)"
    using assms(2) by (auto simp: committed_def bt_contains_def bind_eq_Some_conv)
  show "manifest_ok s dg m" "content_complete sha (cs_chunks s) m"
    using store_okD(2) [OF assms(1) c] assms(2) by auto
qed

lemma store_ok_pending:
  assumes "store_ok sd sha s" and "pending sd s dg = Some m"
  shows "manifest_ok s dg m"
proof -
  have "bt_contains (cs_uploads s) (json_name dg)"
    using assms(2) by (auto simp: pending_def bt_contains_def bind_eq_Some_conv)
  then show ?thesis using store_okD(1) [OF assms(1)] assms(2) by fastforce
qed

lemma validate_chunks_digests:
  "validate_chunks cz i tot cs = Inr t \<Longrightarrow> c \<in> set cs \<Longrightarrow> validate_digest (ch_digest c) = Inr ()"
  by (induction cz i tot cs rule: validate_chunks.induct) (auto simp: bind_result_Inr split: if_splits)

lemma manifest_ok_digests:
  "manifest_ok s dg m \<Longrightarrow> c \<in> set (cm_chunks m) \<Longrightarrow> validate_digest (ch_digest c) = Inr ()"
  by (auto simp: manifest_ok_def validate_manifest_def bind_result_Inr split: if_splits dest: validate_chunks_digests)

lemma validate_manifest_digest: "validate_manifest s m = Inr () \<Longrightarrow> validate_digest (cid_digest (cm_content_id m)) = Inr ()"
  by (auto simp: validate_manifest_def bind_result_Inr)

text \<open>What an operation leaves alone: the committed contents, those in \<open>R\<close> excepted.\<close>

definition keeps :: "ContentManifest serde \<Rightarrow> string set \<Rightarrow> ContentStore \<Rightarrow> ContentStore \<Rightarrow> bool" where
  "keeps sd R s s' \<longleftrightarrow> cs_chunk_size s' = cs_chunk_size s \<and> cs_max_chunks s' = cs_max_chunks s
     \<and> (\<forall>dg m. dg \<notin> R \<longrightarrow> committed sd s dg = Some m \<longrightarrow>
          committed sd s' dg = Some m \<and> same_chunks (cs_chunks s) (cs_chunks s') m)"

lemma keeps_refl [simp]: "keeps sd R s s"
  by (simp add: keeps_def same_chunks_def)

lemma keeps_trans: "keeps sd R s s' \<Longrightarrow> keeps sd R' s' s'' \<Longrightarrow> keeps sd (R \<union> R') s s''"
  by (fastforce simp: keeps_def same_chunks_def)

lemma keeps_uploads [simp]: "keeps sd R s (s\<lparr>cs_uploads := u\<rparr>)"
  by (simp add: keeps_def same_chunks_def)

text \<open>A change of the chunk directory that leaves the chunks of committed contents alone.\<close>

lemma store_ok_chunks:
  assumes ok: "store_ok sd sha s"
    and same: "\<And>dg m. committed sd s dg = Some m \<Longrightarrow> same_chunks (cs_chunks s) d m"
    and hash: "\<And>dg bs. validate_digest dg = Inr () \<Longrightarrow> fmlookup d dg = Some bs \<Longrightarrow> sha256_hex sha bs = dg"
  shows "store_ok sd sha (s\<lparr>cs_chunks := d\<rparr>) \<and> keeps sd R s (s\<lparr>cs_chunks := d\<rparr>)"
proof
  show "keeps sd R s (s\<lparr>cs_chunks := d\<rparr>)" using same by (simp add: keeps_def)
  show "store_ok sd sha (s\<lparr>cs_chunks := d\<rparr>)"
    unfolding store_ok_def
  proof (intro conjI allI impI)
    fix dg assume "bt_contains (cs_uploads (s\<lparr>cs_chunks := d\<rparr>)) (json_name dg)"
    then show "\<exists>m. pending sd (s\<lparr>cs_chunks := d\<rparr>) dg = Some m \<and> manifest_ok (s\<lparr>cs_chunks := d\<rparr>) dg m"
      using store_okD(1) [OF ok] by simp
  next
    fix dg assume "bt_contains (cs_manifests (s\<lparr>cs_chunks := d\<rparr>)) (json_name dg)"
    then obtain m where "committed sd s dg = Some m" "manifest_ok s dg m" "content_complete sha (cs_chunks s) m"
      using store_okD(2) [OF ok] by auto
    with same same_chunks_complete
    show "\<exists>m. committed sd (s\<lparr>cs_chunks := d\<rparr>) dg = Some m \<and> manifest_ok (s\<lparr>cs_chunks := d\<rparr>) dg m
        \<and> content_complete sha (cs_chunks (s\<lparr>cs_chunks := d\<rparr>)) m" by fastforce
  qed (use store_okD(3) [OF ok] hash in auto)
qed

section \<open>Every operation keeps the invariant\<close>

lemma encoded_decodes: "serde_ok sd \<Longrightarrow> to_vec sd m \<noteq> None \<Longrightarrow> Option.bind (to_vec sd m) (from_slice sd) = Some m"
  by (auto dest: serde_okD)

lemma begin_upload_cases:
  assumes "begin_upload sd sha io m s = (r, s')"
  obtains "s' = s" and "isl r \<or> has_content s (cm_content_id m)"
  | d w where "validate_manifest s m = Inr ()" and "\<not> has_content s (cm_content_id m)" and "s' = s\<lparr>cs_uploads := d\<rparr>"
      and "\<And>x. fmlookup d (json_name x) =
             (if x = cid_digest (cm_content_id m) \<and> w then to_vec sd m else fmlookup (cs_uploads s) (json_name x))"
      and "w \<Longrightarrow> to_vec sd m \<noteq> None" and "\<not> isl r \<Longrightarrow> w"
      and "w \<Longrightarrow> r = missing_chunks sha io s m"
proof (cases "validate_manifest s m")
  case (Inl e)
  then show ?thesis using assms that(1) by (auto simp: begin_upload_def)
next
  case (Inr u)
  show ?thesis
  proof (cases "has_content s (cm_content_id m)")
    case True
    then show ?thesis using assms Inr that(1) by (auto simp: begin_upload_def split: sum.splits if_splits)
  next
    case False
    obtain r0 d where w: "atomic_json_write sd (si_write io UploadDir (json_name (cid_digest (cm_content_id m))))
        (json_name (cid_digest (cm_content_id m))) m False (cs_uploads s) = (r0, d)" by fastforce
    have "missing_chunks sha io (s\<lparr>cs_uploads := d\<rparr>) m = missing_chunks sha io s m" by (simp add: missing_chunks_def)
    then have res: "s' = s\<lparr>cs_uploads := d\<rparr>" "r0 = Inr () \<Longrightarrow> r = missing_chunks sha io s m" "\<not> isl r \<Longrightarrow> r0 = Inr ()"
      using assms Inr False w by (auto simp: begin_upload_def Let_def split: sum.splits)
    show ?thesis
      by (rule that(2) [of d "r0 = Inr ()"]) (use Inr False res atomic_json_lookup [OF w] in auto)
  qed
qed

lemma begin_upload_ok:
  assumes ok: "store_ok sd sha s" and sd: "serde_ok sd" and b: "begin_upload sd sha io m s = (r, s')"
  shows "store_ok sd sha s' \<and> keeps sd R s s'"
proof (rule begin_upload_cases [OF b])
  assume "s' = s"
  with ok show ?thesis by simp
next
  fix d w
  let ?g = "cid_digest (cm_content_id m)"
  assume v: "validate_manifest s m = Inr ()" and h: "\<not> has_content s (cm_content_id m)" and s': "s' = s\<lparr>cs_uploads := d\<rparr>"
    and d: "\<And>x. fmlookup d (json_name x) = (if x = ?g \<and> w then to_vec sd m else fmlookup (cs_uploads s) (json_name x))"
    and w: "w \<Longrightarrow> to_vec sd m \<noteq> None"
  have p: "pending sd s' x = (if x = ?g \<and> w then Some m else pending sd s x)" for x
    using d encoded_decodes [OF sd w] by (simp add: pending_def s')
  have nc: "committed sd s ?g = None" using h by (auto simp: committed_def has_content_def bt_contains_def)
  have "store_ok sd sha s'"
    unfolding store_ok_def
  proof (intro conjI allI impI)
    fix x assume "bt_contains (cs_uploads s') (json_name x)"
    then show "\<exists>m. pending sd s' x = Some m \<and> manifest_ok s' x m"
      using store_okD(1) [OF ok, of x] v d [of x]
      unfolding p by (auto simp: s' bt_contains_def manifest_ok_def)
  next
    fix x m1 m2 assume "pending sd s' x = Some m1" "committed sd s' x = Some m2"
    then show "m1 = m2" using nc store_okD(3) [OF ok] unfolding p by (auto simp: s' split: if_splits)
  qed (use store_okD(2,4) [OF ok] in \<open>auto simp: s'\<close>)
  then show ?thesis by (simp add: s')
qed

lemma write_chunk_cases:
  assumes "write_chunk sd sha io dg i bs s = (r, s')"
  obtains "s' = s" and "isl r"
  | m c where "s' = s" and "r = Inr False" and "pending sd s dg = Some m" and "find_descriptor m i = Some c"
      and "chunk_present sha (cs_chunks s) c"
  | m c d where "pending sd s dg = Some m" and "find_descriptor m i = Some c" and "matches sha c bs"
      and "\<not> bt_contains (cs_chunks s) (ch_digest c)" and "s' = s\<lparr>cs_chunks := d\<rparr>"
      and "\<And>k. (\<And>a. k \<noteq> tmp_name a) \<Longrightarrow>
             fmlookup d k = (if k = ch_digest c \<and> r = Inr True then Some bs else fmlookup (cs_chunks s) k)"
      and "isl r \<or> r = Inr True"
proof (cases "bind_result (validate_digest dg) (\<lambda>_. bind_result (pending_manifest sd io s dg)
             (\<lambda>m. ok_or invalid_manifest (find_descriptor m i)))")
  case (Inl e)
  then show ?thesis using assms that(1) by (auto simp: write_chunk_def)
next
  case (Inr c)
  then obtain m where m: "pending sd s dg = Some m" "find_descriptor m i = Some c"
    by (auto simp: bind_result_Inr pending_manifest_def read_json_Inr pending_def)
  consider (bad) "\<not> matches sha c bs" | (present) "matches sha c bs" "bt_contains (cs_chunks s) (ch_digest c)"
    | (new) "matches sha c bs" "\<not> bt_contains (cs_chunks s) (ch_digest c)" by blast
  then show ?thesis
  proof cases
    case bad
    then have "s' = s \<and> isl r" using assms Inr by (auto simp: write_chunk_def matches_def split: if_splits)
    then show ?thesis using that(1) by blast
  next
    case present
    then have "s' = s \<and> (isl r \<or> (r = Inr False \<and> chunk_present sha (cs_chunks s) c))"
      using assms Inr
      by (cases "verify_file sha (si_read io ChunkDir (ch_digest c)) c (cs_chunks s)")
         (auto simp: write_chunk_def matches_def chunk_present_def verify_file_Inr)
    then show ?thesis using that(1) that(2) m by blast
  next
    case new
    obtain r0 d where w: "atomic_bytes_write (si_write io ChunkDir (ch_digest c)) (ch_digest c) bs False (cs_chunks s) = (r0, d)"
      by fastforce
    with new assms Inr have res: "s' = s\<lparr>cs_chunks := d\<rparr>" "r0 = Inr () \<Longrightarrow> r = Inr True" "r0 \<noteq> Inr () \<Longrightarrow> isl r"
      by (auto simp: write_chunk_def matches_def split: sum.splits)
    have k: "fmlookup d k = (if k = ch_digest c \<and> r = Inr True then Some bs else fmlookup (cs_chunks s) k)"
      if "\<And>a. k \<noteq> tmp_name a" for k
      using atomic_write_lookup [OF w that] res(2,3) by auto
    show ?thesis by (rule that(3) [OF m new res(1) k]) (use res in auto)
  qed
qed

lemma find_descriptor_mem: "find_descriptor m i = Some c \<Longrightarrow> c \<in> set (cm_chunks m) \<and> ch_index c = i"
  by (metis find_descriptor_def nth_mem option.distinct(1) option.inject)

lemma write_chunk_ok:
  assumes ok: "store_ok sd sha s" and w: "write_chunk sd sha io dg i bs s = (r, s')"
  shows "store_ok sd sha s' \<and> keeps sd R s s'"
proof (rule write_chunk_cases [OF w])
  fix m c d
  assume "pending sd s dg = Some m" "find_descriptor m i = Some c" and new: "\<not> bt_contains (cs_chunks s) (ch_digest c)"
    and mt: "matches sha c bs" and s': "s' = s\<lparr>cs_chunks := d\<rparr>"
    and d: "\<And>k. (\<And>a. k \<noteq> tmp_name a) \<Longrightarrow>
             fmlookup d k = (if k = ch_digest c \<and> r = Inr True then Some bs else fmlookup (cs_chunks s) k)"
  have vd: "fmlookup d k = (if k = ch_digest c \<and> r = Inr True then Some bs else fmlookup (cs_chunks s) k)"
    if "validate_digest k = Inr ()" for k
    using d tmp_not_digest [OF that] by metis
  show ?thesis unfolding s'
  proof (rule store_ok_chunks [OF ok])
    fix x n assume n: "committed sd s x = Some n"
    have "fmlookup d (ch_digest e) = fmlookup (cs_chunks s) (ch_digest e)" if "e \<in> set (cm_chunks n)" for e
    proof -
      have "bt_contains (cs_chunks s) (ch_digest e)"
        using store_ok_committed(2) [OF ok n] that by (auto simp: content_complete_def chunk_present_def bt_contains_def)
      with new have "ch_digest e \<noteq> ch_digest c" by auto
      with vd [OF manifest_ok_digests [OF store_ok_committed(1) [OF ok n] that]] show ?thesis by simp
    qed
    then show "same_chunks (cs_chunks s) d n" by (simp add: same_chunks_def)
  next
    fix k b assume "validate_digest k = Inr ()" "fmlookup d k = Some b"
    then show "sha256_hex sha b = k"
      using vd [of k] mt store_okD(4) [OF ok, of k b] by (auto simp: matches_def split: if_splits)
  qed
qed (use ok in simp_all)


lemma complete_upload_cases:
  assumes "complete_upload sd sha io dg s = (r, s')"
  obtains "s' = s" and "isl r"
  | m f u w where "pending sd s dg = Some m" and "content_complete sha (cs_chunks s) m"
      and "s' = s\<lparr>cs_manifests := f, cs_uploads := u\<rparr>"
      and "\<And>x. fmlookup f (json_name x) = (if x = dg \<and> w then to_vec sd m else fmlookup (cs_manifests s) (json_name x))"
      and "w \<Longrightarrow> to_vec sd m \<noteq> None"
      and "u = cs_uploads s \<or> u = fmdrop (json_name dg) (cs_uploads s)"
      and "\<not> isl r \<Longrightarrow> r = Inr m \<and> w"
proof (cases "bind_result (validate_digest dg) (\<lambda>_. pending_manifest sd io s dg)")
  case (Inl e)
  have "s' = s \<and> r = Inl e" using assms unfolding complete_upload_def Inl by simp
  then show ?thesis using that(1) by simp
next
  case (Inr m)
  then have m: "pending sd s dg = Some m" by (auto simp: bind_result_Inr pending_manifest_def read_json_Inr pending_def)
  show ?thesis
  proof (cases "missing_chunks sha io s m = Inr [] \<and> (\<exists>bs. concat_chunks io (cs_chunks s) (cm_chunks m) = Inr bs
      \<and> total_bytes io (cs_chunks s) 0 (cm_chunks m) = cid_size (cm_content_id m)
      \<and> sha256_hex sha bs = cid_digest (cm_content_id m))")
    case False
    then show ?thesis using assms Inr that(1) by (auto simp: complete_upload_def split: sum.splits if_splits)
  next
    case True
    then obtain bs where c: "missing_from sha io (cs_chunks s) (cm_chunks m) = Inr []"
        "concat_chunks io (cs_chunks s) (cm_chunks m) = Inr bs" "sha256_hex sha bs = cid_digest (cm_content_id m)"
      by (auto simp: missing_chunks_def)
    have full: "content_complete sha (cs_chunks s) m"
      using missing_from_Inr [OF c(1)] concat_chunks_Inr [OF c(2)] c(3)
      by (auto simp: content_complete_def content_bytes_def filter_empty_conv)
    obtain r0 f where w: "atomic_json_write sd (si_write io ManifestDir (json_name dg)) (json_name dg) m True (cs_manifests s) = (r0, f)"
      by fastforce
    note look = atomic_json_lookup [OF w]
    show ?thesis
    proof (cases r0)
      case (Inl e)
      then have "s' = s\<lparr>cs_manifests := f\<rparr>" "isl r" using assms Inr True w by (auto simp: complete_upload_def)
      then show ?thesis using that(2) [OF m full, where f = f and u = "cs_uploads s" and w = False] look Inl by simp
    next
      case (Inr v)
      obtain r1 u where u: "remove_upload io (json_name dg) (cs_uploads s) = (r1, u)" by fastforce
      then have u': "u = cs_uploads s \<or> u = fmdrop (json_name dg) (cs_uploads s)"
        by (auto simp: remove_upload_def split: option.splits if_splits)
      have "s' = s\<lparr>cs_manifests := f, cs_uploads := u\<rparr> \<and> (\<not> isl r \<longrightarrow> r = Inr m)"
        using assms \<open>bind_result _ _ = Inr m\<close> True w Inr u by (auto simp: complete_upload_def split: sum.splits)
      then show ?thesis using that(2) [OF m full, where f = f and u = u and w = True] look Inr u' by simp
    qed
  qed
qed

lemma complete_upload_ok:
  assumes ok: "store_ok sd sha s" and sd: "serde_ok sd" and c: "complete_upload sd sha io dg s = (r, s')"
  shows "store_ok sd sha s' \<and> keeps sd R s s'"
proof (rule complete_upload_cases [OF c])
  fix m f u w
  assume p: "pending sd s dg = Some m" and full: "content_complete sha (cs_chunks s) m"
    and s': "s' = s\<lparr>cs_manifests := f, cs_uploads := u\<rparr>"
    and f: "\<And>x. fmlookup f (json_name x) = (if x = dg \<and> w then to_vec sd m else fmlookup (cs_manifests s) (json_name x))"
    and w: "w \<Longrightarrow> to_vec sd m \<noteq> None"
    and u: "u = cs_uploads s \<or> u = fmdrop (json_name dg) (cs_uploads s)"
  have cm: "committed sd s' x = (if x = dg \<and> w then Some m else committed sd s x)" for x
    using f encoded_decodes [OF sd w] by (simp add: committed_def s')
  have pd: "pending sd s' x = Some n \<Longrightarrow> pending sd s x = Some n" for x n
    using u by (auto simp: pending_def s' split: if_splits)
  have "store_ok sd sha s'"
    unfolding store_ok_def
  proof (intro conjI allI impI)
    fix x assume "bt_contains (cs_uploads s') (json_name x)"
    then have "bt_contains (cs_uploads s) (json_name x)" "fmlookup u (json_name x) = fmlookup (cs_uploads s) (json_name x)"
      using u by (auto simp: s' bt_contains_def split: if_splits)
    with store_okD(1) [OF ok] show "\<exists>m. pending sd s' x = Some m \<and> manifest_ok s' x m"
      by (auto simp: s' pending_def)
  next
    fix x assume "bt_contains (cs_manifests s') (json_name x)"
    then show "\<exists>m. committed sd s' x = Some m \<and> manifest_ok s' x m \<and> content_complete sha (cs_chunks s') m"
      using store_okD(2) [OF ok, of x] store_ok_pending [OF ok p] full f [of x]
      unfolding cm by (auto simp: s' bt_contains_def)
  next
    fix x m1 m2 assume a: "pending sd s' x = Some m1" "committed sd s' x = Some m2"
    then show "m1 = m2" using pd [OF a(1)] p store_okD(3) [OF ok] unfolding cm by (auto split: if_splits)
  qed (use store_okD(4) [OF ok] in \<open>auto simp: s'\<close>)
  moreover have "keeps sd R s s'"
    unfolding keeps_def using cm p store_okD(3) [OF ok] by (auto simp: s' same_chunks_def)
  ultimately show ?thesis ..
qed (use ok in simp_all)

lemma put_chunks_ok:
  assumes "store_ok sd sha s" and "put_chunks sd sha io dg ms cs st s = (r, s')"
  shows "store_ok sd sha s' \<and> keeps sd {} s s'"
  using assms
proof (induction cs arbitrary: st s)
  case (Cons p cs)
  obtain i c where p: "p = (i, c)" by fastforce
  show ?case
  proof (cases "try_u32 i")
    case None
    with Cons.prems p show ?thesis by simp
  next
    case (Some ix)
    show ?thesis
    proof (cases "ix \<in> set ms")
      case False
      with Cons.prems Cons.IH p Some show ?thesis by simp
    next
      case True
      obtain r1 s1 where w: "write_chunk sd sha io dg ix c s = (r1, s1)" by fastforce
      have ok1: "store_ok sd sha s1" "keeps sd {} s s1" using write_chunk_ok [OF Cons.prems(1) w] by simp_all
      have "(isl r1 \<and> s' = s1) \<or> (\<exists>st'. put_chunks sd sha io dg ms cs st' s1 = (r, s'))"
        using Cons.prems(2) p Some True w by (cases r1) (auto split: bool.splits)
      then show ?thesis using ok1 Cons.IH [OF ok1(1)] keeps_trans [of sd "{}" s s1 "{}" s'] by auto
    qed
  qed
qed simp

lemma put_bytes_ok:
  assumes ok: "store_ok sd sha s" and sd: "serde_ok sd" and p: "put_bytes sd sha io bs fmt pol s = (r, s')"
  shows "store_ok sd sha s' \<and> keeps sd {} s s'"
proof (cases "build_manifest sha s bs fmt pol")
  case (Inr m)
  show ?thesis
  proof (cases "has_content s (cm_content_id m)")
    case False
    let ?dg = "cid_digest (cm_content_id m)"
    let ?st = "\<lparr>us_uploaded_chunks = 0, us_reused_chunks = 0, us_bytes_uploaded = 0\<rparr>"
    obtain r1 s1 where b: "begin_upload sd sha io m s = (r1, s1)" by fastforce
    have ok1: "store_ok sd sha s1" "keeps sd {} s s1" using begin_upload_ok [OF ok sd b] by simp_all
    show ?thesis
    proof (cases r1)
      case (Inl e)
      then show ?thesis using p Inr False b ok1 by (simp add: put_bytes_def)
    next
      case ms: (Inr ms)
      obtain r2 s2 where c: "put_chunks sd sha io ?dg ms (enumerate 0 (chunks_of (cs_chunk_size s1) bs)) ?st s1 = (r2, s2)"
        by fastforce
      have ok2: "store_ok sd sha s2" "keeps sd {} s1 s2" using put_chunks_ok [OF ok1(1) c] by simp_all
      have k2: "keeps sd {} s s2" using keeps_trans [OF ok1(2) ok2(2)] by simp
      obtain r3 s3 where f: "complete_upload sd sha io ?dg s2 = (r3, s3)" by fastforce
      have ok3: "store_ok sd sha s3" "keeps sd {} s2 s3" using complete_upload_ok [OF ok2(1) sd f] by simp_all
      have k3: "keeps sd {} s s3" using keeps_trans [OF k2 ok3(2)] by simp
      have "s' = s2 \<or> s' = s3"
        using p Inr False b ms c f by (auto simp: put_bytes_def split: sum.splits)
      then show ?thesis using ok2(1) ok3(1) k2 k3 by blast
    qed
  qed (use p Inr ok in \<open>simp add: put_bytes_def\<close>)
qed (use p ok in \<open>simp add: put_bytes_def\<close>)

lemma referenced_from_Inr:
  "referenced_from sd io d names = Inr R \<Longrightarrow> name \<in> set names \<Longrightarrow> fmlookup d name = Some bs \<Longrightarrow>
     from_slice sd bs = Some m \<Longrightarrow> ch_digest ` set (cm_chunks m) \<subseteq> R"
  by (induction names arbitrary: R) (auto simp: bind_result_Inr read_json_Inr split: if_splits)

lemma sweep_chunks_lookup:
  "sweep_chunks io R names d = (r, d') \<Longrightarrow>
     fmlookup d' k = fmlookup d k \<or> (k \<notin> R \<and> fmlookup d' k = None)"
proof (induction names arbitrary: d)
  case (Cons n names)
  then show ?case using Cons.IH [of "fmdrop n d"] by (auto split: if_splits)
qed simp

lemma remove_content_ok:
  assumes ok: "store_ok sd sha s" and rm: "remove_content sd io cid s = (r, s')"
  shows "store_ok sd sha s' \<and> keeps sd {cid_digest cid} s s'"
proof -
  let ?n = "json_name (cid_digest cid)"
  define s1 where "s1 = s\<lparr>cs_manifests := fmdrop ?n (cs_manifests s)\<rparr>"
  have cm: "committed sd s1 x = (if x = cid_digest cid then None else committed sd s x)" for x
    by (auto simp: s1_def committed_def)
  have ok1: "store_ok sd sha s1"
    unfolding store_ok_def
  proof (intro conjI allI impI)
    fix x assume "bt_contains (cs_manifests s1) (json_name x)"
    then show "\<exists>m. committed sd s1 x = Some m \<and> manifest_ok s1 x m \<and> content_complete sha (cs_chunks s1) m"
      using store_okD(2) [OF ok, of x] unfolding cm by (auto simp: s1_def bt_contains_def split: if_splits)
  next
    fix x m m' assume "pending sd s1 x = Some m" "committed sd s1 x = Some m'"
    then show "m = m'" using store_okD(3) [OF ok] unfolding cm by (auto simp: s1_def split: if_splits)
  qed (use store_okD(1,4) [OF ok] in \<open>auto simp: s1_def\<close>)
  have k1: "keeps sd {cid_digest cid} s s1" using cm by (simp add: keeps_def same_chunks_def s1_def)
  have chunks: "cs_chunks s1 = cs_chunks s" by (simp add: s1_def)
  consider "s' = s" | "s' = s1" | R d r' where "referenced_chunks sd io s1 = Inr R"
      "sweep_chunks io R (bt_keys (cs_chunks s)) (cs_chunks s) = (r', d)" "s' = s1\<lparr>cs_chunks := d\<rparr>"
    using rm unfolding remove_content_def Let_def s1_def [symmetric] chunks
    by (auto split: if_splits sum.splits prod.splits)
  then show ?thesis
  proof cases
    case 3
    have "store_ok sd sha s' \<and> keeps sd {} s1 s'"
      unfolding 3(3)
    proof (rule store_ok_chunks [OF ok1])
      fix x m assume m: "committed sd s1 x = Some m"
      then obtain bs where bs: "fmlookup (cs_manifests s1) (json_name x) = Some bs" "from_slice sd bs = Some m"
        by (auto simp: committed_def bind_eq_Some_conv)
      then have "json_name x \<in> set (bt_keys (cs_manifests s1))" by (simp add: fmlookup_dom_iff)
      then have "ch_digest ` set (cm_chunks m) \<subseteq> R"
        using 3(1) referenced_from_Inr bs by (auto simp: referenced_chunks_def split: if_splits)
      then show "same_chunks (cs_chunks s1) d m"
        using sweep_chunks_lookup [OF 3(2)] by (auto simp: same_chunks_def s1_def)
    next
      fix x bs assume "validate_digest x = Inr ()" "fmlookup d x = Some bs"
      then show "sha256_hex sha bs = x"
        using sweep_chunks_lookup [OF 3(2), of x] store_okD(4) [OF ok] by auto
    qed
    then show ?thesis using keeps_trans [OF k1] by fastforce
  qed (use ok ok1 k1 in simp_all)
qed

end
