(* ===== verification/Content_Properties.thy ===== *)
theory Content_Properties
  imports Content_Store
begin

text \<open>
  The properties of the content store: what is committed can be read back, also after other
  contents that share its chunks are removed; an upload that was interrupted can be finished;
  and the transfer queue is a bounded first-in first-out queue.
\<close>

section \<open>Cutting into chunks\<close>

lemma chunks_of_Nil [simp]: "chunks_of n [] = []"
  by (simp add: chunks_of.simps)

lemma concat_chunks_of: "0 < n \<Longrightarrow> concat (chunks_of n xs) = xs"
proof (induction n xs rule: chunks_of.induct)
  case (1 n xs)
  then show ?case by (cases "xs = []") (simp_all add: chunks_of.simps [of n xs])
qed

lemma chunks_of_sizes: "c \<in> set (chunks_of n xs) \<Longrightarrow> c \<noteq> [] \<and> length c \<le> n"
proof (induction n xs rule: chunks_of.induct)
  case (1 n xs)
  then show ?case by (auto simp: chunks_of.simps [of n xs] split: if_splits)
qed

lemma index_u32_small: "i < 2 ^ 32 \<Longrightarrow> index_u32 i = of_nat i \<and> unat (of_nat i :: u32) = i"
  by (simp add: index_u32_def try_u32_def unat_of_nat)

definition descriptors :: "(bytes \<Rightarrow> bytes) \<Rightarrow> nat \<Rightarrow> bytes list \<Rightarrow> ChunkDescriptor list" where
  "descriptors sha i cs = map (describe_chunk sha) (enumerate i cs)"

lemma descriptors_simps [simp]:
  "descriptors sha i [] = []"
  "descriptors sha i (c # cs) = describe_chunk sha (i, c) # descriptors sha (Suc i) cs"
  by (simp_all add: descriptors_def)

lemma length_descriptors [simp]: "length (descriptors sha i cs) = length cs"
  by (simp add: descriptors_def)

lemma nth_descriptors: "k < length cs \<Longrightarrow> descriptors sha i cs ! k = describe_chunk sha (i + k, cs ! k)"
  by (simp add: descriptors_def nth_enumerate_eq)

lemma describe_chunk_simps [simp]:
  "ch_index (describe_chunk sha (i, c)) = index_u32 i"
  "ch_digest (describe_chunk sha (i, c)) = sha256_hex sha c"
  "ch_size (describe_chunk sha (i, c)) = of_nat (length c)"
  by (simp_all add: describe_chunk_def)

lemma validate_descriptors:
  assumes sha: "\<forall>x. length (sha x) = 32" and sizes: "\<forall>c \<in> set cs. c \<noteq> [] \<and> length c \<le> n" and n: "n < 2 ^ 64"
    and len: "i + length cs \<le> 2 ^ 32" and tot: "unat t + length (concat cs) < 2 ^ 64"
  shows "validate_chunks (of_nat n) i t (descriptors sha i cs) = Inr (t + of_nat (length (concat cs)))"
  using sizes len tot
proof (induction cs arbitrary: i t)
  case (Cons c cs)
  have c: "0 < length c" "length c \<le> n" using Cons.prems(1) by auto
  then have u: "unat (of_nat (length c) :: u64) = length c" using n by (simp add: unat_of_nat)
  have size: "(of_nat (length c) :: u64) \<noteq> 0" using c u by (metis less_numeral_extra(3) unat_0)
  have "(of_nat (length c) :: u64) \<le> of_nat n" using c n u by (simp add: word_le_nat_alt unat_of_nat)
  moreover have "unat (index_u32 i) = i" using index_u32_small [of i] Cons.prems(2) by simp
  moreover have sum: "unat t + unat (of_nat (length c) :: u64) < 2 ^ 64" using Cons.prems(3) u by simp
  moreover have "unat (t + of_nat (length c)) = unat t + length c" using sum u by (simp add: unat_word_ariths)
  then have "validate_chunks (of_nat n) (Suc i) (t + of_nat (length c)) (descriptors sha (Suc i) cs)
      = Inr (t + of_nat (length c) + of_nat (length (concat cs)))"
    using Cons.prems by (intro Cons.IH) auto
  ultimately show ?case
    using sha size by (simp add: validate_sha256_hex checked_add_def add.assoc del: of_nat_add) simp
qed simp

lemma build_manifest_ok:
  assumes "cs_chunk_size s = n" and "0 < n" and "n < 2 ^ 64" and "\<forall>x. length (sha x) = 32" and "length bs < 2 ^ 64"
    and "length (chunks_of n bs) \<le> cs_max_chunks s" and "cs_max_chunks s < 2 ^ 32 - 1"
  obtains m where "build_manifest sha s bs fmt pol = Inr m" and "cm_chunks m = descriptors sha 0 (chunks_of n bs)"
    and "validate_manifest s m = Inr ()" and "cid_digest (cm_content_id m) = sha256_hex sha bs"
    and "cid_size (cm_content_id m) = of_nat (length bs)"
proof -
  let ?cs = "chunks_of n bs"
  let ?ds = "descriptors sha 0 ?cs"
  define m where "m = \<lparr>cm_content_id = \<lparr>cid_algorithm = ''sha256'', cid_digest = sha256_hex sha bs,
       cid_size = of_nat (length bs), cid_format = fmt\<rparr>, cm_chunk_size = of_nat n, cm_chunks = ?ds, cm_policy = pol\<rparr>"
  have "ch_index d \<noteq> - 1" if mem: "d \<in> set ?ds" for d
  proof -
    obtain k where k: "k < length ?cs" "d = ?ds ! k"
      using mem unfolding in_set_conv_nth length_descriptors by blast
    then have "ch_index d = index_u32 k" by (simp add: nth_descriptors)
    moreover have "k < 2 ^ 32 - 1" using k assms(6,7) by simp
    ultimately have "unat (ch_index d) = k" "k < 2 ^ 32 - 1" using index_u32_small [of k] by simp_all
    then show ?thesis using unat_minus_one_word_pow [where 'a = 32] by auto
  qed
  then have b: "build_manifest sha s bs fmt pol = Inr m"
    using assms(1,6) by (auto simp: build_manifest_def m_def descriptors_def [symmetric] list_ex_iff Let_def)
  have "validate_chunks (of_nat n) 0 0 ?ds = Inr (0 + of_nat (length (concat ?cs)))"
    using assms chunks_of_sizes [of _ n bs] by (intro validate_descriptors) (auto simp: concat_chunks_of)
  moreover have "bs = []" if zero: "(of_nat (length bs) :: u64) = 0"
    using arg_cong [OF zero, of unat] assms(5) by (simp add: unat_of_nat)
  ultimately have "validate_manifest s m = Inr ()"
    using assms by (auto simp: validate_manifest_def m_def validate_sha256_hex concat_chunks_of)
  then show ?thesis using that [OF b] by (simp add: m_def)
qed


section \<open>An upload completes\<close>

text \<open>No other bytes have the digest of these; the hash function is a parameter.\<close>

definition collision_free :: "(bytes \<Rightarrow> bytes) \<Rightarrow> bytes \<Rightarrow> bool" where
  "collision_free sha c \<longleftrightarrow> (\<forall>x. sha256_hex sha x = sha256_hex sha c \<longrightarrow> x = c)"

definition write_ok :: file_write where
  "write_ok = \<lparr>fw_open = True, fw_torn = None, fw_sync = True, fw_rename = True\<rparr>"

definition store_io_ok :: store_io where
  "store_io_ok = \<lparr>si_read = (\<lambda>_ _. True), si_write = (\<lambda>_ _. write_ok), si_remove = (\<lambda>_ _. True),
                  si_list = (\<lambda>_. True), si_entry = (\<lambda>_ _. True)\<rparr>"

lemma store_io_ok_simps [simp]:
  "si_read store_io_ok dir n" "si_write store_io_ok dir n = write_ok" "si_remove store_io_ok dir n"
  by (simp_all add: store_io_ok_def)

lemma write_ok_simps [simp]:
  "atomic_bytes_write write_ok name bs sync d = (Inr (), fmupd name bs (fmdrop (tmp_name name) d))"
  by (simp add: atomic_bytes_write_def write_ok_def)

text \<open>The state between the start of the upload of \<open>m\<close> and its end.\<close>

definition uploading :: "ContentManifest serde \<Rightarrow> (bytes \<Rightarrow> bytes) \<Rightarrow> ContentManifest \<Rightarrow> ContentStore \<Rightarrow> bool" where
  "uploading sd sha m s \<longleftrightarrow> store_ok sd sha s \<and> pending sd s (cid_digest (cm_content_id m)) = Some m"

definition present_grows :: "(bytes \<Rightarrow> bytes) \<Rightarrow> ContentManifest \<Rightarrow> ContentStore \<Rightarrow> ContentStore \<Rightarrow> bool" where
  "present_grows sha m s s' \<longleftrightarrow>
     (\<forall>c \<in> set (cm_chunks m). chunk_present sha (cs_chunks s) c \<longrightarrow> chunk_present sha (cs_chunks s') c)"

lemma uploading_ok: "uploading sd sha m s \<Longrightarrow> manifest_ok s (cid_digest (cm_content_id m)) m"
  by (auto simp: uploading_def intro: store_ok_pending)

lemma present_if_contained:
  assumes up: "uploading sd sha m s" and mem: "c \<in> set (cm_chunks m)" and c: "c = describe_chunk sha (k, x)"
    and free: "collision_free sha x" and "bt_contains (cs_chunks s) (ch_digest c)"
  shows "chunk_present sha (cs_chunks s) c"
proof -
  obtain bs where bs: "fmlookup (cs_chunks s) (ch_digest c) = Some bs" using assms(5) by (auto simp: bt_contains_def)
  have "validate_digest (ch_digest c) = Inr ()" using manifest_ok_digests [OF uploading_ok [OF up] mem] .
  then have "sha256_hex sha bs = ch_digest c" using store_okD(4) up bs by (auto simp: uploading_def)
  then have "bs = x" using free c by (simp add: collision_free_def)
  with bs c show ?thesis by (auto simp: chunk_present_def matches_def)
qed

lemma write_chunk_succeeds:
  assumes up: "uploading sd sha m s" and i: "i < length (cm_chunks m)" "i < 2 ^ 32"
    and c: "cm_chunks m ! i = describe_chunk sha (i, x)" and free: "collision_free sha x"
  obtains b s' where "write_chunk sd sha store_io_ok (cid_digest (cm_content_id m)) (of_nat i) x s = (Inr b, s')"
    and "uploading sd sha m s'" and "present_grows sha m s s'" and "chunk_present sha (cs_chunks s') (cm_chunks m ! i)"
proof -
  let ?c = "cm_chunks m ! i" and ?dg = "cid_digest (cm_content_id m)"
  have mem: "?c \<in> set (cm_chunks m)" using i by simp
  have ix: "ch_index ?c = of_nat i" "unat (of_nat i :: u32) = i"
    using c index_u32_small [OF i(2)] by simp_all
  then have fd: "find_descriptor m (of_nat i) = Some ?c" using i by (simp add: find_descriptor_def)
  have vd: "validate_digest ?dg = Inr ()"
    using uploading_ok [OF up] by (auto simp: manifest_ok_def intro: validate_manifest_digest)
  have pm: "pending_manifest sd store_io_ok s ?dg = Inr m"
    using up by (auto simp: uploading_def pending_def pending_manifest_def read_json_Inr bind_eq_Some_conv)
  have mt: "ch_size ?c = of_nat (length x)" "ch_digest ?c = sha256_hex sha x" using c by simp_all
  obtain b s' where w: "write_chunk sd sha store_io_ok ?dg (of_nat i) x s = (Inr b, s')"
  proof (cases "bt_contains (cs_chunks s) (ch_digest ?c)")
    case True
    then have "verify_file sha True ?c (cs_chunks s) = Inr ()"
      using present_if_contained [OF up mem c free] by (simp add: verify_file_Inr chunk_present_def)
    with True vd pm fd mt show ?thesis by (intro that [of False s]) (simp add: write_chunk_def)
  next
    case False
    with vd pm fd mt show ?thesis
      by (intro that [of True "s\<lparr>cs_chunks := fmupd (ch_digest ?c) x (fmdrop (tmp_name (ch_digest ?c)) (cs_chunks s))\<rparr>"])
         (simp add: write_chunk_def)
  qed
  have ok': "store_ok sd sha s'" using write_chunk_ok [OF _ w] up by (simp add: uploading_def)
  show ?thesis
  proof (rule write_chunk_cases [OF w])
    fix m' c' assume s': "s' = s" and "pending sd s ?dg = Some m'" "find_descriptor m' (of_nat i) = Some c'"
        "chunk_present sha (cs_chunks s) c'"
    then have "chunk_present sha (cs_chunks s) ?c" using up fd by (simp add: uploading_def)
    with s' up show ?thesis by (intro that [OF w]) (simp_all add: present_grows_def)
  next
    fix m' c' d
    assume a: "pending sd s ?dg = Some m'" "find_descriptor m' (of_nat i) = Some c'" "matches sha c' x"
        "\<not> bt_contains (cs_chunks s) (ch_digest c')" and s': "s' = s\<lparr>cs_chunks := d\<rparr>"
      and d: "\<And>k. (\<And>a. k \<noteq> tmp_name a) \<Longrightarrow>
             fmlookup d k = (if k = ch_digest c' \<and> Inr b = (Inr True :: bool result) then Some x else fmlookup (cs_chunks s) k)"
      and b: "isl (Inr b :: bool result) \<or> Inr b = (Inr True :: bool result)"
    then have c': "c' = ?c" using up fd by (simp add: uploading_def)
    have look: "fmlookup d (ch_digest e) = (if ch_digest e = ch_digest ?c then Some x else fmlookup (cs_chunks s) (ch_digest e))"
      if e: "e \<in> set (cm_chunks m)" for e
      using d [of "ch_digest e"] tmp_not_digest [OF manifest_ok_digests [OF uploading_ok [OF up] e]] b
      unfolding c' by (metis isl_def sum.distinct(1))
    have "chunk_present sha d ?c" using look [OF mem] a(3) unfolding c' by (simp add: chunk_present_def)
    moreover have "chunk_present sha d e" if e: "e \<in> set (cm_chunks m)" "chunk_present sha (cs_chunks s) e" for e
    proof -
      have "ch_digest e \<noteq> ch_digest ?c" using e(2) a(4) unfolding c' by (auto simp: chunk_present_def bt_contains_def)
      then show ?thesis using look [OF e(1)] e(2) by (simp add: chunk_present_def)
    qed
    ultimately show ?thesis
      using up ok' by (intro that [OF w]) (simp_all add: s' uploading_def present_grows_def)
  qed simp
qed

lemma present_grows_trans: "present_grows sha m s s' \<Longrightarrow> present_grows sha m s' s'' \<Longrightarrow> present_grows sha m s s''"
  by (simp add: present_grows_def)

lemma put_chunks_succeeds:
  assumes "uploading sd sha m s" and "i + length cs = length (cm_chunks m)" and "length (cm_chunks m) < 2 ^ 32"
    and "\<forall>k < length cs. cm_chunks m ! (i + k) = describe_chunk sha (i + k, cs ! k)"
    and "\<forall>x \<in> set cs. collision_free sha x"
    and "\<forall>k < length (cm_chunks m). k < i \<or> of_nat k \<notin> set ms \<longrightarrow> chunk_present sha (cs_chunks s) (cm_chunks m ! k)"
  shows "\<exists>st' s'. put_chunks sd sha store_io_ok (cid_digest (cm_content_id m)) ms (enumerate i cs) st s = (Inr st', s')
    \<and> uploading sd sha m s' \<and> (\<forall>c \<in> set (cm_chunks m). chunk_present sha (cs_chunks s') c)"
  using assms
proof (induction cs arbitrary: i st s)
  case Nil
  then have "\<forall>c \<in> set (cm_chunks m). chunk_present sha (cs_chunks s) c" by (auto simp: in_set_conv_nth)
  with Nil show ?case by simp
next
  case (Cons x cs)
  have i: "i < length (cm_chunks m)" "i < 2 ^ 32" using Cons.prems(2,3) by auto
  have ix: "try_u32 i = Some (of_nat i)" using i(2) by (simp add: try_u32_def)
  have tl: "Suc i + length cs = length (cm_chunks m)"
      "\<forall>k < length cs. cm_chunks m ! (Suc i + k) = describe_chunk sha (Suc i + k, cs ! k)"
      "\<forall>x \<in> set cs. collision_free sha x"
    using Cons.prems(2,4,5) by (auto dest: spec [where x = "Suc k" for k])
  show ?case
  proof (cases "of_nat i \<in> set ms")
    case False
    have "\<forall>k < length (cm_chunks m). k < Suc i \<or> of_nat k \<notin> set ms \<longrightarrow> chunk_present sha (cs_chunks s) (cm_chunks m ! k)"
      using Cons.prems(6) False by (auto simp: less_Suc_eq)
    from Cons.IH [OF Cons.prems(1) tl(1) Cons.prems(3) tl(2,3) this] ix False show ?thesis by simp
  next
    case True
    have "cm_chunks m ! i = describe_chunk sha (i, x)" "collision_free sha x"
      using Cons.prems(4,5) by (auto dest: spec [where x = 0])
    from write_chunk_succeeds [OF Cons.prems(1) i this] obtain b s1 where
      w: "write_chunk sd sha store_io_ok (cid_digest (cm_content_id m)) (of_nat i) x s = (Inr b, s1)"
      and up: "uploading sd sha m s1" and grow: "present_grows sha m s s1"
      and here: "chunk_present sha (cs_chunks s1) (cm_chunks m ! i)" by metis
    have "\<forall>k < length (cm_chunks m). k < Suc i \<or> of_nat k \<notin> set ms \<longrightarrow> chunk_present sha (cs_chunks s1) (cm_chunks m ! k)"
      using Cons.prems(6) grow here by (auto simp: less_Suc_eq present_grows_def)
    note next' = Cons.IH [OF up tl(1) Cons.prems(3) tl(2,3) this]
    show ?thesis using ix True w next' by (cases b) simp_all
  qed
qed


lemma total_bytes_exact:
  "\<forall>c \<in> set cs. fmlookup d (ch_digest c) \<noteq> None \<Longrightarrow>
   unat t + length (concat (map (\<lambda>c. unwrap_or [] (fmlookup d (ch_digest c))) cs)) < 2 ^ 64 \<Longrightarrow>
   total_bytes io d t cs = t + of_nat (length (concat (map (\<lambda>c. unwrap_or [] (fmlookup d (ch_digest c))) cs)))"
proof (induction cs arbitrary: t)
  case (Cons c cs)
  let ?b = "unwrap_or [] (fmlookup d (ch_digest c))"
  have u: "unat (of_nat (length ?b) :: u64) = length ?b" using Cons.prems(2) by (simp add: unat_of_nat)
  then have s: "sat_add t (of_nat (length ?b)) = t + of_nat (length ?b)" "unat (t + of_nat (length ?b)) = unat t + length ?b"
    using Cons.prems(2) by (simp_all add: sat_add_def unat_word_ariths)
  have "total_bytes io d (t + of_nat (length ?b)) cs
      = t + of_nat (length ?b) + of_nat (length (concat (map (\<lambda>c. unwrap_or [] (fmlookup d (ch_digest c))) cs)))"
    using Cons.prems s(2) by (intro Cons.IH) auto
  then show ?case using s(1) by (simp add: add.assoc)
qed simp

lemma content_bytes_chunks:
  assumes "cm_chunks m = descriptors sha i cs" and "\<forall>x \<in> set cs. collision_free sha x"
    and "\<forall>c \<in> set (cm_chunks m). chunk_present sha d c"
  shows "content_bytes d m = concat cs"
proof -
  have "concat (map (\<lambda>c. unwrap_or [] (fmlookup d (ch_digest c))) (descriptors sha i cs)) = concat cs"
    using assms(2) assms(3)[unfolded assms(1)]
  proof (induction cs arbitrary: i)
    case (Cons x cs)
    then obtain b where "fmlookup d (sha256_hex sha x) = Some b" "matches sha (describe_chunk sha (i, x)) b"
      by (auto simp: chunk_present_def)
    moreover have "b = x" using calculation(2) Cons.prems(1) by (simp add: matches_def collision_free_def)
    ultimately show ?case using Cons by simp
  qed simp
  then show ?thesis using assms(1) by (simp add: content_bytes_def)
qed

lemma complete_upload_succeeds:
  assumes up: "uploading sd sha m s" and pres: "\<forall>c \<in> set (cm_chunks m). chunk_present sha (cs_chunks s) c"
    and bs: "content_bytes (cs_chunks s) m = bs" and "cid_size (cm_content_id m) = of_nat (length bs)"
    and "cid_digest (cm_content_id m) = sha256_hex sha bs" and len: "length bs < 2 ^ 64" and enc: "to_vec sd m \<noteq> None"
  obtains s' where "complete_upload sd sha store_io_ok (cid_digest (cm_content_id m)) s = (Inr m, s')"
proof -
  let ?dg = "cid_digest (cm_content_id m)" and ?d = "cs_chunks s"
  have vd: "validate_digest ?dg = Inr ()"
    using uploading_ok [OF up] by (auto simp: manifest_ok_def intro: validate_manifest_digest)
  have pm: "pending_manifest sd store_io_ok s ?dg = Inr m"
    using up by (auto simp: uploading_def pending_def pending_manifest_def read_json_Inr bind_eq_Some_conv)
  have full: "\<forall>c \<in> set (cm_chunks m). fmlookup ?d (ch_digest c) \<noteq> None" using pres by (auto simp: chunk_present_def)
  have "missing_from sha store_io_ok ?d (cm_chunks m)
      = Inr (map ch_index (filter (\<lambda>c. \<not> bt_contains ?d (ch_digest c)) (cm_chunks m)))"
    using pres by (intro missing_from_ok) auto
  also have "filter (\<lambda>c. \<not> bt_contains ?d (ch_digest c)) (cm_chunks m) = []"
    using full by (auto simp: filter_empty_conv bt_contains_def)
  finally have ms: "missing_chunks sha store_io_ok s m = Inr []" by (simp add: missing_chunks_def)
  have cc: "concat_chunks store_io_ok ?d (cm_chunks m) = Inr bs"
    using concat_chunks_ok [of store_io_ok "cm_chunks m" sha ?d] pres bs by (simp add: content_bytes_def)
  have "total_bytes store_io_ok ?d 0 (cm_chunks m) = 0 + of_nat (length bs)"
    using total_bytes_exact [OF full, of 0] bs len by (simp add: content_bytes_def)
  with vd pm ms cc assms(4,5) enc
  have "\<exists>s'. complete_upload sd sha store_io_ok ?dg s = (Inr m, s')"
    by (auto simp: complete_upload_def atomic_json_write_def remove_upload_def split: option.splits)
  then show ?thesis using that by blast
qed


lemma begin_upload_succeeds:
  assumes ok: "store_ok sd sha s" and sd: "serde_ok sd" and v: "validate_manifest s m = Inr ()"
    and new: "\<not> has_content s (cm_content_id m)" and enc: "to_vec sd m \<noteq> None"
    and cs: "cm_chunks m = descriptors sha 0 cs" and free: "\<forall>x \<in> set cs. collision_free sha x"
    and len: "length cs < 2 ^ 32"
  obtains ms s' where "begin_upload sd sha store_io_ok m s = (Inr ms, s')" and "uploading sd sha m s'"
    and "\<forall>k < length (cm_chunks m). of_nat k \<notin> set ms \<longrightarrow> chunk_present sha (cs_chunks s') (cm_chunks m ! k)"
    and "cs_chunk_size s' = cs_chunk_size s"
proof -
  let ?n = "json_name (cid_digest (cm_content_id m))"
  obtain b where b: "to_vec sd m = Some b" using enc by auto
  define s1 where "s1 = s\<lparr>cs_uploads := fmupd ?n b (fmdrop (tmp_name ?n) (cs_uploads s))\<rparr>"
  have bu: "begin_upload sd sha store_io_ok m s = (missing_chunks sha store_io_ok s1 m, s1)"
    using v new b by (simp add: begin_upload_def atomic_json_write_def s1_def Let_def)
  have ok1: "store_ok sd sha s1" using begin_upload_ok [OF ok sd bu] by simp
  have up: "uploading sd sha m s1"
    using ok1 b sd by (simp add: uploading_def pending_def s1_def serde_okD)
  have desc: "cm_chunks m ! k = describe_chunk sha (k, cs ! k) \<and> ch_index (cm_chunks m ! k) = of_nat k"
    if k: "k < length (cm_chunks m)" for k
    using k cs len index_u32_small [of k] by (simp add: nth_descriptors)
  have pres: "chunk_present sha (cs_chunks s1) c"
    if mem: "c \<in> set (cm_chunks m)" and have': "bt_contains (cs_chunks s1) (ch_digest c)" for c
  proof -
    obtain k where k: "k < length (cm_chunks m)" "c = cm_chunks m ! k" using mem by (auto simp: in_set_conv_nth)
    then have "c = describe_chunk sha (k, cs ! k)" "collision_free sha (cs ! k)" using desc cs free by auto
    then show ?thesis using present_if_contained [OF up mem _ _ have'] by simp
  qed
  have ms: "missing_chunks sha store_io_ok s1 m
      = Inr (map ch_index (filter (\<lambda>c. \<not> bt_contains (cs_chunks s1) (ch_digest c)) (cm_chunks m)))"
    unfolding missing_chunks_def by (rule missing_from_ok) (use pres in auto)
  show ?thesis
  proof (rule that [OF bu [unfolded ms] up])
    show "\<forall>k < length (cm_chunks m). of_nat k \<notin> set (map ch_index (filter (\<lambda>c. \<not> bt_contains (cs_chunks s1) (ch_digest c))
        (cm_chunks m))) \<longrightarrow> chunk_present sha (cs_chunks s1) (cm_chunks m ! k)"
    proof (intro allI impI)
      fix k assume k: "k < length (cm_chunks m)" and n: "of_nat k \<notin> set (map ch_index
          (filter (\<lambda>c. \<not> bt_contains (cs_chunks s1) (ch_digest c)) (cm_chunks m)))"
      have "bt_contains (cs_chunks s1) (ch_digest (cm_chunks m ! k))"
      proof (rule ccontr)
        assume "\<not> bt_contains (cs_chunks s1) (ch_digest (cm_chunks m ! k))"
        then have "ch_index (cm_chunks m ! k) \<in> ch_index ` set (filter (\<lambda>c. \<not> bt_contains (cs_chunks s1) (ch_digest c)) (cm_chunks m))"
          using nth_mem [OF k] by simp
        then show False using n unfolding set_map conjunct2 [OF desc [OF k]] by blast
      qed
      then show "chunk_present sha (cs_chunks s1) (cm_chunks m ! k)" using pres k by simp
    qed
  qed (simp add: s1_def)
qed

section \<open>Runs\<close>

datatype store_op =
    BeginUploadOp ContentManifest
  | WriteChunkOp string u32 bytes
  | CompleteUploadOp string
  | PutBytesOp bytes string ResourcePolicy
  | RemoveContentOp ContentId

fun store_step :: "ContentManifest serde \<Rightarrow> (bytes \<Rightarrow> bytes) \<Rightarrow> store_io \<times> store_op \<Rightarrow> ContentStore \<Rightarrow> ContentStore" where
  "store_step sd sha (io, BeginUploadOp m) s = snd (begin_upload sd sha io m s)"
| "store_step sd sha (io, WriteChunkOp dg i bs) s = snd (write_chunk sd sha io dg i bs s)"
| "store_step sd sha (io, CompleteUploadOp dg) s = snd (complete_upload sd sha io dg s)"
| "store_step sd sha (io, PutBytesOp bs fmt pol) s = snd (put_bytes sd sha io bs fmt pol s)"
| "store_step sd sha (io, RemoveContentOp cid) s = snd (remove_content sd io cid s)"

definition run_store ::
  "ContentManifest serde \<Rightarrow> (bytes \<Rightarrow> bytes) \<Rightarrow> (store_io \<times> store_op) list \<Rightarrow> ContentStore \<Rightarrow> ContentStore" where
  "run_store sd sha ops s = fold (store_step sd sha) ops s"

fun removed_digest :: "store_io \<times> store_op \<Rightarrow> string set" where
  "removed_digest (io, RemoveContentOp cid) = {cid_digest cid}"
| "removed_digest _ = {}"

lemma store_step_ok:
  assumes "store_ok sd sha s" and "serde_ok sd"
  shows "store_ok sd sha (store_step sd sha x s) \<and> keeps sd (removed_digest x) s (store_step sd sha x s)"
proof (cases x)
  case (Pair io op)
  show ?thesis
    using begin_upload_ok [OF assms] write_chunk_ok [OF assms(1)] complete_upload_ok [OF assms]
      put_bytes_ok [OF assms] remove_content_ok [OF assms(1)]
    unfolding Pair by (cases op) (simp_all, (metis prod.collapse)+)
qed

lemma run_store_ok:
  "store_ok sd sha s \<Longrightarrow> serde_ok sd \<Longrightarrow>
     store_ok sd sha (run_store sd sha ops s) \<and> keeps sd (\<Union> (removed_digest ` set ops)) s (run_store sd sha ops s)"
proof (induction ops arbitrary: s)
  case (Cons x ops)
  note step = store_step_ok [OF Cons.prems, of x]
  from Cons.IH [OF _ Cons.prems(2)] step keeps_trans show ?case by (fastforce simp: run_store_def)
qed (simp add: run_store_def)

lemma store_open_ok:
  assumes "store_open n create fmempty fmempty fmempty = Inr s"
  shows "store_ok sd sha s \<and> cs_chunk_size s = n \<and> 0 < n \<and> cs_max_chunks s = default_max_chunks"
  using assms by (auto simp: store_open_def store_ok_def bt_contains_def pending_def committed_def split: if_splits)


lemma write_chunk_uploads: "write_chunk sd sha io dg i c s = (r, s') \<Longrightarrow> cs_uploads s' = cs_uploads s"
  by (erule write_chunk_cases) simp_all

lemma put_chunks_uploads: "put_chunks sd sha io dg ms cs st s = (r, s') \<Longrightarrow> cs_uploads s' = cs_uploads s"
proof (induction cs arbitrary: st s)
  case (Cons p cs)
  obtain i c where p: "p = (i, c)" by fastforce
  show ?case
    using Cons.prems Cons.IH p write_chunk_uploads
    by (auto split: option.splits if_splits sum.splits prod.splits bool.splits)
qed simp

lemma put_bytes_committed:
  assumes ok: "store_ok sd sha s" and sd: "serde_ok sd" and new: "\<not> has_content s (cm_content_id m)"
    and p: "put_bytes sd sha io bs fmt pol s = (Inr (m, st), s')"
  shows "committed sd s' (cid_digest (cm_content_id m)) = Some m \<and> cid_digest (cm_content_id m) = sha256_hex sha bs"
proof -
  let ?dg = "cid_digest (cm_content_id m)"
  have bm: "build_manifest sha s bs fmt pol = Inr m"
    using p by (auto simp: put_bytes_def split: sum.splits if_splits prod.splits)
  obtain ms s1 s2 m' st0 where b: "begin_upload sd sha io m s = (Inr ms, s1)"
    and c: "put_chunks sd sha io ?dg ms (enumerate 0 (chunks_of (cs_chunk_size s1) bs)) st0 s1 = (Inr st, s2)"
    and f: "complete_upload sd sha io ?dg s2 = (Inr m', s')"
    using p bm new by (auto simp: put_bytes_def split: sum.splits prod.splits)
  have p1: "pending sd s1 ?dg = Some m"
    by (rule begin_upload_cases [OF b])
       (use new encoded_decodes [OF sd] in \<open>auto simp: pending_def\<close>)
  have ok1: "store_ok sd sha s1" using begin_upload_ok [OF ok sd b] by simp
  have ok2: "store_ok sd sha s2" using put_chunks_ok [OF ok1 c] by simp
  have "cs_uploads s2 = cs_uploads s1" by (rule put_chunks_uploads [OF c])
  then have p2: "pending sd s2 ?dg = Some m" using p1 by (simp add: pending_def)
  have "committed sd s' ?dg = Some m"
    by (rule complete_upload_cases [OF f]) (use p2 encoded_decodes [OF sd] in \<open>auto simp: committed_def\<close>)
  moreover have "?dg = sha256_hex sha bs" using bm by (auto simp: build_manifest_def Let_def split: if_splits)
  ultimately show ?thesis ..
qed

lemma committed_readable:
  assumes "store_ok sd sha s" and "committed sd s dg = Some m" and "\<forall>dir n. si_read io dir n"
  shows "read_content sd sha io s (cm_content_id m) = Inr (content_bytes (cs_chunks s) m)
    \<and> sha256_hex sha (content_bytes (cs_chunks s) m) = dg"
proof -
  obtain bs where "fmlookup (cs_manifests s) (json_name dg) = Some bs" "from_slice sd bs = Some m"
    using assms(2) by (auto simp: committed_def bind_eq_Some_conv)
  with store_ok_committed [OF assms(1,2)] read_content_complete [OF assms(3)] show ?thesis
    by (auto simp: manifest_ok_def content_complete_def)
qed

lemma put_bytes_succeeds:
  assumes ok: "store_ok sd sha s" and sd: "serde_ok sd" and kp: "cs_chunk_size s = n" "0 < n" "cs_max_chunks s = default_max_chunks"
    and n: "n < 2 ^ 64" and sha: "\<forall>x. length (sha x) = 32"
    and free: "\<forall>c \<in> set (chunks_of n bs). collision_free sha c" and len: "length bs < 2 ^ 64"
    and chunks: "length (chunks_of n bs) \<le> default_max_chunks"
    and enc: "\<forall>m. build_manifest sha s bs fmt pol = Inr m \<longrightarrow> to_vec sd m \<noteq> None"
  shows "\<exists>m st s'. put_bytes sd sha store_io_ok bs fmt pol s = (Inr (m, st), s')"
proof -
  have max: "length (chunks_of n bs) \<le> cs_max_chunks s" "cs_max_chunks s < 2 ^ 32 - 1"
    using chunks kp(3) by (simp_all add: default_max_chunks_def)
  obtain m where m: "build_manifest sha s bs fmt pol = Inr m" "cm_chunks m = descriptors sha 0 (chunks_of n bs)"
      "validate_manifest s m = Inr ()" "cid_digest (cm_content_id m) = sha256_hex sha bs"
      "cid_size (cm_content_id m) = of_nat (length bs)"
    using build_manifest_ok [OF kp(1,2) n sha len max] by metis
  have te: "to_vec sd m \<noteq> None" using m(1) enc by blast
  show ?thesis
  proof (cases "has_content s (cm_content_id m)")
    case False
    let ?st = "\<lparr>us_uploaded_chunks = 0, us_reused_chunks = 0, us_bytes_uploaded = 0\<rparr>"
    have lt: "length (chunks_of n bs) < 2 ^ 32" using max by simp
    obtain ms s1 where b: "begin_upload sd sha store_io_ok m s = (Inr ms, s1)" "uploading sd sha m s1"
        "\<forall>k < length (cm_chunks m). of_nat k \<notin> set ms \<longrightarrow> chunk_present sha (cs_chunks s1) (cm_chunks m ! k)"
        "cs_chunk_size s1 = cs_chunk_size s"
      using begin_upload_succeeds [OF ok sd m(3) False te m(2) free lt] by metis
    obtain st s2 where c: "put_chunks sd sha store_io_ok (cid_digest (cm_content_id m)) ms
          (enumerate 0 (chunks_of n bs)) ?st s1 = (Inr st, s2)" "uploading sd sha m s2"
        "\<forall>c \<in> set (cm_chunks m). chunk_present sha (cs_chunks s2) c"
      using put_chunks_succeeds [OF b(2), of 0 "chunks_of n bs" ms ?st] m(2) lt free b(3)
      by (auto simp: nth_descriptors)
    have cb: "content_bytes (cs_chunks s2) m = bs"
      using content_bytes_chunks [OF m(2) free c(3)] kp(2) by (simp add: concat_chunks_of)
    obtain s3 where f: "complete_upload sd sha store_io_ok (cid_digest (cm_content_id m)) s2 = (Inr m, s3)"
      using complete_upload_succeeds [OF c(2,3) cb m(5,4) len te] by metis
    have "put_bytes sd sha store_io_ok bs fmt pol s = (Inr (m, st), s3)"
      using m(1) False b(1,4) c(1) f kp(1) by (simp add: put_bytes_def)
    then show ?thesis by blast
  qed (use m(1) in \<open>simp add: put_bytes_def\<close>)
qed

definition demo_sha :: "bytes \<Rightarrow> bytes" where
  "demo_sha x = replicate 32 (if x = [7] then 1 else 0)"

definition demo_store :: ContentStore where
  "demo_store = \<lparr>cs_chunk_size = 4, cs_max_chunks = default_max_chunks, cs_chunks = fmempty,
                 cs_manifests = fmempty, cs_uploads = fmempty\<rparr>"

definition demo_stored :: ContentManifest where
  "demo_stored = \<lparr>cm_content_id = \<lparr>cid_algorithm = ''sha256'', cid_digest = sha256_hex demo_sha [7],
       cid_size = 1, cid_format = ''text''\<rparr>, cm_chunk_size = 4,
     cm_chunks = [\<lparr>ch_index = 0, ch_digest = sha256_hex demo_sha [7], ch_size = 1\<rparr>], cm_policy = Reconstructible\<rparr>"

abbreviation demo_store_codec :: "ContentManifest serde" where
  "demo_store_codec \<equiv> serde_single demo_stored [9]"

lemma demo_store_facts:
  "serde_ok demo_store_codec" "store_open 4 (\<lambda>_. True) fmempty fmempty fmempty = Inr demo_store"
  "\<forall>x. length (demo_sha x) = 32" "chunks_of 4 [7 :: u8] = [[7]]" "collision_free demo_sha [7]"
proof -
  have n: "replicate 32 v = v # replicate 31 v" for v :: u8
    by (metis Suc_numeral replicate_Suc semiring_norm(2) semiring_norm(8))
  show "chunks_of 4 [7 :: u8] = [[7]]" by (simp add: chunks_of.simps)
  have "x = [7]" if eq: "sha256_hex demo_sha x = sha256_hex demo_sha [7]" for x
  proof (rule ccontr)
    assume "x \<noteq> [7]"
    then have "demo_sha x = 0 # replicate 31 0" "demo_sha [7] = 1 # replicate 31 1"
      using n by (simp_all add: demo_sha_def)
    then have "sha256_hex demo_sha x ! 1 = hex_digit 0" "sha256_hex demo_sha [7] ! 1 = hex_digit 1"
      by (simp_all add: sha256_hex_def hex_string_def hex_byte_def)
    then show False using eq by (simp add: hex_digit_def)
  qed
  then show "collision_free demo_sha [7]" by (simp add: collision_free_def)
qed (simp_all add: store_open_def demo_store_def demo_sha_def)

lemma demo_build: "build_manifest demo_sha demo_store [7] ''text'' Reconstructible = Inr demo_stored"
  by (simp add: build_manifest_def demo_store_def demo_store_facts(4) describe_chunk_def index_u32_def try_u32_def
      default_max_chunks_def demo_stored_def Let_def)

lemma demo_put:
  obtains st s where "put_bytes demo_store_codec demo_sha store_io_ok [7] ''text'' Reconstructible demo_store = (Inr (demo_stored, st), s)"
    and "\<not> has_content demo_store (cm_content_id demo_stored)" and "store_ok demo_store_codec demo_sha s"
    and "committed demo_store_codec s (cid_digest (cm_content_id demo_stored)) = Some demo_stored"
proof -
  have ok: "store_ok demo_store_codec demo_sha demo_store" using store_open_ok [OF demo_store_facts(2)] by blast
  have new: "\<not> has_content demo_store (cm_content_id demo_stored)"
    by (simp add: has_content_def demo_store_def bt_contains_def)
  have "\<exists>m st s'. put_bytes demo_store_codec demo_sha store_io_ok [7] ''text'' Reconstructible demo_store = (Inr (m, st), s')"
    by (rule put_bytes_succeeds [OF ok demo_store_facts(1), where n = 4])
       (use demo_build demo_store_facts in \<open>auto simp: demo_store_def default_max_chunks_def serde_single_def\<close>)
  then obtain st s' where p: "put_bytes demo_store_codec demo_sha store_io_ok [7] ''text'' Reconstructible demo_store = (Inr (demo_stored, st), s')"
    using demo_build by (auto simp: put_bytes_def split: sum.splits if_splits prod.splits)
  show ?thesis
    by (rule that [OF p new conjunct1 [OF put_bytes_ok [OF ok demo_store_facts(1) p]]
          conjunct1 [OF put_bytes_committed [OF ok demo_store_facts(1) new p]]])
qed

section \<open>Properties\<close>

text \<open>
  Claim C24.  A store never commits what it cannot give back: after any sequence of
  operations on a store that was opened empty, whatever reads, writes, renames and removals
  failed on the way, every content with a manifest is read back in full while its files can
  be read, and the bytes have the digest the content is named by.
\<close>

theorem committed_content_readable:
  assumes "serde_ok sd" and "store_open n create fmempty fmempty fmempty = Inr s0"
    and "s = run_store sd sha ops s0" and "has_content s cid" and "\<forall>dir f. si_read io dir f"
  shows "\<exists>m bs. committed_manifest sd io s (cid_digest cid) = Inr m \<and> cid_digest (cm_content_id m) = cid_digest cid
    \<and> read_content sd sha io s (cm_content_id m) = Inr bs \<and> sha256_hex sha bs = cid_digest cid"
proof -
  have ok: "store_ok sd sha s"
    using run_store_ok [OF _ assms(1)] store_open_ok [OF assms(2)] unfolding assms(3) by blast
  obtain m where m: "committed sd s (cid_digest cid) = Some m" "manifest_ok s (cid_digest cid) m"
    using store_okD(2) [OF ok] assms(4) by (auto simp: has_content_def)
  then have "committed_manifest sd io s (cid_digest cid) = Inr m"
    using assms(5) by (auto simp: committed_manifest_def read_json_Inr committed_def bind_eq_Some_conv)
  then show ?thesis using committed_readable [OF ok m(1) assms(5)] m(2) by (auto simp: manifest_ok_def)
qed

theorem committed_content_readable_witness:
  "\<exists>m bs. committed_manifest demo_store_codec store_io_ok
       (run_store demo_store_codec demo_sha [(store_io_ok, PutBytesOp [7] ''text'' Reconstructible)] demo_store)
       (cid_digest (cm_content_id demo_stored)) = Inr m
     \<and> sha256_hex demo_sha bs = cid_digest (cm_content_id demo_stored)"
proof -
  obtain st s where p: "put_bytes demo_store_codec demo_sha store_io_ok [7] ''text'' Reconstructible demo_store = (Inr (demo_stored, st), s)"
    "store_ok demo_store_codec demo_sha s" "committed demo_store_codec s (cid_digest (cm_content_id demo_stored)) = Some demo_stored"
    using demo_put by metis
  then have run: "s = run_store demo_store_codec demo_sha [(store_io_ok, PutBytesOp [7] ''text'' Reconstructible)] demo_store"
    by (simp add: run_store_def)
  have "has_content s (cm_content_id demo_stored)"
    using store_ok_committed(3) [OF p(2,3)] by (simp add: has_content_def)
  from committed_content_readable [OF demo_store_facts(1,2) run this, of store_io_ok] run show ?thesis by auto
qed

text \<open>
  Claim C25.  What was put is what is read: when \<open>put_bytes\<close> stores a content that the store
  did not have, reading it gives exactly these bytes, at once and after any later operations
  with any failures other than the removal of this content; removing other contents that
  share chunks with it does not disturb it.  The digest is assumed to have no collision with
  these bytes.
\<close>

theorem put_content_survives:
  assumes "serde_ok sd" and "store_open n create fmempty fmempty fmempty = Inr s0" and "s = run_store sd sha ops s0"
    and put: "put_bytes sd sha io bs fmt pol s = (Inr (m, st), s1)" and new: "\<not> has_content s (cm_content_id m)"
    and free: "collision_free sha bs"
    and later: "\<forall>x \<in> set later. cid_digest (cm_content_id m) \<notin> removed_digest x" and io: "\<forall>dir f. si_read io' dir f"
  shows "read_content sd sha io' (run_store sd sha later s1) (cm_content_id m) = Inr bs"
proof -
  let ?dg = "cid_digest (cm_content_id m)" and ?s2 = "run_store sd sha later s1"
  have ok: "store_ok sd sha s"
    using run_store_ok [OF _ assms(1)] store_open_ok [OF assms(2)] unfolding assms(3) by blast
  have ok1: "store_ok sd sha s1" using put_bytes_ok [OF ok assms(1) put] by simp
  have c1: "committed sd s1 ?dg = Some m" and dg: "?dg = sha256_hex sha bs"
    using put_bytes_committed [OF ok assms(1) new put] by blast+
  have "sha256_hex sha (content_bytes (cs_chunks s1) m) = ?dg" using committed_readable [OF ok1 c1 io] by simp
  then have bs: "content_bytes (cs_chunks s1) m = bs" using dg free by (simp add: collision_free_def)
  have run: "store_ok sd sha ?s2" "keeps sd (\<Union> (removed_digest ` set later)) s1 ?s2"
    using run_store_ok [OF ok1 assms(1), of later] by simp_all
  have c2: "committed sd ?s2 ?dg = Some m" "same_chunks (cs_chunks s1) (cs_chunks ?s2) m"
    using run(2) c1 later by (auto simp: keeps_def)
  show ?thesis using committed_readable [OF run(1) c2(1) io] same_chunks_bytes [OF c2(2)] bs by simp
qed

theorem put_content_survives_witness:
  "\<exists>st s. put_bytes demo_store_codec demo_sha store_io_ok [7] ''text'' Reconstructible demo_store = (Inr (demo_stored, st), s)
     \<and> read_content demo_store_codec demo_sha store_io_ok
         (run_store demo_store_codec demo_sha
            [(store_io_ok, RemoveContentOp \<lparr>cid_algorithm = ''sha256'', cid_digest = ''x'', cid_size = 0, cid_format = []\<rparr>)] s)
         (cm_content_id demo_stored) = Inr [7]"
proof -
  obtain st s where p: "put_bytes demo_store_codec demo_sha store_io_ok [7] ''text'' Reconstructible demo_store = (Inr (demo_stored, st), s)"
      "\<not> has_content demo_store (cm_content_id demo_stored)"
    using demo_put by metis
  have run: "demo_store = run_store demo_store_codec demo_sha [] demo_store" by (simp add: run_store_def)
  have "length (cid_digest (cm_content_id demo_stored)) = 64"
    by (simp add: demo_stored_def sha256_hex_def demo_store_facts(3))
  then have ne: "cid_digest (cm_content_id demo_stored) \<noteq> ''x''" by auto
  have "read_content demo_store_codec demo_sha store_io_ok
         (run_store demo_store_codec demo_sha
            [(store_io_ok, RemoveContentOp \<lparr>cid_algorithm = ''sha256'', cid_digest = ''x'', cid_size = 0, cid_format = []\<rparr>)] s)
         (cm_content_id demo_stored) = Inr [7]"
    by (rule put_content_survives [OF demo_store_facts(1,2) run p demo_store_facts(5)]) (use ne in simp_all)
  with p(1) show ?thesis by blast
qed

text \<open>
  Claim C26.  An interrupted upload can always be finished: whatever operations ran before
  and wherever they failed, when the file system works again \<open>put_bytes\<close> of any content within
  the limits succeeds, reusing the chunks that are there.  The digest is assumed to have no
  collision with the chunks of the content.
\<close>

theorem upload_completes:
  assumes sd: "serde_ok sd" and opened: "store_open n create fmempty fmempty fmempty = Inr s0"
    and s: "s = run_store sd sha ops s0" and n: "n < 2 ^ 64" and sha: "\<forall>x. length (sha x) = 32"
    and free: "\<forall>c \<in> set (chunks_of n bs). collision_free sha c" and len: "length bs < 2 ^ 64"
    and chunks: "length (chunks_of n bs) \<le> default_max_chunks"
    and enc: "\<forall>m. build_manifest sha s0 bs fmt pol = Inr m \<longrightarrow> to_vec sd m \<noteq> None"
  shows "\<exists>m st s'. put_bytes sd sha store_io_ok bs fmt pol s = (Inr (m, st), s')"
proof -
  have s0: "store_ok sd sha s0" "cs_chunk_size s0 = n" "0 < n" "cs_max_chunks s0 = default_max_chunks"
    using store_open_ok [OF opened] by simp_all
  have ok: "store_ok sd sha s" and kp: "cs_chunk_size s = n" "cs_max_chunks s = default_max_chunks"
    using run_store_ok [OF s0(1) sd, of ops] s0 unfolding s by (simp_all add: keeps_def)
  have "build_manifest sha s0 bs fmt pol = build_manifest sha s bs fmt pol"
    unfolding build_manifest_def s0(2,4) kp ..
  then show ?thesis using put_bytes_succeeds [OF ok sd kp(1) s0(3) kp(2) n sha free len chunks] enc by simp
qed

theorem upload_completes_witness:
  "\<exists>m st s'. put_bytes demo_store_codec demo_sha store_io_ok [7] ''text'' Reconstructible
     (run_store demo_store_codec demo_sha
        [(store_io_ok\<lparr>si_write := \<lambda>dir n. write_ok\<lparr>fw_torn := Some 0\<rparr>\<rparr>, PutBytesOp [7] ''text'' Reconstructible)] demo_store)
     = (Inr (m, st), s')"
  by (rule upload_completes [OF demo_store_facts(1,2) refl])
     (use demo_build demo_store_facts in \<open>auto simp: default_max_chunks_def serde_single_def\<close>)

text \<open>
  A content is stored under one format only.  When bytes that are in the store
  are put again under another format, \<open>put_bytes\<close> reports success and returns an identity
  that the store does not accept: reading it is refused as corrupt, whatever the file system
  answers.
\<close>

theorem second_format_unreadable:
  assumes "serde_ok sd" and "store_open n create fmempty fmempty fmempty = Inr s0" and "s = run_store sd sha ops s0"
    and put: "put_bytes sd sha io bs fmt pol s = (Inr (m, st), s1)" and new: "\<not> has_content s (cm_content_id m)"
    and "fmt' \<noteq> fmt" and "\<forall>dir f. si_read io' dir f"
  shows "\<exists>m' st'. put_bytes sd sha io' bs fmt' pol' s1 = (Inr (m', st'), s1)
    \<and> read_content sd sha io' s1 (cm_content_id m') = Inl corrupt_content"
proof -
  have ok: "store_ok sd sha s"
    using run_store_ok [OF _ assms(1)] store_open_ok [OF assms(2)] unfolding assms(3) by blast
  have c1: "committed sd s1 (sha256_hex sha bs) = Some m"
    using put_bytes_committed [OF ok assms(1) new put] by metis
  have bm: "build_manifest sha s bs fmt pol = Inr m"
    using put by (auto simp: put_bytes_def split: sum.splits if_splits prod.splits)
  then have fm: "cid_format (cm_content_id m) = fmt" by (auto simp: build_manifest_def Let_def split: if_splits)
  have kp: "cs_chunk_size s1 = cs_chunk_size s" "cs_max_chunks s1 = cs_max_chunks s"
    using put_bytes_ok [OF ok assms(1) put] by (simp_all add: keeps_def)
  obtain m' where m': "build_manifest sha s1 bs fmt' pol' = Inr m'" "cid_format (cm_content_id m') = fmt'"
      "cid_digest (cm_content_id m') = sha256_hex sha bs"
    using bm kp by (auto simp: build_manifest_def Let_def split: if_splits)
  have "has_content s1 (cm_content_id m')" using c1 m'(3) by (auto simp: has_content_def committed_def bt_contains_def bind_eq_Some_conv)
  moreover have "committed_manifest sd io' s1 (sha256_hex sha bs) = Inr m"
    using c1 assms(7) by (auto simp: committed_def committed_manifest_def read_json_Inr bind_eq_Some_conv)
  moreover have "cm_content_id m \<noteq> cm_content_id m'" using fm m'(2) assms(6) by auto
  ultimately show ?thesis using m' by (simp add: put_bytes_def read_content_def)
qed

theorem second_format_unreadable_witness:
  "\<exists>st s m' st'. put_bytes demo_store_codec demo_sha store_io_ok [7] ''text'' Reconstructible demo_store = (Inr (demo_stored, st), s)
     \<and> put_bytes demo_store_codec demo_sha store_io_ok [7] ''json'' Reconstructible s = (Inr (m', st'), s)
     \<and> read_content demo_store_codec demo_sha store_io_ok s (cm_content_id m') = Inl corrupt_content"
proof -
  obtain st s where p: "put_bytes demo_store_codec demo_sha store_io_ok [7] ''text'' Reconstructible demo_store = (Inr (demo_stored, st), s)"
      "\<not> has_content demo_store (cm_content_id demo_stored)"
    using demo_put by metis
  have run: "demo_store = run_store demo_store_codec demo_sha [] demo_store" by (simp add: run_store_def)
  have "\<exists>m' st'. put_bytes demo_store_codec demo_sha store_io_ok [7] ''json'' Reconstructible s = (Inr (m', st'), s)
     \<and> read_content demo_store_codec demo_sha store_io_ok s (cm_content_id m') = Inl corrupt_content"
    by (rule second_format_unreadable [OF demo_store_facts(1,2) run p]) simp_all
  with p(1) show ?thesis by blast
qed

section \<open>The transfer queue\<close>

datatype transfer_op = EnqueueOp TransferChunk | StartOp | CompleteOp

text \<open>A run with the chunks that were accepted and those that were started, in order.\<close>

fun transfer_step ::
  "transfer_op \<Rightarrow> DataTransferQueue \<times> TransferChunk list \<times> TransferChunk list
     \<Rightarrow> DataTransferQueue \<times> TransferChunk list \<times> TransferChunk list" where
  "transfer_step (EnqueueOp c) (q, acc, st) =
     (case enqueue c q of (r, q) \<Rightarrow> (q, if isl r then acc else acc @ [c], st))"
| "transfer_step StartOp (q, acc, st) =
     (case start_next q of (r, q) \<Rightarrow> (q, acc, case r of None \<Rightarrow> st | Some c \<Rightarrow> st @ [c]))"
| "transfer_step CompleteOp (q, acc, st) = (snd (complete_one q), acc, st)"

definition queue_ok :: "DataTransferQueue \<times> TransferChunk list \<times> TransferChunk list \<Rightarrow> bool" where
  "queue_ok = (\<lambda>(q, acc, st). acc = st @ dtq_queued q
     \<and> unat (dtq_queued_bytes q) = sum_list (map (length \<circ> tc_bytes) (dtq_queued q))
     \<and> dtq_queued_bytes q \<le> dtb_max_queued_bytes (dtq_budget q)
     \<and> dtq_in_flight q \<le> dtb_max_concurrent (dtq_budget q)
     \<and> (\<forall>c \<in> set (dtq_queued q). length (tc_bytes c) \<le> dtb_max_chunk_bytes (dtq_budget q)))"

lemma transfer_step_budget: "dtq_budget (fst (transfer_step x (q, acc, st))) = dtq_budget q"
  by (cases x) (auto simp: enqueue_def start_next_def complete_one_def split: option.splits list.splits)

lemma transfer_step_ok:
  assumes "queue_ok s" and small: "\<forall>c. x = EnqueueOp c \<longrightarrow> length (tc_bytes c) < 2 ^ 64"
  shows "queue_ok (transfer_step x s)"
proof -
  obtain q acc st where s: "s = (q, acc, st)" by (cases s) auto
  note ok = assms(1)[unfolded s queue_ok_def prod.case]
  show ?thesis
  proof (cases x)
    case (EnqueueOp c)
    then have u: "unat (of_nat (length (tc_bytes c)) :: u64) = length (tc_bytes c)"
      using small by (simp add: unat_of_nat)
    show ?thesis
      using ok u unat_checked_add [of "dtq_queued_bytes q" "of_nat (length (tc_bytes c))"]
      by (auto simp: s EnqueueOp enqueue_def queue_ok_def split: option.splits)
  next
    case StartOp
    show ?thesis
    proof (cases "dtq_queued q")
      case Nil
      with ok show ?thesis by (simp add: s StartOp start_next_def queue_ok_def)
    next
      case (Cons c cs)
      have b: "length (tc_bytes c) \<le> unat (dtq_queued_bytes q)" using ok Cons by simp
      then have u: "unat (of_nat (length (tc_bytes c)) :: u64) = length (tc_bytes c)"
        using unat_bound [of "dtq_queued_bytes q"] by (simp add: unat_of_nat)
      then show ?thesis
        using ok Cons
        by (auto simp: s StartOp start_next_def queue_ok_def unat_sat_sub word_le_nat_alt)
    qed
  qed (use ok in \<open>auto simp: s complete_one_def queue_ok_def\<close>)
qed

text \<open>
  The transfer queue is a bounded first-in first-out queue: over any sequence of
  operations the chunks come out in the order in which they were accepted, each once; the
  queued bytes are counted exactly and stay within the budget, no queued chunk is larger than
  the limit, and no more transfers run than allowed.
\<close>

theorem transfer_queue_fifo:
  assumes new: "queue_new budget = Inr q0" and run: "fold transfer_step ops (q0, [], []) = (q, accepted, started)"
    and small: "\<forall>c. EnqueueOp c \<in> set ops \<longrightarrow> length (tc_bytes c) < 2 ^ 64"
  shows "accepted = started @ dtq_queued q
    \<and> unat (dtq_queued_bytes q) = sum_list (map (length \<circ> tc_bytes) (dtq_queued q))
    \<and> dtq_queued_bytes q \<le> dtb_max_queued_bytes budget \<and> dtq_in_flight q \<le> dtb_max_concurrent budget
    \<and> (\<forall>c \<in> set (dtq_queued q). length (tc_bytes c) \<le> dtb_max_chunk_bytes budget)"
proof -
  have q0: "queue_ok (q0, [], [])" "dtq_budget q0 = budget"
    using new by (auto simp: queue_new_def queue_ok_def split: if_splits)
  have "queue_ok s \<Longrightarrow> \<forall>c. EnqueueOp c \<in> set ops \<longrightarrow> length (tc_bytes c) < 2 ^ 64 \<Longrightarrow>
      queue_ok (fold transfer_step ops s) \<and> dtq_budget (fst (fold transfer_step ops s)) = dtq_budget (fst s)" for s
  proof (induction ops arbitrary: s)
    case (Cons x ops)
    have "dtq_budget (fst (transfer_step x s)) = dtq_budget (fst s)"
      using transfer_step_budget by (metis prod.collapse)
    then show ?case using Cons transfer_step_ok [of s x] by simp
  qed simp
  from this [OF q0(1) small] run q0(2) show ?thesis by (auto simp: queue_ok_def)
qed

definition demo_chunk :: "u32 \<Rightarrow> TransferChunk" where
  "demo_chunk i = \<lparr>tc_lane = ResourceLane, tc_source = ''a'', tc_target = ''b'', tc_content_id = cm_content_id demo_stored,
                   tc_index = i, tc_bytes = [7]\<rparr>"

theorem transfer_queue_fifo_witness:
  "\<exists>q. fold transfer_step [EnqueueOp (demo_chunk 0), EnqueueOp (demo_chunk 1), StartOp, EnqueueOp (demo_chunk 2)]
       (\<lparr>dtq_budget = \<lparr>dtb_max_concurrent = 1, dtb_max_queued_bytes = 2, dtb_max_chunk_bytes = 1\<rparr>, dtq_queued = [],
         dtq_queued_bytes = 0, dtq_in_flight = 0\<rparr>, [], [])
     = (q, [demo_chunk 0, demo_chunk 1, demo_chunk 2], [demo_chunk 0]) \<and> dtq_in_flight q \<le> 1"
proof -
  let ?b = "\<lparr>dtb_max_concurrent = 1, dtb_max_queued_bytes = 2, dtb_max_chunk_bytes = 1\<rparr>"
  have new: "queue_new ?b = Inr \<lparr>dtq_budget = ?b, dtq_queued = [], dtq_queued_bytes = 0, dtq_in_flight = 0\<rparr>"
    by (simp add: queue_new_def)
  obtain q where "fold transfer_step [EnqueueOp (demo_chunk 0), EnqueueOp (demo_chunk 1), StartOp, EnqueueOp (demo_chunk 2)]
       (\<lparr>dtq_budget = ?b, dtq_queued = [], dtq_queued_bytes = 0, dtq_in_flight = 0\<rparr>, [], [])
     = (q, [demo_chunk 0, demo_chunk 1, demo_chunk 2], [demo_chunk 0])"
    by (simp add: enqueue_def start_next_def checked_add_def sat_sub_def demo_chunk_def)
  with transfer_queue_fifo [OF new this] show ?thesis by (auto simp: demo_chunk_def)
qed

end
