(* ===== verification/Garbage_Collection.thy ===== *)
theory Garbage_Collection
  imports Resource_Catalog Content_Properties
begin

text \<open>
  Garbage collection over the catalogue and the content store together: \<open>collect_garbage\<close> of
  \<open>resource_catalog.rs\<close> calls \<open>remove_content\<close> of \<open>content_store.rs\<close> for every collectable
  record, and contents share chunks.
\<close>

definition remove_from_store ::
  "ContentManifest serde \<Rightarrow> (ContentId \<Rightarrow> store_io) \<Rightarrow> ContentStore \<Rightarrow> ContentId \<Rightarrow> unit result \<times> ContentStore" where
  "remove_from_store sd io s cid = remove_content sd (io cid) cid s"

lemma gc_loop_store:
  assumes "store_ok sd sha s" and "gc_loop (remove_from_store sd io) cids s records = (r, s', records')"
  shows "store_ok sd sha s' \<and> keeps sd (cid_digest ` set cids) s s'"
  using assms
proof (induction cids arbitrary: s records)
  case (Cons cid cids)
  obtain r1 s1 where rm: "remove_content sd (io cid) cid s = (r1, s1)" by fastforce
  have rs: "remove_from_store sd io s cid = (r1, s1)" using rm by (simp add: remove_from_store_def)
  note one = remove_content_ok [OF Cons.prems(1) rm]
  have mono: "keeps sd R a b \<Longrightarrow> R \<subseteq> R' \<Longrightarrow> keeps sd R' a b" for R R' a b by (auto simp: keeps_def)
  show ?case
  proof (cases r1)
    case (Inl e)
    then have "s' = s1" using Cons.prems(2) rs by simp
    with one mono [of "{cid_digest cid}"] show ?thesis by auto
  next
    case (Inr u)
    then have "gc_loop (remove_from_store sd io) cids s1 (fmdrop (cid_digest cid) records) = (r, s', records')"
      using Cons.prems(2) rs by simp
    with Cons.IH one have "store_ok sd sha s'" "keeps sd (cid_digest ` set cids) s1 s'" by blast+
    with one keeps_trans [of sd "{cid_digest cid}" s s1 "cid_digest ` set cids" s'] show ?thesis by simp
  qed
qed simp

lemma collect_garbage_store:
  assumes "store_ok sd sha s" and "collect_garbage sdc wio (remove_from_store sd io) cat s now n = (r, s', cat')"
  shows "store_ok sd sha s' \<and> keeps sd (cid_digest ` set (gc_candidates cat now n)) s s'"
proof -
  obtain r1 s1 recs where gl: "gc_loop (remove_from_store sd io) (gc_candidates cat now n) s (rc_records cat) = (r1, s1, recs)"
    by (metis prod_cases3)
  then have "s' = s1"
    using assms(2) by (auto simp: collect_garbage_def Let_def split: sum.splits prod.splits if_splits)
  with gc_loop_store [OF assms(1) gl] show ?thesis by simp
qed

text \<open>
  Claim C27.  Garbage collection never destroys content that is in use.  Whatever the
  catalogue collects and wherever the collection stops, a stored content that the catalogue
  does not know, that has a reference, or whose retention has not ended is read back
  afterwards exactly as before, even when it shares chunks with contents that were dropped.
\<close>

theorem garbage_collection_keeps_content:
  assumes "catalog_ok cat" and "serde_ok sd" and "store_open bytes_per_chunk create fmempty fmempty fmempty = Inr s0"
    and s: "s = run_store sd sha ops s0"
    and gc: "collect_garbage sdc wio (remove_from_store sd io) cat s now n = (res, s', cat')"
    and m: "committed_manifest sd io' s dg = Inr m" and live: "\<forall>r. fmlookup (rc_records cat) dg = Some r \<longrightarrow> \<not> collectable now r"
    and readable: "\<forall>dir f. si_read io' dir f"
  shows "\<exists>bs. read_content sd sha io' s (cm_content_id m) = Inr bs \<and> read_content sd sha io' s' (cm_content_id m) = Inr bs"
proof -
  have ok: "store_ok sd sha s"
    using run_store_ok [OF _ assms(2)] store_open_ok [OF assms(3)] unfolding s by blast
  have c: "committed sd s dg = Some m" using m by (auto simp: committed_manifest_def read_json_Inr committed_def)
  have after: "store_ok sd sha s'" "keeps sd (cid_digest ` set (gc_candidates cat now n)) s s'"
    using collect_garbage_store [OF ok gc] by simp_all
  have "dg \<notin> cid_digest ` set (gc_candidates cat now n)"
    using gc_candidates_collectable [OF assms(1)] live by fastforce
  then have c': "committed sd s' dg = Some m" "same_chunks (cs_chunks s) (cs_chunks s') m"
    using after(2) c by (auto simp: keeps_def)
  show ?thesis
    using committed_readable [OF ok c readable] committed_readable [OF after(1) c'(1) readable] same_chunks_bytes [OF c'(2)]
    by auto
qed

theorem garbage_collection_keeps_content_witness:
  "\<exists>s res s' cat' bs. s = run_store demo_store_codec demo_sha [(store_io_ok, PutBytesOp [7] ''text'' Reconstructible)] demo_store
     \<and> collect_garbage demo_catalog_codec io_all_ok (remove_from_store demo_store_codec (\<lambda>_. store_io_ok)) demo_catalog_full s 5 1
         = (res, s', cat')
     \<and> read_content demo_store_codec demo_sha store_io_ok s' (cm_content_id demo_stored) = Inr bs"
proof -
  obtain st s where p: "put_bytes demo_store_codec demo_sha store_io_ok [7] ''text'' Reconstructible demo_store = (Inr (demo_stored, st), s)"
    "committed demo_store_codec s (cid_digest (cm_content_id demo_stored)) = Some demo_stored"
    using demo_put by metis
  then have run: "s = run_store demo_store_codec demo_sha [(store_io_ok, PutBytesOp [7] ''text'' Reconstructible)] demo_store"
    by (simp add: run_store_def)
  have m: "committed_manifest demo_store_codec store_io_ok s (cid_digest (cm_content_id demo_stored)) = Inr demo_stored"
    using p(2) by (auto simp: committed_def committed_manifest_def read_json_Inr bind_eq_Some_conv)
  have "length (cid_digest (cm_content_id demo_stored)) = 64"
    by (simp add: demo_stored_def sha256_hex_def demo_store_facts(3))
  then have ne: "cid_digest (cm_content_id demo_stored) \<noteq> ''d''" by auto
  obtain res s' cat' where gc: "collect_garbage demo_catalog_codec io_all_ok (remove_from_store demo_store_codec (\<lambda>_. store_io_ok))
       demo_catalog_full s 5 1 = (res, s', cat')" by (metis prod_cases3)
  have "\<exists>bs. read_content demo_store_codec demo_sha store_io_ok s (cm_content_id demo_stored) = Inr bs
      \<and> read_content demo_store_codec demo_sha store_io_ok s' (cm_content_id demo_stored) = Inr bs"
    by (rule garbage_collection_keeps_content [OF demo_catalog_ok(2) demo_store_facts(1,2) run gc m])
       (use ne in \<open>simp_all add: demo_catalog_full_def demo_catalog_empty_def\<close>)
  with run gc show ?thesis by blast
qed

end
