(* ===== verification/Trust_Contracts.thy ===== *)
theory Trust_Contracts
  imports Contracts
begin

text \<open>
  The descriptors of the trust plane, from \<open>trust.rs\<close> of the contracts crate: trust modes and
  levels, identities, task policies, the signed objects, audit events with their segments and
  inclusion proofs, budgets, and reputation snapshots.  \<open>f64\<close> is the type parameter \<open>'f\<close>.
\<close>

datatype TrustMode = TrustedLan | AuditedLan | RestrictedWorkers | ByzantineResistant

datatype NodeTrustLevel = LevelQuarantined | LevelUntrusted | LevelRestricted | LevelManaged | LevelTrusted

fun trust_rank :: "NodeTrustLevel \<Rightarrow> u8" where
  "trust_rank LevelQuarantined = 0"
| "trust_rank LevelUntrusted = 1"
| "trust_rank LevelRestricted = 2"
| "trust_rank LevelManaged = 3"
| "trust_rank LevelTrusted = 4"

lemma trust_rank_inj: "trust_rank a = trust_rank b \<Longrightarrow> a = b"
  by (cases a; cases b) simp_all

text \<open>The derived order is the order of declaration, which is that of the ranks.\<close>

instantiation NodeTrustLevel :: linorder
begin

definition less_eq_NodeTrustLevel :: "NodeTrustLevel \<Rightarrow> NodeTrustLevel \<Rightarrow> bool" where
  "less_eq_NodeTrustLevel a b \<longleftrightarrow> trust_rank a \<le> trust_rank b"

definition less_NodeTrustLevel :: "NodeTrustLevel \<Rightarrow> NodeTrustLevel \<Rightarrow> bool" where
  "less_NodeTrustLevel a b \<longleftrightarrow> trust_rank a < trust_rank b"

instance
proof
  fix a b :: NodeTrustLevel
  show "a \<le> b \<Longrightarrow> b \<le> a \<Longrightarrow> a = b"
    unfolding less_eq_NodeTrustLevel_def by (intro trust_rank_inj order.antisym)
qed (auto simp: less_eq_NodeTrustLevel_def less_NodeTrustLevel_def)

end

datatype IdentityStatus = StatusPending | StatusActive | StatusExpired | StatusRevoked | StatusQuarantined

record NodeIdentity =
  ni_node_id :: NodeId
  ni_key_id :: string
  ni_key_generation :: u64
  ni_fingerprint :: string
  ni_valid_from :: u64
  ni_valid_until :: u64
  ni_status :: IdentityStatus
  ni_trust_level :: NodeTrustLevel

datatype DataSensitivity = Public | Internal | Confidential | RestrictedData | Credential

text \<open>Flag sets are bytes; \<open>union\<close> and \<open>contains\<close> are the same for every flag type.\<close>

definition flags_union :: "'a::len word \<Rightarrow> 'a word \<Rightarrow> 'a word" where
  "flags_union a b = or a b"

definition flags_contain :: "'a::len word \<Rightarrow> 'a word \<Rightarrow> bool" where
  "flags_contain a required \<longleftrightarrow> and a required = required"

definition allow_external_workers :: u8 where "allow_external_workers = 1"
definition allow_persistent_cache :: u8 where "allow_persistent_cache = 2"
definition require_attestation :: u8 where "require_attestation = 4"
definition irreversible_effects :: u8 where "irreversible_effects = 8"

datatype ResultVerificationPolicy =
    NoVerification | HashOnly | DeterministicReplay | SpotCheck u16 | NOfM u8 u8
  | DomainVerifier string | Replayable | ProofCarrying string | ManualReviewPolicy

record TaskTrustPolicy =
  tp_sensitivity :: DataSensitivity
  tp_minimum_trust :: NodeTrustLevel
  tp_flags :: u8
  tp_verification :: ResultVerificationPolicy
  tp_task_value :: u8

record AttestationVerdict =
  av_accepted :: bool
  av_verifier_id :: string
  av_node_id :: NodeId
  av_valid_until :: u64
  av_environment_digest :: string
  av_reason :: "string option"

record ArtifactIdentity =
  ai_artifact_id :: string
  ai_kind :: string
  ai_version :: string
  ai_generation :: u64
  ai_content_id :: ContentId
  ai_signer_key_id :: string
  ai_integrity_tag :: string

record AttestationEvidence =
  ev_provider :: string
  ev_node_id :: NodeId
  ev_identity_key_id :: string
  ev_host_content_id :: ContentId
  ev_artifact_content_ids :: "ContentId list"
  ev_issued_tick :: u64
  ev_valid_until :: u64
  ev_evidence_digest :: string

record ResourceAuthorization =
  az_authorization_id :: string
  az_task_id :: GlobalTaskId
  az_attempt :: u32
  az_node_id :: NodeId
  az_generation :: u64
  az_term :: u64
  az_epoch :: u64
  az_content_ids :: "ContentId list"
  az_scopes :: "string fset"
  az_persistent_cache :: bool
  az_issued_tick :: u64
  az_valid_until :: u64
  az_key_id :: string
  az_tag :: string

record 'f ExecutionReceipt =
  er_task_id :: GlobalTaskId
  er_attempt :: u32
  er_term :: u64
  er_epoch :: u64
  er_node_id :: NodeId
  er_task_schema :: string
  er_input_content_id :: ContentId
  er_output_content_id :: ContentId
  er_runner_id :: string
  er_runner_generation :: u64
  er_plugin_id :: string
  er_plugin_generation :: u64
  er_execution_variant :: string
  er_policy_digest :: string
  er_quality :: 'f
  er_degraded_flags :: "string fset"
  er_environment_digest :: string
  er_identity_key_id :: string
  er_receipt_tag :: string

record CommitProof =
  cp_log_index :: u64
  cp_term :: u64
  cp_epoch :: u64
  cp_quorum_digest :: "string option"
  cp_audit_segment :: "u64 option"
  cp_audit_leaf :: "u32 option"
  cp_audit_root :: "string option"

datatype TrustBoundObjectKind = AssignmentLease | ExecutionGrantObject | ResultReceipt | ResourceManifestObject

record SignedStateBinding =
  sb_kind :: TrustBoundObjectKind
  sb_object_digest :: string
  sb_subject_node :: NodeId
  sb_signer_node :: NodeId
  sb_task_id :: "GlobalTaskId option"
  sb_attempt :: "u32 option"
  sb_term :: u64
  sb_epoch :: u64
  sb_key_id :: string
  sb_tag :: string

datatype VerificationStatus =
    VerificationPending | VerificationAccepted | VerificationRejected | VerificationQuarantined | VerificationManualReview

datatype VerificationAction =
    AcceptDigest | ReplayOnIndependentNode | SampleResults u16 | CollectIndependentResults u8 u8
  | InvokeDomainVerifier string | ValidateReplayArtifact | ValidateProof string | RequireManualReview

record 'f ResultVerificationRecord =
  rv_task_id :: GlobalTaskId
  rv_attempt :: u32
  rv_policy :: ResultVerificationPolicy
  rv_status :: VerificationStatus
  rv_verifier_id :: string
  rv_expected_digest :: "string option"
  rv_observed_digest :: string
  rv_tolerance :: "'f option"
  rv_evidence :: "(string, string) fmap"

datatype GovernanceAction =
    LeaderFence | VotingMembershipChange | TrustRootChange | ForceAcceptQuarantinedResult | OverrideUncertainEffect

record GovernanceCertificate =
  gc_action :: GovernanceAction
  gc_action_digest :: string
  gc_term :: u64
  gc_epoch :: u64
  gc_required_signers :: u8
  gc_signer_tags :: "(NodeId, string) fmap"

datatype AuditEventKind =
    Membership | Permission | Assignment | Lease | ResultCommit | Verification | Revocation
  | ManualDecision | ResourceAccess

record AuditEvent =
  ae_sequence :: u64
  ae_tick :: u64
  ae_kind :: AuditEventKind
  ae_task_id :: "GlobalTaskId option"
  ae_attempt :: "u32 option"
  ae_node_id :: "NodeId option"
  ae_metadata :: "(string, string) fmap"
  ae_previous_hash :: string
  ae_event_hash :: string

record AuditSegment =
  as_segment_id :: u64
  as_first_sequence :: u64
  as_last_sequence :: u64
  as_previous_root :: "string option"
  as_merkle_root :: string
  as_leaf_hashes :: "string list"

record AuditInclusionProof =
  ip_segment_id :: u64
  ip_leaf_index :: u32
  ip_leaf_hash :: string
  ip_siblings :: "(string \<times> bool) list"
  ip_merkle_root :: string

record TrustPlaneBudget =
  tb_signatures :: u32
  tb_verifications :: u32
  tb_replays :: u32
  tb_audit_events_per_segment :: nat
  tb_audit_metadata_entries :: nat
  tb_audit_bytes :: u64
  tb_reputation_updates :: u32
  tb_attestations :: u32
  tb_compute_units :: u64
  tb_network_bytes :: u64
  tb_storage_bytes :: u64

datatype AnomalyKind =
    ForgedCapability | ResultMismatch | ResourceCorruption | AbnormalLatency | CancelRefused | UnauthorizedAccess

record 'f ReputationSnapshot =
  rs_node :: NodeId
  rs_capability :: string
  rs_plugin_generation :: u64
  rs_samples :: u32
  rs_reliability :: 'f
  rs_timeout :: 'f
  rs_mismatch :: 'f
  rs_corruption :: 'f
  rs_uncertainty :: 'f
  rs_anomalies :: "AnomalyKind fset"

record CompromiseImpact =
  ci_node_id :: NodeId
  ci_new_fencing_epoch :: u64
  ci_revoked :: "string list"
  ci_quarantined_content :: "ContentId list"
  ci_affected_tasks :: "GlobalTaskId fset"
  ci_required_actions :: "string list"

end
