(* ===== verification/Trust_Crypto.thy ===== *)
theory Trust_Crypto
  imports Trust_Contracts
begin

text \<open>
  What the trust plane signs with, from \<open>trust_plane.rs\<close>: hexadecimal tags, the canonical
  encoding of a signed object, and HMAC tags over it.  SHA-256 and HMAC are parameters; the
  latter answers \<open>None\<close> where the library refuses a key.  The signed objects of the trust plane
  have in common that their tag is computed over the object with the tag cleared: the locale
  \<open>sealed_object\<close>.
\<close>

section \<open>Errors\<close>

definition trust_config_error :: DistributedError where
  "trust_config_error = error_new InvalidConfig ''trust plane configuration or key material is invalid''"

definition trust_policy_error :: DistributedError where
  "trust_policy_error = error_new WorkerRejected ''trust policy rejected identity, environment, or data access''"

definition identity_unknown :: DistributedError where
  "identity_unknown = error_new WorkerUnavailable ''node identity is unknown''"

definition identity_unavailable :: DistributedError where
  "identity_unavailable = error_new Fenced ''node identity is expired, revoked, rotated, or quarantined''"

definition identity_exists_error :: DistributedError where
  "identity_exists_error = error_new Conflict ''node identity already exists and requires rotation''"

definition canonical_error :: DistributedError where
  "canonical_error = error_new Protocol ''trust plane canonical payload is invalid''"

definition insecure_link_error :: DistributedError where
  "insecure_link_error = error_new Incompatible ''distributed trust plane requires authenticated encrypted transport''"

definition stale_receipt_error :: DistributedError where
  "stale_receipt_error = error_new Fenced ''execution receipt belongs to a stale term, epoch, or attempt''"

section \<open>Digests and tags\<close>

record trust_crypto =
  tc_sha :: "bytes \<Rightarrow> bytes"
  tc_hmac :: "bytes \<Rightarrow> bytes \<Rightarrow> bytes option"

definition min_key_bytes :: nat where
  "min_key_bytes = 32"

definition digest_hex :: "(bytes \<Rightarrow> bytes) \<Rightarrow> bytes \<Rightarrow> string" where
  "digest_hex sha bs = hex_string (sha bs)"

definition canonical_json :: "'a serde \<Rightarrow> 'a \<Rightarrow> bytes result" where
  "canonical_json sd v = ok_or canonical_error (to_vec sd v)"

text \<open>\<open>u8::from_str_radix(text, 16)\<close> for a text of two bytes: a leading plus sign is a sign.\<close>

definition hex_value :: "char \<Rightarrow> nat option" where
  "hex_value c = (let n = of_char c :: nat in
     if 48 \<le> n \<and> n \<le> 57 then Some (n - 48)
     else if 97 \<le> n \<and> n \<le> 102 then Some (n - 87)
     else if 65 \<le> n \<and> n \<le> 70 then Some (n - 55)
     else None)"

definition radix16_pair :: "char \<Rightarrow> char \<Rightarrow> u8 option" where
  "radix16_pair c d =
     (if c = CHR ''+'' then map_option of_nat (hex_value d)
      else case (hex_value c, hex_value d) of
        (Some a, Some b) \<Rightarrow> Some (of_nat (16 * a + b))
      | _ \<Rightarrow> None)"

fun decode_hex :: "string \<Rightarrow> bytes option" where
  "decode_hex [] = Some []"
| "decode_hex [c] = None"
| "decode_hex (c # d # cs) =
     (case radix16_pair c d of
        None \<Rightarrow> None
      | Some b \<Rightarrow> map_option ((#) b) (decode_hex cs))"

definition mac_hex :: "trust_crypto \<Rightarrow> bytes \<Rightarrow> bytes \<Rightarrow> string result" where
  "mac_hex tc key payload = map_sum id hex_string (ok_or trust_config_error (tc_hmac tc key payload))"

definition verify_mac :: "trust_crypto \<Rightarrow> bytes \<Rightarrow> bytes \<Rightarrow> string \<Rightarrow> bool" where
  "verify_mac tc key payload tag =
     (case decode_hex tag of
        None \<Rightarrow> False
      | Some bs \<Rightarrow> tc_hmac tc key payload = Some bs)"

lemma hex_value_digit: "n < 16 \<Longrightarrow> hex_value (hex_digit n) = Some n"
proof -
  have "list_all (\<lambda>n. hex_value (hex_digit n) = Some n) [0..<16]" by code_simp
  then show "n < 16 \<Longrightarrow> hex_value (hex_digit n) = Some n" by (simp add: list_all_iff)
qed

lemma hex_digit_not_plus: "n < 16 \<Longrightarrow> hex_digit n \<noteq> CHR ''+''"
  using hex_value_digit [of n] by (auto simp: hex_value_def)

lemma decode_hex_byte: "decode_hex (hex_byte b @ s) = map_option ((#) b) (decode_hex s)"
proof -
  have "unat b div 16 < 16" "unat b mod 16 < 16" using unat_bound [of b] by simp_all
  moreover have "16 * (unat b div 16) + unat b mod 16 = unat b" by simp
  then have "(of_nat (16 * (unat b div 16) + unat b mod 16) :: u8) = b" by (simp del: of_nat_add of_nat_mult)
  ultimately show ?thesis
    by (simp add: hex_byte_def radix16_pair_def hex_digit_not_plus hex_value_digit del: of_nat_add of_nat_mult)
qed

lemma decode_hex_string [simp]: "decode_hex (hex_string bs) = Some bs"
  by (induction bs) (simp_all add: hex_string_def decode_hex_byte)

lemma verify_mac_hex: "mac_hex tc key payload = Inr tag \<Longrightarrow> verify_mac tc key payload tag"
  by (auto simp: mac_hex_def verify_mac_def ok_or_def split: option.splits)

lemma verify_mac_iff:
  "verify_mac tc key payload tag \<longleftrightarrow> decode_hex tag \<noteq> None \<and> tc_hmac tc key payload = decode_hex tag"
  by (auto simp: verify_mac_def split: option.splits)

lemma mac_hex_Inr: "mac_hex tc key payload = Inr tag \<longleftrightarrow> (\<exists>t. tc_hmac tc key payload = Some t \<and> tag = hex_string t)"
  by (auto simp: mac_hex_def ok_or_def split: option.splits)

section \<open>Sealed objects\<close>

text \<open>
  An object is sealed under a key when its tag is the one of its encoding without the tag;
  two objects are confused by a key when their encodings differ and have the same tag.
\<close>

definition sealed_by ::
  "trust_crypto \<Rightarrow> 'o serde \<Rightarrow> ('o \<Rightarrow> 'o) \<Rightarrow> ('o \<Rightarrow> string) \<Rightarrow> bytes \<Rightarrow> 'o \<Rightarrow> bool" where
  "sealed_by tc sd bare tag_of key x \<longleftrightarrow>
     (\<exists>p. canonical_json sd (bare x) = Inr p \<and> verify_mac tc key p (tag_of x))"

definition confused :: "trust_crypto \<Rightarrow> 'o serde \<Rightarrow> bytes \<Rightarrow> 'o \<Rightarrow> 'o \<Rightarrow> bool" where
  "confused tc sd key x y \<longleftrightarrow>
     (\<exists>p q t. canonical_json sd x = Inr p \<and> canonical_json sd y = Inr q \<and> p \<noteq> q
        \<and> tc_hmac tc key p = Some t \<and> tc_hmac tc key q = Some t)"

lemma canonical_json_Inr [simp]: "canonical_json sd v = Inr p \<longleftrightarrow> to_vec sd v = Some p"
  by (simp add: canonical_json_def)

text \<open>
  A value is encoded uniquely when no other value has its encoding.  Every value is, if the
  codec decodes what it encoded; a codec that writes several values alike can still encode
  the others uniquely.
\<close>

definition encoded_uniquely :: "'o serde \<Rightarrow> 'o \<Rightarrow> bool" where
  "encoded_uniquely sd v \<longleftrightarrow> (\<forall>w p. to_vec sd v = Some p \<and> to_vec sd w = Some p \<longrightarrow> w = v)"

lemma encoded_uniquelyD: "encoded_uniquely sd v \<Longrightarrow> to_vec sd v = Some p \<Longrightarrow> to_vec sd w = Some p \<Longrightarrow> w = v"
  unfolding encoded_uniquely_def by blast

lemma serde_ok_unique: "serde_ok sd \<Longrightarrow> encoded_uniquely sd v"
  using serde_okD [of sd] unfolding encoded_uniquely_def by (metis option.inject)

locale sealed_object =
  fixes bare :: "'o \<Rightarrow> 'o" and tag_of :: "'o \<Rightarrow> string" and attach :: "string \<Rightarrow> string \<Rightarrow> 'o \<Rightarrow> 'o"
  assumes bare_attach: "bare (attach key_id tag x) = bare x"
    and tag_attach: "tag_of (attach key_id tag x) = tag"
begin

lemma attach_sealed:
  "canonical_json sd (bare x) = Inr p \<Longrightarrow> mac_hex tc key p = Inr tag
     \<Longrightarrow> sealed_by tc sd bare tag_of key (attach key_id tag x)"
  by (auto simp: sealed_by_def bare_attach tag_attach verify_mac_hex)

lemma sealed_binds_unique:
  assumes "encoded_uniquely sd (bare y)" and "sealed_by tc sd bare tag_of key x" and "sealed_by tc sd bare tag_of key y"
    and "decode_hex (tag_of x) = decode_hex (tag_of y)"
  shows "bare x = bare y \<or> confused tc sd key (bare x) (bare y)"
proof -
  from assms(2,3) obtain p q where
    "canonical_json sd (bare x) = Inr p" "canonical_json sd (bare y) = Inr q"
    "verify_mac tc key p (tag_of x)" "verify_mac tc key q (tag_of y)" by (auto simp: sealed_by_def)
  then show ?thesis
    using assms(4) encoded_uniquelyD [OF assms(1), of p "bare x"]
    by (cases "p = q") (auto simp: verify_mac_iff confused_def)
qed

lemmas sealed_binds = sealed_binds_unique [OF serde_ok_unique]

lemma attached_tag_binds:
  assumes "serde_ok sd" and "sealed_by tc sd bare tag_of key (attach i tag x)"
    and "sealed_by tc sd bare tag_of key (attach j tag y)"
  shows "bare x = bare y \<or> confused tc sd key (bare x) (bare y)"
  using sealed_binds [OF assms] by (simp add: tag_attach bare_attach)

end

end
