(* ===== verification/Trust_Audit.thy ===== *)
theory Trust_Audit
  imports Trust_Crypto
begin

text \<open>
  The audit log of \<open>trust_audit.rs\<close>: events in a hash chain, appended line by line to a file,
  and segments of the log with Merkle roots and inclusion proofs.  SHA-256 and the JSON
  encoding of an event are parameters.  The file is part of the state; an append may fail
  after any number of bytes, or after all of them when the sync fails.
\<close>

section \<open>Errors and helpers\<close>

definition audit_config_error :: DistributedError where
  "audit_config_error = error_new InvalidConfig ''audit log budget must be positive and bounded''"

definition audit_storage_error :: DistributedError where
  "audit_storage_error = error_new Storage ''audit log could not persist an append-only event''"

definition audit_corrupt_error :: DistributedError where
  "audit_corrupt_error = error_new Corrupt ''audit hash chain is corrupt''"

definition audit_unknown_error :: DistributedError where
  "audit_unknown_error = error_new TaskUnknown ''audit event or segment is unavailable''"

definition audit_archival_error :: DistributedError where
  "audit_archival_error = error_new CapacityExceeded ''audit index exceeds its bounded capacity and requires archival''"

definition audit_full_error :: DistributedError where
  "audit_full_error = error_new CapacityExceeded ''audit index is full and requires archival''"

definition audit_budget_error :: DistributedError where
  "audit_budget_error = error_new CapacityExceeded ''audit write budget exhausted''"

definition audit_metadata_error :: DistributedError where
  "audit_metadata_error =
     error_new WorkerRejected ''audit metadata exceeds bounds or may contain sensitive payload''"

lemmas audit_errors = audit_config_error_def audit_storage_error_def audit_corrupt_error_def audit_unknown_error_def
  audit_archival_error_def audit_full_error_def audit_budget_error_def audit_metadata_error_def

definition genesis_hash :: "(bytes \<Rightarrow> bytes) \<Rightarrow> string" where
  "genesis_hash sha = digest_hex sha (as_bytes ''mutsuki-audit-genesis-v1'')"

definition hash_event :: "AuditEvent serde \<Rightarrow> (bytes \<Rightarrow> bytes) \<Rightarrow> AuditEvent \<Rightarrow> string result" where
  "hash_event sd sha e =
     (case to_vec sd (e\<lparr>ae_event_hash := []\<rparr>) of
        Some bs \<Rightarrow> Inr (digest_hex sha bs)
      | None \<Rightarrow> Inl audit_corrupt_error)"

definition validate_next_event ::
  "AuditEvent serde \<Rightarrow> (bytes \<Rightarrow> bytes) \<Rightarrow> AuditEvent option \<Rightarrow> AuditEvent \<Rightarrow> unit result" where
  "validate_next_event sd sha previous e =
     (let expected_sequence = (case previous of None \<Rightarrow> 1 | Some p \<Rightarrow> sat_add (ae_sequence p) 1);
          expected_previous = (case previous of None \<Rightarrow> genesis_hash sha | Some p \<Rightarrow> ae_event_hash p)
      in if ae_sequence e \<noteq> expected_sequence \<or> ae_previous_hash e \<noteq> expected_previous
         then Inl audit_corrupt_error
         else bind_result (hash_event sd sha e)
                (\<lambda>h. if ae_event_hash e \<noteq> h then Inl audit_corrupt_error else Inr ()))"

text \<open>\<open>BufRead::lines\<close>: a line ends with a newline, before which a carriage return is dropped.\<close>

definition strip_cr :: "bytes \<Rightarrow> bytes" where
  "strip_cr line = (if line \<noteq> [] \<and> last line = 13 then butlast line else line)"

fun lines_from :: "bytes \<Rightarrow> bytes \<Rightarrow> bytes list" where
  "lines_from acc [] = (if acc = [] then [] else [rev acc])"
| "lines_from acc (b # bs) = (if b = 10 then strip_cr (rev acc) # lines_from [] bs else lines_from (b # acc) bs)"

text \<open>\<open>str::trim\<close> leaves nothing: the UTF-8 forms of the Unicode white space characters.\<close>

fun is_blank :: "bytes \<Rightarrow> bool" where
  "is_blank [] \<longleftrightarrow> True"
| "is_blank (b # bs) \<longleftrightarrow>
     (if (9 \<le> b \<and> b \<le> 13) \<or> b = 32 then is_blank bs
      else if b = 0xC2 then (case bs of c # r \<Rightarrow> (c = 0x85 \<or> c = 0xA0) \<and> is_blank r | _ \<Rightarrow> False)
      else if b = 0xE1 then (case bs of c # d # r \<Rightarrow> c = 0x9A \<and> d = 0x80 \<and> is_blank r | _ \<Rightarrow> False)
      else if b = 0xE2 then
        (case bs of c # d # r \<Rightarrow>
           ((c = 0x80 \<and> ((0x80 \<le> d \<and> d \<le> 0x8A) \<or> d = 0xA8 \<or> d = 0xA9 \<or> d = 0xAF)) \<or> (c = 0x81 \<and> d = 0x9F))
           \<and> is_blank r
         | _ \<Rightarrow> False)
      else if b = 0xE3 then (case bs of c # d # r \<Rightarrow> c = 0x80 \<and> d = 0x80 \<and> is_blank r | _ \<Rightarrow> False)
      else False)"

definition forbidden_keys :: "string list" where
  "forbidden_keys = [''secret'', ''token'', ''password'', ''credential'', ''input'', ''output'']"

definition ascii_lower :: "string \<Rightarrow> string" where
  "ascii_lower s = map (\<lambda>c. let n = (of_char c :: nat) in if 65 \<le> n \<and> n \<le> 90 then char_of (n + 32) else c) s"

definition ends_with :: "string \<Rightarrow> string \<Rightarrow> bool" where
  "ends_with s t \<longleftrightarrow> length t \<le> length s \<and> drop (length s - length t) s = t"

definition metadata_entry_ok :: "string \<times> string \<Rightarrow> bool" where
  "metadata_entry_ok = (\<lambda>(key, value). length key \<le> 64 \<and> length value \<le> 256
     \<and> \<not> list_ex (\<lambda>f. ascii_lower key = f \<or> ends_with (ascii_lower key) (CHR ''_'' # f)) forbidden_keys)"

definition validate_metadata :: "(string, string) fmap \<Rightarrow> nat \<Rightarrow> unit result" where
  "validate_metadata metadata max_entries =
     (if bt_len metadata > max_entries \<or> \<not> list_all metadata_entry_ok (bt_entries metadata)
      then Inl audit_metadata_error else Inr ())"

definition bounded_event_capacity :: "TrustPlaneBudget \<Rightarrow> nat" where
  "bounded_event_capacity budget = min (tb_audit_events_per_segment budget * 64) (2 ^ 64 - 1)"

section \<open>The log\<close>

record PersistentAuditLog =
  al_file :: "bytes option"
  al_budget :: TrustPlaneBudget
  al_events :: "AuditEvent list"
  al_bytes_this_tick :: u64

fun read_events ::
  "AuditEvent serde \<Rightarrow> (bytes \<Rightarrow> bytes) \<Rightarrow> AuditEvent list \<Rightarrow> bytes list \<Rightarrow> AuditEvent list result" where
  "read_events sd sha events [] = Inr events"
| "read_events sd sha events (line # lines) =
     (if \<not> valid_utf8 line then Inl audit_storage_error
      else if is_blank line then read_events sd sha events lines
      else case from_slice sd line of
        None \<Rightarrow> Inl audit_corrupt_error
      | Some e \<Rightarrow>
          bind_result (validate_next_event sd sha (if events = [] then None else Some (last events)) e)
            (\<lambda>_. read_events sd sha (events @ [e]) lines))"

definition audit_open ::
  "AuditEvent serde \<Rightarrow> (bytes \<Rightarrow> bytes) \<Rightarrow> TrustPlaneBudget \<Rightarrow> bool \<Rightarrow> bool \<Rightarrow> bytes option
     \<Rightarrow> PersistentAuditLog result" where
  "audit_open sd sha budget parent_ok readable file =
     (if tb_audit_events_per_segment budget = 0 \<or> tb_audit_metadata_entries budget = 0 \<or> tb_audit_bytes budget = 0
      then Inl audit_config_error
      else if \<not> parent_ok then Inl audit_storage_error
      else bind_result
        (case file of
           None \<Rightarrow> Inr []
         | Some bs \<Rightarrow> if readable then read_events sd sha [] (lines_from [] bs) else Inl audit_storage_error)
        (\<lambda>events.
           if length events > bounded_event_capacity budget then Inl audit_archival_error
           else Inr \<lparr>al_file = file, al_budget = budget, al_events = events, al_bytes_this_tick = 0\<rparr>))"

record audit_io =
  au_open :: bool
  au_torn :: "nat option"
  au_sync :: bool

text \<open>The open call creates the file; the bytes of a failed write stay in it.\<close>

definition append_file :: "audit_io \<Rightarrow> bytes \<Rightarrow> bytes option \<Rightarrow> bool \<times> bytes option" where
  "append_file io bs file =
     (if \<not> au_open io then (False, file)
      else case au_torn io of
        Some k \<Rightarrow> (False, Some (unwrap_or [] file @ take k bs))
      | None \<Rightarrow> (au_sync io, Some (unwrap_or [] file @ bs)))"

definition next_event ::
  "(bytes \<Rightarrow> bytes) \<Rightarrow> PersistentAuditLog \<Rightarrow> u64 \<Rightarrow> AuditEventKind \<Rightarrow> GlobalTaskId option \<Rightarrow> u32 option
     \<Rightarrow> NodeId option \<Rightarrow> (string, string) fmap \<Rightarrow> AuditEvent" where
  "next_event sha log tick kind task attempt node metadata =
     \<lparr>ae_sequence = (if al_events log = [] then 1 else sat_add (ae_sequence (last (al_events log))) 1),
      ae_tick = tick, ae_kind = kind, ae_task_id = task, ae_attempt = attempt, ae_node_id = node,
      ae_metadata = metadata,
      ae_previous_hash = (if al_events log = [] then genesis_hash sha else ae_event_hash (last (al_events log))),
      ae_event_hash = []\<rparr>"

definition audit_append ::
  "AuditEvent serde \<Rightarrow> (bytes \<Rightarrow> bytes) \<Rightarrow> audit_io \<Rightarrow> u64 \<Rightarrow> AuditEventKind \<Rightarrow> GlobalTaskId option
     \<Rightarrow> u32 option \<Rightarrow> NodeId option \<Rightarrow> (string, string) fmap \<Rightarrow> PersistentAuditLog
     \<Rightarrow> AuditEvent result \<times> PersistentAuditLog" where
  "audit_append sd sha io tick kind task attempt node metadata log =
     (case validate_metadata metadata (tb_audit_metadata_entries (al_budget log)) of
        Inl err \<Rightarrow> (Inl err, log)
      | Inr _ \<Rightarrow>
          if length (al_events log) \<ge> bounded_event_capacity (al_budget log) then (Inl audit_full_error, log)
          else
            let e = next_event sha log tick kind task attempt node metadata in
            case hash_event sd sha e of
              Inl err \<Rightarrow> (Inl err, log)
            | Inr h \<Rightarrow>
                let e = e\<lparr>ae_event_hash := h\<rparr> in
                (case to_vec sd e of
                   None \<Rightarrow> (Inl audit_corrupt_error, log)
                 | Some bs \<Rightarrow>
                     let encoded = bs @ [10]; spent = sat_add (al_bytes_this_tick log) (of_nat (length encoded)) in
                     if spent > tb_audit_bytes (al_budget log) then (Inl audit_budget_error, log)
                     else case append_file io encoded (al_file log) of
                       (False, file) \<Rightarrow> (Inl audit_storage_error, log\<lparr>al_file := file\<rparr>)
                     | (True, file) \<Rightarrow>
                         (Inr e, log\<lparr>al_file := file, al_bytes_this_tick := spent, al_events := al_events log @ [e]\<rparr>)))"

definition audit_next_tick :: "PersistentAuditLog \<Rightarrow> PersistentAuditLog" where
  "audit_next_tick log = log\<lparr>al_bytes_this_tick := 0\<rparr>"

definition trace_task :: "PersistentAuditLog \<Rightarrow> GlobalTaskId \<Rightarrow> AuditEvent list" where
  "trace_task log task = filter (\<lambda>e. ae_task_id e = Some task) (al_events log)"

definition trace_attempt :: "PersistentAuditLog \<Rightarrow> GlobalTaskId \<Rightarrow> u32 \<Rightarrow> AuditEvent list" where
  "trace_attempt log task attempt = filter (\<lambda>e. ae_task_id e = Some task \<and> ae_attempt e = Some attempt) (al_events log)"

definition trace_node :: "PersistentAuditLog \<Rightarrow> NodeId \<Rightarrow> AuditEvent list" where
  "trace_node log node = filter (\<lambda>e. ae_node_id e = Some node) (al_events log)"

section \<open>Merkle trees\<close>

definition hash_pair :: "(bytes \<Rightarrow> bytes) \<Rightarrow> string \<Rightarrow> string \<Rightarrow> string" where
  "hash_pair sha l r = digest_hex sha (as_bytes (l @ '':'' @ r))"

fun next_merkle_level :: "(bytes \<Rightarrow> bytes) \<Rightarrow> string list \<Rightarrow> string list" where
  "next_merkle_level sha (x # y # level) = hash_pair sha x y # next_merkle_level sha level"
| "next_merkle_level sha [x] = [hash_pair sha x x]"
| "next_merkle_level sha [] = []"

lemma length_next_merkle_level: "length (next_merkle_level sha level) = (length level + 1) div 2"
  by (induction sha level rule: next_merkle_level.induct) auto

function merkle_fold :: "(bytes \<Rightarrow> bytes) \<Rightarrow> string list \<Rightarrow> string" where
  "merkle_fold sha level =
     (if length level > 1 then merkle_fold sha (next_merkle_level sha level) else level ! 0)"
  by auto

termination by (relation "measure (length \<circ> snd)") (auto simp: length_next_merkle_level)

declare merkle_fold.simps [simp del]

definition merkle_root :: "(bytes \<Rightarrow> bytes) \<Rightarrow> string list \<Rightarrow> string" where
  "merkle_root sha leaves =
     (if leaves = [] then digest_hex sha (as_bytes ''mutsuki-empty-merkle-v1'') else merkle_fold sha leaves)"

definition build_segment ::
  "(bytes \<Rightarrow> bytes) \<Rightarrow> PersistentAuditLog \<Rightarrow> u64 \<Rightarrow> u64 \<Rightarrow> string option \<Rightarrow> AuditSegment result" where
  "build_segment sha log segment_id start_sequence previous_root =
     (let events = take (tb_audit_events_per_segment (al_budget log))
                     (filter (\<lambda>e. ae_sequence e \<ge> start_sequence) (al_events log))
      in if events = [] then Inl audit_unknown_error
         else Inr \<lparr>as_segment_id = segment_id, as_first_sequence = ae_sequence (hd events),
                   as_last_sequence = ae_sequence (last events), as_previous_root = previous_root,
                   as_merkle_root = merkle_root sha (map ae_event_hash events),
                   as_leaf_hashes = map ae_event_hash events\<rparr>)"

definition sibling_index :: "nat \<Rightarrow> nat \<Rightarrow> nat" where
  "sibling_index current n = (if even current then min (current + 1) (n - 1) else current - 1)"

function proof_siblings :: "(bytes \<Rightarrow> bytes) \<Rightarrow> string list \<Rightarrow> nat \<Rightarrow> (string \<times> bool) list" where
  "proof_siblings sha level current =
     (if length level > 1
      then (level ! sibling_index current (length level), sibling_index current (length level) < current)
           # proof_siblings sha (next_merkle_level sha level) (current div 2)
      else [])"
  by auto

termination by (relation "measure (\<lambda>(sha, level, current). length level)") (auto simp: length_next_merkle_level)

declare proof_siblings.simps [simp del]

definition inclusion_proof :: "(bytes \<Rightarrow> bytes) \<Rightarrow> AuditSegment \<Rightarrow> u32 \<Rightarrow> AuditInclusionProof result" where
  "inclusion_proof sha segment leaf_index =
     (if unat leaf_index < length (as_leaf_hashes segment)
      then Inr \<lparr>ip_segment_id = as_segment_id segment, ip_leaf_index = leaf_index,
                ip_leaf_hash = as_leaf_hashes segment ! unat leaf_index,
                ip_siblings = proof_siblings sha (as_leaf_hashes segment) (unat leaf_index),
                ip_merkle_root = as_merkle_root segment\<rparr>
      else Inl audit_unknown_error)"

definition fold_path :: "(bytes \<Rightarrow> bytes) \<Rightarrow> string \<Rightarrow> (string \<times> bool) list \<Rightarrow> string" where
  "fold_path sha leaf path =
     foldl (\<lambda>current (sibling, left). if left then hash_pair sha sibling current else hash_pair sha current sibling) leaf path"

definition verify_inclusion :: "(bytes \<Rightarrow> bytes) \<Rightarrow> AuditInclusionProof \<Rightarrow> bool" where
  "verify_inclusion sha p \<longleftrightarrow> fold_path sha (ip_leaf_hash p) (ip_siblings p) = ip_merkle_root p"

definition verify_segment_consistency :: "AuditSegment \<Rightarrow> AuditSegment \<Rightarrow> bool" where
  "verify_segment_consistency previous current \<longleftrightarrow>
     as_segment_id current = sat_add (as_segment_id previous) 1
     \<and> as_first_sequence current = sat_add (as_last_sequence previous) 1
     \<and> as_previous_root current = Some (as_merkle_root previous)"

end
