(* ===== verification/Audit_Properties.thy ===== *)
theory Audit_Properties
  imports Trust_Audit
begin

text \<open>
  The properties of the audit log: the file gives back the events, the chain of hashes and the
  Merkle roots pin them down, every inclusion proof that is built is accepted, and what a
  failed write does to the file.
\<close>

section \<open>Lines\<close>

lemma lines_from_line:
  "10 \<notin> set bs \<Longrightarrow> lines_from acc (bs @ 10 # rest) = strip_cr (rev acc @ bs) # lines_from [] rest"
  by (induction bs arbitrary: acc) auto

text \<open>
  What the log relies on from \<open>serde_json::to_vec\<close>: compact JSON is UTF-8, has no raw line
  break, and is not blank.
\<close>

definition json_line :: "bytes \<Rightarrow> bool" where
  "json_line bs \<longleftrightarrow> 10 \<notin> set bs \<and> 13 \<notin> set bs \<and> valid_utf8 bs \<and> \<not> is_blank bs"

definition line_codec :: "AuditEvent serde \<Rightarrow> bool" where
  "line_codec sd \<longleftrightarrow> serde_ok sd \<and> (\<forall>e bs. to_vec sd e = Some bs \<longrightarrow> json_line bs)"

lemma strip_cr_json: "json_line bs \<Longrightarrow> strip_cr bs = bs"
  by (auto simp: strip_cr_def json_line_def dest: last_in_set)

section \<open>The chain\<close>

definition last_event :: "AuditEvent list \<Rightarrow> AuditEvent option" where
  "last_event es = (if es = [] then None else Some (last es))"

lemma last_event_simps [simp]: "last_event [] = None" "last_event (es @ [e]) = Some e"
  by (simp_all add: last_event_def)

fun chain_ok :: "AuditEvent serde \<Rightarrow> (bytes \<Rightarrow> bytes) \<Rightarrow> AuditEvent option \<Rightarrow> AuditEvent list \<Rightarrow> bool" where
  "chain_ok sd sha p [] \<longleftrightarrow> True"
| "chain_ok sd sha p (e # es) \<longleftrightarrow> validate_next_event sd sha p e = Inr () \<and> chain_ok sd sha (Some e) es"

lemma chain_ok_snoc:
  "chain_ok sd sha p (es @ [e]) \<longleftrightarrow>
     chain_ok sd sha p es \<and> validate_next_event sd sha (if es = [] then p else Some (last es)) e = Inr ()"
  by (induction es arbitrary: p) auto

lemma chain_ok_None_snoc:
  "chain_ok sd sha None (es @ [e]) \<longleftrightarrow> chain_ok sd sha None es \<and> validate_next_event sd sha (last_event es) e = Inr ()"
  by (simp add: chain_ok_snoc last_event_def)

lemma read_events_last: "read_events sd sha es (line # ls) =
     (if \<not> valid_utf8 line then Inl audit_storage_error
      else if is_blank line then read_events sd sha es ls
      else case from_slice sd line of
        None \<Rightarrow> Inl audit_corrupt_error
      | Some e \<Rightarrow> bind_result (validate_next_event sd sha (last_event es) e) (\<lambda>_. read_events sd sha (es @ [e]) ls))"
  unfolding last_event_def by (rule read_events.simps(2))

declare read_events.simps(2) [simp del]

lemma read_events_chain:
  "read_events sd sha es ls = Inr es' \<Longrightarrow> chain_ok sd sha None es \<Longrightarrow> chain_ok sd sha None es'"
proof (induction ls arbitrary: es)
  case (Cons l ls)
  then show ?case
    by (auto simp: read_events_last chain_ok_None_snoc bind_result_Inr split: if_splits option.splits)
qed simp

lemma validate_next_event_Inr:
  "validate_next_event sd sha p e = Inr () \<longleftrightarrow>
     ae_sequence e = (case p of None \<Rightarrow> 1 | Some q \<Rightarrow> sat_add (ae_sequence q) 1)
     \<and> ae_previous_hash e = (case p of None \<Rightarrow> genesis_hash sha | Some q \<Rightarrow> ae_event_hash q)
     \<and> hash_event sd sha e = Inr (ae_event_hash e)"
  by (auto simp: validate_next_event_def Let_def bind_result_Inr split: if_splits)

definition encoded_lines :: "AuditEvent serde \<Rightarrow> AuditEvent list \<Rightarrow> bytes" where
  "encoded_lines sd es = concat (map (\<lambda>e. unwrap_or [] (to_vec sd e) @ [10]) es)"

lemma read_encoded_lines:
  assumes lc: "line_codec sd" and "\<forall>e \<in> set es. to_vec sd e \<noteq> None"
  shows "chain_ok sd sha None (done' @ es) \<Longrightarrow>
     read_events sd sha done' (lines_from [] (encoded_lines sd es @ rest)) = read_events sd sha (done' @ es) (lines_from [] rest)"
  using assms(2)
proof (induction es arbitrary: done')
  case (Cons e es)
  obtain bs where bs: "to_vec sd e = Some bs" "json_line bs" "from_slice sd bs = Some e"
    using Cons.prems(2) lc by (auto simp: line_codec_def dest: serde_okD)
  have "chain_ok sd sha None ((done' @ [e]) @ es)" using Cons.prems(1) by simp
  then have step: "read_events sd sha (done' @ [e]) (lines_from [] (encoded_lines sd es @ rest))
      = read_events sd sha ((done' @ [e]) @ es) (lines_from [] rest)"
    using Cons.IH Cons.prems(2) by simp
  have pre: "chain_ok sd sha p (xs @ ys) \<Longrightarrow> chain_ok sd sha p xs" for p xs ys
    by (induction xs arbitrary: p) auto
  have "chain_ok sd sha None (done' @ [e])" using pre [of None "done' @ [e]" es] Cons.prems(1) by simp
  then have v: "validate_next_event sd sha (last_event done') e = Inr ()" by (simp add: chain_ok_None_snoc)
  have "lines_from [] (encoded_lines sd (e # es) @ rest) = bs # lines_from [] (encoded_lines sd es @ rest)"
    using bs lines_from_line [of bs "[]"] strip_cr_json by (simp add: encoded_lines_def json_line_def)
  then show ?case using bs v step by (simp add: read_events_last json_line_def)
qed (simp add: encoded_lines_def)

section \<open>Runs of the log\<close>

record audit_entry =
  ent_tick :: u64
  ent_kind :: AuditEventKind
  ent_task :: "GlobalTaskId option"
  ent_attempt :: "u32 option"
  ent_node :: "NodeId option"
  ent_metadata :: "(string, string) fmap"

datatype audit_op = AppendOp audit_io audit_entry | NextTickOp

abbreviation append_entry ::
  "AuditEvent serde \<Rightarrow> (bytes \<Rightarrow> bytes) \<Rightarrow> audit_io \<Rightarrow> audit_entry \<Rightarrow> PersistentAuditLog \<Rightarrow> AuditEvent result \<times> PersistentAuditLog"
where
  "append_entry sd sha io x log \<equiv>
     audit_append sd sha io (ent_tick x) (ent_kind x) (ent_task x) (ent_attempt x) (ent_node x) (ent_metadata x) log"

fun audit_step :: "AuditEvent serde \<Rightarrow> (bytes \<Rightarrow> bytes) \<Rightarrow> audit_op \<Rightarrow> PersistentAuditLog \<Rightarrow> PersistentAuditLog" where
  "audit_step sd sha (AppendOp io x) log = snd (append_entry sd sha io x log)"
| "audit_step sd sha NextTickOp log = audit_next_tick log"

text \<open>A write that fails leaves no bytes behind.\<close>

definition clean_io :: "audit_io \<Rightarrow> bool" where
  "clean_io io \<longleftrightarrow> (case au_torn io of None \<Rightarrow> au_sync io | Some k \<Rightarrow> k = 0) \<or> \<not> au_open io"

fun clean_op :: "audit_op \<Rightarrow> bool" where
  "clean_op (AppendOp io x) = clean_io io"
| "clean_op NextTickOp = True"

lemma audit_append_cases:
  assumes "append_entry sd sha io x log = (r, log')"
  obtains (refused) "log' = log" and "isl r"
  | (failed) e bs where "r = Inl audit_storage_error" and "to_vec sd e = Some bs"
      and "validate_next_event sd sha (last_event (al_events log)) e = Inr ()"
      and "log' = log\<lparr>al_file := snd (append_file io (bs @ [10]) (al_file log))\<rparr>"
      and "\<not> fst (append_file io (bs @ [10]) (al_file log))"
  | (appended) e bs s where "r = Inr e" and "to_vec sd e = Some bs" and "length (al_events log) < bounded_event_capacity (al_budget log)"
      and "validate_next_event sd sha (last_event (al_events log)) e = Inr ()"
      and "log' = log\<lparr>al_file := Some (unwrap_or [] (al_file log) @ bs @ [10]), al_bytes_this_tick := s,
                     al_events := al_events log @ [e]\<rparr>"
proof -
  let ?e = "next_event sha log (ent_tick x) (ent_kind x) (ent_task x) (ent_attempt x) (ent_node x) (ent_metadata x)"
  show ?thesis
  proof (cases "hash_event sd sha ?e")
    case (Inl err)
    then have "log' = log \<and> isl r" using assms by (auto simp: audit_append_def Let_def split: sum.splits if_splits)
    then show ?thesis using refused by blast
  next
    case (Inr h)
    let ?f = "?e\<lparr>ae_event_hash := h\<rparr>"
    have "hash_event sd sha ?f = hash_event sd sha ?e" by (simp add: hash_event_def)
    then have v: "validate_next_event sd sha (last_event (al_events log)) ?f = Inr ()"
      using Inr by (simp add: validate_next_event_Inr last_event_def next_event_def)
    show ?thesis
    proof (cases "to_vec sd ?f")
      case None
      then have "log' = log \<and> isl r" using assms Inr by (auto simp: audit_append_def Let_def split: sum.splits if_splits)
      then show ?thesis using refused by blast
    next
      case (Some bs)
      obtain b f where af: "append_file io (bs @ [10]) (al_file log) = (b, f)" by fastforce
      let ?s = "sat_add (al_bytes_this_tick log) (of_nat (length (bs @ [10])))"
      have full: "b \<Longrightarrow> f = Some (unwrap_or [] (al_file log) @ bs @ [10])"
        using af by (auto simp: append_file_def split: if_splits option.splits)
      have "(log' = log \<and> isl r)
          \<or> (\<not> b \<and> r = Inl audit_storage_error \<and> log' = log\<lparr>al_file := f\<rparr>)
          \<or> (b \<and> r = Inr ?f \<and> length (al_events log) < bounded_event_capacity (al_budget log)
             \<and> log' = log\<lparr>al_file := f, al_bytes_this_tick := ?s, al_events := al_events log @ [?f]\<rparr>)"
        using assms Inr Some af by (auto simp: audit_append_def Let_def split: sum.splits if_splits bool.splits)
      then show ?thesis using refused failed [OF _ Some v] appended [OF _ Some _ v] af full by auto
    qed
  qed
qed

definition log_ok :: "AuditEvent serde \<Rightarrow> (bytes \<Rightarrow> bytes) \<Rightarrow> PersistentAuditLog \<Rightarrow> bool" where
  "log_ok sd sha log \<longleftrightarrow> chain_ok sd sha None (al_events log) \<and> (\<forall>e \<in> set (al_events log). to_vec sd e \<noteq> None)
     \<and> unwrap_or [] (al_file log) = encoded_lines sd (al_events log)
     \<and> length (al_events log) \<le> bounded_event_capacity (al_budget log)"

lemma audit_step_ok:
  assumes ok: "log_ok sd sha log" and clean: "clean_op op"
  shows "log_ok sd sha (audit_step sd sha op log) \<and> al_budget (audit_step sd sha op log) = al_budget log"
proof (cases op)
  case (AppendOp io x)
  obtain r log' where a: "append_entry sd sha io x log = (r, log')" by fastforce
  from a show ?thesis
  proof (cases rule: audit_append_cases)
    case (failed e bs)
    have "unwrap_or [] (snd (append_file io (bs @ [10]) (al_file log))) = unwrap_or [] (al_file log)"
      using failed(5) clean AppendOp by (auto simp: append_file_def clean_io_def split: option.splits if_splits)
    with ok failed(4) a AppendOp show ?thesis by (simp add: log_ok_def)
  next
    case (appended e bs s)
    with ok a AppendOp show ?thesis by (auto simp: log_ok_def chain_ok_None_snoc encoded_lines_def)
  qed (use ok a AppendOp in simp)
qed (use ok in \<open>simp add: log_ok_def audit_next_tick_def\<close>)

lemma audit_run_ok:
  "log_ok sd sha log \<Longrightarrow> \<forall>op \<in> set ops. clean_op op \<Longrightarrow>
     log_ok sd sha (fold (audit_step sd sha) ops log) \<and> al_budget (fold (audit_step sd sha) ops log) = al_budget log"
  by (induction ops arbitrary: log) (use audit_step_ok in fastforce)+

lemma audit_open_fresh: "audit_open sd sha budget p rd None = Inr log \<Longrightarrow> log_ok sd sha log \<and> al_budget log = budget"
  by (auto simp: audit_open_def log_ok_def encoded_lines_def split: if_splits)

lemma audit_open_budget: "audit_open sd sha budget p rd None = Inr log \<Longrightarrow>
    tb_audit_events_per_segment budget \<noteq> 0 \<and> tb_audit_metadata_entries budget \<noteq> 0 \<and> tb_audit_bytes budget \<noteq> 0"
  by (auto simp: audit_open_def split: if_splits)

lemma read_log_file:
  assumes "line_codec sd" and "log_ok sd sha log" and "al_file log = Some bs"
  shows "read_events sd sha [] (lines_from [] (bs @ rest)) = read_events sd sha (al_events log) (lines_from [] rest)"
  using read_encoded_lines [of sd "al_events log" sha "[]" rest] assms by (simp add: log_ok_def)

section \<open>Properties of the log\<close>

text \<open>
  Claim C35.  Opening the audit file gives back the log: after any sequence of appends and
  ticks on a log that was opened without a file, as long as no failed write leaves bytes
  behind, the file opens again with exactly the events that were acknowledged, in order.
\<close>

theorem audit_log_reopens:
  assumes "line_codec sd" and "audit_open sd sha budget p rd None = Inr log0"
    and "log = fold (audit_step sd sha) ops log0" and "\<forall>op \<in> set ops. clean_op op"
  shows "\<exists>log'. audit_open sd sha budget True True (al_file log) = Inr log' \<and> al_events log' = al_events log"
proof -
  have ok: "log_ok sd sha log" "al_budget log = budget"
    using audit_run_ok [OF _ assms(4)] audit_open_fresh [OF assms(2)] unfolding assms(3) by auto
  have "read_events sd sha [] (lines_from [] (unwrap_or [] (al_file log))) = Inr (al_events log)"
    using read_encoded_lines [of sd "al_events log" sha "[]" "[]"] assms(1) ok(1) by (simp add: log_ok_def)
  moreover have "al_file log = None \<Longrightarrow> al_events log = []"
    using ok(1) by (cases "al_events log") (auto simp: log_ok_def encoded_lines_def)
  moreover have "length (al_events log) \<le> bounded_event_capacity budget" using ok by (simp add: log_ok_def)
  ultimately show ?thesis
    using audit_open_budget [OF assms(2)] by (cases "al_file log") (auto simp: audit_open_def)
qed

text \<open>The byte strings whose digests are the event hashes.\<close>

definition hashed_events :: "AuditEvent serde \<Rightarrow> AuditEvent list \<Rightarrow> bytes set" where
  "hashed_events sd es = {bs. \<exists>e \<in> set es. to_vec sd (e\<lparr>ae_event_hash := []\<rparr>) = Some bs}"

definition collision :: "(bytes \<Rightarrow> bytes) \<Rightarrow> bytes set \<Rightarrow> bytes set \<Rightarrow> bool" where
  "collision sha X Y \<longleftrightarrow> (\<exists>x \<in> X. \<exists>y \<in> Y. x \<noteq> y \<and> digest_hex sha x = digest_hex sha y)"

lemma collision_mono: "collision sha X Y \<Longrightarrow> X \<subseteq> X' \<Longrightarrow> Y \<subseteq> Y' \<Longrightarrow> collision sha X' Y'"
  unfolding collision_def by blast

lemma sat_add_one_not_one: "1 \<le> s \<Longrightarrow> sat_add s 1 \<noteq> 1" for s :: u64
  using unat_sat_add [of s 1] by (auto simp: word_le_nat_alt dest: arg_cong [where f = unat])

lemma chain_sequence_pos: "chain_ok sd sha None es \<Longrightarrow> e \<in> set es \<Longrightarrow> 1 \<le> ae_sequence e"
proof (induction es rule: rev_induct)
  case (snoc x es)
  show ?case
  proof (cases "e = x")
    case True
    then have "ae_sequence e = (case last_event es of None \<Rightarrow> 1 | Some q \<Rightarrow> sat_add (ae_sequence q) 1)"
      using snoc.prems(1) by (simp add: chain_ok_None_snoc validate_next_event_Inr)
    moreover have "1 \<le> sat_add s 1" for s :: u64 by (simp add: word_le_nat_alt unat_sat_add)
    ultimately show ?thesis by (simp split: option.splits)
  qed (use snoc in \<open>simp add: chain_ok_None_snoc\<close>)
qed simp

lemma same_event:
  assumes "serde_ok sd" and "hash_event sd sha e = Inr (ae_event_hash e)" and "hash_event sd sha f = Inr (ae_event_hash f)"
    and "ae_event_hash e = ae_event_hash f" and "\<not> collision sha (hashed_events sd [e]) (hashed_events sd [f])"
  shows "e = f"
proof -
  obtain bs where e: "to_vec sd (e\<lparr>ae_event_hash := []\<rparr>) = Some bs" "digest_hex sha bs = ae_event_hash e"
    using assms(2) by (auto simp: hash_event_def split: option.splits)
  obtain cs where f: "to_vec sd (f\<lparr>ae_event_hash := []\<rparr>) = Some cs" "digest_hex sha cs = ae_event_hash f"
    using assms(3) by (auto simp: hash_event_def split: option.splits)
  have "bs = cs" using assms(4,5) e f by (auto simp: collision_def hashed_events_def)
  then have "e\<lparr>ae_event_hash := []\<rparr> = f\<lparr>ae_event_hash := []\<rparr>"
    using serde_okD [OF assms(1)] e(1) f(1) by (metis option.inject)
  then show ?thesis using assms(4) by (cases e; cases f) simp
qed

lemma chain_lastD:
  assumes "chain_ok sd sha None (es @ [e])"
  shows "chain_ok sd sha None es" and "hash_event sd sha e = Inr (ae_event_hash e)"
    and "ae_sequence e = (case last_event es of None \<Rightarrow> 1 | Some q \<Rightarrow> sat_add (ae_sequence q) 1)"
    and "ae_previous_hash e = (case last_event es of None \<Rightarrow> genesis_hash sha | Some q \<Rightarrow> ae_event_hash q)"
  using assms by (auto simp: chain_ok_None_snoc validate_next_event_Inr)

lemma chain_sequence_one:
  assumes "chain_ok sd sha None (es @ [e])"
  shows "ae_sequence e = 1 \<longleftrightarrow> es = []"
proof (cases es rule: rev_cases)
  case (snoc ds d)
  then have "ae_sequence e = sat_add (ae_sequence d) 1" "1 \<le> ae_sequence d"
    using chain_lastD(3) [OF assms] chain_sequence_pos [OF assms] by simp_all
  then show ?thesis using sat_add_one_not_one snoc by simp
qed (use chain_lastD(3) [OF assms] in simp)

lemma chain_unique:
  assumes "serde_ok sd"
  shows "chain_ok sd sha None (es @ [e]) \<Longrightarrow> chain_ok sd sha None (fs @ [f]) \<Longrightarrow> ae_event_hash e = ae_event_hash f \<Longrightarrow>
     \<not> collision sha (hashed_events sd (es @ [e])) (hashed_events sd (fs @ [f])) \<Longrightarrow> es @ [e] = fs @ [f]"
proof (induction es arbitrary: e f fs rule: rev_induct)
  case Nil
  have sub: "hashed_events sd [e] \<subseteq> hashed_events sd ([] @ [e])" "hashed_events sd [f] \<subseteq> hashed_events sd (fs @ [f])"
    by (auto simp: hashed_events_def)
  have "e = f"
    using same_event [OF assms chain_lastD(2) [OF Nil.prems(1)] chain_lastD(2) [OF Nil.prems(2)] Nil.prems(3)]
      Nil.prems(4) collision_mono [OF _ sub] by blast
  then show ?case using chain_sequence_one [OF Nil.prems(1)] chain_sequence_one [OF Nil.prems(2)] by simp
next
  case (snoc d ds)
  let ?c = "collision sha"
  have sub: "hashed_events sd [e] \<subseteq> hashed_events sd ((ds @ [d]) @ [e])" "hashed_events sd [f] \<subseteq> hashed_events sd (fs @ [f])"
    "hashed_events sd (ds @ [d]) \<subseteq> hashed_events sd ((ds @ [d]) @ [e])" "hashed_events sd fs \<subseteq> hashed_events sd (fs @ [f])"
    by (auto simp: hashed_events_def)
  have ef: "e = f"
    using same_event [OF assms chain_lastD(2) [OF snoc.prems(1)] chain_lastD(2) [OF snoc.prems(2)] snoc.prems(3)]
      snoc.prems(4) collision_mono [OF _ sub(1,2)] by blast
  have "fs \<noteq> []" using chain_sequence_one [OF snoc.prems(1)] chain_sequence_one [OF snoc.prems(2)] ef by simp
  then obtain gs g where g: "fs = gs @ [g]" by (meson rev_exhaust)
  have "chain_ok sd sha None (ds @ [d])" "ae_event_hash d = ae_previous_hash e"
    using chain_lastD(1,4) [OF snoc.prems(1)] by simp_all
  moreover have "chain_ok sd sha None (gs @ [g])" "ae_event_hash g = ae_previous_hash f"
    using chain_lastD(1,4) [OF snoc.prems(2)] g by simp_all
  moreover have "\<not> ?c (hashed_events sd (ds @ [d])) (hashed_events sd (gs @ [g]))"
    using snoc.prems(4) collision_mono [OF _ sub(3,4)] g by blast
  ultimately have "ds @ [d] = gs @ [g]" using snoc.IH ef by simp
  then show ?case using ef g by simp
qed

lemma audit_open_chain: "audit_open sd sha b q r f = Inr l \<Longrightarrow> chain_ok sd sha None (al_events l)"
  by (auto simp: audit_open_def bind_result_Inr split: if_splits option.splits dest: read_events_chain)

text \<open>
  Claim C36.  The last event hash stands for the whole log: two audit files that open with the
  same last event hash hold the same events, or two of the events they hold have encodings
  that differ and have the same SHA-256 digest.
\<close>

theorem audit_tamper_evident:
  assumes "serde_ok sd"
    and "audit_open sd sha budget p rd file = Inr log" and "audit_open sd sha budget' p' rd' file' = Inr log'"
    and "al_events log \<noteq> []" and "al_events log' \<noteq> []"
    and "ae_event_hash (last (al_events log)) = ae_event_hash (last (al_events log'))"
  shows "al_events log = al_events log'
    \<or> collision sha (hashed_events sd (al_events log)) (hashed_events sd (al_events log'))"
proof -
  obtain es e fs f where "al_events log = es @ [e]" "al_events log' = fs @ [f]"
    using assms(4,5) by (meson rev_exhaust)
  then show ?thesis using chain_unique [OF assms(1)] audit_open_chain assms(2,3,6) by (metis last_snoc)
qed

lemma chain_hash_digest:
  "chain_ok sd sha p es \<Longrightarrow> e \<in> set es \<Longrightarrow> \<exists>bs. ae_event_hash e = digest_hex sha bs"
proof (induction es arbitrary: p)
  case (Cons x es)
  then have "hash_event sd sha x = Inr (ae_event_hash x)" by (simp add: validate_next_event_Inr)
  then have "\<exists>bs. digest_hex sha bs = ae_event_hash x" by (auto simp: hash_event_def split: option.splits)
  then have "\<exists>bs. ae_event_hash x = digest_hex sha bs" by metis
  with Cons show ?case by auto
qed simp

lemma read_two_lines:
  assumes "json_line bs" "json_line cs" "from_slice sd bs = Some e" "from_slice sd cs = Some f"
    and "validate_next_event sd sha (last_event es) e = Inr ()" "validate_next_event sd sha (Some e) f = Inl err"
  shows "read_events sd sha es (lines_from [] (bs @ 10 # cs @ [10])) = Inl err"
  using assms lines_from_line [of bs "[]" "cs @ [10]"] lines_from_line [of cs "[]" "[]"]
  by (simp add: read_events_last json_line_def strip_cr_json)

text \<open>
  A write whose sync fails leaves the log unable to open again: the failed append
  keeps the event list but leaves its line in the file, the next append writes another line
  with the same sequence number and is acknowledged, and opening the file then fails as
  corrupt, so that every event acknowledged before is unreadable.
\<close>

theorem audit_failed_sync_poisons:
  assumes "line_codec sd" and "audit_open sd sha budget p rd None = Inr log0"
    and "log = fold (audit_step sd sha) ops log0" and "\<forall>op \<in> set ops. clean_op op"
    and "au_open io" "au_torn io = None"
    and "append_entry sd sha io x log = (Inl err, log1)" and "al_file log1 \<noteq> al_file log"
    and "append_entry sd sha io' y log1 = (Inr e, log2)" and "ae_sequence e \<noteq> - 1"
  shows "al_events log1 = al_events log \<and> e \<in> set (al_events log2)
    \<and> audit_open sd sha budget True True (al_file log2) = Inl audit_corrupt_error"
proof -
  have ok: "log_ok sd sha log" "al_budget log = budget"
    using audit_run_ok [OF _ assms(4)] audit_open_fresh [OF assms(2)] unfolding assms(3) by auto
  obtain d bs where d: "to_vec sd d = Some bs" "validate_next_event sd sha (last_event (al_events log)) d = Inr ()"
    and log1: "log1 = log\<lparr>al_file := Some (unwrap_or [] (al_file log) @ bs @ [10])\<rparr>"
    using assms(7) by (rule audit_append_cases) (use assms(5,6,8) in \<open>auto simp: append_file_def\<close>)
  obtain cs s where e: "to_vec sd e = Some cs" "validate_next_event sd sha (last_event (al_events log)) e = Inr ()"
    and log2: "log2 = log1\<lparr>al_file := Some (unwrap_or [] (al_file log1) @ cs @ [10]), al_bytes_this_tick := s,
                 al_events := al_events log @ [e]\<rparr>"
    using assms(9) by (rule audit_append_cases) (auto simp: log1)
  have "ae_sequence d = ae_sequence e" using d(2) e(2) by (simp add: validate_next_event_Inr)
  moreover have "sat_add (ae_sequence e) 1 \<noteq> ae_sequence e" using sat_add_one_fresh [OF assms(10)] by simp
  ultimately have bad: "validate_next_event sd sha (Some d) e = Inl audit_corrupt_error"
    by (simp add: validate_next_event_def)
  have "read_events sd sha (al_events log) (lines_from [] (bs @ 10 # cs @ [10])) = Inl audit_corrupt_error"
    by (rule read_two_lines [OF _ _ _ _ d(2) bad]) (use assms(1) d(1) e(1) in \<open>auto simp: line_codec_def dest: serde_okD\<close>)
  then have "read_events sd sha [] (lines_from [] (unwrap_or [] (al_file log) @ bs @ 10 # cs @ [10])) = Inl audit_corrupt_error"
    using read_encoded_lines [of sd "al_events log" sha "[]"] assms(1) ok(1) by (simp add: log_ok_def)
  then show ?thesis using audit_open_budget [OF assms(2)] by (simp add: log1 log2 audit_open_def)
qed

section \<open>A concrete log\<close>

definition demo_sha1 :: "bytes \<Rightarrow> bytes" where
  "demo_sha1 bs = take 1 bs"

definition demo_audit_event :: "u64 \<Rightarrow> string \<Rightarrow> string \<Rightarrow> AuditEvent" where
  "demo_audit_event n previous h = \<lparr>ae_sequence = n, ae_tick = 5, ae_kind = Lease, ae_task_id = None, ae_attempt = None,
     ae_node_id = None, ae_metadata = fmempty, ae_previous_hash = previous, ae_event_hash = h\<rparr>"

definition demo_table :: "(AuditEvent \<times> bytes) list" where
  "demo_table = [(demo_audit_event 1 ''6d'' [], [65]), (demo_audit_event 1 ''6d'' ''41'', [66]),
     (demo_audit_event 2 ''41'' [], [67]), (demo_audit_event 2 ''41'' ''43'', [68])]"

definition demo_audit_codec :: "AuditEvent serde" where
  "demo_audit_codec = \<lparr>to_vec = map_of demo_table, from_slice = map_of (map (\<lambda>(e, bs). (bs, e)) demo_table)\<rparr>"

definition demo_trust_budget :: TrustPlaneBudget where
  "demo_trust_budget = \<lparr>tb_signatures = 4, tb_verifications = 4, tb_replays = 4, tb_audit_events_per_segment = 4,
     tb_audit_metadata_entries = 4, tb_audit_bytes = 100, tb_reputation_updates = 4, tb_attestations = 4,
     tb_compute_units = 4, tb_network_bytes = 4, tb_storage_bytes = 4\<rparr>"

definition demo_audit_log :: PersistentAuditLog where
  "demo_audit_log = \<lparr>al_file = None, al_budget = demo_trust_budget, al_events = [], al_bytes_this_tick = 0\<rparr>"

definition demo_entry :: audit_entry where
  "demo_entry = \<lparr>ent_tick = 5, ent_kind = Lease, ent_task = None, ent_attempt = None, ent_node = None, ent_metadata = fmempty\<rparr>"

abbreviation demo_audit_io :: "bool \<Rightarrow> audit_io" where
  "demo_audit_io synced \<equiv> \<lparr>au_open = True, au_torn = None, au_sync = synced\<rparr>"

lemma demo_line_codec [simp]: "line_codec demo_audit_codec"
  by (auto simp: line_codec_def serde_ok_def demo_audit_codec_def demo_table_def demo_audit_event_def json_line_def
        split: if_splits)

lemma demo_audit_open [simp]: "audit_open sd sha demo_trust_budget True True None = Inr demo_audit_log"
  by (simp add: audit_open_def demo_trust_budget_def demo_audit_log_def bounded_event_capacity_def)

lemma demo_genesis: "genesis_hash demo_sha1 = ''6d''"
  by (simp add: genesis_hash_def digest_hex_def demo_sha1_def as_bytes_def hex_string_def hex_byte_def hex_digit_def)

lemmas demo_audit = demo_audit_codec_def demo_table_def demo_audit_event_def demo_entry_def audit_append_def
  demo_trust_budget_def demo_genesis next_event_def hash_event_def append_file_def bounded_event_capacity_def validate_metadata_def
  digest_hex_def demo_sha1_def hex_string_def hex_byte_def hex_digit_def

abbreviation demo_event1 :: AuditEvent where "demo_event1 \<equiv> demo_audit_event 1 ''6d'' ''41''"
abbreviation demo_event2 :: AuditEvent where "demo_event2 \<equiv> demo_audit_event 2 ''41'' ''43''"

lemma demo_append1:
  "append_entry demo_audit_codec demo_sha1 (demo_audit_io True) demo_entry (demo_audit_log\<lparr>al_file := f\<rparr>)
     = (Inr demo_event1, demo_audit_log\<lparr>al_file := Some (unwrap_or [] f @ [66, 10]), al_bytes_this_tick := 2, al_events := [demo_event1]\<rparr>)"
  "append_entry demo_audit_codec demo_sha1 (demo_audit_io False) demo_entry demo_audit_log
     = (Inl audit_storage_error, demo_audit_log\<lparr>al_file := Some [66, 10]\<rparr>)"
  by (simp_all add: demo_audit demo_audit_log_def sat_add_def bt_len_def bt_entries_def Let_def fcard_fempty)

lemma audit_log_reopens_witness:
  "\<exists>log'. audit_open demo_audit_codec demo_sha1 demo_trust_budget True True (Some [66, 10]) = Inr log'
     \<and> al_events log' = [demo_event1]"
  using audit_log_reopens [OF demo_line_codec demo_audit_open, where ops = "[AppendOp (demo_audit_io True) demo_entry]"
      and sha = demo_sha1, OF refl] demo_append1(1) [of None]
  by (simp add: demo_audit_log_def clean_io_def)

lemma audit_failed_sync_poisons_witness:
  "audit_open demo_audit_codec demo_sha1 demo_trust_budget True True (Some [66, 10, 66, 10]) = Inl audit_corrupt_error"
  using audit_failed_sync_poisons [OF demo_line_codec demo_audit_open, where ops = "[]" and sha = demo_sha1
      and io = "demo_audit_io False" and log = demo_audit_log and x = demo_entry and y = demo_entry
      and io' = "demo_audit_io True", OF _ _ _ _ demo_append1(2) _ demo_append1(1)]
  by (simp add: demo_audit_log_def demo_audit_event_def)

lemma demo_audit_reads:
  "audit_open demo_audit_codec demo_sha1 demo_trust_budget True True (Some ([66, 10, 68] @ (if b then [10] else [])))
     = Inr (demo_audit_log\<lparr>al_file := Some ([66, 10, 68] @ (if b then [10] else [])), al_events := [demo_event1, demo_event2]\<rparr>)"
  by (simp add: audit_open_def demo_audit demo_audit_log_def validate_next_event_def sat_add_def strip_cr_def
        read_events_last last_event_def)

lemma audit_tamper_evident_witness:
  "\<exists>log log'. audit_open demo_audit_codec demo_sha1 demo_trust_budget True True (Some [66, 10, 68, 10]) = Inr log
     \<and> audit_open demo_audit_codec demo_sha1 demo_trust_budget True True (Some [66, 10, 68]) = Inr log'
     \<and> (al_events log = al_events log'
        \<or> collision demo_sha1 (hashed_events demo_audit_codec (al_events log)) (hashed_events demo_audit_codec (al_events log')))"
  using audit_tamper_evident [OF _ demo_audit_reads [of True] demo_audit_reads [of False]]
    demo_line_codec demo_audit_reads [of True] demo_audit_reads [of False]
  by (simp add: line_codec_def)

end
