(* ===== verification/Audit_Merkle.thy ===== *)
theory Audit_Merkle
  imports Audit_Properties
begin

text \<open>
  The Merkle trees of the audit segments: the path that is built for a leaf leads to the root,
  and a path of the depth of the tree that leads to the root starts at a leaf.
\<close>

section \<open>The path of a leaf\<close>

lemma next_level_nth:
  "i < (length level + 1) div 2 \<Longrightarrow>
     next_merkle_level sha level ! i = hash_pair sha (level ! (2 * i)) (level ! min (2 * i + 1) (length level - 1))"
proof (induction sha level arbitrary: i rule: next_merkle_level.induct)
  case (1 sha x y level)
  show ?case
  proof (cases i)
    case (Suc j)
    with 1 have "j < (length level + 1) div 2" by simp
    moreover have "min (2 * j + 3) (Suc (length level)) = Suc (Suc (min (2 * j + 1) (length level - 1)))"
      using \<open>j < _\<close> by (cases level) auto
    ultimately show ?thesis using 1 Suc by (simp add: numeral_3_eq_3)
  qed simp
qed auto

lemma path_correct:
  "i < length level \<Longrightarrow> fold_path sha (level ! i) (proof_siblings sha level i) = merkle_fold sha level"
proof (induction sha level arbitrary: i rule: merkle_fold.induct)
  case (1 sha level)
  show ?case
  proof (cases "length level > 1")
    case True
    let ?s = "sibling_index i (length level)"
    have "i div 2 < length (next_merkle_level sha level)" using 1(2) by (auto simp: length_next_merkle_level)
    then have rest: "fold_path sha (next_merkle_level sha level ! (i div 2)) (proof_siblings sha (next_merkle_level sha level) (i div 2))
        = merkle_fold sha (next_merkle_level sha level)" using 1(1) True by blast
    have "(if ?s < i then hash_pair sha (level ! ?s) (level ! i) else hash_pair sha (level ! i) (level ! ?s))
        = next_merkle_level sha level ! (i div 2)"
      using 1(2) True by (cases "even i") (auto simp: next_level_nth sibling_index_def min_def elim!: evenE oddE)
    with rest True show ?thesis
      by (simp add: proof_siblings.simps [of sha level i] merkle_fold.simps [of sha level] fold_path_def)
  next
    case False
    then have "i = 0" using 1(2) by simp
    with False show ?thesis
      by (simp add: proof_siblings.simps [of sha level 0] merkle_fold.simps [of sha level] fold_path_def)
  qed
qed

text \<open>
  Every event of a segment has a proof: for a segment built from the log and any
  index within it, the inclusion proof exists, carries the hash of that event and is accepted
  by the verifier.
\<close>

theorem inclusion_proof_verifies:
  assumes "build_segment sha log segment_id start previous = Inr segment"
    and "unat i < length (as_leaf_hashes segment)"
  shows "\<exists>p e. inclusion_proof sha segment i = Inr p \<and> verify_inclusion sha p \<and> ip_merkle_root p = as_merkle_root segment
    \<and> e \<in> set (al_events log) \<and> start \<le> ae_sequence e \<and> ip_leaf_hash p = ae_event_hash e"
proof -
  let ?es = "take (tb_audit_events_per_segment (al_budget log)) (filter (\<lambda>e. ae_sequence e \<ge> start) (al_events log))"
  have seg: "?es \<noteq> []" "as_leaf_hashes segment = map ae_event_hash ?es" "as_merkle_root segment = merkle_root sha (map ae_event_hash ?es)"
    using assms(1) by (auto simp: build_segment_def Let_def split: if_splits)
  then have "fold_path sha (as_leaf_hashes segment ! unat i) (proof_siblings sha (as_leaf_hashes segment) (unat i)) = as_merkle_root segment"
    using path_correct [OF assms(2)] by (simp add: merkle_root_def)
  moreover have "?es ! unat i \<in> set ?es" by (rule nth_mem) (use assms(2) seg(2) in simp)
  then have "?es ! unat i \<in> set (al_events log)" "start \<le> ae_sequence (?es ! unat i)"
    by (auto dest: in_set_takeD)
  moreover have "as_leaf_hashes segment ! unat i = ae_event_hash (?es ! unat i)" using assms(2) seg(2) by simp
  ultimately show ?thesis using assms(2) by (auto simp: inclusion_proof_def verify_inclusion_def)
qed

section \<open>The leaf of a path\<close>

text \<open>The byte strings that are hashed for the root of a level, and those hashed along a path.\<close>

fun level_inputs :: "string list \<Rightarrow> bytes set" where
  "level_inputs (x # y # level) = insert (as_bytes (x @ '':'' @ y)) (level_inputs level)"
| "level_inputs [x] = {as_bytes (x @ '':'' @ x)}"
| "level_inputs [] = {}"

function merkle_inputs :: "(bytes \<Rightarrow> bytes) \<Rightarrow> string list \<Rightarrow> bytes set" where
  "merkle_inputs sha level =
     (if length level > 1 then level_inputs level \<union> merkle_inputs sha (next_merkle_level sha level) else {})"
  by auto

termination by (relation "measure (length \<circ> snd)") (auto simp: length_next_merkle_level)

declare merkle_inputs.simps [simp del]

abbreviation path_pair :: "string \<Rightarrow> string \<times> bool \<Rightarrow> string" where
  "path_pair current s \<equiv> (if snd s then fst s @ '':'' @ current else current @ '':'' @ fst s)"

fun path_inputs :: "(bytes \<Rightarrow> bytes) \<Rightarrow> string \<Rightarrow> (string \<times> bool) list \<Rightarrow> bytes set" where
  "path_inputs sha current [] = {}"
| "path_inputs sha current (s # path) =
     insert (as_bytes (path_pair current s)) (path_inputs sha (digest_hex sha (as_bytes (path_pair current s))) path)"

function tree_depth :: "nat \<Rightarrow> nat" where
  "tree_depth n = (if n > 1 then Suc (tree_depth ((n + 1) div 2)) else 0)"
  by auto

termination by (relation "measure id") auto

declare tree_depth.simps [simp del]

lemma length_proof_siblings: "length (proof_siblings sha level i) = tree_depth (length level)"
  by (induction sha level i rule: proof_siblings.induct)
    (subst proof_siblings.simps, subst tree_depth.simps, simp add: length_next_merkle_level)

definition no_colon :: "string \<Rightarrow> bool" where
  "no_colon s \<longleftrightarrow> CHR '':'' \<notin> set s"

lemma split_at_colon:
  assumes "x @ '':'' @ y = l @ '':'' @ r" and "no_colon l" and "no_colon r"
  shows "x = l \<and> y = r"
proof -
  have "count_list (x @ '':'' @ y) CHR '':'' = 1"
    using assms(2,3) unfolding assms(1) by (simp add: no_colon_def count_list_0_iff)
  then have "CHR '':'' \<notin> set x" by (simp add: count_list_0_iff)
  then have "takeWhile (\<lambda>c. c \<noteq> CHR '':'') (x @ '':'' @ y) = x" by (simp add: takeWhile_append)
  moreover have "takeWhile (\<lambda>c. c \<noteq> CHR '':'') (l @ '':'' @ r) = l"
    using assms(2) by (simp add: takeWhile_append no_colon_def)
  ultimately show ?thesis using assms(1) by simp
qed

lemma no_colon_digest [simp]: "no_colon (digest_hex sha bs)"
proof -
  have "hex_digit n \<noteq> CHR '':''" if "n < 16" for n
    unfolding hex_digit_def using that nth_mem [of n "''0123456789abcdef''"] by auto
  then have "CHR '':'' \<notin> set (hex_byte b)" for b
    unfolding hex_byte_def using unat_bound [of b] by (simp add: eq_commute [of "CHR '':''"])
  then show ?thesis by (simp add: digest_hex_def no_colon_def hex_string_def)
qed

lemma next_level_member:
  "h \<in> set (next_merkle_level sha level) \<Longrightarrow>
     \<exists>x \<in> set level. \<exists>y \<in> set level. h = hash_pair sha x y \<and> as_bytes (x @ '':'' @ y) \<in> level_inputs level"
  by (induction sha level rule: next_merkle_level.induct) auto

lemma as_bytes_inj: "as_bytes s = as_bytes t \<Longrightarrow> s = t"
  by (metis string_of_as_bytes)

lemma path_binds:
  "level \<noteq> [] \<Longrightarrow> \<forall>x \<in> set level. no_colon x \<Longrightarrow> length path = tree_depth (length level) \<Longrightarrow>
   fold_path sha leaf path = merkle_fold sha level \<Longrightarrow>
   \<not> collision sha (path_inputs sha leaf path) (merkle_inputs sha level) \<Longrightarrow> leaf \<in> set level"
proof (induction sha level arbitrary: leaf path rule: merkle_fold.induct)
  case (1 sha level)
  show ?case
  proof (cases "length level > 1")
    case False
    then obtain x where "level = [x]" using 1(2) by (cases level) auto
    with 1 show ?thesis by (simp add: tree_depth.simps merkle_fold.simps [of sha "[x]"] fold_path_def)
  next
    case True
    then obtain s rest where path: "path = s # rest" "length rest = tree_depth (length (next_merkle_level sha level))"
      using 1(4) by (cases path) (auto simp: tree_depth.simps [of "length level"] length_next_merkle_level)
    let ?h = "digest_hex sha (as_bytes (path_pair leaf s))"
    have fold: "fold_path sha ?h rest = merkle_fold sha (next_merkle_level sha level)"
      using 1(5) True path by (cases s) (auto simp: fold_path_def hash_pair_def merkle_fold.simps [of sha level])
    have inputs: "merkle_inputs sha level = level_inputs level \<union> merkle_inputs sha (next_merkle_level sha level)"
      using True by (simp add: merkle_inputs.simps [of sha level])
    have "\<forall>x \<in> set (next_merkle_level sha level). no_colon x" by (auto dest!: next_level_member simp: hash_pair_def)
    moreover have "next_merkle_level sha level \<noteq> []" using True length_next_merkle_level [of sha level] by auto
    moreover have "\<not> collision sha (path_inputs sha ?h rest) (merkle_inputs sha (next_merkle_level sha level))"
      using 1(6) inputs path(1) by (auto simp: collision_def)
    ultimately have "?h \<in> set (next_merkle_level sha level)" using 1(1) True path(2) fold by blast
    then obtain x y where xy: "x \<in> set level" "y \<in> set level" "?h = hash_pair sha x y" "as_bytes (x @ '':'' @ y) \<in> level_inputs level"
      using next_level_member by blast
    then have "as_bytes (path_pair leaf s) = as_bytes (x @ '':'' @ y)"
      using 1(6) inputs path(1) by (auto simp: collision_def hash_pair_def)
    then have "path_pair leaf s = x @ '':'' @ y" by (rule as_bytes_inj)
    then show ?thesis using split_at_colon 1(3) xy(1,2) by (metis (full_types))
  qed
qed

lemma build_segment_Inr:
  assumes "build_segment sha log segment_id start previous = Inr segment"
  shows "as_leaf_hashes segment \<noteq> []" and "as_merkle_root segment = merkle_fold sha (as_leaf_hashes segment)"
    and "set (as_leaf_hashes segment) \<subseteq> ae_event_hash ` {e \<in> set (al_events log). start \<le> ae_sequence e}"
  using assms by (auto simp: build_segment_def Let_def merkle_root_def split: if_splits dest!: in_set_takeD)

text \<open>
  Claim C37.  An accepted proof speaks of an event of the log: for a segment built from an
  opened log, a proof with the root of the segment, as many siblings as the tree is deep and an
  accepting verifier carries the hash of an event of the log, or two different strings among
  those hashed for the path and for the tree have the same digest.
\<close>

theorem inclusion_proof_binds:
  assumes "audit_open sd sha budget pok rd file = Inr log"
    and "build_segment sha log segment_id start previous = Inr segment"
    and "verify_inclusion sha p" and "ip_merkle_root p = as_merkle_root segment"
    and "length (ip_siblings p) = tree_depth (length (as_leaf_hashes segment))"
  shows "(\<exists>e \<in> set (al_events log). start \<le> ae_sequence e \<and> ae_event_hash e = ip_leaf_hash p)
    \<or> collision sha (path_inputs sha (ip_leaf_hash p) (ip_siblings p)) (merkle_inputs sha (as_leaf_hashes segment))"
proof -
  have "chain_ok sd sha None (al_events log)" using audit_open_chain [OF assms(1)] .
  then have "\<forall>e \<in> set (al_events log). no_colon (ae_event_hash e)"
    using chain_hash_digest by (metis no_colon_digest)
  then have "\<forall>x \<in> set (as_leaf_hashes segment). no_colon x" using build_segment_Inr(3) [OF assms(2)] by auto
  moreover have "fold_path sha (ip_leaf_hash p) (ip_siblings p) = merkle_fold sha (as_leaf_hashes segment)"
    using assms(3,4) build_segment_Inr(2) [OF assms(2)] by (simp add: verify_inclusion_def)
  ultimately have member: "\<not> collision sha (path_inputs sha (ip_leaf_hash p) (ip_siblings p)) (merkle_inputs sha (as_leaf_hashes segment))
      \<Longrightarrow> ip_leaf_hash p \<in> set (as_leaf_hashes segment)"
    by (rule path_binds [OF build_segment_Inr(1) [OF assms(2)] _ assms(5)])
  have "x \<in> set (as_leaf_hashes segment) \<Longrightarrow> \<exists>e \<in> set (al_events log). start \<le> ae_sequence e \<and> ae_event_hash e = x" for x
    using build_segment_Inr(3) [OF assms(2)] by auto
  then show ?thesis using member by (metis (no_types))
qed

section \<open>A concrete segment\<close>

abbreviation demo_log2 :: PersistentAuditLog where
  "demo_log2 \<equiv> demo_audit_log\<lparr>al_file := Some [66, 10, 68, 10], al_events := [demo_event1, demo_event2]\<rparr>"

definition demo_segment :: AuditSegment where
  "demo_segment = \<lparr>as_segment_id = 1, as_first_sequence = 1, as_last_sequence = 2, as_previous_root = None,
     as_merkle_root = ''34'', as_leaf_hashes = [''41'', ''43'']\<rparr>"

lemma demo_pair: "hash_pair demo_sha1 ''41'' ''43'' = ''34''"
  by (simp add: hash_pair_def digest_hex_def demo_sha1_def as_bytes_def hex_string_def hex_byte_def hex_digit_def)

lemma demo_build_segment: "build_segment demo_sha1 demo_log2 1 1 None = Inr demo_segment"
  by (simp add: build_segment_def demo_segment_def demo_audit_log_def demo_trust_budget_def demo_audit_event_def
      merkle_root_def merkle_fold.simps [of _ "[x, y]" for x y] merkle_fold.simps [of _ "[x]" for x] demo_pair)

lemma inclusion_proof_verifies_witness:
  "\<exists>p e. inclusion_proof demo_sha1 demo_segment 1 = Inr p \<and> verify_inclusion demo_sha1 p
    \<and> ip_merkle_root p = as_merkle_root demo_segment
    \<and> e \<in> set (al_events demo_log2) \<and> 1 \<le> ae_sequence e \<and> ip_leaf_hash p = ae_event_hash e"
  by (rule inclusion_proof_verifies [OF demo_build_segment]) (simp add: demo_segment_def)

definition demo_proof :: AuditInclusionProof where
  "demo_proof = \<lparr>ip_segment_id = 1, ip_leaf_index = 0, ip_leaf_hash = ''41'', ip_siblings = [(''43'', False)], ip_merkle_root = ''34''\<rparr>"

lemma inclusion_proof_binds_witness:
  "(\<exists>e \<in> set (al_events demo_log2). 1 \<le> ae_sequence e \<and> ae_event_hash e = ''41'')
    \<or> collision demo_sha1 (path_inputs demo_sha1 ''41'' [(''43'', False)]) (merkle_inputs demo_sha1 [''41'', ''43''])"
  using inclusion_proof_binds [OF demo_audit_reads [of True], of 1 1 None demo_segment demo_proof] demo_build_segment demo_pair
  by (simp add: demo_segment_def demo_proof_def verify_inclusion_def fold_path_def tree_depth.simps)

end
