(* ===== verification/Scheduler_Contracts.thy ===== *)
theory Scheduler_Contracts
  imports Trust_Contracts Ha_Contracts Float_Ops
begin

text \<open>
  The descriptors of the scheduler, from \<open>scheduler.rs\<close> of the contracts crate: priorities and
  their lexicographic key, capability and placement bit sets, costs, node snapshots, placement
  requests and plans, reservations, budgets and telemetry.  \<open>f64\<close> is the type parameter \<open>'f\<close>.
\<close>

type_synonym u128 = "128 word"
type_synonym i16 = "16 word"
type_synonym i64 = "64 word"

datatype LatencyClass = ClusterSafety | HardRealtime | SoftRealtime | Interactive | Batch | Background

fun latency_rank :: "LatencyClass \<Rightarrow> u8" where
  "latency_rank ClusterSafety = 6"
| "latency_rank HardRealtime = 5"
| "latency_rank SoftRealtime = 4"
| "latency_rank Interactive = 3"
| "latency_rank Batch = 2"
| "latency_rank Background = 1"

datatype WorkOrigin = Local | Remote

record LexicographicPriority =
  px_safety_critical :: bool
  px_recovery_critical :: bool
  px_latency_class :: LatencyClass
  px_deadline_risk :: u8
  px_dag_criticality :: u8
  px_unlock_value :: u8
  px_business_priority :: i16
  px_age_ticks :: u64
  px_fair_share_credit :: i64
  px_origin :: WorkOrigin

text \<open>
  The key is a tuple that is compared from left to right; it is modelled as the list of the
  components' values, all keys having the same length.
\<close>

definition scheduling_key :: "LexicographicPriority \<Rightarrow> int list" where
  "scheduling_key p =
     [of_bool (px_safety_critical p), of_bool (px_recovery_critical p), uint (latency_rank (px_latency_class p)),
      of_bool (px_origin p = Local), uint (px_deadline_risk p), uint (px_dag_criticality p), uint (px_unlock_value p),
      sint (px_business_priority p), uint (px_age_ticks p), sint (px_fair_share_credit p)]"

definition cap_cpu :: u128 where "cap_cpu = 1"
definition cap_avx2 :: u128 where "cap_avx2 = push_bit 1 1"
definition cap_cuda :: u128 where "cap_cuda = push_bit 2 1"
definition cap_metal :: u128 where "cap_metal = push_bit 3 1"
definition cap_vulkan :: u128 where "cap_vulkan = push_bit 4 1"
definition cap_fp16 :: u128 where "cap_fp16 = push_bit 5 1"
definition cap_bf16 :: u128 where "cap_bf16 = push_bit 6 1"
definition cap_trusted_execution :: u128 where "cap_trusted_execution = push_bit 7 1"

definition flag_local_only :: u8 where "flag_local_only = 1"
definition flag_frame_bound :: u8 where "flag_frame_bound = push_bit 1 1"
definition flag_local_device_bound :: u8 where "flag_local_device_bound = push_bit 2 1"

datatype QualityPolicy = Exact | AllowDegraded

record 'f EndToEndCost =
  ec_queue :: 'f
  ec_rtt :: 'f
  ec_input_transfer :: 'f
  ec_prewarm :: 'f
  ec_execution :: 'f
  ec_output_transfer :: 'f
  ec_commit :: 'f
  ec_jitter :: 'f
  ec_recovery :: 'f
  ec_energy :: 'f
  ec_ttft :: "'f option"
  ec_steady_latency :: "'f option"

definition cost_total :: "('f, 'z) f64_arith_scheme \<Rightarrow> 'f EndToEndCost \<Rightarrow> 'f" where
  "cost_total f c = foldl (f_add f) (ec_queue c)
     [ec_rtt c, ec_input_transfer c, ec_prewarm c, ec_execution c, ec_output_transfer c, ec_commit c, ec_jitter c, ec_recovery c]"

record 'f ExecutionVariant =
  ev_variant_id :: string
  ev_required_capabilities :: u128
  ev_runner_id :: string
  ev_runner_generation :: u64
  ev_plugin_id :: string
  ev_plugin_generation :: u64
  ev_quality :: 'f
  ev_peak_memory :: u64
  ev_peak_vram :: u64
  ev_failure_probability :: 'f
  ev_base_cost :: "'f EndToEndCost"

record 'f SchedulingNodeSnapshot =
  sn_node_id :: NodeId
  sn_capability_version :: u64
  sn_resource_version :: u64
  sn_capabilities :: u128
  sn_os :: string
  sn_abi :: string
  sn_trust_level :: u8
  sn_identity_status :: IdentityStatus
  sn_integrity_verified :: bool
  sn_health :: MemberHealth
  sn_pressure_bucket :: u8
  sn_cpu_units :: u32
  sn_memory :: u64
  sn_vram :: u64
  sn_localized :: "string fset"
  sn_variants :: "'f ExecutionVariant list"

record 'f PlacementSlo =
  slo_deadline :: 'f
  slo_max_p95 :: 'f
  slo_max_p99 :: 'f
  slo_max_jitter :: 'f
  slo_max_failure :: 'f
  slo_minimum_quality :: 'f
  slo_streaming :: bool
  slo_max_ttft :: "'f option"
  slo_max_steady :: "'f option"

record 'f TaskPlacementRequest =
  rq_task_id :: string
  rq_task_type :: string
  rq_input_bucket :: u8
  rq_local_node :: NodeId
  rq_priority :: LexicographicPriority
  rq_required_capabilities :: u128
  rq_required_os :: "string option"
  rq_required_abi :: "string option"
  rq_minimum_trust :: u8
  rq_required_memory :: u64
  rq_required_vram :: u64
  rq_required_plugin :: "(string \<times> u64) option"
  rq_required_content :: "string fset"
  rq_flags :: u8
  rq_input_bytes :: u64
  rq_output_bytes :: u64
  rq_local_cost :: 'f
  rq_safety_margin :: 'f
  rq_small_task :: 'f
  rq_quality_policy :: QualityPolicy
  rq_session_node :: "NodeId option"
  rq_migration_cost :: 'f
  rq_dag_cross_node_cost :: 'f
  rq_dag_parallel_benefit :: 'f
  rq_slo :: "'f PlacementSlo"

datatype SchedulingEvent = NewTask | NodeStateChanged | CapabilityChanged | AdmissionRejected | SessionMigrationRequested

record 'f PlacementCandidate =
  pc_node_id :: NodeId
  pc_variant_id :: string
  pc_capability_version :: u64
  pc_resource_version :: u64
  pc_p50 :: 'f
  pc_p95 :: 'f
  pc_p99 :: 'f
  pc_risk_cost :: 'f
  pc_remote_cost :: 'f

record 'f PlacementPlan =
  pp_selected :: "'f PlacementCandidate"
  pp_fallbacks :: "'f PlacementCandidate list"
  pp_evaluated :: nat
  pp_margin :: 'f

record ReservationRequest =
  rr_reservation_id :: string
  rr_origin :: WorkOrigin
  rr_capability_version :: u64
  rr_cpu_units :: u32
  rr_memory :: u64
  rr_vram :: u64
  rr_threads :: u32
  rr_valid_until :: u64

datatype AdmissionOutcome =
    Accept string | RetryAfter u64 | AdmissionOverloaded | InsufficientMemory | AdmissionCapabilityChanged u64

record LocalResourceBudget =
  lb_total_cpu :: u32
  lb_total_memory :: u64
  lb_total_vram :: u64
  lb_total_threads :: u32
  lb_reserved_cpu :: u32
  lb_reserved_memory :: u64
  lb_reserved_vram :: u64
  lb_reserved_threads :: u32
  lb_max_remote_pressure :: u8

record DistributedResourceBudget =
  db_cpu_share_percent :: u8
  db_memory :: u64
  db_hash_bytes :: u64
  db_disk_bytes :: u64
  db_scheduler_operations :: u32
  db_telemetry_events :: u32

record NetworkBudget =
  nb_bytes_per_tick :: u64
  nb_concurrent_transfers :: nat
  nb_queued_bytes :: u64
  nb_control_reserve :: u64

datatype NetworkDegradation =
    NetNormal | StopPreReplication | ReduceCheckpointing | PauseRemoteBatch | RejectLargeRemote | ControlOnly

datatype RemoteLoadAction = ContinueRemote | ReduceConcurrency | PauseCheckpointableBatch | CancelRemoteBackground

datatype TelemetryClass = Correctness | SchedulingSummary | Discardable

record CombinedPulse =
  cp_node_id :: NodeId
  cp_capability_version :: u64
  cp_resource_version :: u64
  cp_pressure_bucket :: u8
  cp_health :: MemberHealth
  cp_next_sample_after :: u64
  cp_accepted_events :: "(string, u64) fmap"

definition scheduler_config_error :: DistributedError where
  "scheduler_config_error = error_new InvalidConfig ''scheduler budget must be positive and bounded''"

definition scheduler_input_error :: DistributedError where
  "scheduler_input_error = error_new DistributedErrorKind.Incompatible ''scheduler input is invalid or incompatible''"

end
