(* ===== verification/Admission_Control.thy ===== *)
theory Admission_Control
  imports Scheduler_Contracts
begin

text \<open>
  The budgets of \<open>scheduler.rs\<close>: the admission controller that reserves a node's resources
  for local and remote work, the telemetry sampler, the meter of background work and the
  network budget.  Each keeps counters that saturate at their type's maximum.
\<close>

section \<open>Admission of work\<close>

record ActiveReservation =
  act_request :: ReservationRequest

record LocalAdmissionController =
  lc_budget :: LocalResourceBudget
  lc_capability_version :: u64
  lc_pressure_bucket :: u8
  lc_reservations :: "(string, ActiveReservation) fmap"

definition admission_new :: "LocalResourceBudget \<Rightarrow> u64 \<Rightarrow> LocalAdmissionController result" where
  "admission_new budget capability_version =
     (if capability_version = 0 \<or> lb_total_cpu budget = 0 \<or> lb_total_memory budget = 0 \<or> lb_total_threads budget = 0
         \<or> lb_reserved_cpu budget > lb_total_cpu budget \<or> lb_reserved_memory budget > lb_total_memory budget
         \<or> lb_reserved_vram budget > lb_total_vram budget \<or> lb_reserved_threads budget > lb_total_threads budget
         \<or> lb_max_remote_pressure budget > 100
      then Inl scheduler_config_error
      else Inr \<lparr>lc_budget = budget, lc_capability_version = capability_version, lc_pressure_bucket = 0,
                lc_reservations = fmempty\<rparr>)"

definition update_local_state :: "u64 \<Rightarrow> u8 \<Rightarrow> LocalAdmissionController \<Rightarrow> LocalAdmissionController" where
  "update_local_state capability_version pressure_bucket c =
     c\<lparr>lc_capability_version := capability_version, lc_pressure_bucket := min pressure_bucket 100\<rparr>"

definition expire :: "u64 \<Rightarrow> LocalAdmissionController \<Rightarrow> LocalAdmissionController" where
  "expire now c = c\<lparr>lc_reservations :=
     fmfilter (\<lambda>k. case fmlookup (lc_reservations c) k of
                 None \<Rightarrow> False | Some a \<Rightarrow> rr_valid_until (act_request a) > now) (lc_reservations c)\<rparr>"

definition add_reservation :: "u32 \<times> u64 \<times> u64 \<times> u32 \<Rightarrow> ActiveReservation \<Rightarrow> u32 \<times> u64 \<times> u64 \<times> u32" where
  "add_reservation = (\<lambda>(cpu, memory, vram, threads) a.
     (sat_add cpu (rr_cpu_units (act_request a)), sat_add memory (rr_memory (act_request a)),
      sat_add vram (rr_vram (act_request a)), sat_add threads (rr_threads (act_request a))))"

definition reserved_totals :: "LocalAdmissionController \<Rightarrow> u32 \<times> u64 \<times> u64 \<times> u32" where
  "reserved_totals c = foldl add_reservation (0, 0, 0, 0) (bt_values (lc_reservations c))"

definition admit :: "ReservationRequest \<Rightarrow> u64 \<Rightarrow> LocalAdmissionController \<Rightarrow> AdmissionOutcome \<times> LocalAdmissionController" where
  "admit request now c0 =
     (let c = expire now c0; b = lc_budget c; remote = (rr_origin request = Remote) in
      if rr_capability_version request \<noteq> lc_capability_version c
      then (AdmissionCapabilityChanged (lc_capability_version c), c)
      else if rr_valid_until request \<le> now then (RetryAfter (sat_add now 1), c)
      else if remote \<and> lc_pressure_bucket c \<ge> lb_max_remote_pressure b then (AdmissionOverloaded, c)
      else
        let (cpu, memory, vram, threads) = reserved_totals c;
            cpu_limit = sat_sub (lb_total_cpu b) (if remote then lb_reserved_cpu b else 0);
            memory_limit = sat_sub (lb_total_memory b) (if remote then lb_reserved_memory b else 0);
            vram_limit = sat_sub (lb_total_vram b) (if remote then lb_reserved_vram b else 0);
            thread_limit = sat_sub (lb_total_threads b) (if remote then lb_reserved_threads b else 0)
        in if sat_add memory (rr_memory request) > memory_limit \<or> sat_add vram (rr_vram request) > vram_limit
           then (InsufficientMemory, c)
           else if sat_add cpu (rr_cpu_units request) > cpu_limit \<or> sat_add threads (rr_threads request) > thread_limit
           then (AdmissionOverloaded, c)
           else (Accept (rr_reservation_id request),
                 c\<lparr>lc_reservations := fmupd (rr_reservation_id request) \<lparr>act_request = request\<rparr> (lc_reservations c)\<rparr>))"

definition release :: "string \<Rightarrow> LocalAdmissionController \<Rightarrow> bool \<times> LocalAdmissionController" where
  "release reservation_id c =
     (bt_contains (lc_reservations c) reservation_id,
      c\<lparr>lc_reservations := fmdrop reservation_id (lc_reservations c)\<rparr>)"

definition remote_load_action :: "LocalAdmissionController \<Rightarrow> RemoteLoadAction" where
  "remote_load_action c =
     (let threshold = lb_max_remote_pressure (lc_budget c) in
      if lc_pressure_bucket c < sat_sub threshold 20 then ContinueRemote
      else if lc_pressure_bucket c < threshold then ReduceConcurrency
      else if lc_pressure_bucket c < min (sat_add threshold 10) 100 then PauseCheckpointableBatch
      else CancelRemoteBackground)"

section \<open>Telemetry\<close>

record TelemetrySampler =
  ts_node_id :: NodeId
  ts_max_events :: u32
  ts_base_interval :: u64
  ts_max_interval :: u64
  ts_accepted :: u32
  ts_stable_rounds :: u8
  ts_pressure_ewma :: u32
  ts_events :: "(string, u64) fmap"

definition sampler_new :: "NodeId \<Rightarrow> u32 \<Rightarrow> u64 \<Rightarrow> u64 \<Rightarrow> TelemetrySampler result" where
  "sampler_new node max_events base_interval max_interval =
     (if max_events = 0 \<or> base_interval = 0 \<or> max_interval < base_interval then Inl scheduler_config_error
      else Inr \<lparr>ts_node_id = node, ts_max_events = max_events, ts_base_interval = base_interval,
                ts_max_interval = max_interval, ts_accepted = 0, ts_stable_rounds = 0, ts_pressure_ewma = 0,
                ts_events = fmempty\<rparr>)"

definition telemetry_record :: "TelemetryClass \<Rightarrow> string \<Rightarrow> u64 \<Rightarrow> u8 \<Rightarrow> TelemetrySampler \<Rightarrow> bool \<times> TelemetrySampler" where
  "telemetry_record c name n pressure_bucket s =
     (let budget_available = ts_accepted s < ts_max_events s;
          accepted = (case c of Correctness \<Rightarrow> True
                      | SchedulingSummary \<Rightarrow> budget_available \<and> pressure_bucket < 90
                      | Discardable \<Rightarrow> budget_available \<and> pressure_bucket < 60)
      in if accepted
         then (True, s\<lparr>ts_events := fmupd name (sat_add (unwrap_or 0 (fmlookup (ts_events s) name)) n) (ts_events s),
                       ts_accepted := sat_add (ts_accepted s) 1\<rparr>)
         else (False, s))"

definition telemetry_pulse ::
  "u64 \<Rightarrow> u64 \<Rightarrow> u8 \<Rightarrow> MemberHealth \<Rightarrow> bool \<Rightarrow> TelemetrySampler \<Rightarrow> CombinedPulse \<times> TelemetrySampler" where
  "telemetry_pulse capability_version resource_version pressure_bucket member_health state_changed s =
     (let ewma = sat_add (sat_mul (ts_pressure_ewma s) 8) (sat_mul (ucast pressure_bucket) 200) div 10;
          rounds = (if state_changed \<or> pressure_bucket \<ge> 70 then 0 else min (sat_add (ts_stable_rounds s) 1) 16);
          multiplier = push_bit (unat (min rounds 6)) (1 :: u64);
          rounded = (ewma + 50) div 100
      in (\<lparr>cp_node_id = ts_node_id s, cp_capability_version = capability_version, cp_resource_version = resource_version,
           cp_pressure_bucket = (if rounded < 256 then min (ucast rounded) 100 else 100), cp_health = member_health,
           cp_next_sample_after = min (sat_mul (ts_base_interval s) multiplier) (ts_max_interval s),
           cp_accepted_events = ts_events s\<rparr>,
          s\<lparr>ts_pressure_ewma := ewma, ts_stable_rounds := rounds, ts_accepted := 0, ts_events := fmempty\<rparr>))"

section \<open>Background work and the network\<close>

record DistributedBudgetMeter =
  bm_budget :: DistributedResourceBudget
  bm_hash_bytes :: u64
  bm_disk_bytes :: u64
  bm_scheduler_operations :: u32
  bm_telemetry_events :: u32

definition meter_new :: "DistributedResourceBudget \<Rightarrow> DistributedBudgetMeter result" where
  "meter_new budget =
     (if db_cpu_share_percent budget = 0 \<or> db_cpu_share_percent budget > 100 \<or> db_memory budget = 0
         \<or> db_hash_bytes budget = 0 \<or> db_disk_bytes budget = 0 \<or> db_scheduler_operations budget = 0
         \<or> db_telemetry_events budget = 0
      then Inl scheduler_config_error
      else Inr \<lparr>bm_budget = budget, bm_hash_bytes = 0, bm_disk_bytes = 0, bm_scheduler_operations = 0,
                bm_telemetry_events = 0\<rparr>)"

definition admit_hash_and_disk :: "u64 \<Rightarrow> u64 \<Rightarrow> DistributedBudgetMeter \<Rightarrow> bool \<times> DistributedBudgetMeter" where
  "admit_hash_and_disk hash_bytes disk_bytes m =
     (let next_hash = sat_add (bm_hash_bytes m) hash_bytes; next_disk = sat_add (bm_disk_bytes m) disk_bytes in
      if next_hash > db_hash_bytes (bm_budget m) \<or> next_disk > db_disk_bytes (bm_budget m) then (False, m)
      else (True, m\<lparr>bm_hash_bytes := next_hash, bm_disk_bytes := next_disk\<rparr>))"

definition admit_scheduler_operation :: "DistributedBudgetMeter \<Rightarrow> bool \<times> DistributedBudgetMeter" where
  "admit_scheduler_operation m =
     (if bm_scheduler_operations m \<ge> db_scheduler_operations (bm_budget m) then (False, m)
      else (True, m\<lparr>bm_scheduler_operations := bm_scheduler_operations m + 1\<rparr>))"

definition admit_telemetry_event :: "DistributedBudgetMeter \<Rightarrow> bool \<times> DistributedBudgetMeter" where
  "admit_telemetry_event m =
     (if bm_telemetry_events m \<ge> db_telemetry_events (bm_budget m) then (False, m)
      else (True, m\<lparr>bm_telemetry_events := bm_telemetry_events m + 1\<rparr>))"

definition meter_next_tick :: "DistributedBudgetMeter \<Rightarrow> DistributedBudgetMeter" where
  "meter_next_tick m =
     m\<lparr>bm_hash_bytes := 0, bm_disk_bytes := 0, bm_scheduler_operations := 0, bm_telemetry_events := 0\<rparr>"

record NetworkBudgetController =
  nc_budget :: NetworkBudget
  nc_data_bytes :: u64
  nc_control_bytes :: u64
  nc_active_transfers :: nat
  nc_queued_bytes :: u64
  nc_pressure_bucket :: u8
  nc_reconnecting :: bool

definition network_new :: "NetworkBudget \<Rightarrow> NetworkBudgetController result" where
  "network_new budget =
     (if nb_bytes_per_tick budget = 0 \<or> nb_concurrent_transfers budget = 0 \<or> nb_queued_bytes budget = 0
         \<or> nb_control_reserve budget = 0 \<or> nb_control_reserve budget \<ge> nb_bytes_per_tick budget
      then Inl scheduler_config_error
      else Inr \<lparr>nc_budget = budget, nc_data_bytes = 0, nc_control_bytes = 0, nc_active_transfers = 0,
                nc_queued_bytes = 0, nc_pressure_bucket = 0, nc_reconnecting = False\<rparr>)"

definition update_pressure :: "u8 \<Rightarrow> bool \<Rightarrow> NetworkBudgetController \<Rightarrow> NetworkBudgetController" where
  "update_pressure pressure_bucket reconnecting n =
     n\<lparr>nc_pressure_bucket := min pressure_bucket 100, nc_reconnecting := reconnecting\<rparr>"

definition degradation :: "NetworkBudgetController \<Rightarrow> NetworkDegradation" where
  "degradation n =
     (let queue_percent = (if nb_queued_bytes (nc_budget n) = 0 then 100
                           else sat_mul (nc_queued_bytes n) 100 div nb_queued_bytes (nc_budget n));
          pressure = max (ucast (nc_pressure_bucket n)) queue_percent
      in if nc_reconnecting n \<and> pressure \<ge> 90 then ControlOnly
         else if pressure \<ge> 90 then RejectLargeRemote
         else if pressure \<ge> 75 then PauseRemoteBatch
         else if pressure \<ge> 60 then ReduceCheckpointing
         else if pressure \<ge> 40 then StopPreReplication
         else NetNormal)"

definition admit_control :: "u64 \<Rightarrow> NetworkBudgetController \<Rightarrow> bool \<times> NetworkBudgetController" where
  "admit_control n_bytes n =
     (let next_bytes = sat_add (nc_control_bytes n) n_bytes in
      if next_bytes > nb_control_reserve (nc_budget n) then (False, n)
      else (True, n\<lparr>nc_control_bytes := next_bytes\<rparr>))"

definition enqueue_data :: "u64 \<Rightarrow> bool \<Rightarrow> NetworkBudgetController \<Rightarrow> bool \<times> NetworkBudgetController" where
  "enqueue_data n_bytes leader_forwarding n =
     (if leader_forwarding \<or> degradation n = ControlOnly
         \<or> sat_add (nc_queued_bytes n) n_bytes > nb_queued_bytes (nc_budget n)
      then (False, n)
      else (True, n\<lparr>nc_queued_bytes := sat_add (nc_queued_bytes n) n_bytes\<rparr>))"

definition start_data :: "u64 \<Rightarrow> NetworkBudgetController \<Rightarrow> bool \<times> NetworkBudgetController" where
  "start_data n_bytes n =
     (let data_limit = sat_sub (nb_bytes_per_tick (nc_budget n)) (nb_control_reserve (nc_budget n)) in
      if nc_active_transfers n \<ge> nb_concurrent_transfers (nc_budget n) \<or> n_bytes > nc_queued_bytes n
         \<or> sat_add (nc_data_bytes n) n_bytes > data_limit
      then (False, n)
      else (True, n\<lparr>nc_queued_bytes := nc_queued_bytes n - n_bytes,
                    nc_data_bytes := sat_add (nc_data_bytes n) n_bytes,
                    nc_active_transfers := nc_active_transfers n + 1\<rparr>))"

definition complete_data :: "NetworkBudgetController \<Rightarrow> bool \<times> NetworkBudgetController" where
  "complete_data n =
     (if nc_active_transfers n = 0 then (False, n)
      else (True, n\<lparr>nc_active_transfers := nc_active_transfers n - 1\<rparr>))"

definition network_next_tick :: "NetworkBudgetController \<Rightarrow> NetworkBudgetController" where
  "network_next_tick n = n\<lparr>nc_data_bytes := 0, nc_control_bytes := 0\<rparr>"

end
