(* ===== verification/Admission_Properties.thy ===== *)
theory Admission_Properties
  imports Admission_Control
begin

text \<open>
  The properties of the budgets: reservations never exceed the node's resources and leave the
  local share to local work, telemetry stays within its events per tick, and the network
  keeps its control reserve.
\<close>

section \<open>Reservations\<close>

datatype resource = Cpu | Memory | Vram | Threads

fun used :: "resource \<Rightarrow> ActiveReservation \<Rightarrow> nat" where
  "used Cpu a = unat (rr_cpu_units (act_request a))"
| "used Memory a = unat (rr_memory (act_request a))"
| "used Vram a = unat (rr_vram (act_request a))"
| "used Threads a = unat (rr_threads (act_request a))"

fun total_of :: "resource \<Rightarrow> LocalResourceBudget \<Rightarrow> nat" where
  "total_of Cpu b = unat (lb_total_cpu b)"
| "total_of Memory b = unat (lb_total_memory b)"
| "total_of Vram b = unat (lb_total_vram b)"
| "total_of Threads b = unat (lb_total_threads b)"

fun local_share :: "resource \<Rightarrow> LocalResourceBudget \<Rightarrow> nat" where
  "local_share Cpu b = unat (lb_reserved_cpu b)"
| "local_share Memory b = unat (lb_reserved_memory b)"
| "local_share Vram b = unat (lb_reserved_vram b)"
| "local_share Threads b = unat (lb_reserved_threads b)"

fun type_max :: "resource \<Rightarrow> nat" where
  "type_max Cpu = 2 ^ 32 - 1"
| "type_max Memory = 2 ^ 64 - 1"
| "type_max Vram = 2 ^ 64 - 1"
| "type_max Threads = 2 ^ 32 - 1"

definition remote_used :: "resource \<Rightarrow> ActiveReservation \<Rightarrow> nat" where
  "remote_used r a = (if rr_origin (act_request a) = Remote then used r a else 0)"

definition reserved :: "resource \<Rightarrow> LocalAdmissionController \<Rightarrow> nat" where
  "reserved r c = fm_sum (used r) (lc_reservations c)"

definition remote_reserved :: "resource \<Rightarrow> LocalAdmissionController \<Rightarrow> nat" where
  "remote_reserved r c = fm_sum (remote_used r) (lc_reservations c)"

definition limit_of :: "resource \<Rightarrow> WorkOrigin \<Rightarrow> LocalResourceBudget \<Rightarrow> nat" where
  "limit_of r origin b = total_of r b - (if origin = Remote then local_share r b else 0)"

lemma foldl_add_reservation:
  "foldl add_reservation (a, b, c, d) xs =
     (foldl (\<lambda>r x. sat_add r (rr_cpu_units (act_request x))) a xs, foldl (\<lambda>r x. sat_add r (rr_memory (act_request x))) b xs,
      foldl (\<lambda>r x. sat_add r (rr_vram (act_request x))) c xs, foldl (\<lambda>r x. sat_add r (rr_threads (act_request x))) d xs)"
  by (induction xs arbitrary: a b c d) (simp_all add: add_reservation_def)

lemma used_eta:
  "used Cpu = (\<lambda>x. unat (rr_cpu_units (act_request x)))" "used Memory = (\<lambda>x. unat (rr_memory (act_request x)))"
  "used Vram = (\<lambda>x. unat (rr_vram (act_request x)))" "used Threads = (\<lambda>x. unat (rr_threads (act_request x)))"
  by auto

lemma reserved_totals_unat:
  assumes "reserved_totals c = (cpu, memory, vram, threads)"
  shows "unat cpu = min (reserved Cpu c) (type_max Cpu)" and "unat memory = min (reserved Memory c) (type_max Memory)"
    and "unat vram = min (reserved Vram c) (type_max Vram)" and "unat threads = min (reserved Threads c) (type_max Threads)"
  using assms by (auto simp: reserved_totals_def foldl_add_reservation unat_sat_fold reserved_def fm_sum_values used_eta)

lemma sat_exceeds:
  fixes s r limit :: "'a::len word"
  assumes "unat s = min n (2 ^ LENGTH('a) - 1)" and "unat limit < 2 ^ LENGTH('a) - 1"
  shows "sat_add s r > limit \<longleftrightarrow> n + unat r > unat limit"
  using assms by (auto simp: word_less_nat_alt unat_sat_add min_def)

definition fits :: "ReservationRequest \<Rightarrow> LocalAdmissionController \<Rightarrow> bool" where
  "fits q c \<longleftrightarrow> (\<forall>r. reserved r c + used r \<lparr>act_request = q\<rparr> \<le> limit_of r (rr_origin q) (lc_budget c))"

lemma all_resources: "(\<forall>r. P r) \<longleftrightarrow> P Cpu \<and> P Memory \<and> P Vram \<and> P Threads"
  by (metis resource.exhaust)

lemma admit_fits:
  assumes "\<forall>r. total_of r (lc_budget c) < type_max r" and "reserved_totals c = (cpu, memory, vram, threads)"
    and "b = lc_budget c" and "remote \<longleftrightarrow> rr_origin q = Remote"
  shows "fits q c \<longleftrightarrow>
     \<not> (sat_add memory (rr_memory q) > sat_sub (lb_total_memory b) (if remote then lb_reserved_memory b else 0)
        \<or> sat_add vram (rr_vram q) > sat_sub (lb_total_vram b) (if remote then lb_reserved_vram b else 0))
     \<and> \<not> (sat_add cpu (rr_cpu_units q) > sat_sub (lb_total_cpu b) (if remote then lb_reserved_cpu b else 0)
        \<or> sat_add threads (rr_threads q) > sat_sub (lb_total_threads b) (if remote then lb_reserved_threads b else 0))"
proof -
  have t: "total_of Cpu b < 2 ^ 32 - 1" "total_of Memory b < 2 ^ 64 - 1" "total_of Vram b < 2 ^ 64 - 1" "total_of Threads b < 2 ^ 32 - 1"
    using assms(1,3) unfolding all_resources by simp_all
  note u = reserved_totals_unat [OF assms(2)]
  have lim: "unat (sat_sub (lb_total_cpu b) (if remote then lb_reserved_cpu b else 0)) = limit_of Cpu (rr_origin q) b"
    "unat (sat_sub (lb_total_memory b) (if remote then lb_reserved_memory b else 0)) = limit_of Memory (rr_origin q) b"
    "unat (sat_sub (lb_total_vram b) (if remote then lb_reserved_vram b else 0)) = limit_of Vram (rr_origin q) b"
    "unat (sat_sub (lb_total_threads b) (if remote then lb_reserved_threads b else 0)) = limit_of Threads (rr_origin q) b"
    by (auto simp: limit_of_def unat_sat_sub assms(4))
  have small: "limit_of r o' b \<le> total_of r b" for r o' by (simp add: limit_of_def)
  note s = sat_exceeds [of cpu "reserved Cpu c" "sat_sub (lb_total_cpu b) (if remote then lb_reserved_cpu b else 0)" "rr_cpu_units q"]
    sat_exceeds [of memory "reserved Memory c" "sat_sub (lb_total_memory b) (if remote then lb_reserved_memory b else 0)" "rr_memory q"]
    sat_exceeds [of vram "reserved Vram c" "sat_sub (lb_total_vram b) (if remote then lb_reserved_vram b else 0)" "rr_vram q"]
    sat_exceeds [of threads "reserved Threads c" "sat_sub (lb_total_threads b) (if remote then lb_reserved_threads b else 0)" "rr_threads q"]
  show ?thesis
    using s u lim t le_less_trans [OF small t(1)] le_less_trans [OF small t(2)] le_less_trans [OF small t(3)] le_less_trans [OF small t(4)]
    unfolding fits_def all_resources by (auto simp: assms(3) not_less)
qed

text \<open>
  Admission decides exactly by the budget: when no total is the maximum of its
  type, a request is accepted if and only if its capability version is current, it is still
  valid, a remote request meets less pressure than the bound, and for every resource what is
  reserved and not expired together with the request stays within the node's total, less the
  local share when the request is remote.  An accepted request is recorded under its id.
\<close>

theorem admit_decision:
  assumes "\<forall>r. total_of r (lc_budget c) < type_max r"
  shows "admit q now c = (Accept i, c') \<longleftrightarrow>
      rr_capability_version q = lc_capability_version c \<and> rr_valid_until q > now
      \<and> (rr_origin q = Remote \<longrightarrow> lc_pressure_bucket c < lb_max_remote_pressure (lc_budget c))
      \<and> fits q (expire now c) \<and> i = rr_reservation_id q
      \<and> c' = (expire now c)\<lparr>lc_reservations := fmupd i \<lparr>act_request = q\<rparr> (lc_reservations (expire now c))\<rparr>"
proof -
  obtain cpu memory vram threads where t: "reserved_totals (expire now c) = (cpu, memory, vram, threads)"
    by (metis surj_pair)
  have same: "lc_budget (expire now c) = lc_budget c" "lc_capability_version (expire now c) = lc_capability_version c"
    "lc_pressure_bucket (expire now c) = lc_pressure_bucket c" by (simp_all add: expire_def)
  have "\<forall>r. total_of r (lc_budget (expire now c)) < type_max r" using assms same by simp
  note fit = admit_fits [OF this t refl refl, of q]
  show ?thesis
    unfolding fit by (auto simp: admit_def Let_def t same split: if_splits)
qed

definition demo_local_budget :: LocalResourceBudget where
  "demo_local_budget = \<lparr>lb_total_cpu = 4, lb_total_memory = 4, lb_total_vram = 4, lb_total_threads = 4,
     lb_reserved_cpu = 2, lb_reserved_memory = 0, lb_reserved_vram = 0, lb_reserved_threads = 0, lb_max_remote_pressure = 80\<rparr>"

definition demo_reservation :: "string \<Rightarrow> WorkOrigin \<Rightarrow> ReservationRequest" where
  "demo_reservation i origin = \<lparr>rr_reservation_id = i, rr_origin = origin, rr_capability_version = 1, rr_cpu_units = 2,
     rr_memory = 1, rr_vram = 1, rr_threads = 1, rr_valid_until = 9\<rparr>"

definition demo_controller :: LocalAdmissionController where
  "demo_controller = \<lparr>lc_budget = demo_local_budget, lc_capability_version = 1, lc_pressure_bucket = 0, lc_reservations = fmempty\<rparr>"

lemma demo_bounded: "total_of r demo_local_budget < type_max r"
  by (cases r) (simp_all add: demo_local_budget_def)

lemma expire_empty [simp]: "lc_reservations c = fmempty \<Longrightarrow> expire now c = c"
  by (cases c) (simp add: expire_def fmfilter_empty)

lemma admit_decision_witness:
  "admit (demo_reservation ''x'' Remote) 3 demo_controller =
     (Accept ''x'', demo_controller\<lparr>lc_reservations := fmupd ''x'' \<lparr>act_request = demo_reservation ''x'' Remote\<rparr> fmempty\<rparr>)"
proof -
  have b: "\<forall>r. total_of r (lc_budget demo_controller) < type_max r" by (simp add: demo_bounded demo_controller_def)
  have "fits (demo_reservation ''x'' Remote) demo_controller"
    unfolding fits_def all_resources
    by (simp add: demo_controller_def demo_local_budget_def demo_reservation_def reserved_def limit_of_def)
  then show ?thesis
    unfolding admit_decision [OF b] by (simp add: demo_controller_def demo_reservation_def demo_local_budget_def)
qed

section \<open>Runs of admissions\<close>

datatype admission_op = UpdateOp u64 u8 | AdmitOp ReservationRequest u64 | ReleaseOp string | ExpireOp u64

fun admission_step :: "admission_op \<Rightarrow> LocalAdmissionController \<Rightarrow> LocalAdmissionController" where
  "admission_step (UpdateOp v p) c = update_local_state v p c"
| "admission_step (AdmitOp q now) c = snd (admit q now c)"
| "admission_step (ReleaseOp i) c = snd (release i c)"
| "admission_step (ExpireOp now) c = expire now c"

definition within_budget :: "LocalAdmissionController \<Rightarrow> bool" where
  "within_budget c \<longleftrightarrow> (\<forall>r. reserved r c \<le> total_of r (lc_budget c)
     \<and> remote_reserved r c \<le> total_of r (lc_budget c) - local_share r (lc_budget c))"

lemma fewer_reservations:
  assumes "within_budget c" and "lc_budget c' = lc_budget c"
    and "\<And>k v. fmlookup (lc_reservations c') k = Some v \<Longrightarrow> fmlookup (lc_reservations c) k = Some v"
  shows "within_budget c'"
  using assms(1) fm_sum_mono [of "lc_reservations c'" "lc_reservations c"] assms(3)
  unfolding within_budget_def reserved_def remote_reserved_def assms(2) by (meson le_trans)

lemma remote_used_le: "fm_sum (remote_used r) m \<le> fm_sum (used r) m"
  unfolding fm_sum_def by (rule sum_mono) (simp add: remote_used_def)

lemma expire_within: "within_budget c \<Longrightarrow> within_budget (expire now c)"
  by (rule fewer_reservations [of c]) (simp_all add: expire_def split: if_splits)

lemma admit_budget [simp]: "lc_budget (snd (admit q now c)) = lc_budget c"
  by (simp add: admit_def Let_def expire_def split: prod.split)

lemma admit_other: "\<forall>i. fst (admit q now c) \<noteq> Accept i \<Longrightarrow> snd (admit q now c) = expire now c"
proof -
  define P where "P = (\<lambda>p. (\<forall>i. fst p \<noteq> Accept i) \<longrightarrow> snd p = expire now c)"
  have branch: "P x \<Longrightarrow> P y \<Longrightarrow> P (if b then x else y)" for x y b by simp
  obtain cpu memory vram threads where t: "reserved_totals (expire now c) = (cpu, memory, vram, threads)"
    by (cases "reserved_totals (expire now c)")
  have "P (admit q now c)" unfolding admit_def Let_def t prod.case by (intro branch) (simp_all add: P_def)
  then show "\<forall>i. fst (admit q now c) \<noteq> Accept i \<Longrightarrow> snd (admit q now c) = expire now c" by (simp add: P_def)
qed

lemma admit_within:
  assumes "within_budget c" and "\<forall>r. total_of r (lc_budget c) < type_max r"
  shows "within_budget (snd (admit q now c))"
proof (cases "\<exists>i. fst (admit q now c) = Accept i")
  case False
  then show ?thesis using admit_other expire_within [OF assms(1)] by simp
next
  case True
  then obtain i c' where a: "admit q now c = (Accept i, c')" by (metis prod.collapse)
  let ?e = "expire now c"
  have fit: "fits q ?e" and c': "c' = ?e\<lparr>lc_reservations := fmupd i \<lparr>act_request = q\<rparr> (lc_reservations ?e)\<rparr>"
    using a unfolding admit_decision [OF assms(2)] by simp_all
  have e: "within_budget ?e" "lc_budget ?e = lc_budget c" using expire_within [OF assms(1)] by (simp_all add: expire_def)
  have "reserved r c' \<le> total_of r (lc_budget c)" for r
  proof -
    have "reserved r c' \<le> reserved r ?e + used r \<lparr>act_request = q\<rparr>" unfolding reserved_def c' using fm_sum_upd_le by simp
    also have "\<dots> \<le> total_of r (lc_budget c)" using fit e(2) unfolding fits_def limit_of_def
      by (metis diff_le_self le_trans)
    finally show ?thesis .
  qed
  moreover have "remote_reserved r c' \<le> total_of r (lc_budget c) - local_share r (lc_budget c)" for r
  proof (cases "rr_origin q = Remote")
    case True
    have "remote_reserved r c' \<le> remote_reserved r ?e + used r \<lparr>act_request = q\<rparr>"
      unfolding remote_reserved_def c' using fm_sum_upd_le [of "remote_used r" i "\<lparr>act_request = q\<rparr>" "lc_reservations ?e"] True
      by (simp add: remote_used_def)
    also have "\<dots> \<le> reserved r ?e + used r \<lparr>act_request = q\<rparr>"
      using remote_used_le by (simp add: reserved_def remote_reserved_def)
    also have "\<dots> \<le> total_of r (lc_budget c) - local_share r (lc_budget c)" using fit e(2) True by (simp add: fits_def limit_of_def)
    finally show ?thesis .
  next
    case False
    have "remote_reserved r c' \<le> remote_reserved r ?e"
      unfolding remote_reserved_def c' using fm_sum_upd_le [of "remote_used r" i "\<lparr>act_request = q\<rparr>" "lc_reservations ?e"] False
      by (simp add: remote_used_def)
    also have "\<dots> \<le> total_of r (lc_budget c) - local_share r (lc_budget c)" using e by (simp add: within_budget_def)
    finally show ?thesis .
  qed
  ultimately show ?thesis using a e(2) c' by (simp add: within_budget_def)
qed

lemma admission_step_within:
  assumes "within_budget c" and "\<forall>r. total_of r (lc_budget c) < type_max r"
  shows "within_budget (admission_step op c) \<and> lc_budget (admission_step op c) = lc_budget c"
proof (cases op)
  case (AdmitOp q now)
  then show ?thesis using admit_within [OF assms] by simp
next
  case (UpdateOp v p)
  then show ?thesis using assms(1)
    by (simp add: update_local_state_def within_budget_def reserved_def remote_reserved_def)
next
  case (ReleaseOp i)
  have "within_budget (snd (release i c))"
    by (rule fewer_reservations [OF assms(1)]) (auto simp: release_def split: if_splits)
  with ReleaseOp show ?thesis by (simp add: release_def)
next
  case (ExpireOp now)
  then show ?thesis using expire_within [OF assms(1)] by (simp add: expire_def)
qed

text \<open>
  Claim C14.  The node is never overcommitted: after any sequence of admissions, releases,
  expiries and changes of the local state, the reservations together stay within the node's
  total for every resource, and those of remote work leave the local share free, as long as no
  total is the maximum of its type.
\<close>

theorem admission_never_overcommits:
  assumes "admission_new budget version = Inr c0" and "\<forall>r. total_of r budget < type_max r"
  shows "reserved r (fold admission_step ops c0) \<le> total_of r budget
    \<and> remote_reserved r (fold admission_step ops c0) \<le> total_of r budget - local_share r budget"
proof -
  have c0: "within_budget c0" "lc_budget c0 = budget"
    using assms(1) by (auto simp: admission_new_def within_budget_def reserved_def remote_reserved_def split: if_splits)
  have "within_budget c \<Longrightarrow> lc_budget c = budget \<Longrightarrow>
      within_budget (fold admission_step ops c) \<and> lc_budget (fold admission_step ops c) = budget" for c
    by (induction ops arbitrary: c) (use admission_step_within assms(2) in \<open>simp, fastforce\<close>)
  with c0 show ?thesis by (metis within_budget_def)
qed

lemma admission_never_overcommits_witness:
  "remote_reserved Cpu (fold admission_step
     [AdmitOp (demo_reservation ''x'' Remote) 3, AdmitOp (demo_reservation ''y'' Remote) 3, AdmitOp (demo_reservation ''z'' Local) 3]
     demo_controller) \<le> 2"
proof -
  have new: "admission_new demo_local_budget 1 = Inr demo_controller"
    by (simp add: admission_new_def demo_local_budget_def demo_controller_def)
  have "\<forall>r. total_of r demo_local_budget < type_max r" by (simp add: demo_bounded)
  from admission_never_overcommits [OF new this, of Cpu
      "[AdmitOp (demo_reservation ''x'' Remote) 3, AdmitOp (demo_reservation ''y'' Remote) 3, AdmitOp (demo_reservation ''z'' Local) 3]"]
  show ?thesis by (simp add: demo_local_budget_def)
qed

section \<open>Telemetry\<close>

datatype telemetry_op = RecordOp TelemetryClass string u64 u8 | PulseOp u64 u64 u8 MemberHealth bool

text \<open>The second component counts the accepted events that may be sampled since the last pulse.\<close>

fun telemetry_step :: "telemetry_op \<Rightarrow> TelemetrySampler \<times> nat \<Rightarrow> TelemetrySampler \<times> nat" where
  "telemetry_step (RecordOp c name n p) (s, k) =
     (case telemetry_record c name n p s of (accepted, s') \<Rightarrow> (s', if accepted \<and> c \<noteq> Correctness then k + 1 else k))"
| "telemetry_step (PulseOp cv rv p h changed) (s, k) = (snd (telemetry_pulse cv rv p h changed s), 0)"

fun pulse_below :: "u8 \<Rightarrow> telemetry_op \<Rightarrow> bool" where
  "pulse_below bound (PulseOp cv rv p h changed) \<longleftrightarrow> p \<le> bound"
| "pulse_below bound (RecordOp c name n p) \<longleftrightarrow> True"

definition sampler_ok :: "TelemetrySampler \<Rightarrow> u8 \<Rightarrow> TelemetrySampler \<times> nat \<Rightarrow> bool" where
  "sampler_ok s0 bound = (\<lambda>(s, k). ts_max_events s = ts_max_events s0 \<and> ts_base_interval s = ts_base_interval s0
     \<and> ts_max_interval s = ts_max_interval s0 \<and> k \<le> unat (ts_accepted s) \<and> k \<le> unat (ts_max_events s0)
     \<and> unat (ts_pressure_ewma s) \<le> 100 * unat bound)"

lemma unat_ucast_mod: "unat (ucast w :: 'b::len word) = unat w mod 2 ^ LENGTH('b)" for w :: "'a::len word"
  by (simp add: unsigned_ucast_eq take_bit_eq_mod)

lemma unat_ucast_u8: "unat (ucast (p :: u8) :: u32) = unat p"
  using unat_bound [of p] by (simp add: unat_ucast_mod)

lemma ewma_bound:
  fixes p bound :: u8
  assumes "unat e \<le> 100 * unat bound" and "p \<le> bound"
  shows "unat (sat_add (sat_mul e 8) (sat_mul (ucast p) 200) div 10 :: u32) \<le> 100 * unat bound"
proof -
  have "unat bound < 256" "unat p \<le> unat bound" using unat_bound [of bound] assms(2) by (simp_all add: word_le_nat_alt)
  then have "unat (sat_add (sat_mul e 8) (sat_mul (ucast p) 200) :: u32) \<le> 1000 * unat bound"
    using assms(1) by (simp add: unat_sat_add unat_sat_mul unat_ucast_u8)
  then show ?thesis by (simp add: unat_div)
qed

lemma telemetry_step_ok:
  assumes ok: "sampler_ok s0 bound sk" and "pulse_below bound op"
  shows "sampler_ok s0 bound (telemetry_step op sk)"
proof (cases op)
  case (RecordOp c name n p)
  obtain s k where sk: "sk = (s, k)" by fastforce
  have "unat (sat_add (ts_accepted s) 1) = unat (ts_accepted s) + 1" if "ts_accepted s < ts_max_events s"
    using that unat_bound [of "ts_max_events s"] by (simp add: unat_sat_add word_less_nat_alt)
  moreover have "unat (ts_accepted s) \<le> unat (sat_add (ts_accepted s) 1)" using sat_add_ge by (simp add: word_le_nat_alt)
  ultimately show ?thesis
    using ok unfolding RecordOp sk
    by (cases c) (auto simp: telemetry_record_def sampler_ok_def Let_def word_less_nat_alt split: if_splits)
next
  case (PulseOp cv rv p h changed)
  then show ?thesis using ok assms(2) ewma_bound by (cases sk) (simp add: telemetry_pulse_def sampler_ok_def Let_def)
qed

lemma pulse_interval:
  fixes b m :: u64
  assumes "b \<le> m" and "k \<le> 6"
  shows "b \<le> min (sat_mul b (push_bit k 1)) m \<and> min (sat_mul b (push_bit k 1)) m \<le> m"
proof -
  have "unat (push_bit k (1 :: u64)) = 2 ^ k"
  proof -
    have "(2 :: nat) ^ k < 2 ^ 64" by (rule power_strict_increasing) (use assms(2) in auto)
    then have "unat (push_bit k (1 :: u64)) = push_bit k (unat (1 :: u64))"
      using assms(2) unfolding unsigned_push_bit_eq by (simp add: push_bit_eq_mult take_bit_nat_eq_self_iff)
    then show ?thesis by (simp add: push_bit_eq_mult)
  qed
  moreover have "unat b \<le> unat b * 2 ^ k" "unat b \<le> 2 ^ 64 - 1" using unat_bound [of b] by auto
  ultimately have "b \<le> sat_mul b (push_bit k 1)" by (simp add: word_le_nat_alt unat_sat_mul)
  with assms(1) show ?thesis by simp
qed

text \<open>
  Telemetry is bounded: along any sequence of records and pulses, the events that
  are accepted between two pulses and may be sampled are at most the configured number, while
  an event of the correctness class is always accepted; the smoothed pressure of a pulse is
  never above the largest pressure that was reported, and the interval it asks for lies between
  the base and the maximum.
\<close>

theorem telemetry_bounded:
  assumes new: "sampler_new node max_events base_interval max_interval = Inr s0"
    and run: "fold telemetry_step ops (s0, 0) = (s, k)" and below: "\<forall>op \<in> set ops. pulse_below bound op" "p \<le> bound"
    and pulse: "fst (telemetry_pulse cv rv p h changed s) = out"
  shows "k \<le> unat max_events \<and> fst (telemetry_record Correctness name n q s)
    \<and> cp_pressure_bucket out \<le> bound \<and> cp_pressure_bucket out \<le> 100
    \<and> base_interval \<le> cp_next_sample_after out \<and> cp_next_sample_after out \<le> max_interval"
proof -
  have s0: "sampler_ok s0 bound (s0, 0)" "ts_max_events s0 = max_events" "ts_base_interval s0 = base_interval"
    "ts_max_interval s0 = max_interval" "base_interval \<le> max_interval"
    using new by (auto simp: sampler_new_def sampler_ok_def split: if_splits)
  have "sampler_ok s0 bound sk \<Longrightarrow> \<forall>op \<in> set ops. pulse_below bound op \<Longrightarrow> sampler_ok s0 bound (fold telemetry_step ops sk)" for sk
    by (induction ops arbitrary: sk) (use telemetry_step_ok in auto)
  from this [OF s0(1) below(1)] have ok: "sampler_ok s0 bound (s, k)" by (simp add: run)
  let ?e = "sat_add (sat_mul (ts_pressure_ewma s) 8) (sat_mul (ucast p) 200) div 10 :: u32"
  have e: "unat ?e \<le> 100 * unat bound" using ok ewma_bound [OF _ below(2)] by (simp add: sampler_ok_def)
  have b: "unat bound < 256" using unat_bound [of bound] by simp
  then have "unat (?e + 50) = unat ?e + 50" using e by (simp add: unat_word_ariths)
  then have r: "unat ((?e + 50) div 100) \<le> unat bound" using e by (simp add: unat_div)
  then have "unat (ucast ((?e + 50) div 100) :: u8) = unat ((?e + 50) div 100)" using b by (simp add: unat_ucast_mod)
  then have "ucast ((?e + 50) div 100) \<le> bound" using r by (simp add: word_le_nat_alt)
  moreover have "(?e + 50) div 100 < 256" using r b by (simp add: word_less_nat_alt)
  ultimately have pressure: "cp_pressure_bucket out \<le> bound \<and> cp_pressure_bucket out \<le> 100"
    using pulse by (auto simp: telemetry_pulse_def Let_def intro: min.coboundedI1)
  have "unat (min x 6 :: u8) \<le> 6" for x by (simp add: min_def word_le_nat_alt)
  then have "base_interval \<le> cp_next_sample_after out \<and> cp_next_sample_after out \<le> max_interval"
    using pulse pulse_interval [OF s0(5)] ok s0(3-5) by (auto simp: telemetry_pulse_def Let_def sampler_ok_def)
  then show ?thesis using ok s0(2) pressure by (simp add: sampler_ok_def telemetry_record_def)
qed

definition demo_sampler :: TelemetrySampler where
  "demo_sampler = \<lparr>ts_node_id = ''n'', ts_max_events = 1, ts_base_interval = 2, ts_max_interval = 9, ts_accepted = 0,
     ts_stable_rounds = 0, ts_pressure_ewma = 0, ts_events = fmempty\<rparr>"

lemma telemetry_bounded_witness:
  "\<exists>s k. fold telemetry_step [RecordOp Discardable ''e'' 1 5, RecordOp Discardable ''e'' 1 5, PulseOp 1 1 40 MemberHealth.Healthy False,
       RecordOp SchedulingSummary ''f'' 1 5] (demo_sampler, 0) = (s, k) \<and> k \<le> 1
     \<and> cp_pressure_bucket (fst (telemetry_pulse 1 1 40 MemberHealth.Healthy False s)) \<le> 40"
proof -
  let ?ops = "[RecordOp Discardable ''e'' 1 5, RecordOp Discardable ''e'' 1 5, PulseOp 1 1 40 MemberHealth.Healthy False,
       RecordOp SchedulingSummary ''f'' 1 5]"
  have new: "sampler_new ''n'' 1 2 9 = Inr demo_sampler" by (simp add: sampler_new_def demo_sampler_def)
  obtain s k where run: "fold telemetry_step ?ops (demo_sampler, 0) = (s, k)" by fastforce
  have "\<forall>op \<in> set ?ops. pulse_below 40 op" by simp
  from telemetry_bounded [OF new run this _ refl, of 40] run show ?thesis by auto
qed

section \<open>The network\<close>

datatype network_op = PressureOp u8 bool | ControlOp u64 | EnqueueDataOp u64 bool | StartDataOp u64 | CompleteOp | NextTickOp

fun network_step :: "network_op \<Rightarrow> NetworkBudgetController \<Rightarrow> NetworkBudgetController" where
  "network_step (PressureOp p r) n = update_pressure p r n"
| "network_step (ControlOp b) n = snd (admit_control b n)"
| "network_step (EnqueueDataOp b f) n = snd (enqueue_data b f n)"
| "network_step (StartDataOp b) n = snd (start_data b n)"
| "network_step CompleteOp n = snd (complete_data n)"
| "network_step NextTickOp n = network_next_tick n"

definition network_ok :: "NetworkBudget \<Rightarrow> NetworkBudgetController \<Rightarrow> bool" where
  "network_ok b n \<longleftrightarrow> nc_budget n = b \<and> nc_control_bytes n \<le> nb_control_reserve b
     \<and> unat (nc_data_bytes n) \<le> unat (nb_bytes_per_tick b) - unat (nb_control_reserve b)
     \<and> nc_active_transfers n \<le> nb_concurrent_transfers b \<and> nc_queued_bytes n \<le> nb_queued_bytes b"

lemma network_step_ok: "network_ok b n \<Longrightarrow> network_ok b (network_step op n)"
proof (cases op)
  case (StartDataOp x)
  assume ok: "network_ok b n"
  have "y \<le> sat_sub (nb_bytes_per_tick b) (nb_control_reserve b) \<Longrightarrow>
      unat y \<le> unat (nb_bytes_per_tick b) - unat (nb_control_reserve b)" for y
    by (simp add: word_le_nat_alt unat_sat_sub)
  moreover have "x \<le> nc_queued_bytes n \<Longrightarrow> nc_queued_bytes n - x \<le> nc_queued_bytes n"
    by (simp add: word_le_nat_alt unat_sub)
  ultimately show ?thesis using ok unfolding StartDataOp
    by (auto simp: network_ok_def start_data_def Let_def not_less not_le)
qed (auto simp: network_ok_def update_pressure_def admit_control_def enqueue_data_def complete_data_def network_next_tick_def
      Let_def not_less)

text \<open>
  The network budget holds and keeps its reserve: along any sequence of
  operations, the data and the control bytes of a tick together stay within the bytes per
  tick, the data leave the reserve untouched, so that control traffic within what is left of
  the reserve is always admitted, and transfers and queued bytes stay within their bounds.
\<close>

theorem network_reserve_kept:
  assumes "network_new budget = Inr n0" and "n = fold network_step ops n0"
  shows "unat (nc_data_bytes n) + unat (nc_control_bytes n) \<le> unat (nb_bytes_per_tick budget)
    \<and> nc_active_transfers n \<le> nb_concurrent_transfers budget \<and> nc_queued_bytes n \<le> nb_queued_bytes budget
    \<and> (unat (nc_control_bytes n) + unat x \<le> unat (nb_control_reserve budget) \<longrightarrow> fst (admit_control x n))"
proof -
  have n0: "network_ok budget n0" and reserve: "nb_control_reserve budget < nb_bytes_per_tick budget"
    using assms(1) by (auto simp: network_new_def network_ok_def split: if_splits)
  have "network_ok budget m \<Longrightarrow> network_ok budget (fold network_step ops m)" for m
    by (induction ops arbitrary: m) (use network_step_ok in auto)
  then have ok: "network_ok budget n" using n0 assms(2) by simp
  have "unat (sat_add (nc_control_bytes n) x) \<le> unat (nc_control_bytes n) + unat x" by (simp add: unat_sat_add)
  then have "unat (nc_control_bytes n) + unat x \<le> unat (nb_control_reserve budget) \<Longrightarrow> fst (admit_control x n)"
    using ok by (simp add: admit_control_def Let_def network_ok_def word_less_nat_alt)
  then show ?thesis using ok reserve by (auto simp: network_ok_def word_le_nat_alt word_less_nat_alt)
qed

lemma network_reserve_kept_witness:
  "\<exists>n. n = fold network_step [EnqueueDataOp 6 False, StartDataOp 6, ControlOp 3]
       \<lparr>nc_budget = \<lparr>nb_bytes_per_tick = 10, nb_concurrent_transfers = 1, nb_queued_bytes = 9, nb_control_reserve = 4\<rparr>,
        nc_data_bytes = 0, nc_control_bytes = 0, nc_active_transfers = 0, nc_queued_bytes = 0, nc_pressure_bucket = 0,
        nc_reconnecting = False\<rparr> \<and> unat (nc_data_bytes n) + unat (nc_control_bytes n) \<le> 10"
  using network_reserve_kept [of "\<lparr>nb_bytes_per_tick = 10, nb_concurrent_transfers = 1, nb_queued_bytes = 9, nb_control_reserve = 4\<rparr>"
      _ _ "[EnqueueDataOp 6 False, StartDataOp 6, ControlOp 3]", OF _ refl]
  by (simp add: network_new_def)

section \<open>Background work\<close>

datatype meter_op = HashDiskOp u64 u64 | SchedulerOp | TelemetryOp | MeterTickOp

fun meter_step :: "meter_op \<Rightarrow> DistributedBudgetMeter \<Rightarrow> DistributedBudgetMeter" where
  "meter_step (HashDiskOp h d) m = snd (admit_hash_and_disk h d m)"
| "meter_step SchedulerOp m = snd (admit_scheduler_operation m)"
| "meter_step TelemetryOp m = snd (admit_telemetry_event m)"
| "meter_step MeterTickOp m = meter_next_tick m"

lemma word_succ_le: "a < b \<Longrightarrow> a + 1 \<le> b" for a b :: "'a::len word"
  by (rule inc_le)

lemma meter_bounded:
  assumes "meter_new budget = Inr m0" and "m = fold meter_step ops m0"
  shows "bm_hash_bytes m \<le> db_hash_bytes budget \<and> bm_disk_bytes m \<le> db_disk_bytes budget
    \<and> bm_scheduler_operations m \<le> db_scheduler_operations budget \<and> bm_telemetry_events m \<le> db_telemetry_events budget"
proof -
  let ?ok = "\<lambda>m. bm_budget m = budget \<and> bm_hash_bytes m \<le> db_hash_bytes budget \<and> bm_disk_bytes m \<le> db_disk_bytes budget
    \<and> bm_scheduler_operations m \<le> db_scheduler_operations budget \<and> bm_telemetry_events m \<le> db_telemetry_events budget"
  have "?ok m0" using assms(1) by (auto simp: meter_new_def split: if_splits)
  moreover have step: "?ok m \<Longrightarrow> ?ok (meter_step op m)" for m op
    by (cases op) (auto simp: admit_hash_and_disk_def admit_scheduler_operation_def admit_telemetry_event_def meter_next_tick_def
        Let_def not_less not_le intro: word_succ_le)
  have "?ok m \<Longrightarrow> ?ok (fold meter_step ops m)" for m
    by (induction ops arbitrary: m) (simp, use step in fastforce)
  ultimately show ?thesis using assms(2) by blast
qed

end
