(* ===== verification/Capability_Index.thy ===== *)
theory Capability_Index
  imports Scheduler_Contracts
begin

text \<open>
  The index of \<open>scheduler.rs\<close> from capability bits and plugin generations to nodes, the
  enumeration of the bits of a mask it rests on, and its refinement: a query finds exactly the
  nodes a scan of the snapshots would find.
\<close>

section \<open>The bits of a mask\<close>

definition trailing_zeros :: "'a::len word \<Rightarrow> nat" where
  "trailing_zeros v = length (takeWhile (\<lambda>i. \<not> bit v i) [0..<LENGTH('a)])"

lemma and_decr_less: "v \<noteq> 0 \<Longrightarrow> and v (v - 1) < v" for v :: "'a::len word"
proof -
  assume "v \<noteq> 0"
  then have "v - 1 < v" by (simp add: word_less_nat_alt unat_minus_one unat_gt_0)
  moreover have "and v (v - 1) \<le> v - 1" by (rule word_and_le1)
  ultimately show ?thesis by simp
qed

function set_bits_loop :: "u8 list \<Rightarrow> u128 \<Rightarrow> u8 list" where
  "set_bits_loop result v =
     (if v = 0 then result else set_bits_loop (result @ [of_nat (trailing_zeros v)]) (and v (v - 1)))"
  by auto

termination
  by (relation "measure (\<lambda>(_, v). unat v)") (auto dest: and_decr_less simp: word_less_nat_alt)

declare set_bits_loop.simps [simp del]

definition set_bits :: "u128 \<Rightarrow> u8 list" where
  "set_bits v = set_bits_loop [] v"

lemma bit_int_decr: "bit (k - 1) i \<longleftrightarrow> bit k i \<noteq> (\<forall>j<i. \<not> bit k j)" for k :: int
proof (induction i arbitrary: k)
  case (Suc i)
  have all: "(\<forall>j<Suc i. \<not> bit k j) \<longleftrightarrow> even k \<and> (\<forall>j<i. \<not> bit (k div 2) j)"
    by (auto simp: bit_0 bit_Suc [symmetric] less_Suc_eq_0_disj)
  show ?case
  proof (cases "even k")
    case True
    then have "(k - 1) div 2 = k div 2 - 1" by (elim evenE) simp
    then have "bit (k - 1) (Suc i) = bit (k div 2 - 1) i" by (simp add: bit_Suc)
    then show ?thesis using Suc.IH [of "k div 2"] all True by (simp add: bit_Suc)
  next
    case False
    then have "(k - 1) div 2 = k div 2" by (elim oddE) simp
    then show ?thesis using all False by (simp add: bit_Suc)
  qed
qed (simp add: bit_0)

lemma bit_word_decr:
  fixes v :: "'a::len word"
  assumes "i < LENGTH('a)"
  shows "bit (v - 1) i \<longleftrightarrow> bit v i \<noteq> (\<forall>j<i. \<not> bit v j)"
proof -
  have "v - 1 = word_of_int (uint v - 1)" by simp
  then have "bit (v - 1) i \<longleftrightarrow> bit (uint v - 1) i" using assms by (simp only: bit_word_of_int_iff simp_thms)
  then show ?thesis by (simp add: bit_int_decr bit_uint_iff assms less_trans [OF _ assms])
qed

lemma trailing_zeros_least:
  fixes v :: "'a::len word"
  assumes "v \<noteq> 0"
  shows "trailing_zeros v < LENGTH('a)" and "bit v (trailing_zeros v)" and "\<And>j. j < trailing_zeros v \<Longrightarrow> \<not> bit v j"
proof -
  let ?xs = "[0..<LENGTH('a)]" and ?P = "\<lambda>i. \<not> bit v i"
  have "\<exists>i. bit v i" using assms by (auto simp: bit_eq_iff)
  then obtain i where i: "bit v i" ..
  then have "i \<in> set ?xs" using bit_imp_le_length [OF i] by simp
  with i have "\<exists>i \<in> set ?xs. bit v i" by blast
  then have "dropWhile ?P ?xs \<noteq> []" by (simp add: dropWhile_eq_Nil_conv)
  moreover have "length (takeWhile ?P ?xs) + length (dropWhile ?P ?xs) = length ?xs"
    by (metis length_append takeWhile_dropWhile_id)
  ultimately have less: "length (takeWhile ?P ?xs) < length ?xs" by (cases "dropWhile ?P ?xs") auto
  then show "trailing_zeros v < LENGTH('a)" by (simp add: trailing_zeros_def)
  show "bit v (trailing_zeros v)" using nth_length_takeWhile [OF less] less by (simp add: trailing_zeros_def)
  show "\<not> bit v j" if "j < trailing_zeros v" for j
  proof -
    have j: "j < length (takeWhile ?P ?xs)" using that by (simp add: trailing_zeros_def)
    then have "takeWhile ?P ?xs ! j = j" using less by (simp add: takeWhile_nth)
    then have "j \<in> set (takeWhile ?P ?xs)" using nth_mem [OF j] by simp
    then show ?thesis using set_takeWhileD by fast
  qed
qed

lemma clear_lowest:
  fixes v :: "'a::len word"
  assumes "v \<noteq> 0"
  shows "bit (and v (v - 1)) i \<longleftrightarrow> bit v i \<and> i \<noteq> trailing_zeros v"
proof (cases "i < LENGTH('a)")
  case True
  note t = trailing_zeros_least [OF assms]
  have "bit v i \<Longrightarrow> (\<forall>j<i. \<not> bit v j) \<longleftrightarrow> i = trailing_zeros v" using t by (metis nat_neq_iff)
  then show ?thesis using bit_word_decr [OF True, of v] by (auto simp: bit_and_iff)
qed (use bit_imp_le_length in \<open>auto simp: bit_and_iff\<close>)

lemma filter_upt_split:
  assumes "m < n" and "P m" and "\<And>j. j < m \<Longrightarrow> \<not> P j"
  shows "filter P [0..<n] = m # filter (\<lambda>i. P i \<and> i \<noteq> m) [0..<n]"
proof -
  have split: "[0..<n] = [0..<m] @ m # [Suc m..<n]"
    using assms(1) by (metis less_imp_le_nat upt_add_eq_append upt_conv_Cons le_add_diff_inverse zero_le)
  have "filter P [0..<m] = []" "filter (\<lambda>i. P i \<and> i \<noteq> m) [0..<m] = []" using assms(3) by auto
  moreover have "filter (\<lambda>i. P i \<and> i \<noteq> m) [Suc m..<n] = filter P [Suc m..<n]" by (rule filter_cong) auto
  ultimately show ?thesis using assms(2) unfolding split by simp
qed

lemma set_bits_loop_filter: "set_bits_loop acc v = acc @ map of_nat (filter (bit v) [0..<128])"
proof (induction acc v rule: set_bits_loop.induct)
  case (1 acc v)
  show ?case
  proof (cases "v = 0")
    case False
    note t = trailing_zeros_least [OF False]
    have "bit (and v (v - 1)) = (\<lambda>i. bit v i \<and> i \<noteq> trailing_zeros v)"
      by (rule ext) (rule clear_lowest [OF False])
    then have "filter (bit v) [0..<128] = trailing_zeros v # filter (bit (and v (v - 1))) [0..<128]"
      using filter_upt_split [of "trailing_zeros v" 128 "bit v"] t by simp
    then show ?thesis using 1 False by (simp add: set_bits_loop.simps [of acc v])
  qed (simp add: set_bits_loop.simps)
qed

lemma set_bits_filter: "set_bits v = map of_nat (filter (bit v) [0..<128])"
  by (simp add: set_bits_def set_bits_loop_filter)

lemma set_bits_mem: "b \<in> set (set_bits v) \<longleftrightarrow> bit v (unat b) \<and> unat b < 128" for b :: u8
proof -
  have "i < 128 \<Longrightarrow> unat (of_nat i :: u8) = i" for i by (simp add: unat_of_nat)
  moreover have "of_nat (unat b) = b" by simp
  ultimately show ?thesis unfolding set_bits_filter by (auto simp: image_iff)
qed

lemma flags_contain_bits: "flags_contain a r \<longleftrightarrow> (\<forall>b \<in> set (set_bits r). b \<in> set (set_bits a))" for a r :: u128
proof -
  have "flags_contain a r \<longleftrightarrow> (\<forall>i. bit r i \<longrightarrow> bit a i)"
    unfolding flags_contain_def bit_eq_iff using bit_imp_le_length [of r] by (simp add: bit_and_iff) blast
  also have "\<dots> \<longleftrightarrow> (\<forall>b :: u8. bit r (unat b) \<and> unat b < 128 \<longrightarrow> bit a (unat b) \<and> unat b < 128)"
  proof (intro iffI allI impI)
    fix i assume all: "\<forall>b :: u8. bit r (unat b) \<and> unat b < 128 \<longrightarrow> bit a (unat b) \<and> unat b < 128" and i: "bit r i"
    then have "i < 128" using bit_imp_le_length [of r i] by simp
    moreover from this have "unat (of_nat i :: u8) = i" by (simp add: unat_of_nat)
    ultimately show "bit a i" using all i by metis
  qed simp
  finally show ?thesis by (simp add: set_bits_mem Ball_def)
qed

section \<open>The index\<close>

record 'f CapabilityIndex =
  ix_nodes :: "(NodeId, 'f SchedulingNodeSnapshot) fmap"
  ix_by_bit :: "(u8, NodeId fset) fmap"
  ix_by_plugin :: "(string \<times> u64, NodeId fset) fmap"

definition index_new :: "'f CapabilityIndex" where
  "index_new = \<lparr>ix_nodes = fmempty, ix_by_bit = fmempty, ix_by_plugin = fmempty\<rparr>"

definition variant_valid :: "('f, 'z) f64_arith_scheme \<Rightarrow> 'f ExecutionVariant \<Rightarrow> bool" where
  "variant_valid f v \<longleftrightarrow> ev_runner_generation v \<noteq> 0 \<and> ev_plugin_generation v \<noteq> 0 \<and> f_finite f (ev_quality v)
     \<and> f_le f (f_zero f) (ev_failure_probability v) \<and> f_le f (ev_failure_probability v) (f_lit f 1 0)"

definition snapshot_valid :: "('f, 'z) f64_arith_scheme \<Rightarrow> 'f SchedulingNodeSnapshot \<Rightarrow> bool" where
  "snapshot_valid f s \<longleftrightarrow> sn_capability_version s \<noteq> 0 \<and> sn_resource_version s \<noteq> 0 \<and> sn_pressure_bucket s \<le> 100
     \<and> list_all (variant_valid f) (sn_variants s)"

definition snapshot_stale :: "'f SchedulingNodeSnapshot option \<Rightarrow> 'f SchedulingNodeSnapshot \<Rightarrow> bool" where
  "snapshot_stale current s =
     (case current of None \<Rightarrow> False
      | Some c \<Rightarrow> sn_capability_version c > sn_capability_version s \<or> sn_resource_version c > sn_resource_version s)"

definition stale_snapshot_error :: DistributedError where
  "stale_snapshot_error = error_new AttemptStale ''scheduling node snapshot is stale''"

definition insert_entry :: "'n \<Rightarrow> 'k \<Rightarrow> ('k, 'n fset) fmap \<Rightarrow> ('k, 'n fset) fmap" where
  "insert_entry n k m = fmupd k (finsert n (unwrap_or {||} (fmlookup m k))) m"

definition remove_entry :: "'n \<Rightarrow> 'k \<Rightarrow> ('k, 'n fset) fmap \<Rightarrow> ('k, 'n fset) fmap" where
  "remove_entry n k m = (case fmlookup m k of None \<Rightarrow> m | Some s \<Rightarrow> fmupd k (s |-| {|n|}) m)"

definition retain_nonempty :: "('k, 'n fset) fmap \<Rightarrow> ('k, 'n fset) fmap" where
  "retain_nonempty m = fmfilter (\<lambda>k. fmlookup m k \<noteq> Some {||}) m"

abbreviation plugin_key :: "'f ExecutionVariant \<Rightarrow> string \<times> u64" where
  "plugin_key v \<equiv> (ev_plugin_id v, ev_plugin_generation v)"

definition index_remove :: "NodeId \<Rightarrow> 'f CapabilityIndex \<Rightarrow> 'f CapabilityIndex" where
  "index_remove n ix =
     (case fmlookup (ix_nodes ix) n of
        None \<Rightarrow> ix
      | Some previous \<Rightarrow>
          \<lparr>ix_nodes = fmdrop n (ix_nodes ix),
           ix_by_bit = retain_nonempty (fold (remove_entry n) (set_bits (sn_capabilities previous)) (ix_by_bit ix)),
           ix_by_plugin = retain_nonempty (fold (remove_entry n) (map plugin_key (sn_variants previous)) (ix_by_plugin ix))\<rparr>)"

definition upsert ::
  "('f, 'z) f64_arith_scheme \<Rightarrow> 'f SchedulingNodeSnapshot \<Rightarrow> 'f CapabilityIndex \<Rightarrow> unit result \<times> 'f CapabilityIndex" where
  "upsert f s ix =
     (if \<not> snapshot_valid f s then (Inl scheduler_input_error, ix)
      else if snapshot_stale (fmlookup (ix_nodes ix) (sn_node_id s)) s then (Inl stale_snapshot_error, ix)
      else let n = sn_node_id s; ix' = index_remove n ix in
        (Inr (), \<lparr>ix_nodes = fmupd n s (ix_nodes ix'),
                  ix_by_bit = fold (insert_entry n) (set_bits (sn_capabilities s)) (ix_by_bit ix'),
                  ix_by_plugin = fold (insert_entry n) (map plugin_key (sn_variants s)) (ix_by_plugin ix')\<rparr>))"

fun retain_all :: "(u8, NodeId fset) fmap \<Rightarrow> u8 list \<Rightarrow> NodeId fset \<Rightarrow> NodeId fset" where
  "retain_all m [] r = r"
| "retain_all m (b # bs) r =
     (case fmlookup m b of None \<Rightarrow> {||} | Some nodes \<Rightarrow> retain_all m bs (ffilter (\<lambda>n. n |\<in>| nodes) r))"

definition candidate_ids :: "'f CapabilityIndex \<Rightarrow> u128 \<Rightarrow> NodeId fset" where
  "candidate_ids ix required =
     (case set_bits required of
        [] \<Rightarrow> fmdom (ix_nodes ix)
      | b # bs \<Rightarrow> retain_all (ix_by_bit ix) bs (unwrap_or {||} (fmlookup (ix_by_bit ix) b)))"

definition candidate_ids_for :: "'f CapabilityIndex \<Rightarrow> u128 \<Rightarrow> (string \<times> u64) option \<Rightarrow> NodeId fset" where
  "candidate_ids_for ix required plugin =
     (let result = candidate_ids ix required in
      case plugin of
        None \<Rightarrow> result
      | Some p \<Rightarrow> (case fmlookup (ix_by_plugin ix) p of
                     None \<Rightarrow> {||} | Some nodes \<Rightarrow> ffilter (\<lambda>n. n |\<in>| nodes) result))"

definition index_get :: "'f CapabilityIndex \<Rightarrow> NodeId \<Rightarrow> 'f SchedulingNodeSnapshot option" where
  "index_get ix n = fmlookup (ix_nodes ix) n"

definition capability_supply :: "'f CapabilityIndex \<Rightarrow> u8 \<Rightarrow> nat" where
  "capability_supply ix b = (case fmlookup (ix_by_bit ix) b of None \<Rightarrow> 0 | Some s \<Rightarrow> fcard s)"

section \<open>The inverted maps\<close>

definition members :: "('k, 'n fset) fmap \<Rightarrow> 'k \<Rightarrow> 'n fset" where
  "members m k = unwrap_or {||} (fmlookup m k)"

lemma members_insert [simp]: "members (insert_entry n k m) j = (if j = k then finsert n (members m k) else members m j)"
  by (simp add: members_def insert_entry_def)

lemma members_remove [simp]: "members (remove_entry n k m) j = (if j = k then members m k |-| {|n|} else members m j)"
  by (auto simp: members_def remove_entry_def split: option.split)

lemma members_retain [simp]: "members (retain_nonempty m) k = members m k"
  by (auto simp: members_def retain_nonempty_def)

lemma members_fold_insert:
  "x |\<in>| members (fold (insert_entry n) ks m) k \<longleftrightarrow> x |\<in>| members m k \<or> (x = n \<and> k \<in> set ks)"
  by (induction ks arbitrary: m) auto

lemma members_fold_remove:
  "x |\<in>| members (fold (remove_entry n) ks m) k \<longleftrightarrow> x |\<in>| members m k \<and> \<not> (x = n \<and> k \<in> set ks)"
  by (induction ks arbitrary: m) auto

definition inverts :: "(NodeId, 'f SchedulingNodeSnapshot) fmap \<Rightarrow> ('f SchedulingNodeSnapshot \<Rightarrow> 'k set) \<Rightarrow> ('k, NodeId fset) fmap \<Rightarrow> bool" where
  "inverts nodes keys m \<longleftrightarrow> (\<forall>k n. n |\<in>| members m k \<longleftrightarrow> (\<exists>s. fmlookup nodes n = Some s \<and> k \<in> keys s))"

lemma inverts_remove:
  assumes "inverts nodes keys m" and "fmlookup nodes n = Some s" and "set ks = keys s"
  shows "inverts (fmdrop n nodes) keys (retain_nonempty (fold (remove_entry n) ks m))"
  using assms unfolding inverts_def by (auto simp: members_fold_remove split: if_splits)

lemma inverts_insert:
  assumes "inverts nodes keys m" and "fmlookup nodes n = None" and "set ks = keys s"
  shows "inverts (fmupd n s nodes) keys (fold (insert_entry n) ks m)"
  using assms unfolding inverts_def by (auto simp: members_fold_insert split: if_splits)

definition bit_keys :: "'f SchedulingNodeSnapshot \<Rightarrow> u8 set" where
  "bit_keys s = set (set_bits (sn_capabilities s))"

definition plugin_keys :: "'f SchedulingNodeSnapshot \<Rightarrow> (string \<times> u64) set" where
  "plugin_keys s = plugin_key ` set (sn_variants s)"

definition index_ok :: "'f CapabilityIndex \<Rightarrow> bool" where
  "index_ok ix \<longleftrightarrow> inverts (ix_nodes ix) bit_keys (ix_by_bit ix) \<and> inverts (ix_nodes ix) plugin_keys (ix_by_plugin ix)
     \<and> (\<forall>n s. fmlookup (ix_nodes ix) n = Some s \<longrightarrow> sn_node_id s = n)"

lemma index_new_ok [simp]: "index_ok index_new"
  by (simp add: index_ok_def inverts_def index_new_def members_def)

lemma index_remove_nodes [simp]: "ix_nodes (index_remove n ix) = fmdrop n (ix_nodes ix)"
  by (auto simp: index_remove_def split: option.split)

lemma index_remove_ok: "index_ok ix \<Longrightarrow> index_ok (index_remove n ix)"
proof (cases "fmlookup (ix_nodes ix) n")
  case (Some s)
  assume ok: "index_ok ix"
  have "inverts (fmdrop n (ix_nodes ix)) bit_keys (retain_nonempty (fold (remove_entry n) (set_bits (sn_capabilities s)) (ix_by_bit ix)))"
    by (rule inverts_remove [OF _ Some]) (use ok in \<open>simp_all add: index_ok_def bit_keys_def\<close>)
  moreover have "inverts (fmdrop n (ix_nodes ix)) plugin_keys
      (retain_nonempty (fold (remove_entry n) (map plugin_key (sn_variants s)) (ix_by_plugin ix)))"
    by (rule inverts_remove [OF _ Some]) (use ok in \<open>simp_all add: index_ok_def plugin_keys_def\<close>)
  ultimately show ?thesis using ok Some by (simp add: index_ok_def index_remove_def)
qed (simp add: index_remove_def)

lemma upsert_ok:
  assumes ok: "index_ok ix" and "upsert f s ix = (r, ix')"
  shows "index_ok ix'"
    and "ix_nodes ix' = (if snapshot_valid f s \<and> \<not> snapshot_stale (fmlookup (ix_nodes ix) (sn_node_id s)) s
                         then fmupd (sn_node_id s) s (ix_nodes ix) else ix_nodes ix)"
proof -
  let ?n = "sn_node_id s" and ?x = "index_remove (sn_node_id s) ix"
  have x: "index_ok ?x" "fmlookup (ix_nodes ?x) ?n = None" using index_remove_ok [OF ok] by simp_all
  have xi: "inverts (ix_nodes ?x) bit_keys (ix_by_bit ?x)" "inverts (ix_nodes ?x) plugin_keys (ix_by_plugin ?x)"
    and ids: "\<forall>n s'. fmlookup (ix_nodes ?x) n = Some s' \<longrightarrow> sn_node_id s' = n"
    using x(1) unfolding index_ok_def by blast+
  have "inverts (fmupd ?n s (ix_nodes ?x)) bit_keys (fold (insert_entry ?n) (set_bits (sn_capabilities s)) (ix_by_bit ?x))"
    by (rule inverts_insert [OF xi(1) x(2)]) (simp add: bit_keys_def)
  moreover have "inverts (fmupd ?n s (ix_nodes ?x)) plugin_keys (fold (insert_entry ?n) (map plugin_key (sn_variants s)) (ix_by_plugin ?x))"
    by (rule inverts_insert [OF xi(2) x(2)]) (simp add: plugin_keys_def)
  moreover have "\<forall>n s'. fmlookup (fmupd ?n s (ix_nodes ?x)) n = Some s' \<longrightarrow> sn_node_id s' = n"
    unfolding fmupd_lookup using ids by (metis option.inject)
  ultimately have new: "index_ok \<lparr>ix_nodes = fmupd ?n s (ix_nodes ?x), ix_by_bit = fold (insert_entry ?n) (set_bits (sn_capabilities s)) (ix_by_bit ?x),
      ix_by_plugin = fold (insert_entry ?n) (map plugin_key (sn_variants s)) (ix_by_plugin ?x)\<rparr>"
    unfolding index_ok_def CapabilityIndex.simps by blast
  have "ix' = ix \<or> ix' = \<lparr>ix_nodes = fmupd ?n s (ix_nodes ?x), ix_by_bit = fold (insert_entry ?n) (set_bits (sn_capabilities s)) (ix_by_bit ?x),
      ix_by_plugin = fold (insert_entry ?n) (map plugin_key (sn_variants s)) (ix_by_plugin ?x)\<rparr>"
    using assms(2) by (simp add: upsert_def Let_def split: if_splits)
  then show "index_ok ix'" using ok new by (elim disjE) (simp_all only:)
  show "ix_nodes ix' = (if snapshot_valid f s \<and> \<not> snapshot_stale (fmlookup (ix_nodes ix) ?n) s
                         then fmupd ?n s (ix_nodes ix) else ix_nodes ix)"
    using assms(2) by (auto simp: upsert_def Let_def intro!: fmap_ext split: if_splits)
qed

section \<open>Queries\<close>

lemma retain_all_members: "n |\<in>| retain_all m bs r \<longleftrightarrow> n |\<in>| r \<and> (\<forall>b \<in> set bs. n |\<in>| members m b)"
  by (induction m bs r rule: retain_all.induct) (auto simp: members_def split: option.splits)

definition scan :: "(NodeId, 'f SchedulingNodeSnapshot) fmap \<Rightarrow> u128 \<Rightarrow> (string \<times> u64) option \<Rightarrow> NodeId set" where
  "scan nodes required plugin = {n. \<exists>s. fmlookup nodes n = Some s \<and> flags_contain (sn_capabilities s) required
     \<and> (case plugin of None \<Rightarrow> True | Some p \<Rightarrow> \<exists>v \<in> set (sn_variants s). plugin_key v = p)}"

lemma candidate_ids_members:
  assumes "index_ok ix"
  shows "n |\<in>| candidate_ids ix required \<longleftrightarrow> (\<exists>s. fmlookup (ix_nodes ix) n = Some s \<and> flags_contain (sn_capabilities s) required)"
proof -
  have inv: "n |\<in>| members (ix_by_bit ix) b \<longleftrightarrow> (\<exists>s. fmlookup (ix_nodes ix) n = Some s \<and> b \<in> set (set_bits (sn_capabilities s)))" for b
    using assms by (simp add: index_ok_def inverts_def bit_keys_def)
  show ?thesis
  proof (cases "set_bits required")
    case Nil
    then show ?thesis by (simp add: candidate_ids_def flags_contain_bits fmlookup_dom_iff)
  next
    case (Cons b bs)
    have "n |\<in>| candidate_ids ix required \<longleftrightarrow> (\<forall>b \<in> set (set_bits required). n |\<in>| members (ix_by_bit ix) b)"
      using Cons by (simp add: candidate_ids_def retain_all_members members_def)
    also have "\<dots> \<longleftrightarrow> (\<exists>s. fmlookup (ix_nodes ix) n = Some s \<and> (\<forall>b \<in> set (set_bits required). b \<in> set (set_bits (sn_capabilities s))))"
      using Cons unfolding inv by (cases "fmlookup (ix_nodes ix) n") auto
    finally show ?thesis by (simp add: flags_contain_bits)
  qed
qed

lemma candidates_scan:
  fixes ix :: "'f CapabilityIndex"
  assumes "index_ok ix"
  shows "fset (candidate_ids_for ix required plugin) = scan (ix_nodes ix) required plugin"
proof (cases plugin)
  case (Some p)
  have inv: "n |\<in>| members (ix_by_plugin ix) k \<longleftrightarrow> (\<exists>s. fmlookup (ix_nodes ix) n = Some s \<and> k \<in> plugin_keys s)" for n k
    using assms unfolding index_ok_def inverts_def by blast
  have keys: "p \<in> plugin_keys s \<longleftrightarrow> (\<exists>v \<in> set (sn_variants s). plugin_key v = p)" for s :: "'f SchedulingNodeSnapshot"
    unfolding plugin_keys_def by auto
  have "n |\<in>| members (ix_by_plugin ix) p \<longleftrightarrow> (\<exists>s. fmlookup (ix_nodes ix) n = Some s \<and> (\<exists>v \<in> set (sn_variants s). plugin_key v = p))" for n
    using inv keys by simp
  moreover have "n |\<in>| candidate_ids_for ix required plugin \<longleftrightarrow> n |\<in>| candidate_ids ix required \<and> n |\<in>| members (ix_by_plugin ix) p" for n
    by (auto simp: candidate_ids_for_def Some members_def split: option.splits)
  ultimately have "n |\<in>| candidate_ids_for ix required plugin \<longleftrightarrow> (\<exists>s. fmlookup (ix_nodes ix) n = Some s
      \<and> flags_contain (sn_capabilities s) required \<and> (\<exists>v \<in> set (sn_variants s). plugin_key v = p))" for n
    by (cases "fmlookup (ix_nodes ix) n") (simp_all add: candidate_ids_members [OF assms])
  then show ?thesis by (simp add: scan_def Some set_eq_iff)
qed (auto simp: candidate_ids_for_def scan_def candidate_ids_members [OF assms])

datatype 'f index_op = UpsertOp "'f SchedulingNodeSnapshot" | RemoveOp NodeId

fun index_step :: "('f, 'z) f64_arith_scheme \<Rightarrow> 'f index_op \<Rightarrow> 'f CapabilityIndex \<Rightarrow> 'f CapabilityIndex" where
  "index_step f (UpsertOp s) ix = snd (upsert f s ix)"
| "index_step f (RemoveOp n) ix = index_remove n ix"

text \<open>The specification keeps the snapshots only.\<close>

fun nodes_step :: "('f, 'z) f64_arith_scheme \<Rightarrow> 'f index_op \<Rightarrow> (NodeId, 'f SchedulingNodeSnapshot) fmap \<Rightarrow> (NodeId, 'f SchedulingNodeSnapshot) fmap" where
  "nodes_step f (UpsertOp s) m =
     (if snapshot_valid f s \<and> \<not> snapshot_stale (fmlookup m (sn_node_id s)) s then fmupd (sn_node_id s) s m else m)"
| "nodes_step f (RemoveOp n) m = fmdrop n m"

lemma index_run_ok:
  "index_ok (fold (index_step f) ops index_new) \<and> ix_nodes (fold (index_step f) ops index_new) = fold (nodes_step f) ops fmempty"
proof -
  have step: "index_ok ix \<Longrightarrow> index_ok (index_step f op ix) \<and> ix_nodes (index_step f op ix) = nodes_step f op (ix_nodes ix)" for op ix
  proof (cases op)
    case (UpsertOp s)
    assume "index_ok ix"
    note u = upsert_ok [OF this, of f s "fst (upsert f s ix)" "snd (upsert f s ix)"]
    show ?thesis using u by (simp add: UpsertOp)
  qed (use index_remove_ok in simp)
  have "index_ok ix \<Longrightarrow> index_ok (fold (index_step f) ops ix) \<and> ix_nodes (fold (index_step f) ops ix) = fold (nodes_step f) ops (ix_nodes ix)" for ix
    by (induction ops arbitrary: ix) (simp, use step in fastforce)
  from this [of index_new] show ?thesis by (simp add: index_new_def [THEN arg_cong [where f = ix_nodes]])
qed

text \<open>
  Claim C16.  The index answers as a scan would: after any sequence of insertions and
  removals of snapshots, accepted or refused, the nodes found for a set of capability bits and
  a plugin generation are exactly those whose latest accepted snapshot has all the bits and a
  variant of that plugin at that generation.
\<close>

theorem index_refines_scan:
  "ix_nodes (fold (index_step f) ops index_new) = fold (nodes_step f) ops fmempty
   \<and> fset (candidate_ids_for (fold (index_step f) ops index_new) required plugin)
       = scan (fold (nodes_step f) ops fmempty) required plugin"
  using candidates_scan [OF index_run_ok [THEN conjunct1], of f ops required plugin] index_run_ok [of f ops] by simp

end
