(* ===== verification/Performance_Model.thy ===== *)
theory Performance_Model
  imports Scheduler_Contracts "HOL-Library.Product_Lexorder"
begin

text \<open>
  The performance model of \<open>scheduler.rs\<close>: per task type, variant and input size a histogram of
  latencies in 32 buckets of powers of two, with its quantiles, and a bounded number of such
  profiles.  The quantile of a profile is the bucket of the observation of that rank.
\<close>

section \<open>Profiles\<close>

record 'f PerformanceObservation =
  ob_latency :: 'f
  ob_peak_memory :: u64
  ob_failed :: bool

record 'f PerformancePrediction =
  pr_samples :: u32
  pr_p50 :: 'f
  pr_p95 :: 'f
  pr_p99 :: 'f
  pr_ewma :: 'f
  pr_peak_memory :: u64
  pr_failure_probability :: 'f
  pr_throughput :: 'f
  pr_uncertainty :: 'f

record 'f BoundedProfile =
  bp_histogram :: "u32 list"
  bp_samples :: u32
  bp_failures :: u32
  bp_ewma :: 'f
  bp_peak_memory :: u64

function bucket_from :: "('f, 'z) f64_arith_scheme \<Rightarrow> 'f \<Rightarrow> nat \<Rightarrow> nat" where
  "bucket_from f scaled bucket =
     (if f_lt f (f_lit f 1 0) scaled \<and> bucket < 31 then bucket_from f (f_div f scaled (f_lit f 2 0)) (bucket + 1) else bucket)"
  by auto

termination by (relation "measure (\<lambda>(_, _, bucket). 31 - bucket)") auto

declare bucket_from.simps [simp del]

definition latency_bucket :: "('f, 'z) f64_arith_scheme \<Rightarrow> 'f \<Rightarrow> nat" where
  "latency_bucket f value = (if f_le f value (f_lit f 1 0) then 0 else bucket_from f value 0)"

definition bucket_upper_bound :: "('f, 'z) f64_arith_scheme \<Rightarrow> nat \<Rightarrow> 'f" where
  "bucket_upper_bound f index = f_lit f (2 ^ min index 31) 0"

definition profile_record :: "('f, 'z) f64_arith_scheme \<Rightarrow> 'f PerformanceObservation \<Rightarrow> 'f BoundedProfile \<Rightarrow> 'f BoundedProfile" where
  "profile_record f observed p =
     (let bucket = latency_bucket f (ob_latency observed); samples = sat_add (bp_samples p) 1 in
      \<lparr>bp_histogram = (bp_histogram p)[bucket := sat_add (bp_histogram p ! bucket) 1],
       bp_samples = samples,
       bp_failures = sat_add (bp_failures p) (if ob_failed observed then 1 else 0),
       bp_ewma = (if samples = 1 then ob_latency observed
                  else f_mul_add f (bp_ewma p) (f_lit f 8 1) (f_mul f (ob_latency observed) (f_lit f 2 1))),
       bp_peak_memory = max (bp_peak_memory p) (ob_peak_memory observed)\<rparr>)"

definition profile_new :: "('f, 'z) f64_arith_scheme \<Rightarrow> 'f PerformanceObservation \<Rightarrow> 'f BoundedProfile" where
  "profile_new f observed = profile_record f observed
     \<lparr>bp_histogram = replicate 32 0, bp_samples = 0, bp_failures = 0, bp_ewma = ob_latency observed, bp_peak_memory = 0\<rparr>"

definition div_ceil :: "u32 \<Rightarrow> u32 \<Rightarrow> u32" where
  "div_ceil a b = a div b + (if a mod b = 0 then 0 else 1)"

fun quantile_from :: "('f, 'z) f64_arith_scheme \<Rightarrow> u32 \<Rightarrow> u32 \<Rightarrow> nat \<Rightarrow> u32 list \<Rightarrow> 'f option" where
  "quantile_from f target cumulative index [] = None"
| "quantile_from f target cumulative index (n # ns) =
     (let cumulative = sat_add cumulative n in
      if cumulative \<ge> target then Some (bucket_upper_bound f index)
      else quantile_from f target cumulative (index + 1) ns)"

definition quantile_target :: "u32 \<Rightarrow> u32 \<Rightarrow> u32 \<Rightarrow> u32" where
  "quantile_target samples numerator denominator = max (div_ceil (sat_mul samples numerator) denominator) 1"

definition profile_quantile :: "('f, 'z) f64_arith_scheme \<Rightarrow> u32 \<Rightarrow> u32 \<Rightarrow> 'f BoundedProfile \<Rightarrow> 'f" where
  "profile_quantile f numerator denominator p =
     (let target = quantile_target (bp_samples p) numerator denominator
      in unwrap_or (bucket_upper_bound f (length (bp_histogram p) - 1)) (quantile_from f target 0 0 (bp_histogram p)))"

definition prediction :: "('f, 'z) f64_arith_scheme \<Rightarrow> u32 \<Rightarrow> 'f BoundedProfile \<Rightarrow> 'f PerformancePrediction" where
  "prediction f minimum_samples p =
     (let missing = sat_sub minimum_samples (bp_samples p) in
      \<lparr>pr_samples = bp_samples p, pr_p50 = profile_quantile f 50 100 p, pr_p95 = profile_quantile f 95 100 p,
       pr_p99 = profile_quantile f 99 100 p, pr_ewma = bp_ewma p, pr_peak_memory = bp_peak_memory p,
       pr_failure_probability = f_div f (f_lit f (unat (bp_failures p)) 0) (f_lit f (unat (max (bp_samples p) 1)) 0),
       pr_throughput = f_div f (f_lit f 1 0) (f_max f (bp_ewma p) (f_lit f 2220446049250313 31)),
       pr_uncertainty = f_div f (f_lit f (unat missing) 0) (f_lit f (unat (max minimum_samples 1)) 0)\<rparr>)"

section \<open>The model\<close>

text \<open>The key of a profile is its task type, variant and input bucket, in this order.\<close>

type_synonym PerformanceKey = "string \<times> string \<times> u8"

record 'f PerformanceModel =
  pm_profiles :: "(PerformanceKey, 'f BoundedProfile) fmap"
  pm_max_profiles :: nat
  pm_minimum_samples :: u32

definition model_new :: "nat \<Rightarrow> u32 \<Rightarrow> 'f PerformanceModel result" where
  "model_new max_profiles minimum_samples =
     (if max_profiles = 0 \<or> minimum_samples = 0 then Inl scheduler_config_error
      else Inr \<lparr>pm_profiles = fmempty, pm_max_profiles = max_profiles, pm_minimum_samples = minimum_samples\<rparr>)"

definition model_record ::
  "('f, 'z) f64_arith_scheme \<Rightarrow> string \<Rightarrow> string \<Rightarrow> u8 \<Rightarrow> 'f PerformanceObservation \<Rightarrow> 'f PerformanceModel
     \<Rightarrow> unit result \<times> 'f PerformanceModel" where
  "model_record f task_type variant_id input_bucket observed m =
     (if \<not> f_finite f (ob_latency observed) \<or> f_le f (ob_latency observed) (f_zero f) then (Inl scheduler_input_error, m)
      else let key = (task_type, variant_id, input_bucket) in
        case fmlookup (pm_profiles m) key of
          Some p \<Rightarrow> (Inr (), m\<lparr>pm_profiles := fmupd key (profile_record f observed p) (pm_profiles m)\<rparr>)
        | None \<Rightarrow>
            if bt_len (pm_profiles m) \<ge> pm_max_profiles m
            then (case bt_keys (pm_profiles m) of
                    [] \<Rightarrow> (Inl scheduler_config_error, m)
                  | oldest_key # _ \<Rightarrow>
                      (Inr (), m\<lparr>pm_profiles := fmupd key (profile_new f observed) (fmdrop oldest_key (pm_profiles m))\<rparr>))
            else (Inr (), m\<lparr>pm_profiles := fmupd key (profile_new f observed) (pm_profiles m)\<rparr>))"

definition model_predict :: "('f, 'z) f64_arith_scheme \<Rightarrow> string \<Rightarrow> string \<Rightarrow> u8 \<Rightarrow> 'f PerformanceModel \<Rightarrow> 'f PerformancePrediction option" where
  "model_predict f task_type variant_id input_bucket m =
     map_option (prediction f (pm_minimum_samples m)) (fmlookup (pm_profiles m) (task_type, variant_id, input_bucket))"

definition profile_count :: "'f PerformanceModel \<Rightarrow> nat" where
  "profile_count m = bt_len (pm_profiles m)"

lemma bt_len_drop_mem: "bt_contains m k \<Longrightarrow> Suc (bt_len (fmdrop k m)) = bt_len m"
  using card_Suc_Diff1 [of "fset (fmdom m)" k] by (simp add: bt_len_def bt_contains_iff fcard.rep_eq)

lemma model_record_bounded:
  assumes "profile_count m \<le> pm_max_profiles m" and "0 < pm_max_profiles m"
  shows "profile_count (snd (model_record f t v b ob m)) \<le> pm_max_profiles m
    \<and> pm_max_profiles (snd (model_record f t v b ob m)) = pm_max_profiles m"
proof -
  let ?ps = "pm_profiles m"
  have "k \<in> set (bt_keys ?ps) \<Longrightarrow> Suc (bt_len (fmdrop k ?ps)) = bt_len ?ps" for k
    by (rule bt_len_drop_mem) (simp add: bt_contains_iff)
  then have "bt_keys ?ps = k # ks \<Longrightarrow> Suc (bt_len (fmdrop k ?ps)) = bt_len ?ps" for k ks by simp
  then show ?thesis using assms
    by (auto simp: model_record_def profile_count_def Let_def bt_len_upd bt_contains_def split: option.split list.split)
qed

section \<open>Quantiles\<close>

lemma bucket_from_le: "bucket \<le> 31 \<Longrightarrow> bucket_from f x bucket \<le> 31"
  by (induction f x bucket rule: bucket_from.induct) (subst bucket_from.simps, simp)

lemma latency_bucket_less: "latency_bucket f x < 32"
  using bucket_from_le [of 0 f x] by (simp add: latency_bucket_def)

abbreviation buckets_of :: "('f, 'z) f64_arith_scheme \<Rightarrow> 'f PerformanceObservation list \<Rightarrow> nat list" where
  "buckets_of f obs \<equiv> map (\<lambda>ob. latency_bucket f (ob_latency ob)) obs"

fun recorded :: "('f, 'z) f64_arith_scheme \<Rightarrow> 'f PerformanceObservation list \<Rightarrow> 'f BoundedProfile option" where
  "recorded f [] = None"
| "recorded f (ob # obs) = Some (foldl (\<lambda>p ob. profile_record f ob p) (profile_new f ob) obs)"

definition counts_ok :: "nat list \<Rightarrow> 'f BoundedProfile \<Rightarrow> bool" where
  "counts_ok bs p \<longleftrightarrow> length (bp_histogram p) = 32 \<and> unat (bp_samples p) = length bs
     \<and> (\<forall>i<32. unat (bp_histogram p ! i) = count_list bs i)"

lemma count_list_le_length: "count_list xs x \<le> length xs"
  by (induction xs) auto

lemma profile_record_counts:
  assumes "counts_ok bs p" and "length bs + 1 < 2 ^ 32"
  shows "counts_ok (bs @ [latency_bucket f (ob_latency ob)]) (profile_record f ob p)"
proof -
  let ?b = "latency_bucket f (ob_latency ob)"
  have "unat (bp_histogram p ! ?b) \<le> length bs"
    using assms(1) latency_bucket_less count_list_le_length by (metis counts_ok_def)
  then show ?thesis using assms latency_bucket_less [of f "ob_latency ob"]
    by (auto simp: counts_ok_def profile_record_def Let_def unat_sat_add nth_list_update)
qed

lemma recorded_counts:
  assumes "recorded f obs = Some p" and "length obs < 2 ^ 32"
  shows "counts_ok (buckets_of f obs) p"
proof (cases obs)
  case (Cons ob rest)
  have "counts_ok [] \<lparr>bp_histogram = replicate 32 0, bp_samples = 0, bp_failures = 0, bp_ewma = ob_latency ob, bp_peak_memory = 0\<rparr>"
    by (simp add: counts_ok_def)
  from profile_record_counts [OF this, of f ob] have new: "counts_ok (buckets_of f [ob]) (profile_new f ob)"
    by (simp add: profile_new_def)
  have "counts_ok (buckets_of f done') q \<Longrightarrow> length done' + length rest < 2 ^ 32 \<Longrightarrow>
      counts_ok (buckets_of f (done' @ rest)) (foldl (\<lambda>p ob. profile_record f ob p) q rest)" for done' q rest
  proof (induction rest arbitrary: done' q)
    case (Cons o' rest)
    have "counts_ok (buckets_of f (done' @ [o'])) (profile_record f o' q)"
      using profile_record_counts [of "buckets_of f done'" q f o'] Cons.prems by simp
    then show ?case using Cons.IH [of "done' @ [o']"] Cons.prems(2) by simp
  qed simp
  from this [of "[ob]" "profile_new f ob" rest] new assms Cons show ?thesis by simp
qed (use assms in simp)

lemma sorted_nth_le:
  "sorted xs \<Longrightarrow> k < length xs \<Longrightarrow> xs ! k \<le> i \<longleftrightarrow> k < length (filter (\<lambda>x. x \<le> i) xs)" for xs :: "nat list"
proof (induction xs arbitrary: k)
  case (Cons x xs)
  show ?case
  proof (cases "x \<le> i")
    case True
    then show ?thesis using Cons by (cases k) auto
  next
    case False
    then have none: "filter (\<lambda>x. x \<le> i) (x # xs) = []" using Cons.prems(1) by (auto simp: filter_empty_conv)
    have "x \<le> (x # xs) ! k" using Cons.prems by (cases k) auto
    with False none show ?thesis by simp
  qed
qed simp

lemma count_le_Suc: "length (filter (\<lambda>x. x \<le> Suc i) xs) = length (filter (\<lambda>x. x \<le> i) xs) + count_list xs (Suc i)" for xs :: "nat list"
  by (induction xs) (auto simp: le_Suc_eq)

lemma count_less_Suc: "length (filter (\<lambda>x. x < Suc i) xs) = length (filter (\<lambda>x. x < i) xs) + count_list xs i" for xs :: "nat list"
  by (induction xs) (auto simp: less_Suc_eq)

lemma ceil_div:
  fixes a d :: nat
  assumes "0 < d"
  shows "(a + d - 1) div d = a div d + (if a mod d = 0 then 0 else 1)"
proof -
  have a: "a = d * (a div d) + a mod d" by simp
  show ?thesis
  proof (cases "a mod d = 0")
    case True
    then have "a + d - 1 = (d - 1) + d * (a div d)" using assms a by linarith
    moreover have "((d - 1) + d * (a div d)) div d = a div d" using assms by (subst div_mult_self2) simp_all
    ultimately show ?thesis using True by simp
  next
    case False
    then have "a + d - 1 = (a mod d - 1) + (d * (a div d) + d)" using assms a by linarith
    then have "a + d - 1 = (a mod d - 1) + d * (a div d + 1)" by simp
    moreover have "a mod d - 1 < d" using assms by (meson less_imp_diff_less mod_less_divisor)
    then have "((a mod d - 1) + d * (a div d + 1)) div d = a div d + 1" using assms by (subst div_mult_self2) simp_all
    ultimately show ?thesis using False by presburger
  qed
qed

lemma quantile_from_rank:
  assumes "counts_ok bs p" and "set bs \<subseteq> {..<32}" and "0 < unat target" and "unat target \<le> length bs" and "length bs < 2 ^ 32"
  shows "i + length ns = 32 \<Longrightarrow> ns = drop i (bp_histogram p) \<Longrightarrow> unat cumulative = length (filter (\<lambda>b. b < i) bs) \<Longrightarrow>
     unat cumulative < unat target \<Longrightarrow>
     quantile_from f target cumulative i ns = Some (bucket_upper_bound f (sort bs ! (unat target - 1)))"
proof (induction ns arbitrary: i cumulative)
  case Nil
  have "filter (\<lambda>b. b < 32) bs = bs" using assms(2) by (auto simp: filter_id_conv)
  then show ?case using Nil assms(4) by simp
next
  case (Cons n ns)
  have i: "i < 32" using Cons.prems(1) by simp
  have "n = bp_histogram p ! i" using Cons.prems(2) by (metis nth_via_drop)
  then have n: "unat n = count_list bs i" using assms(1) i by (simp add: counts_ok_def)
  have sum: "unat cumulative + unat n = length (filter (\<lambda>b. b < Suc i) bs)" using Cons.prems(3) n by (simp add: count_less_Suc)
  have "length (filter (\<lambda>b. b < Suc i) bs) \<le> length bs" by simp
  then have "length (filter (\<lambda>b. b < Suc i) bs) \<le> 2 ^ 32 - 1" using assms(5) by linarith
  then have c: "unat (sat_add cumulative n) = length (filter (\<lambda>b. b < Suc i) bs)"
    using sum assms(5) by (simp add: unat_sat_add min_absorb1)
  let ?k = "unat target - 1"
  have k: "?k < length (sort bs)" using assms(3,4) by simp
  have len: "length (filter P (sort bs)) = length (filter P bs)" for P
    by (metis filter_sort length_sort)
  have above: "\<not> sort bs ! ?k < i"
  proof (cases i)
    case (Suc j)
    have "\<not> ?k < length (filter (\<lambda>x. x \<le> j) (sort bs))"
      using Cons.prems(3,4) Suc unfolding len by (simp add: less_Suc_eq_le)
    then show ?thesis using sorted_nth_le [OF sorted_sort k, of j] Suc by simp
  qed simp
  show ?case
  proof (cases "target \<le> sat_add cumulative n")
    case True
    then have "?k < length (filter (\<lambda>x. x \<le> i) (sort bs))"
      using c assms(3) unfolding len by (simp add: word_le_nat_alt less_Suc_eq_le)
    then have "sort bs ! ?k \<le> i" using sorted_nth_le [OF sorted_sort k] by blast
    with above True show ?thesis by simp
  next
    case False
    have "quantile_from f target (sat_add cumulative n) (Suc i) ns = Some (bucket_upper_bound f (sort bs ! ?k))"
    proof (rule Cons.IH)
      show "ns = drop (Suc i) (bp_histogram p)" using Cons.prems(2) by (metis drop_Suc list.sel(3) tl_drop)
    qed (use Cons.prems(1) c False in \<open>auto simp: word_le_nat_alt\<close>)
    with False show ?thesis by simp
  qed
qed

text \<open>
  A quantile is the bucket of the observation of its rank: for a profile that
  recorded fewer observations than its counters can multiply, the quantile \<open>num / den\<close> is the
  upper bound of the bucket of the observation of rank \<open>\<lceil>n * num / den\<rceil>\<close> in the order of the
  latency buckets.
\<close>

theorem quantile_is_rank:
  assumes "recorded f obs = Some p" and "length obs * unat num < 2 ^ 32" and "num \<le> den" and "0 < num"
  shows "profile_quantile f num den p =
    bucket_upper_bound f (sort (buckets_of f obs) ! ((length obs * unat num + unat den - 1) div unat den - 1))"
proof -
  let ?bs = "buckets_of f obs" and ?n = "length obs" and ?num = "unat num" and ?den = "unat den"
  have nd: "0 < ?num" "?num \<le> ?den" "?n \<noteq> 0"
    using assms(1,3,4) by (auto simp: word_le_nat_alt word_less_nat_alt)
  have pos: "0 < ?n * ?num" using nd by simp
  have "?n * 1 \<le> ?n * ?num" using nd(1) by (intro mult_le_mono2) simp
  also have "\<dots> < 2 ^ 32" by (rule assms(2))
  finally have small: "?n < 2 ^ 32" by simp
  have ok: "counts_ok ?bs p" by (rule recorded_counts [OF assms(1) small])
  let ?c = "(?n * ?num + ?den - 1) div ?den"
  have c: "?c = ?n * ?num div ?den + (if ?n * ?num mod ?den = 0 then 0 else 1)" by (rule ceil_div) (use nd in simp)
  have "?c \<le> (?n * ?den + ?den - 1) div ?den" using nd by (intro div_le_mono diff_le_mono add_le_mono mult_le_mono) auto
  also have "\<dots> = ?n" using ceil_div [of ?den "?n * ?den"] nd by simp
  finally have c_le: "?c \<le> ?n" .
  have "?den \<le> ?n * ?num + ?den - 1" using pos by linarith
  then have c_pos: "1 \<le> ?c" using div_le_mono [of ?den _ ?den] nd by fastforce
  have "unat (div_ceil (sat_mul (bp_samples p) num) den) = ?c"
  proof -
    have u: "unat (sat_mul (bp_samples p) num) = ?n * ?num"
      using ok assms(2) by (simp add: unat_sat_mul counts_ok_def)
    have m: "sat_mul (bp_samples p) num mod den = 0 \<longleftrightarrow> ?n * ?num mod ?den = 0"
      by (simp add: unat_eq_0 [symmetric] unat_mod u)
    have q: "unat (sat_mul (bp_samples p) num div den) = ?n * ?num div ?den" by (simp add: unat_div u)
    have "?n * ?num div ?den + (if ?n * ?num mod ?den = 0 then 0 else 1) < 2 ^ 32" using c c_le small by linarith
    then show ?thesis unfolding c div_ceil_def m by (simp add: unat_word_ariths u split: if_splits)
  qed
  then have t: "unat (quantile_target (bp_samples p) num den) = ?c"
    using c_pos by (simp add: quantile_target_def max_def word_le_nat_alt)
  have "set ?bs \<subseteq> {..<32}" using latency_bucket_less by auto
  then have "quantile_from f (quantile_target (bp_samples p) num den) 0 0 (bp_histogram p)
      = Some (bucket_upper_bound f (sort ?bs ! (?c - 1)))"
    using quantile_from_rank [OF ok, of "quantile_target (bp_samples p) num den" 0 "bp_histogram p" 0 f] ok t c_pos c_le small
    by (simp add: counts_ok_def)
  then show ?thesis by (simp add: profile_quantile_def)
qed

definition demo_observation :: "int \<Rightarrow> int PerformanceObservation" where
  "demo_observation n = \<lparr>ob_latency = n, ob_peak_memory = 0, ob_failed = False\<rparr>"

lemma quantile_is_rank_witness:
  "\<exists>p. recorded int_arith [demo_observation 7, demo_observation 1, demo_observation 3] = Some p
     \<and> profile_quantile int_arith 50 100 p = bucket_upper_bound int_arith (sort [2, 0, 1] ! 1)"
proof -
  let ?obs = "[demo_observation 7, demo_observation 1, demo_observation 3]"
  obtain p where p: "recorded int_arith ?obs = Some p" by simp
  have "buckets_of int_arith ?obs = [2, 0, 1]"
    by (simp add: latency_bucket_def demo_observation_def int_arith_def bucket_from.simps)
  then show ?thesis using quantile_is_rank [OF p, of 50 100] p by simp
qed

end
