(* ===== verification/Placement_Scheduler.thy ===== *)
theory Placement_Scheduler
  imports Capability_Index Performance_Model
begin

text \<open>
  The task queue and the placement of \<open>scheduler.rs\<close>: a queue that gives out a task of the
  highest priority, and the scheduler that filters the nodes, ranks them coarsely, evaluates
  their variants and selects the one of the lowest risk-adjusted cost.
\<close>

section \<open>The task queue\<close>

record 't TaskPriorityQueue =
  tq_max_tasks :: nat
  tq_tasks :: "(LexicographicPriority \<times> 't) list"

definition task_queue_new :: "nat \<Rightarrow> 't TaskPriorityQueue result" where
  "task_queue_new max_tasks =
     (if max_tasks = 0 then Inl scheduler_config_error else Inr \<lparr>tq_max_tasks = max_tasks, tq_tasks = []\<rparr>)"

definition task_queue_full :: DistributedError where
  "task_queue_full = error_new CapacityExceeded ''scheduler task queue is full''"

definition task_push :: "LexicographicPriority \<Rightarrow> 't \<Rightarrow> 't TaskPriorityQueue \<Rightarrow> unit result \<times> 't TaskPriorityQueue" where
  "task_push p t q =
     (if length (tq_tasks q) \<ge> tq_max_tasks q then (Inl task_queue_full, q)
      else (Inr (), q\<lparr>tq_tasks := tq_tasks q @ [(p, t)]\<rparr>))"

text \<open>\<open>Iterator::max_by_key\<close> gives the last of several greatest elements.\<close>

fun last_max_from :: "nat \<Rightarrow> int list \<Rightarrow> nat \<Rightarrow> int list list \<Rightarrow> nat" where
  "last_max_from best key i [] = best"
| "last_max_from best key i (k # ks) =
     (if key \<le> k then last_max_from i k (i + 1) ks else last_max_from best key (i + 1) ks)"

fun max_index :: "int list list \<Rightarrow> nat option" where
  "max_index [] = None"
| "max_index (k # ks) = Some (last_max_from 0 k 1 ks)"

definition swap_remove :: "nat \<Rightarrow> 'a list \<Rightarrow> 'a list" where
  "swap_remove i xs = (if i < length xs - 1 then (butlast xs)[i := last xs] else butlast xs)"

definition task_pop :: "'t TaskPriorityQueue \<Rightarrow> 't option \<times> 't TaskPriorityQueue" where
  "task_pop q =
     (case max_index (map (scheduling_key \<circ> fst) (tq_tasks q)) of
        None \<Rightarrow> (None, q)
      | Some i \<Rightarrow> (Some (snd (tq_tasks q ! i)), q\<lparr>tq_tasks := swap_remove i (tq_tasks q)\<rparr>))"

section \<open>Placement\<close>

record 'f PlacementScheduler =
  ps_index :: "'f CapabilityIndex"
  ps_performance :: "'f PerformanceModel"
  ps_top_k :: nat
  ps_max_operations :: nat

definition scheduler_new :: "nat \<Rightarrow> nat \<Rightarrow> nat \<Rightarrow> u32 \<Rightarrow> 'f PlacementScheduler result" where
  "scheduler_new top_k max_operations max_profiles minimum_samples =
     (if top_k = 0 \<or> max_operations = 0 then Inl scheduler_config_error
      else bind_result (model_new max_profiles minimum_samples)
             (\<lambda>m. Inr \<lparr>ps_index = index_new, ps_performance = m, ps_top_k = top_k, ps_max_operations = max_operations\<rparr>))"

definition update_node ::
  "('f, 'z) f64_arith_scheme \<Rightarrow> SchedulingEvent \<Rightarrow> 'f SchedulingNodeSnapshot \<Rightarrow> 'f PlacementScheduler
     \<Rightarrow> unit result \<times> 'f PlacementScheduler" where
  "update_node f event snapshot s =
     (if event \<noteq> NodeStateChanged \<and> event \<noteq> CapabilityChanged then (Inl scheduler_input_error, s)
      else (case upsert f snapshot (ps_index s) of (r, ix) \<Rightarrow> (r, s\<lparr>ps_index := ix\<rparr>)))"

definition validate_request :: "('f, 'z) f64_arith_scheme \<Rightarrow> 'f TaskPlacementRequest \<Rightarrow> unit result" where
  "validate_request f q =
     (if \<not> list_all (f_finite f)
            [rq_local_cost q, rq_safety_margin q, rq_small_task q, rq_migration_cost q, rq_dag_cross_node_cost q,
             rq_dag_parallel_benefit q, slo_deadline (rq_slo q), slo_max_p95 (rq_slo q), slo_max_p99 (rq_slo q),
             slo_max_jitter (rq_slo q), slo_max_failure (rq_slo q), slo_minimum_quality (rq_slo q)]
         \<or> f_lt f (rq_local_cost q) (f_zero f) \<or> f_lt f (rq_safety_margin q) (f_zero f)
         \<or> f_lt f (slo_minimum_quality (rq_slo q)) (f_zero f) \<or> f_lt f (slo_max_failure (rq_slo q)) (f_zero f)
      then Inl scheduler_input_error else Inr ())"

definition is_remote_profitable :: "('f, 'z) f64_arith_scheme \<Rightarrow> 'f \<Rightarrow> 'f \<Rightarrow> 'f \<Rightarrow> bool \<Rightarrow> bool \<Rightarrow> bool" where
  "is_remote_profitable f local_cost remote_cost safety_margin default_local is_local \<longleftrightarrow>
     is_local \<or> (\<not> default_local \<and> f_finite f local_cost \<and> f_finite f remote_cost \<and> f_finite f safety_margin
                 \<and> f_lt f (f_add f remote_cost safety_margin) local_cost)"

definition hard_node_filter :: "'f SchedulingNodeSnapshot \<Rightarrow> 'f TaskPlacementRequest \<Rightarrow> bool" where
  "hard_node_filter node q \<longleftrightarrow>
     sn_health node = MemberHealth.Healthy \<and> sn_identity_status node = StatusActive \<and> sn_integrity_verified node
     \<and> flags_contain (sn_capabilities node) (rq_required_capabilities q) \<and> sn_trust_level node \<ge> rq_minimum_trust q
     \<and> (case rq_required_os q of None \<Rightarrow> True | Some os \<Rightarrow> os = sn_os node)
     \<and> (case rq_required_abi q of None \<Rightarrow> True | Some abi \<Rightarrow> abi = sn_abi node)
     \<and> sn_memory node \<ge> rq_required_memory q \<and> sn_vram node \<ge> rq_required_vram q
     \<and> (\<not> flags_contain (rq_flags q) flag_local_only \<or> sn_node_id node = rq_local_node q)"

definition hard_variant_filter ::
  "('f, 'z) f64_arith_scheme \<Rightarrow> 'f SchedulingNodeSnapshot \<Rightarrow> 'f ExecutionVariant \<Rightarrow> 'f TaskPlacementRequest \<Rightarrow> bool" where
  "hard_variant_filter f node v q \<longleftrightarrow>
     flags_contain (sn_capabilities node) (ev_required_capabilities v) \<and> ev_peak_memory v \<le> sn_memory node
     \<and> ev_peak_vram v \<le> sn_vram node
     \<and> (case rq_required_plugin q of
          None \<Rightarrow> True | Some (plugin, generation) \<Rightarrow> ev_plugin_id v = plugin \<and> ev_plugin_generation v = generation)
     \<and> f_le f (slo_minimum_quality (rq_slo q)) (ev_quality v)
     \<and> (rq_quality_policy q = AllowDegraded \<or> f_le f (f_lit f 1 0) (ev_quality v))"

definition within_limit :: "('f, 'z) f64_arith_scheme \<Rightarrow> 'f option \<Rightarrow> 'f option \<Rightarrow> bool" where
  "within_limit f limit value =
     (case limit of None \<Rightarrow> True | Some m \<Rightarrow> (case value of None \<Rightarrow> False | Some x \<Rightarrow> f_le f x m))"

definition satisfies_slo ::
  "('f, 'z) f64_arith_scheme \<Rightarrow> 'f TaskPlacementRequest \<Rightarrow> 'f ExecutionVariant \<Rightarrow> 'f \<Rightarrow> 'f \<Rightarrow> 'f \<Rightarrow> bool" where
  "satisfies_slo f q v p95 p99 failure_probability \<longleftrightarrow>
     (let c = ev_base_cost v; slo = rq_slo q in
      f_le f (cost_total f c) (slo_deadline slo) \<and> f_le f p95 (slo_max_p95 slo) \<and> f_le f p99 (slo_max_p99 slo)
      \<and> f_le f (ec_jitter c) (slo_max_jitter slo) \<and> f_le f failure_probability (slo_max_failure slo)
      \<and> (\<not> slo_streaming slo
         \<or> (within_limit f (slo_max_ttft slo) (ec_ttft c) \<and> within_limit f (slo_max_steady slo) (ec_steady_latency c))))"

definition scarcity_penalty ::
  "('f, 'z) f64_arith_scheme \<Rightarrow> 'f CapabilityIndex \<Rightarrow> 'f SchedulingNodeSnapshot \<Rightarrow> 'f TaskPlacementRequest \<Rightarrow> 'f" where
  "scarcity_penalty f ix node q =
     (let scarce = length (filter (\<lambda>b. and (rq_required_capabilities q) (push_bit (unat b) 1) = 0 \<and> capability_supply ix b \<le> 2)
                     (set_bits (sn_capabilities node)))
      in f_mul f (f_lit f (min scarce (2 ^ 32 - 1)) 0) (f_lit f 25 0))"

definition default_local :: "('f, 'z) f64_arith_scheme \<Rightarrow> 'f TaskPlacementRequest \<Rightarrow> bool" where
  "default_local f q \<longleftrightarrow>
     flags_contain (rq_flags q) flag_local_only \<or> flags_contain (rq_flags q) flag_frame_bound
     \<or> flags_contain (rq_flags q) flag_local_device_bound \<or> f_le f (rq_local_cost q) (rq_small_task q)
     \<or> px_latency_class (rq_priority q) = HardRealtime"

datatype ordering = OLess | OEqual | OGreater

definition float_order :: "('f, 'z) f64_arith_scheme \<Rightarrow> 'f \<Rightarrow> 'f \<Rightarrow> ordering" where
  "float_order f a b = (if f_lt f a b then OLess else if f_lt f b a then OGreater else OEqual)"

text \<open>\<open>sort_by\<close> is stable; for an order that is total every stable sort gives this list.\<close>

fun insert_by :: "('a \<Rightarrow> 'a \<Rightarrow> ordering) \<Rightarrow> 'a \<Rightarrow> 'a list \<Rightarrow> 'a list" where
  "insert_by c x [] = [x]"
| "insert_by c x (y # ys) = (if c x y = OGreater then y # insert_by c x ys else x # y # ys)"

definition sort_by :: "('a \<Rightarrow> 'a \<Rightarrow> ordering) \<Rightarrow> 'a list \<Rightarrow> 'a list" where
  "sort_by c xs = foldr (insert_by c) xs []"

definition coarse_entry ::
  "('f, 'z) f64_arith_scheme \<Rightarrow> 'f PlacementScheduler \<Rightarrow> 'f TaskPlacementRequest \<Rightarrow> NodeId \<Rightarrow> ('f \<times> NodeId) option" where
  "coarse_entry f s q n =
     (case index_get (ps_index s) n of
        None \<Rightarrow> None
      | Some node \<Rightarrow>
          if \<not> hard_node_filter node q then None
          else let localized = fcard (ffilter (\<lambda>c. c |\<in>| sn_localized node) (rq_required_content q)) in
            Some (f_sub f (f_lit f (unat (sn_pressure_bucket node)) 0)
                    (f_mul f (f_lit f (min localized (2 ^ 32 - 1)) 0) (f_lit f 5 0)), n))"

definition coarse_nodes ::
  "('f, 'z) f64_arith_scheme \<Rightarrow> 'f PlacementScheduler \<Rightarrow> 'f TaskPlacementRequest \<Rightarrow> ('f \<times> NodeId) list" where
  "coarse_nodes f s q =
     take (min (ps_top_k s) (ps_max_operations s))
       (sort_by (\<lambda>l r. float_order f (fst l) (fst r))
         (List.map_filter (coarse_entry f s q)
           (sorted_list_of_fset (candidate_ids_for (ps_index s) (rq_required_capabilities q) (rq_required_plugin q)))))"

definition session_cost ::
  "('f, 'z) f64_arith_scheme \<Rightarrow> 'f TaskPlacementRequest \<Rightarrow> 'f SchedulingNodeSnapshot \<Rightarrow> 'f ExecutionVariant \<Rightarrow> 'f" where
  "session_cost f q node v =
     (case rq_session_node q of
        None \<Rightarrow> f_zero f
      | Some n \<Rightarrow> if n = sn_node_id node
                 then f_neg f (f_min f (rq_migration_cost q) (f_mul f (cost_total f (ev_base_cost v)) (f_lit f 25 2)))
                 else rq_migration_cost q)"

definition dag_cost :: "('f, 'z) f64_arith_scheme \<Rightarrow> 'f TaskPlacementRequest \<Rightarrow> 'f" where
  "dag_cost f q =
     (if f_lt f (rq_dag_parallel_benefit q) (rq_dag_cross_node_cost q)
      then f_sub f (rq_dag_cross_node_cost q) (rq_dag_parallel_benefit q) else f_zero f)"

definition stability_bias :: "('f, 'z) f64_arith_scheme \<Rightarrow> 'f TaskPlacementRequest \<Rightarrow> 'f \<Rightarrow> 'f" where
  "stability_bias f q uncertainty =
     (if px_latency_class (rq_priority q) \<in> {ClusterSafety, HardRealtime, SoftRealtime}
      then f_mul f uncertainty (f_lit f 50 0) else f_mul f uncertainty (f_lit f 10 0))"

definition map_or :: "'b \<Rightarrow> ('a \<Rightarrow> 'b) \<Rightarrow> 'a option \<Rightarrow> 'b" where
  "map_or d g x = (case x of None \<Rightarrow> d | Some y \<Rightarrow> g y)"

definition evaluate_variant ::
  "('f, 'z) f64_arith_scheme \<Rightarrow> 'f PlacementScheduler \<Rightarrow> 'f TaskPlacementRequest \<Rightarrow> 'f SchedulingNodeSnapshot
     \<Rightarrow> 'f ExecutionVariant \<Rightarrow> 'f PlacementCandidate option" where
  "evaluate_variant f s q node v =
     (if \<not> hard_variant_filter f node v q then None
      else
        let is_local = (sn_node_id node = rq_local_node q); c = ev_base_cost v in
        if default_local f q \<and> \<not> is_local then None
        else
          let prediction = model_predict f (rq_task_type q) (ev_variant_id v) (rq_input_bucket q) (ps_performance s);
              p50 = map_or (ec_execution c) pr_p50 prediction;
              p95 = map_or (f_add f (ec_execution c) (ec_jitter c)) pr_p95 prediction;
              p99 = map_or (f_add f (ec_execution c) (f_mul f (ec_jitter c) (f_lit f 2 0))) pr_p99 prediction;
              failure = f_max f (map_or (ev_failure_probability v) pr_failure_probability prediction) (ev_failure_probability v);
              uncertainty = map_or (f_lit f 1 0) pr_uncertainty prediction
          in if \<not> satisfies_slo f q v p95 p99 failure then None
             else
               let transfer = (if is_local then f_zero f else f_add f (ec_input_transfer c) (ec_output_transfer c));
                   remote_cost = foldl (f_add f) (ec_queue c)
                     [ec_rtt c, transfer, ec_prewarm c, p50, ec_commit c, ec_jitter c, f_mul f failure (ec_recovery c),
                      session_cost f q node v, dag_cost f q]
               in if \<not> is_remote_profitable f (rq_local_cost q) remote_cost (rq_safety_margin q) (default_local f q) is_local then None
                  else
                    let quality_penalty = f_mul f (f_max f (f_sub f (f_lit f 1 0) (ev_quality v)) (f_zero f)) (f_lit f 1000 0)
                    in Some \<lparr>pc_node_id = sn_node_id node, pc_variant_id = ev_variant_id v,
                             pc_capability_version = sn_capability_version node, pc_resource_version = sn_resource_version node,
                             pc_p50 = p50, pc_p95 = p95, pc_p99 = p99,
                             pc_risk_cost = foldl (f_add f) remote_cost
                               [quality_penalty, scarcity_penalty f (ps_index s) node q, stability_bias f q uncertainty, ec_energy c],
                             pc_remote_cost = remote_cost\<rparr>)"

fun eval_variants ::
  "('f, 'z) f64_arith_scheme \<Rightarrow> 'f PlacementScheduler \<Rightarrow> 'f TaskPlacementRequest \<Rightarrow> 'f SchedulingNodeSnapshot
     \<Rightarrow> 'f ExecutionVariant list \<Rightarrow> nat \<times> 'f PlacementCandidate list \<Rightarrow> nat \<times> 'f PlacementCandidate list" where
  "eval_variants f s q node [] (evaluated, cs) = (evaluated, cs)"
| "eval_variants f s q node (v # vs) (evaluated, cs) =
     (if evaluated \<ge> ps_max_operations s then (evaluated, cs)
      else eval_variants f s q node vs
             (evaluated + 1, case evaluate_variant f s q node v of None \<Rightarrow> cs | Some c \<Rightarrow> cs @ [c]))"

definition eval_node ::
  "('f, 'z) f64_arith_scheme \<Rightarrow> 'f PlacementScheduler \<Rightarrow> 'f TaskPlacementRequest \<Rightarrow> nat \<times> 'f PlacementCandidate list
     \<Rightarrow> 'f \<times> NodeId \<Rightarrow> nat \<times> 'f PlacementCandidate list" where
  "eval_node f s q acc entry =
     (case index_get (ps_index s) (snd entry) of
        None \<Rightarrow> acc
      | Some node \<Rightarrow> eval_variants f s q node (sn_variants node) acc)"

definition schedule_candidates ::
  "('f, 'z) f64_arith_scheme \<Rightarrow> 'f PlacementScheduler \<Rightarrow> 'f TaskPlacementRequest \<Rightarrow> nat \<times> 'f PlacementCandidate list" where
  "schedule_candidates f s q = foldl (eval_node f s q) (0, []) (coarse_nodes f s q)"

definition candidate_order :: "('f, 'z) f64_arith_scheme \<Rightarrow> 'f PlacementCandidate \<Rightarrow> 'f PlacementCandidate \<Rightarrow> ordering" where
  "candidate_order f l r =
     (case float_order f (pc_risk_cost l) (pc_risk_cost r) of
        OEqual \<Rightarrow> (if pc_node_id l < pc_node_id r then OLess else if pc_node_id r < pc_node_id l then OGreater else OEqual)
      | decided \<Rightarrow> decided)"

definition no_placement_error :: DistributedError where
  "no_placement_error = error_new WorkerUnavailable ''no placement satisfies hard constraints, SLO, and profitability''"

definition schedule ::
  "('f, 'z) f64_arith_scheme \<Rightarrow> SchedulingEvent \<Rightarrow> 'f TaskPlacementRequest \<Rightarrow> 'f PlacementScheduler \<Rightarrow> 'f PlacementPlan result" where
  "schedule f event q s =
     (if event \<noteq> NewTask \<and> event \<noteq> AdmissionRejected \<and> event \<noteq> SessionMigrationRequested then Inl scheduler_input_error
      else bind_result (validate_request f q) (\<lambda>_.
        case schedule_candidates f s q of
          (evaluated, cs) \<Rightarrow>
            (case sort_by (candidate_order f) cs of
               [] \<Rightarrow> Inl no_placement_error
             | selected # others \<Rightarrow>
                 Inr \<lparr>pp_selected = selected, pp_fallbacks = take (ps_top_k s) others, pp_evaluated = evaluated,
                      pp_margin = f_sub f (f_sub f (rq_local_cost q) (pc_remote_cost selected)) (rq_safety_margin q)\<rparr>)))"

end
