(* ===== verification/Scheduler_Properties.thy ===== *)
theory Scheduler_Properties
  imports Placement_Scheduler "HOL-Library.Multiset"
begin

text \<open>
  The properties of the scheduler: the task queue is a bag from which a task of the highest
  priority is taken, a placement satisfies every hard constraint of its request and has the
  lowest cost of the candidates that were evaluated, and what the coarse ranking can cut off.
\<close>

section \<open>The task queue\<close>

lemma last_max_from_greatest:
  assumes "last_max_from best key i ks = j" and "best < i"
  shows "(j = best \<and> (\<forall>k \<in> set ks. k < key))
    \<or> (i \<le> j \<and> j < i + length ks \<and> key \<le> ks ! (j - i) \<and> (\<forall>k \<in> set ks. k \<le> ks ! (j - i)))"
  using assms
proof (induction ks arbitrary: best key i)
  case (Cons k ks)
  show ?case
  proof (cases "key \<le> k")
    case True
    from Cons.IH [of i k "i + 1"] Cons.prems True
    consider "j = i" "\<forall>x \<in> set ks. x < k"
      | "i + 1 \<le> j" "j < i + 1 + length ks" "k \<le> ks ! (j - (i + 1))" "\<forall>x \<in> set ks. x \<le> ks ! (j - (i + 1))"
      by auto
    then show ?thesis
    proof cases
      case 1
      then show ?thesis using True by (auto intro: less_imp_le)
    next
      case 2
      then have "(k # ks) ! (j - i) = ks ! (j - (i + 1))" by (simp add: nth_Cons')
      then show ?thesis using 2 True by auto
    qed
  next
    case False
    from Cons.IH [of best key "i + 1"] Cons.prems False
    consider "j = best" "\<forall>x \<in> set ks. x < key"
      | "i + 1 \<le> j" "j < i + 1 + length ks" "key \<le> ks ! (j - (i + 1))" "\<forall>x \<in> set ks. x \<le> ks ! (j - (i + 1))"
      by auto
    then show ?thesis
    proof cases
      case 1
      then show ?thesis using False by auto
    next
      case 2
      then have "(k # ks) ! (j - i) = ks ! (j - (i + 1))" by (simp add: nth_Cons')
      then show ?thesis using 2 False by auto
    qed
  qed
qed simp

lemma max_index_greatest:
  assumes "max_index ks = Some j"
  shows "j < length ks" and "k \<in> set ks \<Longrightarrow> k \<le> ks ! j"
proof -
  obtain x xs where ks: "ks = x # xs" using assms by (cases ks) auto
  then have "last_max_from 0 x 1 xs = j" using assms by simp
  from last_max_from_greatest [OF this]
  consider "j = 0" "\<forall>k \<in> set xs. k < x" | "1 \<le> j" "j < 1 + length xs" "x \<le> xs ! (j - 1)" "\<forall>k \<in> set xs. k \<le> xs ! (j - 1)"
    by auto
  then have "j < length ks \<and> (\<forall>k \<in> set ks. k \<le> ks ! j)"
    by cases (auto simp: ks nth_Cons' intro: less_imp_le)
  then show "j < length ks" and "k \<in> set ks \<Longrightarrow> k \<le> ks ! j" by auto
qed

lemma max_index_None [simp]: "max_index ks = None \<longleftrightarrow> ks = []"
  by (cases ks) auto

lemma mset_swap_remove: "i < length xs \<Longrightarrow> add_mset (xs ! i) (mset (swap_remove i xs)) = mset xs"
proof -
  assume i: "i < length xs"
  then have xs: "xs = butlast xs @ [last xs]" by (intro append_butlast_last_id [symmetric]) auto
  show ?thesis
  proof (cases "i < length xs - 1")
    case True
    then have "xs ! i = butlast xs ! i" by (simp add: nth_butlast)
    then have "mset ((butlast xs)[i := last xs]) = add_mset (last xs) (mset (butlast xs) - {#xs ! i#})"
      using True by (simp add: mset_update)
    moreover have "xs ! i \<in># mset (butlast xs)" using True \<open>xs ! i = _\<close> by simp
    moreover have "mset xs = add_mset (last xs) (mset (butlast xs))" using xs by (metis mset_append add_mset_add_single mset_single_iff_right mset.simps)
    ultimately show ?thesis using True by (simp add: swap_remove_def)
  next
    case False
    then have "xs ! i = last xs" using i by (metis One_nat_def Suc_pred last_conv_nth length_greater_0_conv less_antisym less_zeroE list.size(3))
    moreover have "mset xs = add_mset (last xs) (mset (butlast xs))" using xs by (metis mset_append add_mset_add_single mset_single_iff_right mset.simps)
    ultimately show ?thesis using False by (simp add: swap_remove_def)
  qed
qed

datatype 't queue_op = PushOp LexicographicPriority 't | PopOp

text \<open>The state with the multiset of what was accepted and of what was given out.\<close>

fun queue_step :: "'t queue_op \<Rightarrow> 't TaskPriorityQueue \<times> 't multiset \<times> 't multiset \<Rightarrow> 't TaskPriorityQueue \<times> 't multiset \<times> 't multiset" where
  "queue_step (PushOp p t) (q, accepted, popped) =
     (case task_push p t q of (Inr _, q') \<Rightarrow> (q', add_mset t accepted, popped) | (Inl _, q') \<Rightarrow> (q', accepted, popped))"
| "queue_step PopOp (q, accepted, popped) =
     (case task_pop q of (Some t, q') \<Rightarrow> (q', accepted, add_mset t popped) | (None, q') \<Rightarrow> (q', accepted, popped))"

lemma task_pop_cases:
  assumes "task_pop q = (r, q')"
  shows "tq_max_tasks q' = tq_max_tasks q" and "r = None \<longleftrightarrow> tq_tasks q = []" and "r = None \<Longrightarrow> q' = q"
    and "r = Some t \<Longrightarrow> \<exists>p. mset (tq_tasks q) = add_mset (p, t) (mset (tq_tasks q'))
           \<and> (\<forall>(p', t') \<in> set (tq_tasks q). scheduling_key p' \<le> scheduling_key p)"
proof -
  let ?ks = "map (scheduling_key \<circ> fst) (tq_tasks q)"
  show "tq_max_tasks q' = tq_max_tasks q" "r = None \<longleftrightarrow> tq_tasks q = []" "r = None \<Longrightarrow> q' = q"
    using assms by (auto simp: task_pop_def split: option.splits)
  assume r: "r = Some t"
  then obtain i where i: "max_index ?ks = Some i" "t = snd (tq_tasks q ! i)" "tq_tasks q' = swap_remove i (tq_tasks q)"
    using assms by (auto simp: task_pop_def split: option.splits)
  then have "i < length (tq_tasks q)" using max_index_greatest(1) by fastforce
  moreover have "\<forall>(p', t') \<in> set (tq_tasks q). scheduling_key p' \<le> scheduling_key (fst (tq_tasks q ! i))"
    using max_index_greatest(2) [OF i(1)] \<open>i < _\<close> by fastforce
  moreover have "(fst (tq_tasks q ! i), t) = tq_tasks q ! i" using i(2) by simp
  ultimately show "\<exists>p. mset (tq_tasks q) = add_mset (p, t) (mset (tq_tasks q'))
      \<and> (\<forall>(p', t') \<in> set (tq_tasks q). scheduling_key p' \<le> scheduling_key p)"
    using mset_swap_remove [of i "tq_tasks q"] i(3) by metis
qed

text \<open>
  Claim C21.  The task queue loses and repeats nothing and serves the highest priority: over
  any sequence of operations every accepted task is either still queued or was given out, each
  once, and the queue stays within its bound; a task is given out whenever there is one, and
  then no queued task has a greater scheduling key.
\<close>

theorem task_queue_serves_highest:
  assumes "task_queue_new bound = Inr q0" and "fold queue_step ops (q0, {#}, {#}) = (q, accepted, popped)"
  shows "accepted = popped + image_mset snd (mset (tq_tasks q)) \<and> length (tq_tasks q) \<le> bound
    \<and> (case task_pop q of
         (None, _) \<Rightarrow> tq_tasks q = []
       | (Some t, q') \<Rightarrow> \<exists>p. mset (tq_tasks q) = add_mset (p, t) (mset (tq_tasks q'))
             \<and> (\<forall>(p', t') \<in> set (tq_tasks q). scheduling_key p' \<le> scheduling_key p))"
proof -
  let ?ok = "\<lambda>(q, accepted, popped). accepted = popped + image_mset snd (mset (tq_tasks q))
    \<and> length (tq_tasks q) \<le> bound \<and> tq_max_tasks q = bound"
  have step: "?ok s \<Longrightarrow> ?ok (queue_step op s)" for op s
  proof (cases op)
    case PopOp
    assume ok: "?ok s"
    obtain q a p where s: "s = (q, a, p)" by (metis prod_cases3)
    obtain r q' where pop: "task_pop q = (r, q')" by fastforce
    show ?thesis
    proof (cases r)
      case None
      then show ?thesis using ok task_pop_cases(3) [OF pop] by (simp add: s PopOp pop)
    next
      case (Some t)
      then obtain p where "mset (tq_tasks q) = add_mset (p, t) (mset (tq_tasks q'))" using task_pop_cases(4) [OF pop] by blast
      moreover from this have "length (tq_tasks q) = Suc (length (tq_tasks q'))" by (metis size_add_mset size_mset)
      ultimately show ?thesis using ok Some task_pop_cases(1) [OF pop] by (simp add: s PopOp pop)
    qed
  qed (cases s, auto simp: task_push_def)
  have init: "?ok (q0, {#}, {#})" using assms(1) by (auto simp: task_queue_new_def split: if_splits)
  have run: "?ok (fold queue_step ops s)" if "?ok s" for s
    using that
  proof (induction ops arbitrary: s)
    case (Cons op ops)
    show ?case using Cons.IH [OF step [OF Cons.prems]] by simp
  qed simp
  have ok: "?ok (q, accepted, popped)" using run [OF init] unfolding assms(2) .
  obtain r q' where pop: "task_pop q = (r, q')" by fastforce
  show ?thesis
  proof (cases r)
    case None
    then show ?thesis using ok task_pop_cases(2) [OF pop] by (simp add: pop)
  next
    case (Some t)
    show ?thesis using ok task_pop_cases(4) [OF pop Some] by (simp add: pop Some)
  qed
qed

definition demo_priority :: "LatencyClass \<Rightarrow> LexicographicPriority" where
  "demo_priority c = \<lparr>px_safety_critical = False, px_recovery_critical = False, px_latency_class = c, px_deadline_risk = 0,
     px_dag_criticality = 0, px_unlock_value = 0, px_business_priority = 0, px_age_ticks = 0, px_fair_share_credit = 0,
     px_origin = Remote\<rparr>"

lemma task_queue_serves_highest_witness:
  "\<exists>q. fold queue_step [PushOp (demo_priority Batch) ''a'', PushOp (demo_priority HardRealtime) ''b'', PopOp]
       (\<lparr>tq_max_tasks = 2, tq_tasks = []\<rparr>, {#}, {#}) = (q, {#''a'', ''b''#}, {#''b''#})
     \<and> {#''a'', ''b''#} = {#''b''#} + image_mset snd (mset (tq_tasks q))"
proof -
  let ?ops = "[PushOp (demo_priority Batch) ''a'', PushOp (demo_priority HardRealtime) ''b'', PopOp]"
  have new: "task_queue_new 2 = Inr \<lparr>tq_max_tasks = 2, tq_tasks = []\<rparr>" by (simp add: task_queue_new_def)
  have "fold queue_step ?ops (\<lparr>tq_max_tasks = 2, tq_tasks = []\<rparr>, {#}, {#})
      = (\<lparr>tq_max_tasks = 2, tq_tasks = [(demo_priority Batch, ''a'')]\<rparr>, {#''b'', ''a''#}, {#''b''#})"
    by (simp add: task_push_def task_pop_def scheduling_key_def demo_priority_def swap_remove_def)
  from task_queue_serves_highest [OF new this] this show ?thesis by (simp add: add_mset_commute)
qed

section \<open>Candidates\<close>

lemma set_sort_by: "set (sort_by c xs) = set xs"
proof -
  have "set (insert_by c x ys) = insert x (set ys)" for x ys by (induction ys) auto
  then show ?thesis unfolding sort_by_def by (induction xs) auto
qed

lemma length_sort_by: "length (sort_by c xs) = length xs"
proof -
  have "length (insert_by c x ys) = Suc (length ys)" for x ys by (induction ys) auto
  then show ?thesis unfolding sort_by_def by (induction xs) auto
qed

text \<open>For an order that is total on the elements, sorting gives an ascending list.\<close>

definition ascending :: "('a \<Rightarrow> 'a \<Rightarrow> ordering) \<Rightarrow> 'a list \<Rightarrow> bool" where
  "ascending c xs \<longleftrightarrow> sorted_wrt (\<lambda>x y. c x y \<noteq> OGreater) xs"

definition total_on_list :: "('a \<Rightarrow> 'a \<Rightarrow> ordering) \<Rightarrow> 'a set \<Rightarrow> bool" where
  "total_on_list c S \<longleftrightarrow> (\<forall>x \<in> S. \<forall>y \<in> S. c x y = OGreater \<longrightarrow> c y x \<noteq> OGreater)
     \<and> (\<forall>x \<in> S. \<forall>y \<in> S. \<forall>z \<in> S. c x y \<noteq> OGreater \<longrightarrow> c y z \<noteq> OGreater \<longrightarrow> c x z \<noteq> OGreater)"

lemma total_on_listD:
  assumes "total_on_list c S"
  shows "x \<in> S \<Longrightarrow> y \<in> S \<Longrightarrow> c x y = OGreater \<Longrightarrow> c y x \<noteq> OGreater"
    and "x \<in> S \<Longrightarrow> y \<in> S \<Longrightarrow> z \<in> S \<Longrightarrow> c x y \<noteq> OGreater \<Longrightarrow> c y z \<noteq> OGreater \<Longrightarrow> c x z \<noteq> OGreater"
  using assms unfolding total_on_list_def by blast+

lemma total_on_list_subset: "total_on_list c S \<Longrightarrow> T \<subseteq> S \<Longrightarrow> total_on_list c T"
  unfolding total_on_list_def by blast

lemma insert_by_ascending:
  assumes "total_on_list c (insert x (set ys))" and "ascending c ys"
  shows "ascending c (insert_by c x ys)"
  using assms
proof (induction ys)
  case (Cons y ys)
  have set_ins: "set (insert_by c x zs) = insert x (set zs)" for zs by (induction zs) auto
  have sub: "total_on_list c (insert x (set ys))" by (rule total_on_list_subset [OF Cons.prems(1)]) auto
  have ys: "ascending c ys" "z \<in> set ys \<Longrightarrow> c y z \<noteq> OGreater" for z using Cons.prems(2) by (simp_all add: ascending_def)
  show ?case
  proof (cases "c x y = OGreater")
    case True
    have "c y x \<noteq> OGreater" by (rule total_on_listD(1) [OF Cons.prems(1) _ _ True]) simp_all
    then have "\<forall>z \<in> insert x (set ys). c y z \<noteq> OGreater" using ys(2) by blast
    then show ?thesis using True Cons.IH [OF sub ys(1)] unfolding ascending_def by (simp add: set_ins)
  next
    case False
    have "c x z \<noteq> OGreater" if "z \<in> set ys" for z
      by (rule total_on_listD(2) [OF Cons.prems(1) _ _ _ False ys(2) [OF that]]) (use that in simp_all)
    then show ?thesis using False Cons.prems(2) by (simp add: ascending_def)
  qed
qed (simp add: ascending_def)

lemma sort_by_Cons: "sort_by c (x # xs) = insert_by c x (sort_by c xs)"
  by (simp add: sort_by_def)

lemma sort_by_ascending: "total_on_list c (set xs) \<Longrightarrow> ascending c (sort_by c xs)"
proof (induction xs)
  case (Cons x xs)
  have "total_on_list c (set xs)" by (rule total_on_list_subset [OF Cons.prems]) auto
  then have "ascending c (sort_by c xs)" by (rule Cons.IH)
  then show ?case unfolding sort_by_Cons by (intro insert_by_ascending) (use Cons.prems in \<open>simp_all add: set_sort_by\<close>)
qed (simp add: sort_by_def ascending_def)

lemma ieee_orderD:
  assumes "ieee_order f"
  shows "f_lt f x y \<longleftrightarrow> f_le f x y \<and> \<not> f_le f y x"
    and "\<not> f_nan f x \<Longrightarrow> \<not> f_nan f y \<Longrightarrow> f_le f x y \<or> f_le f y x"
    and "f_le f x y \<Longrightarrow> f_le f y z \<Longrightarrow> f_le f x z"
  using assms unfolding ieee_order_def by blast+

lemma candidate_order_le:
  assumes "ieee_order f" and "\<not> f_nan f (pc_risk_cost x)" "\<not> f_nan f (pc_risk_cost y)"
  shows "candidate_order f x y \<noteq> OGreater \<longleftrightarrow>
      f_le f (pc_risk_cost x) (pc_risk_cost y) \<and> (f_le f (pc_risk_cost y) (pc_risk_cost x) \<longrightarrow> pc_node_id x \<le> pc_node_id y)"
  using ieee_orderD(2) [OF assms]
  unfolding candidate_order_def float_order_def ieee_orderD(1) [OF assms(1)]
  by (cases "f_le f (pc_risk_cost x) (pc_risk_cost y)"; cases "f_le f (pc_risk_cost y) (pc_risk_cost x)") (auto simp: not_less)

lemma candidate_order_total:
  assumes "ieee_order f" and "\<forall>c \<in> S. \<not> f_nan f (pc_risk_cost c)"
  shows "total_on_list (candidate_order f) S"
  unfolding total_on_list_def
proof (intro conjI ballI impI)
  fix x y assume "x \<in> S" "y \<in> S" "candidate_order f x y = OGreater"
  moreover from this have nan: "\<not> f_nan f (pc_risk_cost x)" "\<not> f_nan f (pc_risk_cost y)" using assms(2) by simp_all
  ultimately show "candidate_order f y x \<noteq> OGreater"
    using candidate_order_le [OF assms(1) nan] candidate_order_le [OF assms(1) nan(2,1)] ieee_orderD(2) [OF assms(1) nan]
      linear [of "pc_node_id x" "pc_node_id y"] by blast
next
  fix x y z assume xyz: "x \<in> S" "y \<in> S" "z \<in> S" "candidate_order f x y \<noteq> OGreater" "candidate_order f y z \<noteq> OGreater"
  then have nan: "\<not> f_nan f (pc_risk_cost x)" "\<not> f_nan f (pc_risk_cost y)" "\<not> f_nan f (pc_risk_cost z)" using assms(2) by simp_all
  note le = ieee_orderD(3) [OF assms(1)]
  show "candidate_order f x z \<noteq> OGreater"
    using xyz(4,5) le [of "pc_risk_cost x" "pc_risk_cost y" "pc_risk_cost z"] le [of "pc_risk_cost z" "pc_risk_cost x" "pc_risk_cost y"]
      le [of "pc_risk_cost y" "pc_risk_cost z" "pc_risk_cost x"] order_trans [of "pc_node_id x" "pc_node_id y" "pc_node_id z"]
    unfolding candidate_order_le [OF assms(1) nan(1,2)] candidate_order_le [OF assms(1) nan(2,3)] candidate_order_le [OF assms(1) nan(1,3)]
    by blast
qed

section \<open>Placements\<close>

text \<open>
  What the performance model, or the variant itself when there is no prediction, promises of a run
  of a variant: its latency at three quantiles, and its failure probability, of which the larger
  one counts.
\<close>

definition prediction_of ::
  "('f, 'z) f64_arith_scheme \<Rightarrow> 'f PlacementScheduler \<Rightarrow> 'f TaskPlacementRequest \<Rightarrow> 'f ExecutionVariant \<Rightarrow> 'f PerformancePrediction option" where
  "prediction_of f s q v = model_predict f (rq_task_type q) (ev_variant_id v) (rq_input_bucket q) (ps_performance s)"

definition expected_p50 where
  "expected_p50 f s q v = (case prediction_of f s q v of Some p \<Rightarrow> pr_p50 p | None \<Rightarrow> ec_execution (ev_base_cost v))"

definition expected_p95 where
  "expected_p95 f s q v = (case prediction_of f s q v of
     Some p \<Rightarrow> pr_p95 p | None \<Rightarrow> f_add f (ec_execution (ev_base_cost v)) (ec_jitter (ev_base_cost v)))"

definition expected_p99 where
  "expected_p99 f s q v = (case prediction_of f s q v of
     Some p \<Rightarrow> pr_p99 p
   | None \<Rightarrow> f_add f (ec_execution (ev_base_cost v)) (f_mul f (ec_jitter (ev_base_cost v)) (f_lit f 2 0)))"

definition expected_failure where
  "expected_failure f s q v = f_max f
     (case prediction_of f s q v of Some p \<Rightarrow> pr_failure_probability p | None \<Rightarrow> ev_failure_probability v)
     (ev_failure_probability v)"

text \<open>
  The cost of a run on a node, end to end: queue, round trip, the transfers when the node is
  another one, prewarming, execution, commit, jitter, the recovery weighted with the failure
  probability, and what the session and the task graph cost there.
\<close>

definition expected_cost ::
  "('f, 'z) f64_arith_scheme \<Rightarrow> 'f PlacementScheduler \<Rightarrow> 'f TaskPlacementRequest \<Rightarrow> 'f SchedulingNodeSnapshot \<Rightarrow> 'f ExecutionVariant \<Rightarrow> 'f" where
  "expected_cost f s q node v =
     (let c = ev_base_cost v in
      foldl (f_add f) (ec_queue c)
        [ec_rtt c,
         if sn_node_id node = rq_local_node q then f_zero f else f_add f (ec_input_transfer c) (ec_output_transfer c),
         ec_prewarm c, expected_p50 f s q v, ec_commit c, ec_jitter c,
         f_mul f (expected_failure f s q v) (ec_recovery c), session_cost f q node v, dag_cost f q])"

text \<open>
  What a candidate promises about the node and the variant it names: the node is known and passes
  the hard constraints with the variant, the latencies and the cost of the candidate are the
  expected ones, these and the expected failure probability are within the service level, the
  local binding is kept, and the expected cost is profitable.
\<close>

definition placeable :: "('f, 'z) f64_arith_scheme \<Rightarrow> 'f PlacementScheduler \<Rightarrow> 'f TaskPlacementRequest \<Rightarrow> 'f PlacementCandidate \<Rightarrow> bool" where
  "placeable f s q c \<longleftrightarrow> (\<exists>node v.
     index_get (ps_index s) (pc_node_id c) = Some node \<and> v \<in> set (sn_variants node) \<and> pc_variant_id c = ev_variant_id v
     \<and> pc_capability_version c = sn_capability_version node \<and> pc_resource_version c = sn_resource_version node
     \<and> hard_node_filter node q \<and> hard_variant_filter f node v q
     \<and> pc_p50 c = expected_p50 f s q v \<and> pc_p95 c = expected_p95 f s q v \<and> pc_p99 c = expected_p99 f s q v
     \<and> pc_remote_cost c = expected_cost f s q node v
     \<and> satisfies_slo f q v (expected_p95 f s q v) (expected_p99 f s q v) (expected_failure f s q v)
     \<and> (default_local f q \<longrightarrow> pc_node_id c = rq_local_node q)
     \<and> is_remote_profitable f (rq_local_cost q) (expected_cost f s q node v) (rq_safety_margin q) (default_local f q)
         (pc_node_id c = rq_local_node q))"

lemmas expected_defs = prediction_of_def expected_p50_def expected_p95_def expected_p99_def expected_failure_def
  expected_cost_def map_or_def

lemma evaluate_variant_sound:
  assumes "evaluate_variant f s q node v = Some c"
  shows "pc_node_id c = sn_node_id node" "pc_variant_id c = ev_variant_id v"
    "pc_capability_version c = sn_capability_version node" "pc_resource_version c = sn_resource_version node"
    "hard_variant_filter f node v q"
    "pc_p50 c = expected_p50 f s q v" "pc_p95 c = expected_p95 f s q v" "pc_p99 c = expected_p99 f s q v"
    "pc_remote_cost c = expected_cost f s q node v"
    "satisfies_slo f q v (expected_p95 f s q v) (expected_p99 f s q v) (expected_failure f s q v)"
    "default_local f q \<Longrightarrow> sn_node_id node = rq_local_node q"
    "is_remote_profitable f (rq_local_cost q) (expected_cost f s q node v) (rq_safety_margin q) (default_local f q)
       (sn_node_id node = rq_local_node q)"
  using assms unfolding evaluate_variant_def Let_def expected_defs
  by (auto split: if_split_asm cong: if_cong)

lemma eval_variants_sound:
  assumes "eval_variants f s q node vs (n, cs) = (n', cs')"
    and "n \<le> ps_max_operations s" and "\<forall>c \<in> set cs. P c"
    and "\<And>v c. v \<in> set vs \<Longrightarrow> evaluate_variant f s q node v = Some c \<Longrightarrow> P c"
  shows "n' \<le> ps_max_operations s \<and> (\<forall>c \<in> set cs'. P c)"
  using assms
proof (induction vs arbitrary: n cs)
  case (Cons v vs)
  show ?case
  proof (cases "n \<ge> ps_max_operations s")
    case False
    let ?cs = "case evaluate_variant f s q node v of None \<Rightarrow> cs | Some c \<Rightarrow> cs @ [c]"
    have run: "eval_variants f s q node vs (n + 1, ?cs) = (n', cs')" using Cons.prems(1) False by simp
    have "\<forall>c \<in> set ?cs. P c" using Cons.prems(3,4) by (auto split: option.split)
    with False show ?thesis by (intro Cons.IH [OF run]) (use Cons.prems(4) in auto)
  qed (use Cons.prems in simp)
qed simp

lemma coarse_nodes_sound:
  assumes "entry \<in> set (coarse_nodes f s q)"
  shows "\<exists>node. index_get (ps_index s) (snd entry) = Some node \<and> hard_node_filter node q"
proof -
  have "entry \<in> set (List.map_filter (coarse_entry f s q)
      (sorted_list_of_fset (candidate_ids_for (ps_index s) (rq_required_capabilities q) (rq_required_plugin q))))"
    using assms in_set_takeD unfolding coarse_nodes_def by (metis set_sort_by)
  then obtain n where "coarse_entry f s q n = Some entry" by (auto simp: List.map_filter_def)
  then show ?thesis by (auto simp: coarse_entry_def Let_def split: option.splits if_splits)
qed

lemma eval_nodes_sound:
  assumes ok: "index_ok (ps_index s)" and "\<forall>e \<in> set entries. e \<in> set (coarse_nodes f s q)"
    and "n \<le> ps_max_operations s" and "\<forall>c \<in> set cs. placeable f s q c \<and> pc_node_id c \<in> N" and "snd ` set entries \<subseteq> N"
    and "foldl (eval_node f s q) (n, cs) entries = (n', cs')"
  shows "n' \<le> ps_max_operations s \<and> (\<forall>c \<in> set cs'. placeable f s q c \<and> pc_node_id c \<in> N)"
  using assms(2-)
proof (induction entries arbitrary: n cs)
  case (Cons e entries)
  obtain node where node: "index_get (ps_index s) (snd e) = Some node" "hard_node_filter node q"
    using coarse_nodes_sound [of e f s q] Cons.prems(1) by auto
  then have id: "sn_node_id node = snd e" using ok unfolding index_ok_def index_get_def by blast
  obtain m ds where step: "eval_variants f s q node (sn_variants node) (n, cs) = (m, ds)" by fastforce
  have "P c" if "v \<in> set (sn_variants node)" "evaluate_variant f s q node v = Some c"
    and P: "P = (\<lambda>c. placeable f s q c \<and> pc_node_id c \<in> N)" for v c P
  proof -
    note ev = evaluate_variant_sound [OF that(2)]
    have "index_get (ps_index s) (pc_node_id c) = Some node" using node ev(1) id by simp
    moreover have "pc_node_id c \<in> N" using ev(1) id Cons.prems(4) by simp
    ultimately show ?thesis unfolding P placeable_def
      by (intro conjI exI [of _ node] exI [of _ v]) (simp_all add: that(1) node(2) ev)
  qed
  then have "m \<le> ps_max_operations s \<and> (\<forall>c \<in> set ds. placeable f s q c \<and> pc_node_id c \<in> N)"
    using eval_variants_sound [OF step Cons.prems(2), of "\<lambda>c. placeable f s q c \<and> pc_node_id c \<in> N"] Cons.prems(3) by blast
  moreover have "foldl (eval_node f s q) (m, ds) entries = (n', cs')" using Cons.prems(5) node step
    by (simp add: eval_node_def [of f s q _ e])
  ultimately show ?case using Cons.IH [of m ds] Cons.prems(1,4) by simp
qed simp

lemma schedule_candidates_sound:
  assumes "index_ok (ps_index s)" and "schedule_candidates f s q = (n, cs)"
  shows "n \<le> ps_max_operations s" and "c \<in> set cs \<Longrightarrow> placeable f s q c"
    and "c \<in> set cs \<Longrightarrow> pc_node_id c \<in> snd ` set (coarse_nodes f s q)"
  using eval_nodes_sound [OF assms(1), of "coarse_nodes f s q" f q 0 "[]" "snd ` set (coarse_nodes f s q)" n cs] assms(2)
  unfolding schedule_candidates_def by auto

lemma schedule_Inr:
  assumes "schedule f event q s = Inr plan"
  obtains n cs others where "schedule_candidates f s q = (n, cs)" and "sort_by (candidate_order f) cs = pp_selected plan # others"
    and "pp_fallbacks plan = take (ps_top_k s) others" and "pp_evaluated plan = n"
  using assms by (auto simp: schedule_def bind_result_Inr split: if_splits prod.splits list.splits)

text \<open>
  Claim C15.  A placement is sound: every node and variant of a plan, the selected one and
  the fallbacks, passes every hard constraint of the request on health, identity, integrity,
  trust, platform, memory and capabilities.  Its latencies and its cost are the ones expected of
  the variant on that node, by the performance model where it has a prediction; they and the
  expected failure probability, the larger one of the predicted and the declared one, satisfy the
  service level.  It runs on the local node when the request is bound to it, and is local or
  cheaper than running locally by the safety margin; the plan has at most \<open>top_k\<close> fallbacks and
  took at most the allowed operations.
\<close>

theorem placement_sound:
  assumes "schedule f event q s = Inr plan" and "ps_index s = fold (index_step f) ops index_new"
  shows "(\<forall>c \<in> insert (pp_selected plan) (set (pp_fallbacks plan)). placeable f s q c)
    \<and> length (pp_fallbacks plan) \<le> ps_top_k s \<and> pp_evaluated plan \<le> ps_max_operations s"
proof -
  have ok: "index_ok (ps_index s)" using index_run_ok [of f ops] assms(2) by simp
  obtain n cs others where p: "schedule_candidates f s q = (n, cs)" "sort_by (candidate_order f) cs = pp_selected plan # others"
    "pp_fallbacks plan = take (ps_top_k s) others" "pp_evaluated plan = n" using schedule_Inr [OF assms(1)] .
  have "insert (pp_selected plan) (set others) = set cs" using set_sort_by [of "candidate_order f" cs] p(2) by simp
  then have "insert (pp_selected plan) (set (pp_fallbacks plan)) \<subseteq> set cs" using p(3) set_take_subset by fastforce
  then show ?thesis using schedule_candidates_sound [OF ok p(1)] p(3,4) by auto
qed

text \<open>
  A placement is the cheapest one evaluated: when the costs of the candidates are
  numbers, no candidate that passed all filters has a lower risk-adjusted cost than the selected
  one, and the fallbacks follow in ascending cost.
\<close>

theorem placement_cheapest:
  assumes "schedule f event q s = Inr plan" and "ieee_order f"
    and "\<forall>c \<in> set (snd (schedule_candidates f s q)). \<not> f_nan f (pc_risk_cost c)"
  shows "pp_selected plan \<in> set (snd (schedule_candidates f s q))
    \<and> (\<forall>c \<in> set (snd (schedule_candidates f s q)). f_le f (pc_risk_cost (pp_selected plan)) (pc_risk_cost c))
    \<and> sorted_wrt (\<lambda>c d. f_le f (pc_risk_cost c) (pc_risk_cost d)) (pp_selected plan # pp_fallbacks plan)"
proof -
  obtain n cs others where p: "schedule_candidates f s q = (n, cs)" "sort_by (candidate_order f) cs = pp_selected plan # others"
    "pp_fallbacks plan = take (ps_top_k s) others" using schedule_Inr [OF assms(1)] .
  have nan: "\<forall>c \<in> set cs. \<not> f_nan f (pc_risk_cost c)" using assms(3) p(1) by simp
  have cs: "set cs = set (pp_selected plan # others)" using set_sort_by [of "candidate_order f" cs] p(2) by simp
  have "ascending (candidate_order f) (pp_selected plan # others)"
    using sort_by_ascending [OF candidate_order_total [OF assms(2) nan]] p(2) by simp
  then have sorted: "sorted_wrt (\<lambda>c d. f_le f (pc_risk_cost c) (pc_risk_cost d)) (pp_selected plan # others)"
    unfolding ascending_def by (rule sorted_wrt_mono_rel [rotated]) (use candidate_order_le [OF assms(2)] nan cs in blast)
  have self: "f_le f (pc_risk_cost (pp_selected plan)) (pc_risk_cost (pp_selected plan))"
    using nan cs by (auto simp: f_nan_def)
  have "sorted_wrt (\<lambda>c d. f_le f (pc_risk_cost c) (pc_risk_cost d)) (take (Suc (ps_top_k s)) (pp_selected plan # others))"
    by (rule sorted_wrt_take [OF sorted])
  then show ?thesis using self sorted cs p(1,3) by auto
qed

text \<open>
  A request that is bound to the local node can fail although that node could
  take it: the coarse ranking by pressure keeps \<open>top_k\<close> nodes before the binding is looked at,
  and when the local node is not among them no placement is found.
\<close>

theorem bound_request_cut_off:
  assumes "default_local f q" and "rq_local_node q \<notin> snd ` set (coarse_nodes f s q)"
    and "ps_index s = fold (index_step f) ops index_new"
  shows "\<exists>e. schedule f event q s = Inl e"
proof (cases "schedule f event q s")
  case (Inr plan)
  have ok: "index_ok (ps_index s)" using index_run_ok [of f ops] assms(3) by simp
  obtain n cs others where p: "schedule_candidates f s q = (n, cs)" "sort_by (candidate_order f) cs = pp_selected plan # others"
    using schedule_Inr [OF Inr] .
  then have "pp_selected plan \<in> set cs" using set_sort_by [of "candidate_order f" cs] by (metis list.set_intros(1))
  then have "placeable f s q (pp_selected plan)" "pc_node_id (pp_selected plan) \<in> snd ` set (coarse_nodes f s q)"
    using schedule_candidates_sound(2,3) [OF ok p(1)] by blast+
  moreover from this(1) have "pc_node_id (pp_selected plan) = rq_local_node q" using assms(1) unfolding placeable_def by blast
  ultimately show ?thesis using assms(2) by metis
qed simp

section \<open>A concrete placement\<close>

text \<open>Two nodes with one variant each; the remote one has the lower pressure.\<close>

definition demo_cost :: "int EndToEndCost" where
  "demo_cost = \<lparr>ec_queue = 0, ec_rtt = 0, ec_input_transfer = 0, ec_prewarm = 0, ec_execution = 4, ec_output_transfer = 0,
     ec_commit = 0, ec_jitter = 0, ec_recovery = 0, ec_energy = 0, ec_ttft = None, ec_steady_latency = None\<rparr>"

definition demo_variant :: "int ExecutionVariant" where
  "demo_variant = \<lparr>ev_variant_id = ''v'', ev_required_capabilities = 0, ev_runner_id = ''r'', ev_runner_generation = 1,
     ev_plugin_id = ''p'', ev_plugin_generation = 1, ev_quality = 1, ev_peak_memory = 0, ev_peak_vram = 0,
     ev_failure_probability = 0, ev_base_cost = demo_cost\<rparr>"

definition demo_node :: "NodeId \<Rightarrow> u8 \<Rightarrow> int SchedulingNodeSnapshot" where
  "demo_node n pressure = \<lparr>sn_node_id = n, sn_capability_version = 1, sn_resource_version = 1, sn_capabilities = 0, sn_os = [],
     sn_abi = [], sn_trust_level = 0, sn_identity_status = StatusActive, sn_integrity_verified = True,
     sn_health = MemberHealth.Healthy, sn_pressure_bucket = pressure, sn_cpu_units = 0, sn_memory = 0, sn_vram = 0,
     sn_localized = {||}, sn_variants = [demo_variant]\<rparr>"

definition demo_slo :: "int PlacementSlo" where
  "demo_slo = \<lparr>slo_deadline = 9, slo_max_p95 = 9, slo_max_p99 = 9, slo_max_jitter = 9, slo_max_failure = 0,
     slo_minimum_quality = 0, slo_streaming = False, slo_max_ttft = None, slo_max_steady = None\<rparr>"

definition demo_request :: "u8 \<Rightarrow> int TaskPlacementRequest" where
  "demo_request flags = \<lparr>rq_task_id = ''t'', rq_task_type = ''k'', rq_input_bucket = 0, rq_local_node = ''l'',
     rq_priority = demo_priority Batch, rq_required_capabilities = 0, rq_required_os = None, rq_required_abi = None,
     rq_minimum_trust = 0, rq_required_memory = 0, rq_required_vram = 0, rq_required_plugin = None, rq_required_content = {||},
     rq_flags = flags, rq_input_bytes = 0, rq_output_bytes = 0, rq_local_cost = 20, rq_safety_margin = 1, rq_small_task = 0,
     rq_quality_policy = Exact, rq_session_node = None, rq_migration_cost = 0, rq_dag_cross_node_cost = 0,
     rq_dag_parallel_benefit = 0, rq_slo = demo_slo\<rparr>"

abbreviation demo_index_ops :: "int index_op list" where
  "demo_index_ops \<equiv> [UpsertOp (demo_node ''l'' 50), UpsertOp (demo_node ''o'' 10)]"

definition demo_index :: "int CapabilityIndex" where
  "demo_index = fold (index_step int_arith) demo_index_ops index_new"

definition demo_scheduler :: "nat \<Rightarrow> int PlacementScheduler" where
  "demo_scheduler k = \<lparr>ps_index = demo_index,
     ps_performance = \<lparr>pm_profiles = fmempty, pm_max_profiles = 1, pm_minimum_samples = 1\<rparr>, ps_top_k = k, ps_max_operations = 5\<rparr>"

lemma set_bits_0 [simp]: "set_bits 0 = []"
  by (simp add: set_bits_def set_bits_loop.simps)

lemma demo_index_nodes:
  "ix_nodes demo_index = fmupd ''o'' (demo_node ''o'' 10) (fmupd ''l'' (demo_node ''l'' 50) fmempty)"
  unfolding demo_index_def index_run_ok [THEN conjunct2]
  by (simp add: snapshot_valid_def variant_valid_def snapshot_stale_def demo_node_def demo_variant_def int_arith_def)

lemma demo_filter: "hard_node_filter (demo_node n p) (demo_request flags) \<longleftrightarrow> (flags_contain flags flag_local_only \<longrightarrow> n = ''l'')"
  by (simp add: hard_node_filter_def demo_node_def demo_request_def flags_contain_def)

lemma demo_selectors:
  "sn_pressure_bucket (demo_node n p) = p" "sn_variants (demo_node n p) = [demo_variant]"
  "rq_required_content (demo_request flags) = {||}" "rq_required_capabilities (demo_request flags) = 0"
  "rq_required_plugin (demo_request flags) = None" "rq_local_node (demo_request flags) = ''l''"
  by (simp_all add: demo_node_def demo_request_def)

lemma demo_candidates:
  "candidate_ids_for (ps_index (demo_scheduler k)) 0 None = {|''l'', ''o''|}"
  using demo_index_nodes by (simp add: candidate_ids_for_def candidate_ids_def demo_scheduler_def finsert_commute)

lemma demo_coarse:
  assumes "\<not> flags_contain flags flag_local_only"
  shows "coarse_nodes int_arith (demo_scheduler k) (demo_request flags) = take (min k 5) [(10, ''o''), (50, ''l'')]"
proof -
  let ?q = "demo_request flags"
  have none: "ffilter P {||} = {||}" for P :: "string \<Rightarrow> bool" by auto
  have "sorted_list_of_fset {|''l'', ''o'' :: string|} = [''l'', ''o'']"
    by (simp add: sorted_list_of_fset.rep_eq)
  moreover have "coarse_entry int_arith (demo_scheduler k) ?q ''l'' = Some (50, ''l'')"
    "coarse_entry int_arith (demo_scheduler k) ?q ''o'' = Some (10, ''o'')"
    using assms by (simp_all add: coarse_entry_def index_get_def demo_scheduler_def demo_index_nodes demo_filter Let_def
        demo_selectors int_arith_def fcard_fempty none)
  ultimately show ?thesis
    using demo_candidates [of k]
    by (simp add: coarse_nodes_def demo_selectors List.map_filter_def sort_by_def float_order_def int_arith_def demo_scheduler_def)
qed

definition demo_placement :: "NodeId \<Rightarrow> int PlacementCandidate" where
  "demo_placement n = \<lparr>pc_node_id = n, pc_variant_id = ''v'', pc_capability_version = 1, pc_resource_version = 1,
     pc_p50 = 4, pc_p95 = 4, pc_p99 = 4, pc_risk_cost = 14, pc_remote_cost = 4\<rparr>"

lemma demo_evaluate:
  "evaluate_variant int_arith (demo_scheduler k) (demo_request flags) (demo_node n p) demo_variant =
     (if default_local int_arith (demo_request flags) \<and> n \<noteq> ''l'' then None else Some (demo_placement n))"
  by (auto simp: evaluate_variant_def hard_variant_filter_def demo_node_def demo_variant_def demo_request_def demo_scheduler_def
      model_predict_def map_or_def satisfies_slo_def demo_slo_def demo_cost_def cost_total_def int_arith_def session_cost_def
      dag_cost_def is_remote_profitable_def scarcity_penalty_def stability_bias_def demo_placement_def demo_priority_def
      flags_contain_def Let_def)

lemma demo_schedule_candidates:
  "schedule_candidates int_arith (demo_scheduler 2) (demo_request 0) = (2, [demo_placement ''o'', demo_placement ''l''])"
proof -
  have "\<not> flags_contain 0 flag_local_only" "\<not> default_local int_arith (demo_request 0)"
    by (simp_all add: flags_contain_def flag_local_only_def default_local_def flag_frame_bound_def flag_local_device_bound_def
        demo_request_def demo_priority_def int_arith_def)
  then show ?thesis
    by (simp add: schedule_candidates_def demo_coarse eval_node_def index_get_def demo_scheduler_def [THEN arg_cong [where f = ps_index]]
        demo_index_nodes demo_selectors demo_evaluate
        demo_scheduler_def [THEN arg_cong [where f = ps_max_operations]])
qed

lemma demo_schedule:
  "schedule int_arith NewTask (demo_request 0) (demo_scheduler 2) =
     Inr \<lparr>pp_selected = demo_placement ''l'', pp_fallbacks = [demo_placement ''o''], pp_evaluated = 2, pp_margin = 15\<rparr>"
  unfolding schedule_def demo_schedule_candidates
  by (simp add: validate_request_def demo_request_def demo_slo_def int_arith_def sort_by_def candidate_order_def
      float_order_def demo_placement_def demo_scheduler_def)

lemma placement_sound_witness:
  "placeable int_arith (demo_scheduler 2) (demo_request 0) (demo_placement ''l'')
   \<and> placeable int_arith (demo_scheduler 2) (demo_request 0) (demo_placement ''o'')"
  using placement_sound [OF demo_schedule, of demo_index_ops] by (simp add: demo_scheduler_def demo_index_def)

lemma placement_cheapest_witness:
  "demo_placement ''l'' \<in> set (snd (schedule_candidates int_arith (demo_scheduler 2) (demo_request 0)))
   \<and> sorted_wrt (\<lambda>c d. f_le int_arith (pc_risk_cost c) (pc_risk_cost d)) [demo_placement ''l'', demo_placement ''o'']"
  using placement_cheapest [OF demo_schedule int_arith_order] by (simp add: f_nan_def int_arith_def)

text \<open>The local node passes the node filter, and one more coarse candidate would have found it.\<close>

lemma bound_request_cut_off_witness:
  "hard_node_filter (demo_node ''l'' 50) (demo_request 2) \<and> index_get (ps_index (demo_scheduler 1)) ''l'' = Some (demo_node ''l'' 50)
   \<and> (\<exists>e. schedule int_arith NewTask (demo_request 2) (demo_scheduler 1) = Inl e)"
proof -
  have flags: "\<not> flags_contain 2 flag_local_only" "default_local int_arith (demo_request 2)"
    by (simp_all add: flags_contain_def flag_local_only_def default_local_def flag_frame_bound_def demo_request_def)
  then have "\<exists>e. schedule int_arith NewTask (demo_request 2) (demo_scheduler 1) = Inl e"
    using bound_request_cut_off [of int_arith "demo_request 2" "demo_scheduler 1" demo_index_ops NewTask]
    by (simp add: demo_coarse) (simp add: demo_request_def demo_scheduler_def demo_index_def)
  with flags show ?thesis by (simp add: demo_filter index_get_def demo_scheduler_def demo_index_nodes)
qed

end
