(* ===== verification/Cluster_Contracts.thy ===== *)
theory Cluster_Contracts
  imports Contracts
begin

text \<open>
  The cluster descriptors of \<open>mutsuki-distributed-contracts/src/lib.rs\<close>: workers and their
  pulses, placements and attempts, the messages of a worker and of the controller, and the
  bounded encoding of control frames.  Portable tasks, requirement sets, capability sets and
  task handles belong to the runtime contracts crate, which the repository does not contain:
  they are type parameters, and what the sources read of them are the fields of
  \<open>runtime_api\<close>.
\<close>

section \<open>The runtime contracts crate\<close>

text \<open>
  The variants that the repository names, and the descriptors of a portability catalogue with
  the fields it reads.
\<close>

datatype ExecutionMobility = LocalOnly | Portable | Restartable | Checkpointable

datatype RetrySafety = Unsafe | Verifiable | Idempotent | Compensatable

record 's TaskDescriptor =
  td_protocol_id :: string
  td_task_schema :: 's
  td_mobility :: ExecutionMobility

record 's ResourceDescriptor =
  rd_resource_kind :: string
  rd_schema :: 's

record 's PortabilityCatalog =
  pf_tasks :: "'s TaskDescriptor list"
  pf_resources :: "'s ResourceDescriptor list"

text \<open>
  What is called on a portable task: \<open>has_supported_envelope\<close>, \<open>validate_envelope\<close>, its
  fields, and \<open>into_local_task\<close> followed by the assignment of the task id; and
  \<open>is_satisfied_by\<close> of a requirement set.
\<close>

record ('p, 'r, 'c, 's, 't) runtime_api =
  has_supported_envelope :: "'p \<Rightarrow> bool"
  valid_envelope :: "'p \<Rightarrow> bool"
  mobility :: "'p \<Rightarrow> ExecutionMobility"
  retry_safety :: "'p \<Rightarrow> RetrySafety"
  task_schema :: "'p \<Rightarrow> 's"
  protocol_id :: "'p \<Rightarrow> string"
  runner_hint :: "'p \<Rightarrow> string option"
  portable_resources :: "'p \<Rightarrow> 's ResourceDescriptor list"
  input_content_id :: "'p \<Rightarrow> ContentId"
  local_task :: "'p \<Rightarrow> string \<Rightarrow> 't"
  is_satisfied_by :: "'r \<Rightarrow> 'c \<Rightarrow> bool"

section \<open>Maturity of the capabilities\<close>

datatype CapabilityMaturity =
  Contract | ReferenceModel | InProcessTest | Deployable | ProductionReady | Unavailable

datatype DistributedCapability =
    LocalObservation | ClusteredSingleController | DurableRegistry | CriticalDurability
  | CftReferenceModel | HighAvailability | RecoveryPolicyCapability | TrustPolicyCapability

fun maturity :: "DistributedCapability \<Rightarrow> CapabilityMaturity" where
  "maturity LocalObservation = Deployable"
| "maturity ClusteredSingleController = Deployable"
| "maturity DurableRegistry = InProcessTest"
| "maturity CriticalDurability = Unavailable"
| "maturity HighAvailability = Unavailable"
| "maturity CftReferenceModel = ReferenceModel"
| "maturity RecoveryPolicyCapability = ReferenceModel"
| "maturity TrustPolicyCapability = ReferenceModel"

text \<open>Features in the order of their declaration, which is the order of the map's keys.\<close>

datatype DistributedFeature =
    FeatureLocalObservation | FeatureClustered | FeatureDurable | FeatureCritical
  | FeatureHighAvailability | FeatureCheckpoint | FeatureTrust

record SidecarCapabilityProof =
  scp_schema_version :: u16
  scp_protocol_major :: u16
  scp_release :: string
  scp_revision :: string
  scp_level :: CapabilityMaturity
  scp_features :: "(DistributedFeature, CapabilityMaturity) fmap"

definition distributed_protocol_id :: string where
  "distributed_protocol_id = ''mutsuki.distributed.cluster''"

definition distributed_protocol_major :: u16 where
  "distributed_protocol_major = 1"

definition max_control_frame_bytes :: nat where
  "max_control_frame_bytes = 64 * 1024"

text \<open>The revision is written by the build script.\<close>

definition current_proof :: "string \<Rightarrow> SidecarCapabilityProof" where
  "current_proof revision =
     \<lparr>scp_schema_version = 1, scp_protocol_major = distributed_protocol_major,
      scp_release = ''mutsuki-distributed-host-clustered-mvp-1'', scp_revision = revision,
      scp_level = Deployable,
      scp_features = fmap_of_list
        [(FeatureLocalObservation, Deployable), (FeatureClustered, Deployable),
         (FeatureDurable, InProcessTest), (FeatureCritical, Unavailable),
         (FeatureHighAvailability, Unavailable), (FeatureCheckpoint, ReferenceModel),
         (FeatureTrust, ReferenceModel)]\<rparr>"

datatype DistributionMode = ModeDisabled | LocalObservable | Clustered

section \<open>Workers\<close>

datatype WorkerHealth = HealthReady | HealthBusy | HealthDraining | HealthUnreachable | HealthIncompatible

record RunnerGeneration =
  rg_runner_id :: string
  rg_plugin_id :: string
  rg_runner_generation :: u64
  rg_plugin_generation :: u64

record ('c, 's) WorkerAdvertisement =
  wa_node_id :: NodeId
  wa_protocol_major :: u16
  wa_snapshot_version :: u64
  wa_capabilities :: 'c
  wa_portability :: "'s PortabilityCatalog"
  wa_runners :: "RunnerGeneration list"
  wa_localized_content :: "string fset"
  wa_health :: WorkerHealth

record WorkerPulse =
  wp_node_id :: NodeId
  wp_snapshot_version :: u64
  wp_health :: WorkerHealth
  wp_running_tasks :: nat
  wp_queue_depth :: nat

text \<open>Collecting into a map keeps the last generation of a runner listed twice.\<close>

definition runner_generations :: "('c, 's) WorkerAdvertisement \<Rightarrow> (string, u64) fmap" where
  "runner_generations wa = fmap_of_list (rev (map (\<lambda>r. (rg_runner_id r, rg_runner_generation r)) (wa_runners wa)))"

definition can_restart_from_input :: "('p, 'r, 'c, 's, 't) runtime_api \<Rightarrow> 'p \<Rightarrow> bool" where
  "can_restart_from_input api p \<longleftrightarrow>
     (mobility api p = Restartable \<or> mobility api p = Checkpointable)
     \<and> (retry_safety api p = Idempotent \<or> retry_safety api p = Verifiable \<or> retry_safety api p = Compensatable)"

section \<open>Tasks and attempts\<close>

record DirectDataRef =
  dd_owner_node :: NodeId
  dd_content_id :: ContentId
  dd_endpoint_hint :: string

record ('p, 'r) RemoteTaskEnvelope =
  rte_task_id :: GlobalTaskId
  rte_attempt :: u32
  rte_origin_node :: NodeId
  rte_requirements :: 'r
  rte_portable :: 'p
  rte_direct_inputs :: "DirectDataRef list"

record 'h RemoteAccepted =
  ra_task_id :: GlobalTaskId
  ra_attempt :: u32
  ra_worker_node :: NodeId
  ra_local_handle :: 'h

record LocalTaskOutcome =
  lto_task_id :: string
  lto_status :: string
  lto_output_ref :: "string option"
  lto_reason :: "string option"
  lto_error_code :: "string option"

record RemoteResult =
  rs_task_id :: GlobalTaskId
  rs_attempt :: u32
  rs_worker_node :: NodeId
  rs_outcome :: "LocalTaskOutcome option"
  rs_direct_outputs :: "DirectDataRef list"

datatype PlacementKind = PlacedLocal | PlacedRemote

record 'h TaskPlacement =
  tp_kind :: PlacementKind
  tp_task_id :: GlobalTaskId
  tp_attempt :: u32
  tp_node_id :: NodeId
  tp_local_handle :: 'h

record 'h AttemptRecord =
  atr_attempt :: u32
  atr_node_id :: NodeId
  atr_local_handle :: 'h
  atr_active :: bool

record ('p, 'r, 'h) GlobalTaskRecord =
  gtr_task_id :: GlobalTaskId
  gtr_portable :: 'p
  gtr_requirements :: 'r
  gtr_direct_inputs :: "DirectDataRef list"
  gtr_attempts :: "'h AttemptRecord list"

definition record_active_attempt :: "('p, 'r, 'h) GlobalTaskRecord \<Rightarrow> 'h AttemptRecord option" where
  "record_active_attempt r = List.find atr_active (rev (gtr_attempts r))"

record LocalTaskSnapshot =
  lts_task_id :: string
  lts_protocol_id :: string
  lts_status :: string
  lts_registry_generation :: u64
  lts_runner_id :: "string option"
  lts_lease_id :: "string option"

section \<open>Messages\<close>

record WorkerFailure =
  wfl_kind :: DistributedErrorKind
  wfl_message :: string

definition worker_failure :: "DistributedError \<Rightarrow> WorkerFailure" where
  "worker_failure e = \<lparr>wfl_kind = err_kind e, wfl_message = err_message e\<rparr>"

definition map_failure :: "'a result \<Rightarrow> WorkerFailure + 'a" where
  "map_failure r = map_sum worker_failure id r"

datatype ('p, 'r, 'h) WorkerCommand =
    SubmitCommand "('p, 'r) RemoteTaskEnvelope" | CancelCommand 'h | OutcomeCommand 'h

datatype 'h WorkerReplyBody =
    AcceptedReply "'h RemoteAccepted" | CancelledReply | OutcomeReply "LocalTaskOutcome option"

record ('p, 'r, 'h) WorkerRequest =
  wq_request_id :: u64
  wq_command :: "('p, 'r, 'h) WorkerCommand"

record 'h WorkerReply =
  wr_request_id :: u64
  wr_result :: "WorkerFailure + 'h WorkerReplyBody"

datatype ClusterCommand = DescribeWorker | PulseCommand | WorkerMessage bytes | DrainWorker | StopWorker

datatype ('c, 's) ClusterReplyBody =
    AdvertisementReply "('c, 's) WorkerAdvertisement" | PulseReply WorkerPulse | WorkerMessageReply bytes
  | DrainingReply | StoppingReply

record ClusterRequest =
  clq_request_id :: u64
  clq_command :: ClusterCommand

record ('c, 's) ClusterReply =
  clr_request_id :: u64
  clr_result :: "WorkerFailure + ('c, 's) ClusterReplyBody"

record ('p, 'r) ControllerSubmit =
  cts_task_id :: GlobalTaskId
  cts_portable :: 'p
  cts_requirements :: 'r
  cts_direct_inputs :: "DirectDataRef list"

datatype ('p, 'r) ControllerCommand =
    Capabilities | ControllerSubmission "('p, 'r) ControllerSubmit" | ControllerCancel GlobalTaskId
  | ControllerOutcome GlobalTaskId | ControllerHealth | ControllerShutdown

datatype 'h ControllerReplyBody =
    CapabilitiesReply SidecarCapabilityProof | PlacementReply "'h TaskPlacement" | ControllerCancelled
  | ControllerOutcomeReply "LocalTaskOutcome option" | HealthReply string | ShuttingDownReply

record ('p, 'r) ControllerRequest =
  ctq_request_id :: u64
  ctq_command :: "('p, 'r) ControllerCommand"

record 'h ControllerReply =
  ctr_request_id :: u64
  ctr_result :: "WorkerFailure + 'h ControllerReplyBody"

section \<open>Control frames\<close>

definition control_protocol_error :: DistributedError where
  "control_protocol_error = error_new Protocol ''distributed control frame is invalid''"

definition control_frame_too_large :: DistributedError where
  "control_frame_too_large = error_new CapacityExceeded ''distributed control frame exceeds the bounded limit''"

definition encode_control :: "'a serde \<Rightarrow> 'a \<Rightarrow> bytes result" where
  "encode_control sd x =
     bind_result (ok_or control_protocol_error (to_vec sd x))
       (\<lambda>bs. if length bs > max_control_frame_bytes then Inl control_frame_too_large else Inr bs)"

definition decode_control :: "'a serde \<Rightarrow> bytes \<Rightarrow> 'a result" where
  "decode_control sd bs =
     (if length bs > max_control_frame_bytes then Inl control_frame_too_large
      else ok_or control_protocol_error (from_slice sd bs))"

lemma encode_control_Inr:
  "encode_control sd x = Inr bs \<longleftrightarrow> to_vec sd x = Some bs \<and> length bs \<le> max_control_frame_bytes"
  by (cases "to_vec sd x") (auto simp: encode_control_def)

lemma decode_encode_control:
  assumes "serde_ok sd" and "encode_control sd x = Inr bs"
  shows "decode_control sd bs = Inr x"
  using assms by (auto simp: encode_control_Inr decode_control_def dest: serde_okD)

end
