(* ===== verification/Worker_Registry.thy ===== *)
theory Worker_Registry
  imports Cluster_Contracts
begin

text \<open>
  \<open>WorkerRegistry\<close> of \<open>lib.rs\<close>: the capability snapshots and pulses of the workers, and the
  choice of the workers that may take a task.
\<close>

section \<open>Errors\<close>

definition invalid_config :: DistributedError where
  "invalid_config = error_new InvalidConfig ''DistributedHost limits must be positive and bounded''"

definition worker_protocol_error :: DistributedError where
  "worker_protocol_error = error_new Incompatible ''Worker distributed protocol is incompatible''"

definition worker_unversioned_error :: DistributedError where
  "worker_unversioned_error = error_new Incompatible ''Worker capability generation must be versioned''"

definition worker_capacity_error :: DistributedError where
  "worker_capacity_error = error_new CapacityExceeded ''Worker registry capacity exceeded''"

definition stale_worker_error :: DistributedError where
  "stale_worker_error = error_new AttemptStale ''Worker capability snapshot is stale''"

definition unregistered_pulse_error :: DistributedError where
  "unregistered_pulse_error = error_new WorkerUnavailable ''Worker pulse has no registered capability snapshot''"

definition unknown_version_error :: DistributedError where
  "unknown_version_error = error_new Incompatible ''Worker pulse references an unknown capability version''"

section \<open>Operations\<close>

record ('c, 's) WorkerRegistry =
  wr_max_workers :: nat
  wr_workers :: "(NodeId, ('c, 's) WorkerAdvertisement) fmap"
  wr_pulses :: "(NodeId, WorkerPulse) fmap"

definition worker_registry_new :: "nat \<Rightarrow> ('c, 's) WorkerRegistry result" where
  "worker_registry_new max_workers =
     (if max_workers = 0 then Inl invalid_config
      else Inr \<lparr>wr_max_workers = max_workers, wr_workers = fmempty, wr_pulses = fmempty\<rparr>)"

definition register_worker ::
  "('c, 's) WorkerAdvertisement \<Rightarrow> ('c, 's) WorkerRegistry \<Rightarrow> unit result \<times> ('c, 's) WorkerRegistry" where
  "register_worker wa r =
     (if wa_protocol_major wa \<noteq> distributed_protocol_major then (Inl worker_protocol_error, r)
      else if wa_snapshot_version wa = 0
              \<or> list_ex (\<lambda>g. rg_runner_generation g = 0 \<or> rg_plugin_generation g = 0) (wa_runners wa)
      then (Inl worker_unversioned_error, r)
      else if \<not> bt_contains (wr_workers r) (wa_node_id wa) \<and> bt_len (wr_workers r) \<ge> wr_max_workers r
      then (Inl worker_capacity_error, r)
      else if (case fmlookup (wr_workers r) (wa_node_id wa) of
                 None \<Rightarrow> False | Some current \<Rightarrow> wa_snapshot_version current > wa_snapshot_version wa)
      then (Inl stale_worker_error, r)
      else (Inr (), r\<lparr>wr_workers := fmupd (wa_node_id wa) wa (wr_workers r)\<rparr>))"

definition record_pulse ::
  "WorkerPulse \<Rightarrow> ('c, 's) WorkerRegistry \<Rightarrow> unit result \<times> ('c, 's) WorkerRegistry" where
  "record_pulse p r =
     (case fmlookup (wr_workers r) (wp_node_id p) of
        None \<Rightarrow> (Inl unregistered_pulse_error, r)
      | Some w \<Rightarrow>
          if wa_snapshot_version w \<noteq> wp_snapshot_version p
          then (Inl unknown_version_error,
                r\<lparr>wr_workers := fmupd (wp_node_id p) (w\<lparr>wa_health := HealthIncompatible\<rparr>) (wr_workers r)\<rparr>)
          else (Inr (), r\<lparr>wr_workers := fmupd (wp_node_id p) (w\<lparr>wa_health := wp_health p\<rparr>) (wr_workers r),
                          wr_pulses := fmupd (wp_node_id p) p (wr_pulses r)\<rparr>))"

definition remote_eligible ::
  "('p, 'r, 'c, 's, 't) runtime_api \<Rightarrow> ('c, 's) WorkerAdvertisement \<Rightarrow> 'p \<Rightarrow> 'r \<Rightarrow> bool" where
  "remote_eligible api w p req \<longleftrightarrow>
     (if wa_health w \<noteq> HealthReady \<or> \<not> has_supported_envelope api p \<or> mobility api p = LocalOnly
         \<or> \<not> is_satisfied_by api req (wa_capabilities w)
      then False
      else
        let capability = List.find (\<lambda>d. td_protocol_id d = protocol_id api p) (pf_tasks (wa_portability w));
            task_compatible = (case capability of
                                 None \<Rightarrow> False
                               | Some d \<Rightarrow> td_task_schema d = task_schema api p \<and> td_mobility d \<noteq> LocalOnly);
            runner_compatible = (case runner_hint api p of
                                   None \<Rightarrow> True
                                 | Some hint \<Rightarrow> list_ex (\<lambda>g. rg_runner_id g = hint \<and> rg_runner_generation g > 0) (wa_runners w));
            resources_compatible =
              list_all (\<lambda>required. list_ex (\<lambda>available. rd_resource_kind available = rd_resource_kind required
                                                        \<and> rd_schema available = rd_schema required)
                                    (pf_resources (wa_portability w)))
                (portable_resources api p)
        in task_compatible \<and> runner_compatible \<and> resources_compatible)"

definition worker_candidates ::
  "('p, 'r, 'c, 's, 't) runtime_api \<Rightarrow> ('c, 's) WorkerRegistry \<Rightarrow> 'p \<Rightarrow> 'r \<Rightarrow> NodeId fset \<Rightarrow> NodeId list" where
  "worker_candidates api r p req excluded =
     map wa_node_id
       (filter (\<lambda>w. remote_eligible api w p req)
         (filter (\<lambda>w. wa_node_id w |\<notin>| excluded) (bt_values (wr_workers r))))"

definition get_worker :: "('c, 's) WorkerRegistry \<Rightarrow> NodeId \<Rightarrow> ('c, 's) WorkerAdvertisement option" where
  "get_worker r n = fmlookup (wr_workers r) n"

definition latest_pulse :: "('c, 's) WorkerRegistry \<Rightarrow> NodeId \<Rightarrow> WorkerPulse option" where
  "latest_pulse r n = fmlookup (wr_pulses r) n"

datatype ('c, 's) registry_message = RegisterMessage "('c, 's) WorkerAdvertisement" | PulseMessage WorkerPulse

fun registry_message_step ::
  "('c, 's) registry_message \<Rightarrow> ('c, 's) WorkerRegistry \<Rightarrow> ('c, 's) WorkerRegistry" where
  "registry_message_step (RegisterMessage wa) r = snd (register_worker wa r)"
| "registry_message_step (PulseMessage p) r = snd (record_pulse p r)"

section \<open>Invariant\<close>

definition worker_ok :: "NodeId \<Rightarrow> ('c, 's) WorkerAdvertisement \<Rightarrow> bool" where
  "worker_ok n w \<longleftrightarrow>
     wa_node_id w = n \<and> wa_protocol_major w = distributed_protocol_major \<and> wa_snapshot_version w \<noteq> 0
     \<and> (\<forall>g \<in> set (wa_runners w). rg_runner_generation g \<noteq> 0 \<and> rg_plugin_generation g \<noteq> 0)"

definition worker_registry_ok :: "('c, 's) WorkerRegistry \<Rightarrow> bool" where
  "worker_registry_ok r \<longleftrightarrow>
     bt_len (wr_workers r) \<le> wr_max_workers r
     \<and> (\<forall>n w. fmlookup (wr_workers r) n = Some w \<longrightarrow> worker_ok n w)
     \<and> (\<forall>n p. fmlookup (wr_pulses r) n = Some p \<longrightarrow>
          wp_node_id p = n
          \<and> (\<exists>w. fmlookup (wr_workers r) n = Some w \<and> wp_snapshot_version p \<le> wa_snapshot_version w))"

lemma worker_ok_health [simp]: "worker_ok n (w\<lparr>wa_health := h\<rparr>) \<longleftrightarrow> worker_ok n w"
  by (simp add: worker_ok_def)

lemma worker_registry_new_ok: "worker_registry_new m = Inr r \<Longrightarrow> worker_registry_ok r \<and> wr_max_workers r = m"
  by (auto simp: worker_registry_new_def worker_registry_ok_def split: if_splits)

lemma worker_registry_okD:
  assumes "worker_registry_ok r"
  shows "bt_len (wr_workers r) \<le> wr_max_workers r"
    and "fmlookup (wr_workers r) n = Some w \<Longrightarrow> worker_ok n w"
    and "fmlookup (wr_pulses r) n = Some p \<Longrightarrow> wp_node_id p = n"
    and "fmlookup (wr_pulses r) n = Some p \<Longrightarrow>
           \<exists>w. fmlookup (wr_workers r) n = Some w \<and> wp_snapshot_version p \<le> wa_snapshot_version w"
  using assms by (simp_all add: worker_registry_ok_def)

lemma register_worker_cases:
  obtains e where "register_worker wa r = (Inl e, r)"
  | "register_worker wa r = (Inr (), r\<lparr>wr_workers := fmupd (wa_node_id wa) wa (wr_workers r)\<rparr>)"
    "worker_ok (wa_node_id wa) wa"
    "bt_contains (wr_workers r) (wa_node_id wa) \<or> bt_len (wr_workers r) < wr_max_workers r"
    "\<And>w. fmlookup (wr_workers r) (wa_node_id wa) = Some w \<Longrightarrow> wa_snapshot_version w \<le> wa_snapshot_version wa"
  by (cases "register_worker wa r")
    (auto simp: register_worker_def worker_ok_def list_ex_iff not_le split: if_splits option.splits; force)

lemma register_worker_ok: "worker_registry_ok r \<Longrightarrow> worker_registry_ok (snd (register_worker wa r))"
proof (cases rule: register_worker_cases [of wa r])
  case 2
  assume ok: "worker_registry_ok r"
  have "bt_len (fmupd (wa_node_id wa) wa (wr_workers r)) \<le> wr_max_workers r"
    using 2(3) worker_registry_okD(1) [OF ok] by (auto simp: bt_len_upd)
  moreover have "\<exists>w. fmlookup (fmupd (wa_node_id wa) wa (wr_workers r)) n = Some w \<and> wp_snapshot_version p \<le> wa_snapshot_version w"
    if "fmlookup (wr_pulses r) n = Some p" for n p
    using worker_registry_okD(4) [OF ok that] 2(4) by (auto intro: order_trans)
  ultimately show ?thesis
    using ok 2(1,2) by (auto simp: worker_registry_ok_def)
qed simp

lemma record_pulse_ok: "worker_registry_ok r \<Longrightarrow> worker_registry_ok (snd (record_pulse p r))"
proof (cases "fmlookup (wr_workers r) (wp_node_id p)")
  case (Some w)
  assume ok: "worker_registry_ok r"
  have known: "bt_contains (wr_workers r) (wp_node_id p)" using Some by (simp add: bt_contains_def)
  show ?thesis
    using Some ok worker_registry_okD(2) [OF ok Some] worker_registry_okD(4) [OF ok, of "wp_node_id p"]
    by (auto simp: record_pulse_def worker_registry_ok_def bt_len_upd known)
qed (simp add: record_pulse_def)

lemma worker_step_ok: "worker_registry_ok r \<Longrightarrow> worker_registry_ok (registry_message_step m r)"
  by (cases m) (simp_all add: register_worker_ok record_pulse_ok)

lemma worker_step_max: "wr_max_workers (registry_message_step m r) = wr_max_workers r"
  by (cases m) (auto simp: register_worker_def record_pulse_def split: option.splits)

lemma worker_step_version:
  assumes "fmlookup (wr_workers r) n = Some w"
  shows "\<exists>w'. fmlookup (wr_workers (registry_message_step m r)) n = Some w' \<and> wa_snapshot_version w \<le> wa_snapshot_version w'"
proof (cases m)
  case (RegisterMessage wa)
  then show ?thesis using assms by (cases rule: register_worker_cases [of wa r]) auto
next
  case (PulseMessage p)
  then show ?thesis using assms by (auto simp: record_pulse_def split: option.splits)
qed

lemma worker_run_ok:
  "worker_registry_ok r \<Longrightarrow> worker_registry_ok (fold registry_message_step ms r)
    \<and> wr_max_workers (fold registry_message_step ms r) = wr_max_workers r"
  by (induction ms arbitrary: r) (simp_all add: worker_step_ok worker_step_max)

lemma worker_run_version:
  assumes "fmlookup (wr_workers r) n = Some w"
  shows "\<exists>w'. fmlookup (wr_workers (fold registry_message_step ms r)) n = Some w'
    \<and> wa_snapshot_version w \<le> wa_snapshot_version w'"
  using assms
proof (induction ms arbitrary: r w)
  case (Cons m ms)
  obtain w' where "fmlookup (wr_workers (registry_message_step m r)) n = Some w'" "wa_snapshot_version w \<le> wa_snapshot_version w'"
    using worker_step_version [OF Cons.prems] by blast
  then show ?case using Cons.IH [of "registry_message_step m r" w'] by (auto intro: order_trans)
qed auto

text \<open>With the keys being the node ids, the candidates are a part of the keys, in their order.\<close>

lemma worker_candidates_keys:
  assumes "worker_registry_ok r"
  shows "worker_candidates api r p req ex =
    filter (\<lambda>n. n |\<notin>| ex \<and> remote_eligible api (the (fmlookup (wr_workers r) n)) p req) (bt_keys (wr_workers r))"
proof -
  have id: "wa_node_id (the (fmlookup (wr_workers r) n)) = n" if "n \<in> set (bt_keys (wr_workers r))" for n
    using that worker_registry_okD(2) [OF assms, of n] by (auto simp: fmlookup_dom_iff worker_ok_def)
  have "map wa_node_id (filter Q (map (\<lambda>n. the (fmlookup (wr_workers r) n)) ns)) =
      filter (\<lambda>n. Q (the (fmlookup (wr_workers r) n))) ns" if "set ns \<subseteq> set (bt_keys (wr_workers r))" for Q ns
    using that by (induction ns) (auto simp: id)
  from this [OF order_refl] have "worker_candidates api r p req ex =
      filter (\<lambda>n. remote_eligible api (the (fmlookup (wr_workers r) n)) p req
                 \<and> wa_node_id (the (fmlookup (wr_workers r) n)) |\<notin>| ex) (bt_keys (wr_workers r))"
    by (simp add: worker_candidates_def bt_values_def conj_commute)
  also have "\<dots> = filter (\<lambda>n. n |\<notin>| ex \<and> remote_eligible api (the (fmlookup (wr_workers r) n)) p req) (bt_keys (wr_workers r))"
    by (rule filter_cong) (use id in auto)
  finally show ?thesis .
qed

lemma worker_candidates_facts:
  assumes "worker_registry_ok r"
  shows "set (worker_candidates api r p req ex) =
      {n. \<exists>w. fmlookup (wr_workers r) n = Some w \<and> n |\<notin>| ex \<and> remote_eligible api w p req}"
    and "sorted (worker_candidates api r p req ex)" "distinct (worker_candidates api r p req ex)"
    and "length (worker_candidates api r p req ex) \<le> wr_max_workers r"
proof -
  have "sorted (bt_keys (wr_workers r))" by (simp add: bt_keys_def sorted_list_of_fset.rep_eq)
  then show "sorted (worker_candidates api r p req ex)" "distinct (worker_candidates api r p req ex)"
    by (simp_all add: worker_candidates_keys [OF assms] sorted_filter [where f = id, simplified])
  show "length (worker_candidates api r p req ex) \<le> wr_max_workers r"
    using order_trans [OF length_filter_le worker_registry_okD(1) [OF assms, folded length_bt_keys]]
    by (simp add: worker_candidates_keys [OF assms])
  show "set (worker_candidates api r p req ex) =
      {n. \<exists>w. fmlookup (wr_workers r) n = Some w \<and> n |\<notin>| ex \<and> remote_eligible api w p req}"
    by (auto simp: worker_candidates_keys [OF assms] fmlookup_dom_iff)
qed

end
