(* ===== verification/Worker_Wire.thy ===== *)
theory Worker_Wire
  imports Cluster_Contracts
begin

text \<open>
  The two sides of a worker connection of \<open>lib.rs\<close>: \<open>WireRemoteWorker\<close> and
  \<open>WorkerRequestDispatcher\<close> with the control frames between them, and \<open>WorkerEndpoint\<close>, which
  hands an accepted task to its local host.  The traits \<open>RemoteWorker\<close>, \<open>HostAdapter\<close>,
  \<open>ResourceLocalizer\<close> and \<open>WorkerTransport\<close> are records of operations on a state \<open>'e\<close> of the
  world: an awaited call is one application.
\<close>

section \<open>Traits\<close>

record ('e, 'p, 'r, 'h) remote_worker =
  worker_submit :: "('p, 'r) RemoteTaskEnvelope \<Rightarrow> 'e \<Rightarrow> 'h RemoteAccepted result \<times> 'e"
  worker_cancel :: "'h \<Rightarrow> 'e \<Rightarrow> unit result \<times> 'e"
  worker_outcome :: "'h \<Rightarrow> 'e \<Rightarrow> LocalTaskOutcome option result \<times> 'e"

record ('e, 't, 'h) host_adapter =
  host_submit :: "string \<Rightarrow> 't \<Rightarrow> 'e \<Rightarrow> 'h list result \<times> 'e"
  host_cancel :: "'h \<Rightarrow> 'e \<Rightarrow> unit result \<times> 'e"
  host_outcome :: "'h \<Rightarrow> 'e \<Rightarrow> LocalTaskOutcome option result \<times> 'e"
  host_snapshots :: "'e \<Rightarrow> LocalTaskSnapshot list result \<times> 'e"
  host_begin_drain :: "'e \<Rightarrow> unit result \<times> 'e"
  host_health :: "'e \<Rightarrow> string result \<times> 'e"

record 'e resource_localizer =
  localize :: "DirectDataRef list \<Rightarrow> 'e \<Rightarrow> unit result \<times> 'e"
  localizer_shutdown :: "'e \<Rightarrow> unit result \<times> 'e"

type_synonym 'e transport = "bytes \<Rightarrow> 'e \<Rightarrow> bytes result \<times> 'e"

section \<open>Errors\<close>

definition reply_mismatch_error :: DistributedError where
  "reply_mismatch_error = error_new Protocol ''Worker reply request id does not match''"

definition rejected_message :: string where
  "rejected_message = ''Worker rejected the distributed request''"

definition unexpected_reply :: DistributedError where
  "unexpected_reply = error_new Protocol ''Worker returned an unexpected reply type''"

definition disconnected_error :: DistributedError where
  "disconnected_error = error_new TransportClosed ''Worker Link session is disconnected''"

definition admission_rejected_error :: DistributedError where
  "admission_rejected_error = error_new WorkerRejected ''Worker rejected remote admission''"

definition envelope_error :: DistributedError where
  "envelope_error = error_new Incompatible ''portable task envelope is incompatible''"

definition no_handle_error :: "string \<Rightarrow> DistributedError" where
  "no_handle_error who = error_new HostUnavailable (who @ '' Host returned no TaskHandle'')"

section \<open>The requesting side\<close>

text \<open>The state is the next request id, an atomic counter that wraps around.\<close>

definition wire_request ::
  "('p, 'r, 'h) WorkerRequest serde \<Rightarrow> 'h WorkerReply serde \<Rightarrow> 'e transport \<Rightarrow> ('p, 'r, 'h) WorkerCommand
     \<Rightarrow> u64 \<times> 'e \<Rightarrow> 'h WorkerReplyBody result \<times> u64 \<times> 'e" where
  "wire_request qsd rsd round_trip command = (\<lambda>(next_id, e).
     let request_id = next_id; next_id = next_id + 1 in
     case encode_control qsd \<lparr>wq_request_id = request_id, wq_command = command\<rparr> of
       Inl err \<Rightarrow> (Inl err, next_id, e)
     | Inr request \<Rightarrow>
         (case round_trip request e of
            (Inl err, e) \<Rightarrow> (Inl err, next_id, e)
          | (Inr bs, e) \<Rightarrow>
              (bind_result (decode_control rsd bs) (\<lambda>reply.
                 if wr_request_id reply \<noteq> request_id then Inl reply_mismatch_error
                 else map_sum (\<lambda>failure. error_new (wfl_kind failure) rejected_message) id (wr_result reply)),
               next_id, e)))"

definition wire_submit ::
  "('p, 'r, 'h) WorkerRequest serde \<Rightarrow> 'h WorkerReply serde \<Rightarrow> 'e transport
     \<Rightarrow> ('p, 'r) RemoteTaskEnvelope \<Rightarrow> u64 \<times> 'e \<Rightarrow> 'h RemoteAccepted result \<times> u64 \<times> 'e" where
  "wire_submit qsd rsd round_trip envelope s =
     (case wire_request qsd rsd round_trip (SubmitCommand envelope) s of
        (Inl err, s) \<Rightarrow> (Inl err, s)
      | (Inr (AcceptedReply accepted), s) \<Rightarrow> (Inr accepted, s)
      | (Inr _, s) \<Rightarrow> (Inl unexpected_reply, s))"

definition wire_cancel ::
  "('p, 'r, 'h) WorkerRequest serde \<Rightarrow> 'h WorkerReply serde \<Rightarrow> 'e transport
     \<Rightarrow> 'h \<Rightarrow> u64 \<times> 'e \<Rightarrow> unit result \<times> u64 \<times> 'e" where
  "wire_cancel qsd rsd round_trip handle s =
     (case wire_request qsd rsd round_trip (CancelCommand handle) s of
        (Inl err, s) \<Rightarrow> (Inl err, s)
      | (Inr CancelledReply, s) \<Rightarrow> (Inr (), s)
      | (Inr _, s) \<Rightarrow> (Inl unexpected_reply, s))"

definition wire_outcome ::
  "('p, 'r, 'h) WorkerRequest serde \<Rightarrow> 'h WorkerReply serde \<Rightarrow> 'e transport
     \<Rightarrow> 'h \<Rightarrow> u64 \<times> 'e \<Rightarrow> LocalTaskOutcome option result \<times> u64 \<times> 'e" where
  "wire_outcome qsd rsd round_trip handle s =
     (case wire_request qsd rsd round_trip (OutcomeCommand handle) s of
        (Inl err, s) \<Rightarrow> (Inl err, s)
      | (Inr (OutcomeReply outcome), s) \<Rightarrow> (Inr outcome, s)
      | (Inr _, s) \<Rightarrow> (Inl unexpected_reply, s))"

definition wire_worker ::
  "('p, 'r, 'h) WorkerRequest serde \<Rightarrow> 'h WorkerReply serde \<Rightarrow> 'e transport
     \<Rightarrow> (u64 \<times> 'e, 'p, 'r, 'h) remote_worker" where
  "wire_worker qsd rsd round_trip =
     \<lparr>worker_submit = wire_submit qsd rsd round_trip, worker_cancel = wire_cancel qsd rsd round_trip,
      worker_outcome = wire_outcome qsd rsd round_trip\<rparr>"

section \<open>The answering side\<close>

fun execute_command ::
  "('e, 'p, 'r, 'h) remote_worker \<Rightarrow> ('p, 'r, 'h) WorkerCommand \<Rightarrow> 'e \<Rightarrow> 'h WorkerReplyBody result \<times> 'e" where
  "execute_command w (SubmitCommand envelope) e = apfst (map_sum id AcceptedReply) (worker_submit w envelope e)"
| "execute_command w (CancelCommand handle) e = apfst (map_sum id (\<lambda>_. CancelledReply)) (worker_cancel w handle e)"
| "execute_command w (OutcomeCommand handle) e = apfst (map_sum id OutcomeReply) (worker_outcome w handle e)"

definition dispatch ::
  "('p, 'r, 'h) WorkerRequest serde \<Rightarrow> 'h WorkerReply serde \<Rightarrow> ('e, 'p, 'r, 'h) remote_worker \<Rightarrow> 'e transport" where
  "dispatch qsd rsd w bs e =
     (case decode_control qsd bs of
        Inl err \<Rightarrow> (Inl err, e)
      | Inr request \<Rightarrow>
          (case execute_command w (wq_command request) e of
             (r, e) \<Rightarrow>
               (encode_control rsd \<lparr>wr_request_id = wq_request_id request, wr_result = map_failure r\<rparr>, e)))"

section \<open>The endpoint of a worker\<close>

record WorkerEndpointState =
  ep_connected :: bool
  ep_reject_next :: bool

definition endpoint_new :: WorkerEndpointState where
  "endpoint_new = \<lparr>ep_connected = True, ep_reject_next = False\<rparr>"

definition set_connected :: "bool \<Rightarrow> WorkerEndpointState \<Rightarrow> WorkerEndpointState" where
  "set_connected connected s = s\<lparr>ep_connected := connected\<rparr>"

definition reject_next :: "WorkerEndpointState \<Rightarrow> WorkerEndpointState" where
  "reject_next s = s\<lparr>ep_reject_next := True\<rparr>"

definition endpoint_admit :: "WorkerEndpointState \<Rightarrow> unit result \<times> WorkerEndpointState" where
  "endpoint_admit s =
     (if \<not> ep_connected s then (Inl disconnected_error, s)
      else if ep_reject_next s then (Inl admission_rejected_error, s\<lparr>ep_reject_next := False\<rparr>)
      else (Inr (), s))"

definition attempt_task_id :: "GlobalTaskId \<Rightarrow> u32 \<Rightarrow> string" where
  "attempt_task_id gid attempt = gid @ '':attempt:'' @ dec_string (unat attempt)"

definition attempt_batch_id :: "GlobalTaskId \<Rightarrow> u32 \<Rightarrow> string" where
  "attempt_batch_id gid attempt = gid @ '':batch:'' @ dec_string (unat attempt)"

definition endpoint_submit ::
  "('p, 'r, 'c, 's, 't) runtime_api \<Rightarrow> NodeId \<Rightarrow> ('e, 't, 'h) host_adapter \<Rightarrow> 'e resource_localizer
     \<Rightarrow> ('p, 'r) RemoteTaskEnvelope \<Rightarrow> WorkerEndpointState \<times> 'e
     \<Rightarrow> 'h RemoteAccepted result \<times> WorkerEndpointState \<times> 'e" where
  "endpoint_submit api node host localizer envelope = (\<lambda>(s, e).
     case endpoint_admit s of
       (Inl err, s) \<Rightarrow> (Inl err, s, e)
     | (Inr _, s) \<Rightarrow>
         if \<not> valid_envelope api (rte_portable envelope) then (Inl envelope_error, s, e)
         else case localize localizer (rte_direct_inputs envelope) e of
           (Inl err, e) \<Rightarrow> (Inl err, s, e)
         | (Inr _, e) \<Rightarrow>
             let task = local_task api (rte_portable envelope) (attempt_task_id (rte_task_id envelope) (rte_attempt envelope))
             in (case host_submit host (attempt_batch_id (rte_task_id envelope) (rte_attempt envelope)) task e of
                   (Inl err, e) \<Rightarrow> (Inl err, s, e)
                 | (Inr [], e) \<Rightarrow> (Inl (no_handle_error ''Worker''), s, e)
                 | (Inr (handle # _), e) \<Rightarrow>
                     (Inr \<lparr>ra_task_id = rte_task_id envelope, ra_attempt = rte_attempt envelope,
                           ra_worker_node = node, ra_local_handle = handle\<rparr>, s, e)))"

definition endpoint_cancel ::
  "('e, 't, 'h) host_adapter \<Rightarrow> 'h \<Rightarrow> WorkerEndpointState \<times> 'e \<Rightarrow> unit result \<times> WorkerEndpointState \<times> 'e" where
  "endpoint_cancel host handle = (\<lambda>(s, e).
     case endpoint_admit s of
       (Inl err, s) \<Rightarrow> (Inl err, s, e)
     | (Inr _, s) \<Rightarrow> (case host_cancel host handle e of (r, e) \<Rightarrow> (r, s, e)))"

definition endpoint_outcome ::
  "('e, 't, 'h) host_adapter \<Rightarrow> 'h \<Rightarrow> WorkerEndpointState \<times> 'e
     \<Rightarrow> LocalTaskOutcome option result \<times> WorkerEndpointState \<times> 'e" where
  "endpoint_outcome host handle = (\<lambda>(s, e).
     case endpoint_admit s of
       (Inl err, s) \<Rightarrow> (Inl err, s, e)
     | (Inr _, s) \<Rightarrow> (case host_outcome host handle e of (r, e) \<Rightarrow> (r, s, e)))"

definition endpoint_worker ::
  "('p, 'r, 'c, 's, 't) runtime_api \<Rightarrow> NodeId \<Rightarrow> ('e, 't, 'h) host_adapter \<Rightarrow> 'e resource_localizer
     \<Rightarrow> (WorkerEndpointState \<times> 'e, 'p, 'r, 'h) remote_worker" where
  "endpoint_worker api node host localizer =
     \<lparr>worker_submit = endpoint_submit api node host localizer, worker_cancel = endpoint_cancel host,
      worker_outcome = endpoint_outcome host\<rparr>"

section \<open>An honest worker\<close>

text \<open>
  The contract of a worker that the coordinator relies on: an acceptance names the task, the
  attempt and the worker that was asked.
\<close>

definition answers_honestly :: "NodeId \<Rightarrow> ('e, 'p, 'r, 'h) remote_worker \<Rightarrow> bool" where
  "answers_honestly node w \<longleftrightarrow>
     (\<forall>envelope e accepted e'. worker_submit w envelope e = (Inr accepted, e') \<longrightarrow>
        ra_task_id accepted = rte_task_id envelope \<and> ra_attempt accepted = rte_attempt envelope
        \<and> ra_worker_node accepted = node)"

lemma answers_honestlyD:
  assumes "answers_honestly node w" and "worker_submit w envelope e = (Inr accepted, e')"
  shows "ra_task_id accepted = rte_task_id envelope" "ra_attempt accepted = rte_attempt envelope"
    "ra_worker_node accepted = node"
  using assms by (auto simp: answers_honestly_def)

lemma endpoint_submit_Inr:
  assumes "endpoint_submit api node host localizer envelope (s, e) = (Inr accepted, s', e')"
  obtains e1 handles where "ep_connected s" "\<not> ep_reject_next s" "s' = s"
    "valid_envelope api (rte_portable envelope)"
    "localize localizer (rte_direct_inputs envelope) e = (Inr (), e1)"
    "host_submit host (attempt_batch_id (rte_task_id envelope) (rte_attempt envelope))
       (local_task api (rte_portable envelope) (attempt_task_id (rte_task_id envelope) (rte_attempt envelope))) e1
       = (Inr (ra_local_handle accepted # handles), e')"
    "ra_task_id accepted = rte_task_id envelope" "ra_attempt accepted = rte_attempt envelope"
    "ra_worker_node accepted = node"
  using assms
  by (auto simp: endpoint_submit_def endpoint_admit_def Let_def split: if_splits sum.splits prod.splits list.splits)

lemma endpoint_honest: "answers_honestly node (endpoint_worker api node host localizer)"
  unfolding answers_honestly_def
  by (auto simp: endpoint_worker_def elim!: endpoint_submit_Inr)

section \<open>The wire refines the worker it connects to\<close>

text \<open>An error crosses the wire with its kind only.\<close>

definition wire_view :: "'a result \<Rightarrow> 'a result" where
  "wire_view r = map_sum (\<lambda>err. error_new (err_kind err) rejected_message) id r"

lemma wire_view_simps [simp]:
  "wire_view (Inl err) = Inl (error_new (err_kind err) rejected_message)" "wire_view (Inr x) = Inr x"
  by (simp_all add: wire_view_def)

lemma wire_request_dispatch:
  assumes codecs: "serde_ok qsd" "serde_ok rsd"
    and request: "encode_control qsd \<lparr>wq_request_id = i, wq_command = command\<rparr> = Inr bs"
    and run: "execute_command w command e = (r, e')"
    and reply: "encode_control rsd \<lparr>wr_request_id = i, wr_result = map_failure r\<rparr> = Inr bs'"
  shows "wire_request qsd rsd (dispatch qsd rsd w) command (i, e) = (wire_view r, i + 1, e')"
proof -
  have "dispatch qsd rsd w bs e = (Inr bs', e')"
    using decode_encode_control [OF codecs(1) request] run reply by (simp add: dispatch_def)
  moreover have "map_sum (\<lambda>failure. error_new (wfl_kind failure) rejected_message) id (map_failure r) = wire_view r"
    by (cases r) (simp_all add: map_failure_def worker_failure_def)
  ultimately show ?thesis
    using request decode_encode_control [OF codecs(2) reply] by (simp add: wire_request_def)
qed

lemma wire_honest:
  assumes "answers_honestly node w" "serde_ok qsd" "serde_ok rsd"
  shows "answers_honestly node (wire_worker qsd rsd (dispatch qsd rsd w))"
  unfolding answers_honestly_def
proof (intro allI impI)
  fix envelope s accepted s'
  assume "worker_submit (wire_worker qsd rsd (dispatch qsd rsd w)) envelope s = (Inr accepted, s')"
  then obtain i e where s: "s = (i, e)"
    and ok: "wire_request qsd rsd (dispatch qsd rsd w) (SubmitCommand envelope) (i, e) = (Inr (AcceptedReply accepted), s')"
    by (cases s) (auto simp: wire_worker_def wire_submit_def split: prod.splits sum.splits WorkerReplyBody.splits)
  obtain bs where request: "encode_control qsd \<lparr>wq_request_id = i, wq_command = SubmitCommand envelope\<rparr> = Inr bs"
    using ok by (auto simp: wire_request_def Let_def split: sum.splits)
  obtain r e' where run: "execute_command w (SubmitCommand envelope) e = (r, e')" by fastforce
  have d: "dispatch qsd rsd w bs e = (encode_control rsd \<lparr>wr_request_id = i, wr_result = map_failure r\<rparr>, e')"
    using decode_encode_control [OF assms(2) request] run by (simp add: dispatch_def)
  obtain bs' where reply: "encode_control rsd \<lparr>wr_request_id = i, wr_result = map_failure r\<rparr> = Inr bs'"
    using ok request d by (auto simp: wire_request_def Let_def split: sum.splits)
  have "wire_view r = Inr (AcceptedReply accepted)"
    using wire_request_dispatch [OF assms(2,3) request run reply] ok by simp
  then have "r = Inr (AcceptedReply accepted)" by (cases r) simp_all
  then obtain e1 where "worker_submit w envelope e = (Inr accepted, e1)"
    using run by (cases "worker_submit w envelope e"; cases "fst (worker_submit w envelope e)") auto
  then show "ra_task_id accepted = rte_task_id envelope \<and> ra_attempt accepted = rte_attempt envelope
      \<and> ra_worker_node accepted = node"
    using answers_honestlyD [OF assms(1)] by simp
qed

section \<open>Local task ids\<close>

lemma attempt_id_inj:
  assumes "gid @ sep @ CHR '':'' # dec_string (unat a) = gid' @ sep @ CHR '':'' # dec_string (unat (a' :: u32))"
  shows "gid = gid' \<and> a = a'"
proof -
  have "(gid @ sep) = (gid' @ sep) \<and> dec_string (unat a) = dec_string (unat a')"
    by (rule append_delim_eq [where c = "CHR '':''"]) (use assms colon_not_digit in simp_all)
  then show ?thesis using dec_string_inj [of "unat a" "unat a'"] by (simp add: unsigned_word_eqI)
qed

end
