(* ===== verification/Coordinator.thy ===== *)
theory Coordinator
  imports Worker_Registry Worker_Wire
begin

text \<open>
  \<open>Coordinator\<close> and \<open>Sidecar\<close> of \<open>lib.rs\<close>: the placement of tasks on workers or the local
  host, the record of their attempts, restarts, and the check of results.  An operation that
  awaits is cut where it waits: a first part under the lock of the records, the calls to
  workers and hosts, and a last part under the lock again.  The operations compose the parts;
  \<open>coord_step\<close> interleaves the parts of any number of operations.
\<close>

section \<open>State\<close>

record ('p, 'r, 'h, 'c, 's) Coordinator =
  co_origin_node :: NodeId
  co_registry :: "('c, 's) WorkerRegistry"
  co_records :: "(GlobalTaskId, ('p, 'r, 'h) GlobalTaskRecord) fmap"
  co_max_tasks :: nat
  co_max_fallback :: nat

text \<open>What the coordinator holds references to: the local host and the workers it can reach.\<close>

record ('e, 'p, 'r, 'h, 't) cluster_net =
  net_host :: "('e, 't, 'h) host_adapter"
  net_workers :: "(NodeId, ('e, 'p, 'r, 'h) remote_worker) fmap"

definition duplicate_task_error :: DistributedError where
  "duplicate_task_error = error_new AttemptStale ''global task id is already registered''"

definition task_capacity_error :: DistributedError where
  "task_capacity_error = error_new CapacityExceeded ''global task registry capacity exceeded''"

definition worker_unavailable :: DistributedError where
  "worker_unavailable = error_new WorkerUnavailable ''Worker is unavailable''"

definition unknown_task_error :: DistributedError where
  "unknown_task_error = error_new TaskUnknown ''global task is unknown''"

definition retry_unsafe_error :: DistributedError where
  "retry_unsafe_error = error_new RetryUnsafe ''task cannot be safely restarted after Worker disconnect''"

definition stale_attempt_error :: DistributedError where
  "stale_attempt_error = error_new AttemptStale ''remote result belongs to a stale attempt''"

definition disabled_error :: DistributedError where
  "disabled_error = error_new Disabled ''DistributedHost is disabled''"

definition not_clustered_error :: DistributedError where
  "not_clustered_error = error_new Disabled ''clustered DistributedHost is not enabled''"

definition coordinator_new ::
  "NodeId \<Rightarrow> ('c, 's) WorkerRegistry \<Rightarrow> (NodeId, 'w) fmap \<Rightarrow> nat \<Rightarrow> nat \<Rightarrow> ('p, 'r, 'h, 'c, 's) Coordinator result" where
  "coordinator_new origin registry workers max_tasks max_fallback =
     (let invalid_fallback_limit =
            (if bt_len workers = 0 then max_fallback \<noteq> 0 else max_fallback \<ge> bt_len workers)
      in if max_tasks = 0 \<or> invalid_fallback_limit then Inl invalid_config
         else Inr \<lparr>co_origin_node = origin, co_registry = registry, co_records = fmempty,
                   co_max_tasks = max_tasks, co_max_fallback = max_fallback\<rparr>)"

section \<open>Placement\<close>

definition retryable :: "DistributedErrorKind \<Rightarrow> bool" where
  "retryable k \<longleftrightarrow> k \<in> {WorkerRejected, WorkerUnavailable, TransportClosed}"

fun try_workers ::
  "('e, 'p, 'r, 'h, 't) cluster_net \<Rightarrow> ('p, 'r) RemoteTaskEnvelope \<Rightarrow> NodeId list \<Rightarrow> 'e
     \<Rightarrow> 'h RemoteAccepted option result \<times> 'e" where
  "try_workers net envelope [] e = (Inr None, e)"
| "try_workers net envelope (n # ns) e =
     (case fmlookup (net_workers net) n of
        None \<Rightarrow> try_workers net envelope ns e
      | Some w \<Rightarrow>
          (case worker_submit w envelope e of
             (Inr accepted, e) \<Rightarrow> (Inr (Some accepted), e)
           | (Inl err, e) \<Rightarrow>
               if retryable (err_kind err) then try_workers net envelope ns e else (Inl err, e)))"

definition envelope_for ::
  "('p, 'r, 'h, 'c, 's) Coordinator \<Rightarrow> GlobalTaskId \<Rightarrow> u32 \<Rightarrow> 'p \<Rightarrow> 'r \<Rightarrow> DirectDataRef list
     \<Rightarrow> ('p, 'r) RemoteTaskEnvelope" where
  "envelope_for c gid attempt p req inputs =
     \<lparr>rte_task_id = gid, rte_attempt = attempt, rte_origin_node = co_origin_node c,
      rte_requirements = req, rte_portable = p, rte_direct_inputs = inputs\<rparr>"

definition try_remote ::
  "('p, 'r, 'c, 's, 't) runtime_api \<Rightarrow> ('e, 'p, 'r, 'h, 't) cluster_net \<Rightarrow> ('p, 'r, 'h, 'c, 's) Coordinator
     \<Rightarrow> GlobalTaskId \<Rightarrow> u32 \<Rightarrow> 'p \<Rightarrow> 'r \<Rightarrow> DirectDataRef list \<Rightarrow> NodeId fset \<Rightarrow> 'e
     \<Rightarrow> 'h RemoteAccepted option result \<times> 'e" where
  "try_remote api net c gid attempt p req inputs excluded e =
     try_workers net (envelope_for c gid attempt p req inputs)
       (take (co_max_fallback c + 1) (worker_candidates api (co_registry c) p req excluded)) e"

definition submit_local ::
  "('p, 'r, 'c, 's, 't) runtime_api \<Rightarrow> ('e, 'p, 'r, 'h, 't) cluster_net \<Rightarrow> ('p, 'r, 'h, 'c, 's) Coordinator
     \<Rightarrow> GlobalTaskId \<Rightarrow> u32 \<Rightarrow> 'p \<Rightarrow> 'e \<Rightarrow> 'h TaskPlacement result \<times> 'e" where
  "submit_local api net c gid attempt p e =
     (case host_submit (net_host net) (attempt_batch_id gid attempt)
             (local_task api p (attempt_task_id gid attempt)) e of
        (Inl err, e) \<Rightarrow> (Inl err, e)
      | (Inr [], e) \<Rightarrow> (Inl (no_handle_error ''origin''), e)
      | (Inr (handle # _), e) \<Rightarrow>
          (Inr \<lparr>tp_kind = PlacedLocal, tp_task_id = gid, tp_attempt = attempt,
                tp_node_id = co_origin_node c, tp_local_handle = handle\<rparr>, e))"

definition remote_placement :: "GlobalTaskId \<Rightarrow> u32 \<Rightarrow> 'h RemoteAccepted \<Rightarrow> 'h TaskPlacement" where
  "remote_placement gid attempt accepted =
     \<lparr>tp_kind = PlacedRemote, tp_task_id = gid, tp_attempt = attempt,
      tp_node_id = ra_worker_node accepted, tp_local_handle = ra_local_handle accepted\<rparr>"

definition place_attempt ::
  "('p, 'r, 'c, 's, 't) runtime_api \<Rightarrow> ('e, 'p, 'r, 'h, 't) cluster_net \<Rightarrow> ('p, 'r, 'h, 'c, 's) Coordinator
     \<Rightarrow> GlobalTaskId \<Rightarrow> u32 \<Rightarrow> 'p \<Rightarrow> 'h RemoteAccepted option result \<times> 'e \<Rightarrow> 'h TaskPlacement result \<times> 'e" where
  "place_attempt api net c gid attempt p = (\<lambda>(remote, e).
     case remote of
       Inl err \<Rightarrow> (Inl err, e)
     | Inr (Some accepted) \<Rightarrow> (Inr (remote_placement gid attempt accepted), e)
     | Inr None \<Rightarrow> submit_local api net c gid attempt p e)"

section \<open>Submission\<close>

definition submit_check :: "GlobalTaskId \<Rightarrow> ('p, 'r, 'h, 'c, 's) Coordinator \<Rightarrow> unit result" where
  "submit_check gid c =
     (if bt_contains (co_records c) gid then Inl duplicate_task_error
      else if bt_len (co_records c) \<ge> co_max_tasks c then Inl task_capacity_error
      else Inr ())"

definition submit_dispatch ::
  "('p, 'r, 'c, 's, 't) runtime_api \<Rightarrow> ('e, 'p, 'r, 'h, 't) cluster_net \<Rightarrow> ('p, 'r, 'h, 'c, 's) Coordinator
     \<Rightarrow> GlobalTaskId \<Rightarrow> 'p \<Rightarrow> 'r \<Rightarrow> DirectDataRef list \<Rightarrow> 'e \<Rightarrow> 'h TaskPlacement result \<times> 'e" where
  "submit_dispatch api net c gid p req inputs e =
     place_attempt api net c gid 1 p
       (if mobility api p = LocalOnly then (Inr None, e) else try_remote api net c gid 1 p req inputs {||} e)"

definition placed_attempt :: "'h TaskPlacement \<Rightarrow> 'h AttemptRecord" where
  "placed_attempt placement =
     \<lparr>atr_attempt = tp_attempt placement, atr_node_id = tp_node_id placement,
      atr_local_handle = tp_local_handle placement, atr_active = True\<rparr>"

definition submit_record ::
  "GlobalTaskId \<Rightarrow> 'p \<Rightarrow> 'r \<Rightarrow> DirectDataRef list \<Rightarrow> 'h TaskPlacement
     \<Rightarrow> ('p, 'r, 'h, 'c, 's) Coordinator \<Rightarrow> ('p, 'r, 'h, 'c, 's) Coordinator" where
  "submit_record gid p req inputs placement c =
     c\<lparr>co_records := fmupd gid
         \<lparr>gtr_task_id = gid, gtr_portable = p, gtr_requirements = req, gtr_direct_inputs = inputs,
          gtr_attempts = [placed_attempt placement]\<rparr> (co_records c)\<rparr>"

definition coordinator_submit ::
  "('p, 'r, 'c, 's, 't) runtime_api \<Rightarrow> ('e, 'p, 'r, 'h, 't) cluster_net \<Rightarrow> GlobalTaskId \<Rightarrow> 'p \<Rightarrow> 'r
     \<Rightarrow> DirectDataRef list \<Rightarrow> ('p, 'r, 'h, 'c, 's) Coordinator \<times> 'e
     \<Rightarrow> 'h TaskPlacement result \<times> ('p, 'r, 'h, 'c, 's) Coordinator \<times> 'e" where
  "coordinator_submit api net gid p req inputs = (\<lambda>(c, e).
     case submit_check gid c of
       Inl err \<Rightarrow> (Inl err, c, e)
     | Inr _ \<Rightarrow>
         (case submit_dispatch api net c gid p req inputs e of
            (Inl err, e) \<Rightarrow> (Inl err, c, e)
          | (Inr placement, e) \<Rightarrow> (Inr placement, submit_record gid p req inputs placement c, e)))"

section \<open>Active attempts and results\<close>

definition coordinator_active_attempt ::
  "('p, 'r, 'h, 'c, 's) Coordinator \<Rightarrow> GlobalTaskId \<Rightarrow> 'h AttemptRecord result" where
  "coordinator_active_attempt c gid =
     ok_or unknown_task_error (Option.bind (fmlookup (co_records c) gid) record_active_attempt)"

definition coordinator_cancel ::
  "('e, 'p, 'r, 'h, 't) cluster_net \<Rightarrow> GlobalTaskId \<Rightarrow> ('p, 'r, 'h, 'c, 's) Coordinator \<times> 'e \<Rightarrow> unit result \<times> 'e" where
  "coordinator_cancel net gid = (\<lambda>(c, e).
     case coordinator_active_attempt c gid of
       Inl err \<Rightarrow> (Inl err, e)
     | Inr active \<Rightarrow>
         if atr_node_id active = co_origin_node c then host_cancel (net_host net) (atr_local_handle active) e
         else case fmlookup (net_workers net) (atr_node_id active) of
           None \<Rightarrow> (Inl worker_unavailable, e)
         | Some w \<Rightarrow> worker_cancel w (atr_local_handle active) e)"

definition coordinator_outcome ::
  "('e, 'p, 'r, 'h, 't) cluster_net \<Rightarrow> GlobalTaskId \<Rightarrow> ('p, 'r, 'h, 'c, 's) Coordinator \<times> 'e
     \<Rightarrow> LocalTaskOutcome option result \<times> 'e" where
  "coordinator_outcome net gid = (\<lambda>(c, e).
     case coordinator_active_attempt c gid of
       Inl err \<Rightarrow> (Inl err, e)
     | Inr active \<Rightarrow>
         if atr_node_id active = co_origin_node c then host_outcome (net_host net) (atr_local_handle active) e
         else case fmlookup (net_workers net) (atr_node_id active) of
           None \<Rightarrow> (Inl worker_unavailable, e)
         | Some w \<Rightarrow> worker_outcome w (atr_local_handle active) e)"

definition accept_result :: "('p, 'r, 'h, 'c, 's) Coordinator \<Rightarrow> RemoteResult \<Rightarrow> RemoteResult result" where
  "accept_result c result =
     bind_result (coordinator_active_attempt c (rs_task_id result)) (\<lambda>active.
       if atr_attempt active \<noteq> rs_attempt result \<or> atr_node_id active \<noteq> rs_worker_node result
       then Inl stale_attempt_error else Inr result)"

definition get_record ::
  "('p, 'r, 'h, 'c, 's) Coordinator \<Rightarrow> GlobalTaskId \<Rightarrow> ('p, 'r, 'h) GlobalTaskRecord option" where
  "get_record c gid = fmlookup (co_records c) gid"

section \<open>Restart\<close>

definition next_attempt :: "'h AttemptRecord list \<Rightarrow> u32" where
  "next_attempt attempts = (if attempts = [] then 1 else sat_add (atr_attempt (last attempts)) 1)"

definition restart_begin ::
  "('p, 'r, 'c, 's, 't) runtime_api \<Rightarrow> GlobalTaskId \<Rightarrow> ('p, 'r, 'h, 'c, 's) Coordinator
     \<Rightarrow> ('p, 'r, 'h) GlobalTaskRecord result" where
  "restart_begin api gid c =
     bind_result (ok_or unknown_task_error (fmlookup (co_records c) gid)) (\<lambda>r.
       if \<not> can_restart_from_input api (gtr_portable r) then Inl retry_unsafe_error else Inr r)"

definition restart_dispatch ::
  "('p, 'r, 'c, 's, 't) runtime_api \<Rightarrow> ('e, 'p, 'r, 'h, 't) cluster_net \<Rightarrow> ('p, 'r, 'h, 'c, 's) Coordinator
     \<Rightarrow> GlobalTaskId \<Rightarrow> ('p, 'r, 'h) GlobalTaskRecord \<Rightarrow> 'e \<Rightarrow> 'h TaskPlacement result \<times> 'e" where
  "restart_dispatch api net c gid r e =
     (let attempt = next_attempt (gtr_attempts r);
          excluded = fset_of_list (map atr_node_id (gtr_attempts r))
      in place_attempt api net c gid attempt (gtr_portable r)
           (try_remote api net c gid attempt (gtr_portable r) (gtr_requirements r) (gtr_direct_inputs r) excluded e))"

definition restart_record ::
  "GlobalTaskId \<Rightarrow> 'h TaskPlacement \<Rightarrow> ('p, 'r, 'h, 'c, 's) Coordinator
     \<Rightarrow> 'h TaskPlacement result \<times> ('p, 'r, 'h, 'c, 's) Coordinator" where
  "restart_record gid placement c =
     (case fmlookup (co_records c) gid of
        None \<Rightarrow> (Inl unknown_task_error, c)
      | Some current \<Rightarrow>
          (Inr placement,
           c\<lparr>co_records := fmupd gid
               (current\<lparr>gtr_attempts :=
                  map (\<lambda>a. a\<lparr>atr_active := False\<rparr>) (gtr_attempts current) @ [placed_attempt placement]\<rparr>)
               (co_records c)\<rparr>))"

definition restart_after_disconnect ::
  "('p, 'r, 'c, 's, 't) runtime_api \<Rightarrow> ('e, 'p, 'r, 'h, 't) cluster_net \<Rightarrow> GlobalTaskId
     \<Rightarrow> ('p, 'r, 'h, 'c, 's) Coordinator \<times> 'e
     \<Rightarrow> 'h TaskPlacement result \<times> ('p, 'r, 'h, 'c, 's) Coordinator \<times> 'e" where
  "restart_after_disconnect api net gid = (\<lambda>(c, e).
     case restart_begin api gid c of
       Inl err \<Rightarrow> (Inl err, c, e)
     | Inr r \<Rightarrow>
         (case restart_dispatch api net c gid r e of
            (Inl err, e) \<Rightarrow> (Inl err, c, e)
          | (Inr placement, e) \<Rightarrow> (case restart_record gid placement c of (res, c) \<Rightarrow> (res, c, e))))"

section \<open>Sidecar\<close>

record ('e, 't, 'h) Sidecar =
  sc_mode :: DistributionMode
  sc_host :: "('e, 't, 'h) host_adapter option"
  sc_has_coordinator :: bool

definition sidecar_disabled :: "('e, 't, 'h) Sidecar" where
  "sidecar_disabled = \<lparr>sc_mode = ModeDisabled, sc_host = None, sc_has_coordinator = False\<rparr>"

definition sidecar_local_observable :: "('e, 't, 'h) host_adapter \<Rightarrow> ('e, 't, 'h) Sidecar" where
  "sidecar_local_observable host = \<lparr>sc_mode = LocalObservable, sc_host = Some host, sc_has_coordinator = False\<rparr>"

definition sidecar_clustered :: "('e, 't, 'h) host_adapter \<Rightarrow> ('e, 't, 'h) Sidecar" where
  "sidecar_clustered host = \<lparr>sc_mode = Clustered, sc_host = Some host, sc_has_coordinator = True\<rparr>"

definition on_host :: "('e, 't, 'h) Sidecar \<Rightarrow> (('e, 't, 'h) host_adapter \<Rightarrow> 'e \<Rightarrow> 'a result \<times> 'e) \<Rightarrow> 'e \<Rightarrow> 'a result \<times> 'e" where
  "on_host sc call e = (case sc_host sc of None \<Rightarrow> (Inl disabled_error, e) | Some host \<Rightarrow> call host e)"

definition sidecar_health :: "('e, 't, 'h) Sidecar \<Rightarrow> 'e \<Rightarrow> string result \<times> 'e" where
  "sidecar_health sc = on_host sc host_health"

definition sidecar_task_snapshots :: "('e, 't, 'h) Sidecar \<Rightarrow> 'e \<Rightarrow> LocalTaskSnapshot list result \<times> 'e" where
  "sidecar_task_snapshots sc = on_host sc host_snapshots"

definition sidecar_begin_local_drain :: "('e, 't, 'h) Sidecar \<Rightarrow> 'e \<Rightarrow> unit result \<times> 'e" where
  "sidecar_begin_local_drain sc = on_host sc host_begin_drain"

definition sidecar_coordinator :: "('e, 't, 'h) Sidecar \<Rightarrow> unit result" where
  "sidecar_coordinator sc = (if sc_has_coordinator sc then Inr () else Inl not_clustered_error)"

section \<open>Interleaving\<close>

text \<open>
  An operation in flight.  The registry of workers is read once, when the candidates are
  chosen, and no other shared state is read between the two locks, so the calls to workers
  and hosts are one step of an operation.
\<close>

datatype ('p, 'r, 'h) in_flight =
    CheckedSubmit GlobalTaskId 'p 'r "DirectDataRef list"
  | PlacedSubmit GlobalTaskId 'p 'r "DirectDataRef list" "'h TaskPlacement"
  | BegunRestart GlobalTaskId "('p, 'r, 'h) GlobalTaskRecord"
  | PlacedRestart GlobalTaskId "'h TaskPlacement"

type_synonym ('p, 'r, 'h, 'c, 's, 'e) coord_system =
  "('p, 'r, 'h, 'c, 's) Coordinator \<times> 'e \<times> ('p, 'r, 'h) in_flight list"

definition forget :: "nat \<Rightarrow> 'a list \<Rightarrow> 'a list" where
  "forget i xs = take i xs @ drop (Suc i) xs"

inductive coord_step ::
  "('p, 'r, 'c, 's, 't) runtime_api \<Rightarrow> ('e, 'p, 'r, 'h, 't) cluster_net
     \<Rightarrow> ('p, 'r, 'h, 'c, 's, 'e) coord_system \<Rightarrow> ('p, 'r, 'h, 'c, 's, 'e) coord_system \<Rightarrow> bool"
  for api net where
  step_submit_check:
    "submit_check gid c = Inr () \<Longrightarrow> coord_step api net (c, e, fs) (c, e, fs @ [CheckedSubmit gid p req inputs])"
| step_submit_placed:
    "i < length fs \<Longrightarrow> fs ! i = CheckedSubmit gid p req inputs
       \<Longrightarrow> submit_dispatch api net c gid p req inputs e = (Inr placement, e')
       \<Longrightarrow> coord_step api net (c, e, fs) (c, e', fs[i := PlacedSubmit gid p req inputs placement])"
| step_submit_failed:
    "i < length fs \<Longrightarrow> fs ! i = CheckedSubmit gid p req inputs
       \<Longrightarrow> submit_dispatch api net c gid p req inputs e = (Inl err, e')
       \<Longrightarrow> coord_step api net (c, e, fs) (c, e', forget i fs)"
| step_submit_record:
    "i < length fs \<Longrightarrow> fs ! i = PlacedSubmit gid p req inputs placement
       \<Longrightarrow> coord_step api net (c, e, fs) (submit_record gid p req inputs placement c, e, forget i fs)"
| step_restart_begin:
    "restart_begin api gid c = Inr r \<Longrightarrow> coord_step api net (c, e, fs) (c, e, fs @ [BegunRestart gid r])"
| step_restart_placed:
    "i < length fs \<Longrightarrow> fs ! i = BegunRestart gid r
       \<Longrightarrow> restart_dispatch api net c gid r e = (Inr placement, e')
       \<Longrightarrow> coord_step api net (c, e, fs) (c, e', fs[i := PlacedRestart gid placement])"
| step_restart_failed:
    "i < length fs \<Longrightarrow> fs ! i = BegunRestart gid r
       \<Longrightarrow> restart_dispatch api net c gid r e = (Inl err, e')
       \<Longrightarrow> coord_step api net (c, e, fs) (c, e', forget i fs)"
| step_restart_record:
    "i < length fs \<Longrightarrow> fs ! i = PlacedRestart gid placement
       \<Longrightarrow> coord_step api net (c, e, fs) (snd (restart_record gid placement c), e, forget i fs)"
| step_registry:
    "coord_step api net (c, e, fs) (c\<lparr>co_registry := registry_message_step m (co_registry c)\<rparr>, e, fs)"

definition coord_reaches ::
  "('p, 'r, 'c, 's, 't) runtime_api \<Rightarrow> ('e, 'p, 'r, 'h, 't) cluster_net
     \<Rightarrow> ('p, 'r, 'h, 'c, 's, 'e) coord_system \<Rightarrow> ('p, 'r, 'h, 'c, 's, 'e) coord_system \<Rightarrow> bool" where
  "coord_reaches api net = (coord_step api net)\<^sup>*\<^sup>*"

end
