(* ===== verification/Coordinator_Properties.thy ===== *)
theory Coordinator_Properties
  imports Coordinator
begin

text \<open>
  What the coordinator keeps: the refinement of a worker by its connection, the choice of the
  first willing worker, the fencing of superseded attempts along sequential operations, and
  what is left of it when operations interleave.
\<close>

section \<open>The first willing worker\<close>

text \<open>The world after all of the workers refused in turn; \<open>None\<close> when one of them did not.\<close>

fun all_refuse ::
  "('e, 'p, 'r, 'h, 't) cluster_net \<Rightarrow> ('p, 'r) RemoteTaskEnvelope \<Rightarrow> NodeId list \<Rightarrow> 'e \<Rightarrow> 'e option" where
  "all_refuse net envelope [] e = Some e"
| "all_refuse net envelope (n # ns) e =
     (case fmlookup (net_workers net) n of
        None \<Rightarrow> all_refuse net envelope ns e
      | Some w \<Rightarrow>
          (case worker_submit w envelope e of
             (Inr _, _) \<Rightarrow> None
           | (Inl err, e) \<Rightarrow> if retryable (err_kind err) then all_refuse net envelope ns e else None))"

lemma try_workers_None:
  "try_workers net envelope ns e = (Inr None, e') \<Longrightarrow> all_refuse net envelope ns e = Some e'"
  by (induction ns arbitrary: e) (auto split: option.splits prod.splits sum.splits if_splits)

lemma try_workers_Some:
  assumes "try_workers net envelope ns e = (Inr (Some accepted), e')"
  shows "\<exists>pre n post w e1. ns = pre @ n # post \<and> all_refuse net envelope pre e = Some e1
    \<and> fmlookup (net_workers net) n = Some w \<and> worker_submit w envelope e1 = (Inr accepted, e')"
  using assms
proof (induction ns arbitrary: e)
  case (Cons n ns)
  have skip: ?case if "all_refuse net envelope [n] e = Some e1" "try_workers net envelope ns e1 = (Inr (Some accepted), e')" for e1
  proof -
    note facts = that
    obtain pre m post w e2 where *: "ns = pre @ m # post" "all_refuse net envelope pre e1 = Some e2"
      "fmlookup (net_workers net) m = Some w" "worker_submit w envelope e2 = (Inr accepted, e')"
      using Cons.IH [OF facts(2)] by blast
    have "all_refuse net envelope (n # pre) e = Some e2"
      using facts(1) *(2) by (auto split: option.splits prod.splits sum.splits if_splits)
    then have "n # ns = (n # pre) @ m # post \<and> all_refuse net envelope (n # pre) e = Some e2
        \<and> fmlookup (net_workers net) m = Some w \<and> worker_submit w envelope e2 = (Inr accepted, e')" using * by simp
    then show ?thesis by blast
  qed
  show ?case
  proof (cases "fmlookup (net_workers net) n")
    case None
    then show ?thesis using skip [of e] Cons.prems by simp
  next
    case (Some w)
    obtain res e1 where run: "worker_submit w envelope e = (res, e1)" by fastforce
    show ?thesis
    proof (cases res)
      case (Inl err)
      then show ?thesis using skip [of e1] Some run Cons.prems by (auto split: if_splits)
    next
      case (Inr a)
      then have "worker_submit w envelope e = (Inr accepted, e')" using Some run Cons.prems by simp
      then have "n # ns = [] @ n # ns \<and> all_refuse net envelope [] e = Some e
          \<and> fmlookup (net_workers net) n = Some w \<and> worker_submit w envelope e = (Inr accepted, e')" using Some by simp
      then show ?thesis by blast
    qed
  qed
qed simp

section \<open>Clusters of honest workers\<close>

locale honest_cluster =
  fixes net :: "('e, 'p, 'r, 'h, 't) cluster_net"
  assumes honest: "fmlookup (net_workers net) n = Some w \<Longrightarrow> answers_honestly n w"
begin

lemma try_remote_chosen:
  assumes "try_remote api net c gid attempt p req inputs excluded e = (Inr (Some accepted), e')"
  shows "\<exists>pre post e1.
      take (co_max_fallback c + 1) (worker_candidates api (co_registry c) p req excluded)
        = pre @ ra_worker_node accepted # post
      \<and> all_refuse net (envelope_for c gid attempt p req inputs) pre e = Some e1
      \<and> ra_task_id accepted = gid \<and> ra_attempt accepted = attempt"
proof -
  obtain pre n post w e1 where *: "take (co_max_fallback c + 1) (worker_candidates api (co_registry c) p req excluded) = pre @ n # post"
    "all_refuse net (envelope_for c gid attempt p req inputs) pre e = Some e1"
    "fmlookup (net_workers net) n = Some w"
    "worker_submit w (envelope_for c gid attempt p req inputs) e1 = (Inr accepted, e')"
    using try_workers_Some [OF assms [unfolded try_remote_def]] by blast
  show ?thesis
    using answers_honestlyD [OF honest [OF *(3)] *(4)] *(1,2) by (auto simp: envelope_for_def)
qed

text \<open>The attempt that a placement stands for, and the workers that were asked before it.\<close>

lemma place_attempt_chosen:
  assumes "place_attempt api net c gid attempt p
      (if local then (Inr None, e) else try_remote api net c gid attempt p req inputs excluded e) = (Inr placement, e')"
  shows "tp_task_id placement = gid \<and> tp_attempt placement = attempt \<and>
    (case tp_kind placement of
       PlacedRemote \<Rightarrow> \<not> local \<and> (\<exists>pre post e1.
         take (co_max_fallback c + 1) (worker_candidates api (co_registry c) p req excluded)
           = pre @ tp_node_id placement # post
         \<and> all_refuse net (envelope_for c gid attempt p req inputs) pre e = Some e1)
     | PlacedLocal \<Rightarrow> tp_node_id placement = co_origin_node c
         \<and> (local \<or> all_refuse net (envelope_for c gid attempt p req inputs)
              (take (co_max_fallback c + 1) (worker_candidates api (co_registry c) p req excluded)) e \<noteq> None))"
proof -
  have local_case: "tp_task_id placement = gid \<and> tp_attempt placement = attempt
      \<and> tp_kind placement = PlacedLocal \<and> tp_node_id placement = co_origin_node c"
    if "submit_local api net c gid attempt p e1 = (Inr placement, e')" for e1
    using that by (auto simp: submit_local_def split: prod.splits sum.splits list.splits)
  show ?thesis
  proof (cases "local")
    case True
    then show ?thesis using assms local_case [of e] by (simp add: place_attempt_def)
  next
    case False
    then obtain remote e1 where run: "try_remote api net c gid attempt p req inputs excluded e = (Inr remote, e1)"
      using assms by (auto simp: place_attempt_def split: prod.splits sum.splits)
    show ?thesis
    proof (cases remote)
      case None
      have "all_refuse net (envelope_for c gid attempt p req inputs)
          (take (co_max_fallback c + 1) (worker_candidates api (co_registry c) p req excluded)) e = Some e1"
        using try_workers_None [OF run [unfolded None try_remote_def]] .
      then show ?thesis using False None run assms local_case [of e1] by (simp add: place_attempt_def)
    next
      case (Some accepted)
      then have "placement = remote_placement gid attempt accepted"
        using False run assms by (simp add: place_attempt_def)
      then show ?thesis
        using False try_remote_chosen [OF run [unfolded Some]] by (auto simp: remote_placement_def)
    qed
  qed
qed

end

text \<open>A cluster of endpoints in one process, and one whose workers are reached over their connections.\<close>

definition endpoint_call ::
  "NodeId \<Rightarrow> (WorkerEndpointState \<times> 'e \<Rightarrow> 'a \<times> WorkerEndpointState \<times> 'e)
     \<Rightarrow> (NodeId \<Rightarrow> WorkerEndpointState) \<times> 'e \<Rightarrow> 'a \<times> (NodeId \<Rightarrow> WorkerEndpointState) \<times> 'e" where
  "endpoint_call n call = (\<lambda>(eps, e). case call (eps n, e) of (r, s, e) \<Rightarrow> (r, eps(n := s), e))"

definition member_worker ::
  "('p, 'r, 'c, 's, 't) runtime_api \<Rightarrow> (NodeId \<Rightarrow> ('e, 't, 'h) host_adapter) \<Rightarrow> (NodeId \<Rightarrow> 'e resource_localizer)
     \<Rightarrow> NodeId \<Rightarrow> ((NodeId \<Rightarrow> WorkerEndpointState) \<times> 'e, 'p, 'r, 'h) remote_worker" where
  "member_worker api hosts localizers n =
     (let w = endpoint_worker api n (hosts n) (localizers n) in
      \<lparr>worker_submit = \<lambda>envelope. endpoint_call n (worker_submit w envelope),
       worker_cancel = \<lambda>h. endpoint_call n (worker_cancel w h),
       worker_outcome = \<lambda>h. endpoint_call n (worker_outcome w h)\<rparr>)"

definition endpoint_cluster ::
  "('p, 'r, 'c, 's, 't) runtime_api \<Rightarrow> ((NodeId \<Rightarrow> WorkerEndpointState) \<times> 'e, 't, 'h) host_adapter
     \<Rightarrow> (NodeId \<Rightarrow> ('e, 't, 'h) host_adapter) \<Rightarrow> (NodeId \<Rightarrow> 'e resource_localizer) \<Rightarrow> NodeId list
     \<Rightarrow> ((NodeId \<Rightarrow> WorkerEndpointState) \<times> 'e, 'p, 'r, 'h, 't) cluster_net" where
  "endpoint_cluster api host hosts localizers nodes =
     \<lparr>net_host = host, net_workers = fmap_of_list (map (\<lambda>n. (n, member_worker api hosts localizers n)) nodes)\<rparr>"

lemma fmap_of_list_pairs: "fmlookup (fmap_of_list (map (\<lambda>n. (n, f n)) ns)) n = (if n \<in> set ns then Some (f n) else None)"
  by (induction ns) (auto simp: fmlookup_of_list)

lemma member_worker_honest: "answers_honestly n (member_worker api hosts localizers n)"
  unfolding answers_honestly_def member_worker_def endpoint_call_def Let_def
  using answers_honestlyD [OF endpoint_honest [of n api "hosts n" "localizers n"]] by (auto split: prod.splits)

interpretation endpoints: honest_cluster "endpoint_cluster api host hosts localizers nodes" for api host hosts localizers nodes
  by unfold_locales (auto simp: endpoint_cluster_def fmap_of_list_pairs member_worker_honest split: if_splits)

section \<open>The active attempt\<close>

definition task_record_ok :: "GlobalTaskId \<Rightarrow> ('p, 'r, 'h) GlobalTaskRecord \<Rightarrow> bool" where
  "task_record_ok gid r \<longleftrightarrow>
     gtr_task_id r = gid \<and> gtr_attempts r \<noteq> [] \<and> atr_active (last (gtr_attempts r))
     \<and> (\<forall>a \<in> set (butlast (gtr_attempts r)). \<not> atr_active a)"

definition coordinator_ok :: "('p, 'r, 'h, 'c, 's) Coordinator \<Rightarrow> bool" where
  "coordinator_ok c \<longleftrightarrow> (\<forall>gid r. fmlookup (co_records c) gid = Some r \<longrightarrow> task_record_ok gid r)"

lemma active_is_last: "task_record_ok gid r \<Longrightarrow> record_active_attempt r = Some (last (gtr_attempts r))"
  by (cases "gtr_attempts r" rule: rev_cases) (simp_all add: task_record_ok_def record_active_attempt_def)

lemma coordinator_okD: "coordinator_ok c \<Longrightarrow> fmlookup (co_records c) gid = Some r \<Longrightarrow> task_record_ok gid r"
  by (simp add: coordinator_ok_def)

lemma coordinator_active:
  "coordinator_ok c \<Longrightarrow> coordinator_active_attempt c gid =
     (case fmlookup (co_records c) gid of None \<Rightarrow> Inl unknown_task_error | Some r \<Rightarrow> Inr (last (gtr_attempts r)))"
  by (auto simp: coordinator_active_attempt_def active_is_last dest: coordinator_okD split: option.splits)

lemma submit_record_ok: "coordinator_ok c \<Longrightarrow> coordinator_ok (submit_record gid p req inputs placement c)"
  by (auto simp: coordinator_ok_def submit_record_def task_record_ok_def placed_attempt_def)

lemma restart_record_ok: "coordinator_ok c \<Longrightarrow> coordinator_ok (snd (restart_record gid placement c))"
  by (auto simp: coordinator_ok_def restart_record_def task_record_ok_def placed_attempt_def split: option.splits)

lemma coordinator_ok_registry [simp]: "coordinator_ok (c\<lparr>co_registry := r\<rparr>) \<longleftrightarrow> coordinator_ok c"
  by (simp add: coordinator_ok_def)

lemma coord_step_ok: "coord_step api net s s' \<Longrightarrow> coordinator_ok (fst s) \<Longrightarrow> coordinator_ok (fst s')"
  by (induction rule: coord_step.induct) (simp_all add: submit_record_ok restart_record_ok)

lemma coord_reaches_ok: "coord_reaches api net s s' \<Longrightarrow> coordinator_ok (fst s) \<Longrightarrow> coordinator_ok (fst s')"
  unfolding coord_reaches_def by (induction rule: rtranclp_induct) (simp_all add: coord_step_ok)

lemma coordinator_new_ok: "coordinator_new origin registry workers m k = Inr c \<Longrightarrow>
    coordinator_ok c \<and> co_records c = fmempty \<and> co_max_tasks c = m \<and> 0 < m"
  by (auto simp: coordinator_new_def coordinator_ok_def Let_def split: if_splits)

section \<open>Sequential operations\<close>

datatype ('p, 'r, 'c, 's) coord_op =
    SubmitTask GlobalTaskId 'p 'r "DirectDataRef list"
  | RestartTask GlobalTaskId
  | RegistryUpdate "('c, 's) registry_message"

fun coord_run_step ::
  "('p, 'r, 'c, 's, 't) runtime_api \<Rightarrow> ('e, 'p, 'r, 'h, 't) cluster_net \<Rightarrow> ('p, 'r, 'c, 's) coord_op
     \<Rightarrow> ('p, 'r, 'h, 'c, 's) Coordinator \<times> 'e \<Rightarrow> ('p, 'r, 'h, 'c, 's) Coordinator \<times> 'e" where
  "coord_run_step api net (SubmitTask gid p req inputs) s = snd (coordinator_submit api net gid p req inputs s)"
| "coord_run_step api net (RestartTask gid) s = snd (restart_after_disconnect api net gid s)"
| "coord_run_step api net (RegistryUpdate m) (c, e) = (c\<lparr>co_registry := registry_message_step m (co_registry c)\<rparr>, e)"

definition attempts_numbered :: "'h AttemptRecord list \<Rightarrow> bool" where
  "attempts_numbered as \<longleftrightarrow> (\<forall>i < length as. unat (atr_attempt (as ! i)) = min (Suc i) (2 ^ 32 - 1))"

definition coordinator_numbered :: "('p, 'r, 'h, 'c, 's) Coordinator \<Rightarrow> bool" where
  "coordinator_numbered c \<longleftrightarrow>
     bt_len (co_records c) \<le> co_max_tasks c
     \<and> (\<forall>gid r. fmlookup (co_records c) gid = Some r \<longrightarrow> attempts_numbered (gtr_attempts r))"

lemma attempts_numbered_next:
  assumes "attempts_numbered as" and "atr_attempt a = next_attempt as"
  shows "attempts_numbered (map (\<lambda>a. a\<lparr>atr_active := False\<rparr>) as @ [a])"
proof -
  have "unat (atr_attempt a) = min (Suc (length as)) (2 ^ 32 - 1)"
    using assms by (cases as rule: rev_cases) (auto simp: next_attempt_def attempts_numbered_def nth_append unat_sat_add)
  then show ?thesis using assms(1) by (auto simp: attempts_numbered_def nth_append less_Suc_eq)
qed

lemma place_attempt_number:
  "place_attempt api net c gid attempt p remote = (Inr placement, e') \<Longrightarrow> tp_attempt placement = attempt"
  by (auto simp: place_attempt_def submit_local_def remote_placement_def split: prod.splits sum.splits option.splits list.splits)

lemma submit_run_numbered:
  assumes "coordinator_numbered c"
  shows "coordinator_numbered (fst (snd (coordinator_submit api net gid p req inputs (c, e))))"
proof (cases "submit_check gid c")
  case (Inr u)
  obtain res e' where run: "submit_dispatch api net c gid p req inputs e = (res, e')" by fastforce
  show ?thesis
  proof (cases res)
    case (Inr placement)
    have "tp_attempt placement = 1" by (rule place_attempt_number [OF run [unfolded Inr submit_dispatch_def]])
    then show ?thesis
      using assms \<open>submit_check gid c = Inr u\<close> run Inr
      by (auto simp: coordinator_submit_def submit_check_def submit_record_def coordinator_numbered_def attempts_numbered_def
          placed_attempt_def bt_len_upd split: if_splits)
  qed (use assms Inr run in \<open>simp add: coordinator_submit_def\<close>)
qed (use assms in \<open>simp add: coordinator_submit_def\<close>)

lemma restart_run_numbered:
  assumes "coordinator_numbered c"
  shows "coordinator_numbered (fst (snd (restart_after_disconnect api net gid (c, e))))"
proof (cases "restart_begin api gid c")
  case (Inr r)
  obtain res e' where run: "restart_dispatch api net c gid r e = (res, e')" by fastforce
  have r: "fmlookup (co_records c) gid = Some r" using Inr by (auto simp: restart_begin_def bind_result_Inr split: if_splits)
  show ?thesis
  proof (cases res)
    case (Inr placement)
    have "atr_attempt (placed_attempt placement) = next_attempt (gtr_attempts r)"
      using place_attempt_number [OF run [unfolded Inr restart_dispatch_def Let_def]] by (simp add: placed_attempt_def)
    then show ?thesis
      using assms \<open>restart_begin api gid c = Inr r\<close> run Inr r
      by (auto simp: restart_after_disconnect_def restart_record_def coordinator_numbered_def attempts_numbered_next bt_len_upd
          bt_contains_def)
  qed (use assms Inr run in \<open>simp add: restart_after_disconnect_def\<close>)
qed (use assms in \<open>simp add: restart_after_disconnect_def\<close>)

lemma submit_run_ok: "coordinator_ok c \<Longrightarrow> coordinator_ok (fst (snd (coordinator_submit api net gid p req inputs (c, e))))"
  by (auto simp: coordinator_submit_def submit_record_ok split: sum.splits prod.splits)

lemma restart_run_ok: "coordinator_ok c \<Longrightarrow> coordinator_ok (fst (snd (restart_after_disconnect api net gid (c, e))))"
  using restart_record_ok [of c gid]
  by (auto simp: restart_after_disconnect_def split: sum.splits prod.splits) (metis snd_conv)

lemma coord_run_step_ok:
  "coordinator_ok (fst s) \<and> coordinator_numbered (fst s) \<Longrightarrow>
     coordinator_ok (fst (coord_run_step api net opn s)) \<and> coordinator_numbered (fst (coord_run_step api net opn s))"
  by (cases s; cases opn)
    (simp_all add: submit_run_ok restart_run_ok submit_run_numbered restart_run_numbered, simp add: coordinator_numbered_def)

lemma coord_run_ok:
  "coordinator_ok (fst s) \<and> coordinator_numbered (fst s) \<Longrightarrow>
     coordinator_ok (fst (fold (coord_run_step api net) ops s)) \<and> coordinator_numbered (fst (fold (coord_run_step api net) ops s))"
  by (induction ops arbitrary: s) (simp_all add: coord_run_step_ok)

section \<open>Properties\<close>

text \<open>
  Claim C11. A submission that succeeds is for a new task within the bound, asks the eligible
  workers in the order of their ids, at most one more than the fallback limit, and goes to the
  first that does not refuse; it stays on the local host only when the task may not leave it
  or all of them refused.  The task is then recorded with that one attempt.
\<close>

theorem submit_first_willing:
  assumes "honest_cluster net" and "coordinator_submit api net gid p req inputs (c, e) = (Inr placement, c', e')"
  shows "get_record c gid = None \<and> bt_len (co_records c) < co_max_tasks c
    \<and> map_option gtr_attempts (get_record c' gid) = Some [placed_attempt placement]
    \<and> tp_task_id placement = gid \<and> tp_attempt placement = 1
    \<and> (let asked = take (co_max_fallback c + 1) (worker_candidates api (co_registry c) p req {||});
           refuse = all_refuse net (envelope_for c gid 1 p req inputs)
       in case tp_kind placement of
            PlacedRemote \<Rightarrow> mobility api p \<noteq> LocalOnly
              \<and> (\<exists>pre post. asked = pre @ tp_node_id placement # post \<and> refuse pre e \<noteq> None)
          | PlacedLocal \<Rightarrow> tp_node_id placement = co_origin_node c
              \<and> (mobility api p = LocalOnly \<or> refuse asked e \<noteq> None))"
proof -
  have check: "submit_check gid c = Inr ()" and run: "submit_dispatch api net c gid p req inputs e = (Inr placement, e')"
    and c': "c' = submit_record gid p req inputs placement c"
    using assms(2) by (auto simp: coordinator_submit_def split: sum.splits prod.splits)
  have "get_record c gid = None \<and> bt_len (co_records c) < co_max_tasks c"
    using check by (auto simp: submit_check_def get_record_def bt_contains_def split: if_splits)
  moreover have "map_option gtr_attempts (get_record c' gid) = Some [placed_attempt placement]"
    by (simp add: c' submit_record_def get_record_def)
  ultimately show ?thesis
    using honest_cluster.place_attempt_chosen [OF assms(1) run [unfolded submit_dispatch_def]]
    by (cases "tp_kind placement") (auto simp: Let_def)
qed

text \<open>
  Claim C12. A restart that succeeds is for a task that may be restarted from its input.  It asks
  the eligible workers that no earlier attempt ran on, in the order of their ids, at most one more
  than the fallback limit, and goes to the first that does not refuse, or to the local host
  when all of them refused, with the next attempt number; the earlier attempts are inactive
  afterwards.
\<close>

theorem restart_avoids_failed_workers:
  assumes "honest_cluster net" and "worker_registry_ok (co_registry c)"
    and "restart_after_disconnect api net gid (c, e) = (Inr placement, c', e')"
  shows "\<exists>r r'. get_record c gid = Some r \<and> get_record c' gid = Some r'
    \<and> can_restart_from_input api (gtr_portable r) \<and> tp_attempt placement = next_attempt (gtr_attempts r)
    \<and> map atr_attempt (gtr_attempts r') = map atr_attempt (gtr_attempts r) @ [tp_attempt placement]
    \<and> filter atr_active (gtr_attempts r') = [placed_attempt placement]
    \<and> (let asked = take (co_max_fallback c + 1) (worker_candidates api (co_registry c) (gtr_portable r)
              (gtr_requirements r) (fset_of_list (map atr_node_id (gtr_attempts r))));
           refuse = all_refuse net (envelope_for c gid (tp_attempt placement) (gtr_portable r) (gtr_requirements r) (gtr_direct_inputs r))
       in case tp_kind placement of
         PlacedRemote \<Rightarrow> tp_node_id placement \<notin> atr_node_id ` set (gtr_attempts r)
           \<and> (\<exists>w. get_worker (co_registry c) (tp_node_id placement) = Some w
                 \<and> remote_eligible api w (gtr_portable r) (gtr_requirements r))
           \<and> (\<exists>pre post. asked = pre @ tp_node_id placement # post \<and> refuse pre e \<noteq> None)
       | PlacedLocal \<Rightarrow> tp_node_id placement = co_origin_node c \<and> refuse asked e \<noteq> None)"
proof -
  obtain r where begun: "restart_begin api gid c = Inr r" and run: "restart_dispatch api net c gid r e = (Inr placement, e')"
    and c': "restart_record gid placement c = (Inr placement, c')"
    using assms(3) by (auto simp: restart_after_disconnect_def restart_record_def split: sum.splits prod.splits option.splits)
  have r: "fmlookup (co_records c) gid = Some r" "can_restart_from_input api (gtr_portable r)"
    using begun by (auto simp: restart_begin_def bind_result_Inr split: if_splits)
  let ?ex = "fset_of_list (map atr_node_id (gtr_attempts r))"
  let ?cands = "worker_candidates api (co_registry c) (gtr_portable r) (gtr_requirements r) ?ex"
  note chosen = honest_cluster.place_attempt_chosen [OF assms(1), where local = False, simplified,
      OF run [unfolded restart_dispatch_def Let_def]]
  have cand: "tp_node_id placement \<in> set ?cands" if "tp_kind placement = PlacedRemote"
    using chosen that by (auto dest!: arg_cong [where f = set] dest: in_set_takeD)
  have n: "tp_attempt placement = next_attempt (gtr_attempts r)" using chosen by simp
  have "filter atr_active (map (\<lambda>a. a\<lparr>atr_active := False\<rparr>) as) = []" for as :: "'d AttemptRecord list"
    by (induction as) auto
  then show ?thesis
    using c' r chosen [folded n] n cand by (cases "tp_kind placement")
      (auto simp: restart_record_def get_record_def get_worker_def placed_attempt_def worker_candidates_facts(1) [OF assms(2)]
        fset_of_list_elem Let_def)
qed

text \<open>
  Claim C9. However operations interleave, whatever workers and hosts answer, exactly the last
  attempt of a task is active: results, cancellations and outcomes go by it alone.
\<close>

theorem one_active_attempt:
  assumes "coordinator_new origin registry workers m k = Inr c0" and "coord_reaches api net (c0, e0, []) (c, e, fs)"
    and "get_record c gid = Some r"
  shows "gtr_attempts r \<noteq> [] \<and> filter atr_active (gtr_attempts r) = [last (gtr_attempts r)]
    \<and> coordinator_active_attempt c gid = Inr (last (gtr_attempts r))
    \<and> (accept_result c result = Inr result \<and> rs_task_id result = gid \<longrightarrow>
         rs_attempt result = atr_attempt (last (gtr_attempts r)) \<and> rs_worker_node result = atr_node_id (last (gtr_attempts r)))"
proof -
  have ok: "coordinator_ok c" using coord_reaches_ok [OF assms(2)] coordinator_new_ok [OF assms(1)] by simp
  have r: "fmlookup (co_records c) gid = Some r" using assms(3) by (simp add: get_record_def)
  have "coordinator_active_attempt c gid = Inr (last (gtr_attempts r))" using coordinator_active [OF ok] r by simp
  moreover have "gtr_attempts r \<noteq> [] \<and> filter atr_active (gtr_attempts r) = [last (gtr_attempts r)]"
    using coordinator_okD [OF ok r]
    by (cases "gtr_attempts r" rule: rev_cases) (auto simp: task_record_ok_def filter_empty_conv)
  ultimately show ?thesis by (auto simp: accept_result_def bind_result_Inr split: if_splits)
qed

text \<open>
  Claim C10. Along operations that run one after the other, the attempts of a task are numbered
  from one without gaps, up to the largest number, the bound on tasks holds, and a result of
  an attempt that was superseded is refused as stale.
\<close>

theorem superseded_results_refused:
  assumes "coordinator_new origin registry workers m k = Inr c0"
    and "fold (coord_run_step api net) ops (c0, e0) = (c, e)"
    and "get_record c gid = Some r" and "Suc i < length (gtr_attempts r)" and "Suc i < 2 ^ 32 - 1"
    and "rs_task_id result = gid" and "rs_attempt result = atr_attempt (gtr_attempts r ! i)"
  shows "unat (rs_attempt result) = Suc i \<and> accept_result c result = Inl stale_attempt_error
    \<and> bt_len (co_records c) \<le> co_max_tasks c"
proof -
  have "coordinator_ok c0 \<and> coordinator_numbered c0"
    using coordinator_new_ok [OF assms(1)] by (simp add: coordinator_numbered_def)
  then have ok: "coordinator_ok c" and num: "coordinator_numbered c"
    using coord_run_ok [of "(c0, e0)" api net ops] assms(2) by simp_all
  have r: "fmlookup (co_records c) gid = Some r" using assms(3) by (simp add: get_record_def)
  have numbered: "unat (atr_attempt (gtr_attempts r ! j)) = min (Suc j) (2 ^ 32 - 1)" if "j < length (gtr_attempts r)" for j
    using num r that by (auto simp: coordinator_numbered_def attempts_numbered_def)
  have "unat (atr_attempt (last (gtr_attempts r))) = min (length (gtr_attempts r)) (2 ^ 32 - 1)"
    using numbered [of "length (gtr_attempts r) - 1"] assms(4) last_conv_nth [of "gtr_attempts r"] by fastforce
  moreover have i: "unat (rs_attempt result) = Suc i" using numbered [of i] assms(4,5,7) by simp
  ultimately have "atr_attempt (last (gtr_attempts r)) \<noteq> rs_attempt result" using assms(4,5) by auto
  then show ?thesis
    using i num coordinator_active [OF ok, of gid] r assms(6) by (simp add: accept_result_def coordinator_numbered_def)
qed

section \<open>The wire\<close>

text \<open>
  Claim C13. A worker reached over its connection behaves as the worker itself: when the request
  and the reply fit into a control frame, a submission, a cancellation and a query run exactly
  once on the worker and return its answer, of which an error keeps the kind; a request that
  does not fit never reaches it.
\<close>

theorem wire_refines_worker:
  assumes "serde_ok qsd" and "serde_ok rsd" and "execute_command w command e = (r, e')"
    and "encode_control rsd \<lparr>wr_request_id = i, wr_result = map_failure r\<rparr> = Inr reply"
  shows "wire_request qsd rsd (dispatch qsd rsd w) command (i, e) =
    (case encode_control qsd \<lparr>wq_request_id = i, wq_command = command\<rparr> of
       Inl err \<Rightarrow> (Inl err, i + 1, e)
     | Inr _ \<Rightarrow> (wire_view r, i + 1, e'))"
  using wire_request_dispatch [OF assms(1,2) _ assms(3,4)]
  by (cases "encode_control qsd \<lparr>wq_request_id = i, wq_command = command\<rparr>") (simp_all add: wire_request_def)

text \<open>
  A reply that does not fit into a control frame is lost after the worker ran the
  command: the task is running there while the coordinator, which does not retry this error,
  records nothing.
\<close>

theorem oversized_reply_runs_task:
  assumes "serde_ok qsd"
    and "encode_control qsd \<lparr>wq_request_id = i, wq_command = SubmitCommand (envelope_for c gid 1 p req inputs)\<rparr> = Inr bs"
    and "worker_submit w (envelope_for c gid 1 p req inputs) e = (Inr accepted, e')"
    and "encode_control rsd \<lparr>wr_request_id = i, wr_result = Inr (AcceptedReply accepted)\<rparr> = Inl control_frame_too_large"
    and "worker_candidates api (co_registry c) p req {||} = n # ns" and "mobility api p \<noteq> LocalOnly"
    and "fmlookup (net_workers net) n = Some (wire_worker qsd rsd (dispatch qsd rsd w))"
    and "get_record c gid = None" and "bt_len (co_records c) < co_max_tasks c"
  shows "coordinator_submit api net gid p req inputs (c, i, e) = (Inl control_frame_too_large, c, i + 1, e')"
proof -
  have d: "dispatch qsd rsd w bs e = (Inl control_frame_too_large, e')"
    using decode_encode_control [OF assms(1,2)] assms(3,4) by (simp add: dispatch_def map_failure_def)
  have "wire_submit qsd rsd (dispatch qsd rsd w) (envelope_for c gid 1 p req inputs) (i, e) = (Inl control_frame_too_large, i + 1, e')"
    using assms(2) d by (simp add: wire_submit_def wire_request_def)
  then have "try_remote api net c gid 1 p req inputs {||} (i, e) = (Inl control_frame_too_large, i + 1, e')"
    using assms(5,7) by (simp add: try_remote_def wire_worker_def retryable_def control_frame_too_large_def)
  then show ?thesis
    using assms(6,8,9) by (simp add: coordinator_submit_def submit_check_def bt_contains_def get_record_def submit_dispatch_def place_attempt_def)
qed

text \<open>
  An endpoint that accepts an attempt is connected, has the portable task validated
  and its inputs localized before the host gets it, and names itself, the task and the attempt
  in its answer; the host runs it under an id that no other attempt of any task has.
\<close>

theorem endpoint_runs_accepted:
  assumes "endpoint_submit api node host localizer envelope (s, e) = (Inr accepted, s', e')"
  shows "ep_connected s \<and> valid_envelope api (rte_portable envelope)
    \<and> ra_task_id accepted = rte_task_id envelope \<and> ra_attempt accepted = rte_attempt envelope \<and> ra_worker_node accepted = node
    \<and> (\<exists>e1 handles task_id. localize localizer (rte_direct_inputs envelope) e = (Inr (), e1)
         \<and> host_submit host (attempt_batch_id (rte_task_id envelope) (rte_attempt envelope))
              (local_task api (rte_portable envelope) task_id) e1 = (Inr (ra_local_handle accepted # handles), e')
         \<and> (\<forall>gid attempt. attempt_task_id gid attempt = task_id \<longleftrightarrow> gid = rte_task_id envelope \<and> attempt = rte_attempt envelope))"
proof -
  let ?id = "attempt_task_id (rte_task_id envelope) (rte_attempt envelope)"
  have "attempt_task_id gid attempt = ?id \<longleftrightarrow> gid = rte_task_id envelope \<and> attempt = rte_attempt envelope" for gid attempt
    using attempt_id_inj [of gid "'':attempt''" attempt "rte_task_id envelope" "rte_attempt envelope"]
    by (auto simp: attempt_task_id_def)
  then show ?thesis using assms by (elim endpoint_submit_Inr) blast
qed

end
