(* ===== verification/Coordinator_Examples.thy ===== *)
theory Coordinator_Examples
  imports Coordinator_Properties
begin

text \<open>
  A cluster to compute with: the interleavings in which two operations on one coordinator
  disturb each other, and instances of the properties of the coordinator and the wire.
\<close>

section \<open>A cluster to compute with\<close>

text \<open>Tasks are their ids, which are also the handles; the world is the list of the ids that were run.\<close>

definition demo_cluster_api :: "(unit, unit, unit, unit, string) runtime_api" where
  "demo_cluster_api = \<lparr>has_supported_envelope = \<lambda>_. True, valid_envelope = \<lambda>_. True, mobility = \<lambda>_. Restartable,
     retry_safety = \<lambda>_. Idempotent, task_schema = \<lambda>_. (), protocol_id = \<lambda>_. ''p'', runner_hint = \<lambda>_. None,
     portable_resources = \<lambda>_. [],
     input_content_id = \<lambda>_. \<lparr>cid_algorithm = [], cid_digest = [], cid_size = 0, cid_format = []\<rparr>,
     local_task = \<lambda>_ task_id. task_id, is_satisfied_by = \<lambda>_ _. True\<rparr>"

definition demo_host :: "(string list, string, string) host_adapter" where
  "demo_host = \<lparr>host_submit = \<lambda>_ task e. (Inr [task], e @ [task]), host_cancel = \<lambda>_ e. (Inr (), e),
     host_outcome = \<lambda>_ e. (Inr None, e), host_snapshots = \<lambda>e. (Inr [], e), host_begin_drain = \<lambda>e. (Inr (), e),
     host_health = \<lambda>e. (Inr [], e)\<rparr>"

definition demo_alone :: "(string list, unit, unit, string, string) cluster_net" where
  "demo_alone = \<lparr>net_host = demo_host, net_workers = fmempty\<rparr>"

definition demo_local_run :: "GlobalTaskId \<Rightarrow> u32 \<Rightarrow> string TaskPlacement" where
  "demo_local_run gid n = \<lparr>tp_kind = PlacedLocal, tp_task_id = gid, tp_attempt = n, tp_node_id = ''o'',
     tp_local_handle = attempt_task_id gid n\<rparr>"

definition demo_task :: "GlobalTaskId \<Rightarrow> string AttemptRecord list \<Rightarrow> (unit, unit, string) GlobalTaskRecord" where
  "demo_task gid as = \<lparr>gtr_task_id = gid, gtr_portable = (), gtr_requirements = (), gtr_direct_inputs = [], gtr_attempts = as\<rparr>"

definition demo_coordinator ::
  "(GlobalTaskId, (unit, unit, string) GlobalTaskRecord) fmap \<Rightarrow> (unit, unit, string, unit, unit) Coordinator" where
  "demo_coordinator records = \<lparr>co_origin_node = ''o'',
     co_registry = \<lparr>wr_max_workers = 1, wr_workers = fmempty, wr_pulses = fmempty\<rparr>,
     co_records = records, co_max_tasks = 1, co_max_fallback = 0\<rparr>"

abbreviation demo_reaches ::
  "(unit, unit, string, unit, unit, string list) coord_system \<Rightarrow> bool" where
  "demo_reaches \<equiv> coord_reaches demo_cluster_api demo_alone (demo_coordinator fmempty, [], [])"

lemma demo_reaches_refl: "demo_reaches (demo_coordinator fmempty, [], [])"
  by (simp add: coord_reaches_def)

lemma demo_reaches_step:
  "demo_reaches s \<Longrightarrow> coord_step demo_cluster_api demo_alone s s' \<Longrightarrow> demo_reaches s'"
  unfolding coord_reaches_def by (rule rtranclp.rtrancl_into_rtrancl)

lemma demo_coordinator_simps [simp]:
  "co_records (demo_coordinator rs) = rs" "co_max_tasks (demo_coordinator rs) = 1"
  "co_origin_node (demo_coordinator rs) = ''o''"
  by (simp_all add: demo_coordinator_def)

lemma demo_no_remote:
  "try_remote demo_cluster_api demo_alone (demo_coordinator rs) gid n () () inputs ex e = (Inr None, e)"
  by (simp add: try_remote_def worker_candidates_def demo_coordinator_def)

lemma demo_submit_local:
  "submit_local demo_cluster_api demo_alone (demo_coordinator rs) gid n () e =
     (Inr (demo_local_run gid n), e @ [attempt_task_id gid n])"
  by (simp add: submit_local_def demo_alone_def demo_host_def demo_cluster_api_def demo_local_run_def)

lemma demo_submit_dispatch:
  "submit_dispatch demo_cluster_api demo_alone (demo_coordinator rs) gid () () [] e =
     (Inr (demo_local_run gid 1), e @ [attempt_task_id gid 1])"
  by (simp add: submit_dispatch_def place_attempt_def demo_no_remote demo_submit_local)

lemma demo_submit_record:
  "submit_record gid () () [] (demo_local_run gid 1) (demo_coordinator rs) =
     demo_coordinator (fmupd gid (demo_task gid [placed_attempt (demo_local_run gid 1)]) rs)"
  by (simp add: submit_record_def demo_coordinator_def demo_task_def)

lemma demo_restart_begin:
  "restart_begin demo_cluster_api gid (demo_coordinator (fmupd gid (demo_task gid as) rs)) = Inr (demo_task gid as)"
  by (simp add: restart_begin_def can_restart_from_input_def demo_cluster_api_def)

lemma demo_restart_dispatch:
  "restart_dispatch demo_cluster_api demo_alone (demo_coordinator rs) gid (demo_task gid as) e =
     (Inr (demo_local_run gid (next_attempt as)), e @ [attempt_task_id gid (next_attempt as)])"
  by (simp add: restart_dispatch_def place_attempt_def demo_no_remote demo_submit_local demo_task_def Let_def)

lemma demo_restart_record:
  "restart_record gid placement (demo_coordinator (fmupd gid (demo_task gid as) rs)) =
     (Inr placement, demo_coordinator (fmupd gid (demo_task gid
        (map (\<lambda>a. a\<lparr>atr_active := False\<rparr>) as @ [placed_attempt placement])) rs))"
  by (simp add: restart_record_def demo_coordinator_def demo_task_def)

lemma demo_checked:
  assumes "demo_reaches (demo_coordinator fmempty, e, fs)"
  shows "demo_reaches (demo_coordinator fmempty, e, fs @ [CheckedSubmit gid () () []])"
  by (rule demo_reaches_step [OF assms step_submit_check]) (simp add: submit_check_def bt_contains_def)

lemma demo_placed:
  assumes "demo_reaches (demo_coordinator rs, e, xs @ CheckedSubmit gid () () [] # ys)"
  shows "demo_reaches (demo_coordinator rs, e @ [attempt_task_id gid 1], xs @ PlacedSubmit gid () () [] (demo_local_run gid 1) # ys)"
  using demo_reaches_step [OF assms step_submit_placed [of "length xs", OF _ _ demo_submit_dispatch]] by simp

lemma demo_recorded:
  assumes "demo_reaches (demo_coordinator rs, e, xs @ PlacedSubmit gid () () [] (demo_local_run gid 1) # ys)"
  shows "demo_reaches (demo_coordinator (fmupd gid (demo_task gid [placed_attempt (demo_local_run gid 1)]) rs), e, xs @ ys)"
  using demo_reaches_step [OF assms step_submit_record [of "length xs"]] by (simp add: demo_submit_record forget_def)

lemma demo_begun:
  assumes "demo_reaches (demo_coordinator (fmupd gid (demo_task gid as) rs), e, fs)"
  shows "demo_reaches (demo_coordinator (fmupd gid (demo_task gid as) rs), e, fs @ [BegunRestart gid (demo_task gid as)])"
  by (rule demo_reaches_step [OF assms step_restart_begin]) (rule demo_restart_begin)

lemma demo_replaced:
  assumes "demo_reaches (demo_coordinator rs, e, xs @ BegunRestart gid (demo_task gid as) # ys)"
  shows "demo_reaches (demo_coordinator rs, e @ [attempt_task_id gid (next_attempt as)],
           xs @ PlacedRestart gid (demo_local_run gid (next_attempt as)) # ys)"
  using demo_reaches_step [OF assms step_restart_placed [of "length xs", OF _ _ demo_restart_dispatch]] by simp

lemma demo_rerecorded:
  assumes "demo_reaches (demo_coordinator (fmupd gid (demo_task gid as) rs), e, xs @ PlacedRestart gid placement # ys)"
  shows "demo_reaches (demo_coordinator (fmupd gid (demo_task gid
           (map (\<lambda>a. a\<lparr>atr_active := False\<rparr>) as @ [placed_attempt placement])) rs), e, xs @ ys)"
  using demo_reaches_step [OF assms step_restart_record [of "length xs"]] by (simp add: demo_restart_record forget_def)

lemma dec_string_digit: "dec_string 1 = ''1''" "dec_string (Suc 0) = ''1''" "dec_string 2 = ''2''" "dec_string 3 = ''3''"
  by code_simp+

section \<open>Operations that interleave\<close>

text \<open>
  Submissions that overlap pass the test for a known id and the bound on tasks
  together: a task is run twice under the same attempt and local id while one run is recorded,
  and the coordinator keeps more tasks than its bound.
\<close>

theorem concurrent_submissions_duplicate:
  "\<exists>c e. demo_reaches (c, e, []) \<and> e = [''g:attempt:1'', ''g:attempt:1'', ''h:attempt:1'']
     \<and> map_option (length \<circ> gtr_attempts) (get_record c ''g'') = Some 1
     \<and> co_max_tasks c < bt_len (co_records c)"
proof -
  let ?g = "CheckedSubmit ''g'' () () [] :: (unit, unit, string) in_flight"
  let ?h = "CheckedSubmit ''h'' () () [] :: (unit, unit, string) in_flight"
  let ?G = "PlacedSubmit ''g'' () () [] (demo_local_run ''g'' 1) :: (unit, unit, string) in_flight"
  let ?H = "PlacedSubmit ''h'' () () [] (demo_local_run ''h'' 1) :: (unit, unit, string) in_flight"
  let ?t = "\<lambda>gid. attempt_task_id gid 1"
  let ?tg = "demo_task ''g'' [placed_attempt (demo_local_run ''g'' 1)]" let ?th = "demo_task ''h'' [placed_attempt (demo_local_run ''h'' 1)]"
  have "demo_reaches (demo_coordinator fmempty, [], [] @ ?g # [?g, ?h])"
    using demo_checked [OF demo_checked [OF demo_checked [OF demo_reaches_refl, of "''g''"], of "''g''"], of "''h''"] by simp
  from demo_placed [OF this] have "demo_reaches (demo_coordinator fmempty, [?t ''g''], [?G] @ ?g # [?h])" by simp
  from demo_placed [OF this] have "demo_reaches (demo_coordinator fmempty, [?t ''g'', ?t ''g''], [?G, ?G] @ ?h # [])" by simp
  from demo_placed [OF this]
  have "demo_reaches (demo_coordinator fmempty, [?t ''g'', ?t ''g'', ?t ''h''], [] @ ?G # [?G, ?H])" by simp
  from demo_recorded [OF this]
  have "demo_reaches (demo_coordinator (fmupd ''g'' ?tg fmempty), [?t ''g'', ?t ''g'', ?t ''h''], [] @ ?G # [?H])" by simp
  from demo_recorded [OF this]
  have "demo_reaches (demo_coordinator (fmupd ''g'' ?tg fmempty), [?t ''g'', ?t ''g'', ?t ''h''], [] @ ?H # [])" by simp
  from demo_recorded [OF this]
  have run: "demo_reaches (demo_coordinator (fmupd ''h'' ?th (fmupd ''g'' ?tg fmempty)), [?t ''g'', ?t ''g'', ?t ''h''], [])"
    by simp
  show ?thesis
    by (intro exI conjI, rule run)
      (simp_all add: attempt_task_id_def dec_string_digit get_record_def demo_task_def bt_simps)
qed

text \<open>
  Claim C39. Restarts that overlap take the same attempt number, and the one that is recorded
  last makes its attempt the active one although a later attempt was recorded: the numbers go
  backwards, and the result of a run that was superseded twice is accepted.
\<close>

theorem concurrent_restarts_unfenced:
  "\<exists>c e r. demo_reaches (c, e, []) \<and> get_record c ''g'' = Some r
     \<and> map atr_attempt (gtr_attempts r) = [1, 2, 3, 2]
     \<and> e = [''g:attempt:1'', ''g:attempt:2'', ''g:attempt:2'', ''g:attempt:3'']
     \<and> accept_result c \<lparr>rs_task_id = ''g'', rs_attempt = 2, rs_worker_node = ''o'', rs_outcome = None, rs_direct_outputs = []\<rparr>
         = Inr \<lparr>rs_task_id = ''g'', rs_attempt = 2, rs_worker_node = ''o'', rs_outcome = None, rs_direct_outputs = []\<rparr>"
proof -
  let ?off = "map (\<lambda>a. a\<lparr>atr_active := False\<rparr>)"
  let ?run = "\<lambda>n. placed_attempt (demo_local_run ''g'' n)"
  let ?as1 = "[?run 1]" let ?as2 = "?off ?as1 @ [?run 2]" let ?as3 = "?off ?as2 @ [?run 3]" let ?as4 = "?off ?as3 @ [?run 2]"
  let ?c = "\<lambda>as. demo_coordinator (fmupd ''g'' (demo_task ''g'' as) fmempty)"
  let ?B = "\<lambda>as. BegunRestart ''g'' (demo_task ''g'' as) :: (unit, unit, string) in_flight"
  let ?P = "\<lambda>n. PlacedRestart ''g'' (demo_local_run ''g'' n) :: (unit, unit, string) in_flight"
  let ?t = "attempt_task_id ''g''"
  have numbers: "next_attempt ?as1 = 2" "next_attempt ?as2 = 3"
    by (simp_all add: next_attempt_def placed_attempt_def demo_local_run_def sat_add_def)
  have "demo_reaches (demo_coordinator fmempty, [], [] @ CheckedSubmit ''g'' () () [] # [])"
    using demo_checked [OF demo_reaches_refl] by simp
  from demo_recorded [OF demo_placed [OF this]] have "demo_reaches (?c ?as1, [?t 1], [])" by simp
  from demo_begun [OF demo_begun [OF this]] have "demo_reaches (?c ?as1, [?t 1], [] @ ?B ?as1 # [?B ?as1])" by simp
  from demo_replaced [OF this] have "demo_reaches (?c ?as1, [?t 1, ?t 2], [?P 2] @ ?B ?as1 # [])" by (simp add: numbers)
  from demo_replaced [OF this] have "demo_reaches (?c ?as1, [?t 1, ?t 2, ?t 2], [?P 2] @ ?P 2 # [])" by (simp add: numbers)
  from demo_begun [OF demo_rerecorded [OF this]]
  have "demo_reaches (?c ?as2, [?t 1, ?t 2, ?t 2], [?P 2] @ ?B ?as2 # [])" by simp
  from demo_replaced [OF this] have "demo_reaches (?c ?as2, [?t 1, ?t 2, ?t 2, ?t 3], [?P 2] @ ?P 3 # [])"
    by (simp only: numbers append.simps)
  from demo_rerecorded [OF this] have "demo_reaches (?c ?as3, [?t 1, ?t 2, ?t 2, ?t 3], [] @ ?P 2 # [])" by simp
  from demo_rerecorded [OF this] have run: "demo_reaches (?c ?as4, [?t 1, ?t 2, ?t 2, ?t 3], [])" by simp
  show ?thesis
    by (rule exI, rule exI, rule exI [of _ "demo_task ''g'' ?as4"], intro conjI, rule run)
      (simp_all add: get_record_def demo_task_def placed_attempt_def demo_local_run_def attempt_task_id_def dec_string_digit
        accept_result_def coordinator_active_attempt_def record_active_attempt_def)
qed

section \<open>A cluster with one worker\<close>

definition demo_localizer :: "string list resource_localizer" where
  "demo_localizer = \<lparr>localize = \<lambda>_ e. (Inr (), e), localizer_shutdown = \<lambda>e. (Inr (), e)\<rparr>"

definition demo_advertisement :: "(unit, unit) WorkerAdvertisement" where
  "demo_advertisement = \<lparr>wa_node_id = ''w'', wa_protocol_major = 1, wa_snapshot_version = 1, wa_capabilities = (),
     wa_portability = \<lparr>pf_tasks = [\<lparr>td_protocol_id = ''p'', td_task_schema = (), td_mobility = Restartable\<rparr>], pf_resources = []\<rparr>,
     wa_runners = [], wa_localized_content = {||}, wa_health = HealthReady\<rparr>"

definition demo_workers :: "(unit, unit) WorkerRegistry" where
  "demo_workers = \<lparr>wr_max_workers = 1, wr_workers = fmupd ''w'' demo_advertisement fmempty, wr_pulses = fmempty\<rparr>"

lemma demo_workers_ok: "worker_registry_ok demo_workers"
  by (simp add: worker_registry_ok_def demo_workers_def bt_len_upd bt_contains_def worker_ok_def demo_advertisement_def
      distributed_protocol_major_def)

lemma demo_worker_candidates:
  "worker_candidates demo_cluster_api demo_workers () () ex = (if ''w'' |\<in>| ex then [] else [''w''])"
  by (simp add: worker_candidates_keys [OF demo_workers_ok])
    (simp add: demo_workers_def bt_keys_upd bt_contains_def remote_eligible_def demo_cluster_api_def demo_advertisement_def)

abbreviation demo_pair :: "((NodeId \<Rightarrow> WorkerEndpointState) \<times> string list, unit, unit, string, string) cluster_net" where
  "demo_pair \<equiv> endpoint_cluster demo_cluster_api
     \<lparr>host_submit = \<lambda>_ task e. (Inr [task], e), host_cancel = \<lambda>_ e. (Inr (), e), host_outcome = \<lambda>_ e. (Inr None, e),
      host_snapshots = \<lambda>e. (Inr [], e), host_begin_drain = \<lambda>e. (Inr (), e), host_health = \<lambda>e. (Inr [], e)\<rparr>
     (\<lambda>_. demo_host) (\<lambda>_. demo_localizer) [''w'']"

definition demo_pair_coordinator ::
  "(GlobalTaskId, (unit, unit, string) GlobalTaskRecord) fmap \<Rightarrow> (unit, unit, string, unit, unit) Coordinator" where
  "demo_pair_coordinator records = \<lparr>co_origin_node = ''o'', co_registry = demo_workers, co_records = records,
     co_max_tasks = 1, co_max_fallback = 0\<rparr>"

definition demo_remote_run :: "u32 \<Rightarrow> string TaskPlacement" where
  "demo_remote_run n = \<lparr>tp_kind = PlacedRemote, tp_task_id = ''g'', tp_attempt = n, tp_node_id = ''w'',
     tp_local_handle = attempt_task_id ''g'' n\<rparr>"

lemma demo_endpoint_accepts:
  "endpoint_submit demo_cluster_api ''w'' demo_host demo_localizer envelope (endpoint_new, e) =
     (Inr \<lparr>ra_task_id = rte_task_id envelope, ra_attempt = rte_attempt envelope, ra_worker_node = ''w'',
           ra_local_handle = attempt_task_id (rte_task_id envelope) (rte_attempt envelope)\<rparr>,
      endpoint_new, e @ [attempt_task_id (rte_task_id envelope) (rte_attempt envelope)])"
  by (simp add: endpoint_submit_def endpoint_admit_def endpoint_new_def demo_cluster_api_def demo_localizer_def
      demo_host_def Let_def)

lemma demo_pair_remote:
  assumes "''w'' |\<notin>| ex"
  shows "try_remote demo_cluster_api demo_pair (demo_pair_coordinator rs) ''g'' n () () [] ex (\<lambda>_. endpoint_new, e) =
    (Inr (Some \<lparr>ra_task_id = ''g'', ra_attempt = n, ra_worker_node = ''w'', ra_local_handle = attempt_task_id ''g'' n\<rparr>),
     (\<lambda>_. endpoint_new), e @ [attempt_task_id ''g'' n])"
proof -
  let ?w = "member_worker demo_cluster_api (\<lambda>_. demo_host) (\<lambda>_. demo_localizer) ''w''"
  let ?envelope = "envelope_for (demo_pair_coordinator rs) ''g'' n () () []"
  have cands: "take (co_max_fallback (demo_pair_coordinator rs) + 1)
      (worker_candidates demo_cluster_api (co_registry (demo_pair_coordinator rs)) () () ex) = [''w'']"
    using assms by (simp add: demo_pair_coordinator_def demo_worker_candidates)
  have "fmlookup (net_workers demo_pair) ''w'' = Some ?w" by (simp add: endpoint_cluster_def)
  moreover have "worker_submit ?w ?envelope (\<lambda>_. endpoint_new, e) =
     (Inr \<lparr>ra_task_id = ''g'', ra_attempt = n, ra_worker_node = ''w'', ra_local_handle = attempt_task_id ''g'' n\<rparr>,
      (\<lambda>_. endpoint_new), e @ [attempt_task_id ''g'' n])"
    by (simp add: member_worker_def Let_def endpoint_call_def endpoint_worker_def demo_endpoint_accepts fun_upd_idem)
      (simp add: envelope_for_def)
  ultimately show ?thesis unfolding try_remote_def cands by simp
qed

lemma demo_pair_submit:
  "coordinator_submit demo_cluster_api demo_pair ''g'' () () [] (demo_pair_coordinator fmempty, \<lambda>_. endpoint_new, []) =
     (Inr (demo_remote_run 1),
      demo_pair_coordinator (fmupd ''g'' (demo_task ''g'' [placed_attempt (demo_remote_run 1)]) fmempty),
      (\<lambda>_. endpoint_new), [attempt_task_id ''g'' 1])"
proof -
  have "mobility demo_cluster_api () \<noteq> LocalOnly" by (simp add: demo_cluster_api_def)
  then show ?thesis
    using demo_pair_remote [of "{||}" fmempty 1 "[]"]
    by (simp add: coordinator_submit_def submit_check_def bt_contains_def submit_dispatch_def place_attempt_def
        remote_placement_def demo_remote_run_def submit_record_def demo_task_def demo_pair_coordinator_def)
qed

lemma submit_first_willing_witness:
  "tp_node_id (demo_remote_run 1) = ''w'' \<and> (\<exists>pre post. [''w''] = pre @ tp_node_id (demo_remote_run 1) # post)"
  using submit_first_willing [OF endpoints.honest_cluster_axioms demo_pair_submit]
  by (simp add: demo_pair_coordinator_def demo_worker_candidates demo_remote_run_def Let_def) blast

text \<open>The first attempt ran on the local host.\<close>

abbreviation demo_first :: "(unit, unit, string) GlobalTaskRecord" where
  "demo_first \<equiv> demo_task ''g'' [placed_attempt (demo_local_run ''g'' 1)]"

lemma demo_pair_restart:
  "restart_after_disconnect demo_cluster_api demo_pair ''g'' (demo_pair_coordinator (fmupd ''g'' demo_first fmempty), \<lambda>_. endpoint_new, []) =
     (Inr (demo_remote_run 2),
      demo_pair_coordinator (fmupd ''g'' (demo_task ''g'' [(placed_attempt (demo_local_run ''g'' 1))\<lparr>atr_active := False\<rparr>,
        placed_attempt (demo_remote_run 2)]) fmempty),
      (\<lambda>_. endpoint_new), [attempt_task_id ''g'' 2])"
proof -
  have "can_restart_from_input demo_cluster_api ()" by (simp add: can_restart_from_input_def demo_cluster_api_def)
  then have "restart_begin demo_cluster_api ''g'' (demo_pair_coordinator (fmupd ''g'' demo_first fmempty)) = Inr demo_first"
    by (simp add: restart_begin_def demo_pair_coordinator_def)
  moreover have "next_attempt (gtr_attempts demo_first) = 2"
    by (simp add: demo_task_def next_attempt_def placed_attempt_def demo_local_run_def sat_add_def)
  ultimately show ?thesis
    using demo_pair_remote [of "{|''o''|}" "fmupd ''g'' demo_first fmempty" 2 "[]"]
    by (simp add: restart_after_disconnect_def restart_dispatch_def place_attempt_def Let_def demo_task_def placed_attempt_def
        demo_local_run_def remote_placement_def restart_record_def demo_pair_coordinator_def demo_remote_run_def)
qed

lemma restart_avoids_failed_workers_witness:
  "\<exists>w. get_worker demo_workers ''w'' = Some w \<and> remote_eligible demo_cluster_api w () ()"
  using restart_avoids_failed_workers [OF endpoints.honest_cluster_axioms _ demo_pair_restart]
  by (auto simp: demo_pair_coordinator_def demo_workers_ok demo_remote_run_def get_record_def demo_task_def)

lemma demo_coordinator_new:
  "coordinator_new ''o'' \<lparr>wr_max_workers = 1, wr_workers = fmempty, wr_pulses = fmempty\<rparr> fmempty 1 0 = Inr (demo_coordinator fmempty)"
  by (simp add: coordinator_new_def demo_coordinator_def)

lemma one_active_attempt_witness:
  "coordinator_active_attempt (demo_coordinator (fmupd ''g'' demo_first fmempty)) ''g'' = Inr (placed_attempt (demo_local_run ''g'' 1))"
proof -
  have "demo_reaches (demo_coordinator fmempty, [], [] @ CheckedSubmit ''g'' () () [] # [])"
    using demo_checked [OF demo_reaches_refl] by simp
  from demo_recorded [OF demo_placed [OF this]]
  have run: "demo_reaches (demo_coordinator (fmupd ''g'' demo_first fmempty), [attempt_task_id ''g'' 1], [])" by simp
  show ?thesis
    using one_active_attempt [OF demo_coordinator_new run, of "''g''" demo_first] by (simp add: get_record_def demo_task_def)
qed

lemma demo_sequential:
  "\<exists>e. fold (coord_run_step demo_cluster_api demo_alone) [SubmitTask ''g'' () () [], RestartTask ''g''] (demo_coordinator fmempty, []) =
     (demo_coordinator (fmupd ''g'' (demo_task ''g'' [(placed_attempt (demo_local_run ''g'' 1))\<lparr>atr_active := False\<rparr>,
        placed_attempt (demo_local_run ''g'' 2)]) fmempty), e)"
proof -
  have "next_attempt [placed_attempt (demo_local_run ''g'' 1)] = 2"
    by (simp add: next_attempt_def placed_attempt_def demo_local_run_def sat_add_def)
  moreover have "submit_check ''g'' (demo_coordinator fmempty) = Inr ()" by (simp add: submit_check_def bt_contains_def)
  ultimately show ?thesis
    by (simp add: coordinator_submit_def demo_submit_dispatch demo_submit_record restart_after_disconnect_def demo_restart_begin
        demo_restart_dispatch demo_restart_record)
qed

lemma superseded_results_refused_witness:
  "\<exists>c. accept_result (c :: (unit, unit, string, unit, unit) Coordinator)
     \<lparr>rs_task_id = ''g'', rs_attempt = 1, rs_worker_node = ''o'', rs_outcome = None, rs_direct_outputs = []\<rparr>
       = Inl stale_attempt_error"
proof -
  obtain e where run: "fold (coord_run_step demo_cluster_api demo_alone) [SubmitTask ''g'' () () [], RestartTask ''g''] (demo_coordinator fmempty, []) =
     (demo_coordinator (fmupd ''g'' (demo_task ''g'' [(placed_attempt (demo_local_run ''g'' 1))\<lparr>atr_active := False\<rparr>,
        placed_attempt (demo_local_run ''g'' 2)]) fmempty), e)" using demo_sequential by blast
  show ?thesis
    using superseded_results_refused [OF demo_coordinator_new run, of "''g''" _ 0
        "\<lparr>rs_task_id = ''g'', rs_attempt = 1, rs_worker_node = ''o'', rs_outcome = None, rs_direct_outputs = []\<rparr>"]
    by (auto simp: get_record_def demo_task_def placed_attempt_def demo_local_run_def)
qed

section \<open>The wire\<close>

abbreviation demo_envelope :: "(unit, unit) RemoteTaskEnvelope" where
  "demo_envelope \<equiv> envelope_for (demo_pair_coordinator fmempty) ''g'' 1 () () []"

definition demo_accepted :: "string RemoteAccepted" where
  "demo_accepted = \<lparr>ra_task_id = ''g'', ra_attempt = 1, ra_worker_node = ''w'', ra_local_handle = attempt_task_id ''g'' 1\<rparr>"

definition demo_endpoint :: "(WorkerEndpointState \<times> string list, unit, unit, string) remote_worker" where
  "demo_endpoint = endpoint_worker demo_cluster_api ''w'' demo_host demo_localizer"

lemma demo_endpoint_submit:
  "endpoint_submit demo_cluster_api ''w'' demo_host demo_localizer demo_envelope (endpoint_new, []) =
     (Inr demo_accepted, endpoint_new, [attempt_task_id ''g'' 1])"
  by (simp add: demo_endpoint_accepts) (simp add: envelope_for_def demo_accepted_def)

definition demo_request_codec :: "(unit, unit, string) WorkerRequest serde" where
  "demo_request_codec = serde_single \<lparr>wq_request_id = 1, wq_command = SubmitCommand demo_envelope\<rparr> [1]"

definition demo_reply_codec :: "string WorkerReply serde" where
  "demo_reply_codec = serde_single \<lparr>wr_request_id = 1, wr_result = Inr (AcceptedReply demo_accepted)\<rparr> [2]"

lemma demo_request_fits: "encode_control demo_request_codec \<lparr>wq_request_id = 1, wq_command = SubmitCommand demo_envelope\<rparr> = Inr [1]"
  by (simp add: encode_control_Inr demo_request_codec_def serde_single_def max_control_frame_bytes_def)

lemma wire_refines_worker_witness:
  "wire_request demo_request_codec demo_reply_codec (dispatch demo_request_codec demo_reply_codec demo_endpoint)
     (SubmitCommand demo_envelope) (1, endpoint_new, []) =
   (Inr (AcceptedReply demo_accepted), 2, endpoint_new, [attempt_task_id ''g'' 1])"
proof -
  have run: "execute_command demo_endpoint (SubmitCommand demo_envelope) (endpoint_new, []) =
      (Inr (AcceptedReply demo_accepted), endpoint_new, [attempt_task_id ''g'' 1])"
    using demo_endpoint_submit by (simp add: demo_endpoint_def endpoint_worker_def)
  have reply: "encode_control demo_reply_codec \<lparr>wr_request_id = 1, wr_result = map_failure (Inr (AcceptedReply demo_accepted))\<rparr> = Inr [2]"
    by (simp add: encode_control_Inr demo_reply_codec_def serde_single_def max_control_frame_bytes_def map_failure_def)
  show ?thesis
    using wire_refines_worker [OF _ _ run reply, of demo_request_codec] demo_request_fits
    by (simp add: demo_request_codec_def demo_reply_codec_def)
qed

definition huge_reply_codec :: "string WorkerReply serde" where
  "huge_reply_codec = \<lparr>to_vec = \<lambda>_. Some (replicate (64 * 1024 + 1) 0), from_slice = \<lambda>_. None\<rparr>"

lemma oversized_reply_runs_task_witness:
  "\<exists>net. coordinator_submit demo_cluster_api net ''g'' () () [] (demo_pair_coordinator fmempty, 1 :: u64, endpoint_new, []) =
     (Inl control_frame_too_large, demo_pair_coordinator fmempty, 2, endpoint_new, [attempt_task_id ''g'' 1])"
proof -
  let ?w = "wire_worker demo_request_codec huge_reply_codec (dispatch demo_request_codec huge_reply_codec demo_endpoint)"
  have codec: "serde_ok demo_request_codec" by (simp add: demo_request_codec_def)
  have run: "worker_submit demo_endpoint demo_envelope (endpoint_new, []) =
      (Inr demo_accepted, endpoint_new, [attempt_task_id ''g'' 1])"
    using demo_endpoint_submit by (simp add: demo_endpoint_def endpoint_worker_def)
  have huge: "encode_control huge_reply_codec reply = Inl control_frame_too_large" for reply
    by (simp add: encode_control_def huge_reply_codec_def max_control_frame_bytes_def)
  have cands: "worker_candidates demo_cluster_api (co_registry (demo_pair_coordinator fmempty)) () () {||} = [''w'']"
    by (simp add: demo_pair_coordinator_def demo_worker_candidates)
  have "mobility demo_cluster_api () \<noteq> LocalOnly" by (simp add: demo_cluster_api_def)
  then show ?thesis
    using oversized_reply_runs_task [OF codec demo_request_fits run huge cands,
        of "\<lparr>net_host = undefined, net_workers = fmupd ''w'' ?w fmempty\<rparr>"]
    by (auto simp: get_record_def demo_pair_coordinator_def)
qed

lemma endpoint_runs_accepted_witness:
  "ra_local_handle demo_accepted = attempt_task_id ''g'' 1 \<and> ra_worker_node demo_accepted = ''w''"
  using endpoint_runs_accepted [OF demo_endpoint_submit] by (simp add: demo_accepted_def)

end
