(* ===== verification/Recovery_Planning.thy ===== *)
theory Recovery_Planning
  imports Worker_Registry Registry_Mutation Resource_Catalog Float_Ops
begin

text \<open>
  The decisions of \<open>recovery.rs\<close>, with the descriptors of
  \<open>mutsuki-distributed-contracts/src/recovery.rs\<close>: how a task goes on after a failure, what
  happens to an effect, whether a session migrates, and which mirrored sessions are admitted.
  \<open>f64\<close> is the type parameter \<open>'f\<close> with its operations.
\<close>

section \<open>Contracts\<close>

datatype RecoveryTier = TierEphemeral | TierRestartable | TierCheckpointed | TierMirrored | TierNonRecoverable

datatype FailureConfirmation = ConfirmedSuspect | ConfirmedDead | LeaseExpired | ExplicitSpeculative

record 'f RecoveryPolicy =
  rp_tier :: RecoveryTier
  rp_max_attempts :: u32
  rp_base_backoff :: u64
  rp_max_backoff :: u64
  rp_deadline :: "u64 option"
  rp_allow_speculative :: bool
  rp_minimum_quality :: 'f

record 's CheckpointArtifactManifest =
  ca_task_id :: GlobalTaskId
  ca_source_attempt :: u32
  ca_sequence :: u64
  ca_checkpoint_schema :: 's
  ca_task_schema :: 's
  ca_plugin_generation :: u64
  ca_input_content_id :: ContentId
  ca_checkpoint_content_id :: ContentId
  ca_baseline_content_id :: ContentId
  ca_previous_content_id :: "ContentId option"
  ca_changed_chunks :: "u32 list"
  ca_complete_baseline :: bool

record 'f RecoveryTarget =
  tg_node_id :: NodeId
  tg_runner_generation :: u64
  tg_plugin_generation :: u64
  tg_quality :: 'f

datatype ('f, 's) RecoveryAction =
    Wait
  | Fail string
  | RequireRecovery string
  | is_Restart: Restart (planned_attempt: u32) (not_before: u64) (planned_target: "'f RecoveryTarget")
  | is_RestoreCheckpoint: RestoreCheckpoint (planned_attempt: u32) (not_before: u64) (planned_target: "'f RecoveryTarget")
      (planned_checkpoint: "'s CheckpointArtifactManifest")
  | PromoteStandby NodeId

record 's RealtimeSession =
  rts_session_id :: string
  rts_primary_node :: NodeId
  rts_standby_node :: "NodeId option"
  rts_execution_variant :: string
  rts_last_checkpoint :: "'s CheckpointArtifactManifest option"

record 'f MigrationEstimate =
  me_future_benefit :: 'f
  me_state_transfer_cost :: 'f
  me_cold_start_cost :: 'f
  me_interruption_cost :: 'f
  me_failure_risk_cost :: 'f
  me_safety_margin :: 'f

datatype SessionMigrationDecision =
  Stay | MigrateWholeSession NodeId | PromoteSessionStandby NodeId | Degrade string

datatype EffectRecoveryAction =
    RetryWithIdempotencyKey | VerifyExternalState | CompensateThenRetry | TransactionalOutbox
  | EffectRecoveryRequired | RejectWhileQuorumLost

record EffectRecoveryCapability =
  erc_retry_safety :: RetrySafety
  erc_idempotency_key :: "string option"
  erc_external_verifier :: bool
  erc_transactional_outbox :: bool
  erc_compensation_hook :: bool

record MirrorBudget =
  mb_max_sessions :: nat
  mb_max_compute :: u64
  mb_max_memory :: u64
  mb_max_network :: u64

section \<open>Errors\<close>

definition recovery_config_error :: DistributedError where
  "recovery_config_error = error_new InvalidConfig ''recovery policy or budget is invalid''"

definition recovery_budget_exceeded :: DistributedError where
  "recovery_budget_exceeded = error_new CapacityExceeded ''recovery resource budget is exhausted''"

definition checkpoint_incompatible :: DistributedError where
  "checkpoint_incompatible =
     error_new Incompatible ''checkpoint schema, generation, input, or lineage is incompatible''"

section \<open>The plan after a failure\<close>

text \<open>The shift is at most 63, so the power is a \<open>u64\<close>.\<close>

definition backoff :: "'f RecoveryPolicy \<Rightarrow> u32 \<Rightarrow> u64" where
  "backoff policy attempt =
     (let shift = min (unat (sat_sub attempt 1)) 63
      in min (sat_mul (rp_base_backoff policy) (push_bit shift 1)) (rp_max_backoff policy))"

definition next_durable_attempt :: "'h DurableAttempt list \<Rightarrow> u32" where
  "next_durable_attempt attempts = (if attempts = [] then 1 else sat_add (att_attempt (last attempts)) 1)"

definition target_admissible ::
  "('p, 'r, 'c, 's, 't) runtime_api \<Rightarrow> ('f, 'z) f64_ops_scheme \<Rightarrow> ('p, 'r, 'h) DurableTaskRecord \<Rightarrow> 'f RecoveryPolicy
     \<Rightarrow> ('c, 's) WorkerAdvertisement \<Rightarrow> 'f RecoveryTarget \<Rightarrow> ResourceCatalog \<Rightarrow> bool" where
  "target_admissible api f r policy wa target resources \<longleftrightarrow>
     \<not> (f_lt f (tg_quality target) (rp_minimum_quality policy)
        \<or> tg_node_id target \<noteq> wa_node_id wa
        \<or> \<not> remote_eligible api wa (spec_portable (rec_spec r)) (spec_requirements (rec_spec r))
        \<or> \<not> inputs_recoverable resources (spec_required_inputs (rec_spec r)))"

definition target_runner :: "('c, 's) WorkerAdvertisement \<Rightarrow> 'f RecoveryTarget \<Rightarrow> RunnerGeneration option" where
  "target_runner wa target =
     List.find (\<lambda>g. rg_runner_generation g = tg_runner_generation target
                  \<and> rg_plugin_generation g = tg_plugin_generation target) (wa_runners wa)"

definition checkpoint_usable ::
  "('p, 'r, 'c, 's, 't) runtime_api \<Rightarrow> ('p, 'r, 'h) DurableTaskRecord \<Rightarrow> 'f RecoveryTarget \<Rightarrow> ResourceCatalog
     \<Rightarrow> 's CheckpointArtifactManifest \<Rightarrow> bool" where
  "checkpoint_usable api r target resources cp \<longleftrightarrow>
     \<not> (ca_task_id cp \<noteq> spec_task_id (rec_spec r)
        \<or> ca_input_content_id cp \<noteq> input_content_id api (spec_portable (rec_spec r))
        \<or> ca_plugin_generation cp \<noteq> tg_plugin_generation target
        \<or> ca_task_schema cp \<noteq> task_schema api (spec_portable (rec_spec r))
        \<or> \<not> (case catalog_get resources (ca_checkpoint_content_id cp) of None \<Rightarrow> False | Some x \<Rightarrow> is_recoverable x))"

definition plan_tier ::
  "('p, 'r, 'c, 's, 't) runtime_api \<Rightarrow> ('p, 'r, 'h) DurableTaskRecord \<Rightarrow> 'f RecoveryPolicy \<Rightarrow> 'f RecoveryTarget
     \<Rightarrow> ResourceCatalog \<Rightarrow> 's CheckpointArtifactManifest option \<Rightarrow> NodeId option \<Rightarrow> u32 \<Rightarrow> u64
     \<Rightarrow> ('f, 's) RecoveryAction" where
  "plan_tier api r policy target resources checkpoint standby attempt not_before_tick =
     (case rp_tier policy of
        TierEphemeral \<Rightarrow> Fail ''ephemeral task expires with its Worker''
      | TierNonRecoverable \<Rightarrow> RequireRecovery ''task requires explicit recovery review''
      | TierRestartable \<Rightarrow>
          if can_restart_from_input api (spec_portable (rec_spec r))
          then Restart attempt not_before_tick target
          else RequireRecovery ''task cannot be safely restarted from input''
      | TierCheckpointed \<Rightarrow>
          (case checkpoint of
             None \<Rightarrow> RequireRecovery ''no valid checkpoint is available''
           | Some cp \<Rightarrow>
               if checkpoint_usable api r target resources cp
               then RestoreCheckpoint attempt not_before_tick target cp
               else RequireRecovery ''checkpoint is stale or incompatible'')
      | TierMirrored \<Rightarrow>
          (case standby of
             None \<Rightarrow> RequireRecovery ''mirrored task has no admitted standby''
           | Some node_id \<Rightarrow> PromoteStandby node_id))"

definition plan ::
  "('p, 'r, 'c, 's, 't) runtime_api \<Rightarrow> ('f, 'z) f64_ops_scheme \<Rightarrow> ('p, 'r, 'h) DurableTaskRecord \<Rightarrow> 'f RecoveryPolicy
     \<Rightarrow> FailureConfirmation \<Rightarrow> ('c, 's) WorkerAdvertisement \<Rightarrow> 'f RecoveryTarget \<Rightarrow> ResourceCatalog
     \<Rightarrow> 's CheckpointArtifactManifest option \<Rightarrow> NodeId option \<Rightarrow> u64 \<Rightarrow> ('f, 's) RecoveryAction" where
  "plan api f r policy failure wa target resources checkpoint standby now_tick =
     (if failure = ConfirmedSuspect \<and> \<not> rp_allow_speculative policy then Wait
      else if failure = ExplicitSpeculative \<and> \<not> rp_allow_speculative policy then Wait
      else if (case rp_deadline policy of None \<Rightarrow> False | Some deadline \<Rightarrow> now_tick \<ge> deadline)
      then Fail ''recovery deadline expired''
      else if length (rec_attempts r) \<ge> unat (rp_max_attempts policy)
      then Fail ''recovery attempt budget exhausted''
      else if \<not> target_admissible api f r policy wa target resources
      then Fail ''no compatible target with recoverable inputs''
      else case target_runner wa target of
        None \<Rightarrow> Fail ''target Runner or plugin generation is incompatible''
      | Some runner \<Rightarrow>
          if (case runner_hint api (spec_portable (rec_spec r)) of
                None \<Rightarrow> False | Some hint \<Rightarrow> hint \<noteq> rg_runner_id runner)
          then Fail ''target Runner hint is incompatible''
          else
            let attempt = next_durable_attempt (rec_attempts r);
                not_before_tick = sat_add now_tick (backoff policy attempt)
            in plan_tier api r policy target resources checkpoint standby attempt not_before_tick)"

section \<open>Effects and sessions\<close>

definition effect_recovery_action :: "EffectRecoveryCapability \<Rightarrow> bool \<Rightarrow> EffectRecoveryAction" where
  "effect_recovery_action c quorum_available =
     (if \<not> quorum_available then RejectWhileQuorumLost
      else if erc_transactional_outbox c then TransactionalOutbox
      else case erc_retry_safety c of
        Idempotent \<Rightarrow> if erc_idempotency_key c \<noteq> None then RetryWithIdempotencyKey else EffectRecoveryRequired
      | Verifiable \<Rightarrow> if erc_external_verifier c then VerifyExternalState else EffectRecoveryRequired
      | Compensatable \<Rightarrow> if erc_compensation_hook c then CompensateThenRetry else EffectRecoveryRequired
      | Unsafe \<Rightarrow> EffectRecoveryRequired)"

definition migration_cost :: "('f, 'z) f64_ops_scheme \<Rightarrow> 'f MigrationEstimate \<Rightarrow> 'f" where
  "migration_cost f e =
     f_add f (f_add f (f_add f (f_add f (me_state_transfer_cost e) (me_cold_start_cost e)) (me_interruption_cost e))
                (me_failure_risk_cost e)) (me_safety_margin e)"

definition decide_session_migration ::
  "('f, 'z) f64_ops_scheme \<Rightarrow> 's RealtimeSession \<Rightarrow> NodeId \<Rightarrow> 'f MigrationEstimate \<Rightarrow> bool \<Rightarrow> bool
     \<Rightarrow> SessionMigrationDecision" where
  "decide_session_migration f session target estimate leader_only_change worker_dead =
     (if leader_only_change then Stay
      else if worker_dead then
        (case rts_standby_node session of
           Some standby \<Rightarrow> PromoteSessionStandby standby
         | None \<Rightarrow>
             if rts_last_checkpoint session \<noteq> None then MigrateWholeSession target
             else Degrade ''session has no recoverable checkpoint or standby'')
      else if f_lt f (migration_cost f estimate) (me_future_benefit estimate) then MigrateWholeSession target
      else Stay)"

section \<open>Mirrored sessions\<close>

record MirrorAdmission =
  ma_budget :: MirrorBudget
  ma_sessions :: "(string, u64 \<times> u64 \<times> u64) fmap"

definition mirror_new :: "MirrorBudget \<Rightarrow> MirrorAdmission result" where
  "mirror_new budget =
     (if mb_max_sessions budget = 0 \<or> mb_max_compute budget = 0 \<or> mb_max_memory budget = 0 \<or> mb_max_network budget = 0
      then Inl recovery_config_error
      else Inr \<lparr>ma_budget = budget, ma_sessions = fmempty\<rparr>)"

definition mirror_used :: "MirrorAdmission \<Rightarrow> u64 \<times> u64 \<times> u64" where
  "mirror_used m =
     foldl (\<lambda>(c, mem, net) (c', mem', net'). (sat_add c c', sat_add mem mem', sat_add net net')) (0, 0, 0)
       (bt_values (ma_sessions m))"

definition mirror_admit ::
  "string \<Rightarrow> bool \<Rightarrow> u64 \<Rightarrow> u64 \<Rightarrow> u64 \<Rightarrow> MirrorAdmission \<Rightarrow> unit result \<times> MirrorAdmission" where
  "mirror_admit session_id critical compute memory network m =
     (if \<not> critical \<or> bt_contains (ma_sessions m) session_id then (Inl recovery_config_error, m)
      else case mirror_used m of (used_compute, used_memory, used_network) \<Rightarrow>
        if bt_len (ma_sessions m) \<ge> mb_max_sessions (ma_budget m)
           \<or> sat_add used_compute compute > mb_max_compute (ma_budget m)
           \<or> sat_add used_memory memory > mb_max_memory (ma_budget m)
           \<or> sat_add used_network network > mb_max_network (ma_budget m)
        then (Inl recovery_budget_exceeded, m)
        else (Inr (), m\<lparr>ma_sessions := fmupd session_id (compute, memory, network) (ma_sessions m)\<rparr>))"

definition mirror_release :: "string \<Rightarrow> MirrorAdmission \<Rightarrow> bool \<times> MirrorAdmission" where
  "mirror_release session_id m =
     (bt_contains (ma_sessions m) session_id, m\<lparr>ma_sessions := fmdrop session_id (ma_sessions m)\<rparr>)"

datatype mirror_op = AdmitMirror string bool u64 u64 u64 | ReleaseMirror string

fun mirror_step :: "mirror_op \<Rightarrow> MirrorAdmission \<Rightarrow> MirrorAdmission" where
  "mirror_step (AdmitMirror s critical c mem net) m = snd (mirror_admit s critical c mem net m)"
| "mirror_step (ReleaseMirror s) m = snd (mirror_release s m)"

section \<open>Lemmas\<close>

lemma backoff_bounded: "backoff policy attempt \<le> rp_max_backoff policy"
  by (simp add: backoff_def Let_def)

lemma unat_min: "unat (min a b) = min (unat a) (unat b)" for a b :: "'a::len word"
  by (simp add: min_def word_le_nat_alt)

lemma unat_backoff:
  "unat (backoff policy attempt) =
     min (min (unat (rp_base_backoff policy) * 2 ^ min (unat attempt - 1) 63) (2 ^ 64 - 1)) (unat (rp_max_backoff policy))"
proof -
  have "unat (push_bit (min k 63) 1 :: u64) = 2 ^ min k 63" for k
  proof -
    have "(2::nat) ^ min k 63 < 2 ^ 64" by (rule power_strict_increasing) simp_all
    moreover have "(push_bit (min k 63) 1 :: u64) = of_nat (2 ^ min k 63)" by (simp add: push_bit_eq_mult)
    ultimately show ?thesis by (simp only: unat_of_nat) simp
  qed
  then show ?thesis by (simp add: backoff_def Let_def unat_min unat_sat_mul unat_sat_sub)
qed

lemma backoff_mono: "a \<le> b \<Longrightarrow> backoff policy a \<le> backoff policy b"
proof -
  assume "a \<le> b"
  then have "min (unat a - 1) 63 \<le> min (unat b - 1) 63" by (intro min.mono diff_le_mono) (simp_all add: word_le_nat_alt)
  then have "unat (rp_base_backoff policy) * 2 ^ min (unat a - 1) 63 \<le> unat (rp_base_backoff policy) * 2 ^ min (unat b - 1) 63"
    by (rule mult_le_mono2 [OF power_increasing]) simp
  then show ?thesis unfolding word_le_nat_alt unat_backoff by (rule min.mono [OF min.mono [OF _ order_refl] order_refl])
qed


lemma plan_tier_attempt:
  assumes "is_Restart action \<or> is_RestoreCheckpoint action"
    and "plan_tier api r policy target resources checkpoint standby attempt tick = action"
  shows "planned_attempt action = attempt \<and> not_before action = tick \<and> planned_target action = target
    \<and> (is_Restart action \<longrightarrow> can_restart_from_input api (spec_portable (rec_spec r)))
    \<and> (is_RestoreCheckpoint action \<longrightarrow> checkpoint = Some (planned_checkpoint action)
         \<and> checkpoint_usable api r target resources (planned_checkpoint action))"
  using assms by (auto simp: plan_tier_def split: RecoveryTier.splits if_splits option.splits)

lemma plan_attempt:
  assumes "is_Restart action \<or> is_RestoreCheckpoint action"
    and "plan api f r policy failure wa target resources checkpoint standby now = action"
  obtains runner where
    "failure \<in> {ConfirmedSuspect, ExplicitSpeculative} \<Longrightarrow> rp_allow_speculative policy"
    "\<And>deadline. rp_deadline policy = Some deadline \<Longrightarrow> now < deadline"
    "length (rec_attempts r) < unat (rp_max_attempts policy)"
    "target_admissible api f r policy wa target resources" "target_runner wa target = Some runner"
    "\<And>hint. runner_hint api (spec_portable (rec_spec r)) = Some hint \<Longrightarrow> hint = rg_runner_id runner"
    "planned_attempt action = next_durable_attempt (rec_attempts r)"
    "not_before action = sat_add now (backoff policy (next_durable_attempt (rec_attempts r)))"
    "planned_target action = target"
    "is_Restart action \<Longrightarrow> can_restart_from_input api (spec_portable (rec_spec r))"
    "is_RestoreCheckpoint action \<Longrightarrow> checkpoint = Some (planned_checkpoint action)
         \<and> checkpoint_usable api r target resources (planned_checkpoint action)"
proof -
  have live: "action \<noteq> Wait" "\<And>s. action \<noteq> Fail s" using assms(1) by auto
  have guards: "failure \<in> {ConfirmedSuspect, ExplicitSpeculative} \<longrightarrow> rp_allow_speculative policy"
    "\<forall>deadline. rp_deadline policy = Some deadline \<longrightarrow> now < deadline"
    "length (rec_attempts r) < unat (rp_max_attempts policy)"
    "target_admissible api f r policy wa target resources"
    using assms(2) live by (auto simp: plan_def split: if_splits option.splits)
  then obtain runner where runner: "target_runner wa target = Some runner"
    using assms(2) live by (cases "target_runner wa target") (auto simp: plan_def split: if_splits option.splits)
  have hint: "\<forall>hint. runner_hint api (spec_portable (rec_spec r)) = Some hint \<longrightarrow> hint = rg_runner_id runner"
    using assms(2) live guards runner by (auto simp: plan_def split: if_splits option.splits)
  have "plan_tier api r policy target resources checkpoint standby (next_durable_attempt (rec_attempts r))
      (sat_add now (backoff policy (next_durable_attempt (rec_attempts r)))) = action"
    using assms(2) live guards runner hint by (auto simp: plan_def Let_def split: if_splits option.splits)
  from plan_tier_attempt [OF assms(1) this] show thesis using that guards runner hint by blast
qed

lemma next_attempt_above:
  assumes "sorted_wrt (\<lambda>a b. att_attempt a < att_attempt b) as" and "as \<noteq> [] \<Longrightarrow> att_attempt (last as) \<noteq> - 1" and "a \<in> set as"
  shows "att_attempt a < next_durable_attempt as"
proof -
  have "att_attempt a \<le> att_attempt (last as)"
    using assms(1,3) by (cases as rule: rev_cases) (auto simp: sorted_wrt_append)
  moreover have "as \<noteq> []" using assms(3) by auto
  ultimately show ?thesis using sat_add_one_fresh assms(2) by (auto simp: next_durable_attempt_def intro: order_le_less_trans)
qed

section \<open>The bounds of mirrored sessions\<close>

definition mirror_ok :: "MirrorAdmission \<Rightarrow> bool" where
  "mirror_ok m \<longleftrightarrow>
     bt_len (ma_sessions m) \<le> mb_max_sessions (ma_budget m)
     \<and> fm_sum (\<lambda>x. unat (fst x)) (ma_sessions m) \<le> unat (mb_max_compute (ma_budget m))
     \<and> fm_sum (\<lambda>x. unat (fst (snd x))) (ma_sessions m) \<le> unat (mb_max_memory (ma_budget m))
     \<and> fm_sum (\<lambda>x. unat (snd (snd x))) (ma_sessions m) \<le> unat (mb_max_network (ma_budget m))"

lemma foldl_mirror:
  "foldl (\<lambda>(c, mem, net) (c', mem', net'). (sat_add c c', sat_add mem mem', sat_add net net')) (a, b, d) xs =
     (foldl (\<lambda>r x. sat_add r (fst x)) a xs, foldl (\<lambda>r x. sat_add r (fst (snd x))) b xs, foldl (\<lambda>r x. sat_add r (snd (snd x))) d xs)"
  by (induction xs arbitrary: a b d) (auto split: prod.splits)

lemma mirror_used_sums:
  assumes "mirror_used m = (c, mem, net)"
  shows "unat c = min (fm_sum (\<lambda>x. unat (fst x)) (ma_sessions m)) (2 ^ 64 - 1)"
    and "unat mem = min (fm_sum (\<lambda>x. unat (fst (snd x))) (ma_sessions m)) (2 ^ 64 - 1)"
    and "unat net = min (fm_sum (\<lambda>x. unat (snd (snd x))) (ma_sessions m)) (2 ^ 64 - 1)"
  using assms by (auto simp: mirror_used_def foldl_mirror unat_sat_fold fm_sum_values)

lemma sat_within:
  fixes used :: u64
  assumes "unat used = min n (2 ^ 64 - 1)" and "\<not> sat_add used x > limit" and "limit \<noteq> - 1"
  shows "n + unat x \<le> unat limit"
  using assms unat_less_max [of limit] by (auto simp: word_less_nat_alt unat_sat_add min_def split: if_splits)

lemma mirror_step_ok:
  assumes "mirror_ok m" and "mb_max_compute (ma_budget m) \<noteq> - 1" "mb_max_memory (ma_budget m) \<noteq> - 1"
    "mb_max_network (ma_budget m) \<noteq> - 1"
  shows "mirror_ok (mirror_step opn m) \<and> ma_budget (mirror_step opn m) = ma_budget m"
proof (cases opn)
  case (AdmitMirror s critical c mem net)
  obtain uc um un where used: "mirror_used m = (uc, um, un)" by (metis prod_cases3)
  show ?thesis
  proof (cases "snd (mirror_admit s critical c mem net m) = m")
    case False
    then have new: "\<not> bt_contains (ma_sessions m) s" "bt_len (ma_sessions m) < mb_max_sessions (ma_budget m)"
      and fits: "\<not> sat_add uc c > mb_max_compute (ma_budget m)" "\<not> sat_add um mem > mb_max_memory (ma_budget m)"
        "\<not> sat_add un net > mb_max_network (ma_budget m)"
      and result: "mirror_step opn m = m\<lparr>ma_sessions := fmupd s (c, mem, net) (ma_sessions m)\<rparr>"
      using AdmitMirror used by (auto simp: mirror_admit_def split: if_splits)
    note sums = sat_within [OF mirror_used_sums(1) [OF used] fits(1) assms(2)]
      sat_within [OF mirror_used_sums(2) [OF used] fits(2) assms(3)] sat_within [OF mirror_used_sums(3) [OF used] fits(3) assms(4)]
    have "fm_sum g (fmupd s (c, mem, net) (ma_sessions m)) \<le> fm_sum g (ma_sessions m) + g (c, mem, net)" for g
      by (rule fm_sum_upd_le)
    from this [of "\<lambda>x. unat (fst x)"] this [of "\<lambda>x. unat (fst (snd x))"] this [of "\<lambda>x. unat (snd (snd x))"]
    show ?thesis using sums new by (simp add: result mirror_ok_def bt_len_upd)
  qed (use AdmitMirror assms in simp)
next
  case (ReleaseMirror s)
  have "fm_sum g (fmdrop s (ma_sessions m)) \<le> fm_sum g (ma_sessions m)" for g by (rule fm_sum_drop)
  then show ?thesis
    using assms(1) ReleaseMirror bt_len_drop_le [of s "ma_sessions m"]
    by (auto simp: mirror_ok_def mirror_release_def intro: order_trans)
qed

lemma mirror_run_ok:
  assumes "mirror_ok m" and "mb_max_compute (ma_budget m) \<noteq> - 1" "mb_max_memory (ma_budget m) \<noteq> - 1"
    "mb_max_network (ma_budget m) \<noteq> - 1"
  shows "mirror_ok (fold mirror_step ops m) \<and> ma_budget (fold mirror_step ops m) = ma_budget m"
  using assms by (induction ops arbitrary: m) (simp_all add: mirror_step_ok)

end
