(* ===== verification/Checkpoints.thy ===== *)
theory Checkpoints
  imports Recovery_Planning Content_Properties
begin

text \<open>
  \<open>CheckpointManager\<close> of \<open>recovery.rs\<close>: checkpoints as contents of the content store, with their
  lineage and the budget on what is uploaded.  \<open>TaskCheckpoint\<close> belongs to the runtime
  contracts crate: it is the type parameter \<open>'k\<close>, and what is called on it is
  \<open>checkpoint_api\<close>.
\<close>

record ('k, 's) checkpoint_api =
  ck_self_consistent :: "'k \<Rightarrow> bool"
  ck_sequence :: "'k \<Rightarrow> u64"
  ck_checkpoint_schema :: "'k \<Rightarrow> 's"
  ck_task_schema :: "'k \<Rightarrow> 's"
  ck_input_content_id :: "'k \<Rightarrow> ContentId"
  ck_json :: "'k serde"
  ck_validate_restore :: "'k \<Rightarrow> 's \<Rightarrow> u64 \<Rightarrow> ContentId \<Rightarrow> bool"

section \<open>State\<close>

record CheckpointBudget =
  cb_max_checkpoint_bytes :: u64
  cb_max_uploaded_bytes :: u64
  cb_max_operations :: nat

record CheckpointManager =
  chm_store :: ContentStore
  chm_budget :: CheckpointBudget
  chm_uploaded_bytes :: u64
  chm_operations :: nat

definition checkpoint_format :: string where
  "checkpoint_format = ''application/vnd.mutsuki.task-checkpoint+json''"

definition checkpoint_manager_new :: "ContentStore \<Rightarrow> CheckpointBudget \<Rightarrow> CheckpointManager result" where
  "checkpoint_manager_new store budget =
     (if cb_max_checkpoint_bytes budget = 0 \<or> cb_max_uploaded_bytes budget = 0 \<or> cb_max_operations budget = 0
      then Inl recovery_config_error
      else Inr \<lparr>chm_store = store, chm_budget = budget, chm_uploaded_bytes = 0, chm_operations = 0\<rparr>)"

section \<open>Lineage\<close>

definition changed_chunk_indices :: "ContentManifest \<Rightarrow> ContentManifest \<Rightarrow> u32 list" where
  "changed_chunk_indices previous current =
     map ch_index (filter (\<lambda>chunk.
       if unat (ch_index chunk) < length (cm_chunks previous)
       then let old = cm_chunks previous ! unat (ch_index chunk)
            in ch_digest old \<noteq> ch_digest chunk \<or> ch_size old \<noteq> ch_size chunk
       else True) (cm_chunks current))"

definition validate_checkpoint_lineage ::
  "('k, 's) checkpoint_api \<Rightarrow> 's CheckpointArtifactManifest \<Rightarrow> GlobalTaskId \<Rightarrow> 'k \<Rightarrow> u64 \<Rightarrow> unit result" where
  "validate_checkpoint_lineage ck previous gid k generation =
     (if ca_task_id previous \<noteq> gid \<or> ca_sequence previous \<ge> ck_sequence ck k
         \<or> ca_checkpoint_schema previous \<noteq> ck_checkpoint_schema ck k
         \<or> ca_task_schema previous \<noteq> ck_task_schema ck k
         \<or> ca_plugin_generation previous \<noteq> generation
         \<or> ca_input_content_id previous \<noteq> ck_input_content_id ck k
         \<or> (\<not> ca_complete_baseline previous \<and> ca_previous_content_id previous = None)
      then Inl checkpoint_incompatible else Inr ())"

section \<open>Persisting and restoring\<close>

text \<open>The answers of the file system to the three parts of \<open>persist\<close> that use the store.\<close>

record persist_io =
  pi_plan :: store_io
  pi_put :: store_io
  pi_lineage :: store_io

definition checkpoint_lineage ::
  "('k, 's) checkpoint_api \<Rightarrow> ContentManifest serde \<Rightarrow> store_io \<Rightarrow> ContentStore \<Rightarrow> GlobalTaskId \<Rightarrow> 'k \<Rightarrow> u64
     \<Rightarrow> 's CheckpointArtifactManifest option \<Rightarrow> ContentManifest
     \<Rightarrow> (ContentId \<times> ContentId option \<times> bool \<times> u32 list) result" where
  "checkpoint_lineage ck sd io s gid k generation previous content =
     (case previous of
        Some previous \<Rightarrow>
          bind_result (validate_checkpoint_lineage ck previous gid k generation) (\<lambda>_.
          bind_result (store_manifest sd io s (ca_baseline_content_id previous)) (\<lambda>_.
          bind_result (store_manifest sd io s (ca_checkpoint_content_id previous)) (\<lambda>previous_manifest.
            Inr (ca_baseline_content_id previous, Some (ca_checkpoint_content_id previous), False,
                 changed_chunk_indices previous_manifest content))))
      | None \<Rightarrow> Inr (cm_content_id content, None, True, map ch_index (cm_chunks content)))"

definition checkpoint_artifact ::
  "('k, 's) checkpoint_api \<Rightarrow> GlobalTaskId \<Rightarrow> u32 \<Rightarrow> 'k \<Rightarrow> u64 \<Rightarrow> ContentManifest
     \<Rightarrow> ContentId \<times> ContentId option \<times> bool \<times> u32 list \<Rightarrow> 's CheckpointArtifactManifest" where
  "checkpoint_artifact ck gid source_attempt k generation content = (\<lambda>(baseline, previous, complete, changed).
     \<lparr>ca_task_id = gid, ca_source_attempt = source_attempt, ca_sequence = ck_sequence ck k,
      ca_checkpoint_schema = ck_checkpoint_schema ck k, ca_task_schema = ck_task_schema ck k,
      ca_plugin_generation = generation, ca_input_content_id = ck_input_content_id ck k,
      ca_checkpoint_content_id = cm_content_id content, ca_baseline_content_id = baseline,
      ca_previous_content_id = previous, ca_changed_chunks = changed, ca_complete_baseline = complete\<rparr>)"

definition persist_admit ::
  "('k, 's) checkpoint_api \<Rightarrow> (bytes \<Rightarrow> bytes) \<Rightarrow> store_io \<Rightarrow> u32 \<Rightarrow> 'k \<Rightarrow> u64 \<Rightarrow> ResourcePolicy \<Rightarrow> CheckpointManager
     \<Rightarrow> bytes result" where
  "persist_admit ck sha io source_attempt k generation policy m =
     (if source_attempt = 0 \<or> generation = 0 \<or> \<not> ck_self_consistent ck k then Inl checkpoint_incompatible
      else if chm_operations m \<ge> cb_max_operations (chm_budget m) then Inl recovery_budget_exceeded
      else bind_result (ok_or checkpoint_incompatible (to_vec (ck_json ck) k)) (\<lambda>encoded.
        if of_nat (length encoded) > cb_max_checkpoint_bytes (chm_budget m) then Inl recovery_budget_exceeded
        else bind_result (build_manifest sha (chm_store m) encoded checkpoint_format policy) (\<lambda>planned.
          bind_result (missing_upload_bytes sha io (chm_store m) planned) (\<lambda>expected.
            if sat_add (chm_uploaded_bytes m) expected > cb_max_uploaded_bytes (chm_budget m)
            then Inl recovery_budget_exceeded else Inr encoded))))"

definition persist ::
  "('k, 's) checkpoint_api \<Rightarrow> ContentManifest serde \<Rightarrow> (bytes \<Rightarrow> bytes) \<Rightarrow> persist_io \<Rightarrow> GlobalTaskId \<Rightarrow> u32 \<Rightarrow> 'k \<Rightarrow> u64
     \<Rightarrow> 's CheckpointArtifactManifest option \<Rightarrow> ResourcePolicy \<Rightarrow> CheckpointManager
     \<Rightarrow> 's CheckpointArtifactManifest result \<times> CheckpointManager" where
  "persist ck sd sha io gid source_attempt k generation previous policy m =
     (case persist_admit ck sha (pi_plan io) source_attempt k generation policy m of
        Inl e \<Rightarrow> (Inl e, m)
      | Inr encoded \<Rightarrow>
          (case put_bytes sd sha (pi_put io) encoded checkpoint_format policy (chm_store m) of
             (Inl e, s) \<Rightarrow> (Inl e, m\<lparr>chm_store := s\<rparr>)
           | (Inr (content, stats), s) \<Rightarrow>
               let m = m\<lparr>chm_store := s\<rparr> in
               (case checked_add (chm_uploaded_bytes m) (us_bytes_uploaded stats) of
                  None \<Rightarrow> (Inl recovery_budget_exceeded, m)
                | Some next_uploaded \<Rightarrow>
                    if next_uploaded > cb_max_uploaded_bytes (chm_budget m) then (Inl recovery_budget_exceeded, m)
                    else case checkpoint_lineage ck sd (pi_lineage io) s gid k generation previous content of
                      Inl e \<Rightarrow> (Inl e, m)
                    | Inr lineage \<Rightarrow>
                        (Inr (checkpoint_artifact ck gid source_attempt k generation content lineage),
                         m\<lparr>chm_uploaded_bytes := next_uploaded, chm_operations := chm_operations m + 1\<rparr>))))"

definition restore ::
  "('k, 's) checkpoint_api \<Rightarrow> ContentManifest serde \<Rightarrow> (bytes \<Rightarrow> bytes) \<Rightarrow> store_io \<Rightarrow> 's CheckpointArtifactManifest
     \<Rightarrow> 's \<Rightarrow> u64 \<Rightarrow> ContentId \<Rightarrow> CheckpointManager \<Rightarrow> 'k result" where
  "restore ck sd sha io artifact schema generation input m =
     (if generation \<noteq> ca_plugin_generation artifact \<or> schema \<noteq> ca_task_schema artifact
         \<or> input \<noteq> ca_input_content_id artifact
      then Inl checkpoint_incompatible
      else bind_result (read_content sd sha io (chm_store m) (ca_checkpoint_content_id artifact)) (\<lambda>bs.
        bind_result (ok_or checkpoint_incompatible (from_slice (ck_json ck) bs)) (\<lambda>k.
          if ck_validate_restore ck k schema generation input then Inr k else Inl checkpoint_incompatible)))"

text \<open>\<open>f_lit 8 1\<close> is \<open>0.8\<close>.\<close>

definition adaptive_interval :: "'f f64_arith \<Rightarrow> u64 \<Rightarrow> u64 \<Rightarrow> u64 \<Rightarrow> 'f \<Rightarrow> u64 option" where
  "adaptive_interval f checkpoint_cost lost_work deadline_remaining network_pressure =
     (if checkpoint_cost = 0 \<or> lost_work = 0 \<or> deadline_remaining = 0
         \<or> \<not> f_finite f network_pressure \<or> f_le f (f_lit f 8 1) network_pressure
      then None
      else
        let pressure_multiplier = (if f_le f (f_lit f 5 1) network_pressure then 4 else 2)
        in Some (min (max (sat_mul checkpoint_cost pressure_multiplier) 1) deadline_remaining))"

section \<open>Lemmas\<close>

lemma persist_Inr:
  assumes "persist ck sd sha io gid a k g previous policy m = (Inr artifact, m')"
  obtains encoded content stats lineage where
    "persist_admit ck sha (pi_plan io) a k g policy m = Inr encoded"
    "put_bytes sd sha (pi_put io) encoded checkpoint_format policy (chm_store m) = (Inr (content, stats), chm_store m')"
    "checkpoint_lineage ck sd (pi_lineage io) (chm_store m') gid k g previous content = Inr lineage"
    "artifact = checkpoint_artifact ck gid a k g content lineage"
    "chm_budget m' = chm_budget m" "chm_operations m' = chm_operations m + 1"
    "chm_uploaded_bytes m' \<le> cb_max_uploaded_bytes (chm_budget m)"
    "unat (chm_uploaded_bytes m') = unat (chm_uploaded_bytes m) + unat (us_bytes_uploaded stats)"
proof -
  obtain encoded content stats s lineage next_uploaded where *:
    "persist_admit ck sha (pi_plan io) a k g policy m = Inr encoded"
    "put_bytes sd sha (pi_put io) encoded checkpoint_format policy (chm_store m) = (Inr (content, stats), s)"
    "checkpoint_lineage ck sd (pi_lineage io) s gid k g previous content = Inr lineage"
    "artifact = checkpoint_artifact ck gid a k g content lineage"
    "checked_add (chm_uploaded_bytes m) (us_bytes_uploaded stats) = Some next_uploaded"
    "\<not> next_uploaded > cb_max_uploaded_bytes (chm_budget m)"
    "m' = m\<lparr>chm_store := s, chm_uploaded_bytes := next_uploaded, chm_operations := chm_operations m + 1\<rparr>"
    using assms by (auto simp: persist_def Let_def split: sum.splits prod.splits option.splits if_splits)
  show thesis by (rule that [OF *(1) _ _ *(4)]) (use * unat_checked_add [OF *(5)] in \<open>simp_all add: not_less\<close>)
qed

lemma persist_admit_Inr:
  assumes "persist_admit ck sha io a k g policy m = Inr encoded"
  shows "to_vec (ck_json ck) k = Some encoded" "a \<noteq> 0" "g \<noteq> 0" "ck_self_consistent ck k"
    "chm_operations m < cb_max_operations (chm_budget m)"
  using assms by (auto simp: persist_admit_def bind_result_Inr split: if_splits)

lemma persist_Inl:
  assumes "persist ck sd sha io gid a k g previous policy m = (Inl e, m')"
  shows "chm_budget m' = chm_budget m \<and> chm_operations m' = chm_operations m \<and> chm_uploaded_bytes m' = chm_uploaded_bytes m"
  using assms by (auto simp: persist_def Let_def split: sum.splits prod.splits option.splits if_splits)

lemma checkpoint_artifact_simps [simp]:
  "ca_plugin_generation (checkpoint_artifact ck gid a k g content l) = g"
  "ca_task_schema (checkpoint_artifact ck gid a k g content l) = ck_task_schema ck k"
  "ca_input_content_id (checkpoint_artifact ck gid a k g content l) = ck_input_content_id ck k"
  "ca_checkpoint_content_id (checkpoint_artifact ck gid a k g content l) = cm_content_id content"
  "ca_task_id (checkpoint_artifact ck gid a k g content l) = gid"
  "ca_sequence (checkpoint_artifact ck gid a k g content l) = ck_sequence ck k"
  "ca_checkpoint_schema (checkpoint_artifact ck gid a k g content l) = ck_checkpoint_schema ck k"
  by (simp_all add: checkpoint_artifact_def split: prod.splits)

text \<open>What is put is read back, also when it was there before under the same format.\<close>

lemma put_then_read:
  assumes ok: "store_ok sd sha s" and sd: "serde_ok sd" and put: "put_bytes sd sha io bs fmt pol s = (Inr (m, st), s1)"
    and same: "\<And>m0. committed sd s (cid_digest (cm_content_id m)) = Some m0 \<Longrightarrow> cm_content_id m0 = cm_content_id m"
    and free: "collision_free sha bs"
    and later: "\<forall>x \<in> set later. cid_digest (cm_content_id m) \<notin> removed_digest x" and io: "\<forall>dir f. si_read io' dir f"
  shows "read_content sd sha io' (run_store sd sha later s1) (cm_content_id m) = Inr bs"
proof -
  let ?dg = "cid_digest (cm_content_id m)" and ?s2 = "run_store sd sha later s1"
  have ok1: "store_ok sd sha s1" using put_bytes_ok [OF ok sd put] by simp
  have bm: "build_manifest sha s bs fmt pol = Inr m" using put by (auto simp: put_bytes_def split: sum.splits if_splits prod.splits)
  then have dg: "?dg = sha256_hex sha bs" by (auto simp: build_manifest_def Let_def split: if_splits)
  obtain m0 where m0: "committed sd s1 ?dg = Some m0" "cm_content_id m0 = cm_content_id m"
  proof (cases "has_content s (cm_content_id m)")
    case True
    then have s1: "s1 = s" using put bm by (simp add: put_bytes_def)
    obtain m1 where c: "committed sd s ?dg = Some m1"
      using True store_okD(2) [OF ok, of ?dg] by (auto simp: has_content_def)
    show thesis by (rule that [of m1, unfolded s1, OF c same [OF c]])
  next
    case False
    show thesis by (rule that [OF conjunct1 [OF put_bytes_committed [OF ok sd False put]] refl])
  qed
  have "sha256_hex sha (content_bytes (cs_chunks s1) m0) = ?dg" using committed_readable [OF ok1 m0(1) io] by simp
  then have bs: "content_bytes (cs_chunks s1) m0 = bs" using dg free by (simp add: collision_free_def)
  have run: "store_ok sd sha ?s2" "keeps sd (\<Union> (removed_digest ` set later)) s1 ?s2"
    using run_store_ok [OF ok1 sd, of later] by simp_all
  have c2: "committed sd ?s2 ?dg = Some m0" "same_chunks (cs_chunks s1) (cs_chunks ?s2) m0"
    using run(2) m0(1) later by (auto simp: keeps_def)
  show ?thesis using committed_readable [OF run(1) c2(1) io] same_chunks_bytes [OF c2(2)] bs m0(2) by simp
qed

lemma adaptive_interval_bounds:
  assumes "adaptive_interval f cost lost deadline pressure = Some i"
  shows "1 \<le> i \<and> i \<le> deadline"
proof -
  have "deadline \<noteq> 0" and i: "\<exists>c. i = min (max c 1) deadline"
    using assms by (auto simp: adaptive_interval_def Let_def split: if_splits)
  then have "1 \<le> deadline" by (simp add: word_le_nat_alt Suc_le_eq unat_gt_0)
  then show ?thesis using i by (auto simp: min.bounded_iff)
qed

end
