(* ===== verification/Recovery_Properties.thy ===== *)
theory Recovery_Properties
  imports Checkpoints
begin

text \<open>
  What recovery keeps: a planned attempt is one the registry assigns, checkpoints come back as
  they were and name what changed, and the budgets on uploads and mirrored sessions hold.
\<close>

section \<open>Lemmas\<close>

lemma target_runner_Some:
  "target_runner wa target = Some g \<Longrightarrow> g \<in> set (wa_runners wa)
     \<and> rg_runner_generation g = tg_runner_generation target \<and> rg_plugin_generation g = tg_plugin_generation target"
  by (auto simp: target_runner_def find_Some_iff in_set_conv_nth)

lemma build_manifest_index:
  assumes "build_manifest sha s bs fmt pol = Inr m" and "i < length (cm_chunks m)"
  shows "unat (ch_index (cm_chunks m ! i)) = i"
proof -
  have chunks: "cm_chunks m = map (describe_chunk sha) (enumerate 0 (chunks_of (cs_chunk_size s) bs))"
    and fits: "\<forall>c \<in> set (cm_chunks m). ch_index c \<noteq> - 1"
    using assms(1) by (auto simp: build_manifest_def Let_def list_ex_iff split: if_splits)
  have idx: "ch_index (cm_chunks m ! i) = index_u32 i" using assms(2) by (simp add: chunks describe_chunk_def nth_enumerate_eq)
  then have "index_u32 i \<noteq> - 1" using fits assms(2) nth_mem by force
  then obtain w where "try_u32 i = Some w" by (cases "try_u32 i") (simp_all add: index_u32_def)
  then show ?thesis using idx try_u32_Some [of i w] by (simp add: index_u32_def)
qed

lemma changed_chunks_sound:
  assumes "build_manifest sha s bs fmt pol = Inr m" and "i < length (cm_chunks m)"
    and "of_nat i \<notin> set (changed_chunk_indices previous m)"
  shows "i < length (cm_chunks previous) \<and> ch_digest (cm_chunks m ! i) = ch_digest (cm_chunks previous ! i)
    \<and> ch_size (cm_chunks m ! i) = ch_size (cm_chunks previous ! i)"
proof -
  have idx: "unat (ch_index (cm_chunks m ! i)) = i" by (rule build_manifest_index [OF assms(1,2)])
  then have "of_nat i = ch_index (cm_chunks m ! i)" by (metis of_nat_unat ucast_id)
  moreover have "cm_chunks m ! i \<in> set (cm_chunks m)" using assms(2) by simp
  ultimately show ?thesis using assms(3) idx by (fastforce simp: changed_chunk_indices_def Let_def)
qed

section \<open>Plans\<close>

text \<open>
  Claim C17. A plan to run a task again is one the registry can carry out: for a live task on a
  registered worker the planned attempt is assigned as the next one, on the target's node, within
  the number of attempts of the policy, after a delay of at most the largest back-off.  The
  policy allows it: its deadline has not passed, a speculative run is allowed when the failure is
  only suspected, and the target has the quality it asks for.  The worker is ready and eligible
  for the task, has a runner with the generations of the target, the one the task asks for if it
  names one, and the inputs of the task are recoverable; the task can be restarted from its input, or
  the checkpoint is usable there.
\<close>

theorem planned_attempt_assignable:
  assumes planned: "is_Restart action \<or> is_RestoreCheckpoint action"
    and plan: "plan api f r policy failure wa target resources checkpoint standby now = action"
    and ok: "task_ok r" and live: "\<not> is_terminal (rec_state r)" "rec_state r \<noteq> OutputStaged"
    and worker: "worker_ok (wa_node_id wa) wa" and room: "\<forall>a \<in> set (rec_attempts r). att_attempt a \<noteq> - 1"
    and attempt: "attempt = \<lparr>att_attempt = planned_attempt action, att_node = tg_node_id (planned_target action), att_handle = handle,
      att_runner_generation = tg_runner_generation (planned_target action), att_active = True\<rparr>"
  shows "\<exists>r'. apply_existing (Assign (spec_task_id (rec_spec r)) attempt) r = Inr r' \<and> task_ok r'
    \<and> rec_attempts r' = map (\<lambda>a. a\<lparr>att_active := False\<rparr>) (rec_attempts r) @ [attempt]
    \<and> length (rec_attempts r') \<le> unat (rp_max_attempts policy)
    \<and> planned_target action = target \<and> att_node attempt = wa_node_id wa \<and> wa_health wa = HealthReady
    \<and> (\<exists>g \<in> set (wa_runners wa). rg_runner_generation g = tg_runner_generation target
         \<and> rg_plugin_generation g = tg_plugin_generation target
         \<and> runner_hint api (spec_portable (rec_spec r)) \<in> {None, Some (rg_runner_id g)})
    \<and> remote_eligible api wa (spec_portable (rec_spec r)) (spec_requirements (rec_spec r))
    \<and> inputs_recoverable resources (spec_required_inputs (rec_spec r))
    \<and> \<not> f_lt f (tg_quality target) (rp_minimum_quality policy)
    \<and> (\<forall>deadline. rp_deadline policy = Some deadline \<longrightarrow> now < deadline)
    \<and> (failure \<in> {ConfirmedSuspect, ExplicitSpeculative} \<longrightarrow> rp_allow_speculative policy)
    \<and> (is_Restart action \<longrightarrow> can_restart_from_input api (spec_portable (rec_spec r)))
    \<and> (is_RestoreCheckpoint action \<longrightarrow> checkpoint = Some (planned_checkpoint action)
         \<and> checkpoint_usable api r target resources (planned_checkpoint action))
    \<and> not_before action = sat_add now (backoff policy (planned_attempt action))
    \<and> unat (not_before action) \<le> unat now + unat (rp_max_backoff policy)"
proof -
  from planned plan obtain runner where p: "length (rec_attempts r) < unat (rp_max_attempts policy)"
    "target_admissible api f r policy wa target resources" "target_runner wa target = Some runner"
    "planned_attempt action = next_durable_attempt (rec_attempts r)"
    "not_before action = sat_add now (backoff policy (next_durable_attempt (rec_attempts r)))" "planned_target action = target"
    and guards: "\<forall>deadline. rp_deadline policy = Some deadline \<longrightarrow> now < deadline"
    "failure \<in> {ConfirmedSuspect, ExplicitSpeculative} \<longrightarrow> rp_allow_speculative policy"
    and hint: "\<forall>h. runner_hint api (spec_portable (rec_spec r)) = Some h \<longrightarrow> h = rg_runner_id runner"
    and tier: "is_Restart action \<longrightarrow> can_restart_from_input api (spec_portable (rec_spec r))"
    "is_RestoreCheckpoint action \<longrightarrow> checkpoint = Some (planned_checkpoint action)
       \<and> checkpoint_usable api r target resources (planned_checkpoint action)"
    by (rule plan_attempt) blast
  have runner: "\<exists>g \<in> set (wa_runners wa). rg_runner_generation g = tg_runner_generation target
      \<and> rg_plugin_generation g = tg_plugin_generation target
      \<and> runner_hint api (spec_portable (rec_spec r)) \<in> {None, Some (rg_runner_id g)}"
    using target_runner_Some [OF p(3)] hint by (cases "runner_hint api (spec_portable (rec_spec r))") auto
  have attempts: "attempts_ok (rec_state r) (rec_attempts r)" using ok by (simp add: task_ok_def)
  have "att_attempt a < att_attempt attempt" if "a \<in> set (rec_attempts r)" for a
    using next_attempt_above [of "rec_attempts r" a] attempts room that by (auto simp: attempts_ok_def attempt p(4))
  then have above: "\<not> list_ex (\<lambda>a. att_attempt a \<ge> att_attempt attempt) (rec_attempts r)" by (auto simp: list_ex_iff not_le)
  have "next_durable_attempt (rec_attempts r) \<noteq> 0"
    using room sat_add_one_fresh [of "att_attempt (last (rec_attempts r))"] last_in_set [of "rec_attempts r"]
    by (auto simp: next_durable_attempt_def)
  moreover have "tg_runner_generation target \<noteq> 0"
    using target_runner_Some [OF p(3)] worker by (auto simp: worker_ok_def)
  ultimately have assigned: "apply_existing (Assign (spec_task_id (rec_spec r)) attempt) r =
      Inr ((deactivate_attempts r)\<lparr>rec_attempts := rec_attempts (deactivate_attempts r) @ [attempt], rec_state := Assigned\<rparr>)"
    using live above by (simp add: attempt p(4,6) Let_def)
  have wf: "mutation_wf (Assign (spec_task_id (rec_spec r)) attempt)" by (simp add: attempt)
  have "unat (backoff policy k) \<le> unat (rp_max_backoff policy)" for k
    using backoff_bounded [of policy k] by (simp add: word_le_nat_alt)
  then have delay: "unat (not_before action) \<le> unat now + unat (rp_max_backoff policy)"
    unfolding p(5) unat_sat_add by (meson add_left_mono le_trans min.cobounded1)
  have fits: "remote_eligible api wa (spec_portable (rec_spec r)) (spec_requirements (rec_spec r))"
    "inputs_recoverable resources (spec_required_inputs (rec_spec r))"
    "\<not> f_lt f (tg_quality target) (rp_minimum_quality policy)" "tg_node_id target = wa_node_id wa"
    using p(2) by (simp_all add: target_admissible_def)
  moreover have "wa_health wa = HealthReady" using fits(1) by (simp add: remote_eligible_def split: if_splits)
  ultimately show ?thesis
    using assigned apply_existing_task_ok [OF assigned ok wf] p(1) delay runner guards tier
    by (simp add: deactivate_attempts_def attempt p(4-6))
qed

text \<open>
  The planner does not look at the state of the task: it plans a restart of a task
  whose output is staged or committed as it does for a live one, and the registry refuses it.
\<close>

theorem plan_ignores_state:
  assumes "is_Restart action" and "plan api f r policy failure wa target resources checkpoint standby now = action"
    and "s \<in> {OutputStaged, Committed, Failed, Cancelled}"
  shows "plan api f (r\<lparr>rec_state := s\<rparr>) policy failure wa target resources checkpoint standby now = action
    \<and> apply_existing (Assign gid attempt) (r\<lparr>rec_state := s\<rparr>) = Inl invalid_transition"
proof -
  have admissible: "target_admissible api f (r\<lparr>rec_state := s\<rparr>) policy wa target resources =
      target_admissible api f r policy wa target resources"
    by (simp add: target_admissible_def)
  have usable: "checkpoint_usable api (r\<lparr>rec_state := s\<rparr>) target resources cp = checkpoint_usable api r target resources cp" for cp
    by (simp add: checkpoint_usable_def)
  have fields: "rec_spec (r\<lparr>rec_state := s\<rparr>) = rec_spec r" "rec_attempts (r\<lparr>rec_state := s\<rparr>) = rec_attempts r" by simp_all
  have "plan api f (r\<lparr>rec_state := s\<rparr>) policy failure wa target resources checkpoint standby now =
      plan api f r policy failure wa target resources checkpoint standby now"
    unfolding plan_def plan_tier_def admissible usable fields ..
  then show ?thesis using assms by (auto simp: is_terminal_def)
qed

text \<open>
  A target names no runner: the first runner with its generations is taken, and a target
  whose runner is the one the task asks for is refused when another runner of the worker has
  the same generations.
\<close>

lemma plan_takes_first_runner:
  assumes "wa_runners wa = g # gs" and "rg_runner_generation g = tg_runner_generation target"
    and "rg_plugin_generation g = tg_plugin_generation target"
    and "runner_hint api (spec_portable (rec_spec r)) = Some hint" "hint \<noteq> rg_runner_id g"
    and "failure = ConfirmedDead" "rp_deadline policy = None" "length (rec_attempts r) < unat (rp_max_attempts policy)"
    and "target_admissible api f r policy wa target resources"
  shows "plan api f r policy failure wa target resources checkpoint standby now = Fail ''target Runner hint is incompatible''"
  using assms by (simp add: plan_def target_runner_def)

text \<open>
  Claim C20. Whatever sessions are admitted and released, the mirrored sessions together stay
  within the budget on their number, compute, memory and network, as long as no limit is the
  largest number of its type.
\<close>

theorem mirrors_within_budget:
  assumes "mirror_new budget = Inr m0" and "m = fold mirror_step ops m0"
    and "mb_max_compute budget \<noteq> - 1" "mb_max_memory budget \<noteq> - 1" "mb_max_network budget \<noteq> - 1"
  shows "bt_len (ma_sessions m) \<le> mb_max_sessions budget
    \<and> sum_list (map (\<lambda>x. unat (fst x)) (bt_values (ma_sessions m))) \<le> unat (mb_max_compute budget)
    \<and> sum_list (map (\<lambda>x. unat (fst (snd x))) (bt_values (ma_sessions m))) \<le> unat (mb_max_memory budget)
    \<and> sum_list (map (\<lambda>x. unat (snd (snd x))) (bt_values (ma_sessions m))) \<le> unat (mb_max_network budget)"
proof -
  have m0: "mirror_ok m0" "ma_budget m0 = budget"
    using assms(1) by (auto simp: mirror_new_def mirror_ok_def split: if_splits)
  have "mirror_ok m" "ma_budget m = budget" using mirror_run_ok [OF m0(1), of ops] m0(2) assms(2-) by simp_all
  then show ?thesis unfolding mirror_ok_def fm_sum_values by simp
qed

section \<open>Checkpoints\<close>

text \<open>
  Claim C18. A checkpoint that was persisted is restored as it was, at once and after any later
  operations on the store, failed ones included, that do not remove it.  The digest is assumed
  to have no collision with its encoding, and no other content of another format to have it.
\<close>

theorem checkpoint_restores:
  assumes ok: "store_ok sd sha (chm_store m)" and codecs: "serde_ok sd" "serde_ok (ck_json ck)"
    and persisted: "persist ck sd sha io gid a k g previous policy m = (Inr artifact, m')"
    and encoding: "to_vec (ck_json ck) k = Some encoded" and free: "collision_free sha encoded"
    and formats: "\<forall>content. committed sd (chm_store m) (cid_digest (ca_checkpoint_content_id artifact)) = Some content
        \<longrightarrow> cm_content_id content = ca_checkpoint_content_id artifact"
    and later: "\<forall>x \<in> set later. cid_digest (ca_checkpoint_content_id artifact) \<notin> removed_digest x"
    and reads: "\<forall>dir f. si_read io' dir f"
    and valid: "ck_validate_restore ck k (ck_task_schema ck k) g (ck_input_content_id ck k)"
  shows "restore ck sd sha io' artifact (ck_task_schema ck k) g (ck_input_content_id ck k)
      (m'\<lparr>chm_store := run_store sd sha later (chm_store m')\<rparr>) = Inr k"
proof -
  from persisted obtain content stats lineage where
    p: "persist_admit ck sha (pi_plan io) a k g policy m = Inr encoded"
    "put_bytes sd sha (pi_put io) encoded checkpoint_format policy (chm_store m) = (Inr (content, stats), chm_store m')"
    "artifact = checkpoint_artifact ck gid a k g content lineage"
    using encoding by (elim persist_Inr) (metis option.inject persist_admit_Inr(1))
  have "read_content sd sha io' (run_store sd sha later (chm_store m')) (cm_content_id content) = Inr encoded"
    by (rule put_then_read [OF ok codecs(1) p(2) _ free]) (use formats later reads p(3) in simp_all)
  then show ?thesis
    using serde_okD [OF codecs(2) encoding] valid by (simp add: restore_def p(3))
qed

text \<open>
  Claim C19. A checkpoint that continues another one has a higher sequence number, the same
  task, schemas, generation and input, and the baseline of the other one; every chunk whose
  index it does not list is a chunk of the other one at the same place, with the same digest
  and size.
\<close>

theorem checkpoint_delta_sound:
  assumes "persist ck sd sha io gid a k g (Some previous) policy m = (Inr artifact, m')"
  shows "ca_sequence previous < ca_sequence artifact \<and> ca_task_id artifact = ca_task_id previous
    \<and> ca_checkpoint_schema artifact = ca_checkpoint_schema previous \<and> ca_task_schema artifact = ca_task_schema previous
    \<and> ca_plugin_generation artifact = ca_plugin_generation previous \<and> ca_input_content_id artifact = ca_input_content_id previous
    \<and> ca_baseline_content_id artifact = ca_baseline_content_id previous
    \<and> ca_previous_content_id artifact = Some (ca_checkpoint_content_id previous)
    \<and> (\<exists>encoded content old. to_vec (ck_json ck) k = Some encoded
         \<and> build_manifest sha (chm_store m) encoded checkpoint_format policy = Inr content
         \<and> cm_content_id content = ca_checkpoint_content_id artifact
         \<and> store_manifest sd (pi_lineage io) (chm_store m') (ca_checkpoint_content_id previous) = Inr old
         \<and> (\<forall>i < length (cm_chunks content). of_nat i \<in> set (ca_changed_chunks artifact)
              \<or> i < length (cm_chunks old) \<and> ch_digest (cm_chunks content ! i) = ch_digest (cm_chunks old ! i)
                \<and> ch_size (cm_chunks content ! i) = ch_size (cm_chunks old ! i)))"
proof -
  from assms obtain encoded content stats lineage where
    p: "persist_admit ck sha (pi_plan io) a k g policy m = Inr encoded"
    "put_bytes sd sha (pi_put io) encoded checkpoint_format policy (chm_store m) = (Inr (content, stats), chm_store m')"
    "checkpoint_lineage ck sd (pi_lineage io) (chm_store m') gid k g (Some previous) content = Inr lineage"
    "artifact = checkpoint_artifact ck gid a k g content lineage" by (elim persist_Inr) blast
  have bm: "build_manifest sha (chm_store m) encoded checkpoint_format policy = Inr content"
    using p(2) by (auto simp: put_bytes_def split: sum.splits if_splits prod.splits)
  obtain old where valid: "validate_checkpoint_lineage ck previous gid k g = Inr ()"
    and old: "store_manifest sd (pi_lineage io) (chm_store m') (ca_checkpoint_content_id previous) = Inr old"
    and lineage: "lineage = (ca_baseline_content_id previous, Some (ca_checkpoint_content_id previous), False,
        changed_chunk_indices old content)"
    using p(3) by (auto simp: checkpoint_lineage_def bind_result_Inr)
  have delta: "of_nat i \<in> set (changed_chunk_indices old content)
      \<or> i < length (cm_chunks old) \<and> ch_digest (cm_chunks content ! i) = ch_digest (cm_chunks old ! i)
        \<and> ch_size (cm_chunks content ! i) = ch_size (cm_chunks old ! i)" if "i < length (cm_chunks content)" for i
    using changed_chunks_sound [OF bm that, of old] by blast
  have fields: "ca_baseline_content_id artifact = ca_baseline_content_id previous"
    "ca_previous_content_id artifact = Some (ca_checkpoint_content_id previous)"
    "ca_changed_chunks artifact = changed_chunk_indices old content"
    by (simp_all add: p(4) lineage checkpoint_artifact_def)
  have same: "ca_sequence previous < ca_sequence artifact" "ca_task_id artifact = ca_task_id previous"
    "ca_checkpoint_schema artifact = ca_checkpoint_schema previous" "ca_task_schema artifact = ca_task_schema previous"
    "ca_plugin_generation artifact = ca_plugin_generation previous" "ca_input_content_id artifact = ca_input_content_id previous"
    using valid by (auto simp: validate_checkpoint_lineage_def p(4) not_le split: if_splits)
  have "cm_content_id content = ca_checkpoint_content_id artifact" by (simp add: p(4))
  with fields same bm old delta persist_admit_Inr(1) [OF p(1)] show ?thesis by auto
qed

definition persist_run ::
  "('k, 's) checkpoint_api \<Rightarrow> ContentManifest serde \<Rightarrow> (bytes \<Rightarrow> bytes)
     \<Rightarrow> persist_io \<times> GlobalTaskId \<times> u32 \<times> 'k \<times> u64 \<times> 's CheckpointArtifactManifest option \<times> ResourcePolicy
     \<Rightarrow> CheckpointManager \<Rightarrow> CheckpointManager" where
  "persist_run ck sd sha = (\<lambda>(io, gid, a, k, g, previous, policy) m. snd (persist ck sd sha io gid a k g previous policy m))"

lemma persist_run_bounds:
  assumes "chm_uploaded_bytes m \<le> cb_max_uploaded_bytes (chm_budget m)" and "chm_operations m \<le> cb_max_operations (chm_budget m)"
  shows "chm_budget (persist_run ck sd sha x m) = chm_budget m
    \<and> chm_uploaded_bytes (persist_run ck sd sha x m) \<le> cb_max_uploaded_bytes (chm_budget m)
    \<and> chm_operations (persist_run ck sd sha x m) \<le> cb_max_operations (chm_budget m)"
proof -
  obtain io gid a k g previous policy where x: "x = (io, gid, a, k, g, previous, policy)" by (cases x)
  obtain r m' where run: "persist ck sd sha io gid a k g previous policy m = (r, m')" by fastforce
  show ?thesis
  proof (cases r)
    case (Inl e)
    then show ?thesis using persist_Inl [OF run [unfolded Inl]] run assms by (simp add: persist_run_def x)
  next
    case (Inr artifact)
    from run [unfolded Inr] show ?thesis
      by (elim persist_Inr) (use run persist_admit_Inr(5) in \<open>fastforce simp: persist_run_def x\<close>)
  qed
qed

text \<open>
  The lineage of a checkpoint is looked at after its upload: a checkpoint that does not
  continue the given one is refused when its content is already committed, and neither its
  bytes nor the operation count against the budget, however often this is repeated.
\<close>

theorem refused_checkpoint_uploaded:
  assumes "store_ok sd sha (chm_store m)" and "serde_ok sd"
    and "persist_admit ck sha (pi_plan io) a k g policy m = Inr encoded"
    and "put_bytes sd sha (pi_put io) encoded checkpoint_format policy (chm_store m) = (Inr (content, stats), s)"
    and "\<not> has_content (chm_store m) (cm_content_id content)"
    and "checked_add (chm_uploaded_bytes m) (us_bytes_uploaded stats) = Some next_uploaded"
    and "next_uploaded \<le> cb_max_uploaded_bytes (chm_budget m)"
    and "validate_checkpoint_lineage ck previous gid k g = Inl e"
  shows "persist ck sd sha io gid a k g (Some previous) policy m = (Inl e, m\<lparr>chm_store := s\<rparr>)
    \<and> has_content s (cm_content_id content)"
proof -
  have "persist ck sd sha io gid a k g (Some previous) policy m = (Inl e, m\<lparr>chm_store := s\<rparr>)"
    using assms(3,4,6-8) by (simp add: persist_def checkpoint_lineage_def not_less Let_def)
  moreover have "bt_contains (cs_manifests s) (json_name (cid_digest (cm_content_id content)))"
    by (rule store_ok_committed(3) [OF conjunct1 [OF put_bytes_ok [OF assms(1,2,4)]]
          conjunct1 [OF put_bytes_committed [OF assms(1,2,5,4)]]])
  ultimately show ?thesis by (simp add: has_content_def)
qed

section \<open>Instances\<close>

definition demo_mirrors :: MirrorBudget where
  "demo_mirrors = \<lparr>mb_max_sessions = 1, mb_max_compute = 5, mb_max_memory = 5, mb_max_network = 5\<rparr>"

lemma mirrors_within_budget_witness:
  "\<exists>m. mirror_new demo_mirrors = Inr m
     \<and> bt_len (ma_sessions (fold mirror_step [AdmitMirror ''s'' True 3 0 0, AdmitMirror ''u'' True 3 0 0] m)) \<le> 1"
proof -
  have new: "mirror_new demo_mirrors = Inr \<lparr>ma_budget = demo_mirrors, ma_sessions = fmempty\<rparr>"
    by (simp add: mirror_new_def demo_mirrors_def)
  show ?thesis
    using mirrors_within_budget [OF new refl, of "[AdmitMirror ''s'' True 3 0 0, AdmitMirror ''u'' True 3 0 0]"] new
    by (simp add: demo_mirrors_def)
qed

definition demo_recovery_api :: "(unit, unit, unit, unit, unit) runtime_api" where
  "demo_recovery_api = \<lparr>has_supported_envelope = \<lambda>_. True, valid_envelope = \<lambda>_. True, mobility = \<lambda>_. Restartable,
     retry_safety = \<lambda>_. Idempotent, task_schema = \<lambda>_. (), protocol_id = \<lambda>_. ''p'', runner_hint = \<lambda>_. None,
     portable_resources = \<lambda>_. [],
     input_content_id = \<lambda>_. \<lparr>cid_algorithm = [], cid_digest = [], cid_size = 0, cid_format = []\<rparr>,
     local_task = \<lambda>_ _. (), is_satisfied_by = \<lambda>_ _. True\<rparr>"

definition demo_recovery_worker :: "(unit, unit) WorkerAdvertisement" where
  "demo_recovery_worker = \<lparr>wa_node_id = ''w'', wa_protocol_major = 1, wa_snapshot_version = 1, wa_capabilities = (),
     wa_portability = \<lparr>pf_tasks = [\<lparr>td_protocol_id = ''p'', td_task_schema = (), td_mobility = Restartable\<rparr>], pf_resources = []\<rparr>,
     wa_runners = [\<lparr>rg_runner_id = ''r'', rg_plugin_id = ''q'', rg_runner_generation = 1, rg_plugin_generation = 1\<rparr>],
     wa_localized_content = {||}, wa_health = HealthReady\<rparr>"

definition demo_lost_task :: "(unit, unit, unit) DurableTaskRecord" where
  "demo_lost_task = \<lparr>rec_spec = \<lparr>spec_task_id = ''t'', spec_portable = (), spec_requirements = (), spec_required_inputs = [],
       spec_requested = Fast\<rparr>, rec_state = Submitted, rec_acceptance = Fast, rec_metadata_copies = 1, rec_attempts = [],
     rec_staged = None, rec_committed = None, rec_conflicts = [], rec_failure = None\<rparr>"

definition demo_policy :: "int RecoveryPolicy" where
  "demo_policy = \<lparr>rp_tier = TierRestartable, rp_max_attempts = 2, rp_base_backoff = 3, rp_max_backoff = 9, rp_deadline = Some 20,
     rp_allow_speculative = False, rp_minimum_quality = 0\<rparr>"

definition demo_target :: "int RecoveryTarget" where
  "demo_target = \<lparr>tg_node_id = ''w'', tg_runner_generation = 1, tg_plugin_generation = 1, tg_quality = 1\<rparr>"

abbreviation demo_restart :: "(int, unit) RecoveryAction" where
  "demo_restart \<equiv> Restart 1 13 demo_target"

lemma demo_plan:
  "plan demo_recovery_api int_arith demo_lost_task demo_policy ConfirmedDead demo_recovery_worker demo_target demo_catalog_empty None None 10
     = demo_restart"
  by (simp add: plan_def plan_tier_def target_admissible_def target_runner_def remote_eligible_def inputs_recoverable_def
      can_restart_from_input_def next_durable_attempt_def backoff_def sat_sub_def sat_mul_def sat_add_def int_arith_def
      demo_recovery_api_def demo_lost_task_def demo_policy_def demo_recovery_worker_def demo_target_def Let_def)

lemma planned_attempt_assignable_witness:
  "\<exists>r'. apply_existing (Assign ''t'' \<lparr>att_attempt = 1, att_node = ''w'', att_handle = None, att_runner_generation = 1, att_active = True\<rparr>)
      demo_lost_task = Inr r' \<and> task_ok r'"
proof -
  have facts: "task_ok demo_lost_task" "\<not> is_terminal (rec_state demo_lost_task)" "rec_state demo_lost_task \<noteq> OutputStaged"
    "worker_ok (wa_node_id demo_recovery_worker) demo_recovery_worker" "\<forall>a \<in> set (rec_attempts demo_lost_task). att_attempt a \<noteq> - 1"
    by (simp_all add: task_ok_def attempts_ok_def outputs_ok_def demo_lost_task_def live_state_def is_terminal_def worker_ok_def
        demo_recovery_worker_def distributed_protocol_major_def)
  show ?thesis
    using planned_attempt_assignable [OF _ demo_plan facts refl, of None] by (auto simp: demo_target_def demo_lost_task_def)
qed

lemma plan_ignores_state_witness:
  "plan demo_recovery_api int_arith (demo_lost_task\<lparr>rec_state := Committed\<rparr>) demo_policy ConfirmedDead demo_recovery_worker demo_target
     demo_catalog_empty None None 10 = demo_restart"
  using plan_ignores_state [OF _ demo_plan, of Committed] by simp

text \<open>A checkpoint is a sequence number, encoded as the one content of the example store.\<close>

definition demo_checkpoint_api :: "(u64, unit) checkpoint_api" where
  "demo_checkpoint_api = \<lparr>ck_self_consistent = \<lambda>_. True, ck_sequence = id, ck_checkpoint_schema = \<lambda>_. (), ck_task_schema = \<lambda>_. (),
     ck_input_content_id = \<lambda>_. cm_content_id demo_stored, ck_json = serde_single 1 [7], ck_validate_restore = \<lambda>_ _ _ _. True\<rparr>"

definition demo_checkpoint :: ContentManifest where
  "demo_checkpoint = demo_stored\<lparr>cm_content_id := (cm_content_id demo_stored)\<lparr>cid_format := checkpoint_format\<rparr>\<rparr>"

definition demo_manager :: CheckpointManager where
  "demo_manager = \<lparr>chm_store = demo_store,
     chm_budget = \<lparr>cb_max_checkpoint_bytes = 8, cb_max_uploaded_bytes = - 1, cb_max_operations = 1\<rparr>,
     chm_uploaded_bytes = 0, chm_operations = 0\<rparr>"

abbreviation demo_checkpoint_codec :: "ContentManifest serde" where
  "demo_checkpoint_codec \<equiv> serde_single demo_checkpoint [9]"

abbreviation demo_persist_io :: persist_io where
  "demo_persist_io \<equiv> \<lparr>pi_plan = store_io_ok, pi_put = store_io_ok, pi_lineage = store_io_ok\<rparr>"

lemma demo_checkpoint_build:
  "cs_chunk_size s = 4 \<Longrightarrow> cs_max_chunks s = default_max_chunks
     \<Longrightarrow> build_manifest demo_sha s [7] checkpoint_format Reconstructible = Inr demo_checkpoint"
  by (simp add: build_manifest_def demo_store_facts(4) describe_chunk_def index_u32_def try_u32_def
      default_max_chunks_def demo_checkpoint_def demo_stored_def Let_def)

lemma demo_store_fields: "cs_chunk_size demo_store = 4" "cs_max_chunks demo_store = default_max_chunks"
  by (simp_all add: demo_store_def)

lemma demo_checkpoint_valid:
  assumes "cs_chunk_size s = 4" "cs_max_chunks s = default_max_chunks"
  shows "validate_manifest s demo_checkpoint = Inr ()"
proof -
  obtain m where "build_manifest demo_sha s [7] checkpoint_format Reconstructible = Inr m" "validate_manifest s m = Inr ()"
    by (rule build_manifest_ok [where n = 4 and s = s and sha = demo_sha and bs = "[7]" and fmt = checkpoint_format
          and pol = Reconstructible])
      (use assms demo_store_facts in \<open>simp_all add: default_max_chunks_def\<close>)
  then show ?thesis using demo_checkpoint_build [OF assms] by simp
qed

lemma demo_persist_admit:
  assumes "cs_chunk_size (chm_store m) = 4" "cs_max_chunks (chm_store m) = default_max_chunks"
    and "missing_upload_bytes demo_sha store_io_ok (chm_store m) demo_checkpoint = Inr expected"
    and "m = demo_manager\<lparr>chm_store := chm_store m\<rparr>"
  shows "persist_admit demo_checkpoint_api demo_sha store_io_ok 1 1 1 Reconstructible m = Inr [7]"
proof -
  have m: "chm_operations m = 0" "chm_uploaded_bytes m = 0" "chm_budget m = chm_budget demo_manager"
    by (subst assms(4), simp add: demo_manager_def)+
  show ?thesis
    using demo_checkpoint_build [OF assms(1,2)] assms(3)
    by (simp add: persist_admit_def demo_checkpoint_api_def serde_single_def m) (simp add: demo_manager_def)
qed

lemma demo_persist_put:
  obtains st s where "put_bytes demo_checkpoint_codec demo_sha store_io_ok [7] checkpoint_format Reconstructible demo_store
      = (Inr (demo_checkpoint, st), s)"
proof -
  have ok: "store_ok demo_checkpoint_codec demo_sha demo_store" using store_open_ok [OF demo_store_facts(2)] by blast
  have "\<exists>m st s'. put_bytes demo_checkpoint_codec demo_sha store_io_ok [7] checkpoint_format Reconstructible demo_store = (Inr (m, st), s')"
    by (rule put_bytes_succeeds [OF ok serde_single_ok, where n = 4])
       (use demo_checkpoint_build [OF demo_store_fields] demo_store_facts in
         \<open>auto simp: demo_store_def default_max_chunks_def serde_single_def\<close>)
  then show thesis
    using that demo_checkpoint_build [OF demo_store_fields] by (auto simp: put_bytes_def split: sum.splits if_splits prod.splits)
qed

lemma demo_manager_admit: "persist_admit demo_checkpoint_api demo_sha store_io_ok 1 1 1 Reconstructible demo_manager = Inr [7]"
proof (rule demo_persist_admit)
  show "missing_upload_bytes demo_sha store_io_ok (chm_store demo_manager) demo_checkpoint = Inr 1"
    using demo_checkpoint_valid [OF demo_store_fields]
    by (simp add: missing_upload_bytes_def demo_manager_def missing_chunks_def demo_checkpoint_def demo_stored_def demo_store_def
        bt_contains_def)
qed (simp_all add: demo_manager_def demo_store_fields)

lemma demo_checked_zero: "checked_add 0 x = Some x" for x :: u64
  using unat_bound [of x] by (simp add: checked_add_def)

lemma demo_persist:
  obtains s where "persist demo_checkpoint_api demo_checkpoint_codec demo_sha demo_persist_io ''t'' 1 1 1 None Reconstructible demo_manager =
    (Inr (checkpoint_artifact demo_checkpoint_api ''t'' 1 1 1 demo_checkpoint (cm_content_id demo_checkpoint, None, True, [0])), s)"
proof -
  obtain st s where "put_bytes demo_checkpoint_codec demo_sha store_io_ok [7] checkpoint_format Reconstructible demo_store
      = (Inr (demo_checkpoint, st), s)" by (rule demo_persist_put)
  then show thesis
    using that demo_manager_admit
    by (simp add: persist_def demo_manager_def demo_checked_zero checkpoint_lineage_def)
      (simp add: demo_checkpoint_def demo_stored_def)
qed

lemma checkpoint_restores_witness:
  "\<exists>artifact m'. persist demo_checkpoint_api demo_checkpoint_codec demo_sha demo_persist_io ''t'' 1 1 1 None Reconstructible demo_manager
      = (Inr artifact, m')
    \<and> restore demo_checkpoint_api demo_checkpoint_codec demo_sha store_io_ok artifact () 1 (cm_content_id demo_stored) m' = Inr 1"
proof -
  obtain m' where p: "persist demo_checkpoint_api demo_checkpoint_codec demo_sha demo_persist_io ''t'' 1 1 1 None Reconstructible demo_manager =
    (Inr (checkpoint_artifact demo_checkpoint_api ''t'' 1 1 1 demo_checkpoint (cm_content_id demo_checkpoint, None, True, [0])), m')"
    by (rule demo_persist)
  have ok: "store_ok demo_checkpoint_codec demo_sha (chm_store demo_manager)"
    using store_open_ok [OF demo_store_facts(2)] by (simp add: demo_manager_def)
  have json: "serde_ok (ck_json demo_checkpoint_api)" "to_vec (ck_json demo_checkpoint_api) 1 = Some [7]"
    "ck_validate_restore demo_checkpoint_api 1 s 1 cid" for s cid
    by (simp_all add: demo_checkpoint_api_def) (simp add: serde_single_def)
  have "committed demo_checkpoint_codec (chm_store demo_manager) dg = None" for dg
    by (simp add: demo_manager_def committed_def demo_store_def)
  then show ?thesis
    using checkpoint_restores [OF ok _ json(1) p json(2) demo_store_facts(5), of "[]" store_io_ok] json(3) p
    by (auto simp: run_store_def demo_checkpoint_api_def)
qed

definition demo_full_manager :: CheckpointManager where
  "demo_full_manager = demo_manager\<lparr>chm_store := demo_store\<lparr>
     cs_chunks := fmupd (sha256_hex demo_sha [7]) [7] fmempty,
     cs_manifests := fmupd (json_name (sha256_hex demo_sha [7])) [9] fmempty\<rparr>\<rparr>"

definition demo_previous :: "unit CheckpointArtifactManifest" where
  "demo_previous = (checkpoint_artifact demo_checkpoint_api ''t'' 1 1 1 demo_checkpoint (cm_content_id demo_checkpoint, None, True, [0]))
     \<lparr>ca_sequence := 0\<rparr>"

lemma demo_full_persist:
  "persist demo_checkpoint_api demo_checkpoint_codec demo_sha demo_persist_io ''t'' 1 1 1 (Some demo_previous) Reconstructible demo_full_manager =
    (Inr (checkpoint_artifact demo_checkpoint_api ''t'' 1 1 1 demo_checkpoint
       (cm_content_id demo_checkpoint, Some (cm_content_id demo_checkpoint), False, [])),
     demo_full_manager\<lparr>chm_operations := 1\<rparr>)"
proof -
  let ?s = "chm_store demo_full_manager"
  have dims: "cs_chunk_size ?s = 4" "cs_max_chunks ?s = default_max_chunks"
    by (simp_all add: demo_full_manager_def demo_store_fields)
  have dg: "cid_digest (cm_content_id demo_checkpoint) = sha256_hex demo_sha [7]" by (simp add: demo_checkpoint_def demo_stored_def)
  have content: "has_content ?s (cm_content_id demo_checkpoint)"
    by (simp add: has_content_def demo_full_manager_def dg bt_contains_def)
  have "missing_chunks demo_sha store_io_ok ?s demo_checkpoint = Inr []"
    by (simp add: missing_chunks_def demo_full_manager_def demo_checkpoint_def demo_stored_def bt_contains_def verify_file_def
        read_file_def matches_def)
  then have admit: "persist_admit demo_checkpoint_api demo_sha store_io_ok 1 1 1 Reconstructible demo_full_manager = Inr [7]"
    by (intro demo_persist_admit [OF dims, of 0])
      (simp_all add: missing_upload_bytes_def demo_checkpoint_valid [OF dims], simp add: demo_full_manager_def)
  have put: "put_bytes demo_checkpoint_codec demo_sha store_io_ok [7] checkpoint_format Reconstructible ?s =
      (Inr (demo_checkpoint, \<lparr>us_uploaded_chunks = 0, us_reused_chunks = 1, us_bytes_uploaded = 0\<rparr>), ?s)"
    using content demo_checkpoint_build [OF dims] by (simp add: put_bytes_def) (simp add: demo_checkpoint_def demo_stored_def)
  have manifest: "store_manifest demo_checkpoint_codec store_io_ok ?s (cm_content_id demo_checkpoint) = Inr demo_checkpoint"
    by (simp add: store_manifest_def committed_manifest_def dg read_json_def read_file_def demo_full_manager_def)
      (simp add: serde_single_def)
  have "changed_chunk_indices demo_checkpoint demo_checkpoint = []"
    by (simp add: changed_chunk_indices_def demo_checkpoint_def demo_stored_def)
  then have "checkpoint_lineage demo_checkpoint_api demo_checkpoint_codec store_io_ok ?s ''t'' 1 1 (Some demo_previous) demo_checkpoint =
      Inr (cm_content_id demo_checkpoint, Some (cm_content_id demo_checkpoint), False, [])"
    using manifest
    by (simp add: checkpoint_lineage_def validate_checkpoint_lineage_def demo_previous_def)
      (simp add: checkpoint_artifact_def demo_checkpoint_api_def)
  then show ?thesis
    using admit put by (simp add: persist_def) (simp add: demo_full_manager_def demo_manager_def demo_checked_zero)
qed

lemma checkpoint_delta_sound_witness:
  "ca_sequence demo_previous < ck_sequence demo_checkpoint_api 1 \<and> ca_task_id demo_previous = ''t''"
  using checkpoint_delta_sound [OF demo_full_persist] by simp

lemma refused_checkpoint_uploaded_witness:
  "\<exists>s. persist demo_checkpoint_api demo_checkpoint_codec demo_sha demo_persist_io ''other'' 1 1 1 (Some demo_previous) Reconstructible demo_manager
       = (Inl checkpoint_incompatible, demo_manager\<lparr>chm_store := s\<rparr>)
     \<and> has_content s (cm_content_id demo_checkpoint)"
proof -
  obtain st s where put: "put_bytes demo_checkpoint_codec demo_sha store_io_ok [7] checkpoint_format Reconstructible demo_store
      = (Inr (demo_checkpoint, st), s)" by (rule demo_persist_put)
  have ok: "store_ok demo_checkpoint_codec demo_sha (chm_store demo_manager)"
    using store_open_ok [OF demo_store_facts(2)] by (simp add: demo_manager_def)
  have "validate_checkpoint_lineage demo_checkpoint_api demo_previous ''other'' 1 1 = Inl checkpoint_incompatible"
    by (simp add: validate_checkpoint_lineage_def demo_previous_def)
  moreover have "chm_store demo_manager = demo_store" "chm_uploaded_bytes demo_manager = 0"
    "cb_max_uploaded_bytes (chm_budget demo_manager) = - 1" "\<not> has_content demo_store (cm_content_id demo_checkpoint)"
    by (simp_all add: demo_manager_def has_content_def demo_store_def bt_contains_def)
  ultimately show ?thesis
    using refused_checkpoint_uploaded [OF ok _ _ _ _ _ _, where io = demo_persist_io and ck = demo_checkpoint_api and k = 1 and a = 1
        and g = 1 and policy = Reconstructible and encoded = "[7]" and content = demo_checkpoint and stats = st and s = s
        and previous = demo_previous and gid = "''other''"]
      demo_manager_admit put by (auto simp: demo_checked_zero)
qed

end
