(* ===== verification/Trust_Identity.thy ===== *)
theory Trust_Identity
  imports Trust_Crypto
begin

text \<open>
  Node identities and who may run what, from \<open>trust_plane.rs\<close>: \<open>NodeIdentityRegistry\<close>, the
  policy engine, the check of the link and the meter of the trust budget.
\<close>

section \<open>The identity registry\<close>

record IdentityEntry =
  ie_identity :: NodeIdentity
  ie_secret :: bytes

record NodeIdentityRegistry =
  ir_entries :: "(NodeId, IdentityEntry) fmap"

definition identity_registry_new :: NodeIdentityRegistry where
  "identity_registry_new = \<lparr>ir_entries = fmempty\<rparr>"

text \<open>\<open>secret.fill(0)\<close>\<close>

definition wiped :: "bytes \<Rightarrow> bytes" where
  "wiped secret = replicate (length secret) 0"

definition validate_identity :: "NodeIdentity \<Rightarrow> bytes \<Rightarrow> u64 \<Rightarrow> unit result" where
  "validate_identity i secret now =
     (if ni_key_id i = [] \<or> ni_key_generation i = 0 \<or> ni_fingerprint i = []
         \<or> ni_valid_from i > now \<or> ni_valid_until i \<le> now
         \<or> length secret < min_key_bytes \<or> ni_trust_level i = LevelQuarantined
      then Inl trust_config_error else Inr ())"

definition identity_active_at :: "NodeIdentity \<Rightarrow> u64 \<Rightarrow> bool" where
  "identity_active_at i tick \<longleftrightarrow> ni_status i = StatusActive \<and> ni_valid_from i \<le> tick \<and> ni_valid_until i \<ge> tick"

definition insert_identity :: "NodeId \<Rightarrow> NodeIdentity \<Rightarrow> bytes \<Rightarrow> NodeIdentityRegistry \<Rightarrow> NodeIdentityRegistry" where
  "insert_identity n i secret r = r\<lparr>ir_entries := fmupd n \<lparr>ie_identity = i, ie_secret = secret\<rparr> (ir_entries r)\<rparr>"

definition get_entry :: "NodeIdentityRegistry \<Rightarrow> NodeId \<Rightarrow> IdentityEntry result" where
  "get_entry r n = ok_or identity_unknown (fmlookup (ir_entries r) n)"

definition approve :: "NodeIdentity \<Rightarrow> bytes \<Rightarrow> u64 \<Rightarrow> NodeIdentityRegistry \<Rightarrow> unit result \<times> NodeIdentityRegistry" where
  "approve i secret now r =
     (case validate_identity i secret now of
        Inl e \<Rightarrow> (Inl e, r)
      | Inr _ \<Rightarrow>
          if bt_contains (ir_entries r) (ni_node_id i) then (Inl identity_exists_error, r)
          else (Inr (), insert_identity (ni_node_id i) (i\<lparr>ni_status := StatusActive\<rparr>) secret r))"

text \<open>The identity that replaces another one has the next key generation.\<close>

definition successor_identity ::
  "NodeId \<Rightarrow> NodeIdentity \<Rightarrow> string \<Rightarrow> string \<Rightarrow> u64 \<Rightarrow> u64 \<Rightarrow> NodeTrustLevel \<Rightarrow> NodeIdentity" where
  "successor_identity n current key_id fingerprint from until level =
     \<lparr>ni_node_id = n, ni_key_id = key_id, ni_key_generation = sat_add (ni_key_generation current) 1,
      ni_fingerprint = fingerprint, ni_valid_from = from, ni_valid_until = until,
      ni_status = StatusActive, ni_trust_level = level\<rparr>"

definition replace_identity ::
  "NodeId \<Rightarrow> NodeIdentity \<Rightarrow> bytes \<Rightarrow> u64 \<Rightarrow> NodeIdentityRegistry \<Rightarrow> NodeIdentity result \<times> NodeIdentityRegistry" where
  "replace_identity n i secret now r =
     (case validate_identity i secret now of
        Inl e \<Rightarrow> (Inl e, r)
      | Inr _ \<Rightarrow> (Inr i, insert_identity n i secret r))"

definition rotate ::
  "NodeId \<Rightarrow> string \<Rightarrow> string \<Rightarrow> bytes \<Rightarrow> u64 \<Rightarrow> u64 \<Rightarrow> u64 \<Rightarrow> NodeIdentityRegistry
     \<Rightarrow> NodeIdentity result \<times> NodeIdentityRegistry" where
  "rotate n key_id fingerprint secret from until now r =
     (case get_entry r n of
        Inl e \<Rightarrow> (Inl e, r)
      | Inr current \<Rightarrow>
          if \<not> identity_active_at (ie_identity current) now \<or> length secret < min_key_bytes
          then (Inl identity_unavailable, r)
          else replace_identity n
                 (successor_identity n (ie_identity current) key_id fingerprint from until
                    (ni_trust_level (ie_identity current))) secret now r)"

definition revoke :: "NodeId \<Rightarrow> NodeIdentityRegistry \<Rightarrow> unit result \<times> NodeIdentityRegistry" where
  "revoke n r =
     (case get_entry r n of
        Inl e \<Rightarrow> (Inl e, r)
      | Inr x \<Rightarrow> (Inr (), insert_identity n ((ie_identity x)\<lparr>ni_status := StatusRevoked\<rparr>) (wiped (ie_secret x)) r))"

definition readmit ::
  "NodeId \<Rightarrow> string \<Rightarrow> string \<Rightarrow> bytes \<Rightarrow> NodeTrustLevel \<Rightarrow> u64 \<Rightarrow> u64 \<Rightarrow> AttestationVerdict \<Rightarrow> u64
     \<Rightarrow> NodeIdentityRegistry \<Rightarrow> NodeIdentity result \<times> NodeIdentityRegistry" where
  "readmit n key_id fingerprint secret level from until attestation now r =
     (case get_entry r n of
        Inl e \<Rightarrow> (Inl e, r)
      | Inr previous \<Rightarrow>
          if ni_status (ie_identity previous) \<notin> {StatusRevoked, StatusQuarantined}
             \<or> \<not> av_accepted attestation \<or> av_node_id attestation \<noteq> n \<or> av_valid_until attestation < now
          then (Inl trust_policy_error, r)
          else replace_identity n
                 (successor_identity n (ie_identity previous) key_id fingerprint from until level) secret now r)"

definition quarantine :: "NodeId \<Rightarrow> NodeIdentityRegistry \<Rightarrow> unit result \<times> NodeIdentityRegistry" where
  "quarantine n r =
     (case get_entry r n of
        Inl e \<Rightarrow> (Inl e, r)
      | Inr x \<Rightarrow>
          (Inr (), insert_identity n
             ((ie_identity x)\<lparr>ni_status := StatusQuarantined, ni_trust_level := LevelQuarantined\<rparr>)
             (wiped (ie_secret x)) r))"

definition set_trust_level :: "NodeId \<Rightarrow> NodeTrustLevel \<Rightarrow> NodeIdentityRegistry \<Rightarrow> unit result \<times> NodeIdentityRegistry" where
  "set_trust_level n level r =
     (case get_entry r n of
        Inl e \<Rightarrow> (Inl e, r)
      | Inr x \<Rightarrow>
          if ni_status (ie_identity x) \<noteq> StatusActive then (Inl identity_unavailable, r)
          else (Inr (), insert_identity n ((ie_identity x)\<lparr>ni_trust_level := level\<rparr>) (ie_secret x) r))"

definition identity_of :: "NodeIdentityRegistry \<Rightarrow> NodeId \<Rightarrow> NodeIdentity option" where
  "identity_of r n = map_option ie_identity (fmlookup (ir_entries r) n)"

definition eligible :: "NodeIdentityRegistry \<Rightarrow> NodeId \<Rightarrow> NodeTrustLevel \<Rightarrow> u64 \<Rightarrow> bool" where
  "eligible r n minimum now =
     (case fmlookup (ir_entries r) n of
        None \<Rightarrow> False
      | Some x \<Rightarrow> identity_active_at (ie_identity x) now \<and> ni_trust_level (ie_identity x) \<ge> minimum)"

definition identity_sign ::
  "trust_crypto \<Rightarrow> NodeIdentityRegistry \<Rightarrow> NodeId \<Rightarrow> bytes \<Rightarrow> u64 \<Rightarrow> (string \<times> string) result" where
  "identity_sign tc r n payload now =
     bind_result (get_entry r n) (\<lambda>x.
       if \<not> identity_active_at (ie_identity x) now then Inl identity_unavailable
       else bind_result (mac_hex tc (ie_secret x) payload) (\<lambda>tag. Inr (ni_key_id (ie_identity x), tag)))"

definition identity_verify ::
  "trust_crypto \<Rightarrow> NodeIdentityRegistry \<Rightarrow> NodeId \<Rightarrow> string \<Rightarrow> bytes \<Rightarrow> string \<Rightarrow> u64 \<Rightarrow> bool" where
  "identity_verify tc r n key_id payload tag now =
     (case fmlookup (ir_entries r) n of
        None \<Rightarrow> False
      | Some x \<Rightarrow> identity_active_at (ie_identity x) now \<and> ni_key_id (ie_identity x) = key_id
          \<and> verify_mac tc (ie_secret x) payload tag)"

section \<open>The link and the policy engine\<close>

text \<open>
  The peer, the quality and the security level of a session are values of the link library;
  the level is compared with that of an authenticated and encrypted session.
\<close>

record ('i, 'q, 'l) LinkSessionBinding =
  ls_peer_id :: 'i
  ls_quality :: 'q
  ls_security_level :: 'l

definition require_authenticated_encrypted_link ::
  "('l \<Rightarrow> 'l \<Rightarrow> bool) \<Rightarrow> 'l \<Rightarrow> ('i, 'q, 'l) LinkSessionBinding \<Rightarrow> unit result" where
  "require_authenticated_encrypted_link below authenticated_encrypted binding =
     (if below (ls_security_level binding) authenticated_encrypted then Inl insecure_link_error else Inr ())"

record TrustPolicyEngine =
  pe_mode :: TrustMode

definition attested :: "NodeId \<Rightarrow> u64 \<Rightarrow> AttestationVerdict option \<Rightarrow> bool" where
  "attested n now attestation =
     (case attestation of
        None \<Rightarrow> False
      | Some v \<Rightarrow> av_accepted v \<and> av_node_id v = n \<and> av_valid_until v \<ge> now)"

definition authorize_node ::
  "TrustPolicyEngine \<Rightarrow> NodeIdentityRegistry \<Rightarrow> NodeId \<Rightarrow> TaskTrustPolicy \<Rightarrow> bool \<Rightarrow> AttestationVerdict option
     \<Rightarrow> u64 \<Rightarrow> unit result" where
  "authorize_node engine r n policy integrity_verified attestation now =
     (if \<not> eligible r n (tp_minimum_trust policy) now then Inl trust_policy_error
      else bind_result (ok_or identity_unknown (identity_of r n)) (\<lambda>i.
        if \<not> flags_contain (tp_flags policy) allow_external_workers \<and> ni_trust_level i < LevelManaged
        then Inl trust_policy_error
        else if tp_sensitivity policy \<in> {Confidential, RestrictedData, Credential} \<and> ni_trust_level i < LevelManaged
        then Inl trust_policy_error
        else if tp_sensitivity policy = Credential \<and> ni_trust_level i \<noteq> LevelTrusted
        then Inl trust_policy_error
        else if \<not> integrity_verified then Inl trust_policy_error
        else if flags_contain (tp_flags policy) require_attestation \<and> \<not> attested n now attestation
        then Inl trust_policy_error
        else if pe_mode engine = RestrictedWorkers \<and> ni_trust_level i = LevelUntrusted \<and> tp_sensitivity policy \<noteq> Public
        then Inl trust_policy_error
        else Inr ()))"

section \<open>The budget of the trust plane\<close>

record TrustBudgetMeter =
  bm_budget :: TrustPlaneBudget
  bm_signatures :: u32
  bm_verifications :: u32
  bm_replays :: u32
  bm_audit_bytes :: u64
  bm_reputation_updates :: u32
  bm_attestations :: u32
  bm_compute_units :: u64
  bm_network_bytes :: u64
  bm_storage_bytes :: u64

definition trust_meter_new :: "TrustPlaneBudget \<Rightarrow> TrustBudgetMeter result" where
  "trust_meter_new b =
     (if tb_signatures b = 0 \<or> tb_verifications b = 0 \<or> tb_replays b = 0 \<or> tb_audit_events_per_segment b = 0
         \<or> tb_audit_metadata_entries b = 0 \<or> tb_audit_bytes b = 0 \<or> tb_reputation_updates b = 0
         \<or> tb_attestations b = 0 \<or> tb_compute_units b = 0 \<or> tb_network_bytes b = 0 \<or> tb_storage_bytes b = 0
      then Inl trust_config_error
      else Inr \<lparr>bm_budget = b, bm_signatures = 0, bm_verifications = 0, bm_replays = 0, bm_audit_bytes = 0,
             bm_reputation_updates = 0, bm_attestations = 0, bm_compute_units = 0, bm_network_bytes = 0,
             bm_storage_bytes = 0\<rparr>)"

definition admit_count :: "u32 \<Rightarrow> u32 \<Rightarrow> u32 option" where
  "admit_count current maximum = (if current \<ge> maximum then None else Some (current + 1))"

definition admit_signature :: "TrustBudgetMeter \<Rightarrow> bool \<times> TrustBudgetMeter" where
  "admit_signature m =
     (case admit_count (bm_signatures m) (tb_signatures (bm_budget m)) of
        None \<Rightarrow> (False, m) | Some k \<Rightarrow> (True, m\<lparr>bm_signatures := k\<rparr>))"

definition admit_verification :: "TrustBudgetMeter \<Rightarrow> bool \<times> TrustBudgetMeter" where
  "admit_verification m =
     (case admit_count (bm_verifications m) (tb_verifications (bm_budget m)) of
        None \<Rightarrow> (False, m) | Some k \<Rightarrow> (True, m\<lparr>bm_verifications := k\<rparr>))"

definition admit_replay :: "TrustBudgetMeter \<Rightarrow> bool \<times> TrustBudgetMeter" where
  "admit_replay m =
     (case admit_count (bm_replays m) (tb_replays (bm_budget m)) of
        None \<Rightarrow> (False, m) | Some k \<Rightarrow> (True, m\<lparr>bm_replays := k\<rparr>))"

definition admit_audit_bytes :: "u64 \<Rightarrow> TrustBudgetMeter \<Rightarrow> bool \<times> TrustBudgetMeter" where
  "admit_audit_bytes n m =
     (let next_bytes = sat_add (bm_audit_bytes m) n
      in if next_bytes > tb_audit_bytes (bm_budget m) then (False, m) else (True, m\<lparr>bm_audit_bytes := next_bytes\<rparr>))"

definition admit_reputation_update :: "TrustBudgetMeter \<Rightarrow> bool \<times> TrustBudgetMeter" where
  "admit_reputation_update m =
     (case admit_count (bm_reputation_updates m) (tb_reputation_updates (bm_budget m)) of
        None \<Rightarrow> (False, m) | Some k \<Rightarrow> (True, m\<lparr>bm_reputation_updates := k\<rparr>))"

definition admit_attestation :: "TrustBudgetMeter \<Rightarrow> bool \<times> TrustBudgetMeter" where
  "admit_attestation m =
     (case admit_count (bm_attestations m) (tb_attestations (bm_budget m)) of
        None \<Rightarrow> (False, m) | Some k \<Rightarrow> (True, m\<lparr>bm_attestations := k\<rparr>))"

definition admit_heavy_work :: "u64 \<Rightarrow> u64 \<Rightarrow> u64 \<Rightarrow> TrustBudgetMeter \<Rightarrow> bool \<times> TrustBudgetMeter" where
  "admit_heavy_work compute network storage m =
     (let next_compute = sat_add (bm_compute_units m) compute;
          next_network = sat_add (bm_network_bytes m) network;
          next_storage = sat_add (bm_storage_bytes m) storage
      in if next_compute > tb_compute_units (bm_budget m) \<or> next_network > tb_network_bytes (bm_budget m)
            \<or> next_storage > tb_storage_bytes (bm_budget m)
         then (False, m)
         else (True, m\<lparr>bm_compute_units := next_compute, bm_network_bytes := next_network, bm_storage_bytes := next_storage\<rparr>))"

definition trust_meter_next_tick :: "TrustBudgetMeter \<Rightarrow> TrustBudgetMeter" where
  "trust_meter_next_tick m = m\<lparr>bm_signatures := 0, bm_verifications := 0, bm_replays := 0, bm_audit_bytes := 0,
     bm_reputation_updates := 0, bm_attestations := 0, bm_compute_units := 0, bm_network_bytes := 0, bm_storage_bytes := 0\<rparr>"

section \<open>Features\<close>

definition minimum_identity_authentication :: u8 where "minimum_identity_authentication = 1"
definition signed_audit :: u8 where "signed_audit = 2"
definition attestation_feature :: u8 where "attestation_feature = 4"
definition result_reexecution :: u8 where "result_reexecution = 8"

record TrustPlaneRuntimeProfile =
  pp_enabled :: bool
  pp_features :: u8

definition background_features_active :: "TrustPlaneRuntimeProfile \<Rightarrow> bool" where
  "background_features_active p \<longleftrightarrow> pp_enabled p
     \<and> (flags_contain (pp_features p) signed_audit \<or> flags_contain (pp_features p) attestation_feature
        \<or> flags_contain (pp_features p) result_reexecution)"

section \<open>Lemmas on the registry\<close>

text \<open>
  What holds of every entry: it is filed under its node; an active one has a key, a span of
  validity and a secret of sufficient length; of every other one the secret is wiped, and a
  quarantined one has the lowest level.
\<close>

definition identity_entry_ok :: "NodeId \<Rightarrow> IdentityEntry \<Rightarrow> bool" where
  "identity_entry_ok n x \<longleftrightarrow> (let i = ie_identity x in
     ni_node_id i = n \<and> ni_key_generation i \<noteq> 0 \<and> ni_key_id i \<noteq> [] \<and> ni_fingerprint i \<noteq> []
     \<and> ni_valid_from i < ni_valid_until i \<and> length (ie_secret x) \<ge> min_key_bytes
     \<and> ni_status i \<in> {StatusActive, StatusRevoked, StatusQuarantined}
     \<and> (ni_status i \<noteq> StatusActive \<longrightarrow> ie_secret x = wiped (ie_secret x))
     \<and> (ni_status i = StatusQuarantined \<longrightarrow> ni_trust_level i = LevelQuarantined))"

definition identity_registry_ok :: "NodeIdentityRegistry \<Rightarrow> bool" where
  "identity_registry_ok r \<longleftrightarrow> (\<forall>n x. fmlookup (ir_entries r) n = Some x \<longrightarrow> identity_entry_ok n x)"

definition key_generation :: "NodeIdentityRegistry \<Rightarrow> NodeId \<Rightarrow> u64" where
  "key_generation r n = (case identity_of r n of None \<Rightarrow> 0 | Some i \<Rightarrow> ni_key_generation i)"

lemma insert_identity_lookup [simp]:
  "fmlookup (ir_entries (insert_identity n i secret r)) m =
     (if m = n then Some \<lparr>ie_identity = i, ie_secret = secret\<rparr> else fmlookup (ir_entries r) m)"
  by (simp add: insert_identity_def)

lemma length_wiped [simp]: "length (wiped s) = length s" and wiped_wiped [simp]: "wiped (wiped s) = wiped s"
  by (simp_all add: wiped_def)

lemma get_entry_Inr [simp]: "get_entry r n = Inr x \<longleftrightarrow> fmlookup (ir_entries r) n = Some x"
  by (simp add: get_entry_def)

lemma validate_identity_Inr [simp]:
  "validate_identity i secret now = Inr u \<longleftrightarrow> ni_key_id i \<noteq> [] \<and> ni_key_generation i \<noteq> 0 \<and> ni_fingerprint i \<noteq> []
     \<and> ni_valid_from i \<le> now \<and> now < ni_valid_until i \<and> min_key_bytes \<le> length secret \<and> ni_trust_level i \<noteq> LevelQuarantined"
  by (auto simp: validate_identity_def not_less not_le)

text \<open>How an operation changes the entries: it leaves them, or puts in one entry for one node.\<close>

inductive entry_change :: "NodeIdentityRegistry \<Rightarrow> NodeId \<Rightarrow> NodeIdentityRegistry \<Rightarrow> bool" where
  approved: "fmlookup (ir_entries r) n = None \<Longrightarrow> ni_node_id i = n \<Longrightarrow> ni_status i = StatusActive
     \<Longrightarrow> identity_entry_ok n \<lparr>ie_identity = i, ie_secret = s\<rparr> \<Longrightarrow> entry_change r n (insert_identity n i s r)"
| replaced: "fmlookup (ir_entries r) n = Some x \<Longrightarrow> ni_key_generation i = sat_add (ni_key_generation (ie_identity x)) 1
     \<Longrightarrow> ni_status i = StatusActive \<Longrightarrow> identity_entry_ok n \<lparr>ie_identity = i, ie_secret = s\<rparr> \<Longrightarrow> entry_change r n (insert_identity n i s r)"
| withdrawn: "fmlookup (ir_entries r) n = Some x \<Longrightarrow> st \<in> {StatusRevoked, StatusQuarantined}
     \<Longrightarrow> lv = (if st = StatusQuarantined then LevelQuarantined else ni_trust_level (ie_identity x))
     \<Longrightarrow> entry_change r n (insert_identity n ((ie_identity x)\<lparr>ni_status := st, ni_trust_level := lv\<rparr>) (wiped (ie_secret x)) r)"
| relevelled: "fmlookup (ir_entries r) n = Some x \<Longrightarrow> ni_status (ie_identity x) = StatusActive
     \<Longrightarrow> entry_change r n (insert_identity n ((ie_identity x)\<lparr>ni_trust_level := lv\<rparr>) (ie_secret x) r)"

lemma replace_identity_change:
  assumes "fmlookup (ir_entries r) n = Some x"
    and "replace_identity n (successor_identity n (ie_identity x) k fp from until lv) secret now r = (res, r')"
  shows "r' = r \<or> entry_change r n r' \<and> (\<exists>i. res = Inr i)"
  using assms by (auto simp: replace_identity_def successor_identity_def identity_entry_ok_def intro!: replaced split: sum.splits)

lemma registry_ops_change:
  "approve i secret now r = (u, r') \<Longrightarrow> r' = r \<or> entry_change r (ni_node_id i) r'"
  "rotate n k fp secret from until now r = (v, r') \<Longrightarrow> r' = r \<or> entry_change r n r'"
  "revoke n r = (u, r') \<Longrightarrow> r' = r \<or> entry_change r n r'"
  "readmit n k fp secret lv from until att now r = (v, r') \<Longrightarrow> r' = r \<or> entry_change r n r'"
  "quarantine n r = (u, r') \<Longrightarrow> r' = r \<or> entry_change r n r'"
  "set_trust_level n lv r = (u, r') \<Longrightarrow> r' = r \<or> entry_change r n r'"
proof -
  show "r' = r \<or> entry_change r (ni_node_id i) r'" if "approve i secret now r = (u, r')"
    using that by (auto simp: approve_def bt_contains_def identity_entry_ok_def intro!: approved split: sum.splits if_splits)
  show "r' = r \<or> entry_change r n r'" if "rotate n k fp secret from until now r = (v, r')"
    using that by (auto simp: rotate_def dest!: replace_identity_change split: sum.splits if_splits)
  show "r' = r \<or> entry_change r n r'" if "readmit n k fp secret lv from until att now r = (v, r')"
    using that by (auto simp: readmit_def dest!: replace_identity_change split: sum.splits if_splits)
  show "r' = r \<or> entry_change r n r'" if "revoke n r = (u, r')"
    using that withdrawn [of r n _ StatusRevoked] by (fastforce simp: revoke_def split: sum.splits)
  show "r' = r \<or> entry_change r n r'" if "quarantine n r = (u, r')"
    using that withdrawn [of r n _ StatusQuarantined] by (fastforce simp: quarantine_def split: sum.splits)
  show "r' = r \<or> entry_change r n r'" if "set_trust_level n lv r = (u, r')"
    using that by (auto simp: set_trust_level_def intro!: relevelled split: sum.splits if_splits)
qed

lemma entry_change_ok: "entry_change r n r' \<Longrightarrow> identity_registry_ok r \<Longrightarrow> identity_registry_ok r'"
  by (induction rule: entry_change.induct) (auto simp: identity_registry_ok_def identity_entry_ok_def Let_def)

lemma key_generation_simps:
  "key_generation (insert_identity n i s r) m = (if m = n then ni_key_generation i else key_generation r m)"
  "fmlookup (ir_entries r) n = Some x \<Longrightarrow> key_generation r n = ni_key_generation (ie_identity x)"
  "fmlookup (ir_entries r) n = None \<Longrightarrow> key_generation r n = 0"
  by (simp_all add: key_generation_def identity_of_def)

lemma entry_change_generation: "entry_change r n r' \<Longrightarrow> key_generation r m \<le> key_generation r' m"
  by (induction rule: entry_change.induct) (auto simp: key_generation_simps sat_add_ge)

text \<open>An identity that becomes active again has a later generation than before.\<close>

definition inactive_since :: "NodeIdentityRegistry \<Rightarrow> NodeId \<Rightarrow> u64 \<Rightarrow> bool" where
  "inactive_since r n g \<longleftrightarrow>
     (\<exists>x. fmlookup (ir_entries r) n = Some x \<and> g \<le> ni_key_generation (ie_identity x)
        \<and> (ni_status (ie_identity x) = StatusActive \<longrightarrow> g < ni_key_generation (ie_identity x)))"

lemma entry_change_inactive:
  assumes "entry_change r m r'" and "inactive_since r n g" and "g \<noteq> - 1"
  shows "inactive_since r' n g"
proof (cases "m = n")
  case False
  with assms(1,2) show ?thesis by (induction rule: entry_change.induct) (auto simp: inactive_since_def)
next
  case True
  have later: "g < sat_add k 1" if "g \<le> k" for k
    using that unat_less_max [OF assms(3)] by (simp add: word_less_nat_alt word_le_nat_alt unat_sat_add)
  from assms(1) True assms(2) show ?thesis
  proof (induction rule: entry_change.induct)
    case (replaced r n x i s)
    then have "g < ni_key_generation i" using later by (auto simp: inactive_since_def)
    then show ?case using replaced by (auto simp: inactive_since_def)
  qed (auto simp: inactive_since_def)
qed

section \<open>Signatures\<close>

lemma identity_sign_Inr:
  "identity_sign tc r n payload now = Inr (k, tag) \<longleftrightarrow>
     (\<exists>x. fmlookup (ir_entries r) n = Some x \<and> identity_active_at (ie_identity x) now
        \<and> k = ni_key_id (ie_identity x) \<and> mac_hex tc (ie_secret x) payload = Inr tag)"
  by (auto simp: identity_sign_def bind_result_Inr split: if_splits)

lemma sign_verify:
  assumes "identity_sign tc r n payload now = Inr (k, tag)" and "fmlookup (ir_entries r') n = fmlookup (ir_entries r) n"
    and "now \<le> later" "\<forall>i. identity_of r n = Some i \<longrightarrow> later \<le> ni_valid_until i"
  shows "identity_verify tc r' n k payload tag later"
  using assms by (auto simp: identity_sign_Inr identity_verify_def identity_of_def identity_active_at_def verify_mac_hex)

end
