(* ===== verification/Identity_Properties.thy ===== *)
theory Identity_Properties
  imports Trust_Identity
begin

text \<open>
  What the identity registry, the policy engine and the meter of the trust budget guarantee
  along any sequence of operations.
\<close>

section \<open>Sequences of operations\<close>

datatype identity_op =
    Approve NodeIdentity bytes u64
  | Rotate NodeId string string bytes u64 u64 u64
  | Revoke NodeId
  | Readmit NodeId string string bytes NodeTrustLevel u64 u64 AttestationVerdict u64
  | Quarantine NodeId
  | SetTrustLevel NodeId NodeTrustLevel

fun identity_step :: "identity_op \<Rightarrow> NodeIdentityRegistry \<Rightarrow> NodeIdentityRegistry" where
  "identity_step (Approve i secret now) r = snd (approve i secret now r)"
| "identity_step (Rotate n k fp secret from until now) r = snd (rotate n k fp secret from until now r)"
| "identity_step (Revoke n) r = snd (revoke n r)"
| "identity_step (Readmit n k fp secret lv from until att now) r = snd (readmit n k fp secret lv from until att now r)"
| "identity_step (Quarantine n) r = snd (quarantine n r)"
| "identity_step (SetTrustLevel n lv) r = snd (set_trust_level n lv r)"

fun readmits :: "NodeId \<Rightarrow> identity_op \<Rightarrow> bool" where
  "readmits n (Readmit m _ _ _ _ _ _ _ _) \<longleftrightarrow> m = n"
| "readmits n _ \<longleftrightarrow> False"

lemma identity_step_change: "identity_step x r = r \<or> (\<exists>n. entry_change r n (identity_step x r))"
  by (cases x) (metis identity_step.simps prod.collapse registry_ops_change)+

lemma identity_step_ok:
  "identity_registry_ok r \<Longrightarrow> identity_registry_ok (identity_step x r)"
  "key_generation r n \<le> key_generation (identity_step x r) n"
  using identity_step_change [of x r] entry_change_ok entry_change_generation by (metis order_refl)+

lemma identity_run_ok: "identity_registry_ok r \<Longrightarrow> identity_registry_ok (fold identity_step xs r)"
  by (induction xs arbitrary: r) (simp_all add: identity_step_ok)

lemma identity_run_generation: "key_generation r n \<le> key_generation (fold identity_step xs r) n"
  by (induction xs arbitrary: r) (auto intro: order_trans identity_step_ok(2))

lemma identity_run_inactive:
  "inactive_since r n g \<Longrightarrow> g \<noteq> - 1 \<Longrightarrow> inactive_since (fold identity_step xs r) n g"
proof (induction xs arbitrary: r)
  case (Cons x xs)
  then have "inactive_since (identity_step x r) n g"
    using identity_step_change [of x r] entry_change_inactive by metis
  with Cons show ?case by simp
qed simp

text \<open>A node that is out stays out until it is readmitted.\<close>

definition out :: "NodeIdentityRegistry \<Rightarrow> NodeId \<Rightarrow> bool" where
  "out r n \<longleftrightarrow> (\<exists>x. fmlookup (ir_entries r) n = Some x \<and> ni_status (ie_identity x) \<in> {StatusRevoked, StatusQuarantined})"

lemma identity_step_out: "out r n \<Longrightarrow> \<not> readmits n x \<Longrightarrow> out (identity_step x r) n"
  by (cases x)
    (auto simp: out_def approve_def rotate_def revoke_def readmit_def quarantine_def set_trust_level_def get_entry_def
      ok_or_def identity_active_at_def replace_identity_def bt_contains_def split: option.splits sum.splits)

lemma identity_run_out: "out r n \<Longrightarrow> list_all (\<lambda>x. \<not> readmits n x) xs \<Longrightarrow> out (fold identity_step xs r) n"
  by (induction xs arbitrary: r) (simp_all add: identity_step_out)

lemma withdrawn_out: "revoke n r = (Inr (), r') \<or> quarantine n r = (Inr (), r') \<Longrightarrow> out r' n"
  by (auto simp: revoke_def quarantine_def out_def split: sum.splits)

lemma level_order:
  "a \<le> b \<longleftrightarrow> unat (trust_rank a) \<le> unat (trust_rank b)" "a < b \<longleftrightarrow> unat (trust_rank a) < unat (trust_rank b)"
  by (simp_all add: less_eq_NodeTrustLevel_def less_NodeTrustLevel_def word_le_nat_alt word_less_nat_alt)

section \<open>Properties of identities\<close>

text \<open>
  Along any operations every identity is filed under its own node with a key, a span of
  validity and a secret of at least 32 bytes, which is wiped when the identity is revoked or
  quarantined; a quarantined node has the lowest level; no identity disappears, and its key
  generation never decreases.
\<close>

theorem identity_registry_invariant:
  "let r = fold identity_step (xs @ ys) identity_registry_new; earlier = fold identity_step xs identity_registry_new
   in identity_registry_ok r \<and> key_generation earlier n \<le> key_generation r n
      \<and> fmdom (ir_entries earlier) |\<subseteq>| fmdom (ir_entries r)"
proof -
  let ?e = "fold identity_step xs identity_registry_new"
  have "identity_registry_ok identity_registry_new" by (simp add: identity_registry_ok_def identity_registry_new_def)
  then have ok: "identity_registry_ok ?e" by (rule identity_run_ok)
  have "fmdom (ir_entries ?e) |\<subseteq>| fmdom (ir_entries (fold identity_step ys ?e))"
  proof
    fix m assume "m |\<in>| fmdom (ir_entries ?e)"
    then have "key_generation ?e m \<noteq> 0"
      using ok by (auto simp: key_generation_simps identity_registry_ok_def identity_entry_ok_def Let_def fmlookup_dom_iff)
    then have "key_generation (fold identity_step ys ?e) m \<noteq> 0" using identity_run_generation [of ?e m ys] by auto
    then show "m |\<in>| fmdom (ir_entries (fold identity_step ys ?e))"
      by (auto simp: key_generation_def identity_of_def fmlookup_dom_iff split: option.splits)
  qed
  then show ?thesis using ok identity_run_ok [OF ok] identity_run_generation [of ?e n ys] by (simp add: Let_def)
qed

text \<open>
  Claim C32. A node that was revoked or quarantined is out until it is readmitted: whatever other
  operations follow, it is eligible for nothing at any time, signs nothing, and no signature in
  its name is accepted.  A readmission takes an accepted attestation of this node that is still
  valid, and gives the next key generation.
\<close>

theorem withdrawn_until_readmitted:
  assumes "revoke n r = (Inr (), r1) \<or> quarantine n r = (Inr (), r1)"
    and "list_all (\<lambda>x. \<not> readmits n x) xs" and "r2 = fold identity_step xs r1"
  shows "\<not> eligible r2 n level now \<and> identity_sign tc r2 n payload now = Inl identity_unavailable
    \<and> \<not> identity_verify tc r2 n key_id payload tag now
    \<and> (readmit n k fp secret lv from until att now r2 = (Inr i, r3) \<longrightarrow>
         av_accepted att \<and> av_node_id att = n \<and> now \<le> av_valid_until att
         \<and> ni_key_generation i = sat_add (key_generation r2 n) 1 \<and> eligible r3 n lv now)"
proof -
  have "out r2 n" using identity_run_out [OF withdrawn_out [OF assms(1)] assms(2)] assms(3) by simp
  then obtain x where x: "fmlookup (ir_entries r2) n = Some x"
    and st: "ni_status (ie_identity x) \<in> {StatusRevoked, StatusQuarantined}" by (auto simp: out_def)
  then have inactive: "\<not> identity_active_at (ie_identity x) t" for t by (auto simp: identity_active_at_def)
  have "readmit n k fp secret lv from until att now r2 = (Inr i, r3) \<longrightarrow>
         av_accepted att \<and> av_node_id att = n \<and> now \<le> av_valid_until att
         \<and> ni_key_generation i = sat_add (key_generation r2 n) 1 \<and> eligible r3 n lv now"
    using x by (auto simp: readmit_def get_entry_def replace_identity_def successor_identity_def key_generation_simps
        eligible_def identity_active_at_def not_less split: if_splits sum.splits)
  then show ?thesis
    using x inactive by (simp add: eligible_def identity_sign_def get_entry_def identity_verify_def)
qed

text \<open>
  Claim C33. A node that is authorized for a task is active, at least as trusted as the task asks, and
  attested when the task asks for it; data that is not public or internal goes to managed nodes
  only and credentials to trusted ones, and without the task's permission no external node gets
  it.  A more trusted node in its place is authorized as well, unless the level of this one is the
  one of quarantine.
\<close>

theorem authorized_node_trusted:
  assumes "authorize_node engine r n policy integrity attestation now = Inr ()"
  shows "\<exists>i. identity_of r n = Some i \<and> identity_active_at i now \<and> tp_minimum_trust policy \<le> ni_trust_level i
    \<and> integrity \<and> (flags_contain (tp_flags policy) require_attestation \<longrightarrow> attested n now attestation)
    \<and> (tp_sensitivity policy \<notin> {Public, Internal} \<or> \<not> flags_contain (tp_flags policy) allow_external_workers
         \<longrightarrow> LevelManaged \<le> ni_trust_level i)
    \<and> (tp_sensitivity policy = Credential \<longrightarrow> ni_trust_level i = LevelTrusted)
    \<and> (\<forall>j level. ni_trust_level i \<noteq> LevelQuarantined \<and> ni_trust_level i \<le> level \<and> j = i\<lparr>ni_trust_level := level\<rparr> \<longrightarrow>
         authorize_node engine (insert_identity n j secret r) n policy integrity attestation now = Inr ())"
proof -
  from assms obtain i where i: "identity_of r n = Some i" "identity_active_at i now" "tp_minimum_trust policy \<le> ni_trust_level i"
    by (auto simp: authorize_node_def eligible_def identity_of_def split: if_splits option.splits)
  have accepted: "authorize_node engine (insert_identity n (i\<lparr>ni_trust_level := level\<rparr>) secret r) n policy integrity attestation now = Inr ()"
    if "ni_trust_level i \<noteq> LevelQuarantined" "ni_trust_level i \<le> level" for level
    using assms i that
    by (cases "ni_trust_level i"; cases level)
      (auto simp: authorize_node_def identity_of_def eligible_def identity_active_at_def level_order split: if_splits)
  have data: "tp_sensitivity policy \<notin> {Public, Internal} \<or> \<not> flags_contain (tp_flags policy) allow_external_workers
         \<longrightarrow> LevelManaged \<le> ni_trust_level i"
    using assms i by (cases "tp_sensitivity policy") (auto simp: authorize_node_def not_less split: if_splits)
  have rest: "integrity" "flags_contain (tp_flags policy) require_attestation \<longrightarrow> attested n now attestation"
    "tp_sensitivity policy = Credential \<longrightarrow> ni_trust_level i = LevelTrusted"
    using assms i by (auto simp: authorize_node_def split: if_splits)
  show ?thesis using i accepted data rest by blast
qed

text \<open>
  The level of quarantine, which an active node can be given, is more than the level below:
  among restricted workers a task that sets no minimum is refused to an untrusted node and
  given to the same node at the level of quarantine.
\<close>

theorem quarantined_level_authorized:
  assumes "identity_of r n = Some i" and "identity_active_at i now" and "pe_mode engine = RestrictedWorkers"
    and "policy = \<lparr>tp_sensitivity = Internal, tp_minimum_trust = LevelQuarantined, tp_flags = allow_external_workers,
           tp_verification = v, tp_task_value = value\<rparr>"
    and "set_trust_level n LevelUntrusted r = (Inr (), r1)" and "set_trust_level n LevelQuarantined r1 = (Inr (), r2)"
  shows "authorize_node engine r1 n policy True att now = Inl trust_policy_error
    \<and> authorize_node engine r2 n policy True att now = Inr ()"
proof -
  obtain x where x: "fmlookup (ir_entries r) n = Some x" "ie_identity x = i" using assms(1) by (auto simp: identity_of_def)
  then have r1: "r1 = insert_identity n (i\<lparr>ni_trust_level := LevelUntrusted\<rparr>) (ie_secret x) r"
    using assms(5) by (auto simp: set_trust_level_def get_entry_def split: if_splits)
  then have r2: "r2 = insert_identity n (i\<lparr>ni_trust_level := LevelQuarantined\<rparr>) (ie_secret x) r1"
    using assms(6) by (auto simp: set_trust_level_def get_entry_def split: if_splits)
  have "\<not> flags_contain allow_external_workers require_attestation" "flags_contain allow_external_workers allow_external_workers"
    by (simp_all add: flags_contain_def allow_external_workers_def require_attestation_def)
  then show ?thesis
    using assms(2,3) by (auto simp: r1 r2 assms(4) authorize_node_def identity_of_def eligible_def identity_active_at_def level_order)
qed

section \<open>The budget\<close>












section \<open>Instances\<close>

definition demo_identity :: NodeIdentity where
  "demo_identity = \<lparr>ni_node_id = ''n'', ni_key_id = ''k'', ni_key_generation = 1, ni_fingerprint = ''f'', ni_valid_from = 0,
     ni_valid_until = 100, ni_status = StatusActive, ni_trust_level = LevelManaged\<rparr>"

definition demo_identities :: NodeIdentityRegistry where
  "demo_identities = insert_identity ''n'' demo_identity (replicate 32 7) identity_registry_new"

lemma demo_identity_of [simp]: "identity_of demo_identities ''n'' = Some demo_identity"
  by (simp add: identity_of_def demo_identities_def)

lemma demo_active [simp]: "identity_active_at demo_identity 5"
  by (simp add: identity_active_at_def demo_identity_def)

definition demo_crypto :: trust_crypto where
  "demo_crypto = \<lparr>tc_sha = (\<lambda>bs. bs), tc_hmac = (\<lambda>key payload. Some payload)\<rparr>"

lemma withdrawn_until_readmitted_witness:
  "let r = fold identity_step [SetTrustLevel ''n'' LevelTrusted] (snd (quarantine ''n'' demo_identities))
   in \<not> eligible r ''n'' LevelUntrusted 5 \<and> identity_sign demo_crypto r ''n'' [] 5 = Inl identity_unavailable"
proof -
  have q: "quarantine ''n'' demo_identities = (Inr (), snd (quarantine ''n'' demo_identities))"
    by (simp add: quarantine_def demo_identities_def get_entry_def)
  show ?thesis
    using withdrawn_until_readmitted [OF disjI2 [OF q] _ refl, of "[SetTrustLevel ''n'' LevelTrusted]" LevelUntrusted 5 demo_crypto "[]"]
    by (simp add: Let_def)
qed

definition demo_trust_policy :: "DataSensitivity \<Rightarrow> NodeTrustLevel \<Rightarrow> TaskTrustPolicy" where
  "demo_trust_policy data level = \<lparr>tp_sensitivity = data, tp_minimum_trust = level, tp_flags = allow_external_workers,
     tp_verification = HashOnly, tp_task_value = 10\<rparr>"

lemma authorized_node_trusted_witness: "LevelManaged \<le> ni_trust_level demo_identity"
proof -
  have "\<not> flags_contain allow_external_workers require_attestation"
    by (simp add: flags_contain_def allow_external_workers_def require_attestation_def)
  then have "authorize_node \<lparr>pe_mode = AuditedLan\<rparr> demo_identities ''n'' (demo_trust_policy Confidential LevelRestricted) True None 5 = Inr ()"
    by (simp add: authorize_node_def demo_trust_policy_def eligible_def demo_identities_def level_order)
      (simp add: identity_of_def identity_active_at_def demo_identity_def)
  from authorized_node_trusted [OF this] show ?thesis by (auto simp: demo_trust_policy_def)
qed

lemma quarantined_level_authorized_witness:
  "\<exists>r. authorize_node \<lparr>pe_mode = RestrictedWorkers\<rparr> r ''n'' (demo_trust_policy Internal LevelQuarantined) True None 5 = Inr ()"
proof -
  let ?r1 = "snd (set_trust_level ''n'' LevelUntrusted demo_identities)"
  have "set_trust_level ''n'' LevelUntrusted demo_identities = (Inr (), ?r1)"
    "set_trust_level ''n'' LevelQuarantined ?r1 = (Inr (), snd (set_trust_level ''n'' LevelQuarantined ?r1))"
    by (simp_all add: set_trust_level_def demo_identities_def get_entry_def demo_identity_def)
  from quarantined_level_authorized [OF demo_identity_of demo_active _ _ this, of "\<lparr>pe_mode = RestrictedWorkers\<rparr>"
      "demo_trust_policy Internal LevelQuarantined"]
  show ?thesis by (auto simp: demo_trust_policy_def)
qed



end
