(* ===== verification/Trust_Evidence.thy ===== *)
theory Trust_Evidence
  imports Trust_Identity Float_Ops
begin

text \<open>
  What nodes sign and how results are verified, from \<open>trust_plane.rs\<close>: execution receipts, state
  bindings, governance certificates, and the records and plans of result verification.  \<open>f64\<close> is
  a type parameter with its operations.
\<close>

section \<open>Execution receipts\<close>

definition bare_receipt :: "'f ExecutionReceipt \<Rightarrow> 'f ExecutionReceipt" where
  "bare_receipt x = x\<lparr>er_identity_key_id := [], er_receipt_tag := []\<rparr>"

definition sign_execution_receipt ::
  "trust_crypto \<Rightarrow> 'f ExecutionReceipt serde \<Rightarrow> ('f, 'z) f64_ops_scheme \<Rightarrow> NodeIdentityRegistry \<Rightarrow> 'f ExecutionReceipt
     \<Rightarrow> u64 \<Rightarrow> 'f ExecutionReceipt result" where
  "sign_execution_receipt tc sd f r x now =
     (if er_attempt x = 0 \<or> er_term x = 0 \<or> er_epoch x = 0 \<or> er_runner_generation x = 0
         \<or> er_plugin_generation x = 0 \<or> \<not> f_finite f (er_quality x)
      then Inl trust_policy_error
      else bind_result (canonical_json sd (bare_receipt x)) (\<lambda>payload.
           bind_result (identity_sign tc r (er_node_id x) payload now) (\<lambda>(key_id, tag).
             Inr (x\<lparr>er_identity_key_id := key_id, er_receipt_tag := tag\<rparr>))))"

definition stale_commit :: "CommitProof option \<Rightarrow> u64 \<Rightarrow> u64 \<Rightarrow> bool" where
  "stale_commit commit term epoch =
     (case commit of
        None \<Rightarrow> False
      | Some proof \<Rightarrow> cp_term proof \<noteq> term \<or> cp_epoch proof \<noteq> epoch \<or> cp_log_index proof = 0)"

definition verify_execution_receipt ::
  "trust_crypto \<Rightarrow> 'f ExecutionReceipt serde \<Rightarrow> NodeIdentityRegistry \<Rightarrow> 'f ExecutionReceipt \<Rightarrow> CommitProof option
     \<Rightarrow> u32 \<Rightarrow> u64 \<Rightarrow> u64 \<Rightarrow> u64 \<Rightarrow> unit result" where
  "verify_execution_receipt tc sd r x commit attempt term epoch now =
     (if er_attempt x \<noteq> attempt \<or> er_term x \<noteq> term \<or> er_epoch x \<noteq> epoch \<or> stale_commit commit term epoch
      then Inl stale_receipt_error
      else bind_result (canonical_json sd (bare_receipt x)) (\<lambda>payload.
        if \<not> identity_verify tc r (er_node_id x) (er_identity_key_id x) payload (er_receipt_tag x) now
        then Inl identity_unavailable else Inr ()))"

section \<open>State bindings\<close>

definition bare_binding :: "SignedStateBinding \<Rightarrow> SignedStateBinding" where
  "bare_binding b = b\<lparr>sb_key_id := [], sb_tag := []\<rparr>"

definition sign_state_binding ::
  "trust_crypto \<Rightarrow> SignedStateBinding serde \<Rightarrow> NodeIdentityRegistry \<Rightarrow> TrustBoundObjectKind \<Rightarrow> string \<Rightarrow> NodeId
     \<Rightarrow> NodeId \<Rightarrow> GlobalTaskId option \<Rightarrow> u32 option \<Rightarrow> u64 \<Rightarrow> u64 \<Rightarrow> u64 \<Rightarrow> SignedStateBinding result" where
  "sign_state_binding tc sd r kind digest subject signer task attempt term epoch now =
     (if digest = [] \<or> term = 0 \<or> epoch = 0 then Inl trust_policy_error
      else
        let b = \<lparr>sb_kind = kind, sb_object_digest = digest, sb_subject_node = subject, sb_signer_node = signer,
                 sb_task_id = task, sb_attempt = attempt, sb_term = term, sb_epoch = epoch, sb_key_id = [], sb_tag = []\<rparr>
        in bind_result (canonical_json sd b) (\<lambda>payload.
           bind_result (identity_sign tc r signer payload now) (\<lambda>(key_id, tag).
             Inr (b\<lparr>sb_key_id := key_id, sb_tag := tag\<rparr>))))"

definition verify_state_binding ::
  "trust_crypto \<Rightarrow> SignedStateBinding serde \<Rightarrow> NodeIdentityRegistry \<Rightarrow> SignedStateBinding \<Rightarrow> u64 \<Rightarrow> u64 \<Rightarrow> u64 \<Rightarrow> bool" where
  "verify_state_binding tc sd r b term epoch now =
     (if sb_term b \<noteq> term \<or> sb_epoch b \<noteq> epoch then False
      else case canonical_json sd (bare_binding b) of
        Inl _ \<Rightarrow> False
      | Inr payload \<Rightarrow> identity_verify tc r (sb_signer_node b) (sb_key_id b) payload (sb_tag b) now)"

section \<open>Governance certificates\<close>

text \<open>\<open>{:?}\<close> prints the name of the variant.\<close>

fun governance_action_name :: "GovernanceAction \<Rightarrow> string" where
  "governance_action_name LeaderFence = ''LeaderFence''"
| "governance_action_name VotingMembershipChange = ''VotingMembershipChange''"
| "governance_action_name TrustRootChange = ''TrustRootChange''"
| "governance_action_name ForceAcceptQuarantinedResult = ''ForceAcceptQuarantinedResult''"
| "governance_action_name OverrideUncertainEffect = ''OverrideUncertainEffect''"

definition governance_payload :: "GovernanceCertificate \<Rightarrow> string" where
  "governance_payload g =
     governance_action_name (gc_action g) @ '':'' @ gc_action_digest g @ '':'' @ dec_string (unat (gc_term g))
       @ '':'' @ dec_string (unat (gc_epoch g))"

definition verify_governance_certificate ::
  "trust_crypto \<Rightarrow> NodeIdentityRegistry \<Rightarrow> GovernanceCertificate \<Rightarrow> NodeId fset \<Rightarrow> u64 \<Rightarrow> bool" where
  "verify_governance_certificate tc r g voting now =
     (if gc_required_signers g = 0 \<or> bt_len (gc_signer_tags g) < unat (gc_required_signers g) then False
      else list_all (\<lambda>(n, tag). n |\<in>| voting
             \<and> (case identity_of r n of
                  None \<Rightarrow> False
                | Some i \<Rightarrow> identity_verify tc r n (ni_key_id i) (as_bytes (governance_payload g)) tag now))
             (bt_entries (gc_signer_tags g)))"

section \<open>Result verification\<close>

definition verify_deterministic_result ::
  "trust_crypto \<Rightarrow> GlobalTaskId \<Rightarrow> u32 \<Rightarrow> bytes \<Rightarrow> bytes \<Rightarrow> string \<Rightarrow> 'f ResultVerificationRecord" where
  "verify_deterministic_result tc task attempt expected observed verifier =
     (let expected_digest = digest_hex (tc_sha tc) expected; observed_digest = digest_hex (tc_sha tc) observed
      in \<lparr>rv_task_id = task, rv_attempt = attempt, rv_policy = DeterministicReplay,
          rv_status = (if expected_digest = observed_digest then VerificationAccepted else VerificationQuarantined),
          rv_verifier_id = verifier, rv_expected_digest = Some expected_digest, rv_observed_digest = observed_digest,
          rv_tolerance = None, rv_evidence = fmempty\<rparr>)"

record 'f f64_abs = "'f f64_ops" +
  f_abs :: "'f \<Rightarrow> 'f"

definition within_tolerance :: "('f, 'z) f64_abs_scheme \<Rightarrow> 'f list \<Rightarrow> 'f list \<Rightarrow> 'f \<Rightarrow> bool" where
  "within_tolerance f expected observed tolerance \<longleftrightarrow>
     f_finite f tolerance \<and> f_le f (f_zero f) tolerance \<and> length expected = length observed
     \<and> list_all (\<lambda>(l, r). f_finite f l \<and> f_finite f r \<and> f_le f (f_abs f (f_sub f l r)) tolerance) (zip expected observed)"

definition verify_approximate_result ::
  "trust_crypto \<Rightarrow> 'f list serde \<Rightarrow> ('f, 'z) f64_abs_scheme \<Rightarrow> GlobalTaskId \<Rightarrow> u32 \<Rightarrow> 'f list \<Rightarrow> 'f list \<Rightarrow> 'f
     \<Rightarrow> string \<Rightarrow> 'f ResultVerificationRecord" where
  "verify_approximate_result tc sd f task attempt expected observed tolerance verifier =
     (let encoded = (\<lambda>xs. case canonical_json sd xs of Inl _ \<Rightarrow> [] | Inr bs \<Rightarrow> bs)
      in \<lparr>rv_task_id = task, rv_attempt = attempt, rv_policy = DomainVerifier verifier,
          rv_status = (if within_tolerance f expected observed tolerance then VerificationAccepted else VerificationQuarantined),
          rv_verifier_id = verifier, rv_expected_digest = Some (digest_hex (tc_sha tc) (encoded expected)),
          rv_observed_digest = digest_hex (tc_sha tc) (encoded observed),
          rv_tolerance = Some tolerance, rv_evidence = fmempty\<rparr>)"

definition adaptive_verification_policy ::
  "ResultVerificationPolicy \<Rightarrow> u8 \<Rightarrow> NodeTrustLevel \<Rightarrow> bool \<Rightarrow> ResultVerificationPolicy" where
  "adaptive_verification_policy requested task_value level irreversible =
     (if irreversible \<or> task_value \<ge> 90
      then (case requested of
              NoVerification \<Rightarrow> ManualReviewPolicy
            | HashOnly \<Rightarrow> ManualReviewPolicy
            | policy \<Rightarrow> policy)
      else if level \<le> LevelRestricted \<and> task_value \<ge> 50
      then (case requested of
              NoVerification \<Rightarrow> SpotCheck 1000
            | policy \<Rightarrow> policy)
      else requested)"

fun plan_result_verification :: "ResultVerificationPolicy \<Rightarrow> VerificationAction list result" where
  "plan_result_verification NoVerification = Inr [AcceptDigest]"
| "plan_result_verification HashOnly = Inr [AcceptDigest]"
| "plan_result_verification DeterministicReplay = Inr [ReplayOnIndependentNode]"
| "plan_result_verification (SpotCheck rate) =
     (if rate > 0 \<and> rate \<le> 10000 then Inr [SampleResults rate] else Inl trust_policy_error)"
| "plan_result_verification (NOfM required all_results) =
     (if required > 0 \<and> all_results \<ge> required then Inr [CollectIndependentResults required all_results] else Inl trust_policy_error)"
| "plan_result_verification (DomainVerifier protocol) =
     (if protocol \<noteq> [] then Inr [InvokeDomainVerifier protocol] else Inl trust_policy_error)"
| "plan_result_verification Replayable = Inr [ValidateReplayArtifact]"
| "plan_result_verification (ProofCarrying proof_type) =
     (if proof_type \<noteq> [] then Inr [ValidateProof proof_type] else Inl trust_policy_error)"
| "plan_result_verification ManualReviewPolicy = Inr [RequireManualReview]"

fun join_colon :: "string list \<Rightarrow> string" where
  "join_colon [] = []"
| "join_colon [s] = s"
| "join_colon (s # t # ss) = s @ '':'' @ join_colon (t # ss)"

definition verify_n_of_m ::
  "trust_crypto \<Rightarrow> GlobalTaskId \<Rightarrow> u32 \<Rightarrow> string list \<Rightarrow> u8 \<Rightarrow> u8 \<Rightarrow> string option \<Rightarrow> 'f ResultVerificationRecord" where
  "verify_n_of_m tc task attempt observed required all_results trusted =
     (let matching = (case trusted of None \<Rightarrow> 0 | Some expected \<Rightarrow> length (filter (\<lambda>d. d = expected) observed));
          valid_shape = (required > 0 \<and> all_results \<ge> required \<and> length observed \<le> unat all_results \<and> length observed \<ge> unat required);
          status = (if trusted = None then VerificationManualReview
                    else if valid_shape \<and> matching \<ge> unat required then VerificationAccepted
                    else VerificationQuarantined)
      in \<lparr>rv_task_id = task, rv_attempt = attempt, rv_policy = NOfM required all_results, rv_status = status,
          rv_verifier_id = ''n-of-m-against-trusted-digest'', rv_expected_digest = trusted,
          rv_observed_digest = digest_hex (tc_sha tc) (as_bytes (join_colon observed)),
          rv_tolerance = None,
          rv_evidence = fmupd ''observations'' (dec_string (length observed)) fmempty\<rparr>)"

section \<open>The signed objects are sealed\<close>

interpretation receipts: sealed_object bare_receipt er_receipt_tag "\<lambda>k tag x. x\<lparr>er_identity_key_id := k, er_receipt_tag := tag\<rparr>"
  by unfold_locales (simp_all add: bare_receipt_def)

interpretation bindings: sealed_object bare_binding sb_tag "\<lambda>k tag b. b\<lparr>sb_key_id := k, sb_tag := tag\<rparr>"
  by unfold_locales (simp_all add: bare_binding_def)

text \<open>
  A receipt has a floating-point quality.  JSON has no number for the values that are not finite
  and writes \<open>null\<close> for all of them, so the encoder tells receipts apart, as far as their qualities
  are finite; that it can be read back is not assumed.
\<close>

definition receipt_codec_ok :: "('f, 'z) f64_ops_scheme \<Rightarrow> 'f ExecutionReceipt serde \<Rightarrow> bool" where
  "receipt_codec_ok f sd \<longleftrightarrow> (\<forall>x. f_finite f (er_quality x) \<longrightarrow> encoded_uniquely sd x)"

text \<open>The secret of an identity that is active at a tick and has the given key.\<close>

definition active_secret :: "NodeIdentityRegistry \<Rightarrow> NodeId \<Rightarrow> string \<Rightarrow> u64 \<Rightarrow> bytes option" where
  "active_secret r n key_id now =
     (case fmlookup (ir_entries r) n of
        None \<Rightarrow> None
      | Some x \<Rightarrow> if identity_active_at (ie_identity x) now \<and> ni_key_id (ie_identity x) = key_id then Some (ie_secret x) else None)"

lemma identity_verify_secret:
  "identity_verify tc r n key_id payload tag now \<longleftrightarrow>
     (\<exists>secret. active_secret r n key_id now = Some secret \<and> verify_mac tc secret payload tag)"
  by (auto simp: identity_verify_def active_secret_def split: option.splits)

lemma identity_sign_secret:
  "identity_sign tc r n payload now = Inr (k, tag) \<longleftrightarrow>
     (\<exists>secret. active_secret r n k now = Some secret \<and> mac_hex tc secret payload = Inr tag)"
  by (auto simp: identity_sign_Inr active_secret_def split: option.splits)

lemma verify_execution_receipt_iff:
  "verify_execution_receipt tc sd r x commit attempt term epoch now = Inr () \<longleftrightarrow>
     er_attempt x = attempt \<and> er_term x = term \<and> er_epoch x = epoch \<and> \<not> stale_commit commit term epoch
     \<and> (\<exists>secret. active_secret r (er_node_id x) (er_identity_key_id x) now = Some secret
          \<and> sealed_by tc sd bare_receipt er_receipt_tag secret x)"
  by (auto simp: verify_execution_receipt_def bind_result_Inr sealed_by_def identity_verify_secret split: if_splits)

lemma sign_execution_receipt_Inr:
  assumes "sign_execution_receipt tc sd f r x now = Inr y"
  shows "\<exists>secret tag. active_secret r (er_node_id x) (er_identity_key_id y) now = Some secret
    \<and> y = x\<lparr>er_identity_key_id := er_identity_key_id y, er_receipt_tag := tag\<rparr>
    \<and> sealed_by tc sd bare_receipt er_receipt_tag secret y
    \<and> er_attempt x \<noteq> 0 \<and> er_term x \<noteq> 0 \<and> er_epoch x \<noteq> 0 \<and> f_finite f (er_quality x)"
proof -
  from assms obtain p k tag secret where p: "canonical_json sd (bare_receipt x) = Inr p"
    and s: "active_secret r (er_node_id x) k now = Some secret" "mac_hex tc secret p = Inr tag"
    and y: "y = x\<lparr>er_identity_key_id := k, er_receipt_tag := tag\<rparr>"
    and ok: "er_attempt x \<noteq> 0 \<and> er_term x \<noteq> 0 \<and> er_epoch x \<noteq> 0 \<and> f_finite f (er_quality x)"
    by (auto simp: sign_execution_receipt_def bind_result_Inr identity_sign_secret simp del: canonical_json_Inr split: if_splits)
  have "sealed_by tc sd bare_receipt er_receipt_tag secret y" unfolding y by (rule receipts.attach_sealed [OF p s(2)])
  then show ?thesis using s(1) ok by (auto simp: y)
qed

lemma verify_state_binding_iff:
  "verify_state_binding tc sd r b term epoch now \<longleftrightarrow> sb_term b = term \<and> sb_epoch b = epoch
     \<and> (\<exists>secret. active_secret r (sb_signer_node b) (sb_key_id b) now = Some secret
          \<and> sealed_by tc sd bare_binding sb_tag secret b)"
  by (auto simp: verify_state_binding_def sealed_by_def identity_verify_secret canonical_json_def ok_or_def split: option.splits)

end
