(* ===== verification/Trust_Authority.thy ===== *)
theory Trust_Authority
  imports Trust_Identity
begin

text \<open>
  The authorities of \<open>trust_plane.rs\<close>: the verifier of artifacts with its allowlist, the verifier
  of attestation evidence, and the authorizer that grants nodes access to resources.  Each
  signs objects with a key of its own; a \<open>BTreeMap\<close> with pairs as keys is read by \<open>fmlookup\<close>.
\<close>

section \<open>Artifacts\<close>

record ArtifactVerifier =
  ar_authority_keys :: "(string, bytes) fmap"
  ar_allowlist :: "(string \<times> u64, ArtifactIdentity) fmap"

definition weak_keys :: "(string, bytes) fmap \<Rightarrow> bool" where
  "weak_keys keys \<longleftrightarrow> bt_len keys = 0 \<or> list_ex (\<lambda>key. length key < min_key_bytes) (bt_values keys)"

definition artifact_verifier_new :: "(string, bytes) fmap \<Rightarrow> ArtifactVerifier result" where
  "artifact_verifier_new keys =
     (if weak_keys keys then Inl trust_config_error
      else Inr \<lparr>ar_authority_keys = keys, ar_allowlist = fmempty\<rparr>)"

definition bare_artifact :: "ArtifactIdentity \<Rightarrow> ArtifactIdentity" where
  "bare_artifact a = a\<lparr>ai_integrity_tag := []\<rparr>"

definition sign_and_allow ::
  "trust_crypto \<Rightarrow> ArtifactIdentity serde \<Rightarrow> ArtifactIdentity \<Rightarrow> ArtifactVerifier
     \<Rightarrow> ArtifactIdentity result \<times> ArtifactVerifier" where
  "sign_and_allow tc sd a v =
     (case fmlookup (ar_authority_keys v) (ai_signer_key_id a) of
        None \<Rightarrow> (Inl trust_policy_error, v)
      | Some key \<Rightarrow>
          if ai_generation a = 0 then (Inl trust_policy_error, v)
          else
            case bind_result (canonical_json sd (bare_artifact a)) (mac_hex tc key) of
              Inl e \<Rightarrow> (Inl e, v)
            | Inr tag \<Rightarrow>
                let a = a\<lparr>ai_integrity_tag := tag\<rparr>
                in (Inr a, v\<lparr>ar_allowlist := fmupd (ai_artifact_id a, ai_generation a) a (ar_allowlist v)\<rparr>))"

definition verify_artifact :: "trust_crypto \<Rightarrow> ArtifactIdentity serde \<Rightarrow> ArtifactVerifier \<Rightarrow> ArtifactIdentity \<Rightarrow> bool" where
  "verify_artifact tc sd v a =
     (case fmlookup (ar_allowlist v) (ai_artifact_id a, ai_generation a) of
        None \<Rightarrow> False
      | Some allowed \<Rightarrow>
          allowed = a \<and>
          (case fmlookup (ar_authority_keys v) (ai_signer_key_id a) of
             None \<Rightarrow> False
           | Some key \<Rightarrow>
               (case canonical_json sd (bare_artifact a) of
                  Inl _ \<Rightarrow> False
                | Inr payload \<Rightarrow> verify_mac tc key payload (ai_integrity_tag a))))"

section \<open>Attestation\<close>

record AttestationVerifier =
  at_provider_keys :: "(string, bytes) fmap"

definition attestation_verifier_new :: "(string, bytes) fmap \<Rightarrow> AttestationVerifier result" where
  "attestation_verifier_new keys =
     (if weak_keys keys then Inl trust_config_error else Inr \<lparr>at_provider_keys = keys\<rparr>)"

definition bare_evidence :: "AttestationEvidence \<Rightarrow> AttestationEvidence" where
  "bare_evidence e = e\<lparr>ev_evidence_digest := []\<rparr>"

definition sign_evidence ::
  "trust_crypto \<Rightarrow> AttestationEvidence serde \<Rightarrow> AttestationVerifier \<Rightarrow> AttestationEvidence \<Rightarrow> AttestationEvidence result" where
  "sign_evidence tc sd v e =
     bind_result (ok_or trust_policy_error (fmlookup (at_provider_keys v) (ev_provider e))) (\<lambda>key.
     bind_result (canonical_json sd (bare_evidence e)) (\<lambda>payload.
     bind_result (mac_hex tc key payload) (\<lambda>tag. Inr (e\<lparr>ev_evidence_digest := tag\<rparr>))))"

definition evidence_accepted ::
  "trust_crypto \<Rightarrow> AttestationEvidence serde \<Rightarrow> AttestationVerifier \<Rightarrow> AttestationEvidence \<Rightarrow> NodeIdentity
     \<Rightarrow> ContentId list \<Rightarrow> u64 \<Rightarrow> bool" where
  "evidence_accepted tc sd v e i required now =
     (case fmlookup (at_provider_keys v) (ev_provider e) of
        None \<Rightarrow> False
      | Some key \<Rightarrow>
          (case canonical_json sd (bare_evidence e) of
             Inl _ \<Rightarrow> False
           | Inr payload \<Rightarrow> verify_mac tc key payload (ev_evidence_digest e))
          \<and> ev_node_id e = ni_node_id i \<and> ev_identity_key_id e = ni_key_id i
          \<and> ev_issued_tick e \<le> now \<and> ev_valid_until e \<ge> now
          \<and> list_all (\<lambda>c. c \<in> set (ev_artifact_content_ids e)) required)"

definition environment_digest :: "trust_crypto \<Rightarrow> AttestationEvidence \<Rightarrow> string" where
  "environment_digest tc e =
     digest_hex (tc_sha tc) (as_bytes (ev_node_id e @ '':'' @ ev_identity_key_id e @ '':'' @ cid_digest (ev_host_content_id e)))"

definition verify_evidence ::
  "trust_crypto \<Rightarrow> AttestationEvidence serde \<Rightarrow> AttestationVerifier \<Rightarrow> AttestationEvidence \<Rightarrow> NodeIdentity
     \<Rightarrow> ContentId list \<Rightarrow> u64 \<Rightarrow> AttestationVerdict" where
  "verify_evidence tc sd v e i required now =
     (let accepted = evidence_accepted tc sd v e i required now
      in \<lparr>av_accepted = accepted, av_verifier_id = ''attestation:'' @ ev_provider e, av_node_id = ev_node_id e,
          av_valid_until = ev_valid_until e, av_environment_digest = environment_digest tc e,
          av_reason = (if accepted then None else Some ''attestation evidence or binding is invalid'')\<rparr>)"

section \<open>Authorizations\<close>

record ResourceAuthorizer =
  zr_authorizations :: "(string, ResourceAuthorization) fmap"
  zr_key_id :: string
  zr_secret :: bytes

definition authorizer_new :: "string \<Rightarrow> bytes \<Rightarrow> ResourceAuthorizer result" where
  "authorizer_new key_id secret =
     (if key_id = [] \<or> length secret < min_key_bytes then Inl trust_config_error
      else Inr \<lparr>zr_authorizations = fmempty, zr_key_id = key_id, zr_secret = secret\<rparr>)"

record grant_request =
  gq_node_id :: NodeId
  gq_task_id :: GlobalTaskId
  gq_attempt :: u32
  gq_term :: u64
  gq_epoch :: u64
  gq_content_ids :: "ContentId list"
  gq_scopes :: "string fset"
  gq_persistent_cache :: bool
  gq_issued_tick :: u64
  gq_valid_until :: u64

definition authorization_name :: "GlobalTaskId \<Rightarrow> u32 \<Rightarrow> NodeId \<Rightarrow> u64 \<Rightarrow> u64 \<Rightarrow> string" where
  "authorization_name task attempt node epoch until =
     task @ '':'' @ dec_string (unat attempt) @ '':'' @ node @ '':'' @ dec_string (unat epoch) @ '':'' @ dec_string (unat until)"

definition bare_authorization :: "ResourceAuthorization \<Rightarrow> ResourceAuthorization" where
  "bare_authorization a = a\<lparr>az_key_id := [], az_tag := []\<rparr>"

definition requested_authorization :: "trust_crypto \<Rightarrow> u64 \<Rightarrow> grant_request \<Rightarrow> ResourceAuthorization" where
  "requested_authorization tc generation q =
     \<lparr>az_authorization_id = digest_hex (tc_sha tc)
        (as_bytes (authorization_name (gq_task_id q) (gq_attempt q) (gq_node_id q) (gq_epoch q) (gq_valid_until q))),
      az_task_id = gq_task_id q, az_attempt = gq_attempt q, az_node_id = gq_node_id q, az_generation = generation,
      az_term = gq_term q, az_epoch = gq_epoch q, az_content_ids = gq_content_ids q, az_scopes = gq_scopes q,
      az_persistent_cache = gq_persistent_cache q, az_issued_tick = gq_issued_tick q,
      az_valid_until = gq_valid_until q, az_key_id = [], az_tag = []\<rparr>"

definition grant ::
  "trust_crypto \<Rightarrow> ResourceAuthorization serde \<Rightarrow> NodeIdentityRegistry \<Rightarrow> grant_request \<Rightarrow> ResourceAuthorizer
     \<Rightarrow> ResourceAuthorization result \<times> ResourceAuthorizer" where
  "grant tc sd r q z =
     (if gq_attempt q = 0 \<or> gq_term q = 0 \<or> gq_epoch q = 0 \<or> gq_content_ids q = [] \<or> gq_scopes q = {||}
         \<or> gq_valid_until q \<le> gq_issued_tick q \<or> \<not> eligible r (gq_node_id q) LevelUntrusted (gq_issued_tick q)
      then (Inl trust_policy_error, z)
      else case identity_of r (gq_node_id q) of
        None \<Rightarrow> (Inl identity_unknown, z)
      | Some i \<Rightarrow>
          let a = requested_authorization tc (ni_key_generation i) q in
          case bind_result (canonical_json sd a) (mac_hex tc (zr_secret z)) of
            Inl e \<Rightarrow> (Inl e, z)
          | Inr tag \<Rightarrow>
              let a = a\<lparr>az_key_id := zr_key_id z, az_tag := tag\<rparr>
              in (Inr a, z\<lparr>zr_authorizations := fmupd (az_authorization_id a) a (zr_authorizations z)\<rparr>))"

definition validate_authorization ::
  "trust_crypto \<Rightarrow> ResourceAuthorization serde \<Rightarrow> NodeIdentityRegistry \<Rightarrow> ResourceAuthorizer \<Rightarrow> ResourceAuthorization
     \<Rightarrow> u64 \<Rightarrow> u64 \<Rightarrow> u64 \<Rightarrow> bool" where
  "validate_authorization tc sd r z a term epoch now =
     (if az_term a \<noteq> term \<or> az_epoch a \<noteq> epoch \<or> az_issued_tick a > now \<or> az_valid_until a < now
         \<or> \<not> bt_contains (zr_authorizations z) (az_authorization_id a)
      then False
      else az_key_id a = zr_key_id z \<and> eligible r (az_node_id a) LevelUntrusted now
        \<and> (case identity_of r (az_node_id a) of None \<Rightarrow> False | Some i \<Rightarrow> ni_key_generation i = az_generation a)
        \<and> (case canonical_json sd (bare_authorization a) of
             Inl _ \<Rightarrow> False
           | Inr payload \<Rightarrow> verify_mac tc (zr_secret z) payload (az_tag a)))"

definition revoke_where :: "(ResourceAuthorization \<Rightarrow> bool) \<Rightarrow> ResourceAuthorizer \<Rightarrow> string list \<times> ResourceAuthorizer" where
  "revoke_where p z =
     (let revoked = map fst (filter (\<lambda>(_, a). p a) (bt_entries (zr_authorizations z)))
      in (revoked, z\<lparr>zr_authorizations := fold fmdrop revoked (zr_authorizations z)\<rparr>))"

definition revoke_for_node :: "NodeId \<Rightarrow> ResourceAuthorizer \<Rightarrow> string list \<times> ResourceAuthorizer" where
  "revoke_for_node n = revoke_where (\<lambda>a. az_node_id a = n)"

definition revoke_task :: "GlobalTaskId \<Rightarrow> ResourceAuthorizer \<Rightarrow> string list \<times> ResourceAuthorizer" where
  "revoke_task g = revoke_where (\<lambda>a. az_task_id a = g)"

section \<open>The signed objects are sealed\<close>

interpretation artifacts: sealed_object bare_artifact ai_integrity_tag "\<lambda>_ tag a. a\<lparr>ai_integrity_tag := tag\<rparr>"
  by unfold_locales (simp_all add: bare_artifact_def)

interpretation evidences: sealed_object bare_evidence ev_evidence_digest "\<lambda>_ tag e. e\<lparr>ev_evidence_digest := tag\<rparr>"
  by unfold_locales (simp_all add: bare_evidence_def)

interpretation authorizations: sealed_object bare_authorization az_tag "\<lambda>k tag a. a\<lparr>az_key_id := k, az_tag := tag\<rparr>"
  by unfold_locales (simp_all add: bare_authorization_def)

lemma sealed_case:
  "(case canonical_json sd (bare x) of Inl _ \<Rightarrow> False | Inr p \<Rightarrow> verify_mac tc key p (tag_of x)) \<longleftrightarrow> sealed_by tc sd bare tag_of key x"
  by (auto simp: sealed_by_def canonical_json_def ok_or_def split: option.splits)

lemma verify_artifact_iff:
  "verify_artifact tc sd v a \<longleftrightarrow> fmlookup (ar_allowlist v) (ai_artifact_id a, ai_generation a) = Some a
     \<and> (\<exists>key. fmlookup (ar_authority_keys v) (ai_signer_key_id a) = Some key
          \<and> sealed_by tc sd bare_artifact ai_integrity_tag key a)"
  by (auto simp: verify_artifact_def sealed_case split: option.splits)

lemma evidence_accepted_iff:
  "evidence_accepted tc sd v e i required now \<longleftrightarrow>
     (\<exists>key. fmlookup (at_provider_keys v) (ev_provider e) = Some key \<and> sealed_by tc sd bare_evidence ev_evidence_digest key e)
     \<and> ev_node_id e = ni_node_id i \<and> ev_identity_key_id e = ni_key_id i \<and> ev_issued_tick e \<le> now \<and> now \<le> ev_valid_until e
     \<and> set required \<subseteq> set (ev_artifact_content_ids e)"
  by (auto simp: evidence_accepted_def sealed_case list_all_iff split: option.splits)

lemma validate_authorization_iff:
  "validate_authorization tc sd r z a term epoch now \<longleftrightarrow>
     az_term a = term \<and> az_epoch a = epoch \<and> az_issued_tick a \<le> now \<and> now \<le> az_valid_until a
     \<and> bt_contains (zr_authorizations z) (az_authorization_id a) \<and> az_key_id a = zr_key_id z
     \<and> eligible r (az_node_id a) LevelUntrusted now \<and> key_generation r (az_node_id a) = az_generation a
     \<and> sealed_by tc sd bare_authorization az_tag (zr_secret z) a"
  by (auto simp: validate_authorization_def sealed_case key_generation_def eligible_def identity_of_def not_less not_le
      split: option.splits)

lemma fold_fmdrop_lookup: "fmlookup (fold fmdrop ks m) k = (if k \<in> set ks then None else fmlookup m k)"
  by (induction ks arbitrary: m) auto

lemma revoke_where_facts:
  "snd (revoke_where p z) = z\<lparr>zr_authorizations := fold fmdrop (fst (revoke_where p z)) (zr_authorizations z)\<rparr>"
  "set (fst (revoke_where p z)) = {k. \<exists>a. fmlookup (zr_authorizations z) k = Some a \<and> p a}"
  "fmlookup (zr_authorizations (snd (revoke_where p z))) k =
     (case fmlookup (zr_authorizations z) k of None \<Rightarrow> None | Some a \<Rightarrow> if p a then None else Some a)"
proof -
  show facts: "snd (revoke_where p z) = z\<lparr>zr_authorizations := fold fmdrop (fst (revoke_where p z)) (zr_authorizations z)\<rparr>"
    "set (fst (revoke_where p z)) = {k. \<exists>a. fmlookup (zr_authorizations z) k = Some a \<and> p a}"
    by (simp_all add: revoke_where_def Let_def set_filter_keys del: set_map)
  show "fmlookup (zr_authorizations (snd (revoke_where p z))) k =
     (case fmlookup (zr_authorizations z) k of None \<Rightarrow> None | Some a \<Rightarrow> if p a then None else Some a)"
    by (auto simp: facts fold_fmdrop_lookup split: option.splits)
qed

lemma grant_Inr:
  assumes "grant tc sd r q z = (Inr a, z')"
  obtains i where "identity_of r (gq_node_id q) = Some i" "eligible r (gq_node_id q) LevelUntrusted (gq_issued_tick q)"
    "gq_attempt q \<noteq> 0" "gq_issued_tick q < gq_valid_until q" "gq_content_ids q \<noteq> []" "gq_scopes q \<noteq> {||}"
    "bare_authorization a = requested_authorization tc (ni_key_generation i) q" "az_key_id a = zr_key_id z"
    "sealed_by tc sd bare_authorization az_tag (zr_secret z) a"
    "z' = z\<lparr>zr_authorizations := fmupd (az_authorization_id a) a (zr_authorizations z)\<rparr>"
proof -
  have bare: "bare_authorization (requested_authorization tc g q) = requested_authorization tc g q" for g
    by (simp add: bare_authorization_def requested_authorization_def)
  from assms obtain i p tag where i: "identity_of r (gq_node_id q) = Some i" "eligible r (gq_node_id q) LevelUntrusted (gq_issued_tick q)"
    "gq_attempt q \<noteq> 0" "gq_issued_tick q < gq_valid_until q" "gq_content_ids q \<noteq> []" "gq_scopes q \<noteq> {||}"
    and p: "canonical_json sd (requested_authorization tc (ni_key_generation i) q) = Inr p" "mac_hex tc (zr_secret z) p = Inr tag"
    and a: "a = (requested_authorization tc (ni_key_generation i) q)\<lparr>az_key_id := zr_key_id z, az_tag := tag\<rparr>"
    and z': "z' = z\<lparr>zr_authorizations := fmupd (az_authorization_id a) a (zr_authorizations z)\<rparr>"
    by (auto simp: grant_def Let_def not_le bind_result_Inr simp del: canonical_json_Inr
        split: if_splits option.splits sum.splits)
  have "sealed_by tc sd bare_authorization az_tag (zr_secret z) a"
    unfolding a by (rule authorizations.attach_sealed) (use bare p in simp_all)
  moreover have "bare_authorization a = requested_authorization tc (ni_key_generation i) q"
    unfolding a by (simp add: authorizations.bare_attach bare)
  ultimately show ?thesis by (intro that [OF i _ _ _ z']) (simp_all add: a)
qed

end
