(* ===== verification/Trust_Reputation.thy ===== *)
theory Trust_Reputation
  imports Trust_Authority Float_Ops "HOL-Library.Product_Lexorder"
begin

text \<open>
  \<open>trust_reputation.rs\<close>: the bounded model of node reputations, and the tracker that isolates a
  compromised node.  \<open>f64\<close> is a type parameter with its operations; a reputation key is the
  triple of its fields, which the derived order compares in turn.
\<close>

section \<open>Reputation\<close>

type_synonym ReputationKey = "NodeId \<times> string \<times> u64"

definition observed_succeeded :: u8 where "observed_succeeded = 1"
definition observed_timed_out :: u8 where "observed_timed_out = 2"
definition observed_result_mismatch :: u8 where "observed_result_mismatch = 4"
definition observed_resource_corruption :: u8 where "observed_resource_corruption = 8"
definition observed_cancel_refused :: u8 where "observed_cancel_refused = 16"
definition observed_unauthorized_access :: u8 where "observed_unauthorized_access = 32"
definition observed_forged_capability :: u8 where "observed_forged_capability = 64"

record 'f ReputationObservation =
  ro_flags :: u8
  ro_latency_ratio :: 'f

record 'f ReputationModel =
  rm_max_buckets :: nat
  rm_minimum_samples :: u32
  rm_buckets :: "(ReputationKey, 'f ReputationSnapshot) fmap"

definition reputation_config_error :: DistributedError where
  "reputation_config_error = error_new InvalidConfig ''reputation model must be bounded and require samples''"

definition observation_error :: DistributedError where
  "observation_error = error_new Incompatible ''reputation observation is invalid''"

definition no_candidate_error :: DistributedError where
  "no_candidate_error = error_new InvalidConfig ''reputation model has no eviction candidate''"

definition reputation_new :: "nat \<Rightarrow> u32 \<Rightarrow> 'f ReputationModel result" where
  "reputation_new max_buckets minimum_samples =
     (if max_buckets = 0 \<or> minimum_samples = 0 then Inl reputation_config_error
      else Inr \<lparr>rm_max_buckets = max_buckets, rm_minimum_samples = minimum_samples, rm_buckets = fmempty\<rparr>)"

definition slow_ewma :: "('f, 'z) f64_arith_scheme \<Rightarrow> 'f \<Rightarrow> bool \<Rightarrow> 'f" where
  "slow_ewma f previous observed =
     f_mul_add f previous (f_lit f 95 2) (f_mul f (f_lit f (if observed then 1 else 0) 0) (f_lit f 5 2))"

definition fresh_reputation :: "('f, 'z) f64_arith_scheme \<Rightarrow> NodeId \<Rightarrow> string \<Rightarrow> u64 \<Rightarrow> 'f ReputationSnapshot" where
  "fresh_reputation f n capability generation =
     \<lparr>rs_node = n, rs_capability = capability, rs_plugin_generation = generation, rs_samples = 0,
      rs_reliability = f_lit f 5 1, rs_timeout = f_lit f 0 0, rs_mismatch = f_lit f 0 0, rs_corruption = f_lit f 0 0,
      rs_uncertainty = f_lit f 1 0, rs_anomalies = {||}\<rparr>"

text \<open>Room for a new key: the smallest key goes when the model is full.\<close>

definition make_room :: "ReputationKey \<Rightarrow> 'f ReputationModel \<Rightarrow> unit result \<times> (ReputationKey, 'f ReputationSnapshot) fmap" where
  "make_room key m =
     (if \<not> bt_contains (rm_buckets m) key \<and> bt_len (rm_buckets m) \<ge> rm_max_buckets m
      then (case bt_keys (rm_buckets m) of
              [] \<Rightarrow> (Inl no_candidate_error, rm_buckets m)
            | evict # _ \<Rightarrow> (Inr (), fmdrop evict (rm_buckets m)))
      else (Inr (), rm_buckets m))"

definition update_rates :: "('f, 'z) f64_arith_scheme \<Rightarrow> u32 \<Rightarrow> u8 \<Rightarrow> 'f ReputationSnapshot \<Rightarrow> 'f ReputationSnapshot" where
  "update_rates f minimum flags s =
     (let samples = sat_add (rs_samples s) 1 in
      s\<lparr>rs_samples := samples,
        rs_reliability := slow_ewma f (rs_reliability s) (flags_contain flags observed_succeeded),
        rs_timeout := slow_ewma f (rs_timeout s) (flags_contain flags observed_timed_out),
        rs_mismatch := slow_ewma f (rs_mismatch s) (flags_contain flags observed_result_mismatch),
        rs_corruption := slow_ewma f (rs_corruption s) (flags_contain flags observed_resource_corruption),
        rs_uncertainty := f_div f (f_lit f (unat (sat_sub minimum samples)) 0) (f_lit f (unat (max minimum 1)) 0)\<rparr>)"

definition detected_anomalies :: "('f, 'z) f64_arith_scheme \<Rightarrow> 'f ReputationObservation \<Rightarrow> 'f ReputationSnapshot \<Rightarrow> AnomalyKind list" where
  "detected_anomalies f x s =
     (if flags_contain (ro_flags x) observed_forged_capability then [ForgedCapability] else [])
     @ (if f_le f (f_lit f 2 1) (rs_mismatch s) then [ResultMismatch] else [])
     @ (if f_le f (f_lit f 2 1) (rs_corruption s) then [ResourceCorruption] else [])
     @ (if f_le f (f_lit f 4 0) (ro_latency_ratio x) then [AbnormalLatency] else [])
     @ (if flags_contain (ro_flags x) observed_cancel_refused then [CancelRefused] else [])
     @ (if flags_contain (ro_flags x) observed_unauthorized_access then [UnauthorizedAccess] else [])"

definition observe :: "('f, 'z) f64_arith_scheme \<Rightarrow> u32 \<Rightarrow> 'f ReputationObservation \<Rightarrow> 'f ReputationSnapshot \<Rightarrow> 'f ReputationSnapshot" where
  "observe f minimum x s =
     (let s = update_rates f minimum (ro_flags x) s
      in if rs_samples s \<ge> minimum
         then s\<lparr>rs_anomalies := rs_anomalies s |\<union>| fset_of_list (detected_anomalies f x s)\<rparr>
         else s)"

definition reputation_record ::
  "('f, 'z) f64_arith_scheme \<Rightarrow> NodeId \<Rightarrow> string \<Rightarrow> u64 \<Rightarrow> 'f ReputationObservation \<Rightarrow> 'f ReputationModel
     \<Rightarrow> 'f ReputationSnapshot result \<times> 'f ReputationModel" where
  "reputation_record f n capability generation x m =
     (if generation = 0 \<or> \<not> f_finite f (ro_latency_ratio x) \<or> f_lt f (ro_latency_ratio x) (f_lit f 0 0)
      then (Inl observation_error, m)
      else
        let key = (n, capability, generation) in
        case make_room key m of
          (Inl e, _) \<Rightarrow> (Inl e, m)
        | (Inr _, buckets) \<Rightarrow>
            let s = observe f (rm_minimum_samples m) x (unwrap_or (fresh_reputation f n capability generation) (fmlookup buckets key))
            in (Inr s, m\<lparr>rm_buckets := fmupd key s buckets\<rparr>))"

definition reputation_decay :: "('f, 'z) f64_arith_scheme \<Rightarrow> 'f ReputationModel \<Rightarrow> 'f ReputationModel" where
  "reputation_decay f m = m\<lparr>rm_buckets := fmmap (\<lambda>s. s\<lparr>
     rs_reliability := f_mul_add f (rs_reliability s) (f_lit f 99 2) (f_lit f 5 3),
     rs_timeout := f_mul f (rs_timeout s) (f_lit f 99 2),
     rs_mismatch := f_mul f (rs_mismatch s) (f_lit f 99 2),
     rs_corruption := f_mul f (rs_corruption s) (f_lit f 99 2)\<rparr>) (rm_buckets m)\<rparr>"

definition scheduling_risk :: "('f, 'z) f64_arith_scheme \<Rightarrow> NodeId \<Rightarrow> string \<Rightarrow> u64 \<Rightarrow> 'f ReputationModel \<Rightarrow> 'f" where
  "scheduling_risk f n capability generation m =
     (case fmlookup (rm_buckets m) (n, capability, generation) of
        None \<Rightarrow> f_lit f 1 0
      | Some s \<Rightarrow>
          f_add f (f_add f (f_add f (f_add f (f_sub f (f_lit f 1 0) (rs_reliability s)) (rs_timeout s))
            (f_mul f (rs_mismatch s) (f_lit f 2 0))) (f_mul f (rs_corruption s) (f_lit f 2 0))) (rs_uncertainty s))"

definition bucket_count :: "'f ReputationModel \<Rightarrow> nat" where
  "bucket_count m = bt_len (rm_buckets m)"

section \<open>Compromised nodes\<close>

record CompromiseTracker =
  ct_content :: "(NodeId, ContentId list) fmap"
  ct_tasks :: "(NodeId, GlobalTaskId fset) fmap"
  ct_fencing_epoch :: u64

definition tracker_config_error :: DistributedError where
  "tracker_config_error = error_new InvalidConfig ''compromise tracker requires a fencing epoch''"

definition tracker_new :: "u64 \<Rightarrow> CompromiseTracker result" where
  "tracker_new epoch =
     (if epoch = 0 then Inl tracker_config_error
      else Inr \<lparr>ct_content = fmempty, ct_tasks = fmempty, ct_fencing_epoch = epoch\<rparr>)"

definition record_output :: "NodeId \<Rightarrow> GlobalTaskId \<Rightarrow> ContentId \<Rightarrow> CompromiseTracker \<Rightarrow> CompromiseTracker" where
  "record_output n task content t = t\<lparr>
     ct_content := fmupd n (unwrap_or [] (fmlookup (ct_content t) n) @ [content]) (ct_content t),
     ct_tasks := fmupd n (finsert task (unwrap_or {||} (fmlookup (ct_tasks t) n))) (ct_tasks t)\<rparr>"

definition required_actions :: "GlobalTaskId fset \<Rightarrow> string list" where
  "required_actions affected =
     [''verify_or_recompute_committed_results'', ''repair_from_trusted_replica'', ''rotate_affected_access_keys'',
      ''preserve_audit_evidence'']
     @ (if affected = {||} then [] else [''rollback_compensate_or_manual_review''])"

definition isolate_node ::
  "NodeId \<Rightarrow> CompromiseTracker \<times> NodeIdentityRegistry \<times> ResourceAuthorizer
     \<Rightarrow> CompromiseImpact result \<times> CompromiseTracker \<times> NodeIdentityRegistry \<times> ResourceAuthorizer" where
  "isolate_node n = (\<lambda>(t, r, z).
     case quarantine n r of
       (Inl e, r) \<Rightarrow> (Inl e, t, r, z)
     | (Inr _, r) \<Rightarrow>
         (case revoke_for_node n z of
            (revoked, z) \<Rightarrow>
              let epoch = sat_add (ct_fencing_epoch t) 1;
                  content = unwrap_or [] (fmlookup (ct_content t) n);
                  affected = unwrap_or {||} (fmlookup (ct_tasks t) n)
              in (Inr \<lparr>ci_node_id = n, ci_new_fencing_epoch = epoch, ci_revoked = revoked,
                       ci_quarantined_content = content, ci_affected_tasks = affected,
                       ci_required_actions = required_actions affected\<rparr>,
                  t\<lparr>ct_content := fmdrop n (ct_content t), ct_tasks := fmdrop n (ct_tasks t), ct_fencing_epoch := epoch\<rparr>,
                  r, z)))"

section \<open>Lemmas\<close>

lemma make_room_Inr:
  "make_room key m = (Inr u, b) \<Longrightarrow> rm_max_buckets m \<noteq> 0 \<Longrightarrow> bt_len (rm_buckets m) \<le> rm_max_buckets m \<Longrightarrow>
     bt_len (fmupd key s b) \<le> rm_max_buckets m
     \<and> fmlookup b key = fmlookup (rm_buckets m) key
     \<and> (\<forall>k. fmlookup b k = fmlookup (rm_buckets m) k \<or> \<not> bt_contains (rm_buckets m) key
            \<and> bt_len (rm_buckets m) = rm_max_buckets m \<and> k = hd (bt_keys (rm_buckets m)))"
proof -
  assume a: "make_room key m = (Inr u, b)" "rm_max_buckets m \<noteq> 0" "bt_len (rm_buckets m) \<le> rm_max_buckets m"
  show ?thesis
  proof (cases "\<not> bt_contains (rm_buckets m) key \<and> bt_len (rm_buckets m) \<ge> rm_max_buckets m")
    case True
    then obtain e ks where keys: "bt_keys (rm_buckets m) = e # ks" and b: "b = fmdrop e (rm_buckets m)"
      using a by (auto simp: make_room_def split: list.splits if_splits)
    have e: "e |\<in>| fmdom (rm_buckets m)" using set_bt_keys [of "rm_buckets m"] keys by force
    then have "e \<noteq> key" using True by (auto simp: bt_contains_iff)
    moreover have "Suc (bt_len b) = bt_len (rm_buckets m)"
      using e fcard_Suc_fminus1 [of e "fmdom (rm_buckets m)"] by (simp add: b bt_len_def)
    ultimately show ?thesis using True a(3) keys by (auto simp: b bt_len_upd)
  next
    case False
    then have "b = rm_buckets m" using a by (auto simp: make_room_def split: if_splits)
    then show ?thesis using False a by (auto simp: bt_len_upd)
  qed
qed

end
