(* ===== verification/Trust_Properties.thy ===== *)
theory Trust_Properties
  imports Identity_Properties Trust_Evidence Trust_Reputation
begin

text \<open>
  What the trust plane guarantees: what an isolated node can no longer do, what an authorization,
  a receipt and a certificate prove, how results are verified, and the bound on reputations.
\<close>

section \<open>Sequences of operations\<close>

datatype trust_op =
    IdentityOp identity_op
  | GrantOp grant_request
  | RevokeNodeOp NodeId
  | RevokeTaskOp GlobalTaskId
  | OutputOp NodeId GlobalTaskId ContentId
  | IsolateOp NodeId

type_synonym trust_state = "CompromiseTracker \<times> NodeIdentityRegistry \<times> ResourceAuthorizer"

fun trust_step :: "trust_crypto \<Rightarrow> ResourceAuthorization serde \<Rightarrow> trust_op \<Rightarrow> trust_state \<Rightarrow> trust_state" where
  "trust_step tc sd (IdentityOp x) (t, r, z) = (t, identity_step x r, z)"
| "trust_step tc sd (GrantOp q) (t, r, z) = (t, r, snd (grant tc sd r q z))"
| "trust_step tc sd (RevokeNodeOp n) (t, r, z) = (t, r, snd (revoke_for_node n z))"
| "trust_step tc sd (RevokeTaskOp g) (t, r, z) = (t, r, snd (revoke_task g z))"
| "trust_step tc sd (OutputOp n g c) (t, r, z) = (record_output n g c t, r, z)"
| "trust_step tc sd (IsolateOp n) s = snd (isolate_node n s)"


abbreviation trust_run :: "trust_crypto \<Rightarrow> ResourceAuthorization serde \<Rightarrow> trust_op list \<Rightarrow> trust_state \<Rightarrow> trust_state" where
  "trust_run tc sd \<equiv> fold (trust_step tc sd)"

lemma isolate_node_cases:
  assumes "isolate_node n (t, r, z) = (res, t', r', z')"
  shows "(r' = r \<or> entry_change r n r') \<and> (z' = z \<or> z' = snd (revoke_for_node n z))"
proof -
  obtain u q where q: "quarantine n r = (u, q)" by fastforce
  then show ?thesis using assms registry_ops_change(5) [OF q]
    by (auto simp: isolate_node_def Let_def split: sum.splits prod.splits)
qed


lemma trust_step_registry:
  "fst (snd (trust_step tc sd x s)) = fst (snd s) \<or> (\<exists>n. entry_change (fst (snd s)) n (fst (snd (trust_step tc sd x s))))"
proof -
  obtain t r z where s: "s = (t, r, z)" by (cases s) auto
  show ?thesis
  proof (cases x)
    case (IdentityOp y)
    then show ?thesis using identity_step_change [of y r] by (auto simp: s)
  next
    case (IsolateOp n)
    obtain res t' r' z' where i: "isolate_node n (t, r, z) = (res, t', r', z')" by (cases "isolate_node n (t, r, z)") auto
    then show ?thesis using isolate_node_cases [OF i] by (auto simp: s IsolateOp)
  qed (auto simp: s)
qed

lemma revoke_authority [simp]:
  "zr_secret (snd (revoke_for_node n z)) = zr_secret z" "zr_key_id (snd (revoke_for_node n z)) = zr_key_id z"
  "zr_secret (snd (revoke_task g z)) = zr_secret z" "zr_key_id (snd (revoke_task g z)) = zr_key_id z"
  by (simp_all add: revoke_for_node_def revoke_task_def revoke_where_def Let_def)


lemma trust_run_inactive:
  "inactive_since (fst (snd s)) n g \<Longrightarrow> g \<noteq> - 1 \<Longrightarrow> inactive_since (fst (snd (trust_run tc sd xs s))) n g"
proof (induction xs arbitrary: s)
  case (Cons x xs)
  then have "inactive_since (fst (snd (trust_step tc sd x s))) n g"
    using trust_step_registry [of tc sd x s] entry_change_inactive by metis
  with Cons show ?case by simp
qed simp



lemma restore_receipt: "(bare_receipt x)\<lparr>er_identity_key_id := er_identity_key_id x, er_receipt_tag := er_receipt_tag x\<rparr> = x"
  by (simp add: bare_receipt_def)

section \<open>Isolation and authorizations\<close>

text \<open>
  Claim C28. Isolating a compromised node is final for what it was given: the impact names every
  authorization, output and task of the node, and no authorization for a key generation it had
  so far is ever valid again, whatever operations follow, a readmission included, as long as
  the generation is not the largest number.
\<close>

theorem isolation_is_permanent:
  assumes "isolate_node n (t, r, z) = (Inr impact, s)" and "trust_run tc sd ops s = (t2, r2, z2)"
    and "az_node_id a = n" and "az_generation a \<le> key_generation r n" and "key_generation r n \<noteq> - 1"
  shows "\<not> validate_authorization tc sd r2 z2 a term epoch now
    \<and> set (ci_revoked impact) = {k. \<exists>b. fmlookup (zr_authorizations z) k = Some b \<and> az_node_id b = n}
    \<and> ci_quarantined_content impact = unwrap_or [] (fmlookup (ct_content t) n)
    \<and> ci_affected_tasks impact = unwrap_or {||} (fmlookup (ct_tasks t) n)
    \<and> ci_new_fencing_epoch impact = sat_add (ct_fencing_epoch t) 1"
proof -
  from assms(1) obtain x r1 z1 where x: "fmlookup (ir_entries r) n = Some x" and q: "quarantine n r = (Inr (), r1)"
    and z1: "revoke_for_node n z = (ci_revoked impact, z1)" and s: "fst (snd s) = r1"
    and impact: "ci_quarantined_content impact = unwrap_or [] (fmlookup (ct_content t) n)"
      "ci_affected_tasks impact = unwrap_or {||} (fmlookup (ct_tasks t) n)"
      "ci_new_fencing_epoch impact = sat_add (ct_fencing_epoch t) 1"
    by (auto simp: isolate_node_def Let_def quarantine_def split: sum.splits prod.splits)
  have "inactive_since r1 n (key_generation r n)"
    using q x by (auto simp: quarantine_def inactive_since_def key_generation_simps split: sum.splits)
  then have "inactive_since r2 n (key_generation r n)"
    using trust_run_inactive [of s n "key_generation r n" tc sd ops] assms(2,5) s by simp
  then have "\<not> validate_authorization tc sd r2 z2 a term epoch now"
    using assms(3,4) by (auto simp: inactive_since_def validate_authorization_iff eligible_def identity_active_at_def key_generation_simps)
  moreover have "set (ci_revoked impact) = {k. \<exists>b. fmlookup (zr_authorizations z) k = Some b \<and> az_node_id b = n}"
    using revoke_where_facts(2) [of "\<lambda>a. az_node_id a = n" z] z1 by (simp add: revoke_for_node_def)
  ultimately show ?thesis using impact by simp
qed


text \<open>
  Claim C40. The name of an authorization does not cover what it allows, and its validity is decided by its
  name and tag: after a task's authorizations are revoked and a narrower one is granted for the
  same attempt, node and span, the revoked one is valid again.
\<close>

theorem revoked_authorization_revives:
  assumes "grant tc sd r q z = (Inr a, z1)" and "revoke_task (gq_task_id q) z1 = (revoked, z2)"
    and "grant tc sd r (q\<lparr>gq_content_ids := contents, gq_scopes := scopes\<rparr>) z2 = (Inr b, z3)"
    and "gq_issued_tick q \<le> now" and "now \<le> gq_valid_until q" and "eligible r (gq_node_id q) LevelUntrusted now"
  shows "az_authorization_id a \<in> set revoked \<and> \<not> validate_authorization tc sd r z2 a (gq_term q) (gq_epoch q) now
    \<and> validate_authorization tc sd r z3 a (gq_term q) (gq_epoch q) now
    \<and> az_content_ids a = gq_content_ids q \<and> az_scopes a = gq_scopes q"
proof -
  from assms(1) obtain i where i: "identity_of r (gq_node_id q) = Some i"
    and bare: "bare_authorization a = requested_authorization tc (ni_key_generation i) q"
    and key: "az_key_id a = zr_key_id z" and sealed: "sealed_by tc sd bare_authorization az_tag (zr_secret z) a"
    and z1: "z1 = z\<lparr>zr_authorizations := fmupd (az_authorization_id a) a (zr_authorizations z)\<rparr>"
    by (rule grant_Inr)
  from assms(3) obtain j where j: "identity_of r (gq_node_id q) = Some j"
    and bare': "bare_authorization b = requested_authorization tc (ni_key_generation j) (q\<lparr>gq_content_ids := contents, gq_scopes := scopes\<rparr>)"
    and z3: "z3 = z2\<lparr>zr_authorizations := fmupd (az_authorization_id b) b (zr_authorizations z2)\<rparr>"
    by (rule grant_Inr) simp
  have a: "az_term a = gq_term q" "az_epoch a = gq_epoch q" "az_issued_tick a = gq_issued_tick q"
    "az_valid_until a = gq_valid_until q" "az_node_id a = gq_node_id q" "az_task_id a = gq_task_id q"
    "az_generation a = ni_key_generation i" "az_content_ids a = gq_content_ids q" "az_scopes a = gq_scopes q"
    using arg_cong [OF bare, of az_term] arg_cong [OF bare, of az_epoch] arg_cong [OF bare, of az_issued_tick]
      arg_cong [OF bare, of az_valid_until] arg_cong [OF bare, of az_node_id] arg_cong [OF bare, of az_task_id]
      arg_cong [OF bare, of az_generation] arg_cong [OF bare, of az_content_ids] arg_cong [OF bare, of az_scopes]
    by (simp_all add: bare_authorization_def requested_authorization_def)
  have same: "az_authorization_id b = az_authorization_id a"
    using arg_cong [OF bare, of az_authorization_id] arg_cong [OF bare', of az_authorization_id]
    by (simp add: bare_authorization_def requested_authorization_def)
  note facts = revoke_where_facts [of "\<lambda>a. az_task_id a = gq_task_id q" z1, folded revoke_task_def]
  have z2: "zr_secret z2 = zr_secret z" "zr_key_id z2 = zr_key_id z" "z2 = snd (revoke_task (gq_task_id q) z1)"
    "revoked = fst (revoke_task (gq_task_id q) z1)"
    using assms(2) by (simp_all add: revoke_task_def revoke_where_def Let_def z1 split: prod.splits) (auto simp: z1)
  have "az_authorization_id a \<in> set revoked" using facts(2) a(6) by (simp add: z2(4) z1)
  moreover have "\<not> bt_contains (zr_authorizations z2) (az_authorization_id a)"
    using facts(3) [of "az_authorization_id a"] a(6) by (simp add: z2(3) z1 bt_contains_def)
  ultimately show ?thesis
    using a i sealed key same assms(4-6) z2(1,2) by (auto simp: validate_authorization_iff z3 bt_contains_def key_generation_def)
qed

section \<open>Receipts and certificates\<close>

text \<open>
  Claim C29. A signed receipt is accepted for its attempt, term and epoch as long as the node's
  identity is unchanged and within its span; whatever receipt of that node is accepted under the
  same tag is this one, but for the signature, or exhibits two encodings with one tag.  Of the
  encoder it is assumed that no two receipts have the same encoding unless the quality of both is
  not finite, which JSON writes as \<open>null\<close>.
\<close>

theorem receipt_binds:
  assumes "receipt_codec_ok f sd" and "sign_execution_receipt tc sd f r x now = Inr y"
    and "fmlookup (ir_entries r2) (er_node_id x) = Some e" and "fmlookup (ir_entries r) (er_node_id x) = Some e"
    and "identity_active_at (ie_identity e) later"
  shows "verify_execution_receipt tc sd r2 y None (er_attempt x) (er_term x) (er_epoch x) later = Inr ()
    \<and> (\<forall>w commit attempt term epoch. verify_execution_receipt tc sd r2 w commit attempt term epoch later = Inr ()
          \<and> er_node_id w = er_node_id x \<and> er_receipt_tag w = er_receipt_tag y \<longrightarrow>
         (attempt = er_attempt x \<and> term = er_term x \<and> epoch = er_epoch x \<and> w = y)
         \<or> confused tc sd (ie_secret e) (bare_receipt w) (bare_receipt x))"
proof -
  from sign_execution_receipt_Inr [OF assms(2)] obtain secret tag where
    s: "active_secret r (er_node_id x) (er_identity_key_id y) now = Some secret"
    and y: "y = x\<lparr>er_identity_key_id := er_identity_key_id y, er_receipt_tag := tag\<rparr>"
    and sealed: "sealed_by tc sd bare_receipt er_receipt_tag secret y" and finite: "f_finite f (er_quality x)" by blast
  have secret: "secret = ie_secret e" "ni_key_id (ie_identity e) = er_identity_key_id y"
    using s assms(4) by (auto simp: active_secret_def split: if_splits)
  have bare: "bare_receipt y = bare_receipt x" "er_node_id y = er_node_id x" "er_attempt y = er_attempt x"
    "er_term y = er_term x" "er_epoch y = er_epoch x"
    by (subst y, simp add: bare_receipt_def)+
  have unique: "encoded_uniquely sd (bare_receipt y)"
    using assms(1) finite unfolding receipt_codec_ok_def bare(1) by (simp add: bare_receipt_def)
  have "verify_execution_receipt tc sd r2 y None (er_attempt x) (er_term x) (er_epoch x) later = Inr ()"
    using sealed secret assms(3,5) bare by (simp add: verify_execution_receipt_iff stale_commit_def active_secret_def)
  moreover have "(attempt = er_attempt x \<and> term = er_term x \<and> epoch = er_epoch x \<and> w = y)
         \<or> confused tc sd (ie_secret e) (bare_receipt w) (bare_receipt x)"
    if w: "verify_execution_receipt tc sd r2 w commit attempt term epoch later = Inr ()" "er_node_id w = er_node_id x"
      "er_receipt_tag w = er_receipt_tag y" for w commit attempt "term" epoch
  proof -
    have ws: "sealed_by tc sd bare_receipt er_receipt_tag (ie_secret e) w" "er_identity_key_id w = er_identity_key_id y"
      "er_attempt w = attempt" "er_term w = term" "er_epoch w = epoch"
      using w(1,2) assms(3) secret by (auto simp: verify_execution_receipt_iff active_secret_def split: if_splits)
    from receipts.sealed_binds_unique [OF unique ws(1) sealed [unfolded secret]] w(3)
    consider "bare_receipt w = bare_receipt y" | "confused tc sd (ie_secret e) (bare_receipt w) (bare_receipt y)" by auto
    then show ?thesis
    proof cases
      case 1
      then have "w = y" using restore_receipt [of w] restore_receipt [of y] ws(2) w(3) by metis
      then show ?thesis using ws(3-5) bare by simp
    next
      case 2
      then show ?thesis by (simp add: bare)
    qed
  qed
  ultimately show ?thesis by blast
qed

lemma governance_payload_inj:
  assumes "governance_payload g = governance_payload h"
  shows "gc_action g = gc_action h \<and> gc_action_digest g = gc_action_digest h \<and> gc_term g = gc_term h \<and> gc_epoch g = gc_epoch h"
proof -
  let ?head = "\<lambda>g. governance_action_name (gc_action g) @ '':'' @ gc_action_digest g"
  have e: "(?head g @ '':'' @ dec_string (unat (gc_term g))) = (?head h @ '':'' @ dec_string (unat (gc_term h)))
      \<and> dec_string (unat (gc_epoch g)) = dec_string (unat (gc_epoch h))"
    by (rule append_delim_eq [where c = "CHR '':''"]) (use assms colon_not_digit in \<open>simp_all add: governance_payload_def\<close>)
  then have t: "?head g = ?head h \<and> dec_string (unat (gc_term g)) = dec_string (unat (gc_term h))"
    by (intro append_delim_eq [where c = "CHR '':''"]) (use colon_not_digit in simp_all)
  have "gc_action g = gc_action h \<and> gc_action_digest g = gc_action_digest h"
    using t by (cases "gc_action g"; cases "gc_action h") auto
  then show ?thesis
    using e t dec_string_inj [of "unat (gc_term g)" "unat (gc_term h)"] dec_string_inj [of "unat (gc_epoch g)" "unat (gc_epoch h)"]
    by (simp add: unsigned_word_eqI)
qed

text \<open>
  Claim C31. A certificate that is accepted carries the signatures of at least as many different
  voters as it asks for, each active now and over this action, digest, term and epoch and no
  other.
\<close>

theorem governance_certificate_signed:
  assumes "verify_governance_certificate tc r g voting now"
  shows "0 < unat (gc_required_signers g) \<and> (\<exists>signers. signers |\<subseteq>| voting \<and> unat (gc_required_signers g) \<le> fcard signers
      \<and> (\<forall>n. n |\<in>| signers \<longrightarrow> (\<exists>i tag. identity_of r n = Some i \<and> identity_active_at i now \<and> fmlookup (gc_signer_tags g) n = Some tag
           \<and> identity_verify tc r n (ni_key_id i) (as_bytes (governance_payload g)) tag now)))
    \<and> (governance_payload g = governance_payload h \<longleftrightarrow>
         gc_action g = gc_action h \<and> gc_action_digest g = gc_action_digest h \<and> gc_term g = gc_term h \<and> gc_epoch g = gc_epoch h)"
proof -
  let ?S = "fmdom (gc_signer_tags g)"
  have shape: "gc_required_signers g \<noteq> 0" "unat (gc_required_signers g) \<le> fcard ?S"
    using assms by (auto simp: verify_governance_certificate_def bt_len_def split: if_splits)
  have signed: "n |\<in>| voting \<and> (\<exists>i tag. identity_of r n = Some i \<and> identity_active_at i now \<and> fmlookup (gc_signer_tags g) n = Some tag
           \<and> identity_verify tc r n (ni_key_id i) (as_bytes (governance_payload g)) tag now)" if "n |\<in>| ?S" for n
  proof -
    from that obtain tag where tag: "fmlookup (gc_signer_tags g) n = Some tag" by (auto simp: fmlookup_dom_iff)
    then have "(n, tag) \<in> set (bt_entries (gc_signer_tags g))" by (simp add: bt_entries_mem)
    then have "n |\<in>| voting \<and> (\<exists>i. identity_of r n = Some i
         \<and> identity_verify tc r n (ni_key_id i) (as_bytes (governance_payload g)) tag now)"
      using assms by (auto simp: verify_governance_certificate_def list_all_iff split: if_splits option.splits)
    then show ?thesis using tag by (auto simp: identity_verify_def identity_of_def split: option.splits)
  qed
  have "?S |\<subseteq>| voting" using signed by blast
  moreover have "0 < unat (gc_required_signers g)" using shape(1) by (simp add: unat_gt_0)
  moreover have "governance_payload g = governance_payload h \<longleftrightarrow>
         gc_action g = gc_action h \<and> gc_action_digest g = gc_action_digest h \<and> gc_term g = gc_term h \<and> gc_epoch g = gc_epoch h"
    using governance_payload_inj [of g h] by (auto simp: governance_payload_def)
  ultimately show ?thesis using shape(2) signed by blast
qed

text \<open>
  The number of signers is what the certificate says, and no signature covers it: from a
  certificate that is accepted, any one of its signatures makes a certificate of the same action
  that asks for one signer and is accepted.
\<close>

theorem governance_threshold_unsigned:
  assumes "verify_governance_certificate tc r g voting now" and "fmlookup (gc_signer_tags g) n = Some tag"
  shows "verify_governance_certificate tc r (g\<lparr>gc_required_signers := 1, gc_signer_tags := fmupd n tag fmempty\<rparr>) voting now"
proof -
  have "(n, tag) \<in> set (bt_entries (gc_signer_tags g))" using assms(2) by (simp add: bt_entries_mem)
  moreover have "bt_entries (fmupd n tag fmempty) = [(n, tag)]" by (simp add: bt_entries_def bt_keys_upd bt_contains_def)
  moreover have "governance_payload (g\<lparr>gc_required_signers := 1, gc_signer_tags := fmupd n tag fmempty\<rparr>) = governance_payload g"
    by (simp add: governance_payload_def)
  ultimately show ?thesis
    using assms(1)
    by (auto simp: verify_governance_certificate_def bt_len_upd bt_contains_def list_all_iff dest!: bspec split: if_splits option.splits)
qed

section \<open>Results\<close>

text \<open>
  Results with irreversible effects or of the highest value are never accepted on their
  digest alone, and results of moderate value of less trusted nodes not without a sample, when
  nothing is asked for; every policy is planned with one action, or refused when its numbers or
  names make no sense; and what is checked stays what was asked for otherwise.
\<close>

theorem verification_never_weakened:
  "let adapted = adaptive_verification_policy requested task_value level irreversible
   in (irreversible \<or> 90 \<le> task_value \<longrightarrow> plan_result_verification adapted \<noteq> Inr [AcceptDigest])
    \<and> (level \<le> LevelRestricted \<and> 50 \<le> task_value \<and> requested = NoVerification \<longrightarrow>
         plan_result_verification adapted \<in> {Inr [SampleResults 1000], Inr [RequireManualReview]})
    \<and> (requested \<notin> {NoVerification, HashOnly} \<longrightarrow> adapted = requested)
    \<and> adaptive_verification_policy adapted task_value level irreversible = adapted
    \<and> (plan_result_verification adapted = Inl trust_policy_error \<or> (\<exists>action. plan_result_verification adapted = Inr [action]))"
  by (cases requested) (auto simp: adaptive_verification_policy_def Let_def)

text \<open>
  A vote on results is accepted exactly when the number asked for is possible and that many
  of the digests, which are no more than asked for, are the trusted one; without a trusted
  digest it is left to a person.
\<close>

theorem n_of_m_needs_trusted_digest:
  "let v = verify_n_of_m tc task attempt observed required of_all trusted
   in (rv_status v = VerificationAccepted \<longleftrightarrow>
         (\<exists>digest. trusted = Some digest \<and> 0 < required \<and> required \<le> of_all \<and> length observed \<le> unat of_all
            \<and> unat required \<le> count_list observed digest))
    \<and> (rv_status v = VerificationManualReview \<longleftrightarrow> trusted = None)
    \<and> rv_status v \<in> {VerificationAccepted, VerificationManualReview, VerificationQuarantined}"
proof -
  have "length (filter (\<lambda>d. d = digest) observed) = count_list observed digest" for digest
    by (induction observed) auto
  then show ?thesis
    using count_le_length by (cases trusted) (fastforce simp: verify_n_of_m_def Let_def intro: order_trans)+
qed

section \<open>Reputation\<close>

datatype 'f reputation_op = Record NodeId string u64 "'f ReputationObservation" | Decay

fun reputation_step :: "('f, 'z) f64_arith_scheme \<Rightarrow> 'f reputation_op \<Rightarrow> 'f ReputationModel \<Rightarrow> 'f ReputationModel" where
  "reputation_step f (Record n c g x) m = snd (reputation_record f n c g x m)"
| "reputation_step f Decay m = reputation_decay f m"

definition bucket_ok :: "u32 \<Rightarrow> ReputationKey \<Rightarrow> 'f ReputationSnapshot \<Rightarrow> bool" where
  "bucket_ok minimum k s \<longleftrightarrow> k = (rs_node s, rs_capability s, rs_plugin_generation s)
     \<and> rs_plugin_generation s \<noteq> 0 \<and> rs_samples s \<noteq> 0 \<and> (rs_samples s < minimum \<longrightarrow> rs_anomalies s = {||})"

definition reputation_ok :: "'f ReputationModel \<Rightarrow> bool" where
  "reputation_ok m \<longleftrightarrow> rm_max_buckets m \<noteq> 0 \<and> rm_minimum_samples m \<noteq> 0 \<and> bucket_count m \<le> rm_max_buckets m
     \<and> (\<forall>k s. fmlookup (rm_buckets m) k = Some s \<longrightarrow> bucket_ok (rm_minimum_samples m) k s)"

lemma observe_simps:
  "rs_node (observe f mn x s) = rs_node s" "rs_capability (observe f mn x s) = rs_capability s"
  "rs_plugin_generation (observe f mn x s) = rs_plugin_generation s" "rs_samples (observe f mn x s) = sat_add (rs_samples s) 1"
  "rs_anomalies s |\<subseteq>| rs_anomalies (observe f mn x s)"
  "rs_samples (observe f mn x s) < mn \<Longrightarrow> rs_anomalies (observe f mn x s) = rs_anomalies s"
  by (auto simp: observe_def update_rates_def Let_def)

lemma reputation_record_ok:
  assumes "reputation_ok m" and "reputation_record f n c g x m = (res, m')"
  shows "reputation_ok m' \<and> rm_max_buckets m' = rm_max_buckets m \<and> rm_minimum_samples m' = rm_minimum_samples m"
proof (cases res)
  case (Inl e)
  then show ?thesis using assms by (auto simp: reputation_record_def Let_def split: if_splits prod.splits sum.splits)
next
  case (Inr s)
  from assms(2) [unfolded Inr] obtain b u where b: "make_room (n, c, g) m = (Inr u, b)" "g \<noteq> 0"
    and s: "s = observe f (rm_minimum_samples m) x (unwrap_or (fresh_reputation f n c g) (fmlookup b (n, c, g)))"
    and m': "m' = m\<lparr>rm_buckets := fmupd (n, c, g) s b\<rparr>"
    by (auto simp: reputation_record_def Let_def split: if_splits prod.splits sum.splits)
  have room: "bt_len (fmupd (n, c, g) s b) \<le> rm_max_buckets m" "\<And>k v. fmlookup b k = Some v \<Longrightarrow> fmlookup (rm_buckets m) k = Some v"
    using make_room_Inr [OF b(1)] assms(1) b(1)
    by (auto simp: reputation_ok_def bucket_count_def make_room_def split: if_splits list.splits)
  have pos: "sat_add k 1 \<noteq> 0" for k :: u32
    by (simp flip: unat_gt_0 add: unat_sat_add)
  have less: "k < mn" if "sat_add k 1 < mn" for k mn :: u32
    using that sat_add_ge [of k 1] by (rule order.strict_trans1 [rotated])
  have "bucket_ok (rm_minimum_samples m) (n, c, g) s"
  proof (cases "fmlookup b (n, c, g)")
    case None
    then have "s = observe f (rm_minimum_samples m) x (fresh_reputation f n c g)" by (simp add: s)
    then show ?thesis using pos b(2) observe_simps(6) [of f "rm_minimum_samples m" x "fresh_reputation f n c g"]
      by (simp add: bucket_ok_def observe_simps(1-4)) (simp add: fresh_reputation_def)
  next
    case (Some v)
    then have v: "bucket_ok (rm_minimum_samples m) (n, c, g) v" using assms(1) room(2) by (auto simp: reputation_ok_def)
    have "s = observe f (rm_minimum_samples m) x v" using Some by (simp add: s)
    then show ?thesis using v pos less [of "rs_samples v"] observe_simps(6) [of f "rm_minimum_samples m" x v]
      by (auto simp: bucket_ok_def observe_simps(1-4))
  qed
  then show ?thesis using assms(1) room by (auto simp: reputation_ok_def m' bucket_count_def)
qed

lemma reputation_step_ok:
  "reputation_ok m \<Longrightarrow> reputation_ok (reputation_step f x m) \<and> rm_max_buckets (reputation_step f x m) = rm_max_buckets m
     \<and> rm_minimum_samples (reputation_step f x m) = rm_minimum_samples m"
proof (cases x)
  case (Record n c g y)
  moreover obtain res m' where "reputation_record f n c g y m = (res, m')" by fastforce
  moreover assume "reputation_ok m"
  ultimately show ?thesis using reputation_record_ok [of m f n c g y res m'] by simp
next
  case Decay
  have "bucket_ok mn k (s\<lparr>rs_reliability := a, rs_timeout := b, rs_mismatch := c, rs_corruption := d\<rparr>) = bucket_ok mn k s"
    for mn k s and a b c d :: 'a by (simp add: bucket_ok_def)
  moreover assume "reputation_ok m"
  ultimately show ?thesis by (auto simp: Decay reputation_decay_def reputation_ok_def bucket_count_def bt_len_def)
qed

lemma reputation_run_ok:
  "reputation_ok m \<Longrightarrow> reputation_ok (fold (reputation_step f) xs m) \<and> rm_max_buckets (fold (reputation_step f) xs m) = rm_max_buckets m
     \<and> rm_minimum_samples (fold (reputation_step f) xs m) = rm_minimum_samples m"
proof (induction xs arbitrary: m)
  case (Cons x xs)
  then show ?case using reputation_step_ok [of m f x] by simp
qed simp

text \<open>
  Along any observations and decays the model stays within its number of buckets, a
  bucket is filed under its own node, capability and generation and has a sample, and no anomaly
  is reported of a bucket with fewer samples than the minimum; an observation counts one sample
  and takes no anomaly back.
\<close>

theorem reputation_bounded:
  assumes "reputation_new max_buckets minimum = Inr m0" and "m = fold (reputation_step f) xs m0"
    and "reputation_record f n c g x m = (Inr s, m')"
  shows "bucket_count m' \<le> max_buckets \<and> reputation_ok m' \<and> fmlookup (rm_buckets m') (n, c, g) = Some s
    \<and> (rs_samples s < minimum \<longrightarrow> rs_anomalies s = {||})
    \<and> (\<forall>old. fmlookup (rm_buckets m) (n, c, g) = Some old \<longrightarrow>
         rs_samples s = sat_add (rs_samples old) 1 \<and> rs_anomalies old |\<subseteq>| rs_anomalies s)"
proof -
  have "reputation_ok m0" "rm_max_buckets m0 = max_buckets" "rm_minimum_samples m0 = minimum"
    using assms(1) by (auto simp: reputation_new_def reputation_ok_def bucket_count_def split: if_splits)
  then have m: "reputation_ok m" "rm_max_buckets m = max_buckets" "rm_minimum_samples m = minimum"
    using reputation_run_ok [of m0 f xs] assms(2) by simp_all
  then have m': "reputation_ok m'" "rm_max_buckets m' = max_buckets" "rm_minimum_samples m' = minimum"
    using reputation_record_ok [OF _ assms(3)] by simp_all
  from assms(3) obtain b u where b: "make_room (n, c, g) m = (Inr u, b)"
    and s: "s = observe f (rm_minimum_samples m) x (unwrap_or (fresh_reputation f n c g) (fmlookup b (n, c, g)))"
    and upd: "m' = m\<lparr>rm_buckets := fmupd (n, c, g) s b\<rparr>"
    by (auto simp: reputation_record_def Let_def split: if_splits prod.splits sum.splits)
  have "fmlookup b (n, c, g) = fmlookup (rm_buckets m) (n, c, g)"
    using make_room_Inr [OF b] m(1) by (auto simp: reputation_ok_def bucket_count_def)
  then have "\<forall>old. fmlookup (rm_buckets m) (n, c, g) = Some old \<longrightarrow>
         rs_samples s = sat_add (rs_samples old) 1 \<and> rs_anomalies old |\<subseteq>| rs_anomalies s"
    by (simp add: s observe_simps(4,5))
  moreover have "fmlookup (rm_buckets m') (n, c, g) = Some s" by (simp add: upd)
  moreover from this have "rs_samples s < minimum \<longrightarrow> rs_anomalies s = {||}" using m' by (auto simp: reputation_ok_def bucket_ok_def)
  ultimately show ?thesis using m' by (simp add: reputation_ok_def)
qed

end
