(* ===== verification/Trust_Examples.thy ===== *)
theory Trust_Examples
  imports Trust_Properties
begin

text \<open>Instances of the properties of the trust plane: one node with one key.\<close>

definition demo_content_id :: ContentId where
  "demo_content_id = \<lparr>cid_algorithm = ''sha256'', cid_digest = ''d'', cid_size = 1, cid_format = ''blob''\<rparr>"

definition demo_tracker :: CompromiseTracker where
  "demo_tracker = \<lparr>ct_content = fmempty, ct_tasks = fmempty, ct_fencing_epoch = 1\<rparr>"

definition demo_authorizer :: ResourceAuthorizer where
  "demo_authorizer = \<lparr>zr_authorizations = fmempty, zr_key_id = ''z'', zr_secret = replicate 32 9\<rparr>"

definition demo_grant_request :: "string fset \<Rightarrow> grant_request" where
  "demo_grant_request scopes = \<lparr>gq_node_id = ''n'', gq_task_id = ''t'', gq_attempt = 1, gq_term = 1, gq_epoch = 1,
     gq_content_ids = [demo_content_id], gq_scopes = scopes, gq_persistent_cache = False, gq_issued_tick = 1, gq_valid_until = 50\<rparr>"

definition demo_authorization_codec :: "ResourceAuthorization serde" where
  "demo_authorization_codec = serde_single (requested_authorization demo_crypto 1 (demo_grant_request {|''read''|})) [1]"

lemma demo_generation [simp]: "key_generation demo_identities ''n'' = 1"
  by (simp add: key_generation_def) (simp add: demo_identity_def)

lemma demo_eligible [simp]: "1 \<le> now \<Longrightarrow> now \<le> 100 \<Longrightarrow> eligible demo_identities ''n'' LevelUntrusted now"
  by (simp add: eligible_def demo_identities_def level_order) (simp add: demo_identity_def identity_active_at_def)

lemma demo_grant:
  assumes "to_vec sd (requested_authorization demo_crypto 1 (demo_grant_request scopes)) = Some [1]" and "scopes \<noteq> {||}"
  shows "\<exists>a z'. grant demo_crypto sd demo_identities (demo_grant_request scopes) z = (Inr a, z')"
proof -
  have "mac_hex demo_crypto (zr_secret z) [1] = Inr (hex_string [1])" by (simp add: mac_hex_def demo_crypto_def)
  moreover have "ni_key_generation demo_identity = 1" by (simp add: demo_identity_def)
  moreover have "\<not> (50 :: u64) \<le> 1" by (simp add: word_le_nat_alt)
  moreover have "demo_grant_request scopes = q \<Longrightarrow> gq_node_id q = ''n'' \<and> gq_attempt q = 1 \<and> gq_term q = 1 \<and> gq_epoch q = 1
      \<and> gq_content_ids q \<noteq> [] \<and> gq_scopes q = scopes \<and> gq_issued_tick q = 1 \<and> gq_valid_until q = 50" for q
    by (auto simp: demo_grant_request_def)
  ultimately show ?thesis using assms by (simp add: grant_def Let_def canonical_json_def)
qed

lemma isolation_is_permanent_witness:
  "\<exists>impact t r z. isolate_node ''n'' (demo_tracker, demo_identities, demo_authorizer) = (Inr impact, t, r, z)
     \<and> \<not> validate_authorization demo_crypto demo_authorization_codec r z
           (requested_authorization demo_crypto 1 (demo_grant_request {|''read''|})) 1 1 5"
proof -
  obtain revoked z0 where v: "revoke_for_node ''n'' demo_authorizer = (revoked, z0)" by fastforce
  obtain impact t r z where i: "isolate_node ''n'' (demo_tracker, demo_identities, demo_authorizer) = (Inr impact, t, r, z)"
    by (simp add: isolate_node_def quarantine_def get_entry_def demo_identities_def Let_def v)
  have "fst (snd (snd (isolate_node ''n'' (demo_tracker, demo_identities, demo_authorizer)))) = r" by (simp add: i)
  then show ?thesis
    using isolation_is_permanent [OF i, of demo_crypto demo_authorization_codec "[]"
        _ _ _ "requested_authorization demo_crypto 1 (demo_grant_request {|''read''|})" 1 1 5] i
    by (auto simp: requested_authorization_def demo_grant_request_def)
qed


lemma revoked_authorization_revives_witness:
  "\<exists>sd a z1 revoked z2 b z3.
     grant demo_crypto sd demo_identities (demo_grant_request {|''read''|}) demo_authorizer = (Inr a, z1)
     \<and> revoke_task ''t'' z1 = (revoked, z2) \<and> grant demo_crypto sd demo_identities (demo_grant_request {|''list''|}) z2 = (Inr b, z3)
     \<and> validate_authorization demo_crypto sd demo_identities z3 a 1 1 5"
proof -
  let ?sd = "\<lparr>to_vec = (\<lambda>_. Some [1]), from_slice = (\<lambda>_. None)\<rparr> :: ResourceAuthorization serde"
  obtain a z1 where g: "grant demo_crypto ?sd demo_identities (demo_grant_request {|''read''|}) demo_authorizer = (Inr a, z1)"
    using demo_grant [of ?sd "{|''read''|}" demo_authorizer] by auto
  obtain revoked z2 where v: "revoke_task ''t'' z1 = (revoked, z2)" by fastforce
  obtain b z3 where h: "grant demo_crypto ?sd demo_identities (demo_grant_request {|''list''|}) z2 = (Inr b, z3)"
    using demo_grant [of ?sd "{|''list''|}" z2] by auto
  have fields: "gq_task_id (demo_grant_request s) = ''t''" "(demo_grant_request s)\<lparr>gq_content_ids := [demo_content_id], gq_scopes := s'\<rparr> = demo_grant_request s'"
    "gq_issued_tick (demo_grant_request s) = 1" "gq_valid_until (demo_grant_request s) = 50" "gq_node_id (demo_grant_request s) = ''n''"
    "gq_term (demo_grant_request s) = 1" "gq_epoch (demo_grant_request s) = 1" for s s'
    by (simp_all add: demo_grant_request_def)
  have "grant demo_crypto ?sd demo_identities
      ((demo_grant_request {|''read''|})\<lparr>gq_content_ids := [demo_content_id], gq_scopes := {|''list''|}\<rparr>) z2 = (Inr b, z3)"
    using h by (simp only: fields)
  from revoked_authorization_revives [OF g _ this, of revoked 5]
  have "validate_authorization demo_crypto ?sd demo_identities z3 a 1 1 5" using v by (simp add: fields word_le_nat_alt)
  then show ?thesis using g v h by blast
qed

section \<open>Receipts and certificates\<close>

text \<open>
  Numbers with two values that are not finite, and the JSON of both kinds: a numeral, or \<open>null\<close>.
\<close>

datatype demo_float = Number int | NotANumber bool

fun demo_float_op :: "(int \<Rightarrow> int \<Rightarrow> int) \<Rightarrow> demo_float \<Rightarrow> demo_float \<Rightarrow> demo_float" where
  "demo_float_op g (Number a) (Number b) = Number (g a b)"
| "demo_float_op g _ _ = NotANumber True"

fun demo_float_rel :: "(int \<Rightarrow> int \<Rightarrow> bool) \<Rightarrow> demo_float \<Rightarrow> demo_float \<Rightarrow> bool" where
  "demo_float_rel g (Number a) (Number b) = g a b"
| "demo_float_rel g _ _ = False"

fun demo_float_json :: "demo_float \<Rightarrow> string" where
  "demo_float_json (Number n) = (if n < 0 then ''-'' @ dec_string (nat (- n)) else dec_string (nat n))"
| "demo_float_json (NotANumber _) = ''null''"

definition demo_float_ops :: "demo_float f64_ops" where
  "demo_float_ops = \<lparr>f_add = demo_float_op (+), f_sub = demo_float_op (-), f_mul = demo_float_op (*), f_lt = demo_float_rel (<),
     f_le = demo_float_rel (\<le>), f_finite = (\<lambda>x. \<exists>n. x = Number n), f_zero = Number 0, f_hundred = Number 100\<rparr>"

lemma dec_string_not: "of_char c \<notin> {48..57 :: nat} \<Longrightarrow> dec_string n \<noteq> c # cs"
  using dec_string_digits [of n] by (auto simp: of_char_of)

lemma demo_float_json_inj: "demo_float_json (Number n) = demo_float_json y \<Longrightarrow> Number n = y"
proof (cases y)
  case (Number m)
  have minus: "dec_string k \<noteq> CHR ''-'' # cs" for k cs
    by (rule dec_string_not) simp
  assume "demo_float_json (Number n) = demo_float_json y"
  then show ?thesis
    using Number minus minus [THEN not_sym] dec_string_inj [of "nat (- n)" "nat (- m)"] dec_string_inj [of "nat n" "nat m"]
    by (auto split: if_splits)
next
  case (NotANumber b)
  have "dec_string k \<noteq> CHR ''n'' # cs" for k cs
    by (rule dec_string_not) simp
  moreover assume "demo_float_json (Number n) = demo_float_json y"
  ultimately show ?thesis using NotANumber by (auto split: if_splits)
qed

definition demo_receipt :: "demo_float ExecutionReceipt" where
  "demo_receipt = \<lparr>er_task_id = ''t'', er_attempt = 1, er_term = 1, er_epoch = 1, er_node_id = ''n'', er_task_schema = ''s'',
     er_input_content_id = demo_content_id, er_output_content_id = demo_content_id, er_runner_id = ''r'',
     er_runner_generation = 1, er_plugin_id = ''p'', er_plugin_generation = 1, er_execution_variant = ''v'',
     er_policy_digest = ''d'', er_quality = Number 1, er_degraded_flags = {||}, er_environment_digest = ''e'',
     er_identity_key_id = [], er_receipt_tag = []\<rparr>"

text \<open>A codec for the receipts that differ from this one in the quality only; \<open>null\<close> cannot be read.\<close>

definition demo_receipt_codec :: "demo_float ExecutionReceipt serde" where
  "demo_receipt_codec =
     \<lparr>to_vec = (\<lambda>x. if x = demo_receipt\<lparr>er_quality := er_quality x\<rparr> then Some (as_bytes (demo_float_json (er_quality x))) else None),
      from_slice = (\<lambda>bs. map_option (\<lambda>n. demo_receipt\<lparr>er_quality := Number (int n)\<rparr>) (parse_unsigned (2 ^ 64) (string_of_bytes bs)))\<rparr>"

lemma demo_receipt_codec_ok: "receipt_codec_ok demo_float_ops demo_receipt_codec"
proof -
  have "w = v" if v: "er_quality v = Number n" and enc: "to_vec demo_receipt_codec v = Some p" "to_vec demo_receipt_codec w = Some p" for v w n p
  proof -
    have shape: "v = demo_receipt\<lparr>er_quality := er_quality v\<rparr>" "w = demo_receipt\<lparr>er_quality := er_quality w\<rparr>"
      and "as_bytes (demo_float_json (er_quality v)) = as_bytes (demo_float_json (er_quality w))"
      using enc by (simp_all add: demo_receipt_codec_def split: if_split_asm)
    then have "demo_float_json (Number n) = demo_float_json (er_quality w)" using v by (metis string_of_as_bytes)
    then have "er_quality w = er_quality v" using demo_float_json_inj v by metis
    then show ?thesis using shape by metis
  qed
  moreover have "f_finite demo_float_ops x \<longleftrightarrow> (\<exists>n. x = Number n)" for x by (simp add: demo_float_ops_def)
  ultimately show ?thesis unfolding receipt_codec_ok_def encoded_uniquely_def by blast
qed

text \<open>Two receipts with qualities that are not finite have one encoding, so no decoder reads both back.\<close>

lemma demo_receipt_codec_not_serde_ok: "\<not> serde_ok demo_receipt_codec"
proof
  let ?v = "\<lambda>b. demo_receipt\<lparr>er_quality := NotANumber b\<rparr>"
  have null: "to_vec demo_receipt_codec (?v b) = Some (as_bytes ''null'')" for b by (simp add: demo_receipt_codec_def)
  assume "serde_ok demo_receipt_codec"
  from encoded_uniquelyD [OF serde_ok_unique [OF this] null null] have "?v False = ?v True" .
  then have "er_quality (?v False) = er_quality (?v True)" by (rule arg_cong)
  then show False by simp
qed

lemma demo_receipt_fields [simp]:
  "er_attempt demo_receipt = 1" "er_term demo_receipt = 1" "er_epoch demo_receipt = 1" "er_node_id demo_receipt = ''n''"
  "er_runner_generation demo_receipt = 1" "er_plugin_generation demo_receipt = 1" "er_quality demo_receipt = Number 1"
  by (simp_all add: demo_receipt_def)

lemma receipt_binds_witness:
  "\<not> serde_ok demo_receipt_codec \<and>
   (\<exists>y. sign_execution_receipt demo_crypto demo_receipt_codec demo_float_ops demo_identities demo_receipt 5 = Inr y
     \<and> verify_execution_receipt demo_crypto demo_receipt_codec demo_identities y None 1 1 1 6 = Inr ())"
proof -
  have one: "dec_string 1 = ''1''" by code_simp
  have "bare_receipt demo_receipt = demo_receipt" by (simp add: bare_receipt_def demo_receipt_def)
  moreover have "demo_receipt\<lparr>er_quality := Number 1\<rparr> = demo_receipt" by (simp add: demo_receipt_def)
  ultimately have p: "canonical_json demo_receipt_codec (bare_receipt demo_receipt) = Inr (as_bytes ''1'')"
    using one by (simp add: demo_receipt_codec_def)
  have entry: "fmlookup (ir_entries demo_identities) ''n'' = Some \<lparr>ie_identity = demo_identity, ie_secret = replicate 32 7\<rparr>"
    by (simp add: demo_identities_def)
  have "identity_sign demo_crypto demo_identities ''n'' (as_bytes ''1'') 5 = Inr (''k'', hex_string (as_bytes ''1''))"
    using demo_active by (auto simp: identity_sign_Inr entry mac_hex_def demo_crypto_def) (simp add: demo_identity_def)
  then obtain y where y: "sign_execution_receipt demo_crypto demo_receipt_codec demo_float_ops demo_identities demo_receipt 5 = Inr y"
    using p by (simp add: sign_execution_receipt_def demo_float_ops_def)
  have active: "identity_active_at demo_identity 6" by (simp add: identity_active_at_def demo_identity_def)
  have "verify_execution_receipt demo_crypto demo_receipt_codec demo_identities y None 1 1 1 6 = Inr ()"
    using receipt_binds [OF demo_receipt_codec_ok y, of demo_identities "\<lparr>ie_identity = demo_identity, ie_secret = replicate 32 7\<rparr>" 6]
      entry active by simp
  then show ?thesis using y demo_receipt_codec_not_serde_ok by blast
qed

definition demo_certificate :: GovernanceCertificate where
  "demo_certificate = \<lparr>gc_action = LeaderFence, gc_action_digest = ''d'', gc_term = 1, gc_epoch = 1, gc_required_signers = 1,
     gc_signer_tags = fmupd ''n'' (hex_string (as_bytes ''LeaderFence:d:1:1'')) fmempty\<rparr>"

lemma demo_certificate_accepted: "verify_governance_certificate demo_crypto demo_identities demo_certificate {|''n''|} 5"
proof -
  have one: "dec_string 1 = ''1''" by code_simp
  have payload: "governance_payload demo_certificate = ''LeaderFence:d:1:1''"
    by (simp add: governance_payload_def demo_certificate_def one flip: One_nat_def)
  have fields: "gc_required_signers demo_certificate = 1" "gc_signer_tags demo_certificate = fmupd ''n'' (hex_string (as_bytes ''LeaderFence:d:1:1'')) fmempty"
    by (simp_all add: demo_certificate_def)
  have "identity_verify demo_crypto demo_identities ''n'' (ni_key_id demo_identity) bs (hex_string bs) 5" for bs
    using demo_active by (simp add: identity_verify_def demo_identities_def verify_mac_def demo_crypto_def)
  then show ?thesis
    by (simp add: verify_governance_certificate_def payload fields bt_entries_def bt_keys_upd bt_len_upd bt_contains_def)
qed

lemma governance_certificate_signed_witness: "0 < unat (gc_required_signers demo_certificate)"
  using governance_certificate_signed [OF demo_certificate_accepted] by blast

lemma governance_threshold_unsigned_witness:
  "verify_governance_certificate demo_crypto demo_identities
     (demo_certificate\<lparr>gc_required_signers := 1, gc_signer_tags := fmupd ''n'' (hex_string (as_bytes ''LeaderFence:d:1:1'')) fmempty\<rparr>)
     {|''n''|} 5"
  by (rule governance_threshold_unsigned [OF demo_certificate_accepted]) (simp add: demo_certificate_def)

section \<open>Results and reputation\<close>

lemma verification_never_weakened_witness:
  "plan_result_verification (adaptive_verification_policy HashOnly 10 LevelTrusted True) \<noteq> Inr [AcceptDigest]"
  using verification_never_weakened [of HashOnly 10 LevelTrusted True] by (simp add: Let_def)

lemma reputation_bounded_witness:
  "\<exists>m s m'. reputation_new 1 1 = Inr m
     \<and> reputation_record int_arith ''n'' ''c'' 1 \<lparr>ro_flags = 1, ro_latency_ratio = 1\<rparr> m = (Inr s, m') \<and> bucket_count m' \<le> 1"
proof -
  obtain m :: "int ReputationModel" where m: "reputation_new 1 1 = Inr m" and empty: "rm_buckets m = fmempty" "rm_max_buckets m = 1"
    by (simp add: reputation_new_def)
  obtain s m' where r: "reputation_record int_arith ''n'' ''c'' 1 \<lparr>ro_flags = 1, ro_latency_ratio = 1\<rparr> m = (Inr s, m')"
    by (simp add: reputation_record_def make_room_def empty Let_def int_arith_def)
  show ?thesis using reputation_bounded [OF m _ r, of "[]"] m r by (auto simp: One_nat_def)
qed

end
