(* ===== verification/Spec2Isabelle.thy ===== *)
theory Spec2Isabelle
  imports Cft_Replica Failure_Detector Garbage_Collection Audit_Merkle Admission_Properties Scheduler_Properties
    Coordinator_Examples Recovery_Properties Trust_Examples
begin

text \<open>
  Verification of MutsukiDistributedHost.

  The repository is a sidecar that distributes the tasks of a local host over a cluster.  Its
  core keeps authoritative state through failures: a registry of global tasks with a
  write-ahead log, snapshots and metadata replicas; a catalogue of content and its replicas;
  and a control plane of nodes that elect a leader and replicate a log.  This development
  models that core and proves what it promises.

  \<^bold>\<open>Conventions.\<close>  A Rust \<open>String\<close> is the list of its UTF-8 bytes (type \<open>string\<close>), a \<open>BTreeMap\<close>
  is a finite map read in key order (\<open>bt_entries\<close>, \<open>bt_keys\<close>, \<open>bt_values\<close> of \<open>Prelude\<close>), \<open>u64\<close>,
  \<open>u32\<close> and \<open>u8\<close> are words of that width with the saturating and checked operations the code
  calls, \<open>usize\<close> counts of things in memory are \<open>nat\<close>.  An operation on a state takes the
  state and returns its result (\<open>Inl\<close> an error, \<open>Inr\<close> a value) with the new state; a panic is
  the error \<open>panic_error\<close>.  The outcomes of file system calls are arguments: each write, sync
  and rename may fail, an append may stop after any number of bytes.  Code of other packages
  is a parameter: SHA-256 (\<open>cx_sha\<close>), the serde encoders (records of an encoding and a decoding
  function, with the law that what was encoded decodes to itself as the hypothesis \<open>serde_ok\<close> or
  \<open>codec_ok\<close>; for receipts, whose quality is an \<open>f64\<close> that JSON writes as \<open>null\<close> when it is not
  finite, only that the encodings of finite ones are their own, \<open>receipt_codec_ok\<close>), and the types
  of the host protocol (\<open>'p\<close>, \<open>'r\<close> and \<open>'h\<close> for the portable task, its requirements and the
  task handle).

  \<^bold>\<open>Contracts\<close> (\<open>crates/mutsuki-distributed-contracts\<close>).  \<open>Contracts\<close> has the durable records of
  \<open>durability.rs\<close> and the errors of \<open>lib.rs\<close>, \<open>Ha_Contracts\<close> the types of \<open>ha.rs\<close>.

  \<^bold>\<open>Write-ahead log\<close> (\<open>persistent_registry.rs\<close>).  \<open>Wal_Frame\<close> has \<open>encode_frame\<close> and
  \<open>decode_frame_at\<close>, \<open>Wal_File\<close> the file with its bytes and the length that is synced.  Decoding
  inverts encoding and accepts nothing else, and a frame cut by a crash is incomplete and not
  corrupt.

  \<^bold>\<open>Metadata replicas\<close> (\<open>persistent_registry.rs\<close>).  The trait \<open>MetadataReplica\<close> is the locale
  \<open>metadata_replica\<close> of \<open>Metadata_Replica\<close>: an acknowledgement names the replica and the
  transaction, which the replica then holds, and what it holds it keeps.  \<open>exclusive_replica\<close>
  adds that an index holds one transaction.  \<open>FileMetadataReplica\<close> interprets the second,
  \<open>CftRegistryReplica\<close> (\<open>Cft_Replica\<close>) the first.  \<open>Registry_Replication\<close> proves the registry's
  promise on copies once, for any replica.

  \<^bold>\<open>Persistent registry\<close> (\<open>persistent_registry.rs\<close>).  \<open>Registry_Mutation\<close> has the transitions of
  a task, \<open>Persistent_Registry\<close> the snapshot, replay, the two-phase transaction, compaction and
  every public operation.  \<open>Registry_Recovery\<close> describes the logs a registry can write and
  proves that replay inverts them on every prefix; \<open>Registry_Operations\<close> that every operation
  keeps the invariant between memory, log and snapshot; \<open>Registry_History\<close> lifts it to sequences
  of operations, and \<open>Registry_Properties\<close> holds the properties.

  \<^bold>\<open>Resource catalogue\<close> (\<open>resource_catalog.rs\<close>).  \<open>Resource_Catalog\<close>, an instance of the locale
  \<open>durable_cell\<close> (\<open>Durable_Cell\<close>) of values that are rewritten to a file as a whole.

  \<^bold>\<open>Control plane\<close> (\<open>ha_control.rs\<close>).  \<open>Ha_Control\<close> has \<open>ReferenceCftModel\<close>: opening, elections,
  partitions, recovery, leases, proposals, grants and reconciliation.  \<open>Ha_Consensus\<close> proves the
  agreement of the logs from the intersection of quorums (the locale \<open>quorums\<close>) and what a proposal,
  committed or refused, leaves in the files of the nodes, \<open>Ha_Properties\<close> holds the properties.  \<open>Failure_Detector\<close> has the member detector and the
  leadership preference, with \<open>f64\<close> as a type parameter.

  \<^bold>\<open>Content store\<close> (\<open>content_store.rs\<close>).  \<open>Content_Store\<close> has the transfer queue and every
  operation of \<open>ContentStore\<close> on the files of its three directories, and the invariant that a
  committed manifest has all its chunks.  \<open>Content_Properties\<close> shows that committed content
  stays readable through failing operations, that storing and reading are inverse, and that
  the queue is a bounded first-in first-out list.  \<open>Garbage_Collection\<close> joins the catalogue and
  the store: removing what the catalogue collects leaves all other content readable.

  \<^bold>\<open>Trust audit\<close> (\<open>trust_audit.rs\<close>, types of \<open>trust.rs\<close> in \<open>Trust_Contracts\<close>).  \<open>Trust_Audit\<close> has
  the audit log with its file, the hash chain, segments, Merkle trees and inclusion proofs.
  \<open>Audit_Properties\<close> shows that the file gives the log back, that the last hash pins the whole
  log down, and what a failed write does; \<open>Audit_Merkle\<close> that inclusion proofs are complete and
  sound.  Statements on hashes end in a disjunct that exhibits two different strings, among
  those the log hashes, with the same digest.

  \<^bold>\<open>Scheduler\<close> (\<open>scheduler.rs\<close> of both crates, types in \<open>Scheduler_Contracts\<close>).
  \<open>Admission_Control\<close> has the admission controller, the telemetry sampler, the meter of background
  work and the network budget; \<open>Admission_Properties\<close> shows that reservations never exceed the
  node and that every budget holds.  \<open>Capability_Index\<close> has the enumeration of set bits and the
  index from capabilities and plugins to nodes, with its refinement to a scan.
  \<open>Performance_Model\<close> has the latency histograms, whose quantiles are shown to be ranks.
  \<open>Placement_Scheduler\<close> has the task queue and the placement, \<open>Scheduler_Properties\<close> what a plan
  guarantees: the predicate \<open>placeable\<close> states the latencies, the failure probability and the cost
  that a placement is judged by as functions of the node, the variant and the request.  \<open>Float_Ops\<close> has the operations on \<open>f64\<close> the models take as a parameter.

  \<^bold>\<open>Cluster\<close> (\<open>lib.rs\<close> of both crates, types in \<open>Cluster_Contracts\<close>).  \<open>Worker_Registry\<close> has
  registration, pulses and the choice of workers, \<open>Worker_Wire\<close> the worker behind a connection,
  the dispatcher and the worker endpoint, with the control frames between them.  \<open>Coordinator\<close>
  has the operations of the coordinator and the sidecar, a second time as the steps between the
  coordinator's locks, which other operations come between (\<open>coord_step\<close>).
  \<open>Coordinator_Properties\<close> shows where tasks are placed, in the locale \<open>honest_cluster\<close> of workers
  that answer for themselves, which endpoints are, that one attempt is active and that a
  connection does not change what a worker does; \<open>Coordinator_Examples\<close> what overlapping
  operations do, and the instances of the properties.

  \<^bold>\<open>Recovery\<close> (\<open>recovery.rs\<close> of both crates).  \<open>Recovery_Planning\<close> has the planner, the decisions
  on effects and sessions and the admission of mirrors, \<open>Checkpoints\<close> the checkpoint manager on
  the content store.  \<open>Recovery_Properties\<close> shows that a planned attempt is one the registry
  assigns and the policy and the worker allow, that checkpoints come back and name what changed, and the budgets.

  \<^bold>\<open>Trust plane\<close> (\<open>trust_plane.rs\<close>, \<open>trust_reputation.rs\<close>).  \<open>Trust_Crypto\<close> has the digests and tags,
  with the locale \<open>sealed_object\<close> of objects that carry a tag over themselves, which artifacts,
  evidence, authorizations, receipts and state bindings interpret.  \<open>Trust_Identity\<close> has the
  identity registry, the policy engine and the budget meter, \<open>Trust_Authority\<close> the artifact and
  attestation verifiers and the authorizer, \<open>Trust_Evidence\<close> receipts, bindings, certificates and
  the verification of results, \<open>Trust_Reputation\<close> the reputation model and the isolation of
  compromised nodes.  \<open>Identity_Properties\<close> and \<open>Trust_Properties\<close> show what they guarantee along
  any operations: a withdrawn node is out until it is readmitted, what an isolated node was given
  is never valid again, and what an accepted signature proves; \<open>Trust_Examples\<close> has the instances.

  \<^bold>\<open>Bounds and fuel.\<close>  Every loop of the modelled code runs over a list or consumes bytes of a
  log or makes a number smaller (the bits of a mask, the levels of a Merkle tree, the buckets of
  a histogram), so each definition is total and none takes fuel; the scan of a log terminates
  because every frame has at least four bytes.

  \<^bold>\<open>Not modelled.\<close>  The failure injection under \<open>cfg(test)\<close>; a truncation that fails after a
  failed append (the code ignores it, the properties exclude it by \<open>rio_ok\<close>); several control log
  replicas on one control plane.  Of \<open>lib.rs\<close> the protocol descriptor, the negotiation of a
  session and the polling of events, which are values of other packages; the asynchronous
  drivers over sockets and the link library (\<open>process.rs\<close>, \<open>content_localization.rs\<close>,
  \<open>localization_io.rs\<close>), the host binary, the host adapter's client and the control client.
\<close>

end
